(* ===== verification/Prelude.thy ===== *)
theory Prelude
  imports Complex_Main "HOL-Library.AList" "HOL-Library.List_Lexorder" "HOL-Library.Char_ord"
    "HOL-Library.Product_Lexorder"
begin

text \<open>
  Shared vocabulary of the development: names for the primitive TypeScript types, the JavaScript
  idioms the sources use everywhere (truthiness of an optional string, \<open>a ?? b\<close>, ``write only the
  fields that are present'', an insertion-ordered \<open>Map\<close>, a stable \<open>Array.sort\<close> whose first element is
  taken), and the generic facts about association lists, folds and sorting that the component
  proofs use.

  A JavaScript \<open>Map\<close> is an association list in insertion order: \<open>set\<close> on a present key overwrites
  in place (\<open>AList.update\<close>), \<open>delete\<close> removes (\<open>AList.delete\<close>), \<open>get\<close> is \<open>map_of\<close>.  A JavaScript
  string is a list of characters compared lexicographically.  Times are integers (milliseconds).
\<close>

named_theorems js_simps \<open>unfolding of the JavaScript idioms\<close>
named_theorems store_inv \<open>operations of a store preserve its invariant\<close>
named_theorems store_frame \<open>what an operation of a store leaves alone\<close>

type_synonym ms = int
type_synonym content_hash = string
type_synonym 'v js_map = "(string \<times> 'v) list"

text \<open>Truthiness of an optional string: \<open>undefined\<close> and the empty string are falsy.\<close>

definition truthy :: "string option \<Rightarrow> bool" where
  "truthy s = (case s of None \<Rightarrow> False | Some x \<Rightarrow> x \<noteq> [])"

text \<open>\<open>a ?? b\<close> on an optional value, and the conditional field write
  \<open>if (patch.f !== undefined) row.f = patch.f\<close> on an optional field.\<close>

definition orElse :: "'a option \<Rightarrow> 'a \<Rightarrow> 'a" where
  "orElse a b = (case a of None \<Rightarrow> b | Some x \<Rightarrow> x)"

definition written :: "'a option \<Rightarrow> 'a option \<Rightarrow> 'a option" where
  "written p old = (case p of None \<Rightarrow> old | Some x \<Rightarrow> Some x)"

lemma orElse_simps [simp, js_simps]: "orElse None b = b" "orElse (Some x) b = x"
  by (simp_all add: orElse_def)

lemma written_simps [simp, js_simps]: "written None old = old" "written (Some x) old = Some x"
  by (simp_all add: written_def)

lemma truthy_simps [simp, js_simps]: "truthy None = False" "truthy (Some x) = (x \<noteq> [])"
  by (simp_all add: truthy_def)

lemma written_assoc: "written p (written q old) = written (written p q) old"
  by (cases p) simp_all

subsection \<open>Maps\<close>

definition js_get :: "'v js_map \<Rightarrow> string \<Rightarrow> 'v option" where
  "js_get m k = map_of m k"

definition js_set :: "string \<Rightarrow> 'v \<Rightarrow> 'v js_map \<Rightarrow> 'v js_map" where
  "js_set k v m = AList.update k v m"

definition js_delete :: "string \<Rightarrow> 'v js_map \<Rightarrow> 'v js_map" where
  "js_delete k m = AList.delete k m"

definition js_keys :: "'v js_map \<Rightarrow> string list" where
  "js_keys m = map fst m"

definition js_values :: "'v js_map \<Rightarrow> 'v list" where
  "js_values m = map snd m"

definition map_ok :: "'v js_map \<Rightarrow> bool" where
  "map_ok m = distinct (map fst m)"

lemma map_ok_Nil [simp]: "map_ok []"
  by (simp add: map_ok_def)

lemma map_ok_set [simp, store_inv]: "map_ok m \<Longrightarrow> map_ok (js_set k v m)"
  by (simp add: map_ok_def js_set_def distinct_update)

lemma map_ok_delete [simp, store_inv]: "map_ok m \<Longrightarrow> map_ok (js_delete k m)"
  by (simp add: map_ok_def js_delete_def AList.distinct_delete)

lemma js_get_Nil [simp]: "js_get [] k = None"
  by (simp add: js_get_def)

lemma js_get_set [simp]: "js_get (js_set k v m) k' = (if k' = k then Some v else js_get m k')"
  by (simp add: js_get_def js_set_def update_conv')

lemma js_get_delete [simp]: "js_get (js_delete k m) k' = (if k' = k then None else js_get m k')"
  by (simp add: js_get_def js_delete_def AList.delete_conv')

lemma js_set_set [simp]: "js_set k v (js_set k w m) = js_set k v m"
  unfolding js_set_def by (induction m) auto

lemma js_keys_set: "js_get m k \<noteq> None \<Longrightarrow> js_keys (js_set k v m) = js_keys m"
  unfolding js_get_def js_set_def js_keys_def by (induction m) (auto split: if_splits)

lemma js_get_values: "js_get m k = Some v \<Longrightarrow> v \<in> set (js_values m)"
  by (force simp: js_get_def js_values_def dest!: map_of_SomeD)

lemma js_values_get: "map_ok m \<Longrightarrow> v \<in> set (js_values m) \<Longrightarrow> \<exists>k. js_get m k = Some v"
  by (auto simp: js_get_def js_values_def map_ok_def)

lemma js_get_keys: "js_get m k = None \<longleftrightarrow> k \<notin> set (js_keys m)"
  by (simp add: js_get_def js_keys_def map_of_eq_None_iff)

lemma js_get_in: "map_ok m \<Longrightarrow> js_get m k = Some v \<longleftrightarrow> (k, v) \<in> set m"
  by (simp add: js_get_def map_ok_def)

text \<open>Updating an existing key rewrites exactly that entry, in place.\<close>

lemma js_set_as_map:
  "map_ok m \<Longrightarrow> js_get m k \<noteq> None \<Longrightarrow>
   js_set k v m = map (\<lambda>(k', v'). if k' = k then (k', v) else (k', v')) m"
proof (induction m)
  case (Cons p m)
  obtain a b where p: "p = (a, b)" by (cases p)
  show ?case
  proof (cases "a = k")
    case True
    hence "k \<notin> fst ` set m" using Cons.prems(1) p by (auto simp: map_ok_def)
    hence "map (\<lambda>(k', v'). if k' = k then (k', v) else (k', v')) m = m"
      by (induction m) (auto simp: image_iff)
    thus ?thesis using True p by (simp add: js_set_def)
  next
    case False
    thus ?thesis using Cons p by (auto simp: js_set_def js_get_def map_ok_def)
  qed
qed simp

lemma js_set_same [simp]: "js_get m k = Some v \<Longrightarrow> js_set k v m = m"
  unfolding js_get_def js_set_def by (induction m) (auto split: if_splits)

lemma js_set_middle: "k \<notin> fst ` set pre \<Longrightarrow> js_set k v (pre @ (k, w) # suf) = pre @ (k, v) # suf"
  unfolding js_set_def by (induction pre) auto

lemma js_get_middle: "k \<notin> fst ` set pre \<Longrightarrow> js_get (pre @ (k, w) # suf) k = Some w"
  unfolding js_get_def by (induction pre) auto

lemma js_set_entries:
  assumes "map_ok m"
  shows "(k, s) \<in> set (js_set rid r m) \<longleftrightarrow> (k = rid \<and> s = r) \<or> (k \<noteq> rid \<and> (k, s) \<in> set m)"
proof -
  have "(k, s) \<in> set (js_set rid r m) \<longleftrightarrow> js_get (js_set rid r m) k = Some s"
    using js_get_in [OF map_ok_set [OF assms]] by simp
  thus ?thesis using js_get_in [OF assms] by auto
qed

lemma js_get_map: "js_get (map (\<lambda>(k, v). (k, f k v)) m) k = map_option (f k) (js_get m k)"
  unfolding js_get_def by (induction m) auto

lemma map_ok_map [simp]: "map_ok (map (\<lambda>(k, v). (k, f k v)) m) = map_ok m"
  by (simp add: map_ok_def case_prod_beta comp_def)

subsection \<open>The first element of a stable sort\<close>

lemma sort_key_Nil_iff [simp]: "sort_key f xs = [] \<longleftrightarrow> xs = []"
  by (metis length_0_conv length_sort)

lemma hd_sort_key_in: "xs \<noteq> [] \<Longrightarrow> hd (sort_key f xs) \<in> set xs"
  by (metis hd_in_set set_sort sort_key_Nil_iff)

lemma hd_sort_key_min:
  assumes "x \<in> set xs"
  shows "f (hd (sort_key f xs)) \<le> f x"
proof -
  have s: "sorted (map f (sort_key f xs))" by simp
  have "x \<in> set (sort_key f xs)" using assms by simp
  then obtain y ys where c: "sort_key f xs = y # ys" by (cases "sort_key f xs") auto
  with s \<open>x \<in> set (sort_key f xs)\<close> show ?thesis by auto
qed

lemma find_snoc: "find P (t @ [x]) = (case find P t of Some r \<Rightarrow> Some r | None \<Rightarrow> if P x then Some x else None)"
  by (induction t) auto

end
