(* ===== verification/Json.thy ===== *)
theory Json
  imports Prelude
begin

text \<open>
  JavaScript values as the sources pass them around untyped (\<open>unknown\<close>, request bodies, event
  payloads): \<open>undefined\<close> is a value of its own, an object is the list of its own enumerable string
  keys in insertion order, and a number is a finite rational, \<open>NaN\<close> or an infinity (the two zeros are
  one value: no operation modelled here distinguishes them).
\<close>

datatype jsnum = JFin rat | JNaN | JInf bool

datatype json =
    JUndef
  | JNull
  | JBool bool
  | JNum jsnum
  | JStr string
  | JArr "json list"
  | JObj "(string \<times> json) list"

text \<open>\<open>Number.isFinite\<close>, \<open>Number.isInteger\<close> and \<open>Number.isSafeInteger\<close>.\<close>

fun isFinite :: "jsnum \<Rightarrow> bool" where
  "isFinite (JFin _) = True"
| "isFinite _ = False"

fun isInteger :: "jsnum \<Rightarrow> bool" where
  "isInteger (JFin r) = (of_int \<lfloor>r\<rfloor> = r)"
| "isInteger _ = False"

fun isSafeInteger :: "jsnum \<Rightarrow> bool" where
  "isSafeInteger (JFin r) = (of_int \<lfloor>r\<rfloor> = r \<and> \<bar>r\<bar> \<le> 9007199254740991)"
| "isSafeInteger _ = False"

text \<open>The relational operators: every comparison with \<open>NaN\<close> is false.\<close>

fun num_lt :: "jsnum \<Rightarrow> jsnum \<Rightarrow> bool" where
  "num_lt (JFin a) (JFin b) = (a < b)"
| "num_lt (JFin _) (JInf neg) = (\<not> neg)"
| "num_lt (JInf neg) (JFin _) = neg"
| "num_lt (JInf n1) (JInf n2) = (n1 \<and> \<not> n2)"
| "num_lt _ _ = False"

fun num_eq :: "jsnum \<Rightarrow> jsnum \<Rightarrow> bool" where
  "num_eq JNaN _ = False"
| "num_eq _ JNaN = False"
| "num_eq a b = (a = b)"

definition num_le :: "jsnum \<Rightarrow> jsnum \<Rightarrow> bool" where
  "num_le a b = (num_lt a b \<or> num_eq a b)"

lemma num_lt_NaN [simp]: "\<not> num_lt JNaN b" "\<not> num_lt a JNaN"
  by (cases b; simp) (cases a; simp)

lemma num_le_Fin [simp]: "num_le (JFin a) (JFin b) = (a \<le> b)"
  by (auto simp: num_le_def)

lemma num_le_NaN [simp]: "\<not> num_le JNaN b" "\<not> num_le a JNaN"
  by (cases b; simp add: num_le_def) (cases a; simp add: num_le_def)

text \<open>Reading a property (absent reads as \<open>undefined\<close>) and reading it at a type.\<close>

fun field :: "json \<Rightarrow> string \<Rightarrow> json" where
  "field (JObj m) k = (case map_of m k of None \<Rightarrow> JUndef | Some v \<Rightarrow> v)"
| "field _ k = JUndef"

fun as_str :: "json \<Rightarrow> string option" where
  "as_str (JStr s) = Some s"
| "as_str _ = None"

fun as_num :: "json \<Rightarrow> jsnum option" where
  "as_num (JNum n) = Some n"
| "as_num _ = None"

fun as_bool :: "json \<Rightarrow> bool option" where
  "as_bool (JBool b) = Some b"
| "as_bool _ = None"

fun as_arr :: "json \<Rightarrow> json list option" where
  "as_arr (JArr xs) = Some xs"
| "as_arr _ = None"

fun as_obj :: "json \<Rightarrow> (string \<times> json) list option" where
  "as_obj (JObj m) = Some m"
| "as_obj _ = None"

text \<open>\<open>Boolean(v)\<close>.\<close>

fun json_truthy :: "json \<Rightarrow> bool" where
  "json_truthy JUndef = False"
| "json_truthy JNull = False"
| "json_truthy (JBool b) = b"
| "json_truthy (JNum n) = (case n of JFin r \<Rightarrow> r \<noteq> 0 | JNaN \<Rightarrow> False | JInf _ \<Rightarrow> True)"
| "json_truthy (JStr s) = (s \<noteq> [])"
| "json_truthy (JArr _) = True"
| "json_truthy (JObj _) = True"

end
