(* ===== verification/Lifecycle.thy ===== *)
theory Lifecycle
  imports Prelude
begin

text \<open>
  \<open>apps/backtester/src/jobs/lifecycle.ts\<close>: the states of a job, the table of allowed transitions and
  the projection of the internal state onto the public contract.  One datatype carries the public
  states and the internal-only \<open>waiting_for_compute\<close>.
\<close>

datatype job_status =
    Accepted | Queued | Running | Waiting_for_compute
  | Completed | Failed | Canceled | Expired | Timed_out

definition NON_TERMINAL :: "job_status list" where
  "NON_TERMINAL = [Accepted, Queued, Running]"

definition TERMINAL :: "job_status list" where
  "TERMINAL = [Completed, Failed, Canceled, Expired, Timed_out]"

fun ALLOWED_TRANSITIONS :: "job_status \<Rightarrow> job_status list" where
  "ALLOWED_TRANSITIONS Accepted = [Queued, Canceled, Expired]"
| "ALLOWED_TRANSITIONS Queued = [Running, Canceled, Expired]"
| "ALLOWED_TRANSITIONS Running =
     [Running, Completed, Failed, Canceled, Timed_out, Queued, Waiting_for_compute]"
| "ALLOWED_TRANSITIONS Waiting_for_compute = [Queued, Failed, Canceled, Timed_out]"
| "ALLOWED_TRANSITIONS Completed = []"
| "ALLOWED_TRANSITIONS Failed = []"
| "ALLOWED_TRANSITIONS Canceled = []"
| "ALLOWED_TRANSITIONS Expired = []"
| "ALLOWED_TRANSITIONS Timed_out = []"

definition isTerminal :: "job_status \<Rightarrow> bool" where
  "isTerminal s = (s \<in> set TERMINAL)"

definition publicStatus :: "job_status \<Rightarrow> job_status" where
  "publicStatus s = (if s = Waiting_for_compute then Running else s)"

definition canTransition :: "job_status \<Rightarrow> job_status \<Rightarrow> bool" where
  "canTransition from to = (to \<in> set (ALLOWED_TRANSITIONS from))"

subsection \<open>Facts about the table\<close>

lemma isTerminal_simps [simp]:
  "\<not> isTerminal Accepted" "\<not> isTerminal Queued" "\<not> isTerminal Running"
  "\<not> isTerminal Waiting_for_compute" "isTerminal Completed" "isTerminal Failed"
  "isTerminal Canceled" "isTerminal Expired" "isTerminal Timed_out"
  by (simp_all add: isTerminal_def TERMINAL_def)

lemma isTerminal_iff_sink: "isTerminal s \<longleftrightarrow> ALLOWED_TRANSITIONS s = []"
  by (cases s) simp_all

lemma canTransition_from_terminal: "canTransition from to \<Longrightarrow> \<not> isTerminal from"
  by (cases "from") (simp_all add: canTransition_def)

lemma canTransition_not_Accepted: "canTransition from to \<Longrightarrow> to \<noteq> Accepted"
  by (cases "from") (auto simp: canTransition_def)

lemma canTransition_simps [simp]:
  "canTransition Accepted to \<longleftrightarrow> to = Queued \<or> to = Canceled \<or> to = Expired"
  "canTransition Queued to \<longleftrightarrow> to = Running \<or> to = Canceled \<or> to = Expired"
  "canTransition Running to \<longleftrightarrow> to = Running \<or> to = Completed \<or> to = Failed \<or> to = Canceled
     \<or> to = Timed_out \<or> to = Queued \<or> to = Waiting_for_compute"
  "canTransition Waiting_for_compute to \<longleftrightarrow> to = Queued \<or> to = Failed \<or> to = Canceled \<or> to = Timed_out"
  "\<not> canTransition Completed to" "\<not> canTransition Failed to" "\<not> canTransition Canceled to"
  "\<not> canTransition Expired to" "\<not> canTransition Timed_out to"
  by (auto simp: canTransition_def)

lemma canTransition_self: "canTransition s s \<longleftrightarrow> s = Running"
  by (cases s) simp_all

lemma publicStatus_simps [simp]:
  "publicStatus Waiting_for_compute = Running"
  "s \<noteq> Waiting_for_compute \<Longrightarrow> publicStatus s = s"
  "publicStatus s \<noteq> Waiting_for_compute"
  "publicStatus (publicStatus s) = publicStatus s"
  by (simp_all add: publicStatus_def)

lemma isTerminal_publicStatus [simp]: "isTerminal (publicStatus s) = isTerminal s"
  by (simp add: publicStatus_def)

text \<open>The public states are exactly the declared ones.\<close>

lemma public_range: "range publicStatus = set (NON_TERMINAL @ TERMINAL)"
proof
  show "range publicStatus \<subseteq> set (NON_TERMINAL @ TERMINAL)"
  proof clarify
    fix s show "publicStatus s \<in> set (NON_TERMINAL @ TERMINAL)"
      by (cases s) (simp_all add: NON_TERMINAL_def TERMINAL_def publicStatus_def)
  qed
  show "set (NON_TERMINAL @ TERMINAL) \<subseteq> range publicStatus"
    by (auto simp: NON_TERMINAL_def TERMINAL_def publicStatus_def image_iff)
qed

text \<open>Paths through the table: the states reachable by any number of allowed transitions.\<close>

inductive lifecycle_path :: "job_status \<Rightarrow> job_status \<Rightarrow> bool" where
  path_refl: "lifecycle_path s s"
| path_step: "lifecycle_path s t \<Longrightarrow> canTransition t u \<Longrightarrow> lifecycle_path s u"

lemma lifecycle_path_trans:
  assumes "lifecycle_path t u" "lifecycle_path s t"
  shows "lifecycle_path s u"
  using assms by (induction rule: lifecycle_path.induct) (auto intro: lifecycle_path.path_step)

lemma lifecycle_path_terminal: "lifecycle_path s t \<Longrightarrow> isTerminal s \<Longrightarrow> t = s"
  by (induction rule: lifecycle_path.induct) (auto dest: canTransition_from_terminal)

end
