(* ===== verification/Contracts.thy ===== *)
theory Contracts
  imports Json Lifecycle
begin

text \<open>
  The public contract types of \<open>packages/sdk/src/contracts/run.ts\<close> and
  \<open>packages/sdk/src/artifacts/types.ts\<close> that the service stores, returns and publishes.  A field the
  contract marks optional is an \<open>option\<close>; a \<open>Record<string, number>\<close> is an association list; a
  discriminated union is a datatype.  The request itself (\<open>RunSubmitRequest\<close>) stays a JSON value: it
  arrives unvalidated and \<open>submit.ts\<close> inspects it field by field.
\<close>

datatype artifact_availability = Available | Unavailable | Not_applicable

record artifact_reference =
  artifactId :: content_hash
  artifactType :: string
  availability :: artifact_availability
  approxItemCount :: "nat option"

record artifact_descriptor =
  ad_artifactType :: string
  ad_contentHash :: content_hash
  ad_availability :: artifact_availability
  ad_approxItemCount :: "nat option"

record artifact_manifest =
  am_runId :: string
  am_contractVersion :: string
  am_artifactContractVersion :: string
  am_descriptors :: "artifact_descriptor list"

record run_period =
  period_from :: string
  period_to :: string

datatype run_mode = Research | Review | Promotion

datatype wf_mode = Rolling | Expanding

record walk_forward_scheme =
  wf_folds :: jsnum
  wf_mode :: wf_mode

record fold_window =
  fw_index :: nat
  fw_train :: run_period
  fw_test :: run_period

type_synonym metric_record = "(string \<times> jsnum) list"

record wf_metric_stats =
  ws_mean :: jsnum
  ws_stddev :: jsnum
  ws_min :: jsnum
  ws_max :: jsnum
  ws_positiveFraction :: jsnum

datatype wf_failure_code =
  WF_validation_error | WF_missing_dataset | WF_sandbox_failure | WF_timeout
  | WF_runner_failure | WF_budget_exhausted

record wf_failure =
  wff_index :: nat
  wff_code :: wf_failure_code

record wf_fold_result =
  wfr_index :: nat
  wfr_train :: run_period
  wfr_test :: run_period
  wfr_foldOutcomeHash :: string
  wfr_metrics :: metric_record
  wfr_carryInClosedTradeCount :: nat

record wf_exec_aggregate =
  wa_foldCount :: nat
  wa_metrics :: "(string \<times> wf_metric_stats) list"
  wa_requestedFoldCount :: jsnum
  wa_completedFoldCount :: nat
  wa_insufficientFolds :: "nat list"

datatype wf_reason =
  Split_error | All_folds_failed | Folds_exceeds_max | Insufficient_folds | Internal_error
  | Insufficient_history

datatype walk_forward =
    WF_done bool walk_forward_scheme "wf_fold_result list" wf_exec_aggregate "wf_failure list"
  | WF_unavailable walk_forward_scheme wf_reason "wf_failure list" "nat list"
      "nat option" "string option"

datatype promotion_failure_reason =
  Signing_unavailable | Curated_unavailable | Gate_rejected | Twin_divergent
  | Holdout_unavailable | Holdout_not_covered | Warmup_insufficient
  | Evaluation_insufficient | Attempt_record_failed | Metrics_failed | Pr_internal_error

datatype promotion_result =
    Passed nat run_period
  | Not_qualified promotion_failure_reason "nat option" "run_period option"

record evidence_thresholds_v2 =
  minSharpe :: jsnum
  maxDrawdown :: jsnum
  minWinRate :: jsnum
  minTrades :: jsnum

datatype containment = Contain_none | Contain_partial | Contain_full

record holdout_resolved =
  hr_fraction :: jsnum
  hr_coverage :: run_period
  hr_window :: run_period
  hr_overlaps :: bool
  hr_containment :: containment

datatype holdout_unknown_reason = Coverage_not_found | Hu_insufficient_history

datatype holdout_marker =
    Holdout_resolved holdout_resolved
  | Holdout_unknown holdout_unknown_reason "nat option" "string option"

record trial_context =
  tc_familyKey :: string
  tc_familyHint :: "string option"
  tc_trialCount :: nat
  tc_deflatedSharpe :: jsnum
  tc_sr0 :: jsnum
  tc_vSR :: jsnum
  tc_vSRBasis :: string
  tc_tCount :: jsnum

record run_admission_evidence =
  requestedFromMs :: int
  requestedToMs :: int
  effectiveFromMs :: int
  effectiveToMs :: int
  clamped :: bool
  availabilityId :: string
  asOfMs :: int
  admittedAvailabilityId :: string
  admittedAsOfMs :: int
  archiveId :: "string option"
  datasetId :: "string option"

record run_evidence =
  re_seed :: jsnum
  re_contractVersion :: string
  re_moduleVersions :: "json list"
  re_datasetRef :: string
  re_datasetFingerprint :: "string option"
  re_bundleHash :: "content_hash option"
  re_admission :: "run_admission_evidence option"

text \<open>The summary carries the advisory sections (\<open>diagnostics\<close>, \<open>novelty\<close> and \<open>comparison\<close> as the
  JSON the numeric engine produced).\<close>

record run_result_summary =
  sm_runId :: string
  sm_status :: job_status
  sm_metrics :: metric_record
  sm_artifactRefs :: "artifact_reference list"
  sm_evidence :: run_evidence
  sm_resultHash :: "content_hash option"
  sm_comparison :: "json option"
  sm_evidenceRef :: "artifact_reference option"
  sm_trialContext :: "trial_context option"
  sm_holdout :: "holdout_marker option"
  sm_diagnostics :: "json option"
  sm_novelty :: "json option"
  sm_walkForward :: "walk_forward option"
  sm_promotion :: "promotion_result option"

record timeline_entry =
  tl_status :: job_status
  tl_atMs :: ms

record run_job_handle =
  h_jobId :: string
  h_runId :: string
  h_status :: job_status
  h_effectiveSeed :: jsnum
  h_requestFingerprint :: string
  h_idempotentReplay :: bool
  h_correlationId :: "string option"
  h_workflowId :: "string option"

record run_status_view =
  v_runId :: string
  v_jobId :: string
  v_status :: job_status
  v_timeline :: "timeline_entry list"
  v_terminalCode :: "string option"
  v_terminalIssues :: "json list option"

datatype job_event_type =
  Job_accepted | Job_queued | Job_started | Job_completed | Job_failed | Job_canceled
  | Job_expired | Job_timed_out

record completion_event =
  ce_eventType :: job_event_type
  ce_jobId :: string
  ce_runId :: string
  ce_status :: job_status
  ce_correlationId :: "string option"
  ce_workflowId :: "string option"
  ce_summary :: run_result_summary
  ce_emittedAtMs :: ms

end
