(* ===== verification/Job_Store.thy ===== *)
theory Job_Store
  imports Contracts
begin

text \<open>
  \<open>apps/backtester/src/jobs/job-store.ts\<close>: the job row, the patch a transition writes, the event
  rows of the outbox, and every operation of the in-memory store, which keeps the rows in an
  insertion-ordered map, an index from idempotency key to run id, and the event log.  Each operation
  is one function on the store record; an operation that runs several awaited transitions is the
  composition of these transitions, each reading the row it finds then.
\<close>

datatype compute_wake_reason = Cache_ready | Lock_expired | Leader_failed

record job_row =
  jobId :: string
  runId :: string
  resumeToken :: "string option"
  requestFingerprint :: string
  correlationId :: "string option"
  workflowId :: "string option"
  status :: job_status
  request :: json
  effectiveSeed :: jsnum
  datasetRef :: string
  datasetFingerprint :: "string option"
  bundleHash :: "content_hash option"
  callbackUrl :: "string option"
  queueDeadlineMs :: "ms option"
  runTimeoutMs :: ms
  runDeadlineMs :: "ms option"
  leasedBy :: "string option"
  leaseExpiresAt :: "ms option"
  attempts :: nat
  acceptedAtMs :: ms
  queuedAtMs :: "ms option"
  startedAtMs :: "ms option"
  terminalAtMs :: "ms option"
  lastActivityMs :: "ms option"
  resultSummary :: "run_result_summary option"
  resultHash :: "content_hash option"
  artifactManifest :: "artifact_manifest option"
  terminalCode :: "string option"
  terminalIssues :: "json list option"
  dedupedFrom :: "string option"
  computeWaitAttempts :: nat
  computeIdentity :: "string option"
  waitDeadlineMs :: "ms option"
  computeWakeReason :: "compute_wake_reason option"
  engineAttemptCharged :: "bool option"
  timeline :: "timeline_entry list"

record new_job =
  nj_jobId :: string
  nj_runId :: string
  nj_resumeToken :: "string option"
  nj_requestFingerprint :: string
  nj_correlationId :: "string option"
  nj_workflowId :: "string option"
  nj_request :: json
  nj_effectiveSeed :: jsnum
  nj_datasetRef :: string
  nj_bundleHash :: "content_hash option"
  nj_callbackUrl :: "string option"
  nj_queueDeadlineMs :: "ms option"
  nj_runTimeoutMs :: ms
  nj_acceptedAtMs :: ms

record job_row_patch =
  p_atMs :: ms
  p_queuedAtMs :: "ms option"
  p_startedAtMs :: "ms option"
  p_terminalAtMs :: "ms option"
  p_lastActivityMs :: "ms option"
  p_runDeadlineMs :: "ms option"
  p_resultSummary :: "run_result_summary option"
  p_resultHash :: "content_hash option"
  p_artifactManifest :: "artifact_manifest option"
  p_datasetFingerprint :: "string option"
  p_terminalCode :: "string option"
  p_terminalIssues :: "json list option"
  p_dedupedFrom :: "string option"
  p_computeWaitAttempts :: "nat option"
  p_computeIdentity :: "string option"
  p_waitDeadlineMs :: "ms option"
  p_computeWakeReason :: "compute_wake_reason option"
  p_engineAttemptCharged :: "bool option"
  p_attempts :: "nat option"

text \<open>The object literal \<open>{ atMs: t }\<close>, to which call sites add the fields they set.\<close>

definition patch_at :: "ms \<Rightarrow> job_row_patch" where
  "patch_at t = \<lparr>p_atMs = t, p_queuedAtMs = None, p_startedAtMs = None, p_terminalAtMs = None,
     p_lastActivityMs = None, p_runDeadlineMs = None, p_resultSummary = None, p_resultHash = None,
     p_artifactManifest = None, p_datasetFingerprint = None, p_terminalCode = None,
     p_terminalIssues = None, p_dedupedFrom = None, p_computeWaitAttempts = None,
     p_computeIdentity = None, p_waitDeadlineMs = None, p_computeWakeReason = None,
     p_engineAttemptCharged = None, p_attempts = None\<rparr>"

datatype delivery_state = Pending | Delivered | Delivery_failed

text \<open>An event payload is a completion event or, for the submit events, plain JSON.\<close>

datatype event_payload = Completion_payload completion_event | Json_payload json

record job_event_row =
  ev_eventUid :: string
  ev_jobId :: string
  ev_runId :: string
  ev_eventType :: job_event_type
  ev_payload :: event_payload
  ev_createdAtMs :: ms
  ev_deliveryState :: "delivery_state option"
  ev_deliveryAttempts :: "nat option"

record lease =
  l_workerId :: string
  l_ttlMs :: ms

record reap_opts =
  ro_leaseMaxAttempts :: "nat option"
  ro_coalesceEnabled :: "bool option"
  ro_computeWaitMaxAttempts :: "nat option"

record list_filter =
  lf_status :: "job_status option"
  lf_correlationId :: "string option"
  lf_workflowId :: "string option"

record job_store =
  jobs :: "job_row js_map"
  byKey :: "string js_map"
  events :: "job_event_row list"

definition emptyStore :: job_store where
  "emptyStore = \<lparr>jobs = [], byKey = [], events = []\<rparr>"

subsection \<open>Insert and look up\<close>

definition newRow :: "new_job \<Rightarrow> job_row" where
  "newRow j = \<lparr>jobId = nj_jobId j, runId = nj_runId j, resumeToken = nj_resumeToken j,
     requestFingerprint = nj_requestFingerprint j, correlationId = nj_correlationId j,
     workflowId = nj_workflowId j, status = Accepted, request = nj_request j,
     effectiveSeed = nj_effectiveSeed j, datasetRef = nj_datasetRef j, datasetFingerprint = None,
     bundleHash = nj_bundleHash j, callbackUrl = nj_callbackUrl j,
     queueDeadlineMs = nj_queueDeadlineMs j, runTimeoutMs = nj_runTimeoutMs j,
     runDeadlineMs = None, leasedBy = None, leaseExpiresAt = None, attempts = 0,
     acceptedAtMs = nj_acceptedAtMs j, queuedAtMs = None, startedAtMs = None, terminalAtMs = None,
     lastActivityMs = None, resultSummary = None, resultHash = None, artifactManifest = None,
     terminalCode = None, terminalIssues = None, dedupedFrom = None, computeWaitAttempts = 0,
     computeIdentity = None, waitDeadlineMs = None, computeWakeReason = None,
     engineAttemptCharged = None,
     timeline = [\<lparr>tl_status = Accepted, tl_atMs = nj_acceptedAtMs j\<rparr>]\<rparr>"

definition jobKey :: "new_job \<Rightarrow> string" where
  "jobKey j = orElse (nj_resumeToken j) (nj_runId j)"

definition existingJob :: "job_store \<Rightarrow> string \<Rightarrow> job_row option" where
  "existingJob st key = (case js_get (byKey st) key of
      None \<Rightarrow> None
    | Some existingRunId \<Rightarrow>
        if existingRunId = [] then None else js_get (jobs st) existingRunId)"

definition insertOrGet :: "new_job \<Rightarrow> job_store \<Rightarrow> (job_row \<times> bool) \<times> job_store" where
  "insertOrGet j st = (let key = jobKey j in
     case existingJob st key of
       Some existing \<Rightarrow> ((existing, False), st)
     | None \<Rightarrow> (let row = newRow j in
         ((row, True), st\<lparr>jobs := js_set (runId row) row (jobs st),
                         byKey := js_set key (runId row) (byKey st)\<rparr>)))"

definition get :: "job_store \<Rightarrow> string \<Rightarrow> job_row option" where
  "get st rid = js_get (jobs st) rid"

definition findByResumeToken :: "job_store \<Rightarrow> string \<Rightarrow> job_row option" where
  "findByResumeToken st tok = (case existingJob st tok of
      None \<Rightarrow> None
    | Some job \<Rightarrow> if resumeToken job = Some tok then Some job else None)"

text \<open>The queue timestamp \<open>queuedAtMs ?? acceptedAtMs\<close> and the FIFO comparison of the queue.\<close>

definition queueTs :: "job_row \<Rightarrow> ms" where
  "queueTs j = orElse (queuedAtMs j) (acceptedAtMs j)"

definition queueOrder :: "job_row \<Rightarrow> ms \<times> string" where
  "queueOrder j = (queueTs j, runId j)"

fun countQueueLoop :: "job_row list \<Rightarrow> nat \<times> ms option \<Rightarrow> nat \<times> ms option" where
  "countQueueLoop [] acc = acc"
| "countQueueLoop (j # js) (depth, oldest) =
     (if status j \<noteq> Queued then countQueueLoop js (depth, oldest)
      else let ts = queueTs j in
        countQueueLoop js (depth + 1,
          (case oldest of None \<Rightarrow> Some ts | Some t \<Rightarrow> if ts < t then Some ts else oldest)))"

definition countQueueStats :: "job_store \<Rightarrow> ms \<Rightarrow> nat \<times> ms option" where
  "countQueueStats st nowMs = (let (depth, oldest) = countQueueLoop (js_values (jobs st)) (0, None)
     in (depth, map_option (\<lambda>t. nowMs - t) oldest))"

subsection \<open>Transitions\<close>

text \<open>The writes of a successful transition, in the order of the source.\<close>

definition applyPatch :: "job_status \<Rightarrow> job_row_patch \<Rightarrow> job_row \<Rightarrow> job_row" where
  "applyPatch to p job = job\<lparr>
     status := to,
     queuedAtMs := written (p_queuedAtMs p) (queuedAtMs job),
     startedAtMs := written (p_startedAtMs p) (startedAtMs job),
     terminalAtMs := written (p_terminalAtMs p) (terminalAtMs job),
     lastActivityMs := written (p_lastActivityMs p) (lastActivityMs job),
     runDeadlineMs := written (p_runDeadlineMs p) (runDeadlineMs job),
     resultSummary := written (p_resultSummary p) (resultSummary job),
     resultHash := written (p_resultHash p) (resultHash job),
     artifactManifest := written (p_artifactManifest p) (artifactManifest job),
     datasetFingerprint := written (p_datasetFingerprint p) (datasetFingerprint job),
     terminalCode := written (p_terminalCode p) (terminalCode job),
     terminalIssues := written (p_terminalIssues p) (terminalIssues job),
     dedupedFrom := written (p_dedupedFrom p) (dedupedFrom job),
     computeWaitAttempts := orElse (p_computeWaitAttempts p) (computeWaitAttempts job),
     computeIdentity := written (p_computeIdentity p) (computeIdentity job),
     waitDeadlineMs := written (p_waitDeadlineMs p) (waitDeadlineMs job),
     computeWakeReason := written (p_computeWakeReason p) (computeWakeReason job),
     engineAttemptCharged := written (p_engineAttemptCharged p) (engineAttemptCharged job),
     attempts := orElse (p_attempts p) (attempts job),
     timeline := (if status job \<noteq> to
       then timeline job @ [\<lparr>tl_status = (if to = Waiting_for_compute then Running else to),
                             tl_atMs = p_atMs p\<rparr>]
       else timeline job)\<rparr>"

definition transition :: "string \<Rightarrow> job_status \<Rightarrow> job_status \<Rightarrow> job_row_patch \<Rightarrow> string option
    \<Rightarrow> job_store \<Rightarrow> bool \<times> job_store" where
  "transition rid from to patch expectLeasedBy st = (case js_get (jobs st) rid of
      None \<Rightarrow> (False, st)
    | Some job \<Rightarrow>
        if status job \<noteq> from \<or> \<not> canTransition from to then (False, st)
        else if expectLeasedBy \<noteq> None \<and> leasedBy job \<noteq> expectLeasedBy then (False, st)
        else (True, st\<lparr>jobs := js_set rid (applyPatch to patch job) (jobs st)\<rparr>))"

text \<open>A direct mutation of the live row, as the claim and the reaper do after their transition.\<close>

definition mutate :: "string \<Rightarrow> (job_row \<Rightarrow> job_row) \<Rightarrow> job_store \<Rightarrow> job_store" where
  "mutate rid f st = (case js_get (jobs st) rid of None \<Rightarrow> st
     | Some job \<Rightarrow> st\<lparr>jobs := js_set rid (f job) (jobs st)\<rparr>)"

definition queuedJobs :: "job_store \<Rightarrow> job_row list" where
  "queuedJobs st = sort_key queueOrder [j \<leftarrow> js_values (jobs st). status j = Queued]"

definition setLease :: "ms \<Rightarrow> lease option \<Rightarrow> bool \<Rightarrow> job_row \<Rightarrow> job_row" where
  "setLease nowMs ls coalesceEnabled next = (case ls of None \<Rightarrow> next
     | Some l \<Rightarrow>
         let next' = next\<lparr>leasedBy := Some (l_workerId l), leaseExpiresAt := Some (nowMs + l_ttlMs l)\<rparr>
         in if \<not> coalesceEnabled then next'\<lparr>attempts := attempts next' + 1\<rparr> else next')"

definition claimPatch :: "ms \<Rightarrow> job_row \<Rightarrow> job_row_patch" where
  "claimPatch nowMs next = (patch_at nowMs)\<lparr>p_startedAtMs := Some nowMs,
     p_lastActivityMs := Some nowMs, p_runDeadlineMs := Some (nowMs + runTimeoutMs next)\<rparr>"

definition claimNextQueued :: "ms \<Rightarrow> lease option \<Rightarrow> bool \<Rightarrow> job_store \<Rightarrow> job_row option \<times> job_store" where
  "claimNextQueued nowMs ls coalesceEnabled st = (case queuedJobs st of
      [] \<Rightarrow> (None, st)
    | next # _ \<Rightarrow>
        (case transition (runId next) Queued Running (claimPatch nowMs next) None st of
           (False, st') \<Rightarrow> (None, st')
         | (True, st') \<Rightarrow>
             (let st'' = mutate (runId next) (setLease nowMs ls coalesceEnabled) st'
              in (get st'' (runId next), st''))))"

definition renewLease :: "string \<Rightarrow> ms \<Rightarrow> job_store \<Rightarrow> job_store" where
  "renewLease workerId untilMs st = st\<lparr>jobs := map (\<lambda>(k, job).
     (k, if status job = Running \<and> leasedBy job = Some workerId
         then job\<lparr>leaseExpiresAt := Some untilMs\<rparr> else job)) (jobs st)\<rparr>"

definition list_jobs :: "job_store \<Rightarrow> list_filter \<Rightarrow> job_row list" where
  "list_jobs st f = sort_key acceptedAtMs
     [j \<leftarrow> js_values (jobs st).
        (lf_status f = None \<or> lf_status f = Some (status j))
        \<and> (\<not> truthy (lf_correlationId f) \<or> correlationId j = lf_correlationId f)
        \<and> (\<not> truthy (lf_workflowId f) \<or> workflowId j = lf_workflowId f)]"

subsection \<open>The outbox\<close>

definition appendEvent :: "job_event_row \<Rightarrow> job_store \<Rightarrow> job_store" where
  "appendEvent ev st = st\<lparr>events := events st @ [ev]\<rparr>"

definition listEvents :: "job_store \<Rightarrow> string \<Rightarrow> job_event_row list" where
  "listEvents st rid = [e \<leftarrow> events st. ev_runId e = rid]"

definition deliverable :: "job_event_row \<Rightarrow> bool" where
  "deliverable e = (ev_deliveryState e = Some Pending \<or> ev_deliveryState e = Some Delivery_failed)"

definition listDeliverable :: "job_store \<Rightarrow> nat \<Rightarrow> job_event_row list" where
  "listDeliverable st limit = take limit (sort_key ev_createdAtMs (filter deliverable (events st)))"

definition markEvent :: "bool \<Rightarrow> job_event_row \<Rightarrow> job_event_row" where
  "markEvent ok ev = ev\<lparr>ev_deliveryState := Some (if ok then Delivered else Delivery_failed),
     ev_deliveryAttempts := Some (orElse (ev_deliveryAttempts ev) 0 + 1)\<rparr>"

fun mark_first :: "string \<Rightarrow> bool \<Rightarrow> job_event_row list \<Rightarrow> job_event_row list" where
  "mark_first uid ok [] = []"
| "mark_first uid ok (e # es) =
     (if ev_eventUid e = uid then markEvent ok e # es else e # mark_first uid ok es)"

definition markDelivered :: "string \<Rightarrow> bool \<Rightarrow> job_store \<Rightarrow> job_store" where
  "markDelivered uid ok st = st\<lparr>events := mark_first uid ok (events st)\<rparr>"

subsection \<open>The deadline reaper\<close>

definition terminalPatch :: "ms \<Rightarrow> string \<Rightarrow> job_row_patch" where
  "terminalPatch nowMs code = (patch_at nowMs)\<lparr>p_terminalAtMs := Some nowMs, p_terminalCode := Some code\<rparr>"

definition past :: "ms option \<Rightarrow> ms \<Rightarrow> bool" where
  "past deadline nowMs = (case deadline of None \<Rightarrow> False | Some d \<Rightarrow> nowMs > d)"

definition clearLease :: "job_row \<Rightarrow> job_row" where
  "clearLease job = job\<lparr>leasedBy := None, leaseExpiresAt := None\<rparr>"

text \<open>\<open>if (await this.transition(...)) reaped.push(job)\<close>: the row pushed is the live row.\<close>

definition reapTo :: "string \<Rightarrow> job_status \<Rightarrow> job_status \<Rightarrow> ms \<Rightarrow> string \<Rightarrow> job_store \<Rightarrow> job_row list
    \<Rightarrow> job_store \<times> job_row list" where
  "reapTo rid from to nowMs code st reaped =
     (case transition rid from to (terminalPatch nowMs code) None st of
        (True, st') \<Rightarrow> (st', (case get st' rid of None \<Rightarrow> reaped | Some r \<Rightarrow> reaped @ [r]))
      | (False, st') \<Rightarrow> (st', reaped))"

definition requeue :: "string \<Rightarrow> job_row_patch \<Rightarrow> (job_row \<Rightarrow> job_row) \<Rightarrow> job_store \<Rightarrow> job_store" where
  "requeue rid patch f st = (case transition rid Running Queued patch None st of
      (True, st') \<Rightarrow> mutate rid f st'
    | (False, st') \<Rightarrow> st')"

definition reapJob :: "ms \<Rightarrow> reap_opts \<Rightarrow> job_row \<Rightarrow> job_store \<times> job_row list \<Rightarrow> job_store \<times> job_row list" where
  "reapJob nowMs opts job = (\<lambda>(st, reaped).
     let maxAttempts = orElse (ro_leaseMaxAttempts opts) 3;
         waitCap = orElse (ro_computeWaitMaxAttempts opts) 3;
         coalesceEnabled = orElse (ro_coalesceEnabled opts) False
     in
     if isTerminal (status job) then (st, reaped)
     else if (status job = Queued \<or> status job = Accepted) \<and> past (queueDeadlineMs job) nowMs
     then reapTo (runId job) (status job) Expired nowMs ''queue_deadline_exceeded'' st reaped
     else if status job = Running then
       (let leaseStale = past (leaseExpiresAt job) nowMs;
            runStale = past (runDeadlineMs job) nowMs
        in if coalesceEnabled \<and> leaseStale \<and> engineAttemptCharged job = Some False then
             (if computeWaitAttempts job \<ge> waitCap
              then reapTo (runId job) Running Failed nowMs ''compute_wait_exhausted'' st reaped
              else (requeue (runId job)
                      ((patch_at nowMs)\<lparr>p_queuedAtMs := Some nowMs,
                         p_computeWaitAttempts := Some (computeWaitAttempts job + 1)\<rparr>)
                      clearLease st, reaped))
           else if leaseStale \<and> attempts job \<ge> maxAttempts
           then reapTo (runId job) Running Failed nowMs ''lease_expired'' st reaped
           else if leaseStale then
             (requeue (runId job) ((patch_at nowMs)\<lparr>p_queuedAtMs := Some nowMs\<rparr>)
                (\<lambda>r. let r' = clearLease r
                      in if coalesceEnabled then r'\<lparr>engineAttemptCharged := Some False\<rparr> else r') st,
              reaped)
           else if runStale
           then reapTo (runId job) Running Timed_out nowMs ''run_deadline_exceeded'' st reaped
           else (st, reaped))
     else if status job = Waiting_for_compute \<and> past (runDeadlineMs job) nowMs
     then reapTo (runId job) Waiting_for_compute Timed_out nowMs ''run_deadline_exceeded'' st reaped
     else (st, reaped))"

text \<open>The loop reads each row live, when the iteration reaches it.\<close>

fun reapLoop :: "ms \<Rightarrow> reap_opts \<Rightarrow> string list \<Rightarrow> job_store \<times> job_row list \<Rightarrow> job_store \<times> job_row list" where
  "reapLoop nowMs opts [] acc = acc"
| "reapLoop nowMs opts (k # ks) acc =
     reapLoop nowMs opts ks (case js_get (jobs (fst acc)) k of
        None \<Rightarrow> acc | Some job \<Rightarrow> reapJob nowMs opts job acc)"

definition reapDeadlines :: "ms \<Rightarrow> reap_opts \<Rightarrow> job_store \<Rightarrow> job_row list \<times> job_store" where
  "reapDeadlines nowMs opts st =
     (let (st', reaped) = reapLoop nowMs opts (js_keys (jobs st)) (st, []) in (reaped, st'))"

subsection \<open>Coalescing waiters\<close>

definition listComputeWaiters :: "job_store \<Rightarrow> job_row list" where
  "listComputeWaiters st = [j \<leftarrow> js_values (jobs st). status j = Waiting_for_compute]"

definition wakePatch :: "ms \<Rightarrow> compute_wake_reason \<Rightarrow> job_row_patch" where
  "wakePatch nowMs reason = (patch_at nowMs)\<lparr>p_computeWakeReason := Some reason,
     p_engineAttemptCharged := Some False\<rparr>"

fun releaseLoop :: "string \<Rightarrow> compute_wake_reason \<Rightarrow> ms \<Rightarrow> string list \<Rightarrow> nat \<times> job_store \<Rightarrow> nat \<times> job_store" where
  "releaseLoop ci reason nowMs [] acc = acc"
| "releaseLoop ci reason nowMs (k # ks) (released, st) =
     releaseLoop ci reason nowMs ks (case js_get (jobs st) k of
        None \<Rightarrow> (released, st)
      | Some job \<Rightarrow>
          if status job \<noteq> Waiting_for_compute \<or> computeIdentity job \<noteq> Some ci then (released, st)
          else (case transition (runId job) Waiting_for_compute Queued (wakePatch nowMs reason) None st of
                  (ok, st') \<Rightarrow> (if ok then released + 1 else released, st')))"

definition releaseAllComputeWaiters :: "string \<Rightarrow> compute_wake_reason \<Rightarrow> ms \<Rightarrow> job_store \<Rightarrow> nat \<times> job_store" where
  "releaseAllComputeWaiters ci reason nowMs st = releaseLoop ci reason nowMs (js_keys (jobs st)) (0, st)"

definition waitersFor :: "string \<Rightarrow> job_store \<Rightarrow> job_row list" where
  "waitersFor ci st = sort_key queueOrder
     [j \<leftarrow> js_values (jobs st). status j = Waiting_for_compute \<and> computeIdentity j = Some ci]"

definition electOneComputeWaiter :: "string \<Rightarrow> compute_wake_reason \<Rightarrow> ms \<Rightarrow> job_store
    \<Rightarrow> job_row option \<times> job_store" where
  "electOneComputeWaiter ci reason nowMs st = (case waitersFor ci st of
      [] \<Rightarrow> (None, st)
    | next # _ \<Rightarrow>
        (case transition (runId next) Waiting_for_compute Queued (wakePatch nowMs reason) None st of
           (ok, st') \<Rightarrow> (if ok then get st' (runId next) else None, st')))"

definition poisonComputeWaiter :: "string \<Rightarrow> ms \<Rightarrow> job_store \<Rightarrow> job_row option \<times> job_store" where
  "poisonComputeWaiter rid nowMs st =
     (case transition rid Waiting_for_compute Failed
             (terminalPatch nowMs ''compute_wait_exhausted'') None st of
        (ok, st') \<Rightarrow> (if ok then get st' rid else None, st'))"

subsection \<open>Public projections\<close>

definition toStatusView :: "job_row \<Rightarrow> run_status_view" where
  "toStatusView job = \<lparr>v_runId = runId job, v_jobId = jobId job, v_status = publicStatus (status job),
     v_timeline = timeline job, v_terminalCode = terminalCode job,
     v_terminalIssues = terminalIssues job\<rparr>"

definition toHandle :: "job_row \<Rightarrow> bool \<Rightarrow> run_job_handle" where
  "toHandle job idempotentReplay = \<lparr>h_jobId = jobId job, h_runId = runId job, h_status = Accepted,
     h_effectiveSeed = effectiveSeed job, h_requestFingerprint = requestFingerprint job,
     h_idempotentReplay = idempotentReplay, h_correlationId = correlationId job,
     h_workflowId = workflowId job\<rparr>"

end
