(* ===== verification/Job_Row_Steps.thy ===== *)
theory Job_Row_Steps
  imports Job_Store
begin

text \<open>
  How a single job row may change over its life, whichever store holds it.  A \<open>row_step\<close> is either the
  write of an allowed transition or a rewrite of the lease and charge bookkeeping of a row that is not
  terminal; \<open>row_evolves\<close> is any number of steps.  The invariants of a row (its timeline is a public
  path that ends in its public status) and the facts about its life (terminal rows never change, the
  identity of the run is fixed, the timeline only grows) are proved once here by rule induction.
\<close>

inductive row_step :: "job_row \<Rightarrow> job_row \<Rightarrow> bool" where
  patch: "canTransition (status r) to \<Longrightarrow> row_step r (applyPatch to p r)"
| lease: "\<not> isTerminal (status r) \<Longrightarrow>
    row_step r (r\<lparr>leasedBy := a, leaseExpiresAt := b, attempts := n, engineAttemptCharged := c\<rparr>)"

definition row_evolves :: "job_row \<Rightarrow> job_row \<Rightarrow> bool" where
  "row_evolves = row_step\<^sup>*\<^sup>*"

lemma row_evolves_refl [simp, intro]: "row_evolves r r"
  by (simp add: row_evolves_def)

lemma row_evolves_trans [trans]: "row_evolves r s \<Longrightarrow> row_evolves s t \<Longrightarrow> row_evolves r t"
  unfolding row_evolves_def by (rule rtranclp_trans)

lemma row_step_evolves: "row_step r s \<Longrightarrow> row_evolves r s"
  by (simp add: row_evolves_def r_into_rtranclp)

lemma row_evolves_patch: "canTransition (status r) to \<Longrightarrow> row_evolves r (applyPatch to p r)"
  by (intro row_step_evolves row_step.patch)

lemma row_evolves_lease: "\<not> isTerminal (status r) \<Longrightarrow>
    row_evolves r (r\<lparr>leasedBy := a, leaseExpiresAt := b, attempts := n, engineAttemptCharged := c\<rparr>)"
  by (intro row_step_evolves row_step.lease)

text \<open>A property kept by every step is kept by evolution.\<close>

lemma row_evolves_induct [consumes 1, case_names step]:
  assumes "row_evolves r s" and "\<And>a b. row_step a b \<Longrightarrow> P a \<Longrightarrow> P b" and "P r"
  shows "P s"
  using assms(1,3) unfolding row_evolves_def
  by (induction rule: rtranclp_induct) (auto intro: assms(2))

subsection \<open>What the write of a transition leaves alone\<close>

lemma applyPatch_fixed [simp]:
  "status (applyPatch to p r) = to"
  "jobId (applyPatch to p r) = jobId r" "runId (applyPatch to p r) = runId r"
  "resumeToken (applyPatch to p r) = resumeToken r"
  "requestFingerprint (applyPatch to p r) = requestFingerprint r"
  "correlationId (applyPatch to p r) = correlationId r"
  "workflowId (applyPatch to p r) = workflowId r" "request (applyPatch to p r) = request r"
  "effectiveSeed (applyPatch to p r) = effectiveSeed r"
  "datasetRef (applyPatch to p r) = datasetRef r" "bundleHash (applyPatch to p r) = bundleHash r"
  "callbackUrl (applyPatch to p r) = callbackUrl r"
  "queueDeadlineMs (applyPatch to p r) = queueDeadlineMs r"
  "runTimeoutMs (applyPatch to p r) = runTimeoutMs r"
  "acceptedAtMs (applyPatch to p r) = acceptedAtMs r"
  "leasedBy (applyPatch to p r) = leasedBy r"
  "leaseExpiresAt (applyPatch to p r) = leaseExpiresAt r"
  by (simp_all add: applyPatch_def)

text \<open>What identifies a run and was fixed when it was submitted.\<close>

definition row_identity where
  "row_identity r = (jobId r, runId r, resumeToken r, requestFingerprint r, correlationId r,
     workflowId r, request r, effectiveSeed r, datasetRef r, bundleHash r, callbackUrl r,
     queueDeadlineMs r, runTimeoutMs r, acceptedAtMs r)"

lemma row_step_identity: "row_step r s \<Longrightarrow> row_identity s = row_identity r"
  by (induction rule: row_step.induct) (simp_all add: row_identity_def)

lemma row_evolves_identity:
  assumes "row_evolves r s" shows "row_identity s = row_identity r"
  using assms by (rule row_evolves_induct) (simp_all add: row_step_identity)

lemma row_evolves_runId: "row_evolves r s \<Longrightarrow> runId s = runId r"
  using row_evolves_identity by (fastforce simp: row_identity_def)

lemma row_evolves_callbackUrl: "row_evolves r s \<Longrightarrow> callbackUrl s = callbackUrl r"
  using row_evolves_identity by (fastforce simp: row_identity_def)

lemma row_step_status: "row_step r s \<Longrightarrow> lifecycle_path (status r) (status s)"
  by (induction rule: row_step.induct) (auto intro: lifecycle_path.intros)

lemma row_evolves_status:
  assumes "row_evolves r s" shows "lifecycle_path (status r) (status s)"
  using assms
  by (rule row_evolves_induct) (auto intro: lifecycle_path_trans row_step_status lifecycle_path.path_refl)

lemma row_step_not_terminal: "row_step r s \<Longrightarrow> \<not> isTerminal (status r)"
  by (induction rule: row_step.induct) (auto dest: canTransition_from_terminal)

lemma row_evolves_terminal:
  assumes "row_evolves r s" and "isTerminal (status r)" shows "s = r"
  using assms(1)
  by (rule row_evolves_induct) (use assms(2) row_step_not_terminal in auto)

subsection \<open>The timeline\<close>

text \<open>An edge of the public timeline: an allowed transition seen through the public projection.\<close>

definition public_edge :: "job_status \<Rightarrow> job_status \<Rightarrow> bool" where
  "public_edge a b = (b \<in> publicStatus ` {t. \<exists>s. publicStatus s = a \<and> canTransition s t})"

definition row_ok :: "job_row \<Rightarrow> bool" where
  "row_ok r = (timeline r \<noteq> [] \<and> tl_status (hd (timeline r)) = Accepted
     \<and> tl_status (last (timeline r)) = publicStatus (status r)
     \<and> successively public_edge (map tl_status (timeline r)))"

lemma public_edge_public: "public_edge a b \<Longrightarrow> b \<noteq> Waiting_for_compute"
  by (auto simp: public_edge_def)

lemma successively_snoc:
  "xs \<noteq> [] \<Longrightarrow> successively P (xs @ [x]) \<longleftrightarrow> successively P xs \<and> P (last xs) x"
  by (simp add: successively_append_iff)

lemma row_ok_applyPatch:
  assumes "row_ok r" and "canTransition (status r) to"
  shows "row_ok (applyPatch to p r)"
proof (cases "status r = to")
  case True
  thus ?thesis using assms(1) by (simp add: row_ok_def applyPatch_def)
next
  case False
  have edge: "public_edge (publicStatus (status r)) (publicStatus to)"
    using assms(2) by (auto simp: public_edge_def)
  have new: "timeline (applyPatch to p r) =
      timeline r @ [\<lparr>tl_status = publicStatus to, tl_atMs = p_atMs p\<rparr>]"
    using False by (simp add: applyPatch_def publicStatus_def)
  show ?thesis using assms(1) edge unfolding row_ok_def new
    by (simp add: successively_snoc last_map)
qed

lemma row_ok_step: "row_step r s \<Longrightarrow> row_ok r \<Longrightarrow> row_ok s"
proof (induction rule: row_step.induct)
  case (lease r a b n c)
  thus ?case by (simp add: row_ok_def)
qed (rule row_ok_applyPatch)

lemma row_ok_evolves: "row_evolves r s \<Longrightarrow> row_ok r \<Longrightarrow> row_ok s"
  by (rule row_evolves_induct) (auto intro: row_ok_step)

lemma row_ok_newRow [simp]: "row_ok (newRow j)"
  by (simp add: row_ok_def newRow_def)

lemma row_step_timeline: "row_step r s \<Longrightarrow> \<exists>es. timeline s = timeline r @ es"
  by (induction rule: row_step.induct) (auto simp: applyPatch_def)

lemma row_evolves_timeline:
  assumes "row_evolves r s" shows "\<exists>es. timeline s = timeline r @ es"
  using assms by (rule row_evolves_induct) (force dest: row_step_timeline)+

lemma successively_targets: "successively P xs \<Longrightarrow> x \<in> set (tl xs) \<Longrightarrow> \<exists>a. P a x"
  by (induction xs rule: induct_list012) auto

lemma row_ok_public_timeline:
  assumes "row_ok r" "e \<in> set (timeline r)" shows "tl_status e \<noteq> Waiting_for_compute"
proof -
  have ne: "timeline r \<noteq> []" and h: "tl_status (hd (timeline r)) = Accepted"
    and s: "successively public_edge (map tl_status (timeline r))"
    using assms(1) by (simp_all add: row_ok_def)
  have "e = hd (timeline r) \<or> tl_status e \<in> set (tl (map tl_status (timeline r)))"
    using assms(2) ne by (cases "timeline r") auto
  thus ?thesis using h s by (auto dest: successively_targets public_edge_public)
qed

end
