(* ===== verification/Job_Store_Facts.thy ===== *)
theory Job_Store_Facts
  imports Job_Row_Steps
begin

text \<open>
  The in-memory job store: its invariant, what each operation does to every row (including the rows
  it must not touch), and closed forms of the operations that loop (the reaper and the release of
  waiters decide every row on its own, in one pass).
\<close>

definition store_ok :: "job_store \<Rightarrow> bool" where
  "store_ok st = (map_ok (jobs st) \<and> map_ok (byKey st)
     \<and> (\<forall>(k, r) \<in> set (jobs st). runId r = k \<and> row_ok r)
     \<and> (\<forall>(key, rid) \<in> set (byKey st). js_get (jobs st) rid \<noteq> None))"

lemma store_ok_empty [simp, store_inv]: "store_ok emptyStore"
  by (simp add: store_ok_def emptyStore_def)

lemma store_ok_get:
  assumes "store_ok st" "get st k = Some r" shows "runId r = k" "row_ok r"
  using assms by (auto simp: store_ok_def get_def js_get_in)

lemma store_ok_values:
  assumes "store_ok st" "r \<in> set (js_values (jobs st))" shows "get st (runId r) = Some r"
  using assms by (fastforce simp: store_ok_def get_def js_get_in js_values_def)

text \<open>Every row of the old state is still there and has evolved by allowed steps.\<close>

definition rows_evolve :: "(string \<Rightarrow> job_row option) \<Rightarrow> (string \<Rightarrow> job_row option) \<Rightarrow> bool" where
  "rows_evolve g g' = (\<forall>k r. g k = Some r \<longrightarrow> (\<exists>r'. g' k = Some r' \<and> row_evolves r r'))"

lemma rows_evolve_refl [simp, intro]: "rows_evolve g g"
  by (auto simp: rows_evolve_def)

lemma rows_evolve_trans [trans]: "rows_evolve g g' \<Longrightarrow> rows_evolve g' g'' \<Longrightarrow> rows_evolve g g''"
  unfolding rows_evolve_def by (meson row_evolves_trans)

lemma rows_evolve_terminal:
  "rows_evolve g g' \<Longrightarrow> g k = Some r \<Longrightarrow> isTerminal (status r) \<Longrightarrow> g' k = Some r"
  unfolding rows_evolve_def by (metis row_evolves_terminal)

lemma rows_evolve_upd: "g k = Some r \<Longrightarrow> row_evolves r r' \<Longrightarrow> rows_evolve g (g(k \<mapsto> r'))"
  by (auto simp: rows_evolve_def)

lemma rows_evolve_new: "g k = None \<Longrightarrow> rows_evolve g (g(k \<mapsto> r'))"
  by (auto simp: rows_evolve_def)

subsection \<open>Writing one row\<close>

definition set_row :: "string \<Rightarrow> job_row \<Rightarrow> job_store \<Rightarrow> job_store" where
  "set_row rid r st = st\<lparr>jobs := js_set rid r (jobs st)\<rparr>"

lemma get_set_row [simp]: "get (set_row rid r st) = (get st)(rid \<mapsto> r)"
  by (rule ext) (simp add: get_def set_row_def)

lemma events_set_row [simp, store_frame]: "events (set_row rid r st) = events st"
  "byKey (set_row rid r st) = byKey st"
  by (simp_all add: set_row_def)

lemma set_row_same [simp]: "get st rid = Some r \<Longrightarrow> set_row rid r st = st"
  by (simp add: set_row_def get_def)

lemma set_row_set_row [simp]: "set_row rid r (set_row rid s st) = set_row rid r st"
  by (simp add: set_row_def)

lemma store_ok_set_row:
  assumes "store_ok st" "get st rid = Some r" "runId r' = rid" "row_ok r'"
  shows "store_ok (set_row rid r' st)"
proof -
  have "\<forall>(k, s) \<in> set (js_set rid r' (jobs st)). runId s = k \<and> row_ok s"
  proof clarify
    fix k s assume "(k, s) \<in> set (js_set rid r' (jobs st))"
    hence "(k = rid \<and> s = r') \<or> get st k = Some s"
      using assms(1) by (auto simp: js_set_entries get_def js_get_in store_ok_def)
    thus "runId s = k \<and> row_ok s" using assms store_ok_get by blast
  qed
  thus ?thesis using assms(1) unfolding store_ok_def set_row_def by (auto simp del: js_set_set)
qed

lemma store_ok_set_row_evolves:
  assumes "store_ok st" "get st rid = Some r" "row_evolves r r'"
  shows "store_ok (set_row rid r' st)"
proof (rule store_ok_set_row [OF assms(1,2)])
  show "runId r' = rid" using store_ok_get(1) [OF assms(1,2)] row_evolves_runId [OF assms(3)] by simp
  show "row_ok r'" using store_ok_get(2) [OF assms(1,2)] row_ok_evolves [OF assms(3)] by simp
qed

subsection \<open>Compare-and-set\<close>

definition cas_ok :: "job_row option \<Rightarrow> job_status \<Rightarrow> job_status \<Rightarrow> string option \<Rightarrow> bool" where
  "cas_ok row from to e = (case row of None \<Rightarrow> False
     | Some r \<Rightarrow> status r = from \<and> canTransition from to \<and> (e = None \<or> leasedBy r = e))"

lemma cas_ok_None [simp]: "\<not> cas_ok None from to e"
  by (simp add: cas_ok_def)

lemma cas_ok_Some [simp]: "cas_ok (Some r) from to e \<longleftrightarrow>
    status r = from \<and> canTransition from to \<and> (e = None \<or> leasedBy r = e)"
  by (simp add: cas_ok_def)

lemma cas_okD: "cas_ok row from to e \<Longrightarrow> \<exists>r. row = Some r \<and> status r = from \<and> canTransition from to"
  by (cases row) auto

lemma transition_eq:
  "transition rid from to p e st =
     (if cas_ok (get st rid) from to e
      then (True, set_row rid (applyPatch to p (the (get st rid))) st) else (False, st))"
  by (cases "get st rid") (auto simp: transition_def get_def set_row_def)

lemma mutate_eq: "mutate rid f st = (case get st rid of None \<Rightarrow> st | Some r \<Rightarrow> set_row rid (f r) st)"
  by (simp add: mutate_def get_def set_row_def split: option.splits)

lemma store_ok_transition [store_inv]:
  "store_ok st \<Longrightarrow> store_ok (snd (transition rid from to p e st))"
  by (auto simp: transition_eq dest!: cas_okD intro!: store_ok_set_row_evolves row_evolves_patch)

lemma events_transition [simp, store_frame]: "events (snd (transition rid from to p e st)) = events st"
  by (simp add: transition_eq)

subsection \<open>Insert\<close>

lemma newRow_simps [simp]: "runId (newRow j) = nj_runId j" "status (newRow j) = Accepted"
  "resumeToken (newRow j) = nj_resumeToken j"
  "requestFingerprint (newRow j) = nj_requestFingerprint j"
  "callbackUrl (newRow j) = nj_callbackUrl j"
  by (simp_all add: newRow_def)

lemma existingJob_get: "existingJob st key = Some r \<Longrightarrow> \<exists>rid. get st rid = Some r"
  by (auto simp: existingJob_def get_def split: option.splits if_splits)

lemma insertOrGet_new: "existingJob st (jobKey j) = None \<Longrightarrow>
   insertOrGet j st = ((newRow j, True), (set_row (nj_runId j) (newRow j) st)
      \<lparr>byKey := js_set (jobKey j) (nj_runId j) (byKey st)\<rparr>)"
  by (simp add: insertOrGet_def set_row_def newRow_def Let_def)

lemma insertOrGet_old: "existingJob st (jobKey j) = Some r \<Longrightarrow> insertOrGet j st = ((r, False), st)"
  by (simp add: insertOrGet_def)

lemma get_byKey_update [simp]: "get (st\<lparr>byKey := b\<rparr>) = get st"
  by (rule ext) (simp add: get_def)

lemma get_events_update [simp]: "get (st\<lparr>events := b\<rparr>) = get st"
  by (rule ext) (simp add: get_def)

lemma store_ok_insertOrGet [store_inv]:
  assumes "store_ok st" shows "store_ok (snd (insertOrGet j st))"
proof (cases "existingJob st (jobKey j)")
  case None
  let ?js = "js_set (nj_runId j) (newRow j) (jobs st)"
  let ?bk = "js_set (jobKey j) (nj_runId j) (byKey st)"
  have rows: "\<forall>(k, s) \<in> set ?js. runId s = k \<and> row_ok s"
  proof clarify
    fix k s assume "(k, s) \<in> set ?js"
    hence "(k = nj_runId j \<and> s = newRow j) \<or> get st k = Some s"
      using assms by (auto simp: js_set_entries get_def js_get_in store_ok_def)
    thus "runId s = k \<and> row_ok s" using store_ok_get [OF assms] by auto
  qed
  have keys: "\<forall>(key, rid) \<in> set ?bk. js_get ?js rid \<noteq> None"
  proof clarify
    fix key rid assume "(key, rid) \<in> set ?bk"
    hence "rid = nj_runId j \<or> (key, rid) \<in> set (byKey st)"
      using assms by (auto simp: js_set_entries store_ok_def)
    thus "\<exists>y. js_get ?js rid = Some y" using assms by (auto simp: store_ok_def)
  qed
  show ?thesis using assms rows keys None by (simp add: insertOrGet_new store_ok_def set_row_def)
next
  case (Some r)
  thus ?thesis using assms by (simp add: insertOrGet_old)
qed

lemma insertOrGet_evolves:
  assumes "existingJob st (jobKey j) = None \<Longrightarrow> get st (nj_runId j) = None"
  shows "rows_evolve (get st) (get (snd (insertOrGet j st)))"
  using assms
  by (cases "existingJob st (jobKey j)")
     (simp_all add: insertOrGet_new insertOrGet_old rows_evolve_new)

lemma events_insertOrGet [simp, store_frame]: "events (snd (insertOrGet j st)) = events st"
  by (cases "existingJob st (jobKey j)") (simp_all add: insertOrGet_new insertOrGet_old)

subsection \<open>Claim and lease\<close>

text \<open>What a claim writes to the row it takes.\<close>

definition claimedRow :: "ms \<Rightarrow> lease option \<Rightarrow> bool \<Rightarrow> job_row \<Rightarrow> job_row" where
  "claimedRow nowMs ls co r = setLease nowMs ls co (applyPatch Running (claimPatch nowMs r) r)"

lemma setLease_evolves: "\<not> isTerminal (status r) \<Longrightarrow> row_evolves r (setLease nowMs ls co r)"
proof (cases ls)
  case (Some l)
  assume nt: "\<not> isTerminal (status r)"
  define n where "n = (if co then attempts r else attempts r + 1)"
  have "setLease nowMs ls co r = r\<lparr>leasedBy := Some (l_workerId l),
      leaseExpiresAt := Some (nowMs + l_ttlMs l), attempts := n,
      engineAttemptCharged := engineAttemptCharged r\<rparr>"
    using Some by (simp add: setLease_def n_def)
  thus ?thesis using row_evolves_lease [OF nt] by (simp only:)
qed (simp add: setLease_def)

lemma claimedRow_evolves: "status r = Queued \<Longrightarrow> row_evolves r (claimedRow nowMs ls co r)"
  unfolding claimedRow_def
  by (rule row_evolves_trans [OF row_evolves_patch setLease_evolves]) simp_all

lemma status_setLease [simp]: "status (setLease nowMs ls co r) = status r"
  by (simp add: setLease_def Let_def split: option.splits)

lemma status_claimedRow [simp]: "status (claimedRow nowMs ls co r) = Running"
  by (simp add: claimedRow_def)

lemma claim_empty: "queuedJobs st = [] \<Longrightarrow> claimNextQueued nowMs ls co st = (None, st)"
  by (simp add: claimNextQueued_def)

lemma claim_head:
  assumes ok: "store_ok st" and q: "queuedJobs st = next # rest"
  shows "get st (runId next) = Some next" "status next = Queued"
    "claimNextQueued nowMs ls co st =
       (Some (claimedRow nowMs ls co next), set_row (runId next) (claimedRow nowMs ls co next) st)"
proof -
  have "next \<in> set (queuedJobs st)" using q by simp
  hence n: "next \<in> set (js_values (jobs st))" "status next = Queued"
    by (auto simp: queuedJobs_def)
  show g: "get st (runId next) = Some next" using store_ok_values [OF ok n(1)] .
  show "status next = Queued" by fact
  show "claimNextQueued nowMs ls co st =
       (Some (claimedRow nowMs ls co next), set_row (runId next) (claimedRow nowMs ls co next) st)"
    using q g n(2) by (simp add: claimNextQueued_def transition_eq mutate_eq claimedRow_def)
qed

text \<open>The row claimed is the first queued row in (queue time, run id) order.\<close>

lemma queuedJobs_first:
  assumes "queuedJobs st = next # rest" "r \<in> set (js_values (jobs st))" "status r = Queued"
  shows "queueOrder next \<le> queueOrder r"
proof -
  have "r \<in> set [j \<leftarrow> js_values (jobs st). status j = Queued]" using assms(2,3) by simp
  from hd_sort_key_min [OF this, of queueOrder] show ?thesis
    using assms(1) by (simp add: queuedJobs_def)
qed

lemma queuedJobs_Nil: "queuedJobs st = [] \<longleftrightarrow> (\<forall>r \<in> set (js_values (jobs st)). status r \<noteq> Queued)"
  by (simp add: queuedJobs_def filter_empty_conv)

lemma store_ok_claim [store_inv]:
  assumes "store_ok st" shows "store_ok (snd (claimNextQueued nowMs ls co st))"
proof (cases "queuedJobs st")
  case (Cons nxt rest)
  note c = claim_head [OF assms Cons]
  show ?thesis using store_ok_set_row_evolves [OF assms c(1) claimedRow_evolves [OF c(2)]]
    by (simp add: c(3))
qed (simp add: claim_empty assms)

lemma renewed_evolves: "row_evolves job (if status job = Running \<and> leasedBy job = Some w
    then job\<lparr>leaseExpiresAt := Some untilMs\<rparr> else job)"
proof (cases "status job = Running")
  case True
  have "row_evolves job (job\<lparr>leasedBy := leasedBy job, leaseExpiresAt := Some untilMs,
      attempts := attempts job, engineAttemptCharged := engineAttemptCharged job\<rparr>)"
    by (rule row_evolves_lease) (simp add: True)
  thus ?thesis by simp
qed simp

text \<open>A pass that rewrites every row in place by allowed steps keeps the store well formed.\<close>

definition map_rows :: "(job_row \<Rightarrow> job_row) \<Rightarrow> job_store \<Rightarrow> job_store" where
  "map_rows f st = st\<lparr>jobs := map (\<lambda>(k, r). (k, f r)) (jobs st)\<rparr>"

lemma get_map_rows: "get (map_rows f st) k = map_option f (get st k)"
  using js_get_map [of "\<lambda>_. f" "jobs st" k] by (simp add: map_rows_def get_def)

lemma events_map_rows [simp]: "events (map_rows f st) = events st"
  by (simp add: map_rows_def)

lemma map_rows_evolves: "(\<And>r. row_evolves r (f r)) \<Longrightarrow> rows_evolve (get st) (get (map_rows f st))"
  by (auto simp: rows_evolve_def get_map_rows)

lemma store_ok_map_rows:
  assumes "store_ok st" "\<And>r. row_evolves r (f r)" shows "store_ok (map_rows f st)"
proof -
  have r: "runId (f r) = runId r" "row_ok r \<Longrightarrow> row_ok (f r)" for r
    using row_evolves_runId [OF assms(2)] row_ok_evolves [OF assms(2)] by auto
  have g: "js_get (jobs (map_rows f st)) k = map_option f (js_get (jobs st) k)" for k
    using get_map_rows [of f st k] by (simp add: get_def)
  have m: "map_ok (jobs (map_rows f st))"
    using assms(1) map_ok_map [of "\<lambda>_. f" "jobs st"] by (simp add: map_rows_def store_ok_def)
  have rows: "\<forall>(k, s) \<in> set (jobs (map_rows f st)). runId s = k \<and> row_ok s"
    using assms(1) r by (fastforce simp: map_rows_def store_ok_def)
  show ?thesis using assms(1) m rows unfolding store_ok_def g by (auto simp: map_rows_def)
qed

lemma renewLease_map_rows: "renewLease w untilMs st = map_rows (\<lambda>job.
    if status job = Running \<and> leasedBy job = Some w then job\<lparr>leaseExpiresAt := Some untilMs\<rparr> else job) st"
  by (simp add: renewLease_def map_rows_def)

lemma store_ok_renewLease [store_inv]: "store_ok st \<Longrightarrow> store_ok (renewLease w untilMs st)"
  unfolding renewLease_map_rows by (rule store_ok_map_rows [OF _ renewed_evolves])

subsection \<open>The reaper, row by row\<close>

text \<open>The decision of the reaper for one row: the row it leaves, and whether it terminalised it.\<close>

definition reapRow :: "ms \<Rightarrow> reap_opts \<Rightarrow> job_row \<Rightarrow> job_row \<times> bool" where
  "reapRow nowMs opts r =
     (let maxAttempts = orElse (ro_leaseMaxAttempts opts) 3;
          waitCap = orElse (ro_computeWaitMaxAttempts opts) 3;
          co = orElse (ro_coalesceEnabled opts) False;
          leaseStale = past (leaseExpiresAt r) nowMs;
          finish = (\<lambda>to code. (applyPatch to (terminalPatch nowMs code) r, True))
      in case status r of
           Accepted \<Rightarrow> if past (queueDeadlineMs r) nowMs then finish Expired ''queue_deadline_exceeded'' else (r, False)
         | Queued \<Rightarrow> if past (queueDeadlineMs r) nowMs then finish Expired ''queue_deadline_exceeded'' else (r, False)
         | Waiting_for_compute \<Rightarrow> if past (runDeadlineMs r) nowMs then finish Timed_out ''run_deadline_exceeded'' else (r, False)
         | Running \<Rightarrow>
             if leaseStale \<and> co \<and> engineAttemptCharged r = Some False then
               (if computeWaitAttempts r \<ge> waitCap then finish Failed ''compute_wait_exhausted''
                else (clearLease (applyPatch Queued ((patch_at nowMs)\<lparr>p_queuedAtMs := Some nowMs,
                        p_computeWaitAttempts := Some (computeWaitAttempts r + 1)\<rparr>) r), False))
             else if leaseStale \<and> attempts r \<ge> maxAttempts then finish Failed ''lease_expired''
             else if leaseStale then
               (let r' = clearLease (applyPatch Queued ((patch_at nowMs)\<lparr>p_queuedAtMs := Some nowMs\<rparr>) r)
                in (if co then r'\<lparr>engineAttemptCharged := Some False\<rparr> else r', False))
             else if past (runDeadlineMs r) nowMs then finish Timed_out ''run_deadline_exceeded''
             else (r, False)
         | _ \<Rightarrow> (r, False))"

lemma reapTo_eq:
  assumes "get st rid = Some r" "status r = from" "canTransition from to"
  shows "reapTo rid from to nowMs code st reaped =
    (set_row rid (applyPatch to (terminalPatch nowMs code) r) st,
     reaped @ [applyPatch to (terminalPatch nowMs code) r])"
  using assms by (simp add: reapTo_def transition_eq)

lemma requeue_eq:
  assumes "get st rid = Some r" "status r = Running"
  shows "requeue rid p f st = set_row rid (f (applyPatch Queued p r)) st"
  using assms by (simp add: requeue_def transition_eq mutate_eq)

lemma reapJob_eq:
  assumes "get st (runId r) = Some r"
  shows "reapJob nowMs opts r (st, reaped) =
    (set_row (runId r) (fst (reapRow nowMs opts r)) st,
     reaped @ (if snd (reapRow nowMs opts r) then [fst (reapRow nowMs opts r)] else []))"
proof (cases "status r = Running")
  case True
  note facts = reapTo_eq [OF assms] requeue_eq [OF assms True]
  show ?thesis
  proof (cases "past (leaseExpiresAt r) nowMs")
    case stale: True
    show ?thesis
    proof (cases "orElse (ro_coalesceEnabled opts) False \<and> engineAttemptCharged r = Some False")
      case True
      with stale \<open>status r = Running\<close> show ?thesis
        unfolding reapJob_def reapRow_def Let_def by (simp add: facts)
    next
      case False
      with stale \<open>status r = Running\<close> show ?thesis
        unfolding reapJob_def reapRow_def Let_def
        by (cases "orElse (ro_coalesceEnabled opts) False") (simp_all add: facts)
    qed
  next
    case False
    thus ?thesis using assms True
      unfolding reapJob_def reapRow_def Let_def by (simp add: facts)
  qed
next
  case False
  thus ?thesis using assms unfolding reapJob_def reapRow_def Let_def
    by (cases "status r") (simp_all add: reapTo_eq [OF assms])
qed

text \<open>One pass over the map: the rows before the cursor are done, those after it untouched.\<close>

lemma reapLoop_eq:
  assumes "distinct (map fst (pre @ suf))" and "\<forall>(k, r) \<in> set suf. runId r = k"
  shows "reapLoop nowMs opts (map fst suf) (st\<lparr>jobs := pre @ suf\<rparr>, reaped) =
    (st\<lparr>jobs := pre @ map (\<lambda>(k, r). (k, fst (reapRow nowMs opts r))) suf\<rparr>,
     reaped @ [fst (reapRow nowMs opts r). (k, r) \<leftarrow> suf, snd (reapRow nowMs opts r)])"
  using assms
proof (induction suf arbitrary: pre reaped)
  case (Cons p suf)
  obtain k r where p: "p = (k, r)" by (cases p)
  let ?r' = "fst (reapRow nowMs opts r)"
  have k: "k \<notin> fst ` set pre" "runId r = k" using Cons.prems p by auto
  have g: "get (st\<lparr>jobs := pre @ (k, r) # suf\<rparr>) k = Some r"
    using k(1) by (simp add: get_def js_get_middle)
  have step: "set_row k ?r' (st\<lparr>jobs := pre @ (k, r) # suf\<rparr>) = st\<lparr>jobs := (pre @ [(k, ?r')]) @ suf\<rparr>"
    using k(1) by (simp add: set_row_def js_set_middle)
  have d: "distinct (map fst ((pre @ [(k, ?r')]) @ suf))" using Cons.prems(1) p by simp
  note IH = Cons.IH [OF d, of "reaped @ (if snd (reapRow nowMs opts r) then [?r'] else [])"]
  show ?case
    using g k(2) IH Cons.prems(2)
    by (simp add: p reapJob_eq [of _ r, unfolded k(2)] step js_get_middle k(1))
qed simp

theorem reapDeadlines_eq:
  assumes "store_ok st"
  shows "reapDeadlines nowMs opts st =
    ([fst (reapRow nowMs opts r). r \<leftarrow> js_values (jobs st), snd (reapRow nowMs opts r)],
     map_rows (\<lambda>r. fst (reapRow nowMs opts r)) st)"
proof -
  have d: "distinct (map fst ([] @ jobs st))" "\<forall>(k, r) \<in> set (jobs st). runId r = k"
    using assms by (auto simp: store_ok_def map_ok_def)
  have c: "[fst (reapRow nowMs opts r). (k, r) \<leftarrow> m, snd (reapRow nowMs opts r)] =
      [fst (reapRow nowMs opts r). r \<leftarrow> map snd m, snd (reapRow nowMs opts r)]" for m :: "job_row js_map"
    by (induction m) auto
  show ?thesis using reapLoop_eq [OF d, of nowMs opts st "[]"]
    by (simp add: reapDeadlines_def js_keys_def js_values_def map_rows_def c)
qed

lemma clearLease_evolves: "\<not> isTerminal (status r) \<Longrightarrow> row_evolves r (clearLease r)"
  using row_evolves_lease [where r = r and a = None and b = None and n = "attempts r" and c = "engineAttemptCharged r"]
  by (simp add: clearLease_def)

lemma status_clearLease [simp]: "status (clearLease r) = status r"
  by (simp add: clearLease_def)

lemma reapRow_evolves: "row_evolves r (fst (reapRow nowMs opts r))"
proof (cases "status r")
  case Running
  have q: "row_evolves r (clearLease (applyPatch Queued p r))" for p
    by (rule row_evolves_trans [OF row_evolves_patch clearLease_evolves]) (simp_all add: Running)
  have c: "row_evolves r (r'\<lparr>engineAttemptCharged := Some False\<rparr>)"
    if "row_evolves r r'" "\<not> isTerminal (status r')" for r'
  proof -
    have "row_evolves r' (r'\<lparr>leasedBy := leasedBy r', leaseExpiresAt := leaseExpiresAt r',
        attempts := attempts r', engineAttemptCharged := Some False\<rparr>)"
      by (rule row_evolves_lease) (rule that(2))
    thus ?thesis using row_evolves_trans [OF that(1)] by simp
  qed
  show ?thesis unfolding reapRow_def Let_def
    by (simp add: Running row_evolves_patch q c)
qed (simp_all add: reapRow_def Let_def row_evolves_patch)

lemma reapRow_flag: "snd (reapRow nowMs opts r) \<longleftrightarrow>
    \<not> isTerminal (status r) \<and> isTerminal (status (fst (reapRow nowMs opts r)))"
  by (cases "status r") (simp_all add: reapRow_def Let_def)

lemma reapRow_unflagged: "isTerminal (status r) \<Longrightarrow> reapRow nowMs opts r = (r, False)"
  by (cases "status r") (simp_all add: reapRow_def)

lemma store_ok_reap [store_inv]: "store_ok st \<Longrightarrow> store_ok (snd (reapDeadlines nowMs opts st))"
  by (simp add: reapDeadlines_eq store_ok_map_rows reapRow_evolves)

lemma reapDeadlines_get: "store_ok st \<Longrightarrow>
    get (snd (reapDeadlines nowMs opts st)) k = map_option (\<lambda>r. fst (reapRow nowMs opts r)) (get st k)"
  by (simp add: reapDeadlines_eq get_map_rows)

lemma filter_concat_map: "[f r. r \<leftarrow> xs, P r] = map f (filter P xs)"
  by (induction xs) auto

text \<open>The reaped rows are exactly the rows this pass made terminal, each once.\<close>

lemma runId_values: "store_ok st \<Longrightarrow> map runId (js_values (jobs st)) = js_keys (jobs st)"
  by (auto simp: store_ok_def js_values_def js_keys_def)

lemma reaped_distinct:
  assumes "store_ok st"
  shows "distinct (map runId (fst (reapDeadlines nowMs opts st)))"
proof -
  let ?f = "\<lambda>r. fst (reapRow nowMs opts r)" and ?P = "\<lambda>r. snd (reapRow nowMs opts r)"
  have "map runId (fst (reapDeadlines nowMs opts st)) = map runId (filter ?P (js_values (jobs st)))"
    using row_evolves_runId [OF reapRow_evolves]
    by (simp add: reapDeadlines_eq [OF assms] filter_concat_map comp_def)
  moreover have "distinct (map runId (js_values (jobs st)))"
    using assms by (simp add: runId_values js_keys_def store_ok_def map_ok_def)
  ultimately show ?thesis by (simp add: distinct_map_filter)
qed

lemma reaped_iff:
  assumes "store_ok st"
  shows "r' \<in> set (fst (reapDeadlines nowMs opts st)) \<longleftrightarrow>
    (\<exists>r. get st (runId r') = Some r \<and> \<not> isTerminal (status r) \<and> isTerminal (status r')
       \<and> get (snd (reapDeadlines nowMs opts st)) (runId r') = Some r')" (is "?L \<longleftrightarrow> ?R")
proof
  assume ?L
  then obtain r where r: "r \<in> set (js_values (jobs st))" "snd (reapRow nowMs opts r)"
    "r' = fst (reapRow nowMs opts r)"
    by (auto simp: reapDeadlines_eq [OF assms] filter_concat_map)
  have "runId r' = runId r" using r(3) row_evolves_runId [OF reapRow_evolves] by simp
  thus ?R using r store_ok_values [OF assms r(1)]
    by (simp add: reapDeadlines_get [OF assms] reapRow_flag)
next
  assume ?R
  then obtain r where r: "get st (runId r') = Some r" "\<not> isTerminal (status r)"
    "isTerminal (status r')" "r' = fst (reapRow nowMs opts r)"
    by (auto simp: reapDeadlines_get [OF assms])
  have "r \<in> set (js_values (jobs st))" using r(1) by (simp add: get_def js_get_values)
  thus ?L using r by (auto simp: reapDeadlines_eq [OF assms] filter_concat_map reapRow_flag)
qed

subsection \<open>Waking waiters\<close>

definition isWaiter :: "string \<Rightarrow> job_row \<Rightarrow> bool" where
  "isWaiter ci r = (status r = Waiting_for_compute \<and> computeIdentity r = Some ci)"

definition releaseRow :: "string \<Rightarrow> compute_wake_reason \<Rightarrow> ms \<Rightarrow> job_row \<Rightarrow> job_row" where
  "releaseRow ci reason nowMs r =
     (if isWaiter ci r then applyPatch Queued (wakePatch nowMs reason) r else r)"

lemma releaseLoop_eq:
  assumes "distinct (map fst (pre @ suf))" and "\<forall>(k, r) \<in> set suf. runId r = k"
  shows "releaseLoop ci reason nowMs (map fst suf) (n, st\<lparr>jobs := pre @ suf\<rparr>) =
    (n + length [r \<leftarrow> map snd suf. isWaiter ci r],
     st\<lparr>jobs := pre @ map (\<lambda>(k, r). (k, releaseRow ci reason nowMs r)) suf\<rparr>)"
  using assms
proof (induction suf arbitrary: pre n)
  case (Cons p suf)
  obtain k r where p: "p = (k, r)" by (cases p)
  let ?r' = "releaseRow ci reason nowMs r"
  have k: "k \<notin> fst ` set pre" "runId r = k" using Cons.prems p by auto
  have g: "get (st\<lparr>jobs := pre @ (k, r) # suf\<rparr>) k = Some r"
    using k(1) by (simp add: get_def js_get_middle)
  have step: "set_row k v (st\<lparr>jobs := pre @ (k, r) # suf\<rparr>) = st\<lparr>jobs := (pre @ [(k, v)]) @ suf\<rparr>" for v
    using k(1) by (simp add: set_row_def js_set_middle)
  have d: "distinct (map fst ((pre @ [(k, v)]) @ suf))" for v using Cons.prems(1) p by simp
  have IH: "releaseLoop ci reason nowMs (map fst suf) (m, st\<lparr>jobs := (pre @ [(k, v)]) @ suf\<rparr>) =
    (m + length [r \<leftarrow> map snd suf. isWaiter ci r],
     st\<lparr>jobs := (pre @ [(k, v)]) @ map (\<lambda>(k, r). (k, releaseRow ci reason nowMs r)) suf\<rparr>)" for m v
    by (rule Cons.IH [OF d]) (use Cons.prems(2) in auto)
  show ?case
  proof (cases "isWaiter ci r")
    case True
    hence "status r = Waiting_for_compute" "computeIdentity r = Some ci" by (simp_all add: isWaiter_def)
    thus ?thesis using g k IH [of "n + 1" ?r'] True
      by (simp add: p transition_eq step js_get_middle releaseRow_def)
  next
    case False
    thus ?thesis using k IH [of n r]
      by (auto simp add: p js_get_middle releaseRow_def isWaiter_def)
  qed
qed simp

lemma releaseAll_eq:
  assumes "store_ok st"
  shows "releaseAllComputeWaiters ci reason nowMs st =
    (length [r \<leftarrow> js_values (jobs st). isWaiter ci r], map_rows (releaseRow ci reason nowMs) st)"
proof -
  have d: "distinct (map fst ([] @ jobs st))" "\<forall>(k, r) \<in> set (jobs st). runId r = k"
    using assms by (auto simp: store_ok_def map_ok_def)
  show ?thesis using releaseLoop_eq [OF d, of ci reason nowMs 0 st]
    by (simp add: releaseAllComputeWaiters_def js_keys_def js_values_def map_rows_def)
qed

lemma releaseRow_evolves: "row_evolves r (releaseRow ci reason nowMs r)"
  by (simp add: releaseRow_def isWaiter_def row_evolves_patch)

lemma store_ok_releaseAll [store_inv]:
  "store_ok st \<Longrightarrow> store_ok (snd (releaseAllComputeWaiters ci reason nowMs st))"
  by (simp add: releaseAll_eq store_ok_map_rows releaseRow_evolves)

lemma elect_empty: "waitersFor ci st = [] \<Longrightarrow> electOneComputeWaiter ci reason nowMs st = (None, st)"
  by (simp add: electOneComputeWaiter_def)

lemma elect_head:
  assumes ok: "store_ok st" and q: "waitersFor ci st = nxt # rest"
  shows "get st (runId nxt) = Some nxt" "isWaiter ci nxt"
    "electOneComputeWaiter ci reason nowMs st =
       (Some (applyPatch Queued (wakePatch nowMs reason) nxt),
        set_row (runId nxt) (applyPatch Queued (wakePatch nowMs reason) nxt) st)"
proof -
  have "nxt \<in> set (waitersFor ci st)" using q by simp
  hence n: "nxt \<in> set (js_values (jobs st))" "isWaiter ci nxt"
    by (auto simp: waitersFor_def isWaiter_def)
  show g: "get st (runId nxt) = Some nxt" using store_ok_values [OF ok n(1)] .
  show "isWaiter ci nxt" by fact
  show "electOneComputeWaiter ci reason nowMs st =
       (Some (applyPatch Queued (wakePatch nowMs reason) nxt),
        set_row (runId nxt) (applyPatch Queued (wakePatch nowMs reason) nxt) st)"
    using q g n(2) by (simp add: electOneComputeWaiter_def transition_eq isWaiter_def)
qed

lemma waitersFor_first:
  assumes "waitersFor ci st = nxt # rest" "r \<in> set (js_values (jobs st))" "isWaiter ci r"
  shows "queueOrder nxt \<le> queueOrder r"
proof -
  have "r \<in> set [j \<leftarrow> js_values (jobs st). status j = Waiting_for_compute \<and> computeIdentity j = Some ci]"
    using assms(2,3) by (simp add: isWaiter_def)
  from hd_sort_key_min [OF this, of queueOrder] show ?thesis
    using assms(1) by (simp add: waitersFor_def)
qed

lemma store_ok_elect [store_inv]:
  assumes "store_ok st" shows "store_ok (snd (electOneComputeWaiter ci reason nowMs st))"
proof (cases "waitersFor ci st")
  case (Cons nxt rest)
  note e = elect_head [OF assms Cons]
  have "row_evolves nxt (applyPatch Queued (wakePatch nowMs reason) nxt)"
    using e(2) by (simp add: isWaiter_def row_evolves_patch)
  from store_ok_set_row_evolves [OF assms e(1) this] show ?thesis by (simp add: e(3))
qed (simp add: elect_empty assms)

lemma poison_eq: "poisonComputeWaiter rid nowMs st =
    (if cas_ok (get st rid) Waiting_for_compute Failed None
     then (Some (applyPatch Failed (terminalPatch nowMs ''compute_wait_exhausted'') (the (get st rid))),
           set_row rid (applyPatch Failed (terminalPatch nowMs ''compute_wait_exhausted'')
             (the (get st rid))) st)
     else (None, st))"
  by (simp add: poisonComputeWaiter_def transition_eq)

lemma poison_snd: "snd (poisonComputeWaiter rid nowMs st) =
    snd (transition rid Waiting_for_compute Failed (terminalPatch nowMs ''compute_wait_exhausted'') None st)"
  by (simp add: poison_eq transition_eq)

lemma store_ok_poison [store_inv]: "store_ok st \<Longrightarrow> store_ok (snd (poisonComputeWaiter rid nowMs st))"
  unfolding poison_snd by (rule store_ok_transition)

subsection \<open>The event log\<close>

lemma get_appendEvent [simp]: "get (appendEvent ev st) = get st"
  by (simp add: appendEvent_def)

lemma get_markDelivered [simp]: "get (markDelivered uid ok st) = get st"
  by (simp add: markDelivered_def)

lemma store_ok_events [simp]: "store_ok (st\<lparr>events := es\<rparr>) = store_ok st"
  by (simp add: store_ok_def)

lemma store_ok_appendEvent [store_inv]: "store_ok st \<Longrightarrow> store_ok (appendEvent ev st)"
  by (simp add: appendEvent_def)

lemma store_ok_markDelivered [store_inv]: "store_ok st \<Longrightarrow> store_ok (markDelivered uid ok st)"
  by (simp add: markDelivered_def)

lemma mark_first_fields:
  assumes "\<And>e. f (markEvent ok e) = f e" shows "map f (mark_first uid ok es) = map f es"
  by (induction es) (simp_all add: assms)

lemma events_claim [simp, store_frame]:
  assumes "store_ok st" shows "events (snd (claimNextQueued nowMs ls co st)) = events st"
  by (cases "queuedJobs st") (simp_all add: claim_empty claim_head(3) [OF assms])

lemma events_reap [simp, store_frame]:
  "store_ok st \<Longrightarrow> events (snd (reapDeadlines nowMs opts st)) = events st"
  by (simp add: reapDeadlines_eq)

lemma events_releaseAll [simp, store_frame]:
  "store_ok st \<Longrightarrow> events (snd (releaseAllComputeWaiters ci reason nowMs st)) = events st"
  by (simp add: releaseAll_eq)

lemma events_elect [simp, store_frame]:
  assumes "store_ok st" shows "events (snd (electOneComputeWaiter ci reason nowMs st)) = events st"
  by (cases "waitersFor ci st") (simp_all add: elect_empty elect_head(3) [OF assms])

lemma events_poison [simp, store_frame]: "events (snd (poisonComputeWaiter rid nowMs st)) = events st"
  by (simp add: poison_snd)

lemma events_renewLease [simp, store_frame]: "events (renewLease w untilMs st) = events st"
  by (simp add: renewLease_def)

end
