(* ===== verification/Pg_Job_Store.thy ===== *)
theory Pg_Job_Store
  imports Job_Store
begin

text \<open>
  \<open>apps/backtester/src/jobs/pg-job-store.ts\<close>: the Postgres job store.  A table is the list of its
  rows; a column value is modelled at its SQL type (the driver hands \<open>BIGINT\<close> columns over as decimal
  strings that \<open>rowToJob\<close> reads back with \<open>Number\<close>); \<open>NULL\<close> is \<open>None\<close>.  An \<open>UPDATE ... WHERE\<close> rewrites
  every row that satisfies the condition, a statement is one atomic step, and an operation that issues
  several statements is their sequence.  The value that a \<open>JSONB\<close> column gives back for the request
  document is the parameter \<open>jsonb\<close>; \<open>NOTIFY\<close> is counted.  Constraints of the migrations that the
  operations rely on (primary key \<open>run_id\<close>, the partial unique index on \<open>resume_token\<close>,
  \<open>engine_attempt_charged NOT NULL DEFAULT false\<close>) are part of the statements.
\<close>

record job_db_row =
  run_id :: string
  job_id :: string
  resume_token :: "string option"
  request_fingerprint :: string
  correlation_id :: "string option"
  workflow_id :: "string option"
  db_status :: job_status
  request_json :: json
  effective_seed :: jsnum
  dataset_ref :: string
  dataset_fingerprint :: "string option"
  bundle_hash :: "content_hash option"
  callback_url :: "string option"
  queue_deadline_ms :: "ms option"
  run_timeout_ms :: ms
  run_deadline_ms :: "ms option"
  leased_by :: "string option"
  lease_expires_at :: "ms option"
  db_attempts :: nat
  accepted_at_ms :: ms
  queued_at_ms :: "ms option"
  started_at_ms :: "ms option"
  terminal_at_ms :: "ms option"
  last_activity_ms :: "ms option"
  result_summary_json :: "run_result_summary option"
  result_hash :: "content_hash option"
  artifact_manifest_json :: "artifact_manifest option"
  terminal_code :: "string option"
  terminal_issues_json :: "json list option"
  deduped_from :: "string option"
  compute_wait_attempts :: nat
  compute_identity :: "string option"
  wait_deadline_ms :: "ms option"
  compute_wake_reason :: "compute_wake_reason option"
  engine_attempt_charged :: bool
  timeline_json :: "timeline_entry list"

record event_db_row =
  event_uid :: string
  event_job_id :: string
  event_run_id :: string
  event_type :: job_event_type
  payload_json :: event_payload
  delivery_state :: "delivery_state option"
  delivery_attempts :: nat
  created_at_ms :: ms

record pg_store =
  backtest_job :: "job_db_row list"
  backtest_job_event :: "event_db_row list"
  notifies :: nat

datatype pg_error = Unique_violation string | Invalid_bigint

definition emptyPg :: pg_store where
  "emptyPg = \<lparr>backtest_job = [], backtest_job_event = [], notifies = 0\<rparr>"

definition rowToJob :: "job_db_row \<Rightarrow> job_row" where
  "rowToJob r = \<lparr>jobId = job_id r, runId = run_id r, resumeToken = resume_token r,
     requestFingerprint = request_fingerprint r, correlationId = correlation_id r,
     workflowId = workflow_id r, status = db_status r, request = request_json r,
     effectiveSeed = effective_seed r, datasetRef = dataset_ref r,
     datasetFingerprint = dataset_fingerprint r, bundleHash = bundle_hash r,
     callbackUrl = callback_url r, queueDeadlineMs = queue_deadline_ms r,
     runTimeoutMs = run_timeout_ms r, runDeadlineMs = run_deadline_ms r, leasedBy = leased_by r,
     leaseExpiresAt = lease_expires_at r, attempts = db_attempts r,
     acceptedAtMs = accepted_at_ms r, queuedAtMs = queued_at_ms r, startedAtMs = started_at_ms r,
     terminalAtMs = terminal_at_ms r, lastActivityMs = last_activity_ms r,
     resultSummary = result_summary_json r, resultHash = result_hash r,
     artifactManifest = artifact_manifest_json r, terminalCode = terminal_code r,
     terminalIssues = terminal_issues_json r, dedupedFrom = deduped_from r,
     computeWaitAttempts = compute_wait_attempts r, computeIdentity = compute_identity r,
     waitDeadlineMs = wait_deadline_ms r, computeWakeReason = compute_wake_reason r,
     engineAttemptCharged = Some (engine_attempt_charged r), timeline = timeline_json r\<rparr>"

definition rowToEvent :: "event_db_row \<Rightarrow> job_event_row" where
  "rowToEvent r = \<lparr>ev_eventUid = event_uid r, ev_jobId = event_job_id r, ev_runId = event_run_id r,
     ev_eventType = event_type r, ev_payload = payload_json r, ev_createdAtMs = created_at_ms r,
     ev_deliveryState = delivery_state r, ev_deliveryAttempts = Some (delivery_attempts r)\<rparr>"

text \<open>\<open>UPDATE t SET f WHERE P\<close>: the new table, and the rows \<open>RETURNING *\<close> gives (or their count).\<close>

definition sql_update :: "('r \<Rightarrow> bool) \<Rightarrow> ('r \<Rightarrow> 'r) \<Rightarrow> 'r list \<Rightarrow> 'r list" where
  "sql_update P f t = map (\<lambda>r. if P r then f r else r) t"

definition sql_returning :: "('r \<Rightarrow> bool) \<Rightarrow> ('r \<Rightarrow> 'r) \<Rightarrow> 'r list \<Rightarrow> 'r list" where
  "sql_returning P f t = map f (filter P t)"

definition notifyQueued :: "pg_store \<Rightarrow> pg_store" where
  "notifyQueued st = st\<lparr>notifies := notifies st + 1\<rparr>"

definition pg_newRow :: "(json \<Rightarrow> json) \<Rightarrow> new_job \<Rightarrow> job_db_row" where
  "pg_newRow jsonb j = \<lparr>run_id = nj_runId j, job_id = nj_jobId j, resume_token = nj_resumeToken j,
     request_fingerprint = nj_requestFingerprint j, correlation_id = nj_correlationId j,
     workflow_id = nj_workflowId j, db_status = Accepted, request_json = jsonb (nj_request j),
     effective_seed = nj_effectiveSeed j, dataset_ref = nj_datasetRef j,
     dataset_fingerprint = None, bundle_hash = nj_bundleHash j, callback_url = nj_callbackUrl j,
     queue_deadline_ms = nj_queueDeadlineMs j, run_timeout_ms = nj_runTimeoutMs j,
     run_deadline_ms = None, leased_by = None, lease_expires_at = None, db_attempts = 0,
     accepted_at_ms = nj_acceptedAtMs j, queued_at_ms = None, started_at_ms = None,
     terminal_at_ms = None, last_activity_ms = None, result_summary_json = None,
     result_hash = None, artifact_manifest_json = None, terminal_code = None,
     terminal_issues_json = None, deduped_from = None, compute_wait_attempts = 0,
     compute_identity = None, wait_deadline_ms = None, compute_wake_reason = None,
     engine_attempt_charged = False,
     timeline_json = [\<lparr>tl_status = Accepted, tl_atMs = nj_acceptedAtMs j\<rparr>]\<rparr>"

text \<open>\<open>effective_seed BIGINT\<close> takes integers of 64 bits only.\<close>

definition bigint_ok :: "jsnum \<Rightarrow> bool" where
  "bigint_ok n = (case n of JFin r \<Rightarrow> of_int \<lfloor>r\<rfloor> = r \<and> - (2 ^ 63) \<le> r \<and> r < 2 ^ 63 | _ \<Rightarrow> False)"

definition pg_insertOrGet :: "(json \<Rightarrow> json) \<Rightarrow> new_job \<Rightarrow> pg_store
    \<Rightarrow> (pg_error + job_row \<times> bool) \<times> pg_store" where
  "pg_insertOrGet jsonb j st =
     (let sameToken = (\<lambda>r. nj_resumeToken j \<noteq> None \<and> resume_token r = nj_resumeToken j);
          sameRun = (\<lambda>r. run_id r = nj_runId j);
          t = backtest_job st;
          onToken = truthy (nj_resumeToken j);
          arbiter = (if onToken then sameToken else sameRun);
          other = (if onToken then sameRun else sameToken)
      in if \<not> bigint_ok (nj_effectiveSeed j) then (Inl Invalid_bigint, st)
         else case find arbiter t of
           Some r \<Rightarrow> (Inr (rowToJob r, False), st)
         | None \<Rightarrow>
             if find other t \<noteq> None
             then (Inl (Unique_violation (if onToken then ''run_id'' else ''resume_token'')), st)
             else (Inr (rowToJob (pg_newRow jsonb j), True),
                   st\<lparr>backtest_job := t @ [pg_newRow jsonb j]\<rparr>))"

definition pg_get :: "pg_store \<Rightarrow> string \<Rightarrow> job_row option" where
  "pg_get st rid = map_option rowToJob (find (\<lambda>r. run_id r = rid) (backtest_job st))"

definition pg_findByResumeToken :: "pg_store \<Rightarrow> string \<Rightarrow> job_row option" where
  "pg_findByResumeToken st tok =
     map_option rowToJob (find (\<lambda>r. resume_token r = Some tok) (backtest_job st))"

definition db_queueTs :: "job_db_row \<Rightarrow> ms" where
  "db_queueTs r = orElse (queued_at_ms r) (accepted_at_ms r)"

definition pg_countQueueStats :: "pg_store \<Rightarrow> ms \<Rightarrow> nat \<times> ms option" where
  "pg_countQueueStats st nowMs =
     (let q = [r \<leftarrow> backtest_job st. db_status r = Queued];
          oldest = (if q = [] then None else Some (Min (set (map db_queueTs q))))
      in (length q, map_option (\<lambda>t. nowMs - t) oldest))"

text \<open>The \<open>SET\<close> list of the conditional update.\<close>

definition db_applyPatch :: "job_status \<Rightarrow> job_row_patch \<Rightarrow> timeline_entry list \<Rightarrow> job_db_row \<Rightarrow> job_db_row" where
  "db_applyPatch to p entry r = r\<lparr>
     db_status := to,
     queued_at_ms := written (p_queuedAtMs p) (queued_at_ms r),
     started_at_ms := written (p_startedAtMs p) (started_at_ms r),
     terminal_at_ms := written (p_terminalAtMs p) (terminal_at_ms r),
     last_activity_ms := written (p_lastActivityMs p) (last_activity_ms r),
     run_deadline_ms := written (p_runDeadlineMs p) (run_deadline_ms r),
     result_summary_json := written (p_resultSummary p) (result_summary_json r),
     result_hash := written (p_resultHash p) (result_hash r),
     artifact_manifest_json := written (p_artifactManifest p) (artifact_manifest_json r),
     dataset_fingerprint := written (p_datasetFingerprint p) (dataset_fingerprint r),
     terminal_code := written (p_terminalCode p) (terminal_code r),
     deduped_from := written (p_dedupedFrom p) (deduped_from r),
     compute_wait_attempts := orElse (p_computeWaitAttempts p) (compute_wait_attempts r),
     compute_identity := written (p_computeIdentity p) (compute_identity r),
     wait_deadline_ms := written (p_waitDeadlineMs p) (wait_deadline_ms r),
     compute_wake_reason := written (p_computeWakeReason p) (compute_wake_reason r),
     engine_attempt_charged := orElse (p_engineAttemptCharged p) (engine_attempt_charged r),
     db_attempts := orElse (p_attempts p) (db_attempts r),
     terminal_issues_json := written (p_terminalIssues p) (terminal_issues_json r),
     timeline_json := timeline_json r @ entry\<rparr>"

definition pg_transition :: "string \<Rightarrow> job_status \<Rightarrow> job_status \<Rightarrow> job_row_patch \<Rightarrow> string option
    \<Rightarrow> pg_store \<Rightarrow> bool \<times> pg_store" where
  "pg_transition rid from to patch expectLeasedBy st =
     (if \<not> canTransition from to then (False, st)
      else
        let entry = (if from = to then []
              else [\<lparr>tl_status = (if to = Waiting_for_compute then Running else to), tl_atMs = p_atMs patch\<rparr>]);
            P = (\<lambda>r. run_id r = rid \<and> db_status r = from
                   \<and> (expectLeasedBy = None \<or> leased_by r = expectLeasedBy));
            rowCount = length (filter P (backtest_job st));
            st' = st\<lparr>backtest_job := sql_update P (db_applyPatch to patch entry) (backtest_job st)\<rparr>;
            st'' = (if to = Queued \<and> rowCount = 1 then notifyQueued st' else st')
        in (rowCount = 1, st''))"

subsection \<open>Claim, lease, list\<close>

definition db_claim :: "ms \<Rightarrow> lease option \<Rightarrow> bool \<Rightarrow> job_db_row \<Rightarrow> job_db_row" where
  "db_claim nowMs ls coalesceEnabled j = j\<lparr>
     db_status := Running,
     started_at_ms := Some nowMs,
     last_activity_ms := Some nowMs,
     run_deadline_ms := Some (nowMs + run_timeout_ms j),
     leased_by := map_option l_workerId ls,
     lease_expires_at := map_option (\<lambda>l. nowMs + l_ttlMs l) ls,
     db_attempts := (if ls = None \<or> coalesceEnabled then db_attempts j else db_attempts j + 1),
     timeline_json := timeline_json j @ [\<lparr>tl_status = Running, tl_atMs = nowMs\<rparr>]\<rparr>"

definition db_queuedJobs :: "pg_store \<Rightarrow> job_db_row list" where
  "db_queuedJobs st = sort_key (\<lambda>r. (db_queueTs r, run_id r)) [r \<leftarrow> backtest_job st. db_status r = Queued]"

definition pg_claimNextQueued :: "ms \<Rightarrow> lease option \<Rightarrow> bool \<Rightarrow> pg_store \<Rightarrow> job_row option \<times> pg_store" where
  "pg_claimNextQueued nowMs ls coalesceEnabled st = (case db_queuedJobs st of
      [] \<Rightarrow> (None, st)
    | nxt # _ \<Rightarrow>
        let P = (\<lambda>j. run_id j = run_id nxt); f = db_claim nowMs ls coalesceEnabled
        in (map_option rowToJob (find (\<lambda>_. True) (sql_returning P f (backtest_job st))),
            st\<lparr>backtest_job := sql_update P f (backtest_job st)\<rparr>))"

definition pg_renewLease :: "string \<Rightarrow> ms \<Rightarrow> pg_store \<Rightarrow> pg_store" where
  "pg_renewLease workerId untilMs st = st\<lparr>backtest_job :=
     sql_update (\<lambda>r. db_status r = Running \<and> leased_by r = Some workerId)
       (\<lambda>r. r\<lparr>lease_expires_at := Some untilMs\<rparr>) (backtest_job st)\<rparr>"

definition pg_list_jobs :: "pg_store \<Rightarrow> list_filter \<Rightarrow> job_row list" where
  "pg_list_jobs st f = map rowToJob (sort_key accepted_at_ms
     [r \<leftarrow> backtest_job st.
        (lf_status f = None \<or> lf_status f = Some (db_status r))
        \<and> (truthy (lf_correlationId f) \<longrightarrow> correlation_id r = lf_correlationId f)
        \<and> (truthy (lf_workflowId f) \<longrightarrow> workflow_id r = lf_workflowId f)])"

subsection \<open>Events\<close>

definition eventToRow :: "job_event_row \<Rightarrow> event_db_row" where
  "eventToRow ev = \<lparr>event_uid = ev_eventUid ev, event_job_id = ev_jobId ev,
     event_run_id = ev_runId ev, event_type = ev_eventType ev, payload_json = ev_payload ev,
     delivery_state = ev_deliveryState ev, delivery_attempts = orElse (ev_deliveryAttempts ev) 0,
     created_at_ms = ev_createdAtMs ev\<rparr>"

definition pg_appendEvent :: "job_event_row \<Rightarrow> pg_store \<Rightarrow> pg_store" where
  "pg_appendEvent ev st =
     (if \<exists>r \<in> set (backtest_job_event st). event_uid r = ev_eventUid ev then st
      else st\<lparr>backtest_job_event := backtest_job_event st @ [eventToRow ev]\<rparr>)"

definition pg_listEvents :: "pg_store \<Rightarrow> string \<Rightarrow> job_event_row list" where
  "pg_listEvents st rid = map rowToEvent
     (sort_key created_at_ms [r \<leftarrow> backtest_job_event st. event_run_id r = rid])"

definition pg_listDeliverable :: "pg_store \<Rightarrow> nat \<Rightarrow> job_event_row list" where
  "pg_listDeliverable st limit = map rowToEvent (take limit (sort_key created_at_ms
     [r \<leftarrow> backtest_job_event st.
        delivery_state r = Some Pending \<or> delivery_state r = Some Delivery_failed]))"

definition pg_markDelivered :: "string \<Rightarrow> bool \<Rightarrow> pg_store \<Rightarrow> pg_store" where
  "pg_markDelivered uid ok st = st\<lparr>backtest_job_event :=
     sql_update (\<lambda>r. event_uid r = uid)
       (\<lambda>r. r\<lparr>delivery_state := Some (if ok then Delivered else Delivery_failed),
              delivery_attempts := delivery_attempts r + 1\<rparr>) (backtest_job_event st)\<rparr>"

subsection \<open>The reaper: six statements\<close>

definition db_finish :: "job_status \<Rightarrow> ms \<Rightarrow> string \<Rightarrow> job_db_row \<Rightarrow> job_db_row" where
  "db_finish to nowMs code r = r\<lparr>db_status := to, terminal_at_ms := Some nowMs,
     terminal_code := Some code,
     timeline_json := timeline_json r @ [\<lparr>tl_status = to, tl_atMs = nowMs\<rparr>]\<rparr>"

definition db_requeue :: "ms \<Rightarrow> job_db_row \<Rightarrow> job_db_row" where
  "db_requeue nowMs r = r\<lparr>db_status := Queued, queued_at_ms := Some nowMs, leased_by := None,
     lease_expires_at := None,
     timeline_json := timeline_json r @ [\<lparr>tl_status = Queued, tl_atMs = nowMs\<rparr>]\<rparr>"

definition db_leaseStale :: "ms \<Rightarrow> job_db_row \<Rightarrow> bool" where
  "db_leaseStale nowMs r = (db_status r = Running \<and> past (lease_expires_at r) nowMs)"

definition pg_reapDeadlines :: "ms \<Rightarrow> reap_opts \<Rightarrow> pg_store \<Rightarrow> job_row list \<times> pg_store" where
  "pg_reapDeadlines nowMs opts st =
     (let maxAttempts = orElse (ro_leaseMaxAttempts opts) 3;
          coalesceEnabled = orElse (ro_coalesceEnabled opts) False;
          waitCap = orElse (ro_computeWaitMaxAttempts opts) 3;
          t0 = backtest_job st;
          P1 = (\<lambda>r. db_status r \<in> {Queued, Accepted} \<and> past (queue_deadline_ms r) nowMs);
          f1 = db_finish Expired nowMs ''queue_deadline_exceeded'';
          t1 = sql_update P1 f1 t0; expired = sql_returning P1 f1 t0;
          P2 = (\<lambda>r. coalesceEnabled \<and> db_leaseStale nowMs r \<and> engine_attempt_charged r = False
                 \<and> compute_wait_attempts r \<ge> waitCap);
          f2 = db_finish Failed nowMs ''compute_wait_exhausted'';
          t2 = sql_update P2 f2 t1; coalescePoisoned = sql_returning P2 f2 t1;
          P3 = (\<lambda>r. coalesceEnabled \<and> db_leaseStale nowMs r \<and> engine_attempt_charged r = False
                 \<and> compute_wait_attempts r < waitCap);
          f3 = (\<lambda>r. (db_requeue nowMs r)\<lparr>compute_wait_attempts := compute_wait_attempts r + 1\<rparr>);
          t3 = sql_update P3 f3 t2;
          charged = (\<lambda>r. coalesceEnabled \<longrightarrow> engine_attempt_charged r \<noteq> False);
          P4 = (\<lambda>r. db_leaseStale nowMs r \<and> db_attempts r \<ge> maxAttempts \<and> charged r);
          f4 = db_finish Failed nowMs ''lease_expired'';
          t4 = sql_update P4 f4 t3; poisoned = sql_returning P4 f4 t3;
          P5 = (\<lambda>r. db_leaseStale nowMs r \<and> db_attempts r < maxAttempts \<and> charged r);
          f5 = (\<lambda>r. if coalesceEnabled then (db_requeue nowMs r)\<lparr>engine_attempt_charged := False\<rparr>
                     else db_requeue nowMs r);
          t5 = sql_update P5 f5 t4;
          requeued = length (filter P3 t2) + length (filter P5 t4);
          P6 = (\<lambda>r. db_status r \<in> {Running, Waiting_for_compute} \<and> past (run_deadline_ms r) nowMs);
          f6 = db_finish Timed_out nowMs ''run_deadline_exceeded'';
          t6 = sql_update P6 f6 t5; timedOut = sql_returning P6 f6 t5;
          st' = st\<lparr>backtest_job := t6\<rparr>
      in (map rowToJob (expired @ coalescePoisoned @ poisoned @ timedOut),
          if requeued > 0 then notifyQueued st' else st'))"

subsection \<open>Coalescing waiters\<close>

definition db_isWaiter :: "string \<Rightarrow> job_db_row \<Rightarrow> bool" where
  "db_isWaiter ci r = (db_status r = Waiting_for_compute \<and> compute_identity r = Some ci)"

definition db_wake :: "compute_wake_reason \<Rightarrow> ms \<Rightarrow> job_db_row \<Rightarrow> job_db_row" where
  "db_wake reason nowMs r = r\<lparr>db_status := Queued, compute_wake_reason := Some reason,
     engine_attempt_charged := False,
     timeline_json := timeline_json r @ [\<lparr>tl_status = Queued, tl_atMs = nowMs\<rparr>]\<rparr>"

definition pg_listComputeWaiters :: "pg_store \<Rightarrow> job_row list" where
  "pg_listComputeWaiters st = map rowToJob [r \<leftarrow> backtest_job st. db_status r = Waiting_for_compute]"

definition pg_releaseAllComputeWaiters :: "string \<Rightarrow> compute_wake_reason \<Rightarrow> ms \<Rightarrow> pg_store \<Rightarrow> nat \<times> pg_store" where
  "pg_releaseAllComputeWaiters ci reason nowMs st =
     (length (filter (db_isWaiter ci) (backtest_job st)),
      st\<lparr>backtest_job := sql_update (db_isWaiter ci) (db_wake reason nowMs) (backtest_job st)\<rparr>)"

definition pg_electOneComputeWaiter :: "string \<Rightarrow> compute_wake_reason \<Rightarrow> ms \<Rightarrow> pg_store
    \<Rightarrow> job_row option \<times> pg_store" where
  "pg_electOneComputeWaiter ci reason nowMs st =
     (case sort_key db_queueTs (filter (db_isWaiter ci) (backtest_job st)) of
        [] \<Rightarrow> (None, st)
      | nxt # _ \<Rightarrow>
          let P = (\<lambda>r. run_id r = run_id nxt); f = db_wake reason nowMs
          in (map_option rowToJob (find (\<lambda>_. True) (sql_returning P f (backtest_job st))),
              st\<lparr>backtest_job := sql_update P f (backtest_job st)\<rparr>))"

definition pg_poisonComputeWaiter :: "string \<Rightarrow> ms \<Rightarrow> pg_store \<Rightarrow> job_row option \<times> pg_store" where
  "pg_poisonComputeWaiter rid nowMs st =
     (let P = (\<lambda>r. run_id r = rid \<and> db_status r = Waiting_for_compute);
          f = db_finish Failed nowMs ''compute_wait_exhausted''
      in (map_option rowToJob (find (\<lambda>_. True) (sql_returning P f (backtest_job st))),
          st\<lparr>backtest_job := sql_update P f (backtest_job st)\<rparr>))"

end
