(* ===== verification/Job_Store_Interface.thy ===== *)
theory Job_Store_Interface
  imports Job_Store_Facts Pg_Job_Store
begin

text \<open>
  The TypeScript interface \<open>JobStore\<close> (\<open>jobs/job-store.ts\<close>): the operations a client may call, as a
  record over an abstract store state, and the contract every implementation promises, as a locale.
  The clients (submit, completion, wake, worker) take the record of operations; what they rely on is
  proved once inside the locale and holds for every implementation that interprets it.
\<close>

datatype store_error = Pg_error pg_error

record 's job_store_ops =
  op_insertOrGet :: "new_job \<Rightarrow> 's \<Rightarrow> (store_error + job_row \<times> bool) \<times> 's"
  op_get :: "'s \<Rightarrow> string \<Rightarrow> job_row option"
  op_findByResumeToken :: "'s \<Rightarrow> string \<Rightarrow> job_row option"
  op_countQueueStats :: "'s \<Rightarrow> ms \<Rightarrow> nat \<times> ms option"
  op_transition :: "string \<Rightarrow> job_status \<Rightarrow> job_status \<Rightarrow> job_row_patch \<Rightarrow> string option \<Rightarrow> 's \<Rightarrow> bool \<times> 's"
  op_claimNextQueued :: "ms \<Rightarrow> lease option \<Rightarrow> bool \<Rightarrow> 's \<Rightarrow> job_row option \<times> 's"
  op_renewLease :: "string \<Rightarrow> ms \<Rightarrow> 's \<Rightarrow> 's"
  op_list :: "'s \<Rightarrow> list_filter \<Rightarrow> job_row list"
  op_appendEvent :: "job_event_row \<Rightarrow> 's \<Rightarrow> 's"
  op_listEvents :: "'s \<Rightarrow> string \<Rightarrow> job_event_row list"
  op_reapDeadlines :: "ms \<Rightarrow> reap_opts \<Rightarrow> 's \<Rightarrow> job_row list \<times> 's"
  op_listDeliverable :: "'s \<Rightarrow> nat \<Rightarrow> job_event_row list"
  op_markDelivered :: "string \<Rightarrow> bool \<Rightarrow> 's \<Rightarrow> 's"
  op_listComputeWaiters :: "'s \<Rightarrow> job_row list"
  op_releaseAllComputeWaiters :: "string \<Rightarrow> compute_wake_reason \<Rightarrow> ms \<Rightarrow> 's \<Rightarrow> nat \<times> 's"
  op_electOneComputeWaiter :: "string \<Rightarrow> compute_wake_reason \<Rightarrow> ms \<Rightarrow> 's \<Rightarrow> job_row option \<times> 's"
  op_poisonComputeWaiter :: "string \<Rightarrow> ms \<Rightarrow> 's \<Rightarrow> job_row option \<times> 's"

text \<open>What two stores agree on about an event: everything but the delivery counter, which Postgres
  defaults to zero.\<close>

definition ev_core where
  "ev_core e = (ev_eventUid e, ev_jobId e, ev_runId e, ev_eventType e, ev_payload e,
     ev_createdAtMs e, ev_deliveryState e)"

definition renewedRow :: "string \<Rightarrow> ms \<Rightarrow> job_row \<Rightarrow> job_row" where
  "renewedRow w untilMs job = (if status job = Running \<and> leasedBy job = Some w
     then job\<lparr>leaseExpiresAt := Some untilMs\<rparr> else job)"

locale job_store_contract =
  fixes ops :: "'s job_store_ops"
    and inv :: "'s \<Rightarrow> bool"
    and evs :: "'s \<Rightarrow> job_event_row list"
  assumes row_ok: "inv st \<Longrightarrow> op_get ops st k = Some r \<Longrightarrow> runId r = k \<and> row_ok r"
    and insert_error: "inv st \<Longrightarrow> op_insertOrGet ops j st = (Inl err, st') \<Longrightarrow> st' = st"
    and insert_replay: "inv st \<Longrightarrow> op_insertOrGet ops j st = (Inr (r, False), st') \<Longrightarrow>
      st' = st \<and> op_get ops st (runId r) = Some r"
    and insert_created: "inv st \<Longrightarrow> op_insertOrGet ops j st = (Inr (r, True), st') \<Longrightarrow>
      inv st' \<and> op_get ops st' = (op_get ops st)(nj_runId j \<mapsto> r) \<and> evs st' = evs st
      \<and> status r = Accepted \<and> runId r = nj_runId j \<and> jobId r = nj_jobId j
      \<and> resumeToken r = nj_resumeToken j \<and> requestFingerprint r = nj_requestFingerprint j
      \<and> effectiveSeed r = nj_effectiveSeed j \<and> callbackUrl r = nj_callbackUrl j"
    and find_token: "inv st \<Longrightarrow> op_findByResumeToken ops st tok = Some r \<Longrightarrow>
      op_get ops st (runId r) = Some r \<and> resumeToken r = Some tok"
    and transition_flag: "inv st \<Longrightarrow> fst (op_transition ops rid from to p e st) \<longleftrightarrow>
      cas_ok (op_get ops st rid) from to e"
    and transition_rows: "inv st \<Longrightarrow> op_get ops (snd (op_transition ops rid from to p e st)) =
      (if cas_ok (op_get ops st rid) from to e
       then (op_get ops st)(rid \<mapsto> applyPatch to p (the (op_get ops st rid))) else op_get ops st)"
    and transition_inv: "inv st \<Longrightarrow> inv (snd (op_transition ops rid from to p e st))"
    and transition_evs: "inv st \<Longrightarrow> evs (snd (op_transition ops rid from to p e st)) = evs st"
    and claim_none: "inv st \<Longrightarrow> fst (op_claimNextQueued ops now ls co st) = None \<Longrightarrow>
      snd (op_claimNextQueued ops now ls co st) = st
      \<and> (\<forall>k r. op_get ops st k = Some r \<longrightarrow> status r \<noteq> Queued)"
    and claim_some: "inv st \<Longrightarrow> fst (op_claimNextQueued ops now ls co st) = Some r' \<Longrightarrow>
      \<exists>r. op_get ops st (runId r) = Some r \<and> status r = Queued
        \<and> (\<forall>k q. op_get ops st k = Some q \<longrightarrow> status q = Queued \<longrightarrow> queueOrder r \<le> queueOrder q)
        \<and> row_evolves r r' \<and> status r' = Running
        \<and> (ls \<noteq> None \<longrightarrow> r' = claimedRow now ls co r)
        \<and> op_get ops (snd (op_claimNextQueued ops now ls co st)) = (op_get ops st)(runId r \<mapsto> r')"
    and claim_inv: "inv st \<Longrightarrow> inv (snd (op_claimNextQueued ops now ls co st))"
    and claim_evs: "inv st \<Longrightarrow> evs (snd (op_claimNextQueued ops now ls co st)) = evs st"
    and renew_rows: "inv st \<Longrightarrow> op_get ops (op_renewLease ops w until st) k =
      map_option (renewedRow w until) (op_get ops st k)"
    and renew_inv: "inv st \<Longrightarrow> inv (op_renewLease ops w until st)"
    and renew_evs: "inv st \<Longrightarrow> evs (op_renewLease ops w until st) = evs st"
    and reap_rows: "inv st \<Longrightarrow> op_get ops (snd (op_reapDeadlines ops now ro st)) k =
      map_option (\<lambda>r. fst (reapRow now ro r)) (op_get ops st k)"
    and reap_result: "inv st \<Longrightarrow> r' \<in> set (fst (op_reapDeadlines ops now ro st)) \<longleftrightarrow>
      (\<exists>r. op_get ops st (runId r') = Some r \<and> \<not> isTerminal (status r) \<and> isTerminal (status r')
         \<and> op_get ops (snd (op_reapDeadlines ops now ro st)) (runId r') = Some r')"
    and reap_distinct: "inv st \<Longrightarrow> distinct (map runId (fst (op_reapDeadlines ops now ro st)))"
    and reap_inv: "inv st \<Longrightarrow> inv (snd (op_reapDeadlines ops now ro st))"
    and reap_evs: "inv st \<Longrightarrow> evs (snd (op_reapDeadlines ops now ro st)) = evs st"
    and append_rows: "op_get ops (op_appendEvent ops ev st) = op_get ops st"
    and append_evs: "ev_eventUid ev \<notin> ev_eventUid ` set (evs st) \<Longrightarrow>
      map ev_core (evs (op_appendEvent ops ev st)) = map ev_core (evs st) @ [ev_core ev]"
    and append_inv: "inv st \<Longrightarrow> inv (op_appendEvent ops ev st)"
    and deliverable: "set (op_listDeliverable ops st n) \<subseteq> {e \<in> set (evs st). deliverable e}"
    and mark_rows: "op_get ops (op_markDelivered ops uid ok st) = op_get ops st"
    and mark_evs: "distinct (map ev_eventUid (evs st)) \<Longrightarrow> evs (op_markDelivered ops uid ok st) =
      map (\<lambda>e. if ev_eventUid e = uid then markEvent ok e else e) (evs st)"
    and mark_inv: "inv st \<Longrightarrow> inv (op_markDelivered ops uid ok st)"
    and waiters: "inv st \<Longrightarrow> set (op_listComputeWaiters ops st) =
      {r. op_get ops st (runId r) = Some r \<and> status r = Waiting_for_compute}"
    and release_rows: "inv st \<Longrightarrow> op_get ops (snd (op_releaseAllComputeWaiters ops ci why now st)) k =
      map_option (releaseRow ci why now) (op_get ops st k)"
    and release_inv: "inv st \<Longrightarrow> inv (snd (op_releaseAllComputeWaiters ops ci why now st))"
    and release_evs: "inv st \<Longrightarrow> evs (snd (op_releaseAllComputeWaiters ops ci why now st)) = evs st"
    and elect_none: "inv st \<Longrightarrow> fst (op_electOneComputeWaiter ops ci why now st) = None \<Longrightarrow>
      snd (op_electOneComputeWaiter ops ci why now st) = st
      \<and> (\<forall>k r. op_get ops st k = Some r \<longrightarrow> \<not> isWaiter ci r)"
    and elect_some: "inv st \<Longrightarrow> fst (op_electOneComputeWaiter ops ci why now st) = Some r' \<Longrightarrow>
      \<exists>r. op_get ops st (runId r) = Some r \<and> isWaiter ci r
        \<and> (\<forall>k q. op_get ops st k = Some q \<longrightarrow> isWaiter ci q \<longrightarrow> queueTs r \<le> queueTs q)
        \<and> r' = applyPatch Queued (wakePatch now why) r
        \<and> op_get ops (snd (op_electOneComputeWaiter ops ci why now st)) = (op_get ops st)(runId r \<mapsto> r')"
    and elect_inv: "inv st \<Longrightarrow> inv (snd (op_electOneComputeWaiter ops ci why now st))"
    and elect_evs: "inv st \<Longrightarrow> evs (snd (op_electOneComputeWaiter ops ci why now st)) = evs st"
    and poison_result: "inv st \<Longrightarrow> fst (op_poisonComputeWaiter ops rid now st) =
      (if cas_ok (op_get ops st rid) Waiting_for_compute Failed None
       then Some (applyPatch Failed (terminalPatch now ''compute_wait_exhausted'') (the (op_get ops st rid)))
       else None)"
    and poison_rows: "inv st \<Longrightarrow> op_get ops (snd (op_poisonComputeWaiter ops rid now st)) =
      (if cas_ok (op_get ops st rid) Waiting_for_compute Failed None
       then (op_get ops st)(rid \<mapsto> applyPatch Failed (terminalPatch now ''compute_wait_exhausted'')
              (the (op_get ops st rid))) else op_get ops st)"
    and poison_inv: "inv st \<Longrightarrow> inv (snd (op_poisonComputeWaiter ops rid now st))"
    and poison_evs: "inv st \<Longrightarrow> evs (snd (op_poisonComputeWaiter ops rid now st)) = evs st"
    and deliverable_distinct: "distinct (map ev_eventUid (evs st)) \<Longrightarrow>
      distinct (map ev_eventUid (op_listDeliverable ops st n))"
begin

lemma transition_evolves:
  "inv st \<Longrightarrow> rows_evolve (op_get ops st) (op_get ops (snd (op_transition ops rid from to p e st)))"
  by (auto simp: transition_rows dest!: cas_okD intro!: rows_evolve_upd row_evolves_patch)

lemma claim_evolves:
  assumes "inv st"
  shows "rows_evolve (op_get ops st) (op_get ops (snd (op_claimNextQueued ops now ls co st)))"
proof (cases "fst (op_claimNextQueued ops now ls co st)")
  case None
  thus ?thesis using claim_none [OF assms] by simp
next
  case (Some r')
  thus ?thesis using claim_some [OF assms Some] by (auto intro!: rows_evolve_upd)
qed

lemma reap_evolves:
  "inv st \<Longrightarrow> rows_evolve (op_get ops st) (op_get ops (snd (op_reapDeadlines ops now ro st)))"
  by (auto simp: rows_evolve_def reap_rows reapRow_evolves)

lemma release_evolves: "inv st \<Longrightarrow>
    rows_evolve (op_get ops st) (op_get ops (snd (op_releaseAllComputeWaiters ops ci why now st)))"
  by (auto simp: rows_evolve_def release_rows releaseRow_evolves)

lemma elect_evolves:
  assumes "inv st"
  shows "rows_evolve (op_get ops st) (op_get ops (snd (op_electOneComputeWaiter ops ci why now st)))"
proof (cases "fst (op_electOneComputeWaiter ops ci why now st)")
  case None
  thus ?thesis using elect_none [OF assms] by simp
next
  case (Some r')
  thus ?thesis using elect_some [OF assms Some]
    by (auto intro!: rows_evolve_upd row_evolves_patch simp: isWaiter_def)
qed

lemma poison_evolves:
  "inv st \<Longrightarrow> rows_evolve (op_get ops st) (op_get ops (snd (op_poisonComputeWaiter ops rid now st)))"
  by (auto simp: poison_rows dest!: cas_okD intro!: rows_evolve_upd row_evolves_patch)

lemma renew_evolves:
  "inv st \<Longrightarrow> rows_evolve (op_get ops st) (op_get ops (op_renewLease ops w until st))"
  by (auto simp: rows_evolve_def renew_rows renewedRow_def [abs_def] renewed_evolves)

end

definition inMemoryOps :: "job_store job_store_ops" where
  "inMemoryOps = \<lparr>
     op_insertOrGet = (\<lambda>j st. apfst Inr (insertOrGet j st)),
     op_get = get, op_findByResumeToken = findByResumeToken, op_countQueueStats = countQueueStats,
     op_transition = transition, op_claimNextQueued = claimNextQueued, op_renewLease = renewLease,
     op_list = list_jobs, op_appendEvent = appendEvent, op_listEvents = listEvents,
     op_reapDeadlines = reapDeadlines, op_listDeliverable = listDeliverable,
     op_markDelivered = markDelivered, op_listComputeWaiters = listComputeWaiters,
     op_releaseAllComputeWaiters = releaseAllComputeWaiters,
     op_electOneComputeWaiter = electOneComputeWaiter,
     op_poisonComputeWaiter = poisonComputeWaiter\<rparr>"

lemma store_ok_all_values: "store_ok st \<Longrightarrow> get st k = Some r \<Longrightarrow> r \<in> set (js_values (jobs st))"
  by (simp add: get_def js_get_values)

lemma mark_first_distinct: "distinct (map ev_eventUid es) \<Longrightarrow> mark_first uid ok es =
    map (\<lambda>e. if ev_eventUid e = uid then markEvent ok e else e) es"
proof (induction es)
  case (Cons e es)
  have "map (\<lambda>e. if ev_eventUid e = uid then markEvent ok e else e) es = es"
    if "uid \<notin> ev_eventUid ` set es" using that by (induction es) auto
  thus ?case using Cons by auto
qed simp

lemma inMemoryOps_simps [simp]:
  "op_insertOrGet inMemoryOps j st = apfst Inr (insertOrGet j st)"
  "op_get inMemoryOps = get" "op_findByResumeToken inMemoryOps = findByResumeToken"
  "op_transition inMemoryOps = transition" "op_claimNextQueued inMemoryOps = claimNextQueued"
  "op_renewLease inMemoryOps = renewLease" "op_appendEvent inMemoryOps = appendEvent"
  "op_reapDeadlines inMemoryOps = reapDeadlines" "op_listDeliverable inMemoryOps = listDeliverable"
  "op_markDelivered inMemoryOps = markDelivered"
  "op_listComputeWaiters inMemoryOps = listComputeWaiters"
  "op_releaseAllComputeWaiters inMemoryOps = releaseAllComputeWaiters"
  "op_electOneComputeWaiter inMemoryOps = electOneComputeWaiter"
  "op_poisonComputeWaiter inMemoryOps = poisonComputeWaiter"
  "op_countQueueStats inMemoryOps = countQueueStats" "op_list inMemoryOps = list_jobs"
  "op_listEvents inMemoryOps = listEvents"
  by (simp_all add: inMemoryOps_def)

lemma mem_insert_created:
  assumes "store_ok st" "insertOrGet j st = ((r, True), st')"
  shows "store_ok st'" "get st' = (get st)(nj_runId j \<mapsto> r)" "events st' = events st" "r = newRow j"
proof -
  have n: "existingJob st (jobKey j) = None"
    using assms(2) by (cases "existingJob st (jobKey j)") (simp_all add: insertOrGet_old)
  show "store_ok st'" using store_ok_insertOrGet [OF assms(1), of j] assms(2) by simp
  show "get st' = (get st)(nj_runId j \<mapsto> r)" "events st' = events st" "r = newRow j"
    using assms(2) insertOrGet_new [OF n] by auto
qed

lemma mem_insert_replay:
  assumes "store_ok st" "insertOrGet j st = ((r, False), st')"
  shows "st' = st \<and> get st (runId r) = Some r"
proof (cases "existingJob st (jobKey j)")
  case None
  thus ?thesis using assms(2) by (simp add: insertOrGet_new)
next
  case (Some r0)
  then obtain rid where g: "get st rid = Some r0" using existingJob_get by blast
  show ?thesis using assms(2) g store_ok_get [OF assms(1) g] by (simp add: insertOrGet_old [OF Some])
qed

lemma mem_find_token:
  assumes "store_ok st" "findByResumeToken st tok = Some r"
  shows "get st (runId r) = Some r \<and> resumeToken r = Some tok"
proof -
  have e: "existingJob st tok = Some r" and t: "resumeToken r = Some tok"
    using assms(2) by (auto simp: findByResumeToken_def split: option.splits if_splits)
  then obtain rid where g: "get st rid = Some r" using existingJob_get by blast
  show ?thesis using g t store_ok_get [OF assms(1) g] by simp
qed

lemma mem_claim_none:
  assumes "store_ok st" "fst (claimNextQueued now ls co st) = None"
  shows "snd (claimNextQueued now ls co st) = st \<and> (\<forall>k r. get st k = Some r \<longrightarrow> status r \<noteq> Queued)"
proof (cases "queuedJobs st")
  case Nil
  thus ?thesis using store_ok_all_values [OF assms(1)]
    by (auto simp: claim_empty queuedJobs_Nil)
next
  case (Cons nxt rest)
  thus ?thesis using assms(2) by (simp add: claim_head(3) [OF assms(1)])
qed

lemma mem_claim_some:
  assumes "store_ok st" "fst (claimNextQueued now ls co st) = Some r'"
  shows "\<exists>r. get st (runId r) = Some r \<and> status r = Queued
    \<and> (\<forall>k q. get st k = Some q \<longrightarrow> status q = Queued \<longrightarrow> queueOrder r \<le> queueOrder q)
    \<and> row_evolves r r' \<and> status r' = Running \<and> (ls \<noteq> None \<longrightarrow> r' = claimedRow now ls co r)
    \<and> get (snd (claimNextQueued now ls co st)) = (get st)(runId r \<mapsto> r')"
proof (cases "queuedJobs st")
  case Nil
  thus ?thesis using assms(2) by (simp add: claim_empty)
next
  case (Cons nxt rest)
  note c = claim_head [OF assms(1) Cons]
  have r': "r' = claimedRow now ls co nxt" using assms(2) by (simp add: c(3))
  have "queueOrder nxt \<le> queueOrder q" if "get st k = Some q" "status q = Queued" for k q
    using queuedJobs_first [OF Cons store_ok_all_values [OF assms(1) that(1)] that(2)] .
  thus ?thesis using c claimedRow_evolves [OF c(2)] r' by (intro exI [of _ nxt]) simp
qed

lemma mem_elect_none:
  assumes "store_ok st" "fst (electOneComputeWaiter ci why now st) = None"
  shows "snd (electOneComputeWaiter ci why now st) = st \<and> (\<forall>k r. get st k = Some r \<longrightarrow> \<not> isWaiter ci r)"
proof (cases "waitersFor ci st")
  case Nil
  thus ?thesis using store_ok_all_values [OF assms(1)]
    by (auto simp: elect_empty waitersFor_def filter_empty_conv isWaiter_def)
next
  case (Cons nxt rest)
  thus ?thesis using assms(2) by (simp add: elect_head(3) [OF assms(1)])
qed

lemma mem_elect_some:
  assumes "store_ok st" "fst (electOneComputeWaiter ci why now st) = Some r'"
  shows "\<exists>r. get st (runId r) = Some r \<and> isWaiter ci r
    \<and> (\<forall>k q. get st k = Some q \<longrightarrow> isWaiter ci q \<longrightarrow> queueTs r \<le> queueTs q)
    \<and> r' = applyPatch Queued (wakePatch now why) r
    \<and> get (snd (electOneComputeWaiter ci why now st)) = (get st)(runId r \<mapsto> r')"
proof (cases "waitersFor ci st")
  case Nil
  thus ?thesis using assms(2) by (simp add: elect_empty)
next
  case (Cons nxt rest)
  note c = elect_head [OF assms(1) Cons]
  have "queueTs nxt \<le> queueTs q" if "get st k = Some q" "isWaiter ci q" for k q
    using waitersFor_first [OF Cons store_ok_all_values [OF assms(1) that(1)] that(2)]
    by (auto simp: queueOrder_def less_eq_prod_def)
  thus ?thesis using c assms(2) by (intro exI [of _ nxt]) simp
qed

lemma mem_waiters: "store_ok st \<Longrightarrow> set (listComputeWaiters st) =
    {r. get st (runId r) = Some r \<and> status r = Waiting_for_compute}"
  using store_ok_values store_ok_all_values by (fastforce simp: listComputeWaiters_def)

lemma mem_transition:
  "fst (transition rid from to p e st) = cas_ok (get st rid) from to e"
  "get (snd (transition rid from to p e st)) = (if cas_ok (get st rid) from to e
     then (get st)(rid \<mapsto> applyPatch to p (the (get st rid))) else get st)"
  by (simp_all add: transition_eq)

lemma mem_poison:
  "fst (poisonComputeWaiter rid now st) = (if cas_ok (get st rid) Waiting_for_compute Failed None
     then Some (applyPatch Failed (terminalPatch now ''compute_wait_exhausted'') (the (get st rid)))
     else None)"
  "get (snd (poisonComputeWaiter rid now st)) = (if cas_ok (get st rid) Waiting_for_compute Failed None
     then (get st)(rid \<mapsto> applyPatch Failed (terminalPatch now ''compute_wait_exhausted'')
       (the (get st rid))) else get st)"
  by (simp_all add: poison_eq)

lemma mem_renew: "get (renewLease w until st) k = map_option (renewedRow w until) (get st k)"
  unfolding renewLease_map_rows get_map_rows renewedRow_def [abs_def] ..

lemma mem_release: "store_ok st \<Longrightarrow> get (snd (releaseAllComputeWaiters ci why now st)) k =
    map_option (releaseRow ci why now) (get st k)"
  by (simp add: releaseAll_eq get_map_rows)

lemma mem_append: "events (appendEvent ev st) = events st @ [ev]"
  by (simp add: appendEvent_def)

lemma mem_mark: "distinct (map ev_eventUid (events st)) \<Longrightarrow> events (markDelivered uid ok st) =
    map (\<lambda>e. if ev_eventUid e = uid then markEvent ok e else e) (events st)"
  by (simp add: markDelivered_def mark_first_distinct)

lemma distinct_map_take_sort:
  "distinct (map f xs) \<Longrightarrow> distinct (map f (take n (sort_key g (filter P xs))))"
proof -
  assume d: "distinct (map f xs)"
  have "distinct (map f (sort_key g (filter P xs)))"
    using d by (auto simp: distinct_map inj_on_def)
  thus ?thesis by (simp add: take_map [symmetric])
qed

interpretation mem: job_store_contract inMemoryOps store_ok events
proof (unfold_locales, goal_cases)
  case (1 st k r) thus ?case using store_ok_get by auto
next
  case (2 st j err st') thus ?case by (auto simp: apfst_def map_prod_def split: prod.splits)
next
  case (3 st j r st') thus ?case using mem_insert_replay [of st j r st']
    by (auto simp: apfst_def map_prod_def split: prod.splits)
next
  case (4 st j r st')
  hence "insertOrGet j st = ((r, True), st')" by (auto simp: apfst_def map_prod_def split: prod.splits)
  from mem_insert_created [OF 4(1) this] show ?case by (simp add: newRow_def)
next
  case (5 st tok r) thus ?case using mem_find_token by simp
next
  case (10 st now ls co) thus ?case using mem_claim_none by simp
next
  case (11 st now ls co r') thus ?case using mem_claim_some by simp
next
  case (18 st r' now ro) thus ?case using reaped_iff by simp
next
  case (25 st n) show ?case by (auto simp: listDeliverable_def dest!: in_set_takeD)
next
  case (29 st) thus ?case using mem_waiters by simp
next
  case (33 st ci why now) thus ?case using mem_elect_none by simp
next
  case (34 st ci why now r') thus ?case using mem_elect_some by simp
qed (simp_all add: store_inv mem_transition mem_poison mem_renew mem_release reapDeadlines_get
    reaped_distinct mem_append mem_mark listDeliverable_def distinct_map_take_sort)

end
