(* ===== verification/Pg_Job_Store_Facts.thy ===== *)
theory Pg_Job_Store_Facts
  imports Job_Store_Interface
begin

text \<open>
  The Postgres store implements the contract of the interface: each statement, read through
  \<open>rowToJob\<close>, is the row function of the in-memory store.
\<close>

definition pg_ok :: "pg_store \<Rightarrow> bool" where
  "pg_ok st = (distinct (map run_id (backtest_job st)) \<and> (\<forall>r \<in> set (backtest_job st). row_ok (rowToJob r)))"

definition pg_events :: "pg_store \<Rightarrow> job_event_row list" where
  "pg_events st = map rowToEvent (backtest_job_event st)"

lemma rowToJob_simps [simp]:
  "runId (rowToJob r) = run_id r" "jobId (rowToJob r) = job_id r"
  "resumeToken (rowToJob r) = resume_token r"
  "requestFingerprint (rowToJob r) = request_fingerprint r" "status (rowToJob r) = db_status r"
  "effectiveSeed (rowToJob r) = effective_seed r" "callbackUrl (rowToJob r) = callback_url r"
  "queueDeadlineMs (rowToJob r) = queue_deadline_ms r" "runTimeoutMs (rowToJob r) = run_timeout_ms r"
  "runDeadlineMs (rowToJob r) = run_deadline_ms r" "leasedBy (rowToJob r) = leased_by r"
  "leaseExpiresAt (rowToJob r) = lease_expires_at r" "attempts (rowToJob r) = db_attempts r"
  "acceptedAtMs (rowToJob r) = accepted_at_ms r" "queuedAtMs (rowToJob r) = queued_at_ms r"
  "computeWaitAttempts (rowToJob r) = compute_wait_attempts r"
  "computeIdentity (rowToJob r) = compute_identity r"
  "engineAttemptCharged (rowToJob r) = Some (engine_attempt_charged r)"
  "timeline (rowToJob r) = timeline_json r"
  by (simp_all add: rowToJob_def)

text \<open>The statements on one row are the row functions of the in-memory store.\<close>

lemma rowToJob_applyPatch:
  assumes "entry = (if db_status r = to then []
    else [\<lparr>tl_status = (if to = Waiting_for_compute then Running else to), tl_atMs = p_atMs p\<rparr>])"
  shows "rowToJob (db_applyPatch to p entry r) = applyPatch to p (rowToJob r)"
  unfolding assms
  by (cases "p_engineAttemptCharged p") (simp_all add: rowToJob_def db_applyPatch_def applyPatch_def)

lemma rowToJob_finish:
  "to \<noteq> Waiting_for_compute \<Longrightarrow> db_status r \<noteq> to \<Longrightarrow>
   rowToJob (db_finish to nowMs code r) = applyPatch to (terminalPatch nowMs code) (rowToJob r)"
  by (simp add: rowToJob_def db_finish_def applyPatch_def terminalPatch_def patch_at_def)

lemma rowToJob_requeue:
  "db_status r = Running \<Longrightarrow> rowToJob (db_requeue nowMs r) =
   clearLease (applyPatch Queued ((patch_at nowMs)\<lparr>p_queuedAtMs := Some nowMs\<rparr>) (rowToJob r))"
  by (simp add: rowToJob_def db_requeue_def applyPatch_def patch_at_def clearLease_def)

lemma rowToJob_requeue_wait:
  "db_status r = Running \<Longrightarrow>
   rowToJob ((db_requeue nowMs r)\<lparr>compute_wait_attempts := compute_wait_attempts r + 1\<rparr>) =
   clearLease (applyPatch Queued ((patch_at nowMs)\<lparr>p_queuedAtMs := Some nowMs,
     p_computeWaitAttempts := Some (computeWaitAttempts (rowToJob r) + 1)\<rparr>) (rowToJob r))"
  by (simp add: rowToJob_def db_requeue_def applyPatch_def patch_at_def clearLease_def)

lemma rowToJob_reset: "rowToJob (r\<lparr>engine_attempt_charged := False\<rparr>) =
    (rowToJob r)\<lparr>engineAttemptCharged := Some False\<rparr>"
  by (simp add: rowToJob_def)

lemma rowToJob_wake: "db_status r = Waiting_for_compute \<Longrightarrow>
    rowToJob (db_wake why nowMs r) = applyPatch Queued (wakePatch nowMs why) (rowToJob r)"
  by (simp add: rowToJob_def db_wake_def applyPatch_def wakePatch_def patch_at_def)

lemma rowToJob_claim: "db_status r = Queued \<Longrightarrow> ls \<noteq> None \<Longrightarrow>
    rowToJob (db_claim nowMs ls co r) = claimedRow nowMs ls co (rowToJob r)"
  by (auto simp: rowToJob_def db_claim_def claimedRow_def setLease_def applyPatch_def claimPatch_def
      patch_at_def Let_def)

lemma rowToJob_claim_plain: "db_status r = Queued \<Longrightarrow>
    rowToJob (db_claim nowMs None co r) = clearLease (claimedRow nowMs None co (rowToJob r))"
  by (simp add: rowToJob_def db_claim_def claimedRow_def setLease_def applyPatch_def claimPatch_def
      patch_at_def clearLease_def)

lemma rowToJob_claim_evolves: "db_status r = Queued \<Longrightarrow>
    row_evolves (rowToJob r) (rowToJob (db_claim nowMs ls co r))"
proof (cases ls)
  case None
  assume q: "db_status r = Queued"
  have "row_evolves (rowToJob r) (claimedRow nowMs None co (rowToJob r))"
    using q by (simp add: claimedRow_evolves)
  also have "row_evolves \<dots> (clearLease (claimedRow nowMs None co (rowToJob r)))"
    by (rule clearLease_evolves) simp
  finally show ?thesis using None q by (simp add: rowToJob_claim_plain)
qed (simp add: rowToJob_claim claimedRow_evolves)

lemma rowToJob_renew: "rowToJob (r\<lparr>lease_expires_at := Some t\<rparr>) = (rowToJob r)\<lparr>leaseExpiresAt := Some t\<rparr>"
  by (simp add: rowToJob_def)

lemma run_id_fixed [simp]:
  "run_id (db_applyPatch to p entry r) = run_id r" "run_id (db_finish to nowMs code r) = run_id r"
  "run_id (db_requeue nowMs r) = run_id r" "run_id (db_wake why nowMs r) = run_id r"
  "run_id (db_claim nowMs ls co r) = run_id r"
  by (simp_all add: db_applyPatch_def db_finish_def db_requeue_def db_wake_def db_claim_def)

subsection \<open>Reading a table\<close>

lemma find_map: "(\<And>r. P (g r) = P r) \<Longrightarrow> find P (map g t) = map_option g (find P t)"
  by (induction t) auto

lemma pg_get_iff:
  assumes "pg_ok st"
  shows "pg_get st k = Some j \<longleftrightarrow> (\<exists>r \<in> set (backtest_job st). run_id r = k \<and> rowToJob r = j)"
proof -
  have "distinct (map run_id t) \<Longrightarrow>
    map_option rowToJob (find (\<lambda>r. run_id r = k) t) = Some j \<longleftrightarrow>
    (\<exists>r \<in> set t. run_id r = k \<and> rowToJob r = j)" for t
  proof (induction t)
    case (Cons a t)
    show ?case
    proof (cases "run_id a = k")
      case True
      have "run_id r \<noteq> k" if "r \<in> set t" for r using Cons.prems True that by (auto simp: image_iff)
      thus ?thesis using True by auto
    next
      case False
      thus ?thesis using Cons by simp
    qed
  qed simp
  thus ?thesis using assms by (simp add: pg_get_def pg_ok_def)
qed

lemma pg_get_map:
  assumes "\<And>r. run_id (g r) = run_id r"
  shows "pg_get (st\<lparr>backtest_job := map g (backtest_job st)\<rparr>) k =
    map_option (rowToJob \<circ> g) (find (\<lambda>r. run_id r = k) (backtest_job st))"
  by (simp add: pg_get_def find_map assms option.map_comp)

lemma pg_get_update:
  assumes "\<And>r. run_id (g r) = run_id r" "\<And>r. rowToJob (g r) = h (rowToJob r)"
  shows "pg_get (st\<lparr>backtest_job := map g (backtest_job st)\<rparr>) k = map_option h (pg_get st k)"
proof -
  have "rowToJob \<circ> g = h \<circ> rowToJob" using assms(2) by auto
  thus ?thesis unfolding pg_get_map [OF assms(1)] by (simp add: pg_get_def option.map_comp)
qed

lemma pg_ok_map:
  assumes "pg_ok st" "\<And>r. run_id (g r) = run_id r" "\<And>r. row_evolves (rowToJob r) (rowToJob (g r))"
  shows "pg_ok (st\<lparr>backtest_job := map g (backtest_job st)\<rparr>)"
  using assms(1) row_ok_evolves [OF assms(3)] by (simp add: pg_ok_def comp_def assms(2))

lemma pg_get_notify [simp]: "pg_get (notifyQueued st) = pg_get st"
  by (rule ext) (simp add: pg_get_def notifyQueued_def)

lemma pg_ok_notify [simp]: "pg_ok (notifyQueued st) = pg_ok st"
  by (simp add: pg_ok_def notifyQueued_def)

lemma pg_events_notify [simp]: "pg_events (notifyQueued st) = pg_events st"
  by (simp add: pg_events_def notifyQueued_def)

lemma pg_events_jobs [simp]: "pg_events (st\<lparr>backtest_job := t\<rparr>) = pg_events st"
  by (simp add: pg_events_def)

text \<open>An update by primary key touches at most one row.\<close>

lemma count_key:
  assumes "distinct (map run_id t)" "\<And>r. P r \<Longrightarrow> run_id r = k"
  shows "filter P t = (case find (\<lambda>r. run_id r = k) t of None \<Rightarrow> [] | Some r \<Rightarrow> if P r then [r] else [])"
  using assms(1)
proof (induction t)
  case (Cons r t)
  have "filter P t = []" if "run_id r = k"
  proof -
    have "\<not> P q" if "q \<in> set t" for q
      using assms(2) [of q] Cons.prems \<open>run_id r = k\<close> that by (auto simp: image_iff)
    thus ?thesis by (simp add: filter_empty_conv)
  qed
  thus ?case using Cons assms(2) by auto
qed simp

lemma find_key: "find (\<lambda>r. run_id r = k) t = Some r \<Longrightarrow> run_id r = k \<and> r \<in> set t"
  by (induction t) (auto split: if_splits)

text \<open>An update by key, read through \<open>rowToJob\<close>: the addressed row is rewritten, the others stay.\<close>

lemma pg_update_key:
  assumes "find (\<lambda>r. run_id r = k) (backtest_job st) = Some r" "P r" "\<And>q. P q \<Longrightarrow> run_id q = k"
    and "\<And>q. run_id (f q) = run_id q"
  shows "pg_get (st\<lparr>backtest_job := sql_update P f (backtest_job st)\<rparr>) = (pg_get st)(k \<mapsto> rowToJob (f r))"
proof
  fix k'
  have g: "pg_get (st\<lparr>backtest_job := sql_update P f (backtest_job st)\<rparr>) k' =
    map_option (rowToJob \<circ> (\<lambda>r. if P r then f r else r)) (find (\<lambda>r. run_id r = k') (backtest_job st))"
    unfolding sql_update_def by (rule pg_get_map) (simp add: assms(4))
  show "pg_get (st\<lparr>backtest_job := sql_update P f (backtest_job st)\<rparr>) k' =
    ((pg_get st)(k \<mapsto> rowToJob (f r))) k'"
  proof (cases "k' = k")
    case True thus ?thesis using assms(1,2) g by simp
  next
    case False
    show ?thesis
    proof (cases "find (\<lambda>r. run_id r = k') (backtest_job st)")
      case None thus ?thesis using g False by (simp add: pg_get_def)
    next
      case (Some q)
      hence "\<not> P q" using find_key [OF Some] False assms(3) by auto
      thus ?thesis using g False Some by (simp add: pg_get_def)
    qed
  qed
qed

lemma sql_update_none: "filter P t = [] \<Longrightarrow> sql_update P f t = t"
  by (induction t) (auto simp: sql_update_def split: if_splits)

definition cas_where :: "string \<Rightarrow> job_status \<Rightarrow> string option \<Rightarrow> job_db_row \<Rightarrow> bool" where
  "cas_where rid from e r = (run_id r = rid \<and> db_status r = from \<and> (e = None \<or> leased_by r = e))"

lemma pg_cas_where:
  assumes "pg_ok st" "canTransition from to"
  shows "filter (cas_where rid from e) (backtest_job st) = (if cas_ok (pg_get st rid) from to e
      then [the (find (\<lambda>r. run_id r = rid) (backtest_job st))] else [])"
proof -
  have "filter (cas_where rid from e) (backtest_job st) = (case find (\<lambda>r. run_id r = rid) (backtest_job st)
      of None \<Rightarrow> [] | Some r \<Rightarrow> if cas_where rid from e r then [r] else [])"
    using assms(1) by (intro count_key) (simp_all add: pg_ok_def cas_where_def)
  thus ?thesis using assms(2)
    by (cases "find (\<lambda>r. run_id r = rid) (backtest_job st)")
       (auto simp: pg_get_def cas_where_def dest: find_key)
qed

lemma pg_transition_alt: "pg_transition rid from to p e st =
    (if \<not> canTransition from to then (False, st)
     else let entry = (if from = to then [] else
            [\<lparr>tl_status = (if to = Waiting_for_compute then Running else to), tl_atMs = p_atMs p\<rparr>]);
          n = length (filter (cas_where rid from e) (backtest_job st));
          st' = st\<lparr>backtest_job := sql_update (cas_where rid from e) (db_applyPatch to p entry) (backtest_job st)\<rparr>
        in (n = 1, if to = Queued \<and> n = 1 then notifyQueued st' else st'))"
  unfolding pg_transition_def cas_where_def [abs_def] Let_def by simp

lemma pg_transition_no: "pg_ok st \<Longrightarrow> \<not> cas_ok (pg_get st rid) from to e \<Longrightarrow>
    pg_transition rid from to p e st = (False, st)"
  by (simp add: pg_transition_alt Let_def pg_cas_where sql_update_none)

lemma pg_transition_yes:
  assumes "pg_ok st" "cas_ok (pg_get st rid) from to e"
  shows "fst (pg_transition rid from to p e st)"
    "pg_get (snd (pg_transition rid from to p e st)) =
       (pg_get st)(rid \<mapsto> applyPatch to p (the (pg_get st rid)))"
    "pg_ok (snd (pg_transition rid from to p e st))"
    "pg_events (snd (pg_transition rid from to p e st)) = pg_events st"
proof -
  obtain r where f: "find (\<lambda>r. run_id r = rid) (backtest_job st) = Some r"
    and ct: "canTransition from to" and r: "db_status r = from" "e = None \<or> leased_by r = e"
    using assms(2) by (cases "find (\<lambda>r. run_id r = rid) (backtest_job st)") (auto simp: pg_get_def)
  have w: "cas_where rid from e r" using r find_key [OF f] by (simp add: cas_where_def)
  define entry where "entry = (if from = to then [] else
    [\<lparr>tl_status = (if to = Waiting_for_compute then Running else to), tl_atMs = p_atMs p\<rparr>])"
  define st1 where "st1 = st\<lparr>backtest_job :=
    sql_update (cas_where rid from e) (db_applyPatch to p entry) (backtest_job st)\<rparr>"
  have t: "pg_transition rid from to p e st = (True, if to = Queued then notifyQueued st1 else st1)"
    using ct assms(2)
    by (simp add: pg_transition_alt Let_def pg_cas_where [OF assms(1) ct] st1_def entry_def)
  have j: "rowToJob (db_applyPatch to p entry q) = applyPatch to p (rowToJob q)"
    if "db_status q = from" for q
    using that by (intro rowToJob_applyPatch) (simp add: entry_def)
  have g: "pg_get st1 = (pg_get st)(rid \<mapsto> rowToJob (db_applyPatch to p entry r))"
    unfolding st1_def by (rule pg_update_key [OF f]) (use w in \<open>simp_all add: cas_where_def\<close>)
  show "fst (pg_transition rid from to p e st)" by (simp add: t)
  show "pg_get (snd (pg_transition rid from to p e st)) =
       (pg_get st)(rid \<mapsto> applyPatch to p (the (pg_get st rid)))"
    using f j [OF r(1)] g by (simp add: t pg_get_def)
  have "pg_ok st1" unfolding st1_def sql_update_def
    by (rule pg_ok_map [OF assms(1)]) (use ct in \<open>auto simp: cas_where_def j intro!: row_evolves_patch\<close>)
  thus "pg_ok (snd (pg_transition rid from to p e st))" by (simp add: t)
  show "pg_events (snd (pg_transition rid from to p e st)) = pg_events st"
    by (simp add: t st1_def)
qed

lemma pg_transition_facts:
  assumes "pg_ok st"
  shows "fst (pg_transition rid from to p e st) = cas_ok (pg_get st rid) from to e"
    "pg_get (snd (pg_transition rid from to p e st)) = (if cas_ok (pg_get st rid) from to e
       then (pg_get st)(rid \<mapsto> applyPatch to p (the (pg_get st rid))) else pg_get st)"
    "pg_ok (snd (pg_transition rid from to p e st))"
    "pg_events (snd (pg_transition rid from to p e st)) = pg_events st"
  using assms
  by (cases "cas_ok (pg_get st rid) from to e"; simp add: pg_transition_yes pg_transition_no)+

lemma pg_get_find:
  assumes "pg_ok st" "r \<in> set (backtest_job st)"
  shows "find (\<lambda>q. run_id q = run_id r) (backtest_job st) = Some r"
proof -
  have "distinct (map run_id t) \<Longrightarrow> r \<in> set t \<Longrightarrow> find (\<lambda>q. run_id q = run_id r) t = Some r" for t
    by (induction t) (auto simp: image_iff)
  thus ?thesis using assms by (simp add: pg_ok_def)
qed

lemma returning_key:
  assumes "pg_ok st" "r \<in> set (backtest_job st)"
  shows "sql_returning (\<lambda>q. run_id q = run_id r) f (backtest_job st) = [f r]"
proof -
  have "filter (\<lambda>q. run_id q = run_id r) (backtest_job st) = [r]"
    using count_key [of "backtest_job st" "\<lambda>q. run_id q = run_id r" "run_id r"] assms
    by (simp add: pg_get_find pg_ok_def [of st])
  thus ?thesis by (simp add: sql_returning_def)
qed

subsection \<open>Claim, lease, waiters\<close>

lemma pg_claim_none: "db_queuedJobs st = [] \<Longrightarrow> pg_claimNextQueued now ls co st = (None, st)"
  by (simp add: pg_claimNextQueued_def)

lemma pg_claim_some:
  assumes ok: "pg_ok st" and q: "db_queuedJobs st = nxt # rest"
  shows "nxt \<in> set (backtest_job st)" "db_status nxt = Queued"
    "fst (pg_claimNextQueued now ls co st) = Some (rowToJob (db_claim now ls co nxt))"
    "pg_get (snd (pg_claimNextQueued now ls co st)) = (pg_get st)(run_id nxt \<mapsto> rowToJob (db_claim now ls co nxt))"
    "pg_ok (snd (pg_claimNextQueued now ls co st))"
    "pg_events (snd (pg_claimNextQueued now ls co st)) = pg_events st"
proof -
  have "nxt \<in> set (db_queuedJobs st)" using q by simp
  thus n: "nxt \<in> set (backtest_job st)" "db_status nxt = Queued" by (auto simp: db_queuedJobs_def)
  note c = pg_claimNextQueued_def q returning_key [OF ok n(1)]
  show "fst (pg_claimNextQueued now ls co st) = Some (rowToJob (db_claim now ls co nxt))"
    by (simp add: c Let_def)
  show "pg_get (snd (pg_claimNextQueued now ls co st)) = (pg_get st)(run_id nxt \<mapsto> rowToJob (db_claim now ls co nxt))"
    by (simp add: c Let_def) (rule pg_update_key [OF pg_get_find [OF ok n(1)]], simp_all)
  have only: "q = nxt" if "q \<in> set (backtest_job st)" "run_id q = run_id nxt" for q
    using pg_get_find [OF ok n(1)] pg_get_find [OF ok that(1)] that(2) by simp
  have m: "sql_update (\<lambda>j. run_id j = run_id nxt) (db_claim now ls co) (backtest_job st) =
      map (\<lambda>j. if run_id j = run_id nxt \<and> db_status j = Queued then db_claim now ls co j else j) (backtest_job st)"
    unfolding sql_update_def by (rule map_cong [OF HOL.refl]) (use only n(2) in auto)
  show "pg_ok (snd (pg_claimNextQueued now ls co st))"
    by (simp add: c Let_def m) (rule pg_ok_map [OF ok], auto simp: rowToJob_claim_evolves)
  show "pg_events (snd (pg_claimNextQueued now ls co st)) = pg_events st" by (simp add: c Let_def)
qed

lemma pg_queue_first:
  assumes "db_queuedJobs st = nxt # rest" "r \<in> set (backtest_job st)" "db_status r = Queued"
  shows "queueOrder (rowToJob nxt) \<le> queueOrder (rowToJob r)"
proof -
  have "r \<in> set [r \<leftarrow> backtest_job st. db_status r = Queued]" using assms(2,3) by simp
  from hd_sort_key_min [OF this, of "\<lambda>r. (db_queueTs r, run_id r)"] show ?thesis
    using assms(1) by (simp add: db_queuedJobs_def queueOrder_def queueTs_def db_queueTs_def)
qed

lemma pg_renew_facts:
  shows "pg_get (pg_renewLease w t st) k = map_option (renewedRow w t) (pg_get st k)"
    "pg_ok st \<Longrightarrow> pg_ok (pg_renewLease w t st)"
    "pg_events (pg_renewLease w t st) = pg_events st"
proof -
  let ?g = "\<lambda>r. if db_status r = Running \<and> leased_by r = Some w then r\<lparr>lease_expires_at := Some t\<rparr> else r"
  have j: "rowToJob (?g r) = renewedRow w t (rowToJob r)" for r
    by (simp add: renewedRow_def rowToJob_renew)
  have e: "pg_renewLease w t st = st\<lparr>backtest_job := map ?g (backtest_job st)\<rparr>"
    by (simp add: pg_renewLease_def sql_update_def)
  show "pg_get (pg_renewLease w t st) k = map_option (renewedRow w t) (pg_get st k)"
    unfolding e by (rule pg_get_update) (simp_all add: j)
  show "pg_ok (pg_renewLease w t st)" if "pg_ok st"
    unfolding e by (rule pg_ok_map [OF that]) (simp_all only: j renewedRow_def renewed_evolves, simp)
  show "pg_events (pg_renewLease w t st) = pg_events st" by (simp add: e)
qed

lemma pg_release_facts:
  shows "pg_get (snd (pg_releaseAllComputeWaiters ci why now st)) k =
      map_option (releaseRow ci why now) (pg_get st k)"
    "pg_ok st \<Longrightarrow> pg_ok (snd (pg_releaseAllComputeWaiters ci why now st))"
    "pg_events (snd (pg_releaseAllComputeWaiters ci why now st)) = pg_events st"
proof -
  let ?g = "\<lambda>r. if db_isWaiter ci r then db_wake why now r else r"
  have j: "rowToJob (?g r) = releaseRow ci why now (rowToJob r)" for r
    by (simp add: releaseRow_def isWaiter_def db_isWaiter_def rowToJob_wake)
  have e: "snd (pg_releaseAllComputeWaiters ci why now st) = st\<lparr>backtest_job := map ?g (backtest_job st)\<rparr>"
    by (simp add: pg_releaseAllComputeWaiters_def sql_update_def)
  show "pg_get (snd (pg_releaseAllComputeWaiters ci why now st)) k =
      map_option (releaseRow ci why now) (pg_get st k)"
    unfolding e by (rule pg_get_update) (simp_all add: j)
  show "pg_ok (snd (pg_releaseAllComputeWaiters ci why now st))" if "pg_ok st"
    unfolding e by (rule pg_ok_map [OF that]) (simp_all only: j releaseRow_evolves, simp)
  show "pg_events (snd (pg_releaseAllComputeWaiters ci why now st)) = pg_events st" by (simp add: e)
qed

lemma pg_elect_none: "filter (db_isWaiter ci) (backtest_job st) = [] \<Longrightarrow>
    pg_electOneComputeWaiter ci why now st = (None, st)"
  by (simp add: pg_electOneComputeWaiter_def)

lemma pg_elect_some:
  assumes ok: "pg_ok st" and q: "sort_key db_queueTs (filter (db_isWaiter ci) (backtest_job st)) = nxt # rest"
  shows "nxt \<in> set (backtest_job st)" "db_isWaiter ci nxt"
    "fst (pg_electOneComputeWaiter ci why now st) = Some (rowToJob (db_wake why now nxt))"
    "pg_get (snd (pg_electOneComputeWaiter ci why now st)) = (pg_get st)(run_id nxt \<mapsto> rowToJob (db_wake why now nxt))"
    "pg_ok (snd (pg_electOneComputeWaiter ci why now st))"
    "pg_events (snd (pg_electOneComputeWaiter ci why now st)) = pg_events st"
proof -
  have "nxt \<in> set (sort_key db_queueTs (filter (db_isWaiter ci) (backtest_job st)))" using q by simp
  thus n: "nxt \<in> set (backtest_job st)" "db_isWaiter ci nxt" by auto
  note c = pg_electOneComputeWaiter_def q returning_key [OF ok n(1)]
  show "fst (pg_electOneComputeWaiter ci why now st) = Some (rowToJob (db_wake why now nxt))"
    by (simp add: c Let_def)
  show "pg_get (snd (pg_electOneComputeWaiter ci why now st)) = (pg_get st)(run_id nxt \<mapsto> rowToJob (db_wake why now nxt))"
    by (simp add: c Let_def) (rule pg_update_key [OF pg_get_find [OF ok n(1)]], simp_all)
  have only: "q = nxt" if "q \<in> set (backtest_job st)" "run_id q = run_id nxt" for q
    using pg_get_find [OF ok n(1)] pg_get_find [OF ok that(1)] that(2) by simp
  have m: "sql_update (\<lambda>j. run_id j = run_id nxt) (db_wake why now) (backtest_job st) =
      map (\<lambda>j. if run_id j = run_id nxt \<and> db_isWaiter ci j then db_wake why now j else j) (backtest_job st)"
    unfolding sql_update_def by (rule map_cong [OF HOL.refl]) (use only n(2) in auto)
  show "pg_ok (snd (pg_electOneComputeWaiter ci why now st))"
    by (simp add: c Let_def m)
       (rule pg_ok_map [OF ok], auto simp: rowToJob_wake db_isWaiter_def row_evolves_patch)
  show "pg_events (snd (pg_electOneComputeWaiter ci why now st)) = pg_events st" by (simp add: c Let_def)
qed

lemma pg_elect_first:
  assumes "sort_key db_queueTs (filter (db_isWaiter ci) (backtest_job st)) = nxt # rest"
    "r \<in> set (backtest_job st)" "db_isWaiter ci r"
  shows "queueTs (rowToJob nxt) \<le> queueTs (rowToJob r)"
proof -
  have "r \<in> set (filter (db_isWaiter ci) (backtest_job st))" using assms(2,3) by simp
  from hd_sort_key_min [OF this, of db_queueTs] show ?thesis
    using assms(1) by (simp add: queueTs_def db_queueTs_def)
qed

lemma db_finish_applyPatch: "to \<noteq> Waiting_for_compute \<Longrightarrow> db_finish to now code r =
    db_applyPatch to (terminalPatch now code) [\<lparr>tl_status = to, tl_atMs = now\<rparr>] r"
  by (simp add: db_finish_def db_applyPatch_def terminalPatch_def patch_at_def)

text \<open>Poisoning is the compare-and-set from waiting to failed, with the row returned.\<close>

lemma pg_poison_transition:
  assumes "pg_ok st"
  shows "snd (pg_poisonComputeWaiter rid now st) = snd (pg_transition rid Waiting_for_compute Failed
      (terminalPatch now ''compute_wait_exhausted'') None st)"
    "fst (pg_poisonComputeWaiter rid now st) = (if cas_ok (pg_get st rid) Waiting_for_compute Failed None
      then Some (applyPatch Failed (terminalPatch now ''compute_wait_exhausted'') (the (pg_get st rid)))
      else None)"
proof -
  let ?P = "cas_where rid Waiting_for_compute None"
  have P: "?P = (\<lambda>r. run_id r = rid \<and> db_status r = Waiting_for_compute)"
    by (rule ext) (simp add: cas_where_def)
  have f: "db_finish Failed now ''compute_wait_exhausted'' = db_applyPatch Failed
      (terminalPatch now ''compute_wait_exhausted'') [\<lparr>tl_status = Failed, tl_atMs = now\<rparr>]"
    by (rule ext) (simp add: db_finish_applyPatch)
  show "snd (pg_poisonComputeWaiter rid now st) = snd (pg_transition rid Waiting_for_compute Failed
      (terminalPatch now ''compute_wait_exhausted'') None st)"
    by (simp add: pg_poisonComputeWaiter_def pg_transition_alt Let_def P f terminalPatch_def patch_at_def)
  have w: "filter ?P (backtest_job st) = (if cas_ok (pg_get st rid) Waiting_for_compute Failed None
      then [the (find (\<lambda>r. run_id r = rid) (backtest_job st))] else [])"
    by (rule pg_cas_where [OF assms]) simp
  show "fst (pg_poisonComputeWaiter rid now st) = (if cas_ok (pg_get st rid) Waiting_for_compute Failed None
      then Some (applyPatch Failed (terminalPatch now ''compute_wait_exhausted'') (the (pg_get st rid)))
      else None)"
    using w unfolding P
    by (cases "find (\<lambda>r. run_id r = rid) (backtest_job st)")
       (auto simp: pg_poisonComputeWaiter_def Let_def sql_returning_def pg_get_def rowToJob_finish)
qed

subsection \<open>The reaper\<close>

text \<open>The statements of one reaper pass, as row functions, and which of them return the row.\<close>

definition upd :: "('r \<Rightarrow> bool) \<Rightarrow> ('r \<Rightarrow> 'r) \<Rightarrow> 'r \<Rightarrow> 'r" where
  "upd P f r = (if P r then f r else r)"

lemma sql_update_upd: "sql_update P f t = map (upd P f) t"
  by (simp add: sql_update_def upd_def)

lemma sql_returning_map: "sql_returning P f (map g t) = map (f \<circ> g) (filter (P \<circ> g) t)"
  by (simp add: sql_returning_def filter_map)

definition reapP1 where "reapP1 now r = (db_status r \<in> {Queued, Accepted} \<and> past (queue_deadline_ms r) now)"
definition reapP2 where "reapP2 now co cap r = (co \<and> db_leaseStale now r \<and> engine_attempt_charged r = False
  \<and> compute_wait_attempts r \<ge> cap)"
definition reapP3 where "reapP3 now co cap r = (co \<and> db_leaseStale now r \<and> engine_attempt_charged r = False
  \<and> compute_wait_attempts r < cap)"
definition reapP4 where "reapP4 now co mx r = (db_leaseStale now r \<and> db_attempts r \<ge> mx
  \<and> (co \<longrightarrow> engine_attempt_charged r \<noteq> False))"
definition reapP5 where "reapP5 now co mx r = (db_leaseStale now r \<and> db_attempts r < mx
  \<and> (co \<longrightarrow> engine_attempt_charged r \<noteq> False))"
definition reapP6 where "reapP6 now r = (db_status r \<in> {Running, Waiting_for_compute} \<and> past (run_deadline_ms r) now)"

definition reapF1 where "reapF1 now = db_finish Expired now ''queue_deadline_exceeded''"
definition reapF2 where "reapF2 now = db_finish Failed now ''compute_wait_exhausted''"
definition reapF3 where "reapF3 now r = (db_requeue now r)\<lparr>compute_wait_attempts := compute_wait_attempts r + 1\<rparr>"
definition reapF4 where "reapF4 now = db_finish Failed now ''lease_expired''"
definition reapF5 where "reapF5 now co r = (if co then (db_requeue now r)\<lparr>engine_attempt_charged := False\<rparr>
  else db_requeue now r)"
definition reapF6 where "reapF6 now = db_finish Timed_out now ''run_deadline_exceeded''"

lemmas reapPs = reapP1_def reapP2_def reapP3_def reapP4_def reapP5_def reapP6_def db_leaseStale_def
lemmas reapFs = reapF1_def reapF2_def reapF3_def reapF4_def reapF5_def reapF6_def

definition reapG1 where "reapG1 now = upd (reapP1 now) (reapF1 now)"
definition reapG2 where "reapG2 now co cap = upd (reapP2 now co cap) (reapF2 now) \<circ> reapG1 now"
definition reapG3 where "reapG3 now co cap = upd (reapP3 now co cap) (reapF3 now) \<circ> reapG2 now co cap"
definition reapG4 where "reapG4 now co cap mx = upd (reapP4 now co mx) (reapF4 now) \<circ> reapG3 now co cap"
definition reapG5 where "reapG5 now co cap mx = upd (reapP5 now co mx) (reapF5 now co) \<circ> reapG4 now co cap mx"
definition reapG6 where "reapG6 now co cap mx = upd (reapP6 now) (reapF6 now) \<circ> reapG5 now co cap mx"

lemmas reapGs = reapG1_def reapG2_def reapG3_def reapG4_def reapG5_def reapG6_def

lemma db_status_fixed [simp]:
  "db_status (db_finish to now code r) = to" "db_status (db_requeue now r) = Queued"
  "db_status (db_wake why now r) = Queued" "db_status (db_claim now ls co r) = Running"
  by (simp_all add: db_finish_def db_requeue_def db_wake_def db_claim_def)

lemma pg_reap_eq:
  fixes opts now
  defines "mx \<equiv> orElse (ro_leaseMaxAttempts opts) 3" and "co \<equiv> orElse (ro_coalesceEnabled opts) False"
    and "cap \<equiv> orElse (ro_computeWaitMaxAttempts opts) 3"
  shows "fst (pg_reapDeadlines now opts st) = map rowToJob (
      map (reapF1 now) (filter (reapP1 now) (backtest_job st))
      @ map (reapF2 now \<circ> reapG1 now) (filter (reapP2 now co cap \<circ> reapG1 now) (backtest_job st))
      @ map (reapF4 now \<circ> reapG3 now co cap) (filter (reapP4 now co mx \<circ> reapG3 now co cap) (backtest_job st))
      @ map (reapF6 now \<circ> reapG5 now co cap mx) (filter (reapP6 now \<circ> reapG5 now co cap mx) (backtest_job st)))"
    "pg_get (snd (pg_reapDeadlines now opts st)) =
       pg_get (st\<lparr>backtest_job := map (reapG6 now co cap mx) (backtest_job st)\<rparr>)"
    "pg_ok (snd (pg_reapDeadlines now opts st)) =
       pg_ok (st\<lparr>backtest_job := map (reapG6 now co cap mx) (backtest_job st)\<rparr>)"
    "pg_events (snd (pg_reapDeadlines now opts st)) = pg_events st"
proof -
  define t where "t = backtest_job st"
  define st6 where "st6 = st\<lparr>backtest_job := map (reapG6 now co cap mx) t\<rparr>"
  have "\<exists>n. pg_reapDeadlines now opts st = (map rowToJob (
      sql_returning (reapP1 now) (reapF1 now) t
      @ sql_returning (reapP2 now co cap) (reapF2 now) (map (reapG1 now) t)
      @ sql_returning (reapP4 now co mx) (reapF4 now) (map (reapG3 now co cap) t)
      @ sql_returning (reapP6 now) (reapF6 now) (map (reapG5 now co cap mx) t)),
      if n > (0 :: nat) then notifyQueued st6 else st6)"
    unfolding pg_reapDeadlines_def Let_def sql_update_upd list.map_comp st6_def t_def mx_def co_def cap_def
      reapP1_def [abs_def] reapP2_def [abs_def] reapP3_def [abs_def] reapP4_def [abs_def]
      reapP5_def [abs_def] reapP6_def [abs_def] reapF1_def reapF2_def reapF3_def [abs_def] reapF4_def
      reapF5_def [abs_def] reapF6_def reapGs comp_assoc
    by (rule exI) (rule HOL.refl)
  then obtain n where e: "pg_reapDeadlines now opts st = (map rowToJob (
      sql_returning (reapP1 now) (reapF1 now) t
      @ sql_returning (reapP2 now co cap) (reapF2 now) (map (reapG1 now) t)
      @ sql_returning (reapP4 now co mx) (reapF4 now) (map (reapG3 now co cap) t)
      @ sql_returning (reapP6 now) (reapF6 now) (map (reapG5 now co cap mx) t)),
      if n > (0 :: nat) then notifyQueued st6 else st6)" by blast
  show "fst (pg_reapDeadlines now opts st) = map rowToJob (
      map (reapF1 now) (filter (reapP1 now) (backtest_job st))
      @ map (reapF2 now \<circ> reapG1 now) (filter (reapP2 now co cap \<circ> reapG1 now) (backtest_job st))
      @ map (reapF4 now \<circ> reapG3 now co cap) (filter (reapP4 now co mx \<circ> reapG3 now co cap) (backtest_job st))
      @ map (reapF6 now \<circ> reapG5 now co cap mx) (filter (reapP6 now \<circ> reapG5 now co cap mx) (backtest_job st)))"
    unfolding e fst_conv sql_returning_map t_def by (simp add: sql_returning_def)
  show "pg_get (snd (pg_reapDeadlines now opts st)) =
       pg_get (st\<lparr>backtest_job := map (reapG6 now co cap mx) (backtest_job st)\<rparr>)"
    "pg_ok (snd (pg_reapDeadlines now opts st)) =
       pg_ok (st\<lparr>backtest_job := map (reapG6 now co cap mx) (backtest_job st)\<rparr>)"
    "pg_events (snd (pg_reapDeadlines now opts st)) = pg_events st"
    by (simp_all add: e st6_def t_def)
qed

text \<open>On one row, the six statements in sequence are the decision of the in-memory reaper.\<close>

lemma run_id_reapG6 [simp]: "run_id (reapG6 now co cap mx r) = run_id r"
  by (simp add: reapGs upd_def reapFs)

lemma reapG5_idle:
  assumes "db_status r \<noteq> Running" shows "reapG5 now co cap mx r = reapG1 now r"
proof -
  have "db_status (reapG1 now r) \<noteq> Running" using assms by (simp add: reapG1_def upd_def reapF1_def)
  thus ?thesis by (simp add: reapG2_def reapG3_def reapG4_def reapG5_def upd_def
      reapP2_def reapP3_def reapP4_def reapP5_def db_leaseStale_def)
qed

lemma rowToJob_reapG6:
  fixes opts now
  defines "mx \<equiv> orElse (ro_leaseMaxAttempts opts) 3" and "co \<equiv> orElse (ro_coalesceEnabled opts) False"
    and "cap \<equiv> orElse (ro_computeWaitMaxAttempts opts) 3"
  shows "rowToJob (reapG6 now co cap mx r) = fst (reapRow now opts (rowToJob r))"
proof (cases "db_status r")
  case Running
  have G1: "reapG1 now r = r" by (simp add: reapGs upd_def reapPs Running)
  show ?thesis
  proof (cases "past (lease_expires_at r) now")
    case stale: True
    show ?thesis
    proof (cases "co \<and> \<not> engine_attempt_charged r")
      case True
      thus ?thesis using Running stale G1
        by (cases "cap \<le> compute_wait_attempts r")
           (simp_all add: reapG2_def reapG3_def reapG4_def reapG5_def reapG6_def upd_def reapPs reapFs
             reapRow_def Let_def rowToJob_finish rowToJob_requeue_wait [simplified] mx_def co_def cap_def)
    next
      case False
      have G3: "reapG3 now co cap r = r"
        using False G1 by (auto simp: reapG2_def reapG3_def upd_def reapPs)
      show ?thesis
      proof (cases "mx \<le> db_attempts r")
        case True
        have "reapG6 now co cap mx r = reapF4 now r"
          using False True Running stale G3
          by (simp add: reapG4_def reapG5_def reapG6_def upd_def reapPs reapFs)
        moreover have "reapRow now opts (rowToJob r) =
            (applyPatch Failed (terminalPatch now ''lease_expired'') (rowToJob r), True)"
          using False True Running stale by (auto simp: reapRow_def Let_def mx_def co_def)
        ultimately show ?thesis using Running by (simp add: reapF4_def rowToJob_finish)
      next
        case few: False
        have "reapG6 now co cap mx r = reapF5 now co r"
          using False few Running stale G3
          by (simp add: reapG4_def reapG5_def reapG6_def upd_def reapPs reapFs)
        thus ?thesis using False few Running stale
          by (simp add: reapRow_def Let_def mx_def co_def reapF5_def rowToJob_requeue rowToJob_reset)
      qed
    qed
  next
    case False
    thus ?thesis using Running G1
      by (simp add: reapG2_def reapG3_def reapG4_def reapG5_def reapG6_def upd_def reapPs reapFs
          reapRow_def Let_def rowToJob_finish)
  qed
qed (simp_all add: reapG6_def reapG5_idle reapG1_def upd_def reapP1_def reapP6_def reapF1_def reapF6_def
    reapRow_def Let_def rowToJob_finish)

text \<open>Which rows the four \<open>RETURNING\<close> clauses give back: those made terminal, each by one clause.\<close>

lemma reap_returned:
  "reapP1 now r \<Longrightarrow> reapG6 now co cap mx r = reapF1 now r"
  "reapP2 now co cap (reapG1 now r) \<Longrightarrow> reapG6 now co cap mx r = reapF2 now (reapG1 now r)"
  "reapP4 now co mx (reapG3 now co cap r) \<Longrightarrow> reapG6 now co cap mx r = reapF4 now (reapG3 now co cap r)"
  "reapP6 now (reapG5 now co cap mx r) \<Longrightarrow> reapG6 now co cap mx r = reapF6 now (reapG5 now co cap mx r)"
     apply (simp add: reapGs upd_def reapF1_def reapPs)
    apply (simp add: reapG2_def reapG3_def reapG4_def reapG5_def reapG6_def upd_def reapF2_def reapPs)
   apply (simp add: reapG4_def reapG5_def reapG6_def upd_def reapF4_def reapPs)
  apply (simp add: reapG6_def upd_def)
  done

definition reap_code :: "job_db_row \<Rightarrow> job_status \<times> string option" where
  "reap_code r = (db_status r, terminal_code r)"

lemma reap_code_F [simp]:
  "reap_code (reapF1 now r) = (Expired, Some ''queue_deadline_exceeded'')"
  "reap_code (reapF2 now r) = (Failed, Some ''compute_wait_exhausted'')"
  "reap_code (reapF4 now r) = (Failed, Some ''lease_expired'')"
  "reap_code (reapF6 now r) = (Timed_out, Some ''run_deadline_exceeded'')"
  by (simp_all add: reap_code_def reapFs db_finish_def)

lemma reap_code_terminal: "reap_code r = (st, c) \<Longrightarrow> db_status r = st"
  by (simp add: reap_code_def)

lemma reap_made_terminal:
  assumes "isTerminal (db_status (reapG6 now co cap mx r))" "\<not> isTerminal (db_status r)"
  shows "reapP1 now r \<or> reapP2 now co cap (reapG1 now r) \<or> reapP4 now co mx (reapG3 now co cap r)
    \<or> reapP6 now (reapG5 now co cap mx r)"
proof (rule ccontr)
  assume n: "\<not> ?thesis"
  have "reapG6 now co cap mx r = reapG5 now co cap mx r" using n by (simp add: reapG6_def upd_def)
  hence "isTerminal (db_status (reapG4 now co cap mx r))"
    using assms(1) by (auto simp: reapG5_def upd_def reapF5_def split: if_splits)
  hence "isTerminal (db_status (reapG3 now co cap r))" using n by (simp add: reapG4_def upd_def)
  hence "isTerminal (db_status (reapG2 now co cap r))"
    by (auto simp: reapG3_def upd_def reapF3_def split: if_splits)
  thus False using n assms(2) by (auto simp: reapG2_def reapG1_def upd_def)
qed

lemma reap_was_live:
  "reapP1 now r \<Longrightarrow> \<not> isTerminal (db_status r)"
  "reapP2 now co cap (reapG1 now r) \<Longrightarrow> \<not> isTerminal (db_status r)"
  "reapP4 now co mx (reapG3 now co cap r) \<Longrightarrow> \<not> isTerminal (db_status r)"
  "reapP6 now (reapG5 now co cap mx r) \<Longrightarrow> \<not> isTerminal (db_status r)"
  by (cases "db_status r"; simp add: reapGs upd_def reapPs)+

lemma pg_reap_returned:
  fixes opts now st
  defines "mx \<equiv> orElse (ro_leaseMaxAttempts opts) 3" and "co \<equiv> orElse (ro_coalesceEnabled opts) False"
    and "cap \<equiv> orElse (ro_computeWaitMaxAttempts opts) 3"
  defines "G \<equiv> reapG6 now co cap mx"
    and "Q1 \<equiv> reapP1 now" and "Q2 \<equiv> reapP2 now co cap \<circ> reapG1 now"
    and "Q4 \<equiv> reapP4 now co mx \<circ> reapG3 now co cap" and "Q6 \<equiv> reapP6 now \<circ> reapG5 now co cap mx"
  shows "fst (pg_reapDeadlines now opts st) = map (rowToJob \<circ> G) (filter Q1 (backtest_job st)
      @ filter Q2 (backtest_job st) @ filter Q4 (backtest_job st) @ filter Q6 (backtest_job st))"
    and "Q1 r \<or> Q2 r \<or> Q4 r \<or> Q6 r \<longleftrightarrow> snd (reapRow now opts (rowToJob r))"
    and "\<not> (Q1 r \<and> Q2 r)" "\<not> (Q1 r \<and> Q4 r)" "\<not> (Q1 r \<and> Q6 r)" "\<not> (Q2 r \<and> Q4 r)"
      "\<not> (Q2 r \<and> Q6 r)" "\<not> (Q4 r \<and> Q6 r)"
proof -
  note R = reap_returned [where now = now and co = co and cap = cap and mx = mx]
  have F: "Q1 r \<Longrightarrow> reapF1 now r = G r" "Q2 r \<Longrightarrow> (reapF2 now \<circ> reapG1 now) r = G r"
    "Q4 r \<Longrightarrow> (reapF4 now \<circ> reapG3 now co cap) r = G r"
    "Q6 r \<Longrightarrow> (reapF6 now \<circ> reapG5 now co cap mx) r = G r" for r
    by (simp_all add: Q1_def Q2_def Q4_def Q6_def G_def R)
  have C: "Q1 r \<Longrightarrow> reap_code (G r) = (Expired, Some ''queue_deadline_exceeded'')"
    "Q2 r \<Longrightarrow> reap_code (G r) = (Failed, Some ''compute_wait_exhausted'')"
    "Q4 r \<Longrightarrow> reap_code (G r) = (Failed, Some ''lease_expired'')"
    "Q6 r \<Longrightarrow> reap_code (G r) = (Timed_out, Some ''run_deadline_exceeded'')" for r
    by (simp_all flip: F)
  show "fst (pg_reapDeadlines now opts st) = map (rowToJob \<circ> G) (filter Q1 (backtest_job st)
      @ filter Q2 (backtest_job st) @ filter Q4 (backtest_job st) @ filter Q6 (backtest_job st))"
    unfolding pg_reap_eq mx_def [symmetric] co_def [symmetric] cap_def [symmetric]
      Q1_def [symmetric] Q2_def [symmetric] Q4_def [symmetric] Q6_def [symmetric]
    using F by (auto simp: map_map)
  show "\<not> (Q1 r \<and> Q2 r)" "\<not> (Q1 r \<and> Q4 r)" "\<not> (Q1 r \<and> Q6 r)" "\<not> (Q2 r \<and> Q4 r)"
      "\<not> (Q2 r \<and> Q6 r)" "\<not> (Q4 r \<and> Q6 r)"
    using C [of r] by auto
  have "isTerminal (db_status (G r))" if "Q1 r \<or> Q2 r \<or> Q4 r \<or> Q6 r"
    using that C [of r] by (auto dest!: reap_code_terminal)
  moreover have "\<not> isTerminal (db_status r)" if "Q1 r \<or> Q2 r \<or> Q4 r \<or> Q6 r"
    using that reap_was_live by (auto simp: Q1_def Q2_def Q4_def Q6_def)
  moreover have "Q1 r \<or> Q2 r \<or> Q4 r \<or> Q6 r" if "isTerminal (db_status (G r))" "\<not> isTerminal (db_status r)"
    using reap_made_terminal that by (simp add: Q1_def Q2_def Q4_def Q6_def G_def)
  moreover have "status (fst (reapRow now opts (rowToJob r))) = db_status (G r)"
    unfolding G_def mx_def co_def cap_def rowToJob_reapG6 [symmetric] by simp
  ultimately show "Q1 r \<or> Q2 r \<or> Q4 r \<or> Q6 r \<longleftrightarrow> snd (reapRow now opts (rowToJob r))"
    by (auto simp: reapRow_flag)
qed

lemma pg_reap_rows: "pg_get (snd (pg_reapDeadlines now opts st)) k =
    map_option (\<lambda>r. fst (reapRow now opts r)) (pg_get st k)"
  unfolding pg_reap_eq by (rule pg_get_update) (simp_all add: rowToJob_reapG6)

lemma pg_reap_ok: "pg_ok st \<Longrightarrow> pg_ok (snd (pg_reapDeadlines now opts st))"
  unfolding pg_reap_eq by (rule pg_ok_map) (simp_all add: rowToJob_reapG6 reapRow_evolves)

lemma pg_reap_distinct:
  assumes "pg_ok st" shows "distinct (map runId (fst (pg_reapDeadlines now opts st)))"
proof -
  have d: "distinct (map run_id (backtest_job st))" using assms by (simp add: pg_ok_def)
  have inj: "run_id x \<noteq> run_id y" if "x \<in> set (backtest_job st)" "y \<in> set (backtest_job st)" "x \<noteq> y" for x y
    using d that by (auto simp: distinct_map inj_on_def)
  note disj = pg_reap_returned(3-8) [where now = now and opts = opts]
  show ?thesis unfolding pg_reap_returned(1) map_map comp_assoc
    using disj inj by (fastforce simp: comp_def distinct_map_filter [OF d])
qed

lemma pg_reap_result:
  assumes "pg_ok st"
  shows "r' \<in> set (fst (pg_reapDeadlines now opts st)) \<longleftrightarrow>
    (\<exists>r. pg_get st (runId r') = Some r \<and> \<not> isTerminal (status r) \<and> isTerminal (status r')
       \<and> pg_get (snd (pg_reapDeadlines now opts st)) (runId r') = Some r')" (is "?L \<longleftrightarrow> ?R")
proof -
  have "?L \<longleftrightarrow> (\<exists>r \<in> set (backtest_job st). snd (reapRow now opts (rowToJob r))
      \<and> r' = fst (reapRow now opts (rowToJob r)))"
    unfolding pg_reap_returned(1) pg_reap_returned(2) [symmetric] by (auto simp: rowToJob_reapG6)
  also have "\<dots> \<longleftrightarrow> ?R"
  proof
    assume "\<exists>r \<in> set (backtest_job st). snd (reapRow now opts (rowToJob r))
      \<and> r' = fst (reapRow now opts (rowToJob r))"
    then obtain r where r: "r \<in> set (backtest_job st)" "snd (reapRow now opts (rowToJob r))"
      "r' = fst (reapRow now opts (rowToJob r))" by blast
    have "runId r' = run_id r" using r(3) row_evolves_runId [OF reapRow_evolves] by simp
    hence "pg_get st (runId r') = Some (rowToJob r)" using r(1) by (auto simp: pg_get_iff [OF assms])
    moreover have "\<not> isTerminal (status (rowToJob r))" "isTerminal (status r')"
      using r(2,3) reapRow_flag [of now opts "rowToJob r"] by auto
    moreover have "pg_get (snd (pg_reapDeadlines now opts st)) (runId r') = Some r'"
      using calculation(1) r(3) by (simp add: pg_reap_rows)
    ultimately show ?R by blast
  next
    assume ?R
    then obtain r where r: "pg_get st (runId r') = Some r" "\<not> isTerminal (status r)"
      "isTerminal (status r')" "r' = fst (reapRow now opts r)" by (auto simp: pg_reap_rows)
    then obtain r0 where r0: "r0 \<in> set (backtest_job st)" "rowToJob r0 = r"
      using pg_get_iff [OF assms] by blast
    have "snd (reapRow now opts (rowToJob r0))"
      unfolding reapRow_flag using r r0(2) by simp
    thus "\<exists>r \<in> set (backtest_job st). snd (reapRow now opts (rowToJob r))
      \<and> r' = fst (reapRow now opts (rowToJob r))" using r0 r(4) by blast
  qed
  finally show ?thesis .
qed

subsection \<open>Insert and events\<close>

lemma row_ok_pg_newRow [simp]: "row_ok (rowToJob (pg_newRow jsonb j))"
  by (simp add: row_ok_def pg_newRow_def)

lemma find_NoneD: "find P t = None \<Longrightarrow> x \<in> set t \<Longrightarrow> \<not> P x"
  by (induction t) (auto split: if_splits)

lemma find_SomeD: "find P t = Some x \<Longrightarrow> P x \<and> x \<in> set t"
  by (induction t) (auto split: if_splits)

lemma pg_insert_error: "pg_insertOrGet jsonb j st = (Inl e, st') \<Longrightarrow> st' = st"
  by (auto simp: pg_insertOrGet_def Let_def split: if_splits option.splits)

lemma pg_insert_replay:
  assumes "pg_ok st" "pg_insertOrGet jsonb j st = (Inr (r, False), st')"
  shows "st' = st \<and> pg_get st (runId r) = Some r"
proof -
  define P :: "job_db_row \<Rightarrow> bool" where "P = (if truthy (nj_resumeToken j)
    then (\<lambda>r. nj_resumeToken j \<noteq> None \<and> resume_token r = nj_resumeToken j)
    else (\<lambda>r. run_id r = nj_runId j))"
  have "\<exists>q. find P (backtest_job st) = Some q \<and> r = rowToJob q \<and> st' = st"
    using assms(2) unfolding pg_insertOrGet_def Let_def P_def [symmetric]
    by (auto split: if_splits option.splits)
  then obtain q where f: "find P (backtest_job st) = Some q" and q: "r = rowToJob q" "st' = st" by blast
  have "q \<in> set (backtest_job st)" using find_SomeD [OF f] by simp
  hence "pg_get st (run_id q) = Some (rowToJob q)" by (simp add: pg_get_def pg_get_find [OF assms(1)])
  thus ?thesis using q by simp
qed

lemma pg_insert_created:
  assumes "pg_ok st" "pg_insertOrGet jsonb j st = (Inr (r, True), st')"
  shows "r = rowToJob (pg_newRow jsonb j)" "pg_get st (nj_runId j) = None"
    "pg_get st' = (pg_get st)(nj_runId j \<mapsto> r)" "pg_ok st'" "pg_events st' = pg_events st"
proof -
  let ?sameRun = "\<lambda>r. run_id r = nj_runId j"
  have s: "r = rowToJob (pg_newRow jsonb j)"
      "st' = st\<lparr>backtest_job := backtest_job st @ [pg_newRow jsonb j]\<rparr>"
      "find ?sameRun (backtest_job st) = None"
    using assms(2)
    by (auto simp: pg_insertOrGet_def Let_def split: if_splits option.splits)
  show "r = rowToJob (pg_newRow jsonb j)" by fact
  show "pg_get st (nj_runId j) = None" by (simp add: pg_get_def s(3))
  have rid: "run_id (pg_newRow jsonb j) = nj_runId j" by (simp add: pg_newRow_def)
  show "pg_get st' = (pg_get st)(nj_runId j \<mapsto> r)"
    by (rule ext) (auto simp: pg_get_def s find_snoc rid split: option.splits)
  have "nj_runId j \<notin> run_id ` set (backtest_job st)" using find_NoneD [OF s(3)] by (metis (no_types, lifting) imageE)
  thus "pg_ok st'" using assms(1) by (simp add: pg_ok_def s(2) rid)
  show "pg_events st' = pg_events st" by (simp add: s(2))
qed

lemma pg_find_token:
  assumes "pg_ok st" "pg_findByResumeToken st tok = Some r"
  shows "pg_get st (runId r) = Some r \<and> resumeToken r = Some tok"
  using assms(2) by (auto simp: pg_findByResumeToken_def pg_get_iff [OF assms(1)] dest!: find_SomeD)

lemma pg_claim_none_iff:
  assumes "pg_ok st" "fst (pg_claimNextQueued now ls co st) = None"
  shows "snd (pg_claimNextQueued now ls co st) = st \<and> (\<forall>k r. pg_get st k = Some r \<longrightarrow> status r \<noteq> Queued)"
proof (cases "db_queuedJobs st")
  case Nil
  thus ?thesis by (auto simp: pg_claim_none pg_get_iff [OF assms(1)] db_queuedJobs_def filter_empty_conv)
next
  case (Cons nxt rest)
  thus ?thesis using assms(2) by (simp add: pg_claim_some(3) [OF assms(1)])
qed

lemma pg_claim_some_ex:
  assumes "pg_ok st" "fst (pg_claimNextQueued now ls co st) = Some r'"
  shows "\<exists>r. pg_get st (runId r) = Some r \<and> status r = Queued
    \<and> (\<forall>k q. pg_get st k = Some q \<longrightarrow> status q = Queued \<longrightarrow> queueOrder r \<le> queueOrder q)
    \<and> row_evolves r r' \<and> status r' = Running \<and> (ls \<noteq> None \<longrightarrow> r' = claimedRow now ls co r)
    \<and> pg_get (snd (pg_claimNextQueued now ls co st)) = (pg_get st)(runId r \<mapsto> r')"
proof (cases "db_queuedJobs st")
  case Nil
  thus ?thesis using assms(2) by (simp add: pg_claim_none)
next
  case (Cons nxt rest)
  note c = pg_claim_some [OF assms(1) Cons]
  have r': "r' = rowToJob (db_claim now ls co nxt)" using assms(2) by (simp add: c(3))
  have "queueOrder (rowToJob nxt) \<le> queueOrder q" if "pg_get st k = Some q" "status q = Queued" for k q
    using that pg_queue_first [OF Cons] by (auto simp: pg_get_iff [OF assms(1)])
  moreover have "pg_get st (run_id nxt) = Some (rowToJob nxt)"
    using c(1) by (auto simp: pg_get_iff [OF assms(1)])
  ultimately show ?thesis using c(2,4) r' rowToJob_claim_evolves [OF c(2)]
    by (intro exI [of _ "rowToJob nxt"]) (simp add: rowToJob_claim)
qed

lemma pg_elect_none_iff:
  assumes "pg_ok st" "fst (pg_electOneComputeWaiter ci why now st) = None"
  shows "snd (pg_electOneComputeWaiter ci why now st) = st \<and> (\<forall>k r. pg_get st k = Some r \<longrightarrow> \<not> isWaiter ci r)"
proof (cases "sort_key db_queueTs (filter (db_isWaiter ci) (backtest_job st))")
  case Nil
  hence "filter (db_isWaiter ci) (backtest_job st) = []" by simp
  thus ?thesis by (auto simp: pg_elect_none pg_get_iff [OF assms(1)] filter_empty_conv isWaiter_def db_isWaiter_def)
next
  case (Cons nxt rest)
  thus ?thesis using assms(2) by (simp add: pg_elect_some(3) [OF assms(1)])
qed

lemma pg_elect_some_ex:
  assumes "pg_ok st" "fst (pg_electOneComputeWaiter ci why now st) = Some r'"
  shows "\<exists>r. pg_get st (runId r) = Some r \<and> isWaiter ci r
    \<and> (\<forall>k q. pg_get st k = Some q \<longrightarrow> isWaiter ci q \<longrightarrow> queueTs r \<le> queueTs q)
    \<and> r' = applyPatch Queued (wakePatch now why) r
    \<and> pg_get (snd (pg_electOneComputeWaiter ci why now st)) = (pg_get st)(runId r \<mapsto> r')"
proof (cases "sort_key db_queueTs (filter (db_isWaiter ci) (backtest_job st))")
  case Nil
  hence "filter (db_isWaiter ci) (backtest_job st) = []" by simp
  thus ?thesis using assms(2) by (simp add: pg_elect_none)
next
  case (Cons nxt rest)
  note c = pg_elect_some [OF assms(1) Cons]
  have w: "db_status nxt = Waiting_for_compute" "isWaiter ci (rowToJob nxt)"
    using c(2) by (simp_all add: db_isWaiter_def isWaiter_def)
  have r': "r' = applyPatch Queued (wakePatch now why) (rowToJob nxt)"
    using assms(2) w by (simp add: c(3) rowToJob_wake)
  have "queueTs (rowToJob nxt) \<le> queueTs q" if "pg_get st k = Some q" "isWaiter ci q" for k q
    using that pg_elect_first [OF Cons]
    by (auto simp: pg_get_iff [OF assms(1)] isWaiter_def db_isWaiter_def)
  moreover have "pg_get st (run_id nxt) = Some (rowToJob nxt)"
    using c(1) by (auto simp: pg_get_iff [OF assms(1)])
  ultimately show ?thesis using c(4) r' w
    by (intro exI [of _ "rowToJob nxt"]) (simp add: rowToJob_wake)
qed

lemma pg_waiters: "pg_ok st \<Longrightarrow> set (pg_listComputeWaiters st) =
    {r. pg_get st (runId r) = Some r \<and> status r = Waiting_for_compute}"
  by (auto simp: pg_listComputeWaiters_def pg_get_iff)

lemma ev_core_row: "ev_core (rowToEvent (eventToRow ev)) = ev_core ev"
  by (simp add: ev_core_def rowToEvent_def eventToRow_def)

lemma pg_append:
  "ev_eventUid ev \<notin> ev_eventUid ` set (pg_events st) \<Longrightarrow>
   map ev_core (pg_events (pg_appendEvent ev st)) = map ev_core (pg_events st) @ [ev_core ev]"
  "pg_get (pg_appendEvent ev st) = pg_get st" "pg_ok (pg_appendEvent ev st) = pg_ok st"
proof -
  have u: "ev_eventUid (rowToEvent r) = event_uid r" for r by (simp add: rowToEvent_def)
  show "map ev_core (pg_events (pg_appendEvent ev st)) = map ev_core (pg_events st) @ [ev_core ev]"
    if "ev_eventUid ev \<notin> ev_eventUid ` set (pg_events st)"
    using that by (auto simp: pg_appendEvent_def pg_events_def image_iff u ev_core_row)
  show "pg_get (pg_appendEvent ev st) = pg_get st"
    by (rule ext) (simp add: pg_appendEvent_def pg_get_def)
  show "pg_ok (pg_appendEvent ev st) = pg_ok st" by (simp add: pg_appendEvent_def pg_ok_def)
qed

lemma pg_mark:
  "pg_events (pg_markDelivered uid ok st) =
     map (\<lambda>e. if ev_eventUid e = uid then markEvent ok e else e) (pg_events st)"
  "pg_get (pg_markDelivered uid ok st) = pg_get st" "pg_ok (pg_markDelivered uid ok st) = pg_ok st"
proof -
  show "pg_events (pg_markDelivered uid ok st) =
      map (\<lambda>e. if ev_eventUid e = uid then markEvent ok e else e) (pg_events st)"
    by (simp add: pg_markDelivered_def pg_events_def sql_update_def rowToEvent_def markEvent_def)
  show "pg_get (pg_markDelivered uid ok st) = pg_get st"
    by (rule ext) (simp add: pg_markDelivered_def pg_get_def)
  show "pg_ok (pg_markDelivered uid ok st) = pg_ok st" by (simp add: pg_markDelivered_def pg_ok_def)
qed

lemma pg_deliverable: "set (pg_listDeliverable st n) \<subseteq> {e \<in> set (pg_events st). deliverable e}"
  by (auto simp: pg_listDeliverable_def pg_events_def deliverable_def rowToEvent_def dest!: in_set_takeD)

lemma pg_deliverable_distinct:
  assumes "distinct (map ev_eventUid (pg_events st))"
  shows "distinct (map ev_eventUid (pg_listDeliverable st n))"
proof -
  have u: "ev_eventUid \<circ> rowToEvent = event_uid" by (rule ext) (simp add: rowToEvent_def)
  have "distinct (map event_uid (backtest_job_event st))" using assms by (simp add: pg_events_def u)
  thus ?thesis unfolding pg_listDeliverable_def map_map u by (rule distinct_map_take_sort)
qed

definition pgOps :: "(json \<Rightarrow> json) \<Rightarrow> pg_store job_store_ops" where
  "pgOps jsonb = \<lparr>
     op_insertOrGet = (\<lambda>j st. apfst (map_sum Pg_error id) (pg_insertOrGet jsonb j st)),
     op_get = pg_get, op_findByResumeToken = pg_findByResumeToken,
     op_countQueueStats = pg_countQueueStats, op_transition = pg_transition,
     op_claimNextQueued = pg_claimNextQueued, op_renewLease = pg_renewLease,
     op_list = pg_list_jobs, op_appendEvent = pg_appendEvent, op_listEvents = pg_listEvents,
     op_reapDeadlines = pg_reapDeadlines, op_listDeliverable = pg_listDeliverable,
     op_markDelivered = pg_markDelivered, op_listComputeWaiters = pg_listComputeWaiters,
     op_releaseAllComputeWaiters = pg_releaseAllComputeWaiters,
     op_electOneComputeWaiter = pg_electOneComputeWaiter,
     op_poisonComputeWaiter = pg_poisonComputeWaiter\<rparr>"

lemma pgOps_simps [simp]:
  "op_insertOrGet (pgOps jsonb) j st = apfst (map_sum Pg_error id) (pg_insertOrGet jsonb j st)"
  "op_get (pgOps jsonb) = pg_get" "op_findByResumeToken (pgOps jsonb) = pg_findByResumeToken"
  "op_transition (pgOps jsonb) = pg_transition" "op_claimNextQueued (pgOps jsonb) = pg_claimNextQueued"
  "op_renewLease (pgOps jsonb) = pg_renewLease" "op_appendEvent (pgOps jsonb) = pg_appendEvent"
  "op_reapDeadlines (pgOps jsonb) = pg_reapDeadlines"
  "op_listDeliverable (pgOps jsonb) = pg_listDeliverable"
  "op_markDelivered (pgOps jsonb) = pg_markDelivered"
  "op_listComputeWaiters (pgOps jsonb) = pg_listComputeWaiters"
  "op_releaseAllComputeWaiters (pgOps jsonb) = pg_releaseAllComputeWaiters"
  "op_electOneComputeWaiter (pgOps jsonb) = pg_electOneComputeWaiter"
  "op_poisonComputeWaiter (pgOps jsonb) = pg_poisonComputeWaiter"
  "op_countQueueStats (pgOps jsonb) = pg_countQueueStats" "op_list (pgOps jsonb) = pg_list_jobs"
  "op_listEvents (pgOps jsonb) = pg_listEvents"
  by (simp_all add: pgOps_def)

lemma pg_claim_ok:
  assumes "pg_ok st"
  shows "pg_ok (snd (pg_claimNextQueued now ls co st))"
    "pg_events (snd (pg_claimNextQueued now ls co st)) = pg_events st"
  by (cases "db_queuedJobs st"; simp add: pg_claim_none pg_claim_some(5,6) [OF assms] assms)+

lemma pg_elect_ok:
  assumes "pg_ok st"
  shows "pg_ok (snd (pg_electOneComputeWaiter ci why now st))"
    "pg_events (snd (pg_electOneComputeWaiter ci why now st)) = pg_events st"
  by (cases "sort_key db_queueTs (filter (db_isWaiter ci) (backtest_job st))";
      simp add: pg_elect_none pg_elect_some(5,6) [OF assms] assms)+

interpretation pg: job_store_contract "pgOps jsonb" pg_ok pg_events for jsonb
proof (unfold_locales, goal_cases)
  case (1 st k r) thus ?case by (auto simp: pg_get_iff) (simp add: pg_ok_def)
next
  case (2 st j err st') thus ?case
    using pg_insert_error [of jsonb j st] by (cases "pg_insertOrGet jsonb j st"; cases "fst (pg_insertOrGet jsonb j st)") auto
next
  case (3 st j r st')
  hence "pg_insertOrGet jsonb j st = (Inr (r, False), st')"
    by (cases "pg_insertOrGet jsonb j st"; cases "fst (pg_insertOrGet jsonb j st)") auto
  thus ?case using pg_insert_replay [OF 3(1)] by simp
next
  case (4 st j r st')
  hence "pg_insertOrGet jsonb j st = (Inr (r, True), st')"
    by (cases "pg_insertOrGet jsonb j st"; cases "fst (pg_insertOrGet jsonb j st)") auto
  from pg_insert_created [OF 4(1) this] show ?case by (simp add: pg_newRow_def)
next
  case (5 st tok r) thus ?case using pg_find_token by simp
next
  case (10 st now ls co) thus ?case using pg_claim_none_iff by simp
next
  case (11 st now ls co r') thus ?case using pg_claim_some_ex by simp
next
  case (18 st r' now ro) thus ?case using pg_reap_result by simp
next
  case (25 st n) show ?case using pg_deliverable by simp
next
  case (29 st) thus ?case using pg_waiters by simp
next
  case (33 st ci why now) thus ?case using pg_elect_none_iff by simp
next
  case (34 st ci why now r') thus ?case using pg_elect_some_ex by simp
qed (simp_all add: pg_transition_facts pg_claim_ok pg_elect_ok pg_renew_facts pg_release_facts
    pg_reap_rows pg_reap_distinct pg_reap_ok pg_reap_eq(4) pg_append pg_mark pg_poison_transition
    pg_deliverable_distinct)

end
