(* ===== verification/Store_Runs.thy ===== *)
theory Store_Runs
  imports Pg_Job_Store_Facts
begin

text \<open>
  Histories of a job store: the mutating calls of the \<open>JobStore\<close> interface as data, their execution
  by any implementation, and what holds of every history, proved in the contract locale and then
  read off for the in-memory and the Postgres store.  The second locale compares two implementations
  of the contract call by call.
\<close>

datatype store_call =
    Call_insert new_job
  | Call_transition string job_status job_status job_row_patch "string option"
  | Call_claim ms "lease option" bool
  | Call_renew string ms
  | Call_append job_event_row
  | Call_reap ms reap_opts
  | Call_mark string bool
  | Call_release string compute_wake_reason ms
  | Call_elect string compute_wake_reason ms
  | Call_poison string ms

fun exec_call :: "'s job_store_ops \<Rightarrow> store_call \<Rightarrow> 's \<Rightarrow> 's" where
  "exec_call ops (Call_insert j) st = snd (op_insertOrGet ops j st)"
| "exec_call ops (Call_transition rid from to p e) st = snd (op_transition ops rid from to p e st)"
| "exec_call ops (Call_claim now ls co) st = snd (op_claimNextQueued ops now ls co st)"
| "exec_call ops (Call_renew w t) st = op_renewLease ops w t st"
| "exec_call ops (Call_append ev) st = op_appendEvent ops ev st"
| "exec_call ops (Call_reap now ro) st = snd (op_reapDeadlines ops now ro st)"
| "exec_call ops (Call_mark uid ok) st = op_markDelivered ops uid ok st"
| "exec_call ops (Call_release ci why now) st = snd (op_releaseAllComputeWaiters ops ci why now st)"
| "exec_call ops (Call_elect ci why now) st = snd (op_electOneComputeWaiter ops ci why now st)"
| "exec_call ops (Call_poison rid now) st = snd (op_poisonComputeWaiter ops rid now st)"

definition exec_calls :: "'s job_store_ops \<Rightarrow> store_call list \<Rightarrow> 's \<Rightarrow> 's" where
  "exec_calls ops cs st = fold (exec_call ops) cs st"

lemma exec_calls_simps [simp]:
  "exec_calls ops [] st = st"
  "exec_calls ops (c # cs) st = exec_calls ops cs (exec_call ops c st)"
  by (simp_all add: exec_calls_def)

text \<open>An insert does not reuse the run id of a row unless it is answered as a replay.\<close>

fun fresh_call :: "'s job_store_ops \<Rightarrow> store_call \<Rightarrow> 's \<Rightarrow> bool" where
  "fresh_call ops (Call_insert j) st =
     (case fst (op_insertOrGet ops j st) of Inr (_, True) \<Rightarrow> op_get ops st (nj_runId j) = None | _ \<Rightarrow> True)"
| "fresh_call ops _ st = True"

fun fresh_calls :: "'s job_store_ops \<Rightarrow> store_call list \<Rightarrow> 's \<Rightarrow> bool" where
  "fresh_calls ops [] st = True"
| "fresh_calls ops (c # cs) st = (fresh_call ops c st \<and> fresh_calls ops cs (exec_call ops c st))"

context job_store_contract
begin

lemma insert_cases:
  assumes "inv st"
  obtains (error) err where "op_insertOrGet ops j st = (Inl err, st)"
  | (replay) r where "op_insertOrGet ops j st = (Inr (r, False), st)" "op_get ops st (runId r) = Some r"
  | (created) r st' where "op_insertOrGet ops j st = (Inr (r, True), st')"
proof -
  obtain res st' where e: "op_insertOrGet ops j st = (res, st')" by fastforce
  show thesis
  proof (cases res)
    case (Inl err)
    thus thesis using e insert_error [OF assms] error by blast
  next
    case (Inr rb)
    then obtain r b where i: "op_insertOrGet ops j st = (Inr (r, b), st')" using e by (cases rb) auto
    show thesis
    proof (cases b)
      case True thus thesis using i created by simp
    next
      case False
      hence i': "op_insertOrGet ops j st = (Inr (r, False), st')" using i by simp
      show thesis using insert_replay [OF assms i'] i' replay by blast
    qed
  qed
qed

lemma insert_inv:
  assumes "inv st" shows "inv (snd (op_insertOrGet ops j st))"
  using assms(1) insert_created [OF assms] by (cases rule: insert_cases [OF assms, where j = j]) auto

lemma exec_inv: "inv st \<Longrightarrow> inv (exec_call ops c st)"
  by (cases c) (simp_all add: insert_inv transition_inv claim_inv renew_inv append_inv reap_inv
      mark_inv release_inv elect_inv poison_inv)

lemma insert_evolves:
  assumes "inv st" "fresh_call ops (Call_insert j) st"
  shows "rows_evolve (op_get ops st) (op_get ops (snd (op_insertOrGet ops j st)))"
proof (rule insert_cases [OF assms(1), where j = j], goal_cases error replay created)
  case (created r st')
  hence "op_get ops st (nj_runId j) = None" using assms(2) by simp
  thus ?thesis using insert_created [OF assms(1) created] created by (simp add: rows_evolve_new)
qed simp_all

lemma exec_evolves: "inv st \<Longrightarrow> fresh_call ops c st \<Longrightarrow> rows_evolve (op_get ops st) (op_get ops (exec_call ops c st))"
  by (cases c) (simp_all del: fresh_call.simps(1) add: insert_evolves transition_evolves claim_evolves renew_evolves
      append_rows mark_rows reap_evolves release_evolves elect_evolves poison_evolves)

lemma runs_inv: "inv st \<Longrightarrow> inv (exec_calls ops cs st)"
  by (induction cs arbitrary: st) (simp_all add: exec_inv)

lemma runs_evolve:
  "inv st \<Longrightarrow> fresh_calls ops cs st \<Longrightarrow> rows_evolve (op_get ops st) (op_get ops (exec_calls ops cs st))"
proof (induction cs arbitrary: st)
  case (Cons c cs)
  have "rows_evolve (op_get ops st) (op_get ops (exec_call ops c st))"
    using Cons.prems by (simp add: exec_evolves)
  also have "rows_evolve \<dots> (op_get ops (exec_calls ops cs (exec_call ops c st)))"
    using Cons by (simp add: exec_inv)
  finally show ?case by simp
qed simp

lemma runs_terminal:
  assumes "inv st" "fresh_calls ops cs st" "op_get ops st k = Some r" "isTerminal (status r)"
  shows "op_get ops (exec_calls ops cs st) k = Some r"
  using rows_evolve_terminal [OF runs_evolve [OF assms(1,2)] assms(3,4)] .

lemma runs_row:
  assumes "inv st" "op_get ops (exec_calls ops cs st) k = Some r"
  shows "runId r = k \<and> row_ok r"
  using row_ok [OF runs_inv [OF assms(1)] assms(2)] .

text \<open>A successful compare-and-set moved the row from \<open>from\<close> to \<open>to\<close>; two writers that expect the same
  state cannot both win.\<close>

lemma cas_exclusive:
  assumes "inv st" "fst (op_transition ops rid from to p e st)" "from \<noteq> to"
  shows "\<not> fst (op_transition ops rid from to' p' e' (snd (op_transition ops rid from to p e st)))"
proof -
  have ok: "cas_ok (op_get ops st rid) from to e" using assms(1,2) by (simp add: transition_flag)
  have "op_get ops (snd (op_transition ops rid from to p e st)) rid =
      Some (applyPatch to p (the (op_get ops st rid)))"
    using assms(1) ok by (simp add: transition_rows)
  thus ?thesis using assms by (simp add: transition_flag transition_inv)
qed

end

text \<open>The value two claims in a row give: the second never returns the row of the first.\<close>

context job_store_contract
begin

lemma claim_exclusive:
  assumes "inv st" "fst (op_claimNextQueued ops now ls co st) = Some a"
    "fst (op_claimNextQueued ops now' ls' co' (snd (op_claimNextQueued ops now ls co st))) = Some b"
  shows "runId a \<noteq> runId b"
proof -
  let ?st = "snd (op_claimNextQueued ops now ls co st)"
  obtain r where r: "row_evolves r a" "status a = Running" "op_get ops ?st = (op_get ops st)(runId r \<mapsto> a)"
    using claim_some [OF assms(1,2)] by blast
  obtain q where q: "op_get ops ?st (runId q) = Some q" "status q = Queued" "row_evolves q b"
    using claim_some [OF claim_inv [OF assms(1)] assms(3)] by blast
  have "runId a = runId r" "runId b = runId q" using r(1) q(3) by (simp_all add: row_evolves_runId)
  thus ?thesis using q(1,2) r(2,3) by auto
qed

end

subsection \<open>Two implementations agree\<close>

text \<open>Calls whose effect on the rows the contract determines completely: all but inserts (each store
  fills its own defaults), elections (ties are open) and claims without a lease.\<close>

fun determined :: "store_call \<Rightarrow> bool" where
  "determined (Call_insert _) = False"
| "determined (Call_elect _ _ _) = False"
| "determined (Call_claim _ ls _) = (ls \<noteq> None)"
| "determined _ = True"

locale store_pair = a: job_store_contract opsA invA evsA + b: job_store_contract opsB invB evsB
  for opsA :: "'s job_store_ops" and invA evsA and opsB :: "'t job_store_ops" and invB evsB
begin

lemma claim_agree:
  assumes "invA s" "invB t" "op_get opsA s = op_get opsB t" "ls \<noteq> None"
  shows "fst (op_claimNextQueued opsA now ls co s) = fst (op_claimNextQueued opsB now ls co t)"
    "op_get opsA (snd (op_claimNextQueued opsA now ls co s)) = op_get opsB (snd (op_claimNextQueued opsB now ls co t))"
proof -
  let ?A = "op_claimNextQueued opsA now ls co s" and ?B = "op_claimNextQueued opsB now ls co t"
  have "fst ?A = fst ?B \<and> op_get opsA (snd ?A) = op_get opsB (snd ?B)"
  proof (cases "fst ?A")
    case None
    note n = a.claim_none [OF assms(1) None]
    have "fst ?B = None"
    proof (rule ccontr)
      assume "fst ?B \<noteq> None"
      then obtain y where "fst ?B = Some y" by blast
      from b.claim_some [OF assms(2) this] show False using n assms(3) by auto
    qed
    thus ?thesis using None n b.claim_none [OF assms(2)] assms(3) by auto
  next
    case (Some x)
    obtain r where r: "op_get opsA s (runId r) = Some r" "status r = Queued"
      "\<And>k q. op_get opsA s k = Some q \<Longrightarrow> status q = Queued \<Longrightarrow> queueOrder r \<le> queueOrder q"
      "x = claimedRow now ls co r" "op_get opsA (snd ?A) = (op_get opsA s)(runId r \<mapsto> x)"
      using a.claim_some [OF assms(1) Some] assms(4) by blast
    have "fst ?B \<noteq> None"
    proof
      assume "fst ?B = None"
      from b.claim_none [OF assms(2) this] show False using r(1,2) assms(3) by auto
    qed
    then obtain y where y: "fst ?B = Some y" by blast
    obtain q where q: "op_get opsB t (runId q) = Some q" "status q = Queued"
      "\<And>k p. op_get opsB t k = Some p \<Longrightarrow> status p = Queued \<Longrightarrow> queueOrder q \<le> queueOrder p"
      "y = claimedRow now ls co q" "op_get opsB (snd ?B) = (op_get opsB t)(runId q \<mapsto> y)"
      using b.claim_some [OF assms(2) y] assms(4) by blast
    have g: "op_get opsA s (runId q) = Some q" "op_get opsB t (runId r) = Some r"
      using q(1) r(1) assms(3) by simp_all
    have "queueOrder r = queueOrder q"
      by (rule order_antisym [OF r(3) [OF g(1) q(2)] q(3) [OF g(2) r(2)]])
    hence "runId r = runId q" by (simp add: queueOrder_def)
    hence "op_get opsA s (runId q) = Some r" using r(1) by (simp only:)
    hence "r = q" using g(1) by (simp only: option.inject)
    thus ?thesis using Some y r(4,5) q(4,5) assms(3) by simp
  qed
  thus "fst ?A = fst ?B" "op_get opsA (snd ?A) = op_get opsB (snd ?B)" by simp_all
qed

lemma step_agree:
  assumes "invA s" "invB t" "op_get opsA s = op_get opsB t" "determined c"
  shows "op_get opsA (exec_call opsA c s) = op_get opsB (exec_call opsB c t)"
  using assms
proof (cases c)
  case (Call_claim now ls co)
  thus ?thesis using claim_agree(2) assms by simp
next
  case (Call_renew w t')
  show ?thesis using assms by (auto simp: Call_renew a.renew_rows b.renew_rows)
next
  case (Call_reap now ro)
  show ?thesis using assms by (auto simp: Call_reap a.reap_rows b.reap_rows)
next
  case (Call_release ci why now)
  show ?thesis using assms by (auto simp: Call_release a.release_rows b.release_rows)
qed (simp_all add: a.transition_rows b.transition_rows a.append_rows b.append_rows a.mark_rows
    b.mark_rows a.poison_rows b.poison_rows)

lemma runs_agree:
  "invA s \<Longrightarrow> invB t \<Longrightarrow> op_get opsA s = op_get opsB t \<Longrightarrow> list_all determined cs \<Longrightarrow>
   op_get opsA (exec_calls opsA cs s) = op_get opsB (exec_calls opsB cs t)"
proof (induction cs arbitrary: s t)
  case (Cons c cs)
  thus ?case using step_agree [of s t c] by (simp add: a.exec_inv b.exec_inv)
qed simp

lemma reap_agree:
  assumes "invA s" "invB t" "op_get opsA s = op_get opsB t"
  shows "set (fst (op_reapDeadlines opsA now ro s)) = set (fst (op_reapDeadlines opsB now ro t))"
proof -
  have "op_get opsA (snd (op_reapDeadlines opsA now ro s)) = op_get opsB (snd (op_reapDeadlines opsB now ro t))"
    using step_agree [OF assms, of "Call_reap now ro"] by simp
  thus ?thesis using assms by (auto simp: a.reap_result b.reap_result)
qed

end

interpretation mem_pg: store_pair inMemoryOps store_ok events "pgOps jsonb" pg_ok pg_events for jsonb
  by unfold_locales

end
