(* ===== verification/Job_Store_Properties.thy ===== *)
theory Job_Store_Properties
  imports Store_Runs
begin

text \<open>
  The properties of the job stores: for both implementations, over arbitrary histories of calls.
\<close>

subsection \<open>A concrete history\<close>

definition sampleJob :: "string \<Rightarrow> string option \<Rightarrow> ms \<Rightarrow> new_job" where
  "sampleJob rid tok t = \<lparr>nj_jobId = ''job-'' @ rid, nj_runId = rid, nj_resumeToken = tok,
     nj_requestFingerprint = ''fp'', nj_correlationId = None, nj_workflowId = None,
     nj_request = JObj [], nj_effectiveSeed = JFin 7, nj_datasetRef = ''ds'', nj_bundleHash = None,
     nj_callbackUrl = None, nj_queueDeadlineMs = Some (t + 50), nj_runTimeoutMs = 100,
     nj_acceptedAtMs = t\<rparr>"

definition sampleHistory :: "string \<Rightarrow> store_call list" where
  "sampleHistory rid = [Call_insert (sampleJob rid None 1),
     Call_transition rid Accepted Queued ((patch_at 2)\<lparr>p_queuedAtMs := Some 2\<rparr>) None,
     Call_claim 3 (Some \<lparr>l_workerId = ''w'', l_ttlMs = 30\<rparr>) False,
     Call_transition rid Running Completed ((patch_at 9)\<lparr>p_terminalAtMs := Some 9\<rparr>) (Some ''w'')]"

definition noReapOpts :: reap_opts where
  "noReapOpts = \<lparr>ro_leaseMaxAttempts = None, ro_coalesceEnabled = None, ro_computeWaitMaxAttempts = None\<rparr>"

definition sampleStore :: job_store where
  "sampleStore = exec_calls inMemoryOps (sampleHistory ''r1'') emptyStore"

lemma sampleStore_ok: "store_ok sampleStore"
  unfolding sampleStore_def by (rule mem.runs_inv) simp

lemma sampleStore_row: "map_option status (get sampleStore ''r1'') = Some Completed"
  by code_simp

definition samplePg :: pg_store where
  "samplePg = exec_calls (pgOps id) (sampleHistory ''r1'') emptyPg"

lemma emptyPg_ok [simp]: "pg_ok emptyPg"
  by (simp add: pg_ok_def emptyPg_def)

lemma samplePg_ok: "pg_ok samplePg"
  unfolding samplePg_def by (rule pg.runs_inv) simp

lemma samplePg_row: "map_option status (pg_get samplePg ''r1'') = Some Completed"
  by code_simp

subsection \<open>Terminal rows\<close>

text \<open>Claim C10. In the Postgres store a row that has reached a terminal status is immutable: no history
  of calls, whatever run ids are inserted, whoever calls and in whatever order, changes any field.\<close>

theorem pg_terminal_immutable:
  assumes "pg_ok st" and "pg_get st k = Some r" and "isTerminal (status r)"
  shows "pg_get (exec_calls (pgOps jsonb) cs st) k = Some r"
proof -
  have fresh: "fresh_call (pgOps jsonb) c t" if ok: "pg_ok t" for c t
  proof (cases c)
    case (Call_insert j)
    have "pg_get t (nj_runId j) = None" if "fst (pg_insertOrGet jsonb j t) = Inr (q, True)" for q
      using pg_insert_created(2) [OF ok, of jsonb j q "snd (pg_insertOrGet jsonb j t)"] that
      by (metis prod.collapse)
    thus ?thesis by (auto simp: Call_insert map_sum_def split: sum.splits bool.splits)
  qed simp_all
  have "fresh_calls (pgOps jsonb) cs t" if "pg_ok t" for t
    using that
  proof (induction cs arbitrary: t)
    case (Cons c cs)
    thus ?case using fresh pg.exec_inv by simp
  qed simp
  thus ?thesis using pg.runs_terminal assms by simp
qed

theorem pg_terminal_immutable_witness:
  "pg_get (exec_calls (pgOps id) [Call_reap 1000 noReapOpts, Call_insert (sampleJob ''r1'' (Some ''t'') 5),
     Call_transition ''r1'' Completed Failed (patch_at 11) None] samplePg) ''r1'' = pg_get samplePg ''r1''"
proof -
  obtain r where r: "pg_get samplePg ''r1'' = Some r" "status r = Completed"
    using samplePg_row by (cases "pg_get samplePg ''r1''") auto
  show ?thesis unfolding r(1) by (rule pg_terminal_immutable [OF samplePg_ok r(1)]) (simp add: r(2))
qed

text \<open>Claim C11. In the in-memory store a terminal row is immutable along every history whose inserts do not
  reuse the run id of an existing row under a new idempotency key.\<close>

theorem mem_terminal_immutable:
  assumes "store_ok st" and "fresh_calls inMemoryOps cs st" and "get st k = Some r" and "isTerminal (status r)"
  shows "get (exec_calls inMemoryOps cs st) k = Some r"
  using mem.runs_terminal assms by simp

theorem mem_terminal_immutable_witness:
  "get (exec_calls inMemoryOps [Call_reap 1000 noReapOpts, Call_insert (sampleJob ''r2'' None 5),
     Call_transition ''r1'' Completed Failed (patch_at 11) None] sampleStore) ''r1'' = get sampleStore ''r1''"
proof -
  obtain r where r: "get sampleStore ''r1'' = Some r" "status r = Completed"
    using sampleStore_row by (cases "get sampleStore ''r1''") auto
  have f: "fresh_calls inMemoryOps [Call_reap 1000 noReapOpts, Call_insert (sampleJob ''r2'' None 5),
     Call_transition ''r1'' Completed Failed (patch_at 11) None] sampleStore" by code_simp
  show ?thesis unfolding r(1) by (rule mem_terminal_immutable [OF sampleStore_ok f r(1)]) (simp add: r(2))
qed

text \<open>Note. That condition is needed: an insert that carries a fresh resume token and the run id of a
  completed run is answered ``created'' by the in-memory store and replaces the completed row by a new
  accepted one, where the Postgres store refuses it with a unique violation and keeps the row.\<close>

theorem mem_insert_overwrites_terminal:
  "map_option status (get sampleStore ''r1'') = Some Completed
   \<and> snd (fst (insertOrGet (sampleJob ''r1'' (Some ''t'') 20) sampleStore))
   \<and> map_option status (get (snd (insertOrGet (sampleJob ''r1'' (Some ''t'') 20) sampleStore)) ''r1'') = Some Accepted
   \<and> fst (pg_insertOrGet id (sampleJob ''r1'' (Some ''t'') 20) samplePg) = Inl (Unique_violation ''run_id'')"
  by code_simp

subsection \<open>Compare-and-set and claims\<close>

text \<open>Note. Two writers that expect the same current status cannot both win, in either store: after a
  transition out of \<open>from\<close> succeeded, every further transition from \<open>from\<close> on that run fails, whatever it
  writes and whichever lease it presents.\<close>

theorem transition_exclusive:
  assumes "store_ok st" and "pg_ok pst" and "from \<noteq> to"
    and "fst (transition rid from to p e st)" and "fst (pg_transition rid from to p e pst)"
  shows "\<not> fst (transition rid from to' p' e' (snd (transition rid from to p e st)))
    \<and> \<not> fst (pg_transition rid from to' p' e' (snd (pg_transition rid from to p e pst)))"
  using mem.cas_exclusive [OF assms(1), of rid "from" to p e to' p' e'] assms(3-5)
    pg.cas_exclusive [OF assms(2), of id rid "from" to p e to' p' e'] by simp

theorem transition_exclusive_witness:
  "\<not> fst (transition ''q'' Accepted Canceled (patch_at 5) None
        (snd (transition ''q'' Accepted Queued (patch_at 4) None
          (snd (insertOrGet (sampleJob ''q'' None 1) emptyStore)))))
   \<and> \<not> fst (pg_transition ''q'' Accepted Canceled (patch_at 5) None
        (snd (pg_transition ''q'' Accepted Queued (patch_at 4) None
          (snd (pg_insertOrGet id (sampleJob ''q'' None 1) emptyPg)))))"
proof (rule transition_exclusive)
  show "store_ok (snd (insertOrGet (sampleJob ''q'' None 1) emptyStore))"
    by (rule store_ok_insertOrGet) simp
  show "pg_ok (snd (pg_insertOrGet id (sampleJob ''q'' None 1) emptyPg))"
    using pg.insert_inv [of emptyPg id "sampleJob ''q'' None 1"] by simp
qed (code_simp+)

text \<open>What a claim promises about the rows before and after it and the row it returns.\<close>

definition claim_spec :: "(string \<Rightarrow> job_row option) \<Rightarrow> (string \<Rightarrow> job_row option) \<Rightarrow> job_row option
    \<Rightarrow> ms \<Rightarrow> lease \<Rightarrow> bool \<Rightarrow> bool" where
  "claim_spec g g' res now ls co = (case res of
     None \<Rightarrow> g' = g \<and> (\<forall>k r. g k = Some r \<longrightarrow> status r \<noteq> Queued)
   | Some r' \<Rightarrow> (\<exists>r. g (runId r) = Some r \<and> status r = Queued
        \<and> (\<forall>k q. g k = Some q \<longrightarrow> status q = Queued \<longrightarrow> queueOrder r \<le> queueOrder q)
        \<and> g' = g(runId r \<mapsto> r') \<and> status r' = Running \<and> leasedBy r' = Some (l_workerId ls)
        \<and> leaseExpiresAt r' = Some (now + l_ttlMs ls) \<and> runDeadlineMs r' = Some (now + runTimeoutMs r)
        \<and> attempts r' = (if co then attempts r else attempts r + 1)))"

lemma claimedRow_fields:
  "leasedBy (claimedRow now (Some ls) co r) = Some (l_workerId ls)"
  "leaseExpiresAt (claimedRow now (Some ls) co r) = Some (now + l_ttlMs ls)"
  "runDeadlineMs (claimedRow now (Some ls) co r) = Some (now + runTimeoutMs r)"
  "attempts (claimedRow now (Some ls) co r) = (if co then attempts r else attempts r + 1)"
  by (simp_all add: claimedRow_def setLease_def applyPatch_def claimPatch_def patch_at_def Let_def)

context job_store_contract
begin

lemma claim_meets_spec:
  assumes "inv st"
  shows "claim_spec (op_get ops st) (op_get ops (snd (op_claimNextQueued ops now (Some ls) co st)))
    (fst (op_claimNextQueued ops now (Some ls) co st)) now ls co"
proof (cases "fst (op_claimNextQueued ops now (Some ls) co st)")
  case None
  from claim_none [OF assms None] show ?thesis by (simp add: claim_spec_def None)
next
  case (Some r')
  obtain r where "op_get ops st (runId r) = Some r" "status r = Queued"
    "\<forall>k q. op_get ops st k = Some q \<longrightarrow> status q = Queued \<longrightarrow> queueOrder r \<le> queueOrder q"
    "r' = claimedRow now (Some ls) co r"
    "op_get ops (snd (op_claimNextQueued ops now (Some ls) co st)) = (op_get ops st)(runId r \<mapsto> r')"
    using claim_some [OF assms Some] by blast
  thus ?thesis by (auto simp: claim_spec_def Some claimedRow_fields)
qed

end

text \<open>Claim C13. A claim takes the queued row that is first in (queue time, run id) order, moves it to
  running, records the lease, its expiry and the run deadline, counts the attempt (unless coalescing
  defers the charge), leaves every other row alone and returns the stored row; it returns nothing only
  when no row is queued.  Both stores.\<close>

theorem claim_fifo:
  assumes "store_ok st" and "pg_ok pst"
  shows "claim_spec (get st) (get (snd (claimNextQueued now (Some ls) co st)))
      (fst (claimNextQueued now (Some ls) co st)) now ls co
    \<and> claim_spec (pg_get pst) (pg_get (snd (pg_claimNextQueued now (Some ls) co pst)))
      (fst (pg_claimNextQueued now (Some ls) co pst)) now ls co"
  using mem.claim_meets_spec [OF assms(1)] pg.claim_meets_spec [OF assms(2)] by simp

theorem claim_fifo_witness:
  "claim_spec (get sampleStore) (get (snd (claimNextQueued 7 (Some \<lparr>l_workerId = ''w'', l_ttlMs = 5\<rparr>) False sampleStore)))
      (fst (claimNextQueued 7 (Some \<lparr>l_workerId = ''w'', l_ttlMs = 5\<rparr>) False sampleStore)) 7
      \<lparr>l_workerId = ''w'', l_ttlMs = 5\<rparr> False
   \<and> claim_spec (pg_get samplePg) (pg_get (snd (pg_claimNextQueued 7 (Some \<lparr>l_workerId = ''w'', l_ttlMs = 5\<rparr>) False samplePg)))
      (fst (pg_claimNextQueued 7 (Some \<lparr>l_workerId = ''w'', l_ttlMs = 5\<rparr>) False samplePg)) 7
      \<lparr>l_workerId = ''w'', l_ttlMs = 5\<rparr> False"
  by (rule claim_fifo [OF sampleStore_ok samplePg_ok])

text \<open>Note. No run is handed to two workers: two successive claims, by any workers at any times, return
  different runs, in both stores.\<close>

theorem claims_exclusive:
  assumes "store_ok st" and "fst (claimNextQueued now ls co st) = Some a"
    and "fst (claimNextQueued now' ls' co' (snd (claimNextQueued now ls co st))) = Some b"
    and "pg_ok pst" and "fst (pg_claimNextQueued now ls co pst) = Some c"
    and "fst (pg_claimNextQueued now' ls' co' (snd (pg_claimNextQueued now ls co pst))) = Some d"
  shows "runId a \<noteq> runId b \<and> runId c \<noteq> runId d"
  using mem.claim_exclusive [OF assms(1)] pg.claim_exclusive [OF assms(4)] assms by simp

definition twoQueued :: "store_call list" where
  "twoQueued = [Call_insert (sampleJob ''b'' None 1), Call_insert (sampleJob ''a'' None 1),
     Call_transition ''b'' Accepted Queued ((patch_at 2)\<lparr>p_queuedAtMs := Some 2\<rparr>) None,
     Call_transition ''a'' Accepted Queued ((patch_at 2)\<lparr>p_queuedAtMs := Some 2\<rparr>) None]"

definition twoStore :: job_store where
  "twoStore = exec_calls inMemoryOps twoQueued emptyStore"

definition twoPg :: pg_store where
  "twoPg = exec_calls (pgOps id) twoQueued emptyPg"

lemma two_ok: "store_ok twoStore" "pg_ok twoPg"
  unfolding twoStore_def twoPg_def by (rule mem.runs_inv, simp) (rule pg.runs_inv, simp)

theorem claims_exclusive_witness:
  "\<exists>a b c d. fst (claimNextQueued 3 None False twoStore) = Some a
     \<and> fst (claimNextQueued 4 None False (snd (claimNextQueued 3 None False twoStore))) = Some b
     \<and> fst (pg_claimNextQueued 3 None False twoPg) = Some c
     \<and> fst (pg_claimNextQueued 4 None False (snd (pg_claimNextQueued 3 None False twoPg))) = Some d
     \<and> runId a = ''a'' \<and> runId a \<noteq> runId b \<and> runId c \<noteq> runId d"
proof -
  have m: "map_option runId (fst (claimNextQueued 3 None False twoStore)) = Some ''a''"
    "map_option runId (fst (claimNextQueued 4 None False (snd (claimNextQueued 3 None False twoStore)))) = Some ''b''"
    "map_option runId (fst (pg_claimNextQueued 3 None False twoPg)) = Some ''a''"
    "map_option runId (fst (pg_claimNextQueued 4 None False (snd (pg_claimNextQueued 3 None False twoPg)))) = Some ''b''"
    by code_simp+
  then obtain a b c d where r: "fst (claimNextQueued 3 None False twoStore) = Some a"
    "fst (claimNextQueued 4 None False (snd (claimNextQueued 3 None False twoStore))) = Some b"
    "fst (pg_claimNextQueued 3 None False twoPg) = Some c"
    "fst (pg_claimNextQueued 4 None False (snd (pg_claimNextQueued 3 None False twoPg))) = Some d"
    by auto
  show ?thesis using claims_exclusive [OF two_ok(1) r(1,2) two_ok(2) r(3,4)] r m(1) by auto
qed

subsection \<open>The public view\<close>

definition view_ok :: "run_status_view \<Rightarrow> bool" where
  "view_ok v = (v_status v \<noteq> Waiting_for_compute
     \<and> (\<forall>e \<in> set (v_timeline v). tl_status e \<noteq> Waiting_for_compute)
     \<and> v_timeline v \<noteq> [] \<and> tl_status (hd (v_timeline v)) = Accepted
     \<and> tl_status (last (v_timeline v)) = v_status v
     \<and> successively public_edge (map tl_status (v_timeline v)))"

lemma row_ok_view: "row_ok r \<Longrightarrow> view_ok (toStatusView r)"
  using row_ok_public_timeline [of r] by (simp add: view_ok_def toStatusView_def row_ok_def)

text \<open>Claim C14. After any history of calls on an empty store, the public view of every run hides the internal
  \<open>waiting_for_compute\<close> status, in the status and in every timeline entry; the timeline starts with
  \<open>accepted\<close>, follows allowed transitions as the public sees them, and ends in the status shown.  Both
  stores.\<close>

theorem status_view_public:
  "(\<forall>r. get (exec_calls inMemoryOps cs emptyStore) k = Some r \<longrightarrow> view_ok (toStatusView r))
   \<and> (\<forall>r. pg_get (exec_calls (pgOps jsonb) cs emptyPg) k = Some r \<longrightarrow> view_ok (toStatusView r))"
  using mem.runs_row [of emptyStore cs k] pg.runs_row [of emptyPg jsonb cs k] by (auto intro: row_ok_view)

theorem status_view_public_witness:
  "\<exists>r. get sampleStore ''r1'' = Some r \<and> view_ok (toStatusView r)
     \<and> map tl_status (v_timeline (toStatusView r)) = [Accepted, Queued, Running, Completed]"
proof -
  obtain r where r: "get sampleStore ''r1'' = Some r"
    using sampleStore_row by (cases "get sampleStore ''r1''") auto
  have "map_option (\<lambda>r. map tl_status (v_timeline (toStatusView r))) (get sampleStore ''r1'') =
      Some [Accepted, Queued, Running, Completed]" by code_simp
  thus ?thesis using r status_view_public [of "sampleHistory ''r1''" "''r1''" id]
    by (simp add: sampleStore_def)
qed

subsection \<open>The reaper\<close>

text \<open>Note. One pass of the in-memory reaper is a single in-place map over the rows by the per-row
  decision, and it returns exactly the rows it made terminal, in store order and each once: the awaited
  transitions inside the loop never interfere with one another.\<close>

theorem reap_is_rowwise:
  assumes "store_ok st"
  shows "reapDeadlines nowMs opts st =
      ([fst (reapRow nowMs opts r). r \<leftarrow> js_values (jobs st), snd (reapRow nowMs opts r)],
       map_rows (\<lambda>r. fst (reapRow nowMs opts r)) st)
    \<and> distinct (map runId (fst (reapDeadlines nowMs opts st)))
    \<and> (\<forall>r'. r' \<in> set (fst (reapDeadlines nowMs opts st)) \<longleftrightarrow>
         (\<exists>r. get st (runId r') = Some r \<and> \<not> isTerminal (status r) \<and> isTerminal (status r')
            \<and> get (snd (reapDeadlines nowMs opts st)) (runId r') = Some r'))"
  using reapDeadlines_eq [OF assms] reaped_distinct [OF assms] reaped_iff [OF assms] by blast

theorem reap_is_rowwise_witness:
  "map runId (fst (reapDeadlines 60 noReapOpts twoStore)) = [''b'', ''a'']
   \<and> distinct (map runId (fst (reapDeadlines 60 noReapOpts twoStore)))"
proof
  show "map runId (fst (reapDeadlines 60 noReapOpts twoStore)) = [''b'', ''a'']" by code_simp
  show "distinct (map runId (fst (reapDeadlines 60 noReapOpts twoStore)))"
    using reap_is_rowwise [OF two_ok(1), of 60 noReapOpts] by blast
qed

text \<open>Claim C12. The Postgres store refines the in-memory store: from states with the same rows, every
  history of transitions, leased claims, renewals, reaper passes, releases, poisonings and event writes
  leaves the same rows in both, and a reaper pass reaps the same set of rows, although Postgres runs six
  bulk statements where the in-memory store decides row by row.\<close>

theorem pg_refines_mem:
  assumes "store_ok st" and "pg_ok pst" and "get st = pg_get pst" and "list_all determined cs"
  shows "get (exec_calls inMemoryOps cs st) = pg_get (exec_calls (pgOps jsonb) cs pst)
    \<and> set (fst (reapDeadlines now ro (exec_calls inMemoryOps cs st))) =
      set (fst (pg_reapDeadlines now ro (exec_calls (pgOps jsonb) cs pst)))"
proof -
  have g: "get (exec_calls inMemoryOps cs st) = pg_get (exec_calls (pgOps jsonb) cs pst)"
    using mem_pg.runs_agree [where cs = cs and jsonb = jsonb and s = st and t = pst] assms by simp
  have "store_ok (exec_calls inMemoryOps cs st)" "pg_ok (exec_calls (pgOps jsonb) cs pst)"
    using assms(1,2) by (simp_all add: mem.runs_inv pg.runs_inv)
  thus ?thesis using mem_pg.reap_agree [where now = now and ro = ro and jsonb = jsonb] g by simp
qed

text \<open>The in-memory store that holds the rows of a Postgres store.\<close>

definition mirror :: "pg_store \<Rightarrow> job_store" where
  "mirror pst = \<lparr>jobs = map (\<lambda>r. (run_id r, rowToJob r)) (backtest_job pst), byKey = [], events = []\<rparr>"

lemma mirror_get: "get (mirror pst) = pg_get pst"
proof
  fix k
  have "map_of (map (\<lambda>r. (run_id r, rowToJob r)) t) k = map_option rowToJob (find (\<lambda>r. run_id r = k) t)" for t
    by (induction t) auto
  thus "get (mirror pst) k = pg_get pst k" by (simp add: get_def js_get_def mirror_def pg_get_def)
qed

lemma mirror_ok: "pg_ok pst \<Longrightarrow> store_ok (mirror pst)"
  by (auto simp: store_ok_def mirror_def pg_ok_def map_ok_def comp_def)

theorem pg_refines_mem_witness:
  "get (exec_calls inMemoryOps [Call_claim 5 (Some \<lparr>l_workerId = ''w'', l_ttlMs = 5\<rparr>) True, Call_reap 90 noReapOpts]
      (mirror twoPg)) = pg_get (exec_calls (pgOps id)
      [Call_claim 5 (Some \<lparr>l_workerId = ''w'', l_ttlMs = 5\<rparr>) True, Call_reap 90 noReapOpts] twoPg)"
  using pg_refines_mem [OF mirror_ok [OF two_ok(2)] two_ok(2) mirror_get,
      where cs = "[Call_claim 5 (Some \<lparr>l_workerId = ''w'', l_ttlMs = 5\<rparr>) True, Call_reap 90 noReapOpts]"
        and jsonb = id] by simp

text \<open>Note. The two stores disagree on a worker crash before the engine charge when the run was never
  charged: the row inserted by the in-memory store has no charge flag, so the reaper of a coalescing
  service requeues it on the engine-attempts path, while the Postgres row has the column default \<open>false\<close>
  and is requeued on the wait path, which counts \<open>computeWaitAttempts\<close>.\<close>

theorem crash_attribution_differs:
  "(let coOpts = noReapOpts\<lparr>ro_coalesceEnabled := Some True\<rparr>;
        hist = [Call_claim 3 (Some \<lparr>l_workerId = ''w'', l_ttlMs = 5\<rparr>) True, Call_reap 20 coOpts]
    in map_option (\<lambda>r. (status r, computeWaitAttempts r)) (get (exec_calls inMemoryOps hist twoStore) ''a'') = Some (Queued, 0)
     \<and> map_option (\<lambda>r. (status r, computeWaitAttempts r)) (pg_get (exec_calls (pgOps id) hist twoPg) ''a'') = Some (Queued, 1))"
  by code_simp

subsection \<open>Crashing workers\<close>

text \<open>A history in which nobody finishes run \<open>k\<close>: workers claim under a lease and renew it or not, reaper passes
  with the attempts cap \<open>cap\<close> come at any time, and whatever other calls are made, no transition is aimed at \<open>k\<close>
  itself and its run id is not inserted again.  The service does not coalesce.\<close>

fun unfinished_call :: "string \<Rightarrow> nat \<Rightarrow> store_call \<Rightarrow> bool" where
  "unfinished_call k cap (Call_claim now ls co) = (ls \<noteq> None \<and> \<not> co)"
| "unfinished_call k cap (Call_reap now ro) =
     (\<not> orElse (ro_coalesceEnabled ro) False \<and> orElse (ro_leaseMaxAttempts ro) 3 = cap)"
| "unfinished_call k cap (Call_transition rid from to p e) = (rid \<noteq> k)"
| "unfinished_call k cap (Call_insert j) = (nj_runId j \<noteq> k)"
| "unfinished_call k cap _ = True"

text \<open>How often a history hands run \<open>k\<close> to a worker.\<close>

fun claims_of :: "'s job_store_ops \<Rightarrow> string \<Rightarrow> store_call list \<Rightarrow> 's \<Rightarrow> nat" where
  "claims_of ops k [] st = 0"
| "claims_of ops k (c # cs) st =
     (case c of Call_claim now ls co \<Rightarrow>
        if map_option runId (fst (op_claimNextQueued ops now ls co st)) = Some k then 1 else 0 | _ \<Rightarrow> 0)
     + claims_of ops k cs (exec_call ops c st)"

text \<open>The row of a run that was queued with \<open>a\<close> attempts and has since been claimed \<open>n\<close> times.\<close>

definition crash_row :: "nat \<Rightarrow> nat \<Rightarrow> nat \<Rightarrow> job_row \<Rightarrow> bool" where
  "crash_row cap a n q \<longleftrightarrow> attempts q = a + n \<and>
     (case status q of
        Queued \<Rightarrow> attempts q < cap
      | Running \<Rightarrow> attempts q \<le> cap \<and> leasedBy q \<noteq> None \<and> leaseExpiresAt q \<noteq> None
      | Failed \<Rightarrow> attempts q = cap \<and> terminalCode q = Some ''lease_expired''
      | Expired \<Rightarrow> attempts q < cap \<and> terminalCode q = Some ''queue_deadline_exceeded'' \<and> queueDeadlineMs q \<noteq> None
      | Timed_out \<Rightarrow> attempts q \<le> cap \<and> terminalCode q = Some ''run_deadline_exceeded''
      | _ \<Rightarrow> False)"

lemma crash_row_claimed:
  "crash_row cap a n q \<Longrightarrow> status q = Queued \<Longrightarrow> ls \<noteq> None \<Longrightarrow> crash_row cap a (Suc n) (claimedRow now ls False q)"
  by (auto simp: crash_row_def claimedRow_fields)

lemma crash_row_renewed: "crash_row cap a n q \<Longrightarrow> crash_row cap a n (renewedRow w t q)"
  by (auto simp: crash_row_def renewedRow_def)

text \<open>A reaper pass on such a row, whatever the time.\<close>

lemma reap_plain:
  assumes "\<not> orElse (ro_coalesceEnabled ro) False" "orElse (ro_leaseMaxAttempts ro) 3 = cap"
  shows "status q = Queued \<Longrightarrow> past (queueDeadlineMs q) now \<Longrightarrow>
      fst (reapRow now ro q) = applyPatch Expired (terminalPatch now ''queue_deadline_exceeded'') q"
    and "status q = Queued \<Longrightarrow> \<not> past (queueDeadlineMs q) now \<Longrightarrow> fst (reapRow now ro q) = q"
    and "status q = Running \<Longrightarrow> past (leaseExpiresAt q) now \<Longrightarrow> cap \<le> attempts q \<Longrightarrow>
      fst (reapRow now ro q) = applyPatch Failed (terminalPatch now ''lease_expired'') q"
    and "status q = Running \<Longrightarrow> past (leaseExpiresAt q) now \<Longrightarrow> attempts q < cap \<Longrightarrow>
      fst (reapRow now ro q) = clearLease (applyPatch Queued ((patch_at now)\<lparr>p_queuedAtMs := Some now\<rparr>) q)"
    and "status q = Running \<Longrightarrow> \<not> past (leaseExpiresAt q) now \<Longrightarrow> past (runDeadlineMs q) now \<Longrightarrow>
      fst (reapRow now ro q) = applyPatch Timed_out (terminalPatch now ''run_deadline_exceeded'') q"
    and "status q = Running \<Longrightarrow> \<not> past (leaseExpiresAt q) now \<Longrightarrow> \<not> past (runDeadlineMs q) now \<Longrightarrow>
      fst (reapRow now ro q) = q"
  using assms by (simp_all add: reapRow_def Let_def)

lemma reap_terminal: "isTerminal (status q) \<Longrightarrow> fst (reapRow now ro q) = q"
  by (cases "status q") (simp_all add: reapRow_def Let_def)

lemma crash_row_reaped:
  assumes "\<not> orElse (ro_coalesceEnabled ro) False" "orElse (ro_leaseMaxAttempts ro) 3 = cap" "crash_row cap a n q"
  shows "crash_row cap a n (fst (reapRow now ro q))"
proof -
  note r = reap_plain [OF assms(1,2)]
  have w: "attempts (applyPatch to (terminalPatch now c) q) = attempts q"
    "terminalCode (applyPatch to (terminalPatch now c) q) = Some c"
    "attempts (clearLease (applyPatch to ((patch_at now)\<lparr>p_queuedAtMs := Some now\<rparr>) q)) = attempts q"
    "status (clearLease (applyPatch to ((patch_at now)\<lparr>p_queuedAtMs := Some now\<rparr>) q)) = to" for to c
    by (simp_all add: applyPatch_def terminalPatch_def patch_at_def clearLease_def)
  consider "status q = Queued" | "status q = Running" | "isTerminal (status q)"
    using assms(3) by (cases "status q") (auto simp: crash_row_def)
  thus ?thesis
  proof cases
    case 1
    show ?thesis
    proof (cases "past (queueDeadlineMs q) now")
      case True
      hence "queueDeadlineMs q \<noteq> None" by (auto simp: past_def split: option.splits)
      thus ?thesis using assms(3) 1 w unfolding r(1) [OF 1 True] by (simp add: crash_row_def)
    next
      case False
      thus ?thesis using assms(3) r(2) [OF 1] by simp
    qed
  next
    case 2
    have le: "attempts q \<le> cap" using assms(3) 2 by (simp add: crash_row_def)
    show ?thesis
    proof (cases "past (leaseExpiresAt q) now")
      case True
      thus ?thesis using assms(3) 2 w le r(3,4) [OF 2 True] by (cases "attempts q < cap") (auto simp: crash_row_def)
    next
      case False
      thus ?thesis using assms(3) 2 w le r(5,6) [OF 2 False]
        by (cases "past (runDeadlineMs q) now") (auto simp: crash_row_def)
    qed
  next
    case 3
    thus ?thesis using assms(3) reap_terminal by simp
  qed
qed

context job_store_contract
begin

lemma unfinished_step:
  assumes "inv st" "unfinished_call k cap c" "op_get ops st k = Some q" "crash_row cap a n q"
  shows "\<exists>q'. op_get ops (exec_call ops c st) k = Some q' \<and> crash_row cap a (n + claims_of ops k [c] st) q'"
proof -
  have nw: "\<not> isWaiter ci q" "status q \<noteq> Waiting_for_compute" for ci
    using assms(4) by (auto simp: crash_row_def isWaiter_def)
  show ?thesis
  proof (cases c)
    case (Call_insert j)
    show ?thesis
    proof (rule insert_cases [OF assms(1), where j = j], goal_cases error replay created)
      case (created r st')
      thus ?case using insert_created [OF assms(1) created] assms by (simp add: Call_insert)
    qed (use assms Call_insert in simp_all)
  next
    case (Call_claim now ls co)
    hence co: "ls \<noteq> None" "\<not> co" using assms(2) by simp_all
    show ?thesis
    proof (cases "fst (op_claimNextQueued ops now ls co st)")
      case None
      thus ?thesis using claim_none [OF assms(1) None] assms(3,4) by (simp add: Call_claim)
    next
      case (Some r')
      obtain r where r: "op_get ops st (runId r) = Some r" "status r = Queued" "row_evolves r r'" "r' = claimedRow now ls co r"
        "op_get ops (snd (op_claimNextQueued ops now ls co st)) = (op_get ops st)(runId r \<mapsto> r')"
        using claim_some [OF assms(1) Some] co by blast
      have id: "runId r' = runId r" by (rule row_evolves_runId [OF r(3)])
      show ?thesis
      proof (cases "runId r = k")
        case True
        hence "r = q" using r(1) assms(3) by simp
        thus ?thesis using r True id Some co crash_row_claimed [OF assms(4), of ls now] by (simp add: Call_claim)
      next
        case False
        thus ?thesis using r id Some assms(3,4) by (simp add: Call_claim)
      qed
    qed
  next
    case (Call_reap now ro)
    thus ?thesis using reap_rows [OF assms(1)] crash_row_reaped [OF _ _ assms(4)] assms(2,3) by simp
  next
    case (Call_elect ci why now)
    show ?thesis
    proof (cases "fst (op_electOneComputeWaiter ops ci why now st)")
      case None
      thus ?thesis using elect_none [OF assms(1) None] assms(3,4) by (simp add: Call_elect)
    next
      case (Some r')
      obtain r where "op_get ops st (runId r) = Some r" "isWaiter ci r"
        "op_get ops (snd (op_electOneComputeWaiter ops ci why now st)) = (op_get ops st)(runId r \<mapsto> r')"
        using elect_some [OF assms(1) Some] by blast
      thus ?thesis using assms(3,4) nw(1) by (auto simp: Call_elect)
    qed
  next
    case (Call_release ci why now)
    have "releaseRow ci why now q = q" using nw by (simp add: releaseRow_def isWaiter_def)
    thus ?thesis using release_rows [OF assms(1)] assms(3,4) by (simp add: Call_release)
  next
    case (Call_poison rid now)
    thus ?thesis using poison_rows [OF assms(1)] nw(2) assms(3,4) by (auto dest!: cas_okD)
  next
    case (Call_renew w t)
    thus ?thesis using renew_rows [OF assms(1)] crash_row_renewed [OF assms(4)] assms(3) by simp
  qed (use assms transition_rows append_rows mark_rows in auto)
qed

lemma unfinished_run:
  assumes "inv st" "list_all (unfinished_call k cap) cs" "op_get ops st k = Some q" "crash_row cap a n q"
  shows "\<exists>q'. op_get ops (exec_calls ops cs st) k = Some q' \<and> crash_row cap a (n + claims_of ops k cs st) q'"
  using assms
proof (induction cs arbitrary: st q n)
  case (Cons c cs)
  obtain q' where q': "op_get ops (exec_call ops c st) k = Some q'" "crash_row cap a (n + claims_of ops k [c] st) q'"
    using unfinished_step [OF Cons.prems(1) _ Cons.prems(3,4), of c] Cons.prems(2) by auto
  have "n + claims_of ops k (c # cs) st = n + claims_of ops k [c] st + claims_of ops k cs (exec_call ops c st)" by simp
  thus ?case using Cons.IH [OF exec_inv [OF Cons.prems(1)] _ q'] Cons.prems(2) by (simp add: add.assoc)
qed simp

end

text \<open>What the store of a run that keeps crashing shows after a history with \<open>n\<close> claims of it, and what one more
  reaper pass, at any time, makes of it.\<close>

definition crash_bounded :: "'s job_store_ops \<Rightarrow> string \<Rightarrow> nat \<Rightarrow> nat \<Rightarrow> store_call list \<Rightarrow> 's \<Rightarrow> bool" where
  "crash_bounded ops k cap a cs st \<longleftrightarrow> a + claims_of ops k cs st \<le> cap \<and>
     (\<exists>q. op_get ops (exec_calls ops cs st) k = Some q \<and> crash_row cap a (claims_of ops k cs st) q \<and>
       (\<forall>now ro. unfinished_call k cap (Call_reap now ro) \<longrightarrow>
         (\<exists>q'. op_get ops (exec_calls ops (cs @ [Call_reap now ro]) st) k = Some q' \<and> attempts q' = attempts q \<and>
            (status q = Running \<and> past (leaseExpiresAt q) now \<longrightarrow>
               (if a + claims_of ops k cs st = cap then status q' = Failed \<and> terminalCode q' = Some ''lease_expired''
                else status q' = Queued \<and> leasedBy q' = None)) \<and>
            (status q = Queued \<longrightarrow> (if past (queueDeadlineMs q) now then status q' = Expired else q' = q)) \<and>
            (isTerminal (status q) \<longrightarrow> q' = q))))"

lemma exec_calls_append: "exec_calls ops (cs @ ds) st = exec_calls ops ds (exec_calls ops cs st)"
  by (simp add: exec_calls_def)

lemma crash_row_le: "crash_row cap a n q \<Longrightarrow> a + n \<le> cap"
  by (auto simp: crash_row_def split: job_status.splits)

context job_store_contract
begin

lemma crash_loop:
  assumes "inv st" "list_all (unfinished_call k cap) cs" "op_get ops st k = Some r" "status r = Queued" "attempts r < cap"
  shows "crash_bounded ops k cap (attempts r) cs st"
proof -
  let ?n = "claims_of ops k cs st"
  have "crash_row cap (attempts r) 0 r" using assms(4,5) by (simp add: crash_row_def)
  from unfinished_run [OF assms(1-3) this] obtain q where q: "op_get ops (exec_calls ops cs st) k = Some q"
    "crash_row cap (attempts r) ?n q" by auto
  have n: "attempts q = attempts r + ?n" using q(2) by (simp add: crash_row_def)
  have step: "\<exists>q'. op_get ops (exec_calls ops (cs @ [Call_reap now ro]) st) k = Some q' \<and> attempts q' = attempts q \<and>
            (status q = Running \<and> past (leaseExpiresAt q) now \<longrightarrow>
               (if attempts r + ?n = cap then status q' = Failed \<and> terminalCode q' = Some ''lease_expired''
                else status q' = Queued \<and> leasedBy q' = None)) \<and>
            (status q = Queued \<longrightarrow> (if past (queueDeadlineMs q) now then status q' = Expired else q' = q)) \<and>
            (isTerminal (status q) \<longrightarrow> q' = q)"
    if "unfinished_call k cap (Call_reap now ro)" for now ro
  proof (intro exI conjI)
    have ro: "\<not> orElse (ro_coalesceEnabled ro) False" "orElse (ro_leaseMaxAttempts ro) 3 = cap" using that by simp_all
    let ?q = "fst (reapRow now ro q)"
    note rp = reap_plain [OF ro, of q now]
    show "op_get ops (exec_calls ops (cs @ [Call_reap now ro]) st) k = Some ?q"
      using reap_rows [OF runs_inv [OF assms(1)]] q(1) by (simp add: exec_calls_append)
    show "attempts ?q = attempts q" using crash_row_reaped [OF ro q(2)] n by (simp add: crash_row_def)
    show "status q = Running \<and> past (leaseExpiresAt q) now \<longrightarrow>
        (if attempts r + ?n = cap then status ?q = Failed \<and> terminalCode ?q = Some ''lease_expired''
         else status ?q = Queued \<and> leasedBy ?q = None)"
    proof (intro impI)
      assume a: "status q = Running \<and> past (leaseExpiresAt q) now"
      hence "attempts q \<le> cap" using q(2) by (simp add: crash_row_def)
      thus "if attempts r + ?n = cap then status ?q = Failed \<and> terminalCode ?q = Some ''lease_expired''
         else status ?q = Queued \<and> leasedBy ?q = None"
        using rp(3,4) a n by (simp add: clearLease_def applyPatch_def terminalPatch_def patch_at_def)
    qed
    show "status q = Queued \<longrightarrow> (if past (queueDeadlineMs q) now then status ?q = Expired else ?q = q)"
      using rp(1,2) by simp
    show "isTerminal (status q) \<longrightarrow> ?q = q" using reap_terminal by simp
  qed
  show ?thesis unfolding crash_bounded_def using crash_row_le [OF q(2)] q step by blast
qed

end

text \<open>Claim C15. Without coalescing a crash loop is bounded.  Take a queued run with fewer attempts than the cap, and any
  history of store calls in which no one finishes it: leased claims, renewals, reaper passes with that cap at
  any times, and calls about other runs.  It is claimed at most as often as attempts are left, each claim
  counts one attempt, and at every moment it is queued with attempts left, running, or has ended as failed with
  \<open>lease_expired\<close> after exactly the cap, as expired past its queue deadline, or as timed out past its run
  deadline.  A reaper pass that finds its lease expired fails it when the attempts have reached the cap and
  requeues it when they have not; one that finds it queued past its queue deadline expires it.  Both stores.\<close>

theorem crash_loop_bounded:
  assumes "list_all (unfinished_call k cap) cs" "status r = Queued" "attempts r < cap"
    and "store_ok st" "get st k = Some r" "pg_ok pst" "pg_get pst k = Some r"
  shows "crash_bounded inMemoryOps k cap (attempts r) cs st \<and> crash_bounded (pgOps jsonb) k cap (attempts r) cs pst"
  using mem.crash_loop [where st = st and k = k and r = r] pg.crash_loop [where st = pst and k = k and r = r] assms by simp

text \<open>Three crashes: run \<open>a\<close> is claimed and its lease runs out three times, with another run claimed in between and
  reaper passes on the requeued row.\<close>

definition threeCrashes :: "store_call list" where
  "threeCrashes = (let lease = (\<lambda>t. Some \<lparr>l_workerId = ''w'', l_ttlMs = t\<rparr>) in
     [Call_claim 3 (lease 5) False, Call_claim 4 (lease 100) False, Call_reap 9 noReapOpts, Call_reap 10 noReapOpts,
      Call_claim 11 (lease 5) False, Call_reap 17 noReapOpts, Call_claim 21 (lease 5) False])"

theorem crash_loop_bounded_witness:
  "map_option status (get (exec_calls inMemoryOps threeCrashes (mirror twoPg)) ''a'') = Some Running
   \<and> map_option status (pg_get (exec_calls (pgOps id) (threeCrashes @ [Call_reap 27 noReapOpts]) twoPg) ''a'') = Some Failed"
proof -
  have c: "list_all (unfinished_call ''a'' 3) threeCrashes" by code_simp
  have "map_option (\<lambda>r. (status r, attempts r)) (pg_get twoPg ''a'') = Some (Queued, 0)" by code_simp
  then obtain r where r: "pg_get twoPg ''a'' = Some r" "status r = Queued" "attempts r = 0"
    by (cases "pg_get twoPg ''a''") auto
  have m: "get (mirror twoPg) ''a'' = Some r" using r(1) by (simp add: mirror_get)
  have run: "map_option status (get (exec_calls inMemoryOps threeCrashes (mirror twoPg)) ''a'') = Some Running"
    by code_simp
  have pr: "map_option (\<lambda>q. (status q, leaseExpiresAt q)) (pg_get (exec_calls (pgOps id) threeCrashes twoPg) ''a'') =
      Some (Running, Some 26)" and n: "claims_of (pgOps id) ''a'' threeCrashes twoPg = 3"
    by code_simp+
  have "crash_bounded (pgOps id) ''a'' 3 0 threeCrashes twoPg"
    using crash_loop_bounded [OF c r(2) _ mirror_ok [OF two_ok(2)] m two_ok(2) r(1), of id] r(3) by simp
  moreover have "unfinished_call ''a'' 3 (Call_reap 27 noReapOpts)" by (simp add: noReapOpts_def)
  ultimately obtain q q' where q: "pg_get (exec_calls (pgOps id) threeCrashes twoPg) ''a'' = Some q"
      "pg_get (exec_calls (pgOps id) (threeCrashes @ [Call_reap 27 noReapOpts]) twoPg) ''a'' = Some q'"
      "status q = Running \<and> past (leaseExpiresAt q) 27 \<longrightarrow> status q' = Failed"
    unfolding crash_bounded_def n by fastforce
  hence "status q' = Failed" using pr by (simp add: past_def)
  thus ?thesis using run q(2) by simp
qed

subsection \<open>The queue gauge\<close>

lemma countQueueLoop_some: "countQueueLoop js (d, Some m) =
    (d + length [j \<leftarrow> js. status j = Queued],
     Some (Min (insert m (set (map queueTs [j \<leftarrow> js. status j = Queued])))))"
proof (induction js arbitrary: d m)
  case (Cons j js)
  have "Min (insert m (insert t S)) = Min (insert (if t < m then t else m) S)" if "finite S" for t S
    using that by (cases "S = {}") (auto simp: min_def Min_insert insert_commute not_less)
  thus ?case using Cons by (simp add: Let_def)
qed simp

lemma countQueueLoop_none: "countQueueLoop js (d, None) =
    (d + length [j \<leftarrow> js. status j = Queued],
     (let q = [j \<leftarrow> js. status j = Queued] in if q = [] then None else Some (Min (set (map queueTs q)))))"
  by (induction js arbitrary: d) (simp_all add: countQueueLoop_some Let_def)

text \<open>Note. The queue gauge of both stores is the number of queued rows and the age of the oldest: the
  in-memory loop and the SQL aggregate give the same pair on the same rows.\<close>

theorem queue_gauge_agrees:
  "pg_countQueueStats pst now = countQueueStats (mirror pst) now
   \<and> fst (countQueueStats (mirror pst) now) = length [r \<leftarrow> backtest_job pst. db_status r = Queued]"
proof -
  have q: "queueTs (rowToJob r) = db_queueTs r" for r by (simp add: queueTs_def db_queueTs_def)
  have f: "[j \<leftarrow> js_values (jobs (mirror pst)). status j = Queued] =
      map rowToJob [r \<leftarrow> backtest_job pst. db_status r = Queued]"
    by (simp add: mirror_def js_values_def filter_map comp_def)
  show ?thesis
    by (simp add: countQueueStats_def pg_countQueueStats_def countQueueLoop_none f Let_def q image_image)
qed

end
