(* ===== verification/Completion.thy ===== *)
theory Completion
  imports Store_Runs
begin

text \<open>
  \<open>apps/backtester/src/jobs/completion.ts\<close>: the outbox event of a terminal run, its webhook delivery,
  redelivery, and the reap that publishes.  The functions run in a world: the store, how often the
  clock and the uid generator have been asked, and the webhook posts made so far.  The dependencies
  are the operations of the store and three functions of the call number: the clock, the uid generator
  and whether a post succeeds.
\<close>

record 's world =
  w_store :: 's
  w_clocks :: nat
  w_uids :: nat
  w_posts :: "(string \<times> event_payload) list"

record 's completion_deps =
  d_store :: "'s job_store_ops"
  d_clock :: "nat \<Rightarrow> ms"
  d_uid :: "nat \<Rightarrow> string"
  d_postWebhook :: "nat \<Rightarrow> string \<Rightarrow> event_payload \<Rightarrow> bool"
  d_apiContractVersion :: string

definition clock :: "'s completion_deps \<Rightarrow> 's world \<Rightarrow> ms \<times> 's world" where
  "clock deps w = (d_clock deps (w_clocks w), w\<lparr>w_clocks := w_clocks w + 1\<rparr>)"

definition uid :: "'s completion_deps \<Rightarrow> 's world \<Rightarrow> string \<times> 's world" where
  "uid deps w = (d_uid deps (w_uids w), w\<lparr>w_uids := w_uids w + 1\<rparr>)"

definition on_store :: "('s \<Rightarrow> 's) \<Rightarrow> 's world \<Rightarrow> 's world" where
  "on_store f w = w\<lparr>w_store := f (w_store w)\<rparr>"

fun STATUS_TO_EVENT :: "job_status \<Rightarrow> job_event_type" where
  "STATUS_TO_EVENT Completed = Job_completed"
| "STATUS_TO_EVENT Failed = Job_failed"
| "STATUS_TO_EVENT Canceled = Job_canceled"
| "STATUS_TO_EVENT Expired = Job_expired"
| "STATUS_TO_EVENT Timed_out = Job_timed_out"
| "STATUS_TO_EVENT _ = Job_accepted"

definition synthesizeSummary :: "string \<Rightarrow> job_row \<Rightarrow> run_result_summary" where
  "synthesizeSummary apiVersion job = \<lparr>sm_runId = runId job, sm_status = status job, sm_metrics = [],
     sm_artifactRefs = [],
     sm_evidence = \<lparr>re_seed = effectiveSeed job, re_contractVersion = apiVersion,
       re_moduleVersions = [field (request job) ''moduleRef''], re_datasetRef = datasetRef job,
       re_datasetFingerprint = datasetFingerprint job, re_bundleHash = None, re_admission = None\<rparr>,
     sm_resultHash = None, sm_comparison = None, sm_evidenceRef = None, sm_trialContext = None,
     sm_holdout = None, sm_diagnostics = None, sm_novelty = None, sm_walkForward = None,
     sm_promotion = None\<rparr>"

text \<open>A post is recorded whether or not it succeeds; its outcome is written to the event.\<close>

definition deliver :: "'s completion_deps \<Rightarrow> string \<Rightarrow> string \<Rightarrow> event_payload \<Rightarrow> 's world \<Rightarrow> 's world" where
  "deliver deps eventUid url event w =
     (let ok = d_postWebhook deps (length (w_posts w)) url event;
          w' = w\<lparr>w_posts := w_posts w @ [(url, event)]\<rparr>
      in on_store (op_markDelivered (d_store deps) eventUid ok) w')"

definition completionEvent :: "'s completion_deps \<Rightarrow> job_row \<Rightarrow> ms \<Rightarrow> completion_event" where
  "completionEvent deps job emittedAtMs = \<lparr>ce_eventType = STATUS_TO_EVENT (status job),
     ce_jobId = jobId job, ce_runId = runId job, ce_status = status job,
     ce_correlationId = correlationId job, ce_workflowId = workflowId job,
     ce_summary = orElse (resultSummary job) (synthesizeSummary (d_apiContractVersion deps) job),
     ce_emittedAtMs = emittedAtMs\<rparr>"

definition outboxRow :: "job_row \<Rightarrow> string \<Rightarrow> completion_event \<Rightarrow> job_event_row" where
  "outboxRow job eventUid event = \<lparr>ev_eventUid = eventUid, ev_jobId = jobId job, ev_runId = runId job,
     ev_eventType = ce_eventType event, ev_payload = Completion_payload event,
     ev_createdAtMs = ce_emittedAtMs event,
     ev_deliveryState = (if truthy (callbackUrl job) then Some Pending else None),
     ev_deliveryAttempts = Some 0\<rparr>"

definition publishCompletion :: "'s completion_deps \<Rightarrow> job_row \<Rightarrow> 's world \<Rightarrow> 's world" where
  "publishCompletion deps job w =
     (if \<not> isTerminal (status job) then w
      else let (emittedAtMs, w1) = clock deps w;
               event = completionEvent deps job emittedAtMs;
               (eventUid, w2) = uid deps w1;
               w3 = on_store (op_appendEvent (d_store deps) (outboxRow job eventUid event)) w2
           in if truthy (callbackUrl job)
              then deliver deps eventUid (the (callbackUrl job)) (Completion_payload event) w3
              else w3)"

definition reapAndPublish :: "'s completion_deps \<Rightarrow> reap_opts \<Rightarrow> 's world \<Rightarrow> job_row list \<times> 's world" where
  "reapAndPublish deps opts w =
     (let (now, w1) = clock deps w;
          (reaped, st) = op_reapDeadlines (d_store deps) now opts (w_store w1)
      in (reaped, fold (publishCompletion deps) reaped (w1\<lparr>w_store := st\<rparr>)))"

fun deliverLoop :: "'s completion_deps \<Rightarrow> job_event_row list \<Rightarrow> nat \<times> 's world \<Rightarrow> nat \<times> 's world" where
  "deliverLoop deps [] acc = acc"
| "deliverLoop deps (ev # evs) (n, w) =
     (case op_get (d_store deps) (w_store w) (ev_runId ev) of
        Some job \<Rightarrow>
          if truthy (callbackUrl job)
          then deliverLoop deps evs
                 (n + 1, deliver deps (ev_eventUid ev) (the (callbackUrl job)) (ev_payload ev) w)
          else deliverLoop deps evs
                 (n, on_store (op_markDelivered (d_store deps) (ev_eventUid ev) True) w)
      | None \<Rightarrow> deliverLoop deps evs
                 (n, on_store (op_markDelivered (d_store deps) (ev_eventUid ev) True) w))"

definition deliverOutbox :: "'s completion_deps \<Rightarrow> nat \<Rightarrow> 's world \<Rightarrow> nat \<times> 's world" where
  "deliverOutbox deps limit w = deliverLoop deps (op_listDeliverable (d_store deps) (w_store w) limit) (0, w)"

end
