(* ===== verification/Completion_Facts.thy ===== *)
theory Completion_Facts
  imports Completion
begin

text \<open>
  What publishing does to a store that meets the contract: the rows are untouched, exactly one event is
  added per published terminal row, deliveries only change the delivery state of the event they are
  about.  All lemmas are proved in the contract locale, so they hold of both stores.
\<close>

text \<open>The uids of the events are those the generator has given out, and all different.\<close>

definition uids_ok :: "'s completion_deps \<Rightarrow> job_event_row list \<Rightarrow> nat \<Rightarrow> bool" where
  "uids_ok deps es n = (distinct (map ev_eventUid es) \<and> ev_eventUid ` set es \<subseteq> d_uid deps ` {..<n})"

definition ev_tag :: "job_event_row \<Rightarrow> string \<times> job_event_type" where
  "ev_tag e = (ev_runId e, ev_eventType e)"

definition row_tag :: "job_row \<Rightarrow> string \<times> job_event_type" where
  "row_tag r = (runId r, STATUS_TO_EVENT (status r))"

lemma markEvent_simps [simp]:
  "ev_eventUid (markEvent ok e) = ev_eventUid e" "ev_tag (markEvent ok e) = ev_tag e"
  "ev_runId (markEvent ok e) = ev_runId e" "ev_payload (markEvent ok e) = ev_payload e"
  "ev_eventType (markEvent ok e) = ev_eventType e"
  by (simp_all add: markEvent_def ev_tag_def)

lemma ev_core_uid: "ev_core e = ev_core e' \<Longrightarrow> ev_eventUid e = ev_eventUid e' \<and> ev_tag e = ev_tag e'"
  by (simp add: ev_core_def ev_tag_def)

lemma map_ev_core:
  assumes "map ev_core es = map ev_core es'"
  shows "map ev_eventUid es = map ev_eventUid es'" "map ev_tag es = map ev_tag es'"
    "map ev_runId es = map ev_runId es'"
proof -
  have "map (\<lambda>(u, _). u) (map ev_core es) = map (\<lambda>(u, _). u) (map ev_core es')" using assms by simp
  thus "map ev_eventUid es = map ev_eventUid es'" by (simp add: ev_core_def comp_def)
  have "map (\<lambda>(_, _, r, t, _). (r, t)) (map ev_core es) = map (\<lambda>(_, _, r, t, _). (r, t)) (map ev_core es')"
    using assms by simp
  thus t: "map ev_tag es = map ev_tag es'" by (simp add: ev_core_def ev_tag_def [abs_def] comp_def)
  have "map fst (map ev_tag es) = map fst (map ev_tag es')" using t by simp
  thus "map ev_runId es = map ev_runId es'" by (simp add: ev_tag_def comp_def)
qed

lemma map_mark_fields:
  "map ev_eventUid (map (\<lambda>e. if ev_eventUid e = u then markEvent ok e else e) es) = map ev_eventUid es"
  "map ev_tag (map (\<lambda>e. if ev_eventUid e = u then markEvent ok e else e) es) = map ev_tag es"
  by simp_all

lemma uids_ok_cong: "map ev_eventUid es = map ev_eventUid es' \<Longrightarrow> uids_ok deps es n = uids_ok deps es' n"
proof -
  assume e: "map ev_eventUid es = map ev_eventUid es'"
  have "ev_eventUid ` set es = ev_eventUid ` set es'" using arg_cong [OF e, of set] by simp
  thus ?thesis using e by (simp add: uids_ok_def)
qed

lemma uids_ok_mark:
  "uids_ok deps (map (\<lambda>e. if ev_eventUid e = u then markEvent ok e else e) es) n = uids_ok deps es n"
  by (rule uids_ok_cong) (rule map_mark_fields)

lemma uids_ok_mono: "uids_ok deps es n \<Longrightarrow> n \<le> m \<Longrightarrow> uids_ok deps es m"
  unfolding uids_ok_def by (meson image_mono lessThan_subset_iff subset_trans)

context job_store_contract
begin

text \<open>Appending an event whose uid the generator has just given out.\<close>

lemma append_fresh:
  assumes "inj (d_uid deps)" "uids_ok deps (evs st) n" "ev_eventUid ev = d_uid deps n"
  shows "map ev_core (evs (op_appendEvent ops ev st)) = map ev_core (evs st) @ [ev_core ev]"
    "map ev_tag (evs (op_appendEvent ops ev st)) = map ev_tag (evs st) @ [ev_tag ev]"
    "uids_ok deps (evs (op_appendEvent ops ev st)) (n + 1)"
proof -
  have fresh: "ev_eventUid ev \<notin> ev_eventUid ` set (evs st)"
  proof
    assume "ev_eventUid ev \<in> ev_eventUid ` set (evs st)"
    hence "d_uid deps n \<in> d_uid deps ` {..<n}" using assms(2,3) by (auto simp: uids_ok_def)
    thus False using inj_image_mem_iff [OF assms(1)] by simp
  qed
  show core: "map ev_core (evs (op_appendEvent ops ev st)) = map ev_core (evs st) @ [ev_core ev]"
    by (rule append_evs [OF fresh])
  hence c: "map ev_core (evs (op_appendEvent ops ev st)) = map ev_core (evs st @ [ev])" by simp
  show "map ev_tag (evs (op_appendEvent ops ev st)) = map ev_tag (evs st) @ [ev_tag ev]"
    using map_ev_core(2) [OF c] by simp
  have "uids_ok deps (evs st @ [ev]) (n + 1)"
    using assms fresh by (auto simp: uids_ok_def dest!: subsetD)
  thus "uids_ok deps (evs (op_appendEvent ops ev st)) (n + 1)"
    using uids_ok_cong [OF map_ev_core(1) [OF c]] by blast
qed

lemma deliver_rows: "d_store deps = ops \<Longrightarrow> op_get ops (w_store (deliver deps u url ev w)) = op_get ops (w_store w)"
  by (simp add: deliver_def on_store_def Let_def mark_rows)

lemma deliver_inv: "d_store deps = ops \<Longrightarrow> inv (w_store w) \<Longrightarrow> inv (w_store (deliver deps u url ev w))"
  by (simp add: deliver_def on_store_def Let_def mark_inv)

lemma deliver_evs:
  assumes "d_store deps = ops" "distinct (map ev_eventUid (evs (w_store w)))"
  shows "evs (w_store (deliver deps u url ev w)) =
    map (\<lambda>e. if ev_eventUid e = u then markEvent (d_postWebhook deps (length (w_posts w)) url ev) e else e)
      (evs (w_store w))"
  using assms by (simp add: deliver_def on_store_def Let_def mark_evs)

lemma deliver_counts [simp]: "w_uids (deliver deps u url ev w) = w_uids w"
  "w_clocks (deliver deps u url ev w) = w_clocks w" "w_posts (deliver deps u url ev w) = w_posts w @ [(url, ev)]"
  by (simp_all add: deliver_def on_store_def Let_def)

lemma publish_idle: "\<not> isTerminal (status job) \<Longrightarrow> publishCompletion deps job w = w"
  by (simp add: publishCompletion_def)

lemma publish_facts:
  assumes "d_store deps = ops" "inj (d_uid deps)" "inv (w_store w)"
    "uids_ok deps (evs (w_store w)) (w_uids w)" "isTerminal (status job)"
  shows "op_get ops (w_store (publishCompletion deps job w)) = op_get ops (w_store w)"
    "inv (w_store (publishCompletion deps job w))"
    "map ev_tag (evs (w_store (publishCompletion deps job w))) = map ev_tag (evs (w_store w)) @ [row_tag job]"
    "uids_ok deps (evs (w_store (publishCompletion deps job w))) (w_uids (publishCompletion deps job w))"
proof -
  let ?u = "d_uid deps (w_uids w)" and ?t = "d_clock deps (w_clocks w)"
  define ev where "ev = completionEvent deps job ?t"
  define w3 where "w3 = w\<lparr>w_clocks := w_clocks w + 1, w_uids := w_uids w + 1,
    w_store := op_appendEvent ops (outboxRow job ?u ev) (w_store w)\<rparr>"
  have p: "publishCompletion deps job w = (if truthy (callbackUrl job)
      then deliver deps ?u (the (callbackUrl job)) (Completion_payload ev) w3 else w3)"
    using assms(1,5) by (simp add: publishCompletion_def clock_def uid_def on_store_def w3_def ev_def Let_def)
  have tag: "ev_tag (outboxRow job ?u ev) = row_tag job"
    by (simp add: ev_tag_def outboxRow_def row_tag_def ev_def completionEvent_def)
  have u: "ev_eventUid (outboxRow job ?u ev) = ?u" by (simp add: outboxRow_def)
  note a = append_fresh [OF assms(2,4) u]
  have w3: "op_get ops (w_store w3) = op_get ops (w_store w)" "inv (w_store w3)"
    "map ev_tag (evs (w_store w3)) = map ev_tag (evs (w_store w)) @ [row_tag job]"
    "uids_ok deps (evs (w_store w3)) (w_uids w3)"
    using a tag assms(3) by (simp_all add: w3_def append_rows append_inv)
  have d: "distinct (map ev_eventUid (evs (w_store w3)))" using w3(4) by (simp add: uids_ok_def)
  note e = deliver_evs [OF assms(1) d]
  show "op_get ops (w_store (publishCompletion deps job w)) = op_get ops (w_store w)"
    using w3(1) deliver_rows [OF assms(1)] by (simp add: p)
  show "inv (w_store (publishCompletion deps job w))"
    using w3(2) deliver_inv [OF assms(1)] by (simp add: p)
  show "map ev_tag (evs (w_store (publishCompletion deps job w))) = map ev_tag (evs (w_store w)) @ [row_tag job]"
    using w3(3) by (simp only: p e map_mark_fields split: if_split) simp
  show "uids_ok deps (evs (w_store (publishCompletion deps job w))) (w_uids (publishCompletion deps job w))"
    using w3(4) by (simp only: p e deliver_counts uids_ok_mark split: if_split) simp
qed

lemma publish_all_facts:
  assumes "d_store deps = ops" "inj (d_uid deps)" "inv (w_store w)"
    "uids_ok deps (evs (w_store w)) (w_uids w)" "\<forall>r \<in> set rs. isTerminal (status r)"
  shows "op_get ops (w_store (fold (publishCompletion deps) rs w)) = op_get ops (w_store w)
    \<and> inv (w_store (fold (publishCompletion deps) rs w))
    \<and> map ev_tag (evs (w_store (fold (publishCompletion deps) rs w))) =
        map ev_tag (evs (w_store w)) @ map row_tag rs
    \<and> uids_ok deps (evs (w_store (fold (publishCompletion deps) rs w))) (w_uids (fold (publishCompletion deps) rs w))"
  using assms(3-5)
proof (induction rs arbitrary: w)
  case (Cons r rs)
  note p = publish_facts [OF assms(1,2) Cons.prems(1,2), of r]
  have t: "isTerminal (status r)" "\<forall>r \<in> set rs. isTerminal (status r)" using Cons.prems(3) by simp_all
  show ?case using Cons.IH [OF p(2) [OF t(1)] p(4) [OF t(1)] t(2)] p(1,3) [OF t(1)] by simp
qed simp

lemma reapAndPublish_facts:
  assumes "d_store deps = ops" "inj (d_uid deps)" "inv (w_store w)" "uids_ok deps (evs (w_store w)) (w_uids w)"
  defines "now \<equiv> d_clock deps (w_clocks w)"
  shows "fst (reapAndPublish deps opts w) = fst (op_reapDeadlines ops now opts (w_store w))"
    "op_get ops (w_store (snd (reapAndPublish deps opts w))) k =
       map_option (\<lambda>r. fst (reapRow now opts r)) (op_get ops (w_store w) k)"
    "inv (w_store (snd (reapAndPublish deps opts w)))"
    "map ev_tag (evs (w_store (snd (reapAndPublish deps opts w)))) =
       map ev_tag (evs (w_store w)) @ map row_tag (fst (reapAndPublish deps opts w))"
    "uids_ok deps (evs (w_store (snd (reapAndPublish deps opts w)))) (w_uids (snd (reapAndPublish deps opts w)))"
proof -
  obtain reaped st where r: "op_reapDeadlines ops now opts (w_store w) = (reaped, st)" by fastforce
  define w1 where "w1 = w\<lparr>w_clocks := w_clocks w + 1, w_store := st\<rparr>"
  have p: "reapAndPublish deps opts w = (reaped, fold (publishCompletion deps) reaped w1)"
    using assms(1) r by (simp add: reapAndPublish_def clock_def now_def w1_def)
  have st: "inv (w_store w1)" "evs (w_store w1) = evs (w_store w)" "w_uids w1 = w_uids w"
    "op_get ops (w_store w1) k = map_option (\<lambda>r. fst (reapRow now opts r)) (op_get ops (w_store w) k)"
    using reap_inv [OF assms(3), of now opts] reap_evs [OF assms(3), of now opts]
      reap_rows [OF assms(3), of now opts k] r by (simp_all add: w1_def)
  have t: "\<forall>r \<in> set reaped. isTerminal (status r)"
    using reap_result [OF assms(3), of _ now opts] r by auto
  have u: "uids_ok deps (evs (w_store w1)) (w_uids w1)" using assms(4) st by simp
  note f = publish_all_facts [OF assms(1,2) st(1) u t]
  show "fst (reapAndPublish deps opts w) = fst (op_reapDeadlines ops now opts (w_store w))"
    by (simp add: p r)
  show "op_get ops (w_store (snd (reapAndPublish deps opts w))) k =
       map_option (\<lambda>r. fst (reapRow now opts r)) (op_get ops (w_store w) k)" using f st(4) by (simp add: p)
  show "inv (w_store (snd (reapAndPublish deps opts w)))" using f by (simp add: p)
  show "map ev_tag (evs (w_store (snd (reapAndPublish deps opts w)))) =
       map ev_tag (evs (w_store w)) @ map row_tag (fst (reapAndPublish deps opts w))"
    using f st(2) by (simp add: p)
  show "uids_ok deps (evs (w_store (snd (reapAndPublish deps opts w)))) (w_uids (snd (reapAndPublish deps opts w)))"
    using f by (simp add: p)
qed

end

subsection \<open>Redelivery\<close>

text \<open>Where an event is delivered to, and the outcome of each attempt of a pass that starts when \<open>i\<close> posts
  have been made.\<close>

definition deliveryUrl :: "(string \<Rightarrow> job_row option) \<Rightarrow> job_event_row \<Rightarrow> string option" where
  "deliveryUrl g ev = (case g (ev_runId ev) of None \<Rightarrow> None
     | Some job \<Rightarrow> if truthy (callbackUrl job) then callbackUrl job else None)"

fun outcomes :: "'s completion_deps \<Rightarrow> (string \<Rightarrow> job_row option) \<Rightarrow> job_event_row list \<Rightarrow> nat
    \<Rightarrow> (string \<times> bool) list" where
  "outcomes deps g [] i = []"
| "outcomes deps g (ev # es) i = (case deliveryUrl g ev of
      None \<Rightarrow> (ev_eventUid ev, True) # outcomes deps g es i
    | Some url \<Rightarrow> (ev_eventUid ev, d_postWebhook deps i url (ev_payload ev)) # outcomes deps g es (i + 1))"

definition markOutcome :: "(string \<times> bool) list \<Rightarrow> job_event_row \<Rightarrow> job_event_row" where
  "markOutcome os e = (case map_of os (ev_eventUid e) of None \<Rightarrow> e | Some ok \<Rightarrow> markEvent ok e)"

lemma outcomes_uids: "map fst (outcomes deps g es i) = map ev_eventUid es"
  by (induction es arbitrary: i) (simp_all split: option.splits)

lemma markOutcome_Cons:
  assumes "u \<notin> fst ` set os"
  shows "map (markOutcome ((u, ok) # os)) es =
    map (markOutcome os) (map (\<lambda>e. if ev_eventUid e = u then markEvent ok e else e) es)"
proof -
  have "map_of os u = None" using assms by (simp add: map_of_eq_None_iff)
  thus ?thesis by (auto simp: markOutcome_def)
qed

context job_store_contract
begin

lemma deliverLoop_facts:
  assumes "d_store deps = ops" "distinct (map ev_eventUid (evs (w_store w)))" "distinct (map ev_eventUid es)"
  shows "evs (w_store (snd (deliverLoop deps es (n, w)))) =
      map (markOutcome (outcomes deps (op_get ops (w_store w)) es (length (w_posts w)))) (evs (w_store w))
    \<and> op_get ops (w_store (snd (deliverLoop deps es (n, w)))) = op_get ops (w_store w)
    \<and> fst (deliverLoop deps es (n, w)) = n + length [e \<leftarrow> es. deliveryUrl (op_get ops (w_store w)) e \<noteq> None]
    \<and> w_posts (snd (deliverLoop deps es (n, w))) = w_posts w @
        map (\<lambda>e. (the (deliveryUrl (op_get ops (w_store w)) e), ev_payload e))
          [e \<leftarrow> es. deliveryUrl (op_get ops (w_store w)) e \<noteq> None]"
  using assms(2,3)
proof (induction es arbitrary: n w)
  case Nil
  show ?case by (simp add: markOutcome_def)
next
  case (Cons ev es)
  let ?g = "op_get ops (w_store w)" and ?u = "ev_eventUid ev"
  have fresh: "?u \<notin> fst ` set (outcomes deps g es i)" for g i
    using Cons.prems(2) outcomes_uids [of deps g es i] by (metis distinct.simps(2) list.set_map list.simps(9))
  have d: "distinct (map ev_eventUid (map (\<lambda>e. if ev_eventUid e = ?u then markEvent ok e else e) (evs (w_store w))))" for ok
    using Cons.prems(1) by (simp only: map_mark_fields)
  show ?case
  proof (cases "deliveryUrl ?g ev")
    case None
    define w' where "w' = on_store (op_markDelivered ops ?u True) w"
    have l: "deliverLoop deps (ev # es) (n, w) = deliverLoop deps es (n, w')"
      using None assms(1) by (auto simp: deliveryUrl_def w'_def split: option.splits if_splits)
    have e: "evs (w_store w') = map (\<lambda>e. if ev_eventUid e = ?u then markEvent True e else e) (evs (w_store w))"
      "op_get ops (w_store w') = ?g" "w_posts w' = w_posts w"
      using Cons.prems(1) by (simp_all add: w'_def on_store_def mark_evs mark_rows)
    show ?thesis unfolding l using Cons.IH [of w' n] d [of True] Cons.prems(2) None
      by (simp add: e markOutcome_Cons [OF fresh])
  next
    case (Some url)
    define ok where "ok = d_postWebhook deps (length (w_posts w)) url (ev_payload ev)"
    define w' where "w' = deliver deps ?u url (ev_payload ev) w"
    have l: "deliverLoop deps (ev # es) (n, w) = deliverLoop deps es (n + 1, w')"
      using Some assms(1) by (auto simp: deliveryUrl_def w'_def split: option.splits if_splits)
    have e: "evs (w_store w') = map (\<lambda>e. if ev_eventUid e = ?u then markEvent ok e else e) (evs (w_store w))"
      "op_get ops (w_store w') = ?g" "w_posts w' = w_posts w @ [(url, ev_payload ev)]"
      using deliver_evs [OF assms(1) Cons.prems(1)] deliver_rows [OF assms(1)]
      by (simp_all add: w'_def ok_def)
    show ?thesis unfolding l using Cons.IH [of w' "n + 1"] d [of ok] Cons.prems(2) Some
      by (simp add: e markOutcome_Cons [OF fresh] ok_def)
  qed
qed

end

end
