(* ===== verification/Publication.thy ===== *)
theory Publication
  imports Completion_Facts
begin

text \<open>
  Publication of completions by concurrent actors.  The state is the world and the terminal rows whose
  winner has not published yet (\<open>pending\<close>): a worker, the reaper and the wake step each perform their
  terminal compare-and-set first and publish afterwards, in separate awaits, so the steps of different
  actors interleave.  The invariant says that every terminal run has exactly one completion event,
  written or still owed by one owner, and that no other run has any.
\<close>

definition completion_type :: "job_event_type \<Rightarrow> bool" where
  "completion_type t = (t \<in> {Job_completed, Job_failed, Job_canceled, Job_expired, Job_timed_out})"

lemma completion_type_terminal [simp]: "completion_type (STATUS_TO_EVENT s) = isTerminal s"
  by (cases s) (simp_all add: completion_type_def)

text \<open>Calls that never make a row terminal.\<close>

fun quiet_call :: "store_call \<Rightarrow> bool" where
  "quiet_call (Call_transition _ _ to _ _) = (\<not> isTerminal to)"
| "quiet_call (Call_append _) = False"
| "quiet_call (Call_mark _ _) = False"
| "quiet_call (Call_reap _ _) = False"
| "quiet_call (Call_poison _ _) = False"
| "quiet_call _ = True"

inductive pub_step :: "'s completion_deps \<Rightarrow> 's world \<times> job_row list \<Rightarrow> 's world \<times> job_row list \<Rightarrow> bool"
  for deps where
  quiet: "quiet_call c \<Longrightarrow> fresh_call (d_store deps) c (w_store w) \<Longrightarrow>
    pub_step deps (w, pend) (on_store (exec_call (d_store deps) c) w, pend)"
| finish: "op_transition (d_store deps) rid from to p e (w_store w) = (ok, st) \<Longrightarrow> isTerminal to \<Longrightarrow>
    pub_step deps (w, pend) (w\<lparr>w_store := st\<rparr>,
      if ok then pend @ [the (op_get (d_store deps) st rid)] else pend)"
| reap: "op_reapDeadlines (d_store deps) now opts (w_store w) = (reaped, st) \<Longrightarrow>
    pub_step deps (w, pend) (w\<lparr>w_store := st\<rparr>, pend @ reaped)"
| poison: "op_poisonComputeWaiter (d_store deps) rid now (w_store w) = (res, st) \<Longrightarrow>
    pub_step deps (w, pend) (w\<lparr>w_store := st\<rparr>, case res of None \<Rightarrow> pend | Some r \<Rightarrow> pend @ [r])"
| publish: "pub_step deps (w, pend @ r # pend') (publishCompletion deps r w, pend @ pend')"
| note_event: "\<not> completion_type (ev_eventType ev) \<Longrightarrow> ev_eventUid ev = d_uid deps (w_uids w) \<Longrightarrow>
    pub_step deps (w, pend) (w\<lparr>w_uids := w_uids w + 1, w_store := op_appendEvent (d_store deps) ev (w_store w)\<rparr>, pend)"
| redeliver: "pub_step deps (w, pend) (on_store (op_markDelivered (d_store deps) u ok) w, pend)"
| tick: "w_uids w \<le> n \<Longrightarrow> pub_step deps (w, pend) (w\<lparr>w_uids := n, w_clocks := m\<rparr>, pend)"

text \<open>The completion tags of one run, written and owed.\<close>

definition run_tags :: "string \<Rightarrow> (string \<times> job_event_type) list \<Rightarrow> (string \<times> job_event_type) list" where
  "run_tags rid ts = [t \<leftarrow> ts. fst t = rid \<and> completion_type (snd t)]"

text \<open>What is due for a row: one tag when it is terminal, and one more for every time someone published it who did not
  owe it (\<open>x\<close> times).\<close>

definition owed_tags :: "nat \<Rightarrow> job_row option \<Rightarrow> (string \<times> job_event_type) list" where
  "owed_tags x row = (case row of Some r \<Rightarrow> if isTerminal (status r) then replicate (Suc x) (row_tag r) else [] | None \<Rightarrow> [])"

lemma run_tags_append [simp]: "run_tags rid (xs @ ys) = run_tags rid xs @ run_tags rid ys"
  by (simp add: run_tags_def)

lemma run_tags_Nil [simp]: "run_tags rid [] = []"
  by (simp add: run_tags_def)

lemma run_tags_row: "run_tags rid [row_tag r] = (if runId r = rid \<and> isTerminal (status r) then [row_tag r] else [])"
  by (simp add: run_tags_def row_tag_def)

lemma run_tags_rows:
  assumes "distinct (map runId rs)" "r \<in> set rs" "isTerminal (status r)"
  shows "run_tags (runId r) (map row_tag rs) = [row_tag r]"
  using assms
proof (induction rs)
  case (Cons a rs)
  have none: "run_tags k (map row_tag rs) = []" if "k \<notin> runId ` set rs" for k
    using that by (induction rs) (auto simp: run_tags_def row_tag_def)
  show ?case
  proof (cases "r = a")
    case True
    thus ?thesis using Cons.prems none [of "runId r"] run_tags_append [of "runId r" "[row_tag a]"]
      by (simp add: run_tags_row)
  next
    case False
    hence "r \<in> set rs" "runId r \<noteq> runId a" using Cons.prems by (auto simp: image_iff)
    thus ?thesis using Cons run_tags_append [of "runId r" "[row_tag a]"] by (simp add: run_tags_row)
  qed
qed simp

lemma run_tags_none: "rid \<notin> runId ` set rs \<Longrightarrow> run_tags rid (map row_tag rs) = []"
  by (induction rs) (auto simp: run_tags_def row_tag_def)

context job_store_contract
begin

definition pub_ok :: "(string \<Rightarrow> nat) \<Rightarrow> 's completion_deps \<Rightarrow> 's world \<times> job_row list \<Rightarrow> bool" where
  "pub_ok x deps s = (inv (w_store (fst s)) \<and> uids_ok deps (evs (w_store (fst s))) (w_uids (fst s))
     \<and> (\<forall>r \<in> set (snd s). isTerminal (status r))
     \<and> (\<forall>rid. 0 < x rid \<longrightarrow> (\<exists>r. op_get ops (w_store (fst s)) rid = Some r \<and> isTerminal (status r)))
     \<and> (\<forall>rid. run_tags rid (map ev_tag (evs (w_store (fst s))) @ map row_tag (snd s)) =
           owed_tags (x rid) (op_get ops (w_store (fst s)) rid)))"

text \<open>A store change that adds no event keeps the invariant when the rows newly owed are exactly those it
  made terminal.\<close>

lemma pub_ok_rows:
  assumes "pub_ok x deps (w, pend)" "inv st" "evs st = evs (w_store w)"
    "rows_evolve (op_get ops (w_store w)) (op_get ops st)"
    "\<And>k. op_get ops (w_store w) k = None \<Longrightarrow> owed_tags (x k) (op_get ops st k) = []"
    "distinct (map runId new)"
    "\<And>r'. r' \<in> set new \<longleftrightarrow> (\<exists>r. op_get ops (w_store w) (runId r') = Some r \<and> \<not> isTerminal (status r)
       \<and> isTerminal (status r') \<and> op_get ops st (runId r') = Some r')"
  shows "pub_ok x deps (w\<lparr>w_store := st\<rparr>, pend @ new)"
proof -
  have "run_tags rid (map ev_tag (evs (w_store w)) @ map row_tag pend) @ run_tags rid (map row_tag new) =
      owed_tags (x rid) (op_get ops st rid)" for rid
  proof -
    have old: "run_tags rid (map ev_tag (evs (w_store w)) @ map row_tag pend) =
        owed_tags (x rid) (op_get ops (w_store w) rid)" using assms(1) by (simp add: pub_ok_def)
    have x: "x rid = 0" if "\<not> (\<exists>r. op_get ops (w_store w) rid = Some r \<and> isTerminal (status r))"
      using assms(1) that by (auto simp: pub_ok_def)
    show ?thesis
    proof (cases "op_get ops (w_store w) rid")
      case None
      hence "rid \<notin> runId ` set new" using assms(7) by auto
      thus ?thesis using old None assms(5) by (simp add: run_tags_none owed_tags_def)
    next
      case (Some r)
      then obtain r' where r': "op_get ops st rid = Some r'" "row_evolves r r'"
        using assms(4) by (auto simp: rows_evolve_def)
      have id: "runId r' = rid" using row_ok [OF assms(2) r'(1)] by simp
      show ?thesis
      proof (cases "isTerminal (status r)")
        case True
        hence "r' = r" using row_evolves_terminal [OF r'(2)] by simp
        moreover have "rid \<notin> runId ` set new" using assms(7) Some True by auto
        ultimately show ?thesis using old Some r'(1) by (simp add: run_tags_none)
      next
        case live: False
        show ?thesis
        proof (cases "isTerminal (status r')")
          case True
          hence "r' \<in> set new" using assms(7) Some live r'(1) id by simp
          from run_tags_rows [OF assms(6) this True] show ?thesis
            using old Some live r'(1) True id x by (simp add: owed_tags_def)
        next
          case False
          have "rid \<notin> runId ` set new"
          proof
            assume "rid \<in> runId ` set new"
            then obtain q where "q \<in> set new" "runId q = rid" by blast
            thus False using assms(7) [of q] r'(1) False by auto
          qed
          thus ?thesis using old Some live r'(1) False by (simp add: run_tags_none owed_tags_def)
        qed
      qed
    qed
  qed
  moreover have "\<exists>r. op_get ops st rid = Some r \<and> isTerminal (status r)" if "0 < x rid" for rid
  proof -
    have "\<exists>r. op_get ops (w_store w) rid = Some r \<and> isTerminal (status r)"
      using assms(1) that by (simp add: pub_ok_def)
    then obtain r where r: "op_get ops (w_store w) rid = Some r" "isTerminal (status r)" by blast
    show ?thesis using rows_evolve_terminal [OF assms(4) r] r(2) by blast
  qed
  ultimately show ?thesis using assms(1,2,3,7) by (auto simp: pub_ok_def)
qed

lemma insert_evs: "inv st \<Longrightarrow> evs (snd (op_insertOrGet ops j st)) = evs st"
  by (rule insert_cases [of st j]) (auto dest: insert_created)

text \<open>A quiet call neither makes a row terminal nor adds a terminal row.\<close>

lemma quiet_rows:
  assumes "inv st" "quiet_call c" "op_get ops (exec_call ops c st) k = Some r'" "isTerminal (status r')"
  shows "op_get ops st k = Some r'"
proof (cases c)
  case (Call_insert j)
  show ?thesis
  proof (rule insert_cases [OF assms(1), where j = j], goal_cases error replay created)
    case (created r st')
    thus ?case using insert_created [OF assms(1) created] assms(3,4) Call_insert
      by (auto split: if_splits)
  qed (use assms(3) Call_insert in simp_all)
next
  case (Call_transition rid "from" to p e)
  thus ?thesis using assms by (auto simp: transition_rows split: if_splits)
next
  case (Call_claim now ls co)
  show ?thesis
  proof (cases "fst (op_claimNextQueued ops now ls co st)")
    case None thus ?thesis using claim_none [OF assms(1) None] assms(3) Call_claim by simp
  next
    case (Some q) thus ?thesis using claim_some [OF assms(1) Some] assms(3,4) Call_claim
      by (auto split: if_splits)
  qed
next
  case (Call_renew w t)
  thus ?thesis using assms by (auto simp: renew_rows renewedRow_def split: if_splits)
next
  case (Call_release ci why now)
  thus ?thesis using assms by (auto simp: release_rows releaseRow_def split: if_splits)
next
  case (Call_elect ci why now)
  show ?thesis
  proof (cases "fst (op_electOneComputeWaiter ops ci why now st)")
    case None thus ?thesis using elect_none [OF assms(1) None] assms(3) Call_elect by simp
  next
    case (Some q) thus ?thesis using elect_some [OF assms(1) Some] assms(3,4) Call_elect
      by (auto split: if_splits)
  qed
qed (use assms(2) in simp_all)

lemma quiet_not_terminal:
  "inv st \<Longrightarrow> quiet_call c \<Longrightarrow> op_get ops st k = None \<Longrightarrow> owed_tags n (op_get ops (exec_call ops c st) k) = []"
  using quiet_rows [of st c k] by (auto simp: owed_tags_def split: option.splits)

lemma quiet_new:
  "inv st \<Longrightarrow> quiet_call c \<Longrightarrow> op_get ops st k = Some r \<Longrightarrow> \<not> isTerminal (status r) \<Longrightarrow> isTerminal (status r') \<Longrightarrow>
   op_get ops (exec_call ops c st) k \<noteq> Some r'"
  using quiet_rows [of st c k r'] by auto

text \<open>A compare-and-set into a terminal status owes exactly the row it wrote.\<close>

lemma one_row:
  assumes "inv st0" and g: "op_get ops st = (if cas_ok (op_get ops st0 rid) fr to e
      then (op_get ops st0)(rid \<mapsto> f (the (op_get ops st0 rid))) else op_get ops st0)"
    and ok: "ok = cas_ok (op_get ops st0 rid) fr to e"
    and f: "\<And>r. status (f r) = to \<and> runId (f r) = runId r" and to: "isTerminal to"
  shows "r' \<in> set (if ok then [the (op_get ops st rid)] else []) \<longleftrightarrow>
    (\<exists>r. op_get ops st0 (runId r') = Some r \<and> \<not> isTerminal (status r)
       \<and> isTerminal (status r') \<and> op_get ops st (runId r') = Some r')"
proof (cases ok)
  case True
  then obtain r where r: "op_get ops st0 rid = Some r" "status r = fr" "canTransition fr to"
    using ok cas_okD by blast
  have live: "\<not> isTerminal (status r)" using r(2,3) canTransition_from_terminal by simp
  have id: "runId r = rid" using row_ok [OF assms(1) r(1)] by simp
  have st: "op_get ops st = (op_get ops st0)(rid \<mapsto> f r)" using g ok True r(1) by simp
  show ?thesis
  proof
    assume "r' \<in> set (if ok then [the (op_get ops st rid)] else [])"
    hence "r' = f r" using True st by simp
    thus "\<exists>r. op_get ops st0 (runId r') = Some r \<and> \<not> isTerminal (status r)
       \<and> isTerminal (status r') \<and> op_get ops st (runId r') = Some r'"
      using r(1) live f to id st by simp
  next
    assume "\<exists>r. op_get ops st0 (runId r') = Some r \<and> \<not> isTerminal (status r)
       \<and> isTerminal (status r') \<and> op_get ops st (runId r') = Some r'"
    hence "runId r' = rid \<and> r' = f r" using st by (auto split: if_splits)
    thus "r' \<in> set (if ok then [the (op_get ops st rid)] else [])" using True st by simp
  qed
next
  case False
  thus ?thesis using g ok by auto
qed

lemma pub_ok_step:
  assumes "pub_step deps s s'" "pub_ok x deps s" "d_store deps = ops" "inj (d_uid deps)"
  shows "pub_ok x deps s'"
  using assms(1,2)
proof (induction rule: pub_step.induct)
  case (quiet c w pend)
  have i: "inv (w_store w)" using quiet.prems by (simp add: pub_ok_def)
  have ev: "evs (exec_call ops c (w_store w)) = evs (w_store w)"
    using quiet.hyps(1) i
    by (cases c) (simp_all add: insert_evs transition_evs claim_evs renew_evs release_evs elect_evs)
  have evo: "rows_evolve (op_get ops (w_store w)) (op_get ops (exec_call ops c (w_store w)))"
    using exec_evolves i quiet.hyps(2) assms(3) by simp
  have "pub_ok x deps (w\<lparr>w_store := exec_call ops c (w_store w)\<rparr>, pend @ [])"
    using quiet.prems exec_inv [OF i] ev evo
    by (rule pub_ok_rows) (auto simp: quiet_not_terminal [OF i quiet.hyps(1)] quiet_new [OF i quiet.hyps(1)])
  thus ?case using assms(3) by (simp add: on_store_def)
next
  case (finish rid "from" to p e w ok st pend)
  have i: "inv (w_store w)" using finish.prems by (simp add: pub_ok_def)
  have st: "st = snd (op_transition ops rid from to p e (w_store w))"
    "ok = fst (op_transition ops rid from to p e (w_store w))"
    using finish.hyps(1) assms(3) by simp_all
  let ?new = "if ok then [the (op_get ops st rid)] else []"
  have "pub_ok x deps (w\<lparr>w_store := st\<rparr>, pend @ ?new)"
  proof (rule pub_ok_rows [OF finish.prems])
    show "inv st" "evs st = evs (w_store w)" "rows_evolve (op_get ops (w_store w)) (op_get ops st)"
      using i by (simp_all add: st transition_inv transition_evs transition_evolves)
    show "owed_tags (x k) (op_get ops st k) = []" if "op_get ops (w_store w) k = None" for k
      using that i by (auto simp: st transition_rows owed_tags_def dest: cas_okD)
    show "distinct (map runId ?new)" by simp
    show "r' \<in> set ?new \<longleftrightarrow> (\<exists>r. op_get ops (w_store w) (runId r') = Some r \<and> \<not> isTerminal (status r)
       \<and> isTerminal (status r') \<and> op_get ops st (runId r') = Some r')" for r'
      by (rule one_row [OF i, where rid = rid and fr = "from" and to = to and e = e and f = "applyPatch to p"])
         (simp_all add: st transition_flag transition_rows i finish.hyps(2))
  qed
  thus ?case using assms(3) by (simp split: if_splits)
next
  case (reap now opts w reaped st pend)
  have i: "inv (w_store w)" using reap.prems by (simp add: pub_ok_def)
  have st: "st = snd (op_reapDeadlines ops now opts (w_store w))"
    "reaped = fst (op_reapDeadlines ops now opts (w_store w))"
    using reap.hyps assms(3) by simp_all
  show ?case using assms(3)
    by (intro pub_ok_rows [OF reap.prems])
       (simp_all add: st reap_inv reap_evs reap_evolves reap_distinct reap_result reap_rows i owed_tags_def)
next
  case (poison rid now w res st pend)
  have i: "inv (w_store w)" using poison.prems by (simp add: pub_ok_def)
  have st: "st = snd (op_poisonComputeWaiter ops rid now (w_store w))"
    "res = fst (op_poisonComputeWaiter ops rid now (w_store w))"
    using poison.hyps assms(3) by simp_all
  let ?new = "case res of None \<Rightarrow> [] | Some r \<Rightarrow> [r]"
  have new: "?new = (if cas_ok (op_get ops (w_store w) rid) Waiting_for_compute Failed None
      then [the (op_get ops st rid)] else [])"
    using i by (simp add: st poison_result poison_rows)
  have "pub_ok x deps (w\<lparr>w_store := st\<rparr>, pend @ ?new)"
  proof (rule pub_ok_rows [OF poison.prems])
    show "inv st" "evs st = evs (w_store w)" "rows_evolve (op_get ops (w_store w)) (op_get ops st)"
      using i by (simp_all add: st poison_inv poison_evs poison_evolves)
    show "owed_tags (x k) (op_get ops st k) = []" if "op_get ops (w_store w) k = None" for k
      using that i by (auto simp: st poison_rows owed_tags_def dest: cas_okD)
    show "distinct (map runId ?new)" by (simp split: option.splits)
    show "r' \<in> set ?new \<longleftrightarrow> (\<exists>r. op_get ops (w_store w) (runId r') = Some r \<and> \<not> isTerminal (status r)
       \<and> isTerminal (status r') \<and> op_get ops st (runId r') = Some r')" for r'
      unfolding new
      by (rule one_row [OF i, where rid = rid and fr = Waiting_for_compute and to = Failed and e = None
            and f = "applyPatch Failed (terminalPatch now ''compute_wait_exhausted'')"])
         (simp_all add: st poison_rows i)
  qed
  thus ?case by (cases res) simp_all
next
  case (publish w pend r pend')
  have i: "inv (w_store w)" "uids_ok deps (evs (w_store w)) (w_uids w)" "isTerminal (status r)"
    using publish.prems by (simp_all add: pub_ok_def)
  note f = publish_facts [OF assms(3,4) i]
  have "run_tags rid (map ev_tag (evs (w_store w)) @ [row_tag r] @ map row_tag (pend @ pend')) =
      owed_tags (x rid) (op_get ops (w_store w) rid)" for rid
  proof -
    have old: "run_tags rid (map ev_tag (evs (w_store w))) @ run_tags rid (map row_tag pend)
        @ run_tags rid [row_tag r] @ run_tags rid (map row_tag pend') =
        owed_tags (x rid) (op_get ops (w_store w) rid)"
    proof -
      have "run_tags rid (map ev_tag (evs (w_store w)) @ map row_tag (pend @ [r] @ pend')) =
          owed_tags (x rid) (op_get ops (w_store w) rid)" using publish.prems by (simp add: pub_ok_def)
      thus ?thesis by (simp only: map_append run_tags_append list.map)
    qed
    have swap: "xs @ ys = ys @ xs" if "xs @ ys @ zs = replicate n a" for xs ys zs :: "(string \<times> job_event_type) list" and n a
    proof -
      have "set (xs @ ys @ zs) \<subseteq> {a}" unfolding that by (auto simp: set_replicate_conv_if)
      hence "xs = replicate (length xs) a" "ys = replicate (length ys) a" by (auto intro!: replicate_eqI)
      thus ?thesis by (metis replicate_add add.commute)
    qed
    obtain n a where na: "owed_tags (x rid) (op_get ops (w_store w) rid) = replicate n a"
    proof (cases "\<exists>r. op_get ops (w_store w) rid = Some r \<and> isTerminal (status r)")
      case True
      then obtain q where "op_get ops (w_store w) rid = Some q" "isTerminal (status q)" by blast
      thus thesis using that [of "Suc (x rid)" "row_tag q"] by (simp only: owed_tags_def option.case if_True)
    next
      case False
      thus thesis using that [of 0] by (auto simp: owed_tags_def split: option.splits)
    qed
    have "run_tags rid (map row_tag pend) @ run_tags rid [row_tag r] @ run_tags rid (map row_tag pend')
        = replicate (n - length (run_tags rid (map ev_tag (evs (w_store w))))) a"
      using arg_cong [OF old, of "drop (length (run_tags rid (map ev_tag (evs (w_store w)))))"] na by simp
    from swap [OF this] old show ?thesis by (metis append_assoc map_append run_tags_append)
  qed
  thus ?case using publish.prems f by (simp add: pub_ok_def)
next
  case (note_event ev w pend)
  have i: "inv (w_store w)" "uids_ok deps (evs (w_store w)) (w_uids w)"
    using note_event.prems by (simp_all add: pub_ok_def)
  note a = append_fresh [OF assms(4) i(2) note_event.hyps(2)]
  have "run_tags rid (ev_tag ev # ts) = run_tags rid ts" for rid ts
    using note_event.hyps(1) by (simp add: run_tags_def ev_tag_def)
  thus ?case using note_event.prems a i assms(3) by (simp add: pub_ok_def append_inv append_rows)
next
  case (redeliver w pend u ok)
  have i: "inv (w_store w)" "uids_ok deps (evs (w_store w)) (w_uids w)"
    using redeliver.prems by (simp_all add: pub_ok_def)
  have "evs (op_markDelivered ops u ok (w_store w)) =
      map (\<lambda>e. if ev_eventUid e = u then markEvent ok e else e) (evs (w_store w))"
    using i(2) by (simp add: mark_evs uids_ok_def)
  hence e: "map ev_tag (evs (op_markDelivered ops u ok (w_store w))) = map ev_tag (evs (w_store w))"
    "uids_ok deps (evs (op_markDelivered ops u ok (w_store w))) (w_uids w)"
    using i(2) by (simp_all only: map_mark_fields uids_ok_mark)
  show ?case using redeliver.prems e assms(3) by (simp add: pub_ok_def on_store_def mark_inv mark_rows)
next
  case (tick w n pend m)
  thus ?case by (auto simp: pub_ok_def intro: uids_ok_mono)
qed

end

inductive pub_reachable :: "'s completion_deps \<Rightarrow> 's world \<times> job_row list \<Rightarrow> 's world \<times> job_row list \<Rightarrow> bool"
  for deps s0 where
  start: "pub_reachable deps s0 s0"
| further: "pub_reachable deps s0 s \<Longrightarrow> pub_step deps s s' \<Longrightarrow> pub_reachable deps s0 s'"

context job_store_contract
begin

lemma pub_reachable_ok:
  assumes "pub_reachable deps s0 s" "pub_ok x deps s0" "d_store deps = ops" "inj (d_uid deps)"
  shows "pub_ok x deps s"
  using assms(1,2) by (induction rule: pub_reachable.induct) (auto intro: pub_ok_step [OF _ _ assms(3,4)])

lemma pub_ok_start:
  assumes "inv st" "evs st = []" "\<And>k. op_get ops st k = None"
  shows "pub_ok (\<lambda>_. 0) deps (\<lparr>w_store = st, w_clocks = c, w_uids = u, w_posts = ps\<rparr>, [])"
  using assms by (simp add: pub_ok_def uids_ok_def owed_tags_def)

text \<open>What the invariant says of a run: its completion events, together with the one still owed.\<close>

lemma pub_exactly_once:
  assumes "pub_ok (\<lambda>_. 0) deps (w, pend)"
  shows "case op_get ops (w_store w) rid of
      Some r \<Rightarrow> if isTerminal (status r)
        then (run_tags rid (map ev_tag (evs (w_store w))) = [row_tag r] \<and> rid \<notin> runId ` set pend)
          \<or> (run_tags rid (map ev_tag (evs (w_store w))) = [] \<and> rid \<in> runId ` set pend)
        else run_tags rid (map ev_tag (evs (w_store w))) = []
    | None \<Rightarrow> run_tags rid (map ev_tag (evs (w_store w))) = []"
proof -
  have t: "run_tags rid (map ev_tag (evs (w_store w))) @ run_tags rid (map row_tag pend) =
      owed_tags 0 (op_get ops (w_store w) rid)" and pt: "\<forall>r \<in> set pend. isTerminal (status r)"
    using assms by (simp_all add: pub_ok_def)
  have p: "run_tags rid (map row_tag pend) \<noteq> [] \<longleftrightarrow> rid \<in> runId ` set pend"
    using pt by (auto simp: run_tags_def filter_empty_conv row_tag_def)
  show ?thesis using t p by (auto simp: owed_tags_def append_eq_Cons_conv split: option.splits)
qed

text \<open>And in general: its completion events are all of its final status, and together with those owed there is one
  more of them than publications by someone who did not owe it.\<close>

lemma pub_count:
  assumes "pub_ok x deps (w, pend)"
  shows "case op_get ops (w_store w) rid of
      Some r \<Rightarrow> if isTerminal (status r)
        then \<exists>n. run_tags rid (map ev_tag (evs (w_store w))) = replicate n (row_tag r)
          \<and> n + length [q \<leftarrow> pend. runId q = rid] = Suc (x rid)
        else run_tags rid (map ev_tag (evs (w_store w))) = [] \<and> rid \<notin> runId ` set pend
    | None \<Rightarrow> run_tags rid (map ev_tag (evs (w_store w))) = [] \<and> rid \<notin> runId ` set pend"
proof -
  let ?w = "run_tags rid (map ev_tag (evs (w_store w)))" and ?p = "run_tags rid (map row_tag pend)"
  have t: "?w @ ?p = owed_tags (x rid) (op_get ops (w_store w) rid)" and pt: "\<forall>r \<in> set pend. isTerminal (status r)"
    using assms by (simp_all add: pub_ok_def)
  have l: "length ?p = length [q \<leftarrow> pend. runId q = rid]"
    using pt by (induction pend) (auto simp: run_tags_def row_tag_def)
  have none: "rid \<notin> runId ` set pend" if "?p = []"
    using that l by (auto simp: filter_empty_conv)
  have some: "\<exists>n. ?w = replicate n a \<and> n + length ?p = Suc m" if "?w @ ?p = replicate (Suc m) a" for a m
  proof -
    have "set (?w @ ?p) \<subseteq> {a}" unfolding that by (auto simp: set_replicate_conv_if)
    hence "?w = replicate (length ?w) a" by (auto intro!: replicate_eqI)
    moreover have "length ?w + length ?p = Suc m" using arg_cong [OF that, of length] by simp
    ultimately show ?thesis by blast
  qed
  show ?thesis
  proof (cases "op_get ops (w_store w) rid")
    case None
    thus ?thesis using t none by (simp add: owed_tags_def)
  next
    case (Some r)
    show ?thesis
    proof (cases "isTerminal (status r)")
      case True
      thus ?thesis using Some t some [of "x rid" "row_tag r"] l by (simp only: owed_tags_def option.case if_True)
    next
      case False
      thus ?thesis using Some t none by (simp add: owed_tags_def)
    qed
  qed
qed

end

end
