(* ===== verification/Api.thy ===== *)
theory Api
  imports Completion_Facts
begin

text \<open>
  The run endpoints of \<open>apps/backtester/src/api/server.ts\<close> that read or change jobs: list, status, result,
  artifact manifest and cancel.  A reply is an HTTP status code with a typed body.  The cancel handler
  awaits between its read and its compare-and-set; it is split at that point so that the steps of other
  actors can run in between.
\<close>

datatype api_body =
    Status_view run_status_view
  | Run_list "run_status_view list"
  | Result_summary run_result_summary
  | Manifest artifact_manifest
  | Not_ready job_status "string option" "json list option" string
  | Api_error string string string

datatype reply = Reply nat api_body

record 's server_deps =
  sd_completion :: "'s completion_deps"
  sd_coalesceEnabled :: "bool option"
  sd_computeWaitMaxAttempts :: "nat option"

definition runNotFound :: "string \<Rightarrow> reply" where
  "runNotFound rid = Reply 404 (Api_error ''validation_error'' ''run_not_found'' rid)"

text \<open>The options the polling endpoints reap with.\<close>

definition pollReapOpts :: "'s server_deps \<Rightarrow> reap_opts" where
  "pollReapOpts deps = \<lparr>ro_leaseMaxAttempts = None, ro_coalesceEnabled = sd_coalesceEnabled deps,
     ro_computeWaitMaxAttempts = sd_computeWaitMaxAttempts deps\<rparr>"

definition listRuns :: "'s server_deps \<Rightarrow> list_filter \<Rightarrow> 's world \<Rightarrow> reply \<times> 's world" where
  "listRuns deps q w =
     (Reply 200 (Run_list (map toStatusView (op_list (d_store (sd_completion deps)) (w_store w) q))), w)"

definition runStatus :: "'s server_deps \<Rightarrow> string \<Rightarrow> 's world \<Rightarrow> reply \<times> 's world" where
  "runStatus deps rid w =
     (let w' = snd (reapAndPublish (sd_completion deps) (pollReapOpts deps) w)
      in (case op_get (d_store (sd_completion deps)) (w_store w') rid of
            None \<Rightarrow> runNotFound rid
          | Some job \<Rightarrow> Reply 200 (Status_view (toStatusView job)), w'))"

definition runResult :: "'s server_deps \<Rightarrow> string \<Rightarrow> 's world \<Rightarrow> reply \<times> 's world" where
  "runResult deps rid w =
     (let w' = snd (reapAndPublish (sd_completion deps) (pollReapOpts deps) w)
      in (case op_get (d_store (sd_completion deps)) (w_store w') rid of
            None \<Rightarrow> runNotFound rid
          | Some job \<Rightarrow>
              (case resultSummary job of
                 Some s \<Rightarrow> Reply 200 (Result_summary s)
               | None \<Rightarrow> Reply 409 (Not_ready (publicStatus (status job)) (terminalCode job)
                   (terminalIssues job) (if isTerminal (status job) then ''run produced no result summary''
                                         else ''run not complete''))), w'))"

definition runArtifacts :: "'s server_deps \<Rightarrow> string \<Rightarrow> 's world \<Rightarrow> reply \<times> 's world" where
  "runArtifacts deps rid w =
     (case Option.bind (op_get (d_store (sd_completion deps)) (w_store w) rid) artifactManifest of
        None \<Rightarrow> (Reply 404 (Api_error ''validation_error'' ''manifest_not_found'' rid), w)
      | Some mf \<Rightarrow> (Reply 200 (Manifest mf), w))"

text \<open>The cancel handler after its first read returned \<open>job\<close>.\<close>

definition cancelAfterRead :: "'s server_deps \<Rightarrow> string \<Rightarrow> job_row \<Rightarrow> 's world \<Rightarrow> reply \<times> 's world" where
  "cancelAfterRead deps rid job w =
     (let cd = sd_completion deps;
          w' = (if isTerminal (status job) then w
                else let (now, w1) = clock cd w;
                         st = snd (op_transition (d_store cd) rid (status job) Canceled
                                     (terminalPatch now ''canceled'') None (w_store w1));
                         w2 = w1\<lparr>w_store := st\<rparr>
                     in (case op_get (d_store cd) st rid of
                           None \<Rightarrow> w2
                         | Some canceled \<Rightarrow> publishCompletion cd canceled w2))
      in (case op_get (d_store cd) (w_store w') rid of
            None \<Rightarrow> runNotFound rid
          | Some updated \<Rightarrow> Reply 200 (Status_view (toStatusView updated)), w'))"

definition cancelRun :: "'s server_deps \<Rightarrow> string \<Rightarrow> 's world \<Rightarrow> reply \<times> 's world" where
  "cancelRun deps rid w = (case op_get (d_store (sd_completion deps)) (w_store w) rid of
      None \<Rightarrow> (runNotFound rid, w)
    | Some job \<Rightarrow> cancelAfterRead deps rid job w)"

end
