(* ===== verification/Completion_Properties.thy ===== *)
theory Completion_Properties
  imports Publication Api Job_Store_Properties
begin

text \<open>
  Properties of publication and of the endpoints, for both stores.
\<close>

definition startWorld :: "'s \<Rightarrow> 's world" where
  "startWorld st = \<lparr>w_store = st, w_clocks = 0, w_uids = 0, w_posts = []\<rparr>"

text \<open>Exactly-once publication: a terminal run has one completion event, of the type of its status, or one
  owner that still owes it; every other run has none.\<close>

definition exactly_once :: "(string \<Rightarrow> job_row option) \<Rightarrow> job_event_row list \<Rightarrow> job_row list \<Rightarrow> bool" where
  "exactly_once g es pend = (\<forall>rid. case g rid of
      Some r \<Rightarrow> if isTerminal (status r)
        then (run_tags rid (map ev_tag es) = [row_tag r] \<and> rid \<notin> runId ` set pend)
          \<or> (run_tags rid (map ev_tag es) = [] \<and> rid \<in> runId ` set pend)
        else run_tags rid (map ev_tag es) = []
    | None \<Rightarrow> run_tags rid (map ev_tag es) = [])"

subsection \<open>A concrete service\<close>

definition sampleUid :: "nat \<Rightarrow> string" where
  "sampleUid n = replicate n (CHR ''u'')"

lemma inj_sampleUid: "inj sampleUid"
  by (rule injI) (simp add: sampleUid_def)

definition sampleDeps :: "'s job_store_ops \<Rightarrow> 's completion_deps" where
  "sampleDeps ops = \<lparr>d_store = ops, d_clock = (\<lambda>n. 100 + int n), d_uid = sampleUid,
     d_postWebhook = (\<lambda>n url ev. n \<ge> 1), d_apiContractVersion = ''1''\<rparr>"

lemma sampleDeps_simps [simp]: "d_store (sampleDeps ops) = ops" "d_uid (sampleDeps ops) = sampleUid"
  by (simp_all add: sampleDeps_def)

text \<open>A run is inserted, queued, claimed, completed by its worker, and published.\<close>

definition quietCalls :: "'s job_store_ops \<Rightarrow> 's \<Rightarrow> 's world" where
  "quietCalls ops st = fold (\<lambda>c. on_store (exec_call ops c)) (take 3 (sampleHistory ''r1'')) (startWorld st)"

definition finishedWorld :: "'s job_store_ops \<Rightarrow> 's \<Rightarrow> 's world" where
  "finishedWorld ops st = (let w = quietCalls ops st in w\<lparr>w_store := snd (op_transition ops ''r1'' Running Completed
     (terminalPatch 9 ''ok'') (Some ''w'') (w_store w))\<rparr>)"

definition publishedWorld :: "'s job_store_ops \<Rightarrow> 's \<Rightarrow> 's world" where
  "publishedWorld ops st = publishCompletion (sampleDeps ops) (the (op_get ops (w_store (finishedWorld ops st)) ''r1''))
     (finishedWorld ops st)"

lemma quiet_fold:
  assumes "list_all quiet_call cs" "fresh_calls (d_store deps) cs (w_store w)"
    "pub_reachable deps s0 (w, pend)"
  shows "pub_reachable deps s0 (fold (\<lambda>c. on_store (exec_call (d_store deps) c)) cs w, pend)"
  using assms
proof (induction cs arbitrary: w)
  case (Cons c cs)
  have "pub_reachable deps s0 (on_store (exec_call (d_store deps) c) w, pend)"
    using Cons.prems by (intro pub_reachable.further [OF Cons.prems(3)] pub_step.quiet) simp_all
  thus ?case using Cons by (simp add: on_store_def)
qed simp

lemma published_reachable:
  assumes "fresh_calls ops (take 3 (sampleHistory ''r1'')) st"
    "fst (op_transition ops ''r1'' Running Completed (terminalPatch 9 ''ok'') (Some ''w'') (w_store (quietCalls ops st)))"
  shows "pub_reachable (sampleDeps ops) (startWorld st, []) (publishedWorld ops st, [])"
proof -
  let ?d = "sampleDeps ops" and ?s0 = "(startWorld st, [])"
  have q: "list_all quiet_call (take 3 (sampleHistory ''r1''))" by (simp add: sampleHistory_def)
  have "pub_reachable ?d ?s0 (quietCalls ops st, [])"
    using quiet_fold [OF q _ pub_reachable.start, of ?d "startWorld st" "[]"] assms(1)
    by (simp add: quietCalls_def startWorld_def)
  moreover obtain sta where t: "op_transition ops ''r1'' Running Completed (terminalPatch 9 ''ok'') (Some ''w'')
      (w_store (quietCalls ops st)) = (True, sta)"
    using assms(2) by (metis (full_types) prod.collapse)
  moreover have f: "finishedWorld ops st = (quietCalls ops st)\<lparr>w_store := sta\<rparr>"
    by (simp add: finishedWorld_def Let_def t)
  moreover have "pub_step ?d (quietCalls ops st, []) ((quietCalls ops st)\<lparr>w_store := sta\<rparr>,
      if True then [] @ [the (op_get (d_store ?d) sta ''r1'')] else [])"
    by (rule pub_step.finish, subst sampleDeps_simps, rule t, simp)
  ultimately have "pub_reachable ?d ?s0 (finishedWorld ops st, [the (op_get ops (w_store (finishedWorld ops st)) ''r1'')])"
    by (auto intro: pub_reachable.further)
  thus ?thesis
    by (rule pub_reachable.further)
       (use pub_step.publish [of ?d "finishedWorld ops st" "[]" "the (op_get ops (w_store (finishedWorld ops st)) ''r1'')" "[]"]
        in \<open>simp add: publishedWorld_def\<close>)
qed

subsection \<open>Exactly once\<close>

text \<open>Note. Completions are published exactly once.  Starting from an empty Postgres store, whatever
  workers, reapers, wake passes, submissions, claims and redeliveries interleave, each terminal run has
  exactly one completion event, whose type is that of its final status, or is owed by exactly the actor
  that won its terminal compare-and-set; no run that is not terminal has one.\<close>

theorem pg_published_exactly_once:
  assumes "pub_reachable deps (startWorld emptyPg, []) (w, pend)"
    and "d_store deps = pgOps jsonb" and "inj (d_uid deps)"
  shows "exactly_once (pg_get (w_store w)) (pg_events (w_store w)) pend"
proof -
  have "pg.pub_ok jsonb (\<lambda>_. 0) deps (startWorld emptyPg, [])"
    unfolding startWorld_def by (rule pg.pub_ok_start) (simp, simp_all add: pg_events_def emptyPg_def pg_get_def)
  from pg.pub_exactly_once [OF pg.pub_reachable_ok [OF assms(1) this assms(2,3)]]
  show ?thesis by (simp add: exactly_once_def)
qed

theorem pg_published_exactly_once_witness:
  "exactly_once (pg_get (w_store (publishedWorld (pgOps id) emptyPg))) (pg_events (w_store (publishedWorld (pgOps id) emptyPg))) []
   \<and> length (pg_events (w_store (publishedWorld (pgOps id) emptyPg))) = 1"
proof
  have "fresh_calls (pgOps id) (take 3 (sampleHistory ''r1'')) emptyPg" by code_simp
  moreover have "fst (op_transition (pgOps id) ''r1'' Running Completed (terminalPatch 9 ''ok'') (Some ''w'')
      (w_store (quietCalls (pgOps id) emptyPg)))" by code_simp
  ultimately have r: "pub_reachable (sampleDeps (pgOps id)) (startWorld emptyPg, []) (publishedWorld (pgOps id) emptyPg, [])"
    by (rule published_reachable)
  show "exactly_once (pg_get (w_store (publishedWorld (pgOps id) emptyPg))) (pg_events (w_store (publishedWorld (pgOps id) emptyPg))) []"
    by (rule pg_published_exactly_once [OF r]) (simp_all add: inj_sampleUid)
  show "length (pg_events (w_store (publishedWorld (pgOps id) emptyPg))) = 1" by code_simp
qed

text \<open>Note. The same holds of the in-memory store, along histories whose inserts are fresh.\<close>

theorem mem_published_exactly_once:
  assumes "pub_reachable deps (startWorld emptyStore, []) (w, pend)"
    and "d_store deps = inMemoryOps" and "inj (d_uid deps)"
  shows "exactly_once (get (w_store w)) (events (w_store w)) pend"
proof -
  have "mem.pub_ok (\<lambda>_. 0) deps (startWorld emptyStore, [])"
    unfolding startWorld_def by (rule mem.pub_ok_start) (simp, simp_all add: emptyStore_def get_def)
  from mem.pub_exactly_once [OF mem.pub_reachable_ok [OF assms(1) this assms(2,3)]]
  show ?thesis by (simp add: exactly_once_def)
qed

theorem mem_published_exactly_once_witness:
  "exactly_once (get (w_store (publishedWorld inMemoryOps emptyStore))) (events (w_store (publishedWorld inMemoryOps emptyStore))) []
   \<and> length (events (w_store (publishedWorld inMemoryOps emptyStore))) = 1"
proof
  have "fresh_calls inMemoryOps (take 3 (sampleHistory ''r1'')) emptyStore" by code_simp
  moreover have "fst (op_transition inMemoryOps ''r1'' Running Completed (terminalPatch 9 ''ok'') (Some ''w'')
      (w_store (quietCalls inMemoryOps emptyStore)))" by code_simp
  ultimately have r: "pub_reachable (sampleDeps inMemoryOps) (startWorld emptyStore, []) (publishedWorld inMemoryOps emptyStore, [])"
    by (rule published_reachable)
  show "exactly_once (get (w_store (publishedWorld inMemoryOps emptyStore))) (events (w_store (publishedWorld inMemoryOps emptyStore))) []"
    by (rule mem_published_exactly_once [OF r]) (simp_all add: inj_sampleUid)
  show "length (events (w_store (publishedWorld inMemoryOps emptyStore))) = 1" by code_simp
qed

subsection \<open>Cancellation\<close>

definition sampleServer :: "'s job_store_ops \<Rightarrow> 's server_deps" where
  "sampleServer ops = \<lparr>sd_completion = sampleDeps ops, sd_coalesceEnabled = None, sd_computeWaitMaxAttempts = None\<rparr>"

context job_store_contract
begin

lemma cancel_uninterrupted:
  assumes "d_store (sd_completion deps) = ops" "inj (d_uid (sd_completion deps))" "inv (w_store w)"
    "uids_ok (sd_completion deps) (evs (w_store w)) (w_uids w)"
    "op_get ops (w_store w) rid = Some job" "\<not> isTerminal (status job)"
  shows "\<exists>r. op_get ops (w_store (snd (cancelRun deps rid w))) = (op_get ops (w_store w))(rid \<mapsto> r)
    \<and> status r = Canceled \<and> terminalCode r = Some ''canceled''
    \<and> fst (cancelRun deps rid w) = Reply 200 (Status_view (toStatusView r))
    \<and> map ev_tag (evs (w_store (snd (cancelRun deps rid w)))) =
        map ev_tag (evs (w_store w)) @ [(rid, Job_canceled)]"
proof -
  let ?cd = "sd_completion deps"
  define now where "now = d_clock ?cd (w_clocks w)"
  define r where "r = applyPatch Canceled (terminalPatch now ''canceled'') job"
  define st where "st = snd (op_transition ops rid (status job) Canceled (terminalPatch now ''canceled'') None (w_store w))"
  define w2 where "w2 = w\<lparr>w_clocks := w_clocks w + 1, w_store := st\<rparr>"
  have can: "canTransition (status job) Canceled" using assms(6) by (cases "status job") simp_all
  have g: "op_get ops st = (op_get ops (w_store w))(rid \<mapsto> r)"
    using assms(3,5) can by (simp add: st_def transition_rows r_def)
  have ok: "inv st" "evs st = evs (w_store w)" using assms(3) by (simp_all add: st_def transition_inv transition_evs)
  have id: "runId r = rid" using row_ok [OF assms(3,5)] by (simp add: r_def)
  have s: "status r = Canceled" "terminalCode r = Some ''canceled''"
    by (simp_all add: r_def applyPatch_def terminalPatch_def)
  have c: "cancelRun deps rid w = (case op_get ops (w_store (publishCompletion ?cd r w2)) rid of
      None \<Rightarrow> runNotFound rid | Some u \<Rightarrow> Reply 200 (Status_view (toStatusView u)), publishCompletion ?cd r w2)"
    using assms(1,5,6) g
    by (simp add: cancelRun_def cancelAfterRead_def clock_def Let_def st_def [symmetric] now_def [symmetric] w2_def)
  have u: "inv (w_store w2)" "uids_ok ?cd (evs (w_store w2)) (w_uids w2)" "isTerminal (status r)"
    using assms(4) ok s by (simp_all add: w2_def)
  note f = publish_facts [OF assms(1,2) u]
  have p: "op_get ops (w_store (publishCompletion ?cd r w2)) = (op_get ops (w_store w))(rid \<mapsto> r)"
    using f(1) g by (simp add: w2_def)
  have "map ev_tag (evs (w_store (snd (cancelRun deps rid w)))) = map ev_tag (evs (w_store w)) @ [(rid, Job_canceled)]"
    using f(3) ok(2) s(1) id by (simp add: c w2_def row_tag_def)
  thus ?thesis using p s by (intro exI [of _ r]) (simp add: c)
qed

end

text \<open>Note. Uninterrupted, a cancel of a live run in the Postgres store makes it canceled, touches no other
  row, answers with the canceled view and publishes exactly one \<open>job_canceled\<close> event.\<close>

theorem cancel_publishes_once:
  assumes "d_store (sd_completion deps) = pgOps jsonb" and "inj (d_uid (sd_completion deps))" and "pg_ok (w_store w)"
    and "uids_ok (sd_completion deps) (pg_events (w_store w)) (w_uids w)"
    and "pg_get (w_store w) rid = Some job" and "\<not> isTerminal (status job)"
  shows "\<exists>r. pg_get (w_store (snd (cancelRun deps rid w))) = (pg_get (w_store w))(rid \<mapsto> r)
    \<and> status r = Canceled \<and> terminalCode r = Some ''canceled''
    \<and> fst (cancelRun deps rid w) = Reply 200 (Status_view (toStatusView r))
    \<and> map ev_tag (pg_events (w_store (snd (cancelRun deps rid w)))) =
        map ev_tag (pg_events (w_store w)) @ [(rid, Job_canceled)]"
  using pg.cancel_uninterrupted [OF assms(1)] assms by simp

theorem cancel_publishes_once_witness:
  "\<exists>r. status r = Canceled \<and> fst (cancelRun (sampleServer (pgOps id)) ''a'' (startWorld twoPg)) =
     Reply 200 (Status_view (toStatusView r))"
proof -
  have g: "map_option status (pg_get twoPg ''a'') = Some Queued" by code_simp
  then obtain job where j: "pg_get (w_store (startWorld twoPg)) ''a'' = Some job" "status job = Queued"
    by (cases "pg_get twoPg ''a''") (auto simp: startWorld_def)
  have e: "pg_events twoPg = []" by code_simp
  have "\<exists>r. pg_get (w_store (snd (cancelRun (sampleServer (pgOps id)) ''a'' (startWorld twoPg)))) =
      (pg_get (w_store (startWorld twoPg)))(''a'' \<mapsto> r)
    \<and> status r = Canceled \<and> terminalCode r = Some ''canceled''
    \<and> fst (cancelRun (sampleServer (pgOps id)) ''a'' (startWorld twoPg)) = Reply 200 (Status_view (toStatusView r))
    \<and> map ev_tag (pg_events (w_store (snd (cancelRun (sampleServer (pgOps id)) ''a'' (startWorld twoPg))))) =
        map ev_tag (pg_events (w_store (startWorld twoPg))) @ [(''a'', Job_canceled)]"
    by (rule cancel_publishes_once [OF _ _ _ _ j(1)])
       (use j(2) e two_ok(2) inj_sampleUid in \<open>simp_all add: sampleServer_def startWorld_def uids_ok_def\<close>)
  thus ?thesis by blast
qed

text \<open>Note. The cancel handler ignores the outcome of its compare-and-set: when the run is completed and
  published by its worker between the handler's read and its transition, the transition fails, the handler
  re-reads the completed row and publishes it a second time, so the run has two completion events.\<close>

theorem cancel_race_publishes_twice:
  "(let ops = pgOps id; read = the (op_get ops (w_store (quietCalls ops emptyPg)) ''r1'');
        w = publishedWorld ops emptyPg;
        w' = snd (cancelAfterRead (sampleServer ops) ''r1'' read w)
    in map ev_tag (pg_events (w_store w')) = [(''r1'', Job_completed), (''r1'', Job_completed)])"
  by code_simp

text \<open>Note. A client poll reaps with the default attempts cap instead of the configured one: a run whose
  third worker lost its lease is failed by a status request, although the worker loop, configured for five
  attempts, would requeue it.\<close>

theorem poll_reap_ignores_attempts_cap:
  "(let ops = pgOps id; five = noReapOpts\<lparr>ro_leaseMaxAttempts := Some 5\<rparr>;
        claim = (\<lambda>t. Call_claim t (Some \<lparr>l_workerId = ''w'', l_ttlMs = 5\<rparr>) False);
        w = startWorld (exec_calls ops (take 2 (sampleHistory ''r1'') @
              [claim 3, Call_reap 9 five, claim 13, Call_reap 19 five, claim 23]) emptyPg)
    in map_option (\<lambda>r. (status r, attempts r)) (pg_get (w_store w) ''r1'') = Some (Running, 3)
     \<and> map_option status (pg_get (w_store (snd (runStatus (sampleServer ops) ''r1'' w))) ''r1'') = Some Failed
     \<and> map_option status (pg_get (exec_call ops (Call_reap 100 five) (w_store w)) ''r1'') = Some Queued)"
  by code_simp

subsection \<open>Redelivery\<close>

text \<open>Claim C19. One outbox pass attempts every listed event exactly once and in order, posts nothing else, and
  marks each listed event with the outcome of its own attempt (delivered when there is no callback to
  call): an event that could not be delivered stays deliverable, every event not listed is untouched, and
  no job row changes.  Postgres store.\<close>

theorem outbox_pass_exact:
  assumes "d_store deps = pgOps jsonb" and "distinct (map ev_eventUid (pg_events (w_store w)))"
  shows "let g = pg_get (w_store w); P = pg_listDeliverable (w_store w) limit;
      w' = snd (deliverOutbox deps limit w)
    in pg_events (w_store w') = map (markOutcome (outcomes deps g P (length (w_posts w)))) (pg_events (w_store w))
      \<and> pg_get (w_store w') = g
      \<and> fst (deliverOutbox deps limit w) = length [e \<leftarrow> P. deliveryUrl g e \<noteq> None]
      \<and> w_posts w' = w_posts w @ map (\<lambda>e. (the (deliveryUrl g e), ev_payload e)) [e \<leftarrow> P. deliveryUrl g e \<noteq> None]"
  using pg.deliverLoop_facts [OF assms(1,2) pg_deliverable_distinct [OF assms(2)], of limit 0] assms(1)
  by (simp add: deliverOutbox_def Let_def)

definition callbackWorld :: "pg_store world" where
  "callbackWorld = (let ops = pgOps id; st = exec_calls ops
      (Call_insert ((sampleJob ''r1'' None 1)\<lparr>nj_callbackUrl := Some ''https://x''\<rparr>) # tl (sampleHistory ''r1'')) emptyPg
    in publishCompletion (sampleDeps ops) (the (pg_get st ''r1'')) (startWorld st))"

theorem outbox_pass_exact_witness:
  "map ev_deliveryState (pg_events (w_store callbackWorld)) = [Some Delivery_failed]
   \<and> length (w_posts (snd (deliverOutbox (sampleDeps (pgOps id)) 50 callbackWorld))) = 2
   \<and> map ev_deliveryState (pg_events (w_store (snd (deliverOutbox (sampleDeps (pgOps id)) 50 callbackWorld)))) = [Some Delivered]
   \<and> pg_get (w_store (snd (deliverOutbox (sampleDeps (pgOps id)) 50 callbackWorld))) = pg_get (w_store callbackWorld)"
proof (intro conjI)
  have "map ev_eventUid (pg_events (w_store callbackWorld)) = [[]]" by code_simp
  hence d: "distinct (map ev_eventUid (pg_events (w_store callbackWorld)))" by simp
  show "pg_get (w_store (snd (deliverOutbox (sampleDeps (pgOps id)) 50 callbackWorld))) = pg_get (w_store callbackWorld)"
    using outbox_pass_exact [of "sampleDeps (pgOps id)" id callbackWorld 50] d by (simp add: Let_def)
qed (code_simp+)

end
