(* ===== verification/Js_Text.thy ===== *)
theory Js_Text
  imports Json "HOL-Library.Sublist"
begin

text \<open>
  The string and object primitives of JavaScript that the validation code uses: \<open>split\<close> on a one-character
  separator, \<open>startsWith\<close>, \<open>endsWith\<close>, \<open>includes\<close>, \<open>toLowerCase\<close> on ASCII, decimal and hexadecimal
  reading, \<open>Object.keys\<close> and the \<open>in\<close> operator, which also sees the properties a value inherits from its
  prototype.
\<close>

fun split_on :: "char \<Rightarrow> string \<Rightarrow> string list" where
  "split_on c [] = [[]]"
| "split_on c (x # xs) = (if x = c then [] # split_on c xs
     else (case split_on c xs of [] \<Rightarrow> [[x]] | s # ss \<Rightarrow> (x # s) # ss))"

definition startsWith :: "string \<Rightarrow> string \<Rightarrow> bool" where
  "startsWith s p = prefix p s"

definition endsWith :: "string \<Rightarrow> string \<Rightarrow> bool" where
  "endsWith s p = suffix p s"

definition includesChar :: "string \<Rightarrow> char \<Rightarrow> bool" where
  "includesChar s c = list_ex (\<lambda>x. x = c) s"

definition lowerChar :: "char \<Rightarrow> char" where
  "lowerChar c = (let n = of_char c :: nat in if 65 \<le> n \<and> n \<le> 90 then char_of (n + 32) else c)"

definition toLowerCase :: "string \<Rightarrow> string" where
  "toLowerCase s = map lowerChar s"

definition isDigit :: "char \<Rightarrow> bool" where
  "isDigit c = (let n = of_char c :: nat in 48 \<le> n \<and> n \<le> 57)"

definition hexVal :: "char \<Rightarrow> nat option" where
  "hexVal c = (let n = of_char c :: nat in
     if 48 \<le> n \<and> n \<le> 57 then Some (n - 48)
     else if 97 \<le> n \<and> n \<le> 102 then Some (n - 87)
     else if 65 \<le> n \<and> n \<le> 70 then Some (n - 55) else None)"

definition decVal :: "string \<Rightarrow> nat" where
  "decVal s = foldl (\<lambda>n c. n * 10 + (of_char c - 48)) 0 s"

text \<open>\<open>parseInt(s, 16)\<close> on a string without sign, leading blank or \<open>0x\<close>: the value of the longest hexadecimal
  prefix, \<open>NaN\<close> (no value) when it is empty.\<close>

definition parseHex :: "string \<Rightarrow> nat option" where
  "parseHex s = (let ds = takeWhile (\<lambda>c. hexVal c \<noteq> None) s in
     if ds = [] then None else Some (foldl (\<lambda>n c. n * 16 + the (hexVal c)) 0 ds))"

definition joinWith :: "string \<Rightarrow> string list \<Rightarrow> string" where
  "joinWith sep ss = (case ss of [] \<Rightarrow> [] | s # rest \<Rightarrow> s @ concat (map (\<lambda>t. sep @ t) rest))"

fun showDec :: "nat \<Rightarrow> string" where
  "showDec n = (if n < 10 then [char_of (48 + n)] else showDec (n div 10) @ [char_of (48 + n mod 10)])"

declare showDec.simps [simp del]

subsection \<open>Objects\<close>

definition is_object :: "json \<Rightarrow> bool" where
  "is_object v = (case v of JObj _ \<Rightarrow> True | JArr _ \<Rightarrow> True | JNull \<Rightarrow> True | _ \<Rightarrow> False)"

definition object_keys :: "json \<Rightarrow> string list" where
  "object_keys v = (case v of JObj m \<Rightarrow> map fst m | JArr vs \<Rightarrow> map showDec [0..<length vs] | _ \<Rightarrow> [])"

definition object_prototype :: "string list" where
  "object_prototype = [''constructor'', ''__defineGetter__'', ''__defineSetter__'', ''hasOwnProperty'',
     ''__lookupGetter__'', ''__lookupSetter__'', ''isPrototypeOf'', ''propertyIsEnumerable'', ''toString'',
     ''valueOf'', ''__proto__'', ''toLocaleString'']"

definition array_prototype :: "string list" where
  "array_prototype = [''length'', ''at'', ''concat'', ''copyWithin'', ''fill'', ''find'', ''findIndex'', ''findLast'',
     ''findLastIndex'', ''lastIndexOf'', ''pop'', ''push'', ''reverse'', ''shift'', ''unshift'', ''slice'', ''sort'',
     ''splice'', ''includes'', ''indexOf'', ''join'', ''keys'', ''entries'', ''values'', ''forEach'', ''filter'',
     ''flat'', ''flatMap'', ''map'', ''every'', ''some'', ''reduce'', ''reduceRight'', ''toReversed'', ''toSorted'',
     ''toSpliced'', ''with'']"

definition inherited_keys :: "json \<Rightarrow> string list" where
  "inherited_keys v = (case v of JArr _ \<Rightarrow> array_prototype @ object_prototype | _ \<Rightarrow> object_prototype)"

definition in_object :: "string \<Rightarrow> json \<Rightarrow> bool" where
  "in_object k v = (list_ex (\<lambda>x. x = k) (object_keys v) \<or> list_ex (\<lambda>x. x = k) (inherited_keys v))"

subsection \<open>Facts\<close>

lemma split_on_not_Nil [simp]: "split_on c s \<noteq> []"
  by (induction s) (auto split: list.splits)

lemma split_on_chars: "seg \<in> set (split_on c s) \<Longrightarrow> set seg \<subseteq> set s - {c}"
proof (induction s arbitrary: seg)
  case (Cons x xs)
  show ?case
  proof (cases "x = c")
    case True
    thus ?thesis using Cons by (auto simp: subset_iff)
  next
    case False
    obtain t ts where t: "split_on c xs = t # ts" by (cases "split_on c xs") auto
    have "seg = x # t \<or> seg \<in> set ts" using Cons.prems False t by simp
    moreover have "set u \<subseteq> set xs - {c}" if "u \<in> set (t # ts)" for u
      using Cons.IH [of u] that unfolding t .
    ultimately show ?thesis using False by fastforce
  qed
qed simp

lemma includesChar_iff [simp]: "includesChar s c \<longleftrightarrow> c \<in> set s"
  by (auto simp: includesChar_def list_ex_iff)

lemma in_object_iff: "in_object k v \<longleftrightarrow> k \<in> set (object_keys v) \<or> k \<in> set (inherited_keys v)"
  by (auto simp: in_object_def list_ex_iff)

end
