(* ===== verification/Bundle.thy ===== *)
theory Bundle
  imports Js_Text
begin

text \<open>
  Structural validation of a submitted module bundle: the shared path predicate
  (\<open>packages/sdk/src/contracts/bundle-path.ts\<close>), the validator of the service
  (\<open>apps/backtester/src/sandbox/bundle.ts\<close>) and the preflight validator of the SDK
  (\<open>packages/sdk/src/builder/preflight.ts\<close>), with what an accepted bundle is guaranteed to be and how the
  two validators compare.
\<close>

definition BUNDLE_CONTRACT_VERSION :: string where
  "BUNDLE_CONTRACT_VERSION = ''019.1''"

definition isUnsafeBundlePath :: "string \<Rightarrow> bool" where
  "isUnsafeBundlePath path =
     (if path = [] then True
      else if startsWith path ''/'' then True
      else if includesChar path (CHR 0x5C) then True
      else if includesChar path (CHR 0x00) then True
      else if includesChar path (CHR '':'') then True
      else list_ex (\<lambda>seg. seg = ''..'' \<or> seg = ''.'') (split_on (CHR ''/'') path))"

subsection \<open>The service's validator\<close>

datatype bundle_code = Schema_invalid | Unsupported_module_kind | Unsupported_contract_version
  | Bundle_entrypoint_invalid

record bundle_issue =
  bi_code :: bundle_code
  bi_message :: string

definition issue :: "bundle_code \<Rightarrow> string \<Rightarrow> bundle_issue" where
  "issue c msg = \<lparr>bi_code = c, bi_message = msg\<rparr>"

definition manifestIssues :: "json \<Rightarrow> bundle_issue list" where
  "manifestIssues m =
     (if \<not> json_truthy m \<or> as_str (field m ''id'') = None \<or> as_str (field m ''version'') = None
      then [issue Schema_invalid ''manifest {id, version} is required''] else [])
   @ (if json_truthy m \<and> field m ''kind'' \<noteq> JStr ''strategy'' \<and> field m ''kind'' \<noteq> JStr ''overlay''
      then [issue Unsupported_module_kind ''manifest.kind must be \"strategy\" or \"overlay\"''] else [])
   @ (if json_truthy m \<and> field m ''bundleContractVersion'' \<noteq> JStr BUNDLE_CONTRACT_VERSION
      then [issue Unsupported_contract_version (''bundleContractVersion must be '' @ BUNDLE_CONTRACT_VERSION)]
      else [])"

definition entryIssues :: "json \<Rightarrow> bundle_issue list" where
  "entryIssues e = (case e of
      JStr s \<Rightarrow> if s = [] then [issue Schema_invalid ''entry is required'']
               else if isUnsafeBundlePath s then [issue Bundle_entrypoint_invalid (''invalid entry path: '' @ s)]
               else []
    | _ \<Rightarrow> [issue Schema_invalid ''entry is required''])"

definition filesIssues :: "json \<Rightarrow> json \<Rightarrow> bundle_issue list" where
  "filesIssues e fs =
     (if \<not> json_truthy fs \<or> \<not> is_object fs then [issue Schema_invalid ''files is required'']
      else map (\<lambda>key. issue Bundle_entrypoint_invalid (''invalid file path: '' @ key))
             (filter isUnsafeBundlePath (object_keys fs))
         @ (case e of JStr s \<Rightarrow> if \<not> in_object s fs
                then [issue Bundle_entrypoint_invalid (''entry \"'' @ s @ ''\" not in files'')] else []
            | _ \<Rightarrow> []))"

definition validateBundle :: "json \<Rightarrow> bundle_issue list" where
  "validateBundle input =
     (if \<not> json_truthy input \<or> \<not> is_object input then [issue Schema_invalid ''bundle must be an object'']
      else manifestIssues (field input ''manifest'') @ entryIssues (field input ''entry'')
         @ filesIssues (field input ''entry'') (field input ''files''))"

subsection \<open>The preflight validator of the SDK\<close>

datatype backtest_engine = Momentum | Overlay | Strategy

datatype severity = Sev_error | Sev_warning

record validation_issue =
  vi_code :: bundle_code
  vi_severity :: severity
  vi_path :: "string option"
  vi_message :: string

datatype validation_status = Accepted_bundle | Accepted_with_warnings | Rejected_bundle

record validation_report =
  vr_status :: validation_status
  vr_issues :: "validation_issue list"
  vr_executed :: bool

definition engineMatchesKind :: "backtest_engine \<Rightarrow> string \<Rightarrow> bool" where
  "engineMatchesKind engine k = (if engine = Overlay then k = ''overlay''
     else if engine = Strategy then k = ''strategy'' else k = ''strategy'')"

definition engineName :: "backtest_engine \<Rightarrow> string" where
  "engineName e = (case e of Momentum \<Rightarrow> ''momentum'' | Overlay \<Rightarrow> ''overlay'' | Strategy \<Rightarrow> ''strategy'')"

definition codeName :: "bundle_code \<Rightarrow> string" where
  "codeName c = (case c of Schema_invalid \<Rightarrow> ''schema_invalid'' | Unsupported_module_kind \<Rightarrow> ''unsupported_module_kind''
     | Unsupported_contract_version \<Rightarrow> ''unsupported_contract_version''
     | Bundle_entrypoint_invalid \<Rightarrow> ''bundle_entrypoint_invalid'')"

definition vissue :: "bundle_code \<Rightarrow> string option \<Rightarrow> string \<Rightarrow> validation_issue" where
  "vissue c p msg = \<lparr>vi_code = c, vi_severity = Sev_error, vi_path = p, vi_message = msg\<rparr>"

definition computeStatus :: "validation_issue list \<Rightarrow> validation_status" where
  "computeStatus issues =
     (if list_ex (\<lambda>i. vi_severity i = Sev_error) issues then Rejected_bundle
      else if list_ex (\<lambda>i. vi_severity i = Sev_warning) issues then Accepted_with_warnings
      else Accepted_bundle)"

definition report :: "validation_issue list \<Rightarrow> validation_report" where
  "report issues = (let sorted_issues = sort_key (\<lambda>i. (orElse (vi_path i) [], codeName (vi_code i))) issues
     in \<lparr>vr_status = computeStatus sorted_issues, vr_issues = sorted_issues, vr_executed = False\<rparr>)"

definition preflightManifest :: "backtest_engine \<Rightarrow> json \<Rightarrow> validation_issue list" where
  "preflightManifest engine m =
     (if \<not> json_truthy m \<or> as_str (field m ''id'') = None \<or> as_str (field m ''version'') = None
      then [vissue Schema_invalid None ''manifest {id, version} is required''] else [])
   @ (if json_truthy m \<and> field m ''kind'' \<noteq> JStr ''strategy'' \<and> field m ''kind'' \<noteq> JStr ''overlay''
      then [vissue Unsupported_module_kind None ''manifest.kind must be \"strategy\" or \"overlay\"''] else [])
   @ (if json_truthy m \<and> field m ''bundleContractVersion'' \<noteq> JStr BUNDLE_CONTRACT_VERSION
      then [vissue Unsupported_contract_version None (''bundleContractVersion must be '' @ BUNDLE_CONTRACT_VERSION)]
      else [])
   @ (case field m ''kind'' of JStr k \<Rightarrow>
        if json_truthy m \<and> k \<in> {''strategy'', ''overlay''} \<and> \<not> engineMatchesKind engine k
        then [vissue Unsupported_module_kind None (''engine \"'' @ engineName engine @ ''\" requires a ''
               @ (if engine = Overlay then ''overlay'' else ''strategy'') @ '' module, got \"'' @ k @ ''\"'')]
        else []
      | _ \<Rightarrow> [])"

definition preflightEntry :: "json \<Rightarrow> validation_issue list" where
  "preflightEntry e = (case e of
      JStr s \<Rightarrow> if s = []
               then [vissue Bundle_entrypoint_invalid None ''entry is required and must be a non-empty string'']
               else if isUnsafeBundlePath s
               then [vissue Bundle_entrypoint_invalid (Some s) (''invalid entry path: '' @ s)] else []
    | _ \<Rightarrow> [vissue Bundle_entrypoint_invalid None ''entry is required and must be a non-empty string''])"

definition preflightFiles :: "json \<Rightarrow> json \<Rightarrow> validation_issue list" where
  "preflightFiles e fs =
     (if \<not> json_truthy fs \<or> \<not> is_object fs then [vissue Schema_invalid None ''files is required'']
      else map (\<lambda>key. vissue Bundle_entrypoint_invalid (Some key) (''invalid file path: '' @ key))
             (filter isUnsafeBundlePath (object_keys fs))
         @ (case e of JStr s \<Rightarrow> if s \<noteq> [] \<and> \<not> in_object s fs
                then [vissue Bundle_entrypoint_invalid (Some s) (''entry \"'' @ s @ ''\" not in files'')] else []
            | _ \<Rightarrow> []))"

definition preflightValidateBundle :: "json \<Rightarrow> backtest_engine \<Rightarrow> validation_report" where
  "preflightValidateBundle input engine =
     (if \<not> json_truthy input \<or> \<not> is_object input
      then report [vissue Schema_invalid None ''bundle must be an object'']
      else report (preflightManifest engine (field input ''manifest'') @ preflightEntry (field input ''entry'')
             @ preflightFiles (field input ''entry'') (field input ''files'')))"

subsection \<open>Paths stay below the directory they are staged in\<close>

text \<open>POSIX resolution of a relative path: empty and \<open>.\<close> segments are dropped, \<open>..\<close> goes up.\<close>

definition resolveStep :: "string \<Rightarrow> string list \<Rightarrow> string list" where
  "resolveStep seg dir = (if seg = '''' \<or> seg = ''.'' then dir
     else if seg = ''..'' then butlast dir else dir @ [seg])"

definition resolvePath :: "string list \<Rightarrow> string \<Rightarrow> string list" where
  "resolvePath base path = fold resolveStep (split_on (CHR ''/'') path) base"

lemma resolve_below:
  assumes "\<forall>seg \<in> set segs. seg \<noteq> ''..'' \<and> seg \<noteq> ''.''"
  shows "fold resolveStep segs base = base @ filter (\<lambda>s. s \<noteq> '''') segs"
  using assms by (induction segs arbitrary: base) (auto simp: resolveStep_def)

text \<open>Claim C26. A bundle path the shared predicate calls safe is relative, and resolving it from a
  staging directory gives a path that extends this directory by its own segments: no accepted path leads
  out of the directory the bundle is staged in, and each segment is free of separators, drive colons,
  backslashes and NUL bytes.\<close>
theorem safe_path_contained:
  assumes "\<not> isUnsafeBundlePath p"
  shows "resolvePath base p = base @ filter (\<lambda>s. s \<noteq> '''') (split_on (CHR ''/'') p)
    \<and> p \<noteq> [] \<and> hd p \<noteq> CHR ''/''
    \<and> (\<forall>seg \<in> set (split_on (CHR ''/'') p). seg \<noteq> ''..'' \<and>
         set seg \<inter> {CHR ''/'', CHR 0x5C, CHR 0x00, CHR '':''} = {})"
proof -
  have p: "p \<noteq> []" "\<not> startsWith p ''/''" "CHR 0x5C \<notin> set p" "CHR 0x00 \<notin> set p" "CHR '':'' \<notin> set p"
    and s: "\<forall>seg \<in> set (split_on (CHR ''/'') p). seg \<noteq> ''..'' \<and> seg \<noteq> ''.''"
    using assms by (auto simp: isUnsafeBundlePath_def list_ex_iff split: if_splits)
  have "hd p \<noteq> CHR ''/''" using p(1,2) by (cases p) (auto simp: startsWith_def)
  moreover have "set seg \<inter> {CHR ''/'', CHR 0x5C, CHR 0x00, CHR '':''} = {}"
    if "seg \<in> set (split_on (CHR ''/'') p)" for seg
    using split_on_chars [OF that] p(3-5) by auto
  ultimately show ?thesis using resolve_below [OF s] p(1) s by (simp add: resolvePath_def)
qed

theorem safe_path_contained_witness:
  "\<not> isUnsafeBundlePath ''src/a..b.js'' \<and>
   resolvePath [''srv'', ''bundle''] ''src/a..b.js'' = [''srv'', ''bundle'', ''src'', ''a..b.js'']"
proof -
  have "\<not> isUnsafeBundlePath ''src/a..b.js''" by code_simp
  moreover have "split_on (CHR ''/'') ''src/a..b.js'' = [''src'', ''a..b.js'']" by code_simp
  ultimately show ?thesis using safe_path_contained [of "''src/a..b.js''" "[''srv'', ''bundle'']"] by simp
qed

subsection \<open>What an accepted bundle is\<close>

lemma report_accepted: "vr_status (report is) = Accepted_bundle \<longleftrightarrow> is = []" if "\<forall>i \<in> set is. vi_severity i = Sev_error"
  using that by (cases "is") (auto simp: report_def computeStatus_def Let_def list_ex_iff set_insort_key)

lemma preflight_errors:
  "i \<in> set (preflightManifest engine m @ preflightEntry e @ preflightFiles e fs) \<Longrightarrow> vi_severity i = Sev_error"
  by (auto simp: preflightManifest_def preflightEntry_def preflightFiles_def vissue_def
      split: json.splits if_splits)

lemma manifest_agree:
  "preflightManifest engine m = [] \<longleftrightarrow> manifestIssues m = []
     \<and> (\<exists>k. field m ''kind'' = JStr k \<and> engineMatchesKind engine k)"
proof (cases "json_truthy m \<and> (field m ''kind'' = JStr ''strategy'' \<or> field m ''kind'' = JStr ''overlay'')")
  case True
  thus ?thesis by (auto simp: preflightManifest_def manifestIssues_def split: if_splits)
next
  case False
  thus ?thesis by (auto simp: preflightManifest_def manifestIssues_def split: if_splits)
qed

lemma entry_agree: "preflightEntry e = [] \<longleftrightarrow> entryIssues e = []"
  by (auto simp: preflightEntry_def entryIssues_def split: json.splits)

lemma files_agree: "entryIssues e = [] \<Longrightarrow> preflightFiles e fs = [] \<longleftrightarrow> filesIssues e fs = []"
  by (auto simp: preflightFiles_def filesIssues_def entryIssues_def split: json.splits if_splits)

text \<open>Claim C25. The SDK's preflight accepts a bundle for an engine exactly when the service's validator
  finds no issue and the manifest declares the kind that engine runs: the two validators cannot drift
  apart on a bundle of the right kind.\<close>
theorem preflight_agrees:
  "vr_status (preflightValidateBundle input engine) = Accepted_bundle \<longleftrightarrow>
     validateBundle input = []
     \<and> (\<exists>k. field (field input ''manifest'') ''kind'' = JStr k \<and> engineMatchesKind engine k)"
proof (cases "json_truthy input \<and> is_object input")
  case False
  thus ?thesis
    using report_accepted [of "[vissue Schema_invalid None ''bundle must be an object'']"]
    by (auto simp: preflightValidateBundle_def validateBundle_def vissue_def)
next
  case True
  have "vr_status (preflightValidateBundle input engine) = Accepted_bundle \<longleftrightarrow>
      preflightManifest engine (field input ''manifest'') = [] \<and> preflightEntry (field input ''entry'') = []
      \<and> preflightFiles (field input ''entry'') (field input ''files'') = []"
    using True report_accepted [of "preflightManifest engine (field input ''manifest'')
        @ preflightEntry (field input ''entry'') @ preflightFiles (field input ''entry'') (field input ''files'')"]
      preflight_errors by (auto simp: preflightValidateBundle_def)
  thus ?thesis using True manifest_agree entry_agree files_agree by (auto simp: validateBundle_def)
qed

text \<open>Claim C27. A bundle the service accepts has a string id and version, a supported kind and contract
  version, an entry with a safe path, and only safe file paths; its entry is one of its own files or the
  name of a property every object inherits.\<close>
theorem accepted_bundle:
  assumes "validateBundle b = []"
  shows "(\<exists>i v. field (field b ''manifest'') ''id'' = JStr i \<and> field (field b ''manifest'') ''version'' = JStr v)
    \<and> (\<exists>k. field (field b ''manifest'') ''kind'' = JStr k \<and> k \<in> {''strategy'', ''overlay''})
    \<and> field (field b ''manifest'') ''bundleContractVersion'' = JStr BUNDLE_CONTRACT_VERSION
    \<and> (\<forall>key \<in> set (object_keys (field b ''files'')). \<not> isUnsafeBundlePath key)
    \<and> (\<exists>e. field b ''entry'' = JStr e \<and> \<not> isUnsafeBundlePath e
         \<and> (e \<in> set (object_keys (field b ''files'')) \<or> e \<in> set (inherited_keys (field b ''files''))))"
proof -
  have "manifestIssues (field b ''manifest'') = []" "entryIssues (field b ''entry'') = []"
      "filesIssues (field b ''entry'') (field b ''files'') = []"
    using assms by (auto simp: validateBundle_def split: if_splits)
  moreover have "\<exists>i. v = JStr i" if "as_str v = Some s" for v s using that by (cases v) auto
  ultimately show ?thesis
    by (auto simp: manifestIssues_def entryIssues_def filesIssues_def filter_empty_conv in_object_iff
        split: if_splits json.splits)
qed

definition sampleBundle :: json where
  "sampleBundle = JObj [(''manifest'', JObj [(''id'', JStr ''m''), (''version'', JStr ''1''), (''kind'', JStr ''strategy''),
       (''bundleContractVersion'', JStr ''019.1'')]),
     (''entry'', JStr ''index.js''), (''files'', JObj [(''index.js'', JStr ''x'')])]"

theorem accepted_bundle_witness:
  "validateBundle sampleBundle = [] \<and>
   (\<exists>e. field sampleBundle ''entry'' = JStr e \<and> \<not> isUnsafeBundlePath e)"
proof -
  have "validateBundle sampleBundle = []" by code_simp
  from this accepted_bundle [OF this] show ?thesis by blast
qed

text \<open>Note. The check that the entry is one of the files uses the \<open>in\<close> operator, which follows the
  prototype chain: a bundle without any file is accepted when its entry is named after an inherited
  property.\<close>
theorem inherited_entry_accepted:
  "validateBundle (JObj [(''manifest'', JObj [(''id'', JStr ''m''), (''version'', JStr ''1''), (''kind'', JStr ''strategy''),
       (''bundleContractVersion'', JStr ''019.1'')]),
     (''entry'', JStr ''toString''), (''files'', JObj [])]) = []"
  by code_simp

end
