(* ===== verification/Keyed_Table.thy ===== *)
theory Keyed_Table
  imports Prelude
begin

text \<open>
  Tables with a primary key, as the coordination stores use them: a Postgres table is the list of its rows, a
  JavaScript map holds each row under its own key, and both are swept the same way (the oldest expired rows
  first, at most a batch of them).
\<close>

definition tab_get :: "('r \<Rightarrow> string) \<Rightarrow> 'r list \<Rightarrow> string \<Rightarrow> 'r option" where
  "tab_get key tab k = find (\<lambda>r. key r = k) tab"

definition tab_ok :: "('r \<Rightarrow> string) \<Rightarrow> 'r list \<Rightarrow> bool" where
  "tab_ok key tab = distinct (map key tab)"

definition keyed_ok :: "('r \<Rightarrow> string) \<Rightarrow> 'r js_map \<Rightarrow> bool" where
  "keyed_ok key m = (map_ok m \<and> list_all (\<lambda>p. key (snd p) = fst p) m)"

text \<open>The rows a sweep takes: \<open>ORDER BY ts LIMIT n\<close> over the rows older than the threshold.\<close>

definition sweep_victims :: "('r \<Rightarrow> ms) \<Rightarrow> ms \<Rightarrow> nat \<Rightarrow> 'r list \<Rightarrow> 'r list" where
  "sweep_victims ts threshold n rows = take n (sort_key ts (filter (\<lambda>r. ts r < threshold) rows))"

definition js_sweep :: "('r \<Rightarrow> string) \<Rightarrow> ('r \<Rightarrow> ms) \<Rightarrow> ms \<Rightarrow> nat \<Rightarrow> 'r js_map \<Rightarrow> nat \<times> 'r js_map" where
  "js_sweep key ts threshold n m =
     (let expired = sweep_victims ts threshold n (js_values m)
      in (length expired, fold (\<lambda>e. js_delete (key e)) expired m))"

definition tab_sweep :: "('r \<Rightarrow> string) \<Rightarrow> ('r \<Rightarrow> ms) \<Rightarrow> ms \<Rightarrow> nat \<Rightarrow> 'r list \<Rightarrow> nat \<times> 'r list" where
  "tab_sweep key ts threshold n tab =
     (let v = sweep_victims ts threshold n tab;
          keep = filter (\<lambda>r. \<not> list_ex (\<lambda>x. key x = key r) v) tab
      in (length tab - length keep, keep))"

subsection \<open>Tables\<close>

lemma tab_get_Nil [simp]: "tab_get key [] k = None"
  by (simp add: tab_get_def)

lemma tab_get_Cons: "tab_get key (r # tab) k = (if key r = k then Some r else tab_get key tab k)"
  by (simp add: tab_get_def)

lemma tab_get_None: "tab_get key tab k = None \<longleftrightarrow> k \<notin> key ` set tab"
  by (auto simp: tab_get_def find_None_iff)

lemma tab_get_iff: "tab_ok key tab \<Longrightarrow> tab_get key tab k = Some r \<longleftrightarrow> r \<in> set tab \<and> key r = k"
  by (induction tab) (auto simp: tab_get_Cons tab_ok_def)

lemma tab_get_key: "tab_get key tab k = Some r \<Longrightarrow> key r = k"
  by (auto simp: tab_get_def find_Some_iff)

lemma tab_get_append: "tab_get key (tab @ [e]) k =
    (case tab_get key tab k of None \<Rightarrow> if key e = k then Some e else None | Some r \<Rightarrow> Some r)"
  by (induction tab) (auto simp: tab_get_Cons)

lemma tab_get_filter: "tab_ok key tab \<Longrightarrow> tab_get key (filter P tab) k =
    (case tab_get key tab k of None \<Rightarrow> None | Some r \<Rightarrow> if P r then Some r else None)"
proof (induction tab)
  case (Cons r tab)
  have "tab_get key tab k = None" if "key r = k" using Cons.prems that by (auto simp: tab_ok_def tab_get_None)
  thus ?case using Cons by (auto simp: tab_get_Cons tab_ok_def split: option.split)
qed simp

lemma tab_get_map: "(\<And>r. key (f r) = key r) \<Longrightarrow> tab_get key (map f tab) k = map_option f (tab_get key tab k)"
  by (induction tab) (auto simp: tab_get_Cons)

lemma tab_ok_append: "tab_ok key tab \<Longrightarrow> tab_get key tab (key e) = None \<Longrightarrow> tab_ok key (tab @ [e])"
  by (auto simp: tab_ok_def tab_get_None)

lemma tab_ok_map: "(\<And>r. key (f r) = key r) \<Longrightarrow> tab_ok key (map f tab) = tab_ok key tab"
  by (simp add: tab_ok_def comp_def)

lemma tab_ok_filter: "tab_ok key tab \<Longrightarrow> tab_ok key (filter P tab)"
  by (simp add: tab_ok_def distinct_map_filter)

lemma tab_ok_distinct: "tab_ok key tab \<Longrightarrow> distinct tab"
  by (simp add: tab_ok_def distinct_map)

subsection \<open>Maps keyed by their rows\<close>

lemma keyed_okI:
  assumes "map_ok m" "\<And>k r. js_get m k = Some r \<Longrightarrow> key r = k" shows "keyed_ok key m"
  using assms js_get_in [OF assms(1)] by (auto simp: keyed_ok_def list_all_iff)

lemma keyed_ok_map_ok: "keyed_ok key m \<Longrightarrow> map_ok m"
  by (simp add: keyed_ok_def)

lemma keyed_ok_get: "keyed_ok key m \<Longrightarrow> js_get m k = Some r \<Longrightarrow> key r = k"
  using js_get_in [of m k r] by (auto simp: keyed_ok_def list_all_iff)

lemma keyed_ok_Nil [simp]: "keyed_ok key []"
  by (simp add: keyed_ok_def)

lemma keyed_ok_set: "keyed_ok key m \<Longrightarrow> key r = k \<Longrightarrow> keyed_ok key (js_set k r m)"
  by (rule keyed_okI) (auto simp: keyed_ok_map_ok dest: keyed_ok_get split: if_splits)

lemma keyed_ok_delete: "keyed_ok key m \<Longrightarrow> keyed_ok key (js_delete k m)"
  by (rule keyed_okI) (auto simp: keyed_ok_map_ok dest: keyed_ok_get split: if_splits)

lemma keyed_values:
  assumes "keyed_ok key m"
  shows "distinct (js_values m)" "r \<in> set (js_values m) \<longleftrightarrow> js_get m (key r) = Some r"
proof -
  have "map key (js_values m) = map fst m" using assms by (auto simp: js_values_def keyed_ok_def list_all_iff)
  hence "distinct (map key (js_values m))" using assms by (simp add: keyed_ok_def map_ok_def)
  thus "distinct (js_values m)" by (simp add: distinct_map)
  show "r \<in> set (js_values m) \<longleftrightarrow> js_get m (key r) = Some r"
    using js_values_get [OF keyed_ok_map_ok [OF assms]] keyed_ok_get [OF assms] js_get_values by fastforce
qed

subsection \<open>Sweeps\<close>

text \<open>The rows taken from a pool are its oldest, as many as the batch allows.\<close>

definition oldest_first :: "('r \<Rightarrow> ms) \<Rightarrow> nat \<Rightarrow> 'r list \<Rightarrow> 'r set \<Rightarrow> bool" where
  "oldest_first ts n victims pool \<longleftrightarrow> distinct victims \<and> set victims \<subseteq> pool \<and> length victims = min n (card pool)
     \<and> (\<forall>v \<in> set victims. \<forall>e \<in> pool - set victims. ts v \<le> ts e)"

lemma oldest_first_victims:
  assumes "distinct rows"
  shows "oldest_first ts n (sweep_victims ts threshold n rows) {e \<in> set rows. ts e < threshold}"
proof -
  let ?s = "sort_key ts (filter (\<lambda>r. ts r < threshold) rows)"
  have d: "distinct ?s" using assms by simp
  have c: "card {e \<in> set rows. ts e < threshold} = length ?s"
    using distinct_card [of "filter (\<lambda>r. ts r < threshold) rows"] assms by simp
  have o: "ts v \<le> ts e" if "v \<in> set (take n ?s)" "e \<in> {e \<in> set rows. ts e < threshold} - set (take n ?s)" for v e
  proof -
    have "sorted (map ts (take n ?s @ drop n ?s))" by simp
    hence a: "\<forall>x \<in> set (take n ?s). \<forall>y \<in> set (drop n ?s). ts x \<le> ts y"
      unfolding map_append sorted_append by auto
    have "e \<in> set (take n ?s @ drop n ?s)" using that(2) by simp
    thus ?thesis using a that unfolding set_append by blast
  qed
  have s: "set (take n ?s) \<subseteq> {e \<in> set rows. ts e < threshold}" using set_take_subset [of n ?s] by auto
  show ?thesis unfolding oldest_first_def sweep_victims_def using d c o s by (simp add: min.commute)
qed

text \<open>What a lookup finds after a sweep.\<close>

definition without :: "'r list \<Rightarrow> (string \<Rightarrow> 'r option) \<Rightarrow> string \<Rightarrow> 'r option" where
  "without victims look k = (case look k of None \<Rightarrow> None | Some e \<Rightarrow> if e \<in> set victims then None else Some e)"

lemma fold_delete:
  "js_get (fold (\<lambda>e. js_delete (f e)) es m) k = (if k \<in> f ` set es then None else js_get m k)"
  by (induction es arbitrary: m) auto

lemma fold_delete_ok: "map_ok m \<Longrightarrow> map_ok (fold (\<lambda>e. js_delete (f e)) es m)"
  by (induction es arbitrary: m) auto

lemma js_sweep_spec:
  assumes "keyed_ok key m" "js_sweep key ts threshold n m = (c, m')"
  shows "keyed_ok key m' \<and> (\<exists>victims. c = length victims
    \<and> oldest_first ts n victims {e. js_get m (key e) = Some e \<and> ts e < threshold}
    \<and> js_get m' = without victims (js_get m))"
proof -
  define v where "v = sweep_victims ts threshold n (js_values m)"
  have c: "c = length v" and m': "m' = fold (\<lambda>e. js_delete (key e)) v m"
    using assms(2) by (auto simp: js_sweep_def Let_def v_def)
  have o: "oldest_first ts n v {e. js_get m (key e) = Some e \<and> ts e < threshold}"
    using oldest_first_victims [OF keyed_values(1) [OF assms(1)], of ts n threshold]
    by (simp add: v_def keyed_values(2) [OF assms(1)])
  have key: "k \<in> key ` set v \<longleftrightarrow> e \<in> set v" if "js_get m k = Some e" for k e
  proof
    assume "k \<in> key ` set v"
    then obtain x where x: "x \<in> set v" "key x = k" by auto
    hence "js_get m k = Some x" using o by (auto simp: oldest_first_def)
    thus "e \<in> set v" using that x by simp
  next
    assume "e \<in> set v"
    thus "k \<in> key ` set v" using keyed_ok_get [OF assms(1) that] by auto
  qed
  have l: "js_get m' = without v (js_get m)"
  proof
    fix k show "js_get m' k = without v (js_get m) k"
      by (cases "js_get m k") (simp_all add: m' fold_delete key without_def)
  qed
  have "keyed_ok key m'"
  proof (rule keyed_okI)
    show "map_ok m'" using keyed_ok_map_ok [OF assms(1)] by (simp add: m' fold_delete_ok)
    show "key e = k" if "js_get m' k = Some e" for k e
      using that keyed_ok_get [OF assms(1)] by (auto simp: l without_def split: option.splits if_splits)
  qed
  thus ?thesis using c o l by blast
qed

lemma tab_sweep_spec:
  assumes "tab_ok key tab" "tab_sweep key ts threshold n tab = (c, tab')"
  shows "tab_ok key tab' \<and> (\<exists>victims. c = length victims
    \<and> oldest_first ts n victims {e. tab_get key tab (key e) = Some e \<and> ts e < threshold}
    \<and> tab_get key tab' = without victims (tab_get key tab))"
proof -
  define v where "v = sweep_victims ts threshold n tab"
  have d: "distinct tab" by (rule tab_ok_distinct [OF assms(1)])
  have o: "oldest_first ts n v {e. tab_get key tab (key e) = Some e \<and> ts e < threshold}"
    using oldest_first_victims [OF d, of ts n threshold] by (simp add: v_def tab_get_iff [OF assms(1)])
  have sub: "set v \<subseteq> set tab" using o by (auto simp: oldest_first_def tab_get_iff [OF assms(1)])
  have keep: "list_ex (\<lambda>x. key x = key r) v \<longleftrightarrow> r \<in> set v" if "r \<in> set tab" for r
    using assms(1) sub that by (auto simp: list_ex_iff tab_ok_def distinct_map inj_on_def)
  have tab': "tab' = filter (\<lambda>r. r \<notin> set v) tab" and c: "c = length tab - length tab'"
    using assms(2) keep by (auto simp: tab_sweep_def Let_def v_def cong: filter_cong)
  have "length tab' = card (set tab - set v)" using distinct_card [of tab'] d by (simp add: tab' set_diff_eq)
  hence "length tab' = length tab - length v" "length v \<le> length tab"
    using sub o d card_mono [of "set tab" "set v"] by (simp_all add: card_Diff_subset distinct_card oldest_first_def)
  hence c': "c = length v" using c by simp
  have l: "tab_get key tab' = without v (tab_get key tab)"
    by (rule ext) (auto simp: tab' tab_get_filter [OF assms(1)] without_def split: option.split)
  show ?thesis using tab_ok_filter [OF assms(1)] c' o l tab' by blast
qed

end
