(* ===== verification/Compute_Lock.thy ===== *)
theory Compute_Lock
  imports Keyed_Table
begin

text \<open>
  The in-flight compute lock: \<open>apps/backtester/src/jobs/coalesce/compute-lock.ts\<close> (in memory) and
  \<open>pg-compute-lock.ts\<close> (Postgres).  A lock is taken by one leader run of one worker until it expires; a new
  leader may take it over then.  The contract of both stores is a locale, in which exclusion is proved for
  arbitrary histories of calls by others.
\<close>

record compute_lock =
  cl_computeIdentity :: string
  cl_leaderRunId :: string
  cl_lockOwnerWorkerId :: string
  cl_lockExpiresAtMs :: ms
  cl_createdAtMs :: ms
  cl_updatedAtMs :: ms

definition lockTo :: "ms \<Rightarrow> compute_lock \<Rightarrow> compute_lock" where
  "lockTo t l = l\<lparr>cl_lockExpiresAtMs := t, cl_updatedAtMs := t\<rparr>"

subsection \<open>In memory\<close>

type_synonym mem_locks = "compute_lock js_map"

definition ml_get :: "mem_locks \<Rightarrow> string \<Rightarrow> compute_lock option" where
  "ml_get rows ci = js_get rows ci"

definition ml_acquire :: "string \<Rightarrow> string \<Rightarrow> string \<Rightarrow> ms \<Rightarrow> ms \<Rightarrow> mem_locks \<Rightarrow> bool \<times> mem_locks" where
  "ml_acquire ci leaderRunId workerId nowMs ttlMs rows =
     (let existing = js_get rows ci
      in case existing of
           Some l \<Rightarrow> if nowMs \<le> cl_lockExpiresAtMs l then (False, rows)
             else (True, js_set ci \<lparr>cl_computeIdentity = ci, cl_leaderRunId = leaderRunId,
                    cl_lockOwnerWorkerId = workerId, cl_lockExpiresAtMs = nowMs + ttlMs,
                    cl_createdAtMs = cl_createdAtMs l, cl_updatedAtMs = nowMs\<rparr> rows)
         | None \<Rightarrow> (True, js_set ci \<lparr>cl_computeIdentity = ci, cl_leaderRunId = leaderRunId,
                    cl_lockOwnerWorkerId = workerId, cl_lockExpiresAtMs = nowMs + ttlMs,
                    cl_createdAtMs = nowMs, cl_updatedAtMs = nowMs\<rparr> rows))"

definition ml_renew :: "string \<Rightarrow> string \<Rightarrow> ms \<Rightarrow> mem_locks \<Rightarrow> mem_locks" where
  "ml_renew ci workerId untilMs rows = (case js_get rows ci of
      Some row \<Rightarrow> if cl_lockOwnerWorkerId row = workerId then js_set ci (lockTo untilMs row) rows else rows
    | None \<Rightarrow> rows)"

definition ml_expire :: "string \<Rightarrow> string \<Rightarrow> ms \<Rightarrow> mem_locks \<Rightarrow> mem_locks" where
  "ml_expire ci workerId nowMs rows = (case js_get rows ci of
      Some row \<Rightarrow> if cl_lockOwnerWorkerId row = workerId then js_set ci (lockTo nowMs row) rows else rows
    | None \<Rightarrow> rows)"

definition ml_release :: "string \<Rightarrow> string \<Rightarrow> string \<Rightarrow> mem_locks \<Rightarrow> mem_locks" where
  "ml_release ci workerId leaderRunId rows = (case js_get rows ci of
      Some row \<Rightarrow> if cl_lockOwnerWorkerId row = workerId \<and> cl_leaderRunId row = leaderRunId
                  then js_delete ci rows else rows
    | None \<Rightarrow> rows)"

definition ml_sweepExpired :: "ms \<Rightarrow> ms \<Rightarrow> int \<Rightarrow> mem_locks \<Rightarrow> nat \<times> mem_locks" where
  "ml_sweepExpired nowMs olderThanMs batchLimit rows =
     js_sweep cl_computeIdentity cl_lockExpiresAtMs (nowMs - olderThanMs) (nat (max 0 batchLimit)) rows"

subsection \<open>Postgres\<close>

type_synonym pg_locks = "compute_lock list"

definition pl_get :: "pg_locks \<Rightarrow> string \<Rightarrow> compute_lock option" where
  "pl_get tab ci = tab_get cl_computeIdentity tab ci"

text \<open>\<open>INSERT ... ON CONFLICT DO UPDATE ... WHERE lock_expires_at_ms < now\<close>: an insert when there is no row, an
  update of the four listed columns when the row is expired, nothing otherwise.\<close>

definition pl_acquire :: "string \<Rightarrow> string \<Rightarrow> string \<Rightarrow> ms \<Rightarrow> ms \<Rightarrow> pg_locks \<Rightarrow> bool \<times> pg_locks" where
  "pl_acquire ci leaderRunId workerId nowMs ttlMs tab =
     (case tab_get cl_computeIdentity tab ci of
        None \<Rightarrow> (True, tab @ [\<lparr>cl_computeIdentity = ci, cl_leaderRunId = leaderRunId,
                    cl_lockOwnerWorkerId = workerId, cl_lockExpiresAtMs = nowMs + ttlMs,
                    cl_createdAtMs = nowMs, cl_updatedAtMs = nowMs\<rparr>])
      | Some l \<Rightarrow> if cl_lockExpiresAtMs l < nowMs
          then (True, map (\<lambda>r. if cl_computeIdentity r = ci
                 then r\<lparr>cl_leaderRunId := leaderRunId, cl_lockOwnerWorkerId := workerId,
                        cl_lockExpiresAtMs := nowMs + ttlMs, cl_updatedAtMs := nowMs\<rparr> else r) tab)
          else (False, tab))"

definition pl_renew :: "string \<Rightarrow> string \<Rightarrow> ms \<Rightarrow> pg_locks \<Rightarrow> pg_locks" where
  "pl_renew ci workerId untilMs tab =
     map (\<lambda>r. if cl_computeIdentity r = ci \<and> cl_lockOwnerWorkerId r = workerId then lockTo untilMs r else r) tab"

definition pl_expire :: "string \<Rightarrow> string \<Rightarrow> ms \<Rightarrow> pg_locks \<Rightarrow> pg_locks" where
  "pl_expire ci workerId nowMs tab =
     map (\<lambda>r. if cl_computeIdentity r = ci \<and> cl_lockOwnerWorkerId r = workerId then lockTo nowMs r else r) tab"

definition pl_release :: "string \<Rightarrow> string \<Rightarrow> string \<Rightarrow> pg_locks \<Rightarrow> pg_locks" where
  "pl_release ci workerId leaderRunId tab =
     filter (\<lambda>r. \<not> (cl_computeIdentity r = ci \<and> cl_lockOwnerWorkerId r = workerId \<and> cl_leaderRunId r = leaderRunId)) tab"

definition pl_sweepExpired :: "ms \<Rightarrow> ms \<Rightarrow> int \<Rightarrow> pg_locks \<Rightarrow> nat option \<times> pg_locks" where
  "pl_sweepExpired nowMs olderThanMs batchLimit tab =
     (if batchLimit < 0 then (None, tab)
      else apfst Some (tab_sweep cl_computeIdentity cl_lockExpiresAtMs (nowMs - olderThanMs) (nat batchLimit) tab))"

subsection \<open>The contract\<close>

record 's compute_lock_ops =
  lk_acquire :: "string \<Rightarrow> string \<Rightarrow> string \<Rightarrow> ms \<Rightarrow> ms \<Rightarrow> 's \<Rightarrow> bool \<times> 's"
  lk_renew :: "string \<Rightarrow> string \<Rightarrow> ms \<Rightarrow> 's \<Rightarrow> 's"
  lk_expire :: "string \<Rightarrow> string \<Rightarrow> ms \<Rightarrow> 's \<Rightarrow> 's"
  lk_release :: "string \<Rightarrow> string \<Rightarrow> string \<Rightarrow> 's \<Rightarrow> 's"
  lk_sweepExpired :: "ms \<Rightarrow> ms \<Rightarrow> int \<Rightarrow> 's \<Rightarrow> nat option \<times> 's"
  lk_get :: "'s \<Rightarrow> string \<Rightarrow> compute_lock option"

text \<open>What a call does to the map from compute identity to lock.\<close>

definition takenLock :: "string \<Rightarrow> string \<Rightarrow> string \<Rightarrow> ms \<Rightarrow> ms \<Rightarrow> compute_lock option \<Rightarrow> compute_lock" where
  "takenLock ci leaderRunId workerId nowMs ttlMs old = \<lparr>cl_computeIdentity = ci, cl_leaderRunId = leaderRunId,
     cl_lockOwnerWorkerId = workerId, cl_lockExpiresAtMs = nowMs + ttlMs,
     cl_createdAtMs = (case old of None \<Rightarrow> nowMs | Some l \<Rightarrow> cl_createdAtMs l), cl_updatedAtMs = nowMs\<rparr>"

definition lockFree :: "ms \<Rightarrow> compute_lock option \<Rightarrow> bool" where
  "lockFree nowMs old = (case old of None \<Rightarrow> True | Some l \<Rightarrow> cl_lockExpiresAtMs l < nowMs)"

definition movedLock :: "string \<Rightarrow> ms \<Rightarrow> compute_lock \<Rightarrow> compute_lock" where
  "movedLock workerId t l = (if cl_lockOwnerWorkerId l = workerId then lockTo t l else l)"

definition keptLock :: "string \<Rightarrow> string \<Rightarrow> compute_lock \<Rightarrow> compute_lock option" where
  "keptLock workerId leaderRunId l =
     (if cl_lockOwnerWorkerId l = workerId \<and> cl_leaderRunId l = leaderRunId then None else Some l)"

datatype lock_call =
    Acquire string string string ms ms
  | Renew string string ms
  | Expire string string ms
  | Release string string string
  | Sweep_locks ms ms nat

fun run_lock :: "'s compute_lock_ops \<Rightarrow> lock_call \<Rightarrow> 's \<Rightarrow> bool \<times> 's" where
  "run_lock lops (Acquire ci r w now ttl) st = lk_acquire lops ci r w now ttl st"
| "run_lock lops (Renew ci w t) st = (True, lk_renew lops ci w t st)"
| "run_lock lops (Expire ci w t) st = (True, lk_expire lops ci w t st)"
| "run_lock lops (Release ci w r) st = (True, lk_release lops ci w r st)"
| "run_lock lops (Sweep_locks now older n) st = (True, snd (lk_sweepExpired lops now older (int n) st))"

fun run_locks :: "'s compute_lock_ops \<Rightarrow> lock_call list \<Rightarrow> 's \<Rightarrow> bool list \<times> 's" where
  "run_locks lops [] st = ([], st)"
| "run_locks lops (c # cs) st = (let (b, st') = run_lock lops c st; (bs, st'') = run_locks lops cs st' in (b # bs, st''))"

text \<open>A call that does not come from the holder of a lock: it acts on another identity, or it tries to acquire
  not after the expiry, or it names another worker (or, to release, another leader), or it sweeps locks
  that expired earlier.\<close>

fun foreign :: "compute_lock \<Rightarrow> lock_call \<Rightarrow> bool" where
  "foreign l (Acquire ci r w now ttl) = (ci \<noteq> cl_computeIdentity l \<or> now \<le> cl_lockExpiresAtMs l)"
| "foreign l (Renew ci w t) = (ci \<noteq> cl_computeIdentity l \<or> w \<noteq> cl_lockOwnerWorkerId l)"
| "foreign l (Expire ci w t) = (ci \<noteq> cl_computeIdentity l \<or> w \<noteq> cl_lockOwnerWorkerId l)"
| "foreign l (Release ci w r) = (ci \<noteq> cl_computeIdentity l \<or> w \<noteq> cl_lockOwnerWorkerId l \<or> r \<noteq> cl_leaderRunId l)"
| "foreign l (Sweep_locks now older n) = (now - older \<le> cl_lockExpiresAtMs l)"

locale compute_lock_contract =
  fixes lops :: "'l compute_lock_ops" and linv :: "'l \<Rightarrow> bool"
  assumes lock_key: "linv st \<Longrightarrow> lk_get lops st ci = Some l \<Longrightarrow> cl_computeIdentity l = ci"
    and acquire: "linv st \<Longrightarrow> lk_acquire lops ci r w now ttl st = (ok, st') \<Longrightarrow>
      linv st' \<and> (ok \<longleftrightarrow> lockFree now (lk_get lops st ci))
      \<and> lk_get lops st' = (if ok then (lk_get lops st)(ci \<mapsto> takenLock ci r w now ttl (lk_get lops st ci))
                            else lk_get lops st)"
    and renew: "linv st \<Longrightarrow> linv (lk_renew lops ci w t st)
      \<and> lk_get lops (lk_renew lops ci w t st) =
          (lk_get lops st)(ci := map_option (movedLock w t) (lk_get lops st ci))"
    and expire: "linv st \<Longrightarrow> linv (lk_expire lops ci w t st)
      \<and> lk_get lops (lk_expire lops ci w t st) =
          (lk_get lops st)(ci := map_option (movedLock w t) (lk_get lops st ci))"
    and release: "linv st \<Longrightarrow> linv (lk_release lops ci w r st)
      \<and> lk_get lops (lk_release lops ci w r st) = (lk_get lops st)(ci := Option.bind (lk_get lops st ci) (keptLock w r))"
    and sweep: "linv st \<Longrightarrow> 0 \<le> n \<Longrightarrow> lk_sweepExpired lops now older n st = (c, st') \<Longrightarrow>
      linv st' \<and> (\<exists>victims. c = Some (length victims)
        \<and> oldest_first cl_lockExpiresAtMs (nat n) victims
            {e. lk_get lops st (cl_computeIdentity e) = Some e \<and> cl_lockExpiresAtMs e < now - older}
        \<and> lk_get lops st' = without victims (lk_get lops st))"
begin

lemma run_lock_inv: "linv st \<Longrightarrow> linv (snd (run_lock lops c st))"
proof (cases c)
  case (Acquire ci r w now ttl)
  assume "linv st"
  thus ?thesis using acquire [of st ci r w now ttl] Acquire by (cases "lk_acquire lops ci r w now ttl st") auto
next
  case (Sweep_locks now older n)
  assume "linv st"
  thus ?thesis using sweep [of st "int n" now older] Sweep_locks
    by (cases "lk_sweepExpired lops now older (int n) st") auto
qed (use renew expire release in auto)

lemma foreign_keeps:
  assumes "linv st" "lk_get lops st (cl_computeIdentity l) = Some l" "foreign l c"
  shows "lk_get lops (snd (run_lock lops c st)) (cl_computeIdentity l) = Some l"
proof (cases c)
  case (Acquire ci r w now ttl)
  obtain ok st' where a: "lk_acquire lops ci r w now ttl st = (ok, st')" by (cases "lk_acquire lops ci r w now ttl st")
  show ?thesis using acquire [OF assms(1) a] a assms(2,3) Acquire by (cases "ci = cl_computeIdentity l") (auto simp: lockFree_def)
next
  case (Sweep_locks now older n)
  obtain m st' where a: "lk_sweepExpired lops now older (int n) st = (m, st')"
    by (cases "lk_sweepExpired lops now older (int n) st")
  obtain victims where v: "oldest_first cl_lockExpiresAtMs n victims
        {e. lk_get lops st (cl_computeIdentity e) = Some e \<and> cl_lockExpiresAtMs e < now - older}"
      "lk_get lops st' = without victims (lk_get lops st)"
    using sweep [OF assms(1) _ a] by auto
  have "l \<notin> set victims" using v(1) assms(3) Sweep_locks by (auto simp: oldest_first_def)
  thus ?thesis using v(2) a assms(2) Sweep_locks by (simp add: without_def)
next
  case (Renew ci w t)
  thus ?thesis using renew [OF assms(1), of ci w t] assms(2,3) by (auto simp: movedLock_def)
next
  case (Expire ci w t)
  thus ?thesis using expire [OF assms(1), of ci w t] assms(2,3) by (auto simp: movedLock_def)
next
  case (Release ci w r)
  thus ?thesis using release [OF assms(1), of ci w r] assms(2,3) by (auto simp: keptLock_def)
qed

lemma held_through:
  assumes "linv st" "lk_get lops st (cl_computeIdentity l) = Some l" "list_all (foreign l) cs"
  shows "linv (snd (run_locks lops cs st)) \<and> lk_get lops (snd (run_locks lops cs st)) (cl_computeIdentity l) = Some l"
  using assms
proof (induction cs arbitrary: st)
  case (Cons c cs)
  obtain b st' where s: "run_lock lops c st = (b, st')" by (cases "run_lock lops c st")
  have "linv st'" "lk_get lops st' (cl_computeIdentity l) = Some l"
    using run_lock_inv [of st c] foreign_keeps [of st l c] Cons.prems s by auto
  thus ?case using Cons.IH [of st'] Cons.prems(3) s by (auto split: prod.splits)
qed simp

lemma exclusive:
  assumes "linv st" "lk_acquire lops ci r w now ttl st = (True, st1)"
    and "list_all (foreign (takenLock ci r w now ttl (lk_get lops st ci))) cs"
    and "snd (run_locks lops cs st1) = st2"
  shows "lk_get lops st2 ci = Some (takenLock ci r w now ttl (lk_get lops st ci))"
    "fst (lk_acquire lops ci r' w' now' ttl' st2) \<longleftrightarrow> now + ttl < now'"
proof -
  let ?l = "takenLock ci r w now ttl (lk_get lops st ci)"
  have ci: "cl_computeIdentity ?l = ci" by (simp add: takenLock_def)
  have a: "linv st1" "lk_get lops st1 ci = Some ?l" using acquire [OF assms(1,2)] by auto
  have h: "linv st2" "lk_get lops st2 ci = Some ?l"
    using held_through [of st1 ?l cs] a assms(3,4) ci by auto
  show "lk_get lops st2 ci = Some ?l" by (rule h(2))
  obtain ok st3 where s: "lk_acquire lops ci r' w' now' ttl' st2 = (ok, st3)"
    by (cases "lk_acquire lops ci r' w' now' ttl' st2")
  show "fst (lk_acquire lops ci r' w' now' ttl' st2) \<longleftrightarrow> now + ttl < now'"
    using acquire [OF h(1) s] s h(2) by (simp add: lockFree_def takenLock_def)
qed

end

definition inMemoryLocks :: "mem_locks compute_lock_ops" where
  "inMemoryLocks = \<lparr>lk_acquire = ml_acquire, lk_renew = ml_renew, lk_expire = ml_expire, lk_release = ml_release,
     lk_sweepExpired = (\<lambda>now older n st. apfst Some (ml_sweepExpired now older n st)), lk_get = ml_get\<rparr>"

definition pgLocks :: "pg_locks compute_lock_ops" where
  "pgLocks = \<lparr>lk_acquire = pl_acquire, lk_renew = pl_renew, lk_expire = pl_expire, lk_release = pl_release,
     lk_sweepExpired = pl_sweepExpired, lk_get = pl_get\<rparr>"

abbreviation mem_locks_ok :: "mem_locks \<Rightarrow> bool" where
  "mem_locks_ok \<equiv> keyed_ok cl_computeIdentity"

abbreviation pg_locks_ok :: "pg_locks \<Rightarrow> bool" where
  "pg_locks_ok \<equiv> tab_ok cl_computeIdentity"

lemma lock_keys [simp]: "cl_computeIdentity (lockTo t l) = cl_computeIdentity l"
    "cl_computeIdentity (movedLock w t l) = cl_computeIdentity l"
    "cl_computeIdentity (takenLock ci r w now ttl old) = ci"
  by (simp_all add: lockTo_def movedLock_def takenLock_def)

lemma ml_moved:
  assumes "mem_locks_ok st" "st' = (case js_get st ci of
      Some row \<Rightarrow> if cl_lockOwnerWorkerId row = w then js_set ci (lockTo t row) st else st | None \<Rightarrow> st)"
  shows "mem_locks_ok st' \<and> js_get st' = (js_get st)(ci := map_option (movedLock w t) (js_get st ci))"
proof (cases "js_get st ci")
  case None
  thus ?thesis using assms by auto
next
  case (Some row)
  thus ?thesis using assms keyed_ok_get [OF assms(1) Some] by (auto simp: movedLock_def keyed_ok_set)
qed

lemma ml_acquire_spec:
  assumes "mem_locks_ok st" "ml_acquire ci r w now ttl st = (ok, st')"
  shows "mem_locks_ok st' \<and> (ok \<longleftrightarrow> lockFree now (js_get st ci))
    \<and> js_get st' = (if ok then (js_get st)(ci \<mapsto> takenLock ci r w now ttl (js_get st ci)) else js_get st)"
  using assms by (cases "js_get st ci")
    (auto simp: ml_acquire_def lockFree_def takenLock_def Let_def keyed_ok_set split: if_splits)

interpretation mem_locks: compute_lock_contract inMemoryLocks mem_locks_ok
proof (unfold_locales, goal_cases)
  case (1 st ci l) thus ?case using keyed_ok_get by (simp add: inMemoryLocks_def ml_get_def)
next
  case (2 st ci r w now ttl ok st')
  thus ?case using ml_acquire_spec [of st ci r w now ttl ok st'] by (simp add: inMemoryLocks_def ml_get_def [abs_def])
next
  case (3 st ci w t)
  from ml_moved [OF 3 HOL.refl] show ?case by (simp add: inMemoryLocks_def ml_get_def [abs_def] ml_renew_def)
next
  case (4 st ci w t)
  from ml_moved [OF 4 HOL.refl] show ?case by (simp add: inMemoryLocks_def ml_get_def [abs_def] ml_expire_def)
next
  case (5 st ci w r)
  have "js_get (ml_release ci w r st) = (js_get st)(ci := Option.bind (js_get st ci) (keptLock w r))"
    by (cases "js_get st ci") (auto simp: ml_release_def keptLock_def)
  moreover have "mem_locks_ok (ml_release ci w r st)"
    using 5 by (cases "js_get st ci") (auto simp: ml_release_def keyed_ok_delete)
  ultimately show ?case by (simp add: inMemoryLocks_def ml_get_def [abs_def])
next
  case (6 st n now older c st')
  obtain c0 where "ml_sweepExpired now older n st = (c0, st')" "c = Some c0"
    using 6(3) by (cases "ml_sweepExpired now older n st") (simp add: inMemoryLocks_def)
  thus ?case using js_sweep_spec [OF 6(1), of cl_lockExpiresAtMs "now - older" "nat n" c0 st'] 6(2)
    by (simp add: inMemoryLocks_def ml_get_def [abs_def] ml_sweepExpired_def)
qed

lemma tab_update_one:
  assumes "\<And>r. cl_computeIdentity (f r) = cl_computeIdentity r"
  shows "tab_get cl_computeIdentity (map (\<lambda>r. if cl_computeIdentity r = ci \<and> P r then f r else r) tab) =
    (tab_get cl_computeIdentity tab)(ci := map_option (\<lambda>r. if P r then f r else r) (tab_get cl_computeIdentity tab ci))"
proof
  fix k
  have "tab_get cl_computeIdentity (map (\<lambda>r. if cl_computeIdentity r = ci \<and> P r then f r else r) tab) k =
      map_option (\<lambda>r. if cl_computeIdentity r = ci \<and> P r then f r else r) (tab_get cl_computeIdentity tab k)"
    by (rule tab_get_map) (use assms in simp)
  thus "tab_get cl_computeIdentity (map (\<lambda>r. if cl_computeIdentity r = ci \<and> P r then f r else r) tab) k =
      ((tab_get cl_computeIdentity tab)(ci := map_option (\<lambda>r. if P r then f r else r) (tab_get cl_computeIdentity tab ci))) k"
    by (cases "tab_get cl_computeIdentity tab k") (auto dest: tab_get_key)
qed

lemma tab_update_one_ok:
  "(\<And>r. cl_computeIdentity (f r) = cl_computeIdentity r) \<Longrightarrow>
   pg_locks_ok (map (\<lambda>r. if cl_computeIdentity r = ci \<and> P r then f r else r) tab) = pg_locks_ok tab"
  by (rule tab_ok_map) simp

lemma pl_acquire_spec:
  assumes "pg_locks_ok st" "pl_acquire ci r w now ttl st = (ok, st')"
  shows "pg_locks_ok st' \<and> (ok \<longleftrightarrow> lockFree now (pl_get st ci))
    \<and> pl_get st' = (if ok then (pl_get st)(ci \<mapsto> takenLock ci r w now ttl (pl_get st ci)) else pl_get st)"
proof (cases "tab_get cl_computeIdentity st ci")
  case None
  hence st': "ok" "st' = st @ [takenLock ci r w now ttl None]" using assms(2) by (auto simp: pl_acquire_def takenLock_def)
  show ?thesis using None assms(1) st'
    by (auto simp: lockFree_def pl_get_def [abs_def] tab_ok_append tab_get_append split: option.split)
next
  case (Some l)
  let ?f = "\<lambda>x. x\<lparr>cl_leaderRunId := r, cl_lockOwnerWorkerId := w, cl_lockExpiresAtMs := now + ttl, cl_updatedAtMs := now\<rparr>"
  have f: "?f l = takenLock ci r w now ttl (Some l)"
    using tab_get_key [OF Some] by (simp add: takenLock_def)
  show ?thesis
  proof (cases "cl_lockExpiresAtMs l < now")
    case True
    hence "ok" and st': "st' = map (\<lambda>x. if cl_computeIdentity x = ci then ?f x else x) st"
      using assms(2) Some by (simp_all add: pl_acquire_def)
    moreover have "pl_get st' = (pl_get st)(ci \<mapsto> takenLock ci r w now ttl (Some l))"
      using tab_update_one [of ?f ci "\<lambda>_. True" st] f Some by (simp add: st' pl_get_def [abs_def])
    ultimately show ?thesis
      using tab_update_one_ok [of ?f ci "\<lambda>_. True" st] True Some assms(1) by (simp add: lockFree_def pl_get_def)
  next
    case False
    thus ?thesis using assms Some by (simp add: pl_acquire_def lockFree_def pl_get_def)
  qed
qed

lemma pl_moved:
  assumes "pg_locks_ok st"
    "st' = map (\<lambda>r. if cl_computeIdentity r = ci \<and> cl_lockOwnerWorkerId r = w then lockTo t r else r) st"
  shows "pg_locks_ok st' \<and> pl_get st' = (pl_get st)(ci := map_option (movedLock w t) (pl_get st ci))"
  using tab_update_one [of "lockTo t" ci "\<lambda>r. cl_lockOwnerWorkerId r = w" st]
    tab_update_one_ok [of "lockTo t" ci "\<lambda>r. cl_lockOwnerWorkerId r = w" st] assms
  by (simp add: pl_get_def [abs_def] movedLock_def [abs_def])

interpretation pg_locks: compute_lock_contract pgLocks pg_locks_ok
proof (unfold_locales, goal_cases)
  case (1 st ci l) thus ?case using tab_get_key by (simp add: pgLocks_def pl_get_def)
next
  case (2 st ci r w now ttl ok st')
  thus ?case using pl_acquire_spec [of st ci r w now ttl ok st'] by (simp add: pgLocks_def)
next
  case (3 st ci w t)
  from pl_moved [OF 3 HOL.refl] show ?case by (simp add: pgLocks_def pl_renew_def)
next
  case (4 st ci w t)
  from pl_moved [OF 4 HOL.refl] show ?case by (simp add: pgLocks_def pl_expire_def)
next
  case (5 st ci w r)
  have "pl_get (pl_release ci w r st) = (pl_get st)(ci := Option.bind (pl_get st ci) (keptLock w r))"
  proof
    fix k show "pl_get (pl_release ci w r st) k = ((pl_get st)(ci := Option.bind (pl_get st ci) (keptLock w r))) k"
      by (cases "tab_get cl_computeIdentity st k")
        (auto simp: pl_get_def pl_release_def tab_get_filter [OF 5] keptLock_def dest: tab_get_key)
  qed
  moreover have "pg_locks_ok (pl_release ci w r st)" using tab_ok_filter [OF 5] by (simp add: pl_release_def)
  ultimately show ?case by (simp add: pgLocks_def)
next
  case (6 st n now older c st')
  obtain c0 where "tab_sweep cl_computeIdentity cl_lockExpiresAtMs (now - older) (nat n) st = (c0, st')" "c = Some c0"
    using 6(2,3) by (cases "tab_sweep cl_computeIdentity cl_lockExpiresAtMs (now - older) (nat n) st")
      (simp add: pgLocks_def pl_sweepExpired_def)
  thus ?case using tab_sweep_spec [OF 6(1), of cl_lockExpiresAtMs "now - older" "nat n" c0 st']
    by (simp add: pgLocks_def pl_get_def [abs_def])
qed

subsection \<open>Properties\<close>

text \<open>Claim C21. In both lock stores a lock that was acquired excludes every other leader until it expires: after any
  history of calls by others (attempts to acquire it before its expiry, renewals and expiries by other
  workers, releases by another worker or of another generation, calls on other identities, sweeps of older
  locks) it is still held by its leader, unchanged, and an acquire succeeds exactly when it comes after the
  expiry.\<close>
theorem lock_exclusive:
  assumes "mem_locks_ok m" "ml_acquire ci r w now ttl m = (True, m1)"
    and "list_all (foreign (takenLock ci r w now ttl (ml_get m ci))) cs" "snd (run_locks inMemoryLocks cs m1) = m2"
    and "pg_locks_ok p" "pl_acquire ci r w now ttl p = (True, p1)"
    and "list_all (foreign (takenLock ci r w now ttl (pl_get p ci))) ds" "snd (run_locks pgLocks ds p1) = p2"
  shows "ml_get m2 ci = Some (takenLock ci r w now ttl (ml_get m ci))
    \<and> (fst (ml_acquire ci r' w' now' ttl' m2) \<longleftrightarrow> now + ttl < now')
    \<and> pl_get p2 ci = Some (takenLock ci r w now ttl (pl_get p ci))
    \<and> (fst (pl_acquire ci r' w' now' ttl' p2) \<longleftrightarrow> now + ttl < now')"
proof -
  have m: "lk_acquire inMemoryLocks ci r w now ttl m = (True, m1)" using assms(2) by (simp add: inMemoryLocks_def)
  have p: "lk_acquire pgLocks ci r w now ttl p = (True, p1)" using assms(6) by (simp add: pgLocks_def)
  have g: "lk_get inMemoryLocks = ml_get" "lk_acquire inMemoryLocks = ml_acquire" "lk_get pgLocks = pl_get"
      "lk_acquire pgLocks = pl_acquire" by (simp_all add: inMemoryLocks_def pgLocks_def)
  show ?thesis
    using mem_locks.exclusive [OF assms(1) m, unfolded g, OF assms(3,4)]
      pg_locks.exclusive [OF assms(5) p, unfolded g, OF assms(7,8)] by blast
qed

theorem lock_exclusive_witness:
  "ml_get (snd (run_locks inMemoryLocks [Acquire ''ci'' ''r2'' ''w2'' 60 50, Release ''ci'' ''w1'' ''r0'', Expire ''ci'' ''w2'' 70]
     (snd (ml_acquire ''ci'' ''r1'' ''w1'' 10 50 [])))) ''ci'' = Some (takenLock ''ci'' ''r1'' ''w1'' 10 50 None)
   \<and> \<not> fst (ml_acquire ''ci'' ''r3'' ''w3'' 60 50 (snd (run_locks inMemoryLocks
       [Acquire ''ci'' ''r2'' ''w2'' 60 50, Release ''ci'' ''w1'' ''r0'', Expire ''ci'' ''w2'' 70]
       (snd (ml_acquire ''ci'' ''r1'' ''w1'' 10 50 [])))))"
proof -
  let ?cs = "[Acquire ''ci'' ''r2'' ''w2'' 60 50, Release ''ci'' ''w1'' ''r0'', Expire ''ci'' ''w2'' 70]"
  have a: "ml_acquire ''ci'' ''r1'' ''w1'' 10 50 [] = (True, snd (ml_acquire ''ci'' ''r1'' ''w1'' 10 50 []))"
      "pl_acquire ''ci'' ''r1'' ''w1'' 10 50 [] = (True, snd (pl_acquire ''ci'' ''r1'' ''w1'' 10 50 []))" by code_simp+
  have f: "list_all (foreign (takenLock ''ci'' ''r1'' ''w1'' 10 50 (ml_get [] ''ci''))) ?cs"
      "list_all (foreign (takenLock ''ci'' ''r1'' ''w1'' 10 50 (pl_get [] ''ci''))) ?cs" by code_simp+
  have e: "pg_locks_ok []" "ml_get [] ''ci'' = None" by (simp_all add: tab_ok_def ml_get_def)
  show ?thesis
    using lock_exclusive [OF keyed_ok_Nil a(1) f(1) HOL.refl e(1) a(2) f(2) HOL.refl, of "''r3''" "''w3''" 60 50] e(2) by simp
qed

text \<open>Two stores of the contract that show the same locks go on showing the same locks.\<close>

fun no_sweep :: "lock_call \<Rightarrow> bool" where
  "no_sweep (Sweep_locks _ _ _) = False"
| "no_sweep _ = True"

lemma lock_step_agrees:
  assumes "mem_locks_ok m" "pg_locks_ok p" "ml_get m = pl_get p" "no_sweep c"
    and "run_lock inMemoryLocks c m = (b, m')" "run_lock pgLocks c p = (b', p')"
  shows "mem_locks_ok m' \<and> pg_locks_ok p' \<and> b = b' \<and> ml_get m' = pl_get p'"
proof -
  have g: "lk_get inMemoryLocks = ml_get" "lk_get pgLocks = pl_get" by (simp_all add: inMemoryLocks_def pgLocks_def)
  have i: "mem_locks_ok m'" "pg_locks_ok p'"
    using mem_locks.run_lock_inv [OF assms(1), of c] pg_locks.run_lock_inv [OF assms(2), of c] assms(5,6) by auto
  have "b = b' \<and> ml_get m' = pl_get p'"
  proof (cases c)
    case (Acquire ci r w now ttl)
    show ?thesis using mem_locks.acquire [OF assms(1), of ci r w now ttl b m'] assms(3,5,6)
        pg_locks.acquire [OF assms(2), of ci r w now ttl b' p'] Acquire by (simp add: g)
  next
    case (Renew ci w t)
    show ?thesis using mem_locks.renew [OF assms(1), of ci w t] pg_locks.renew [OF assms(2), of ci w t] assms(3,5,6) Renew
      by (auto simp: g)
  next
    case (Expire ci w t)
    show ?thesis using mem_locks.expire [OF assms(1), of ci w t] pg_locks.expire [OF assms(2), of ci w t] assms(3,5,6) Expire
      by (auto simp: g)
  next
    case (Release ci w r)
    show ?thesis
      using mem_locks.release [OF assms(1), of ci w r, unfolded g] pg_locks.release [OF assms(2), of ci w r, unfolded g]
        assms(3,5,6) Release
      by auto
  qed (use assms(4) in simp)
  thus ?thesis using i by blast
qed

text \<open>Claim C22. The Postgres lock store behaves as the in-memory one: along any history of acquires, renewals,
  expiries and releases from the empty store, every call answers the same in both and both show the same
  lock, with the same leader, owner and times, for every compute identity.\<close>
theorem lock_stores_agree:
  assumes "list_all no_sweep cs"
  shows "fst (run_locks pgLocks cs []) = fst (run_locks inMemoryLocks cs [])
    \<and> pl_get (snd (run_locks pgLocks cs [])) = ml_get (snd (run_locks inMemoryLocks cs []))"
proof -
  have "mem_locks_ok m \<Longrightarrow> pg_locks_ok p \<Longrightarrow> ml_get m = pl_get p \<Longrightarrow>
      fst (run_locks pgLocks cs p) = fst (run_locks inMemoryLocks cs m)
      \<and> pl_get (snd (run_locks pgLocks cs p)) = ml_get (snd (run_locks inMemoryLocks cs m))" for m p
    using assms
  proof (induction cs arbitrary: m p)
    case (Cons c cs)
    obtain b m' where m: "run_lock inMemoryLocks c m = (b, m')" by (cases "run_lock inMemoryLocks c m")
    obtain b' p' where p: "run_lock pgLocks c p = (b', p')" by (cases "run_lock pgLocks c p")
    have s: "mem_locks_ok m'" "pg_locks_ok p'" "b = b'" "ml_get m' = pl_get p'"
      using lock_step_agrees [OF Cons.prems(1-3) _ m p] Cons.prems(4) by auto
    show ?case using Cons.IH [OF s(1,2,4)] Cons.prems(4) m p s(3) by (auto split: prod.split)
  qed auto
  moreover have "ml_get [] = pl_get []" by (simp add: ml_get_def pl_get_def fun_eq_iff)
  ultimately show ?thesis by (simp add: tab_ok_def)
qed

theorem lock_stores_agree_witness:
  "fst (run_locks pgLocks [Acquire ''ci'' ''r1'' ''w1'' 10 50, Acquire ''ci'' ''r2'' ''w2'' 61 50] [])
     = fst (run_locks inMemoryLocks [Acquire ''ci'' ''r1'' ''w1'' 10 50, Acquire ''ci'' ''r2'' ''w2'' 61 50] [])
   \<and> fst (run_locks inMemoryLocks [Acquire ''ci'' ''r1'' ''w1'' 10 50, Acquire ''ci'' ''r2'' ''w2'' 61 50] []) = [True, True]"
proof -
  have "fst (run_locks inMemoryLocks [Acquire ''ci'' ''r1'' ''w1'' 10 50, Acquire ''ci'' ''r2'' ''w2'' 61 50] []) = [True, True]"
    by code_simp
  thus ?thesis using lock_stores_agree [of "[Acquire ''ci'' ''r1'' ''w1'' 10 50, Acquire ''ci'' ''r2'' ''w2'' 61 50]"] by simp
qed

text \<open>Note. Releasing a lock checks the generation (worker and leader run), expiring it checks only the worker:
  when the same worker has been re-elected with a new run, the failure path of the old run cuts the new
  run's lock short and another worker can take it while the new leader still holds it.\<close>
theorem stale_expire_opens_lock:
  "fst (run_locks pgLocks [Acquire ''ci'' ''r1'' ''w1'' 10 50, Acquire ''ci'' ''r2'' ''w1'' 61 50,
     Release ''ci'' ''w1'' ''r1'', Acquire ''ci'' ''r3'' ''w2'' 80 50] []) = [True, True, True, False]
   \<and> fst (run_locks pgLocks [Acquire ''ci'' ''r1'' ''w1'' 10 50, Acquire ''ci'' ''r2'' ''w1'' 61 50,
     Expire ''ci'' ''w1'' 70, Acquire ''ci'' ''r3'' ''w2'' 80 50] []) = [True, True, True, True]"
  by code_simp

end
