(* ===== verification/Canonical_Json_Facts.thy ===== *)
theory Canonical_Json_Facts
  imports Canonical_Json "HOL-Library.Multiset"
begin

text \<open>
  The normal form behind the canonical serialisation, and that printing it can be undone.
\<close>

datatype ctree =
    CNull
  | CBool bool
  | CNum string
  | CStr string
  | CArr "ctree list"
  | CObj "(string \<times> ctree) list"

fun print_tree :: "ctree \<Rightarrow> string" where
  "print_tree CNull = ''null''"
| "print_tree (CBool b) = (if b then ''true'' else ''false'')"
| "print_tree (CNum s) = s"
| "print_tree (CStr s) = stringifyString s"
| "print_tree (CArr ts) = ''['' @ join '','' (map print_tree ts) @ '']''"
| "print_tree (CObj m) = ''{'' @ join '','' (map (\<lambda>p. stringifyString (fst p) @ '':'' @ print_tree (snd p)) m) @ ''}''"

function normal_form :: "(rat \<Rightarrow> string) \<Rightarrow> json \<Rightarrow> canon_error + ctree" where
  "normal_form dec8 JNull = Inr CNull"
| "normal_form dec8 (JNum n) = map_sum id CNum (quantizeToString dec8 n)"
| "normal_form dec8 (JBool b) = Inr (CBool b)"
| "normal_form dec8 (JStr s) = Inr (CStr s)"
| "normal_form dec8 (JArr vs) =
     map_sum id CArr (collect (map (\<lambda>v. if v = JUndef then Inr CNull else normal_form dec8 v) vs))"
| "normal_form dec8 (JObj m) =
     map_sum id CObj (collect (map (\<lambda>p. map_sum id (Pair (fst p)) (normal_form dec8 (snd p))) (definedMembers m)))"
| "normal_form dec8 JUndef = Inl Unsupported_undefined"
  by pat_completeness auto
termination
proof (relation "measure (\<lambda>(_, v). size v)", goal_cases)
  case (2 dec8 vs v)
  have "size v \<le> size_list size vs" using 2(1) by (rule size_list_estimation') simp
  thus ?case by simp
next
  case (3 dec8 m p)
  hence "p \<in> set m" using definedMembers_subset by blast
  thus ?case using size_member by simp
qed simp

lemma collect_map: "collect (map (\<lambda>x. map_sum id f (g x)) xs) = map_sum id (map f) (collect (map g xs))"
proof (induction xs)
  case (Cons x xs)
  thus ?case by (cases "g x"; cases "collect (map g xs)") simp_all
qed simp

lemma map_sum_id_comp: "map_sum id f (map_sum id g x) = map_sum id (f \<circ> g) x"
  by (cases x) simp_all

lemma serialize_normal_form: "serialize dec8 v = map_sum id print_tree (normal_form dec8 v)"
proof (induction dec8 v rule: normal_form.induct)
  case (2 dec8 n)
  show ?case by (cases "quantizeToString dec8 n") simp_all
next
  case (5 dec8 vs)
  have "map (\<lambda>v. if v = JUndef then Inr ''null'' else serialize dec8 v) vs =
      map (\<lambda>v. map_sum id print_tree (if v = JUndef then Inr CNull else normal_form dec8 v)) vs"
    using 5 by (intro map_cong) (auto simp: id_def)
  hence "serialize dec8 (JArr vs) = map_sum id (\<lambda>ss. ''['' @ join '','' ss @ '']'')
      (map_sum id (map print_tree) (collect (map (\<lambda>v. if v = JUndef then Inr CNull else normal_form dec8 v) vs)))"
    by (simp only: serialize.simps collect_map)
  thus ?case unfolding normal_form.simps map_sum_id_comp by (simp add: comp_def)
next
  case (6 dec8 m)
  have "map (\<lambda>p. map_sum id (\<lambda>s. stringifyString (fst p) @ '':'' @ s) (serialize dec8 (snd p))) (definedMembers m) =
      map (\<lambda>p. map_sum id (\<lambda>q. stringifyString (fst q) @ '':'' @ print_tree (snd q))
        (map_sum id (Pair (fst p)) (normal_form dec8 (snd p)))) (definedMembers m)"
  proof (rule map_cong [OF HOL.refl])
    fix p assume "p \<in> set (definedMembers m)"
    from 6 [OF this] show "map_sum id (\<lambda>s. stringifyString (fst p) @ '':'' @ s) (serialize dec8 (snd p)) =
        map_sum id (\<lambda>q. stringifyString (fst q) @ '':'' @ print_tree (snd q))
          (map_sum id (Pair (fst p)) (normal_form dec8 (snd p)))"
      by (simp only: map_sum_id_comp comp_def fst_conv snd_conv)
  qed
  hence "serialize dec8 (JObj m) = map_sum id (\<lambda>ss. ''{'' @ join '','' ss @ ''}'')
      (map_sum id (map (\<lambda>q. stringifyString (fst q) @ '':'' @ print_tree (snd q)))
        (collect (map (\<lambda>p. map_sum id (Pair (fst p)) (normal_form dec8 (snd p))) (definedMembers m))))"
    by (simp only: serialize.simps collect_map)
  thus ?case unfolding normal_form.simps map_sum_id_comp by (simp add: comp_def)
qed simp_all

subsection \<open>Strings can be read back\<close>

lemma digit_inj: "i < 16 \<Longrightarrow> j < 16 \<Longrightarrow> digit i = digit j \<longleftrightarrow> i = j"
proof -
  have "\<forall>i \<in> set [0..<16]. \<forall>j \<in> set [0..<16]. digit i = digit j \<longleftrightarrow> i = j" by code_simp
  thus "i < 16 \<Longrightarrow> j < 16 \<Longrightarrow> ?thesis" by simp
qed

text \<open>The escape sequence of a character, followed by anything, determines the character; and none starts
  with the closing quote.\<close>

lemma escape_control_inj:
  assumes "n < 32" "m < 32" "digit (n div 16) = digit (m div 16)" "digit (n mod 16) = digit (m mod 16)"
  shows "n = (m :: nat)"
proof -
  have "n div 16 = m div 16" "n mod 16 = m mod 16" using assms digit_inj by auto
  thus ?thesis by (metis div_mult_mod_eq)
qed

lemma escapeChar_head: "\<exists>h t. escapeChar c = h # t \<and> h \<noteq> CHR 0x22"
  by (simp add: escapeChar_def Let_def)

lemma escapeChar_prefix:
  assumes "escapeChar c @ r = escapeChar c' @ r'" shows "c = c' \<and> r = r'"
proof -
  have e: "c = c'" if "of_char c = (n :: nat)" "of_char c' = n" for n
    using that of_char_eq_iff [of c c', where ?'a = nat] by simp
  have inj: "of_char c = (of_char c' :: nat) \<longleftrightarrow> c = c'" by (simp add: of_char_eq_iff)
  show ?thesis using assms inj
    by (auto simp: escapeChar_def Let_def split: if_splits dest: escape_control_inj)
       (rule e, assumption, assumption)+
qed

lemma escaped_prefix:
  "concat (map escapeChar s) @ CHR 0x22 # r = concat (map escapeChar s') @ CHR 0x22 # r' \<Longrightarrow> s = s' \<and> r = r'"
proof (induction s arbitrary: s')
  case Nil
  thus ?case using escapeChar_head by (cases s') (auto, metis Cons_eq_appendI list.inject)+
next
  case (Cons c s)
  show ?case
  proof (cases s')
    case Nil
    thus ?thesis using Cons.prems escapeChar_head [of c] by auto
  next
    case (Cons c' t)
    have "escapeChar c @ (concat (map escapeChar s) @ CHR 0x22 # r) =
        escapeChar c' @ (concat (map escapeChar t) @ CHR 0x22 # r')"
      using Cons.prems Cons by simp
    from escapeChar_prefix [OF this] show ?thesis using Cons.IH [of t] Cons by simp
  qed
qed

lemma stringify_prefix: "stringifyString s @ r = stringifyString s' @ r' \<Longrightarrow> s = s' \<and> r = r'"
  using escaped_prefix [of s r s' r'] by (simp add: stringifyString_def)

subsection \<open>Trees can be read back\<close>

definition delim :: "string \<Rightarrow> bool" where
  "delim r = (case r of [] \<Rightarrow> True | c # _ \<Rightarrow> c \<in> {CHR '','', CHR '']'', CHR ''}'', CHR 0x0A})"

text \<open>The characters of a printed number.\<close>

definition num_chars :: string where
  "num_chars = ''0123456789.-''"

definition numeric :: "string \<Rightarrow> bool" where
  "numeric s = (s \<noteq> [] \<and> set s \<subseteq> set num_chars)"

fun tree_ok :: "ctree \<Rightarrow> bool" where
  "tree_ok (CNum s) = numeric s"
| "tree_ok (CArr ts) = list_all tree_ok ts"
| "tree_ok (CObj m) = list_all (\<lambda>p. tree_ok (snd p)) m"
| "tree_ok _ = True"

text \<open>The first character of a tree tells its kind.\<close>

datatype tree_kind = K_null | K_true | K_false | K_num | K_str | K_arr | K_obj

fun kind :: "ctree \<Rightarrow> tree_kind" where
  "kind CNull = K_null"
| "kind (CBool b) = (if b then K_true else K_false)"
| "kind (CNum _) = K_num"
| "kind (CStr _) = K_str"
| "kind (CArr _) = K_arr"
| "kind (CObj _) = K_obj"

definition kind_of_char :: "char \<Rightarrow> tree_kind" where
  "kind_of_char c = (if c = CHR ''n'' then K_null else if c = CHR ''t'' then K_true
     else if c = CHR ''f'' then K_false else if c = CHR 0x22 then K_str
     else if c = CHR ''['' then K_arr else if c = CHR ''{'' then K_obj else K_num)"

lemma num_char: "c \<in> set num_chars \<Longrightarrow> kind_of_char c = K_num \<and> c \<notin> {CHR '','', CHR '']'', CHR ''}'', CHR 0x0A}"
proof -
  have "list_all (\<lambda>c. kind_of_char c = K_num \<and> c \<notin> {CHR '','', CHR '']'', CHR ''}'', CHR 0x0A}) num_chars"
    by code_simp
  thus "c \<in> set num_chars \<Longrightarrow> ?thesis" by (simp add: list_all_iff)
qed

lemma print_head: "tree_ok t \<Longrightarrow> \<exists>c cs. print_tree t = c # cs \<and> kind_of_char c = kind t
    \<and> c \<notin> {CHR '','', CHR '']'', CHR ''}'', CHR 0x0A}"
proof (cases t)
  case (CNum s)
  assume "tree_ok t"
  then obtain c cs where s: "s = c # cs" "c \<in> set num_chars"
    using CNum by (cases s) (auto simp: numeric_def)
  show ?thesis using CNum s(1) num_char [OF s(2)] by simp
qed (auto simp: kind_of_char_def stringifyString_def)

lemma print_kind:
  assumes "tree_ok t" "tree_ok u" "print_tree t @ r = print_tree u @ r'" shows "kind t = kind u"
proof -
  obtain c cs where t: "print_tree t = c # cs" "kind_of_char c = kind t" using print_head [OF assms(1)] by blast
  obtain d ds where u: "print_tree u = d # ds" "kind_of_char d = kind u" using print_head [OF assms(2)] by blast
  show ?thesis using t u assms(3) by simp
qed

lemma numeric_prefix:
  assumes "numeric s" "numeric s'" "delim r" "delim r'" "s @ r = s' @ r'"
  shows "s = s' \<and> r = r'"
proof -
  let ?N = "\<lambda>c. c \<in> set num_chars"
  have stop: "takeWhile ?N r = []" if "delim r" for r
    using that num_char [of "hd r"] by (cases r) (auto simp: delim_def)
  have tw: "takeWhile ?N (x @ q) = x" if "numeric x" "delim q" for x q
  proof -
    have "\<forall>c \<in> set x. ?N c" using that(1) by (auto simp: numeric_def)
    thus ?thesis using takeWhile_append2 [of x ?N q] stop [OF that(2)] by simp
  qed
  have "s = s'" using tw [OF assms(1,3)] tw [OF assms(2,4)] assms(5) by simp
  thus ?thesis using assms(5) by simp
qed

text \<open>A list of printed elements, separated by commas and closed by a bracket, can be read back when its
  elements can.\<close>

lemma join_prefix:
  assumes "\<And>x. x \<in> set xs \<Longrightarrow> \<exists>c cs. P x = c # cs \<and> c \<noteq> z" "\<And>y. y \<in> set ys \<Longrightarrow> \<exists>c cs. P y = c # cs \<and> c \<noteq> z"
    and "z \<in> {CHR '']'', CHR ''}''}"
    and "\<And>x y r r'. x \<in> set xs \<Longrightarrow> y \<in> set ys \<Longrightarrow> delim r \<Longrightarrow> delim r' \<Longrightarrow> P x @ r = P y @ r' \<Longrightarrow> x = y \<and> r = r'"
    and "join '','' (map P xs) @ z # r = join '','' (map P ys) @ z # r'"
  shows "xs = ys \<and> r = r'"
  using assms
proof (induction xs arbitrary: ys)
  case Nil
  show ?case
  proof (cases ys)
    case (Cons y ys')
    obtain c cs where "P y = c # cs" "c \<noteq> z" using Nil.prems(2) [of y] Cons by auto
    thus ?thesis using Nil.prems(5) Cons by (cases ys') auto
  qed (use Nil.prems in simp)
next
  case (Cons x xs)
  show ?case
  proof (cases ys)
    case Nil
    obtain c cs where "P x = c # cs" "c \<noteq> z" using Cons.prems(1) [of x] by auto
    thus ?thesis using Cons.prems(5) Nil by (cases xs) auto
  next
    case ys: (Cons y ys')
    define tl where "tl = (\<lambda>ws q. if ws = [] then z # q else CHR '','' # join '','' (map P ws) @ z # q)"
    have j: "join '','' (map P (w # ws)) @ z # q = P w @ tl ws q" for w ws q
      by (cases ws) (simp_all add: tl_def)
    have d: "delim (tl ws q)" for ws q using assms(3) by (auto simp: tl_def delim_def)
    have "x = y \<and> tl xs r = tl ys' r'"
      using Cons.prems(4) [of x y "tl xs r" "tl ys' r'"] d Cons.prems(5) ys by (simp only: j) simp
    hence "x = y" and t: "tl xs r = tl ys' r'" by simp_all
    moreover have "xs = ys' \<and> r = r'"
    proof (cases "xs = [] \<or> ys' = []")
      case True
      thus ?thesis using t assms(3) by (auto simp: tl_def split: if_splits)
    next
      case False
      hence "join '','' (map P xs) @ z # r = join '','' (map P ys') @ z # r'" using t by (simp add: tl_def)
      thus ?thesis
      proof (rule Cons.IH [rotated -1])
        show "\<exists>c cs. P x = c # cs \<and> c \<noteq> z" if "x \<in> set xs" for x using Cons.prems(1) that by simp
        show "\<exists>c cs. P y = c # cs \<and> c \<noteq> z" if "y \<in> set ys'" for y using Cons.prems(2) that ys by simp
        show "z \<in> {CHR '']'', CHR ''}''}" by fact
        show "x = y \<and> r = r'" if "x \<in> set xs" "y \<in> set ys'" "delim r" "delim r'" "P x @ r = P y @ r'" for x y r r'
          using Cons.prems(4) [of x y r r'] that ys by simp
      qed
    qed
    ultimately show ?thesis using ys by simp
  qed
qed

lemma print_tree_prefix:
  "tree_ok t \<Longrightarrow> tree_ok u \<Longrightarrow> delim r \<Longrightarrow> delim r' \<Longrightarrow> print_tree t @ r = print_tree u @ r' \<Longrightarrow> t = u \<and> r = r'"
proof (induction t arbitrary: u r r')
  case CNull
  have "kind u = K_null" using print_kind [OF CNull.prems(1,2,5)] by simp
  thus ?case using CNull by (cases u) (auto split: if_splits)
next
  case (CBool b)
  have "kind u = kind (CBool b)" using print_kind [OF CBool.prems(1,2,5)] by simp
  thus ?case using CBool by (cases u; cases b) (auto split: if_splits)
next
  case (CNum s)
  have "kind u = K_num" using print_kind [OF CNum.prems(1,2,5)] by simp
  thus ?case using CNum numeric_prefix [of s _ r r'] by (cases u) (auto split: if_splits)
next
  case (CStr s)
  have "kind u = K_str" using print_kind [OF CStr.prems(1,2,5)] by simp
  thus ?case using CStr stringify_prefix [of s r _ r'] by (cases u) (auto split: if_splits)
next
  case (CArr ts)
  have "kind u = K_arr" using print_kind [OF CArr.prems(1,2,5)] by simp
  then obtain us where u: "u = CArr us" by (cases u) (auto split: if_splits)
  have h: "\<exists>c cs. print_tree w = c # cs \<and> c \<noteq> CHR '']''" if "tree_ok w" for w
    using print_head [OF that] by auto
  have "ts = us \<and> r = r'"
  proof (rule join_prefix [where P = print_tree and z = "CHR '']''"])
    show "join '','' (map print_tree ts) @ CHR '']'' # r = join '','' (map print_tree us) @ CHR '']'' # r'"
      using CArr.prems(5) u by simp
  qed (use CArr.prems u h CArr.IH in \<open>auto simp: list_all_iff\<close>)
  thus ?case using u by simp
next
  case (CObj m)
  have "kind u = K_obj" using print_kind [OF CObj.prems(1,2,5)] by simp
  then obtain m' where u: "u = CObj m'" by (cases u) (auto split: if_splits)
  let ?P = "\<lambda>p. stringifyString (fst p) @ '':'' @ print_tree (snd p)"
  have "m = m' \<and> r = r'"
  proof (rule join_prefix [where P = ?P and z = "CHR ''}''"])
    show "join '','' (map ?P m) @ CHR ''}'' # r = join '','' (map ?P m') @ CHR ''}'' # r'"
      using CObj.prems(5) u by simp
    fix p q s s' assume p: "p \<in> set m" "q \<in> set m'" "delim s" "delim s'" "?P p @ s = ?P q @ s'"
    have "fst p = fst q \<and> ('':'' @ print_tree (snd p)) @ s = ('':'' @ print_tree (snd q)) @ s'"
      using stringify_prefix [of "fst p" "('':'' @ print_tree (snd p)) @ s" "fst q" "('':'' @ print_tree (snd q)) @ s'"]
        p(5) by simp
    hence k: "fst p = fst q" "print_tree (snd p) @ s = print_tree (snd q) @ s'" by simp_all
    have "snd p = snd q \<and> s = s'"
      using CObj.IH [of p "snd p" "snd q" s s'] CObj.prems(1,2) u p k(2)
      by (auto simp: list_all_iff snds.simps)
    thus "p = q \<and> s = s'" using k(1) by (simp add: prod_eq_iff)
  qed (use CObj.prems u in \<open>auto simp: stringifyString_def\<close>)
  thus ?case using u by simp
qed

subsection \<open>Canonical text and normal form\<close>

lemma showNat_numeric: "numeric (showNat n)"
proof (induction n rule: showNat.induct)
  case (1 n)
  have d: "digit k \<in> set num_chars" if "k < 10" for k
  proof -
    have "\<forall>k \<in> set [0..<10]. digit k \<in> set num_chars" by code_simp
    thus ?thesis using that by simp
  qed
  show ?case
  proof (cases "n < 10")
    case True
    thus ?thesis using d by (simp add: showNat.simps [of n] numeric_def)
  next
    case False
    thus ?thesis using 1 d [of "n mod 10"] by (simp add: showNat.simps [of n] numeric_def)
  qed
qed

lemma showInt_numeric: "numeric (showInt i)"
proof -
  have "CHR ''-'' \<in> set num_chars" by (simp add: num_chars_def)
  thus ?thesis using showNat_numeric by (simp add: showInt_def numeric_def)
qed

lemma collect_all: "collect xs = Inr ys \<Longrightarrow> xs = map Inr ys"
  by (induction xs arbitrary: ys) (auto split: sum.splits)

lemma map_sum_Inr: "map_sum id f x = Inr t \<longleftrightarrow> (\<exists>a. x = Inr a \<and> t = f a)"
  by (cases x) auto

lemma collect_list_all:
  assumes "collect (map f xs) = Inr ys" "\<And>x y. x \<in> set xs \<Longrightarrow> f x = Inr y \<Longrightarrow> P y"
  shows "list_all P ys"
proof -
  have e: "map f xs = map Inr ys" by (rule collect_all [OF assms(1)])
  have "P y" if "y \<in> set ys" for y
  proof -
    have "Inr y \<in> set (map f xs)" unfolding e using that by simp
    thus ?thesis using assms(2) by auto
  qed
  thus ?thesis by (simp add: list_all_iff)
qed

lemma quantize_numeric:
  assumes "\<forall>r. numeric (dec8 r)" "quantizeToString dec8 n = Inr s" shows "numeric s"
  using assms showInt_numeric by (cases n) (auto simp: quantizeToString_def split: if_splits)

lemma normal_form_ok: "\<forall>r. numeric (dec8 r) \<Longrightarrow> normal_form dec8 v = Inr t \<Longrightarrow> tree_ok t"
proof (induction dec8 v arbitrary: t rule: normal_form.induct)
  case (2 dec8 n)
  thus ?case using quantize_numeric by (auto simp: map_sum_Inr)
next
  case (5 dec8 vs)
  then obtain ts where ts: "collect (map (\<lambda>v. if v = JUndef then Inr CNull else normal_form dec8 v) vs) = Inr ts"
      "t = CArr ts"
    by (auto simp: map_sum_Inr)
  have "list_all tree_ok ts"
  proof (rule collect_list_all [OF ts(1)])
    fix v u assume "v \<in> set vs" "(if v = JUndef then Inr CNull else normal_form dec8 v) = Inr u"
    thus "tree_ok u" using 5 by (cases "v = JUndef") auto
  qed
  thus ?case using ts(2) by simp
next
  case (6 dec8 m)
  then obtain ps where ps: "collect (map (\<lambda>p. map_sum id (Pair (fst p)) (normal_form dec8 (snd p))) (definedMembers m)) = Inr ps"
      "t = CObj ps"
    by (auto simp: map_sum_Inr)
  have "list_all (\<lambda>p. tree_ok (snd p)) ps"
  proof (rule collect_list_all [OF ps(1)])
    fix p q assume p: "p \<in> set (definedMembers m)" "map_sum id (Pair (fst p)) (normal_form dec8 (snd p)) = Inr q"
    then obtain a where "normal_form dec8 (snd p) = Inr a" "q = (fst p, a)" by (auto simp: map_sum_Inr)
    thus "tree_ok (snd q)" using "6.IH" [OF p(1) "6.prems"(1)] by simp
  qed
  thus ?case using ps(2) by simp
qed auto

lemma canonicalJson_normal_form:
  "canonicalJson dec8 v = map_sum id (\<lambda>t. print_tree t @ [CHR 0x0A]) (normal_form dec8 v)"
  by (simp only: canonicalJson_def serialize_normal_form map_sum_id_comp comp_def)

theorem canonicalJson_eq_iff:
  assumes "\<forall>r. numeric (dec8 r)"
  shows "canonicalJson dec8 v = canonicalJson dec8 w \<longleftrightarrow> normal_form dec8 v = normal_form dec8 w"
proof
  assume e: "canonicalJson dec8 v = canonicalJson dec8 w"
  show "normal_form dec8 v = normal_form dec8 w"
  proof (cases "normal_form dec8 v")
    case (Inl a)
    thus ?thesis using e by (cases "normal_form dec8 w") (simp_all add: canonicalJson_normal_form)
  next
    case t: (Inr t)
    then obtain u where u: "normal_form dec8 w = Inr u"
      using e by (cases "normal_form dec8 w") (simp_all add: canonicalJson_normal_form)
    have "print_tree t @ [CHR 0x0A] = print_tree u @ [CHR 0x0A]"
      using e t u by (simp add: canonicalJson_normal_form)
    moreover have "delim [CHR 0x0A]" by (simp add: delim_def)
    ultimately have "t = u" using print_tree_prefix normal_form_ok [OF assms t] normal_form_ok [OF assms u] by blast
    thus ?thesis using t u by simp
  qed
qed (simp add: canonicalJson_normal_form)

text \<open>Two objects with the same members in a different insertion order have the same normal form.\<close>

lemma definedMembers_order:
  assumes "distinct (map fst m)" "mset m = mset m'"
  shows "definedMembers m = definedMembers m'"
proof -
  let ?f = "\<lambda>p. snd p \<noteq> JUndef"
  have ms: "mset (filter ?f m) = mset (filter ?f m')" using assms(2) by simp
  have "inj_on fst (set m)" using assms(1) by (simp add: distinct_map)
  hence i: "inj_on fst (set (sort_key fst (filter ?f m)))" by (auto intro: inj_on_subset)
  show ?thesis unfolding definedMembers_def
    by (rule sort_key_inj_key_eq [of _ _ fst]) (use ms i in simp_all)
qed

lemma normal_form_order:
  assumes "distinct (map fst m)" "mset m = mset m'"
  shows "normal_form dec8 (JObj m) = normal_form dec8 (JObj m')"
  using definedMembers_order [OF assms] by simp

end
