(* ===== verification/Fingerprint.thy ===== *)
theory Fingerprint
  imports Canonical_Json_Facts
begin

text \<open>
  Content hashing (\<open>packages/sdk/src/internal/content-hash.ts\<close>) and the request fingerprint
  (\<open>apps/backtester/src/jobs/fingerprint.ts\<close>).  SHA-256 is a parameter \<open>sha256\<close> from text to hex digest;
  where a statement needs it, the hypothesis is that the two texts it compares do not collide.
\<close>

definition contentRef :: "(rat \<Rightarrow> string) \<Rightarrow> (string \<Rightarrow> string) \<Rightarrow> json \<Rightarrow> canon_error + content_hash" where
  "contentRef dec8 sha256 payload = map_sum id (\<lambda>s. ''sha256:'' @ sha256 s) (canonicalJson dec8 payload)"

text \<open>\<open>req.k ?? d\<close>.\<close>

definition field_or :: "json \<Rightarrow> string \<Rightarrow> json \<Rightarrow> json" where
  "field_or req k d = (case field req k of JUndef \<Rightarrow> d | JNull \<Rightarrow> d | v \<Rightarrow> v)"

definition normalizeRequest :: "json \<Rightarrow> json \<Rightarrow> json" where
  "normalizeRequest req bundleHashValue = JObj (
     [(''datasetRef'', field req ''datasetRef''),
      (''moduleRef'', field req ''moduleRef''),
      (''moduleBundle'', bundleHashValue),
      (''symbols'', field req ''symbols''),
      (''timeframe'', field req ''timeframe''),
      (''period'', field req ''period''),
      (''params'', field_or req ''params'' JNull),
      (''seed'', field req ''seed''),
      (''mode'', field req ''mode''),
      (''metrics'', field_or req ''metrics'' (JArr [])),
      (''engine'', field_or req ''engine'' JNull),
      (''overlayRefs'', field_or req ''overlayRefs'' (JArr [])),
      (''riskProfileRef'', field_or req ''riskProfileRef'' JNull),
      (''executionProfileRef'', field_or req ''executionProfileRef'' JNull),
      (''robustnessChecks'', field_or req ''robustnessChecks'' (JArr []))]
     @ (if field req ''curatedBaselineRef'' \<noteq> JUndef
        then [(''curatedBaselineRef'', field req ''curatedBaselineRef'')] else [])
     @ (if field req ''walkForward'' \<noteq> JUndef then [(''walkForward'', field req ''walkForward'')] else []))"

definition bundleHashValue :: "(rat \<Rightarrow> string) \<Rightarrow> (string \<Rightarrow> string) \<Rightarrow> json \<Rightarrow> canon_error + json" where
  "bundleHashValue dec8 sha256 req =
     (if json_truthy (field req ''moduleBundle'')
      then map_sum id JStr (contentRef dec8 sha256 (field req ''moduleBundle''))
      else Inr (field_or req ''bundleRef'' JNull))"

definition fingerprintOf :: "(rat \<Rightarrow> string) \<Rightarrow> (string \<Rightarrow> string) \<Rightarrow> json \<Rightarrow> json \<Rightarrow> canon_error + string" where
  "fingerprintOf dec8 sha256 req bh = map_sum id sha256 (canonicalJson dec8 (normalizeRequest req bh))"

definition requestFingerprint_of :: "(rat \<Rightarrow> string) \<Rightarrow> (string \<Rightarrow> string) \<Rightarrow> json \<Rightarrow> canon_error + string" where
  "requestFingerprint_of dec8 sha256 req = (case bundleHashValue dec8 sha256 req of
      Inl e \<Rightarrow> Inl e | Inr bh \<Rightarrow> fingerprintOf dec8 sha256 req bh)"

definition hashOrNull :: "content_hash option \<Rightarrow> json" where
  "hashOrNull h = (case h of None \<Rightarrow> JNull | Some s \<Rightarrow> JStr s)"

definition storedRequestFingerprint ::
    "(rat \<Rightarrow> string) \<Rightarrow> (string \<Rightarrow> string) \<Rightarrow> json \<Rightarrow> content_hash option \<Rightarrow> canon_error + string" where
  "storedRequestFingerprint dec8 sha256 req h = fingerprintOf dec8 sha256 req (hashOrNull h)"

subsection \<open>When two fingerprints are equal\<close>

text \<open>The two texts do not collide under the hash.\<close>

definition no_collision :: "(string \<Rightarrow> string) \<Rightarrow> canon_error + string \<Rightarrow> canon_error + string \<Rightarrow> bool" where
  "no_collision sha256 s t = (case (s, t) of (Inr a, Inr b) \<Rightarrow> sha256 a = sha256 b \<longrightarrow> a = b | _ \<Rightarrow> True)"

lemma hashed_eq_iff:
  assumes "no_collision sha256 s t"
  shows "map_sum id sha256 s = map_sum id sha256 t \<longleftrightarrow> s = t"
  using assms by (cases s; cases t) (auto simp: no_collision_def)

lemma fingerprint_eq_iff:
  assumes "\<forall>r. numeric (dec8 r)"
    and "no_collision sha256 (canonicalJson dec8 (normalizeRequest r b)) (canonicalJson dec8 (normalizeRequest r' b'))"
  shows "fingerprintOf dec8 sha256 r b = fingerprintOf dec8 sha256 r' b' \<longleftrightarrow>
    normal_form dec8 (normalizeRequest r b) = normal_form dec8 (normalizeRequest r' b')"
  unfolding fingerprintOf_def hashed_eq_iff [OF assms(2)] by (rule canonicalJson_eq_iff [OF assms(1)])

text \<open>A member of an object's normal form.\<close>

lemma normal_form_members:
  assumes "normal_form dec8 (JObj m) = Inr (CObj ps)" "distinct (map fst m)" "(k, v) \<in> set m" "v \<noteq> JUndef"
  shows "\<exists>t. normal_form dec8 v = Inr t \<and> map_of ps k = Some t"
proof -
  let ?d = "definedMembers m"
  let ?f = "\<lambda>p. map_sum id (Pair (fst p)) (normal_form dec8 (snd p))"
  have "collect (map ?f ?d) = Inr ps" using assms(1) by (auto simp: map_sum_Inr)
  from collect_all [OF this] have e: "map ?f ?d = map Inr ps" .
  have "distinct (map fst ?d)"
  proof -
    have "distinct (map fst (filter (\<lambda>p. snd p \<noteq> JUndef) m))" using assms(2) by (rule distinct_map_filter)
    thus ?thesis by (simp add: definedMembers_def distinct_map)
  qed
  moreover have k: "map fst ps = map fst ?d"
  proof (rule nth_equalityI)
    show l: "length (map fst ps) = length (map fst ?d)" using map_eq_imp_length_eq [OF e] by simp
    fix i assume i: "i < length (map fst ps)"
    have "?f (?d ! i) = Inr (ps ! i)" using arg_cong [OF e, of "\<lambda>xs. xs ! i"] i l by simp
    thus "map fst ps ! i = map fst ?d ! i" using i l by (auto simp: map_sum_Inr)
  qed
  ultimately have dp: "distinct (map fst ps)" by simp
  have "(k, v) \<in> set ?d" using assms(3,4) by (simp add: definedMembers_def)
  hence "?f (k, v) \<in> set (map Inr ps)" unfolding e [symmetric] set_map by (rule imageI)
  then obtain q where q: "q \<in> set ps" "?f (k, v) = Inr q" by auto
  then obtain t where "normal_form dec8 v = Inr t" "q = (k, t)" by (auto simp: map_sum_Inr)
  thus ?thesis using q(1) dp by auto
qed

text \<open>The fields the fingerprint reads.\<close>

definition runAffecting :: "string list" where
  "runAffecting = [''datasetRef'', ''moduleRef'', ''moduleBundle'', ''bundleRef'', ''symbols'', ''timeframe'', ''period'',
     ''params'', ''seed'', ''mode'', ''metrics'', ''engine'', ''overlayRefs'', ''riskProfileRef'',
     ''executionProfileRef'', ''robustnessChecks'', ''curatedBaselineRef'', ''walkForward'']"

lemma normalize_cong:
  assumes "\<forall>k \<in> set runAffecting - {''moduleBundle'', ''bundleRef''}. field r k = field r' k"
  shows "normalizeRequest r b = normalizeRequest r' b"
proof -
  have f: "field r k = field r' k" if "list_ex (\<lambda>x. x = k) (filter (\<lambda>k. k \<noteq> ''moduleBundle'' \<and> k \<noteq> ''bundleRef'') runAffecting)" for k
    using assms that by (auto simp: list_ex_iff)
  have "field r ''datasetRef'' = field r' ''datasetRef''" "field r ''moduleRef'' = field r' ''moduleRef''"
    "field r ''symbols'' = field r' ''symbols''" "field r ''timeframe'' = field r' ''timeframe''"
    "field r ''period'' = field r' ''period''" "field r ''params'' = field r' ''params''"
    "field r ''seed'' = field r' ''seed''" "field r ''mode'' = field r' ''mode''"
    "field r ''metrics'' = field r' ''metrics''" "field r ''engine'' = field r' ''engine''"
    "field r ''overlayRefs'' = field r' ''overlayRefs''" "field r ''riskProfileRef'' = field r' ''riskProfileRef''"
    "field r ''executionProfileRef'' = field r' ''executionProfileRef''"
    "field r ''robustnessChecks'' = field r' ''robustnessChecks''"
    "field r ''curatedBaselineRef'' = field r' ''curatedBaselineRef''" "field r ''walkForward'' = field r' ''walkForward''"
    by (rule f, code_simp)+
  thus ?thesis unfolding normalizeRequest_def field_or_def by (simp only:)
qed

lemma requestFingerprint_cong:
  assumes "\<forall>k \<in> set runAffecting. field r k = field r' k"
  shows "requestFingerprint_of dec8 sha256 r = requestFingerprint_of dec8 sha256 r'"
proof -
  have "''moduleBundle'' \<in> set runAffecting" "''bundleRef'' \<in> set runAffecting" by code_simp+
  hence "bundleHashValue dec8 sha256 r = bundleHashValue dec8 sha256 r'"
    using assms by (simp add: bundleHashValue_def field_or_def)
  moreover have "normalizeRequest r bh = normalizeRequest r' bh" for bh using normalize_cong [of r r'] assms by simp
  hence "fingerprintOf dec8 sha256 r = fingerprintOf dec8 sha256 r'" unfolding fingerprintOf_def by simp
  ultimately show ?thesis by (simp add: requestFingerprint_of_def split: sum.split)
qed

subsection \<open>Exactness\<close>

text \<open>Two member values that serialise alike: both \<open>undefined\<close> (left out), or both present with the same
  normal form.\<close>

definition sameValue :: "(rat \<Rightarrow> string) \<Rightarrow> json \<Rightarrow> json \<Rightarrow> bool" where
  "sameValue dec8 v w \<longleftrightarrow> (v = JUndef) = (w = JUndef) \<and> (v \<noteq> JUndef \<longrightarrow> normal_form dec8 v = normal_form dec8 w)"

lemma collect_iff: "collect xs = Inr ys \<longleftrightarrow> xs = map Inr ys"
proof
  show "xs = map Inr ys \<Longrightarrow> collect xs = Inr ys" by (induction ys arbitrary: xs) auto
qed (rule collect_all)

lemma map_insort_keyed: "map (\<lambda>x. (fst x, h x)) (insort_key fst a xs) = insort_key fst (fst a, h a) (map (\<lambda>x. (fst x, h x)) xs)"
  by (induction xs) auto

lemma map_sort_keyed: "map (\<lambda>x. (fst x, h x)) (sort_key fst xs) = sort_key fst (map (\<lambda>x. (fst x, h x)) xs)"
  by (induction xs) (simp_all add: sort_key_def map_insort_keyed)

text \<open>The normal form of an object is the sorted list of its defined members' normal forms.\<close>

lemma normal_form_object:
  "normal_form dec8 (JObj m) = Inr t \<longleftrightarrow>
    (\<exists>ps. t = CObj ps \<and> map (\<lambda>p. map_sum id (Pair (fst p)) (normal_form dec8 (snd p))) (definedMembers m) = map Inr ps)"
proof -
  let ?xs = "map (\<lambda>p. map_sum id (Pair (fst p)) (normal_form dec8 (snd p))) (definedMembers m)"
  have "normal_form dec8 (JObj m) = Inr t \<longleftrightarrow> (\<exists>ps. collect ?xs = Inr ps \<and> t = CObj ps)"
    by (simp only: normal_form.simps map_sum_Inr)
  thus ?thesis by (auto simp only: collect_iff)
qed

lemma defined_keys: "distinct (map fst m) \<Longrightarrow> distinct (map fst (definedMembers m))"
  using distinct_map_filter [of fst m "\<lambda>p. snd p \<noteq> JUndef"] by (simp add: definedMembers_def distinct_map)

lemma normal_form_missing:
  assumes "normal_form dec8 (JObj m) = Inr (CObj ps)" "\<And>v. (k, v) \<in> set m \<Longrightarrow> v = JUndef"
  shows "k \<notin> fst ` set ps"
proof
  let ?f = "\<lambda>p. map_sum id (Pair (fst p)) (normal_form dec8 (snd p))"
  assume "k \<in> fst ` set ps"
  then obtain q where q: "q \<in> set ps" "fst q = k" by auto
  have e: "map ?f (definedMembers m) = map Inr ps" using assms(1) by (auto simp only: normal_form_object)
  have "Inr q \<in> set (map Inr ps)" using q by simp
  hence "Inr q \<in> set (map ?f (definedMembers m))" by (simp only: e)
  then obtain p where p: "p \<in> set (definedMembers m)" "Inr q = ?f p" by auto
  hence "?f p = Inr q" by simp
  hence "fst p = k" using q by (auto simp: map_sum_Inr)
  thus False using p assms(2) [of "snd p"] by (cases p) (auto simp: definedMembers_def)
qed

text \<open>Two objects over the same keys have the same normal form exactly when their values agree key by key.\<close>

lemma normal_form_agree:
  assumes "distinct (map fst m)" "map fst m' = map fst m" "normal_form dec8 (JObj m) = Inr t"
  shows "normal_form dec8 (JObj m') = Inr t \<longleftrightarrow> list_all2 (\<lambda>p q. sameValue dec8 (snd p) (snd q)) m m'"
proof -
  obtain ps where ps: "t = CObj ps" using assms(3) by (auto simp only: normal_form_object)
  have l: "length m' = length m" using assms(2) by (rule map_eq_imp_length_eq)
  have k: "fst (m' ! i) = fst (m ! i)" if "i < length m" for i
    using that assms(2) l by (metis nth_map)
  have d': "distinct (map fst m')" using assms(1,2) by simp
  show ?thesis
  proof
    assume n: "normal_form dec8 (JObj m') = Inr t"
    have "sameValue dec8 (snd (m ! i)) (snd (m' ! i))" if i: "i < length m" for i
    proof -
      let ?k = "fst (m ! i)" and ?v = "snd (m ! i)" and ?w = "snd (m' ! i)"
      have v: "(?k, ?v) \<in> set m" using i by simp
      have w: "(?k, ?w) \<in> set m'" using i l k [OF i] by (metis nth_mem prod.collapse)
      have uv: "v = ?v" if "(?k, v) \<in> set m" for v using that v assms(1) by (metis eq_key_imp_eq_value)
      have uw: "v = ?w" if "(?k, v) \<in> set m'" for v using that w d' by (metis eq_key_imp_eq_value)
      have av: "?v \<noteq> JUndef \<Longrightarrow> \<exists>t. normal_form dec8 ?v = Inr t \<and> map_of ps ?k = Some t"
        using normal_form_members [of dec8 m ps ?k ?v] assms(1,3) v ps by simp
      have aw: "?w \<noteq> JUndef \<Longrightarrow> \<exists>t. normal_form dec8 ?w = Inr t \<and> map_of ps ?k = Some t"
        using normal_form_members [of dec8 m' ps ?k ?w] d' n w ps by simp
      have nv: "?v = JUndef \<Longrightarrow> map_of ps ?k = None"
        using normal_form_missing [of dec8 m ps ?k] assms(3) uv ps by (auto simp: map_of_eq_None_iff)
      have nw: "?w = JUndef \<Longrightarrow> map_of ps ?k = None"
        using normal_form_missing [of dec8 m' ps ?k] n uw ps by (auto simp: map_of_eq_None_iff)
      show ?thesis unfolding sameValue_def using av aw nv nw by force
    qed
    thus "list_all2 (\<lambda>p q. sameValue dec8 (snd p) (snd q)) m m'" using l by (simp add: list_all2_conv_all_nth)
  next
    assume a: "list_all2 (\<lambda>p q. sameValue dec8 (snd p) (snd q)) m m'"
    let ?f = "\<lambda>p. map_sum id (Pair (fst p)) (normal_form dec8 (snd p))"
    have "map ?f (definedMembers m) = map ?f (definedMembers m')"
    proof -
      let ?h = "\<lambda>x. (fst x, map_sum id (Pair (fst x)) (normal_form dec8 (snd x)))"
      have "map ?f [p \<leftarrow> m. snd p \<noteq> JUndef] = map ?f [p \<leftarrow> m'. snd p \<noteq> JUndef]"
        and "map fst [p \<leftarrow> m. snd p \<noteq> JUndef] = map fst [p \<leftarrow> m'. snd p \<noteq> JUndef]"
        using a assms(2) by (induction rule: list_all2_induct) (auto simp: sameValue_def)
      hence z: "map ?h [p \<leftarrow> m. snd p \<noteq> JUndef] = map ?h [p \<leftarrow> m'. snd p \<noteq> JUndef]"
        by (auto simp: list_eq_iff_nth_eq)
      have "map ?h (definedMembers m) = map ?h (definedMembers m')"
        unfolding definedMembers_def map_sort_keyed z by (rule refl)
      hence "map (snd \<circ> ?h) (definedMembers m) = map (snd \<circ> ?h) (definedMembers m')"
        by (metis map_map)
      thus ?thesis by (simp add: comp_def)
    qed
    thus "normal_form dec8 (JObj m') = Inr t" using assms(3) by (simp only: normal_form_object)
  qed
qed

text \<open>The members of a normalised request, the two conditional ones included as \<open>undefined\<close> when absent.\<close>

definition requestMembers :: "json \<Rightarrow> json \<Rightarrow> (string \<times> json) list" where
  "requestMembers r b =
     [(''datasetRef'', field r ''datasetRef''), (''moduleRef'', field r ''moduleRef''), (''moduleBundle'', b),
      (''symbols'', field r ''symbols''), (''timeframe'', field r ''timeframe''), (''period'', field r ''period''),
      (''params'', field_or r ''params'' JNull), (''seed'', field r ''seed''), (''mode'', field r ''mode''),
      (''metrics'', field_or r ''metrics'' (JArr [])), (''engine'', field_or r ''engine'' JNull),
      (''overlayRefs'', field_or r ''overlayRefs'' (JArr [])), (''riskProfileRef'', field_or r ''riskProfileRef'' JNull),
      (''executionProfileRef'', field_or r ''executionProfileRef'' JNull),
      (''robustnessChecks'', field_or r ''robustnessChecks'' (JArr []))]
     @ [(''curatedBaselineRef'', field r ''curatedBaselineRef''), (''walkForward'', field r ''walkForward'')]"

lemma requestMembers_keys: "map fst (requestMembers r b) = map fst (requestMembers r' b')"
  by (simp add: requestMembers_def)

lemma requestMembers_distinct: "distinct (map fst (requestMembers r b))"
  by (simp add: requestMembers_def)

lemma conditional_members:
  "[p \<leftarrow> A @ (if x \<noteq> JUndef then [(k, x)] else []) @ (if y \<noteq> JUndef then [(l, y)] else []). snd p \<noteq> JUndef] =
   [p \<leftarrow> A @ [(k, x), (l, y)]. snd p \<noteq> JUndef]"
  by simp

lemma normalize_members:
  "normal_form dec8 (normalizeRequest r b) = normal_form dec8 (JObj (requestMembers r b))"
proof -
  have "\<exists>m. normalizeRequest r b = JObj m \<and> [p \<leftarrow> m. snd p \<noteq> JUndef] = [p \<leftarrow> requestMembers r b. snd p \<noteq> JUndef]"
    unfolding requestMembers_def by (intro exI conjI, rule normalizeRequest_def) (rule conditional_members)
  then obtain m where m: "normalizeRequest r b = JObj m" "definedMembers m = definedMembers (requestMembers r b)"
    unfolding definedMembers_def by metis
  show ?thesis unfolding m(1) normal_form.simps m(2) by (rule refl)
qed

text \<open>Two requests name the same bundle: two inline ones with the same canonical content, two references that
  serialise alike, or an inline one and a reference that is its content hash.\<close>

definition sameBundle :: "(rat \<Rightarrow> string) \<Rightarrow> (string \<Rightarrow> string) \<Rightarrow> json \<Rightarrow> json \<Rightarrow> bool" where
  "sameBundle dec8 sha256 r r' =
     (let v = field r ''moduleBundle''; w = field r' ''moduleBundle'';
          p = field_or r ''bundleRef'' JNull; q = field_or r' ''bundleRef'' JNull in
      if json_truthy v \<and> json_truthy w then normal_form dec8 v = normal_form dec8 w
      else if json_truthy v then map_sum id JStr (contentRef dec8 sha256 v) = Inr q
      else if json_truthy w then map_sum id JStr (contentRef dec8 sha256 w) = Inr p
      else normal_form dec8 p = normal_form dec8 q)"

text \<open>The hash collides neither on the two inline bundles nor on the two requests.\<close>

definition collision_free :: "(rat \<Rightarrow> string) \<Rightarrow> (string \<Rightarrow> string) \<Rightarrow> json \<Rightarrow> json \<Rightarrow> bool" where
  "collision_free dec8 sha256 r r' \<longleftrightarrow>
     no_collision sha256 (canonicalJson dec8 (field r ''moduleBundle'')) (canonicalJson dec8 (field r' ''moduleBundle'')) \<and>
     (case (bundleHashValue dec8 sha256 r, bundleHashValue dec8 sha256 r') of
        (Inr b, Inr b') \<Rightarrow> no_collision sha256 (canonicalJson dec8 (normalizeRequest r b))
          (canonicalJson dec8 (normalizeRequest r' b'))
      | _ \<Rightarrow> True)"

lemma field_or_defined: "d \<noteq> JUndef \<Longrightarrow> field_or r k d \<noteq> JUndef"
  by (simp add: field_or_def split: json.splits)

lemma bundleHashValue_defined: "bundleHashValue dec8 sha256 r = Inr b \<Longrightarrow> b \<noteq> JUndef"
  by (auto simp: bundleHashValue_def field_or_defined map_sum_Inr split: if_splits)

lemma normal_form_string: "normal_form dec8 v = Inr (CStr s) \<longleftrightarrow> v = JStr s"
  by (cases v) (auto simp: map_sum_Inr)

lemma contentRef_agree:
  assumes dec8: "\<forall>r. numeric (dec8 r)" and nc: "no_collision sha256 (canonicalJson dec8 v) (canonicalJson dec8 w)"
  shows "contentRef dec8 sha256 v = contentRef dec8 sha256 w \<longleftrightarrow> normal_form dec8 v = normal_form dec8 w"
proof -
  have "contentRef dec8 sha256 v = contentRef dec8 sha256 w \<longleftrightarrow>
      map_sum id sha256 (canonicalJson dec8 v) = map_sum id sha256 (canonicalJson dec8 w)"
    unfolding contentRef_def by (cases "canonicalJson dec8 v"; cases "canonicalJson dec8 w") simp_all
  thus ?thesis unfolding hashed_eq_iff [OF nc] canonicalJson_eq_iff [OF dec8] .
qed

lemma bundle_agree:
  assumes dec8: "\<forall>r. numeric (dec8 r)"
    and nc: "no_collision sha256 (canonicalJson dec8 (field r ''moduleBundle'')) (canonicalJson dec8 (field r' ''moduleBundle''))"
    and b: "bundleHashValue dec8 sha256 r = Inr b"
  shows "bundleHashValue dec8 sha256 r' = Inr b' \<Longrightarrow> sameBundle dec8 sha256 r r' \<longleftrightarrow> sameValue dec8 b b'"
    and "sameBundle dec8 sha256 r r' \<Longrightarrow> \<exists>b'. bundleHashValue dec8 sha256 r' = Inr b'"
proof -
  let ?v = "field r ''moduleBundle''" and ?w = "field r' ''moduleBundle''"
  have j: "map_sum id JStr x = map_sum id JStr y \<longleftrightarrow> x = y" for x y :: "canon_error + string"
    by (cases x; cases y) simp_all
  have s: "normal_form dec8 (JStr x) = normal_form dec8 q \<longleftrightarrow> JStr x = q"
    "normal_form dec8 q = normal_form dec8 (JStr x) \<longleftrightarrow> q = JStr x" for x q
    using normal_form_string [of dec8 q x] by auto
  note cr = contentRef_agree [OF dec8 nc]
  show "sameBundle dec8 sha256 r r' \<longleftrightarrow> sameValue dec8 b b'" if b': "bundleHashValue dec8 sha256 r' = Inr b'"
  proof -
    have d: "b \<noteq> JUndef" "b' \<noteq> JUndef" using bundleHashValue_defined b b' by auto
    show ?thesis
    proof (cases "json_truthy ?v"; cases "json_truthy ?w")
      assume t: "json_truthy ?v" "json_truthy ?w"
      then obtain h h' where h: "contentRef dec8 sha256 ?v = Inr h" "b = JStr h" "contentRef dec8 sha256 ?w = Inr h'" "b' = JStr h'"
        using b b' by (auto simp: bundleHashValue_def map_sum_Inr)
      thus ?thesis using t cr by (simp add: sameBundle_def Let_def sameValue_def)
    qed (use b b' d s in \<open>auto simp: bundleHashValue_def sameBundle_def Let_def sameValue_def map_sum_Inr\<close>)
  qed
  show "\<exists>b'. bundleHashValue dec8 sha256 r' = Inr b'" if sb: "sameBundle dec8 sha256 r r'"
  proof (cases "json_truthy ?v \<and> json_truthy ?w")
    case True
    hence "contentRef dec8 sha256 ?v = contentRef dec8 sha256 ?w" using sb cr by (simp add: sameBundle_def Let_def)
    thus ?thesis using True b by (auto simp: bundleHashValue_def map_sum_Inr)
  next
    case False
    thus ?thesis using sb b by (auto simp: bundleHashValue_def sameBundle_def Let_def split: if_splits)
  qed
qed

lemma members_agree:
  "list_all2 (\<lambda>p q. sameValue dec8 (snd p) (snd q)) (requestMembers r b) (requestMembers r' b') \<longleftrightarrow>
     sameValue dec8 b b' \<and>
     (\<forall>k \<in> {''datasetRef'', ''moduleRef'', ''symbols'', ''timeframe'', ''period'', ''seed'', ''mode'',
            ''curatedBaselineRef'', ''walkForward''}. sameValue dec8 (field r k) (field r' k)) \<and>
     (\<forall>k \<in> {''params'', ''engine'', ''riskProfileRef'', ''executionProfileRef''}.
        sameValue dec8 (field_or r k JNull) (field_or r' k JNull)) \<and>
     (\<forall>k \<in> {''metrics'', ''overlayRefs'', ''robustnessChecks''}.
        sameValue dec8 (field_or r k (JArr [])) (field_or r' k (JArr [])))"
  unfolding requestMembers_def list_all2_Cons list.rel_inject ball_simps snd_conv by auto

text \<open>Claim C24. The request fingerprint is exact.  When the hash does not collide on the texts compared, a
  request has the fingerprint of another exactly when both name the same bundle and every run-affecting field
  agrees: the required ones and the two conditional ones (\<open>curatedBaselineRef\<close>, \<open>walkForward\<close>) as they stand, the
  others after their default, each up to canonical form.  No other field of the request has any influence.\<close>
theorem fingerprint_exact:
  assumes dec8: "\<forall>x. numeric (dec8 x)" and nc: "collision_free dec8 sha256 r r'"
    and f: "requestFingerprint_of dec8 sha256 r = Inr f"
  shows "requestFingerprint_of dec8 sha256 r' = Inr f \<longleftrightarrow>
     sameBundle dec8 sha256 r r' \<and>
     (\<forall>k \<in> {''datasetRef'', ''moduleRef'', ''symbols'', ''timeframe'', ''period'', ''seed'', ''mode'',
            ''curatedBaselineRef'', ''walkForward''}. sameValue dec8 (field r k) (field r' k)) \<and>
     (\<forall>k \<in> {''params'', ''engine'', ''riskProfileRef'', ''executionProfileRef''}.
        sameValue dec8 (field_or r k JNull) (field_or r' k JNull)) \<and>
     (\<forall>k \<in> {''metrics'', ''overlayRefs'', ''robustnessChecks''}.
        sameValue dec8 (field_or r k (JArr [])) (field_or r' k (JArr [])))"
    (is "_ \<longleftrightarrow> _ \<and> ?fields")
proof -
  obtain b where b: "bundleHashValue dec8 sha256 r = Inr b" "fingerprintOf dec8 sha256 r b = Inr f"
    using f by (auto simp: requestFingerprint_of_def split: sum.splits)
  obtain t where t: "normal_form dec8 (JObj (requestMembers r b)) = Inr t"
    using b(2) by (auto simp: fingerprintOf_def canonicalJson_normal_form map_sum_Inr normalize_members)
  have nb: "no_collision sha256 (canonicalJson dec8 (field r ''moduleBundle'')) (canonicalJson dec8 (field r' ''moduleBundle''))"
    using nc by (simp add: collision_free_def)
  show ?thesis
  proof (cases "bundleHashValue dec8 sha256 r'")
    case (Inl e)
    thus ?thesis using bundle_agree(2) [OF dec8 nb b(1)] by (auto simp: requestFingerprint_of_def)
  next
    case (Inr b')
    have nr: "no_collision sha256 (canonicalJson dec8 (normalizeRequest r b)) (canonicalJson dec8 (normalizeRequest r' b'))"
      using nc b Inr by (simp add: collision_free_def)
    have "requestFingerprint_of dec8 sha256 r' = Inr f \<longleftrightarrow> fingerprintOf dec8 sha256 r b = fingerprintOf dec8 sha256 r' b'"
      using Inr b(2) by (auto simp: requestFingerprint_of_def)
    also have "\<dots> \<longleftrightarrow> normal_form dec8 (JObj (requestMembers r' b')) = Inr t"
      unfolding fingerprint_eq_iff [OF dec8 nr] normalize_members using t by auto
    also have "\<dots> \<longleftrightarrow> sameValue dec8 b b' \<and> ?fields"
      unfolding normal_form_agree [OF requestMembers_distinct requestMembers_keys t] by (rule members_agree)
    also have "\<dots> \<longleftrightarrow> sameBundle dec8 sha256 r r' \<and> ?fields"
      using bundle_agree(1) [OF dec8 nb b(1) Inr] by simp
    finally show ?thesis .
  qed
qed

definition sampleRequest :: json where
  "sampleRequest = JObj [(''datasetRef'', JStr ''d1''),
     (''moduleRef'', JObj [(''id'', JStr ''m''), (''version'', JStr ''1'')]),
     (''symbols'', JArr [JStr ''BTC'']), (''timeframe'', JStr ''1m''),
     (''period'', JObj [(''from'', JStr ''2024-01-01''), (''to'', JStr ''2024-02-01'')]),
     (''seed'', JNum (JFin 7)), (''mode'', JStr ''research'')]"

text \<open>The same request with its keys in another order and an orchestration field added.\<close>

definition sampleReplay :: json where
  "sampleReplay = JObj [(''timeframe'', JStr ''1m''), (''mode'', JStr ''research''), (''datasetRef'', JStr ''d1''),
     (''moduleRef'', JObj [(''version'', JStr ''1''), (''id'', JStr ''m'')]),
     (''symbols'', JArr [JStr ''BTC'']), (''correlationId'', JStr ''c''),
     (''period'', JObj [(''from'', JStr ''2024-01-01''), (''to'', JStr ''2024-02-01'')]),
     (''seed'', JNum (JFin 7))]"

text \<open>The same request with parameters: another run.\<close>

definition sampleVariant :: json where
  "sampleVariant = (case sampleRequest of JObj m \<Rightarrow> JObj ((''params'', JObj [(''n'', JNum (JFin 3))]) # m) | v \<Rightarrow> v)"

theorem fingerprint_exact_witness:
  "requestFingerprint_of (\<lambda>_. ''0'') id sampleReplay = requestFingerprint_of (\<lambda>_. ''0'') id sampleRequest \<and>
   requestFingerprint_of (\<lambda>_. ''0'') id sampleVariant \<noteq> requestFingerprint_of (\<lambda>_. ''0'') id sampleRequest"
proof -
  let ?d = "\<lambda>_ :: rat. ''0''"
  obtain f where f: "requestFingerprint_of ?d id sampleRequest = Inr f"
  proof -
    have "\<not> isl (requestFingerprint_of ?d id sampleRequest)" by code_simp
    thus thesis using that by (cases "requestFingerprint_of ?d id sampleRequest") simp_all
  qed
  have n: "\<forall>r. numeric (?d r)" by (simp add: numeric_def num_chars_def)
  have c: "collision_free ?d id r r'" for r r'
    by (simp add: collision_free_def no_collision_def split: sum.split)
  have "sameBundle ?d id sampleRequest sampleReplay \<and>
     (\<forall>k \<in> {''datasetRef'', ''moduleRef'', ''symbols'', ''timeframe'', ''period'', ''seed'', ''mode'',
            ''curatedBaselineRef'', ''walkForward''}. sameValue ?d (field sampleRequest k) (field sampleReplay k)) \<and>
     (\<forall>k \<in> {''params'', ''engine'', ''riskProfileRef'', ''executionProfileRef''}.
        sameValue ?d (field_or sampleRequest k JNull) (field_or sampleReplay k JNull)) \<and>
     (\<forall>k \<in> {''metrics'', ''overlayRefs'', ''robustnessChecks''}.
        sameValue ?d (field_or sampleRequest k (JArr [])) (field_or sampleReplay k (JArr [])))"
    by code_simp
  moreover have "\<not> sameValue ?d (field_or sampleRequest ''params'' JNull) (field_or sampleVariant ''params'' JNull)"
    by code_simp
  ultimately show ?thesis
    using fingerprint_exact [OF n c f, of sampleReplay] fingerprint_exact [OF n c f, of sampleVariant] f by auto
qed

end
