(* ===== verification/Restamp.thy ===== *)
theory Restamp
  imports Js_Text Canonical_Json
begin

text \<open>
  \<open>apps/backtester/src/jobs/dedup/restamp.ts\<close> and \<open>version.ts\<close>: a finished result is cached as a template
  in which the run id is replaced by a fixed sentinel, and served to another run by replacing the sentinel
  with that run's id.
\<close>

definition RUNID_SENTINEL :: string where
  "RUNID_SENTINEL = ''00000000-0000-0000-0000-000000000000''"

definition DEDUP_COMPUTE_VERSION :: string where
  "DEDUP_COMPUTE_VERSION = ''3''"

definition DEDUP_TEMPLATE_VERSION :: string where
  "DEDUP_TEMPLATE_VERSION = ''1''"

datatype dedup_engine = Eng_momentum | Eng_overlay | Eng_strategy

datatype dedup_payload_kind = RunOutcome | BacktestResult

record dedup_template =
  dt_engine :: dedup_engine
  dt_payloadKind :: dedup_payload_kind
  dt_templateVersion :: string
  dt_normalizedPayload :: json

subsection \<open>Splitting on a substring\<close>

definition push :: "char \<Rightarrow> string list \<Rightarrow> string list" where
  "push c ps = (case ps of [] \<Rightarrow> [[c]] | p # qs \<Rightarrow> (c # p) # qs)"

function split_str :: "string \<Rightarrow> string \<Rightarrow> string list" where
  "split_str f [] = [[]]"
| "split_str f (x # xs) = (if f \<noteq> [] \<and> prefix f (x # xs) then [] # split_str f (drop (length f) (x # xs))
     else push x (split_str f xs))"
  by pat_completeness auto
termination by (relation "measure (\<lambda>(f, s). length s)") auto

text \<open>\<open>s.split(from)\<close>: an empty separator splits into single characters.\<close>

definition js_split :: "string \<Rightarrow> string \<Rightarrow> string list" where
  "js_split f s = (if f = [] then map (\<lambda>c. [c]) s else split_str f s)"

fun includesStr :: "string \<Rightarrow> string \<Rightarrow> bool" where
  "includesStr t [] = (t = [])"
| "includesStr t (x # xs) = (prefix t (x # xs) \<or> includesStr t xs)"

fun substitute :: "json \<Rightarrow> string \<Rightarrow> string \<Rightarrow> json" where
  "substitute (JStr s) from to = JStr (joinWith to (js_split from s))"
| "substitute (JArr vs) from to = JArr (map (\<lambda>v. substitute v from to) vs)"
| "substitute (JObj m) from to = JObj (map (\<lambda>p. (fst p, substitute (snd p) from to)) m)"
| "substitute v from to = v"

definition kindFor :: "dedup_engine \<Rightarrow> dedup_payload_kind" where
  "kindFor engine = (if engine = Eng_momentum then BacktestResult else RunOutcome)"

text \<open>Whether the JSON text of a value contains the sentinel: it has only digits and dashes, so it can occur
  only inside the text of one string or one key; members that are \<open>undefined\<close> are not printed.\<close>

fun mentions :: "string \<Rightarrow> json \<Rightarrow> bool" where
  "mentions t (JStr s) = includesStr t (stringifyString s)"
| "mentions t (JArr vs) = list_ex (mentions t) vs"
| "mentions t (JObj m) = list_ex (\<lambda>p. snd p \<noteq> JUndef \<and> (includesStr t (stringifyString (fst p)) \<or> mentions t (snd p))) m"
| "mentions t _ = False"

definition normalizeTemplate :: "dedup_engine \<Rightarrow> json \<Rightarrow> string \<Rightarrow> dedup_template option" where
  "normalizeTemplate engine payload rid =
     (if mentions RUNID_SENTINEL payload then None
      else Some \<lparr>dt_engine = engine, dt_payloadKind = kindFor engine, dt_templateVersion = DEDUP_TEMPLATE_VERSION,
        dt_normalizedPayload = substitute payload rid RUNID_SENTINEL\<rparr>)"

definition restamp :: "dedup_template \<Rightarrow> string \<Rightarrow> json" where
  "restamp t rid = substitute (dt_normalizedPayload t) RUNID_SENTINEL rid"

subsection \<open>Splitting and joining\<close>

lemma push_Nil [simp]: "push c ps \<noteq> []"
  by (simp add: push_def split: list.split)

lemma split_str_Nil [simp]: "split_str f s \<noteq> []"
  by (cases s) auto

lemma push_simps [simp]: "push c (p # qs) = (c # p) # qs"
  by (simp add: push_def)

lemma joinWith_simps [simp]:
  "joinWith sep [] = []" "joinWith sep [p] = p" "joinWith sep (p # q # ps) = p @ sep @ joinWith sep (q # ps)"
  by (simp_all add: joinWith_def)

lemma joinWith_push: "ps \<noteq> [] \<Longrightarrow> joinWith sep (push c ps) = c # joinWith sep ps"
  by (cases ps; cases "tl ps") auto

lemma joinWith_split: "f \<noteq> [] \<Longrightarrow> joinWith f (split_str f s) = s"
proof (induction f s rule: split_str.induct)
  case (2 f x xs)
  show ?case
  proof (cases "prefix f (x # xs)")
    case True
    let ?r = "drop (length f) (x # xs)"
    obtain p ps where p: "split_str f ?r = p # ps" by (cases "split_str f ?r") auto
    have "joinWith f (split_str f ?r) = ?r" using 2(1) 2(3) True by simp
    moreover have "f @ ?r = x # xs" using True by (auto simp: prefix_def)
    ultimately show ?thesis using True 2(3) p by simp
  next
    case False
    thus ?thesis using 2(2,3) by (simp add: joinWith_push)
  qed
qed simp

lemma joinWith_member: "p \<in> set ps \<Longrightarrow> \<exists>a b. joinWith sep ps = a @ p @ b"
proof (induction ps)
  case (Cons q ps)
  show ?case
  proof (cases ps)
    case Nil
    thus ?thesis using Cons by (intro exI [of _ "[]"]) simp
  next
    case c: (Cons q' ps')
    show ?thesis
    proof (cases "p = q")
      case True
      hence "joinWith sep (q # ps) = [] @ p @ (sep @ joinWith sep ps)" using c by simp
      thus ?thesis by blast
    next
      case False
      then obtain a b where "joinWith sep ps = a @ p @ b" using Cons by auto
      hence "joinWith sep (q # ps) = (q @ sep @ a) @ p @ b" using c by simp
      thus ?thesis by blast
    qed
  qed
qed simp

lemma includesStr_iff: "includesStr t s \<longleftrightarrow> sublist t s"
proof (induction s)
  case (Cons x xs)
  thus ?case by (simp add: sublist_Cons_right)
qed simp

lemma split_str_skip:
  assumes "\<And>i. i < length p \<Longrightarrow> \<not> prefix f (drop i p @ t)"
  shows "split_str f (p @ t) = (p @ hd (split_str f t)) # tl (split_str f t)"
  using assms
proof (induction p)
  case (Cons c p)
  have n: "\<not> prefix f (c # p @ t)" using Cons.prems [of 0] by simp
  have "split_str f (p @ t) = (p @ hd (split_str f t)) # tl (split_str f t)"
    by (rule Cons.IH) (use Cons.prems [of "Suc _"] in simp)
  thus ?case using n by simp
qed simp

lemma split_str_sep: "f \<noteq> [] \<Longrightarrow> split_str f (f @ t) = [] # split_str f t"
  by (cases f) auto

subsection \<open>The sentinel\<close>

text \<open>A text that does not contain the first 28 characters of the sentinel cannot run into it.\<close>

definition nearSentinel :: string where
  "nearSentinel = ''00000000-0000-0000-0000-0000''"

lemma sentinel_no_border: "0 < j \<Longrightarrow> j < 28 \<Longrightarrow> drop j RUNID_SENTINEL \<noteq> take (36 - j) RUNID_SENTINEL"
proof -
  have "\<forall>j \<in> set [1..<28]. drop j RUNID_SENTINEL \<noteq> take (36 - j) RUNID_SENTINEL" by code_simp
  thus "0 < j \<Longrightarrow> j < 28 \<Longrightarrow> ?thesis" by simp
qed

lemma near_length [simp]: "length nearSentinel = 28" "length RUNID_SENTINEL = 36" "RUNID_SENTINEL \<noteq> []"
  by (simp_all add: nearSentinel_def RUNID_SENTINEL_def)

lemma near_prefix: "take 28 RUNID_SENTINEL = nearSentinel"
  by code_simp

lemma sentinel_long:
  assumes "prefix RUNID_SENTINEL (q @ t)" "28 \<le> length q" shows "prefix nearSentinel q"
proof -
  obtain u where u: "q @ t = RUNID_SENTINEL @ u" using assms(1) by (auto simp: prefix_def)
  have "take 28 q = take 28 (RUNID_SENTINEL @ u)" using assms(2) by (simp flip: u)
  hence "take 28 q = nearSentinel" by (simp add: near_prefix)
  thus ?thesis by (metis take_is_prefix)
qed

lemma sentinel_not_early:
  assumes "\<not> sublist nearSentinel p" "i < length p"
  shows "\<not> prefix RUNID_SENTINEL (drop i p @ RUNID_SENTINEL @ t)"
proof
  let ?q = "drop i p"
  assume a: "prefix RUNID_SENTINEL (?q @ RUNID_SENTINEL @ t)"
  have near: "\<not> prefix nearSentinel ?q"
    using assms(1) sublist_drop sublist_order.order.trans prefix_imp_sublist by metis
  hence j: "length ?q < 28" using sentinel_long [OF a] by linarith
  obtain u where u: "?q @ RUNID_SENTINEL @ t = RUNID_SENTINEL @ u" using a by (auto simp: prefix_def)
  have l: "length ?q \<le> 36" using j by simp
  have "drop (length ?q) (take 36 (?q @ RUNID_SENTINEL @ t)) = drop (length ?q) RUNID_SENTINEL" by (simp add: u)
  moreover have "drop (length ?q) (take 36 (?q @ RUNID_SENTINEL @ t)) = take (36 - length ?q) RUNID_SENTINEL"
    using l by (simp add: drop_take)
  ultimately show False using sentinel_no_border [of "length ?q"] j assms(2) by simp
qed

lemma split_joined:
  assumes "ps \<noteq> []" "\<forall>p \<in> set ps. \<not> sublist nearSentinel p"
  shows "split_str RUNID_SENTINEL (joinWith RUNID_SENTINEL ps) = ps"
  using assms
proof (induction ps)
  case (Cons p ps)
  show ?case
  proof (cases ps)
    case Nil
    have "split_str RUNID_SENTINEL (p @ []) = (p @ hd (split_str RUNID_SENTINEL [])) # tl (split_str RUNID_SENTINEL [])"
    proof (rule split_str_skip)
      fix i assume "i < length p"
      have "28 \<le> length (drop i p)" if "prefix RUNID_SENTINEL (drop i p @ [])"
        using prefix_length_le [OF that] by simp
      moreover have "\<not> prefix nearSentinel (drop i p)"
        using Cons.prems(2) sublist_drop sublist_order.order.trans prefix_imp_sublist by (metis list.set_intros(1))
      ultimately show "\<not> prefix RUNID_SENTINEL (drop i p @ [])" using sentinel_long by blast
    qed
    thus ?thesis using Nil by simp
  next
    case c: (Cons q qs)
    let ?t = "RUNID_SENTINEL @ joinWith RUNID_SENTINEL ps"
    have "split_str RUNID_SENTINEL (p @ ?t) = (p @ hd (split_str RUNID_SENTINEL ?t)) # tl (split_str RUNID_SENTINEL ?t)"
      by (rule split_str_skip) (use sentinel_not_early Cons.prems(2) in simp)
    moreover have "split_str RUNID_SENTINEL ?t = [] # ps"
      using Cons.IH Cons.prems(2) c by (simp add: split_str_sep)
    ultimately show ?thesis using c by simp
  qed
qed simp

lemma near_pieces:
  assumes "r \<noteq> []" "\<not> includesStr nearSentinel s" "p \<in> set (split_str r s)"
  shows "\<not> sublist nearSentinel p"
proof
  assume "sublist nearSentinel p"
  then obtain a b where "p = a @ nearSentinel @ b" by (auto simp: sublist_def)
  moreover obtain c d where "joinWith r (split_str r s) = c @ p @ d" using joinWith_member [OF assms(3)] by blast
  ultimately have "s = (c @ a) @ nearSentinel @ (b @ d)" using joinWith_split [OF assms(1)] by simp
  hence "sublist nearSentinel s" unfolding sublist_def by blast
  thus False using assms(2) by (simp add: includesStr_iff)
qed

lemma restamp_string:
  assumes "r \<noteq> []" "\<not> includesStr nearSentinel s"
  shows "joinWith r' (js_split RUNID_SENTINEL (joinWith RUNID_SENTINEL (js_split r s))) = joinWith r' (js_split r s)"
  using split_joined [of "split_str r s"] near_pieces [OF assms] assms(1) by (simp add: js_split_def)

fun string_values :: "json \<Rightarrow> string list" where
  "string_values (JStr s) = [s]"
| "string_values (JArr vs) = concat (map string_values vs)"
| "string_values (JObj m) = concat (map (\<lambda>p. string_values (snd p)) m)"
| "string_values _ = []"

lemma substitute_sentinel:
  assumes "r \<noteq> []"
  shows "\<forall>s \<in> set (string_values v). \<not> includesStr nearSentinel s \<Longrightarrow>
    substitute (substitute v r RUNID_SENTINEL) RUNID_SENTINEL r' = substitute v r r'"
proof (induction v)
  case (JStr s)
  thus ?case using restamp_string [OF assms, of s r'] by simp
next
  case (JObj m)
  have "substitute (substitute (snd p) r RUNID_SENTINEL) RUNID_SENTINEL r' = substitute (snd p) r r'" if "p \<in> set m" for p
    using JObj.IH [of p "snd p"] JObj.prems that by (auto simp: snds.simps)
  thus ?case by simp
qed auto

lemma substitute_same: "r \<noteq> [] \<Longrightarrow> substitute v r r = v"
proof (induction v)
  case (JStr s)
  thus ?case by (simp add: js_split_def joinWith_split)
next
  case (JArr vs)
  thus ?case by (simp add: map_idI)
next
  case (JObj m)
  have "(fst p, substitute (snd p) r r) = p" if "p \<in> set m" for p
    using JObj.IH [of p "snd p"] JObj.prems that by (cases p) (auto simp: snds.simps)
  hence "map (\<lambda>p. (fst p, substitute (snd p) r r)) m = m" by (intro map_idI) simp
  thus ?case by simp
qed simp_all

subsection \<open>What renaming a run means\<close>

text \<open>Every occurrence of \<open>r\<close> in a text replaced by \<open>r'\<close>, leftmost first and not overlapping.\<close>

function renameText :: "string \<Rightarrow> string \<Rightarrow> string \<Rightarrow> string" where
  "renameText r r' [] = []"
| "renameText r r' (c # cs) = (if r \<noteq> [] \<and> take (length r) (c # cs) = r then r' @ renameText r r' (drop (length r) (c # cs))
     else c # renameText r r' cs)"
  by pat_completeness auto
termination by (relation "measure (\<lambda>(r, r', s). length s)") auto

text \<open>A value with the run renamed: its strings renamed, wherever they are nested; keys, numbers and everything
  else as they were.\<close>

inductive renamed :: "string \<Rightarrow> string \<Rightarrow> json \<Rightarrow> json \<Rightarrow> bool" for r r' where
  "renamed r r' JUndef JUndef"
| "renamed r r' JNull JNull"
| "renamed r r' (JBool b) (JBool b)"
| "renamed r r' (JNum n) (JNum n)"
| "renamed r r' (JStr s) (JStr (renameText r r' s))"
| "list_all2 (renamed r r') vs ws \<Longrightarrow> renamed r r' (JArr vs) (JArr ws)"
| "list_all2 (\<lambda>p q. fst q = fst p \<and> renamed r r' (snd p) (snd q)) m m' \<Longrightarrow> renamed r r' (JObj m) (JObj m')"
  monos list_all2_mono

text \<open>The texts the serialisation of a value prints: its strings and the keys of its defined members.\<close>

fun texts :: "json \<Rightarrow> string list" where
  "texts (JStr s) = [s]"
| "texts (JArr vs) = concat (map texts vs)"
| "texts (JObj m) = concat (map (\<lambda>p. if snd p = JUndef then [] else fst p # texts (snd p)) m)"
| "texts _ = []"

lemma joinWith_Cons: "ps \<noteq> [] \<Longrightarrow> joinWith sep (p # ps) = p @ sep @ joinWith sep ps"
  by (cases ps) simp_all

lemma joinWith_renames: "f \<noteq> [] \<Longrightarrow> joinWith to (split_str f s) = renameText f to s"
proof (induction f s rule: split_str.induct)
  case (2 f x xs)
  have "prefix f (x # xs) \<longleftrightarrow> take (length f) (x # xs) = f"
    by (auto simp: prefix_def) (metis append_take_drop_id)
  thus ?case using 2 by (cases "prefix f (x # xs)") (auto simp: joinWith_Cons joinWith_push simp del: take_Cons)
qed simp

lemma substitute_renamed: "r \<noteq> [] \<Longrightarrow> renamed r r' v (substitute v r r')"
proof (induction v)
  case (JStr s)
  thus ?case using joinWith_renames [of r r' s] renamed.intros(5) [of r r' s] by (simp add: js_split_def)
next
  case (JArr vs)
  thus ?case by (auto intro!: renamed.intros simp: list_all2_conv_all_nth)
next
  case (JObj m)
  have "renamed r r' (snd p) (substitute (snd p) r r')" if "p \<in> set m" for p
    using JObj.IH [of p "snd p"] JObj.prems that by (auto simp: snds.simps)
  from this [OF nth_mem] show ?case unfolding substitute.simps
    by (intro renamed.intros) (simp add: list_all2_conv_all_nth)
qed (auto intro: renamed.intros)

text \<open>A text made of characters that print as themselves occurs in what prints a string that contains it.\<close>

lemma printed_text:
  assumes "\<forall>c \<in> set t. escapeChar c = [c]" "sublist t s" shows "sublist t (stringifyString s)"
proof -
  have e: "concat (map escapeChar t) = t" using assms(1) by (induction t) simp_all
  obtain a b where "s = a @ t @ b" using assms(2) by (auto simp: sublist_def)
  hence "stringifyString s = (CHR 0x22 # concat (map escapeChar a)) @ t @ (concat (map escapeChar b) @ [CHR 0x22])"
    by (simp add: stringifyString_def e)
  thus ?thesis unfolding sublist_def by blast
qed

lemma sentinel_printed: "includesStr RUNID_SENTINEL s \<Longrightarrow> includesStr RUNID_SENTINEL (stringifyString s)"
proof -
  have "\<forall>c \<in> set RUNID_SENTINEL. escapeChar c = [c]" by code_simp
  thus "includesStr RUNID_SENTINEL s \<Longrightarrow> ?thesis" using printed_text by (simp add: includesStr_iff)
qed

lemma mentions_text: "s \<in> set (texts v) \<Longrightarrow> includesStr RUNID_SENTINEL s \<Longrightarrow> mentions RUNID_SENTINEL v"
proof (induction v)
  case (JObj m)
  then obtain p where p: "p \<in> set m" "snd p \<noteq> JUndef" "s = fst p \<or> s \<in> set (texts (snd p))"
    by (auto split: if_splits)
  have "mentions RUNID_SENTINEL (snd p)" if "s \<in> set (texts (snd p))"
    using JObj.IH [of p "snd p"] JObj.prems that p by (auto simp: snds.simps)
  thus ?case using p sentinel_printed JObj.prems by (auto simp: list_ex_iff)
qed (auto simp: list_ex_iff sentinel_printed)

inductive_simps renamed_simps: "renamed r r' (JStr s) w" "renamed r r' (JArr vs) w" "renamed r r' (JObj m) w"

text \<open>Claim C23. Caching and serving a result only renames the run.  For a payload none of whose strings contains
  the first 28 characters of the sentinel, the template normalised from run \<open>r\<close> and restamped for run \<open>r'\<close>
  is the payload with \<open>r\<close> renamed to \<open>r'\<close> in every string, at every depth, and with nothing else changed;
  restamped for \<open>r\<close> itself it is the payload.  The template carries the engine, the payload kind the engine
  has and the current template version, and a payload that prints the sentinel anywhere, keys included, is never
  cached.\<close>
theorem restamp_renames:
  assumes "r \<noteq> []" "\<forall>s \<in> set (string_values payload). \<not> includesStr nearSentinel s"
    and "normalizeTemplate engine payload r = Some t"
  shows "renamed r r' payload (restamp t r') \<and> restamp t r = payload
    \<and> dt_engine t = engine
    \<and> dt_payloadKind t = (case engine of Eng_momentum \<Rightarrow> BacktestResult | Eng_overlay \<Rightarrow> RunOutcome | Eng_strategy \<Rightarrow> RunOutcome)
    \<and> dt_templateVersion t = ''1''
    \<and> (\<forall>e p q. (\<exists>s \<in> set (texts p). includesStr RUNID_SENTINEL s) \<longrightarrow> normalizeTemplate e p q = None)"
proof -
  have t: "t = \<lparr>dt_engine = engine, dt_payloadKind = kindFor engine, dt_templateVersion = DEDUP_TEMPLATE_VERSION,
      dt_normalizedPayload = substitute payload r RUNID_SENTINEL\<rparr>"
    using assms(3) by (auto simp: normalizeTemplate_def split: if_splits)
  have "normalizeTemplate e p q = None" if "s \<in> set (texts p)" "includesStr RUNID_SENTINEL s" for e p q s
    using mentions_text [OF that] by (simp add: normalizeTemplate_def)
  thus ?thesis
    using t substitute_sentinel [OF assms(1,2)] substitute_same [OF assms(1)] substitute_renamed [OF assms(1), of r' payload]
    by (auto simp: restamp_def kindFor_def DEDUP_TEMPLATE_VERSION_def split: dedup_engine.split)
qed

definition samplePayload :: json where
  "samplePayload = JObj [(''runId'', JStr ''3f2504e0-4f89''), (''status'', JStr ''closed''),
     (''refs'', JArr [JStr ''3f2504e0-4f89::baseline''])]"

theorem restamp_renames_witness:
  "\<exists>t. normalizeTemplate Eng_overlay samplePayload ''3f2504e0-4f89'' = Some t \<and>
   restamp t ''9c858901-8a57'' = JObj [(''runId'', JStr ''9c858901-8a57''), (''status'', JStr ''closed''),
     (''refs'', JArr [JStr ''9c858901-8a57::baseline''])]"
proof -
  let ?r = "''3f2504e0-4f89''" and ?q = "''9c858901-8a57''"
  have g: "\<not> mentions RUNID_SENTINEL samplePayload" by code_simp
  then obtain t where t: "normalizeTemplate Eng_overlay samplePayload ?r = Some t"
    by (simp add: normalizeTemplate_def)
  have near: "\<forall>s \<in> set (string_values samplePayload). \<not> includesStr nearSentinel s" by code_simp
  have x: "renameText ?r ?q ?r = ?q" "renameText ?r ?q ''closed'' = ''closed''"
    "renameText ?r ?q ''3f2504e0-4f89::baseline'' = ''9c858901-8a57::baseline''" by code_simp+
  have "renamed ?r ?q samplePayload (restamp t ?q)" using restamp_renames [OF _ near t, of ?q] by simp
  thus ?thesis using t x unfolding samplePayload_def
    by (auto simp: renamed_simps list_all2_Cons1 simp del: renameText.simps)
qed

text \<open>Note. The substitution is exact only when the run id occurs nowhere else.  A submit may name its own
  run id, and the run id \<open>''d''\<close> is woven into ordinary words: the template cached from that run gives
  another run a payload whose status is no longer \<open>closed\<close>.\<close>
theorem short_run_id_corrupts_template:
  "map_option (\<lambda>t. restamp t ''run-2'') (normalizeTemplate Eng_overlay
     (JObj [(''runId'', JStr ''d''), (''status'', JStr ''closed'')]) ''d'')
   = Some (JObj [(''runId'', JStr ''run-2''), (''status'', JStr ''closerun-2'')])"
  by code_simp

end
