(* ===== verification/Result_Cache.thy ===== *)
theory Result_Cache
  imports Fingerprint Restamp Keyed_Table
begin

text \<open>
  The dedup cache: \<open>apps/backtester/src/jobs/dedup/result-cache.ts\<close> (in memory) and \<open>pg-result-cache.ts\<close>
  (Postgres, a table with primary key \<open>compute_identity\<close>), and the key they are addressed by
  (\<open>compute-identity.ts\<close>).  The contract both promise is a locale; what its clients use is proved there once.
\<close>

record cache_entry =
  ca_computeIdentity :: string
  ca_requestFingerprint :: string
  ca_datasetFingerprint :: string
  ca_computeVersion :: string
  ca_sandboxPolicyVersion :: string
  ca_templateRef :: string
  ca_createdAtMs :: ms

record compute_identity_input =
  ci_requestFingerprint :: string
  ci_datasetFingerprint :: string
  ci_sandboxPolicyVersion :: string

definition computeIdentity_of :: "(rat \<Rightarrow> string) \<Rightarrow> (string \<Rightarrow> string) \<Rightarrow> compute_identity_input \<Rightarrow> canon_error + string" where
  "computeIdentity_of dec8 sha256 i = map_sum id sha256 (canonicalJson dec8 (JObj [
     (''requestFingerprint'', JStr (ci_requestFingerprint i)),
     (''datasetFingerprint'', JStr (ci_datasetFingerprint i)),
     (''computeVersion'', JStr DEDUP_COMPUTE_VERSION),
     (''sandboxPolicyVersion'', JStr (ci_sandboxPolicyVersion i))]))"

subsection \<open>In memory\<close>

type_synonym mem_cache = "cache_entry js_map"

definition mc_lookup :: "mem_cache \<Rightarrow> string \<Rightarrow> cache_entry option" where
  "mc_lookup rows k = js_get rows k"

definition mc_put :: "cache_entry \<Rightarrow> mem_cache \<Rightarrow> mem_cache" where
  "mc_put e rows = (if js_get rows (ca_computeIdentity e) = None then js_set (ca_computeIdentity e) e rows else rows)"

definition mc_sweepExpired :: "ms \<Rightarrow> ms \<Rightarrow> int \<Rightarrow> mem_cache \<Rightarrow> nat \<times> mem_cache" where
  "mc_sweepExpired nowMs ttlMs batchLimit rows =
     js_sweep ca_computeIdentity ca_createdAtMs (nowMs - ttlMs) (nat (max 0 batchLimit)) rows"

subsection \<open>Postgres\<close>

text \<open>A negative \<open>LIMIT\<close> is an error.\<close>

type_synonym pg_cache = "cache_entry list"

definition pc_lookup :: "pg_cache \<Rightarrow> string \<Rightarrow> cache_entry option" where
  "pc_lookup tab k = tab_get ca_computeIdentity tab k"

definition pc_put :: "cache_entry \<Rightarrow> pg_cache \<Rightarrow> pg_cache" where
  "pc_put e tab = (if tab_get ca_computeIdentity tab (ca_computeIdentity e) \<noteq> None then tab else tab @ [e])"

definition pc_sweepExpired :: "ms \<Rightarrow> ms \<Rightarrow> int \<Rightarrow> pg_cache \<Rightarrow> nat option \<times> pg_cache" where
  "pc_sweepExpired nowMs ttlMs batchLimit tab =
     (if batchLimit < 0 then (None, tab)
      else apfst Some (tab_sweep ca_computeIdentity ca_createdAtMs (nowMs - ttlMs) (nat batchLimit) tab))"

subsection \<open>The contract\<close>

record 's result_cache_ops =
  rc_lookup :: "'s \<Rightarrow> string \<Rightarrow> cache_entry option"
  rc_put :: "cache_entry \<Rightarrow> 's \<Rightarrow> 's"
  rc_sweepExpired :: "ms \<Rightarrow> ms \<Rightarrow> int \<Rightarrow> 's \<Rightarrow> nat option \<times> 's"

locale result_cache_contract =
  fixes cops :: "'c result_cache_ops" and cinv :: "'c \<Rightarrow> bool"
  assumes lookup_key: "cinv st \<Longrightarrow> rc_lookup cops st k = Some e \<Longrightarrow> ca_computeIdentity e = k"
    and put_lookup: "cinv st \<Longrightarrow> rc_lookup cops (rc_put cops e st) k =
      (if k = ca_computeIdentity e \<and> rc_lookup cops st k = None then Some e else rc_lookup cops st k)"
    and put_inv: "cinv st \<Longrightarrow> cinv (rc_put cops e st)"
    and sweep: "cinv st \<Longrightarrow> 0 \<le> n \<Longrightarrow> rc_sweepExpired cops now ttl n st = (c, st') \<Longrightarrow>
      cinv st' \<and> (\<exists>victims. c = Some (length victims)
        \<and> oldest_first ca_createdAtMs (nat n) victims
            {e. rc_lookup cops st (ca_computeIdentity e) = Some e \<and> ca_createdAtMs e < now - ttl}
        \<and> rc_lookup cops st' = without victims (rc_lookup cops st))"
begin

lemma first_writer_wins:
  assumes "cinv st" "rc_lookup cops st k = Some e"
  shows "rc_lookup cops (fold (rc_put cops) es st) k = Some e"
proof -
  have "cinv (fold (rc_put cops) es st) \<and> rc_lookup cops (fold (rc_put cops) es st) k = Some e"
    using assms by (induction es arbitrary: st) (auto simp: put_lookup put_inv)
  thus ?thesis ..
qed

lemma sweep_keeps_fresh:
  assumes "cinv st" "0 \<le> n" "rc_sweepExpired cops now ttl n st = (c, st')"
    and "rc_lookup cops st k = Some e" "now - ttl \<le> ca_createdAtMs e"
  shows "rc_lookup cops st' k = Some e"
proof -
  obtain victims where v: "oldest_first ca_createdAtMs (nat n) victims
        {e. rc_lookup cops st (ca_computeIdentity e) = Some e \<and> ca_createdAtMs e < now - ttl}"
      "rc_lookup cops st' = without victims (rc_lookup cops st)"
    using sweep [OF assms(1-3)] by blast
  have "e \<notin> set victims" using v(1) assms(5) by (auto simp: oldest_first_def)
  thus ?thesis using v(2) assms(4) by (simp add: without_def)
qed

lemma sweep_never_adds:
  assumes "cinv st" "0 \<le> n" "rc_sweepExpired cops now ttl n st = (c, st')" "rc_lookup cops st' k = Some e"
  shows "rc_lookup cops st k = Some e"
proof -
  obtain victims where "rc_lookup cops st' = without victims (rc_lookup cops st)"
    using sweep [OF assms(1-3)] by blast
  thus ?thesis using assms(4) by (auto simp: without_def split: option.splits if_splits)
qed

text \<open>A sweep that evicts fewer entries than its limit leaves no expired entry behind.\<close>

lemma sweep_complete:
  assumes "cinv st" "0 \<le> n" "rc_sweepExpired cops now ttl n st = (Some c, st')" "int c < n"
    and "finite {e. rc_lookup cops st (ca_computeIdentity e) = Some e}"
    and "rc_lookup cops st' k = Some e"
  shows "now - ttl \<le> ca_createdAtMs e"
proof (rule ccontr)
  let ?P = "{e. rc_lookup cops st (ca_computeIdentity e) = Some e \<and> ca_createdAtMs e < now - ttl}"
  assume "\<not> now - ttl \<le> ca_createdAtMs e"
  moreover have l: "rc_lookup cops st k = Some e" using sweep_never_adds assms(1-3,6) by blast
  ultimately have e: "e \<in> ?P" using lookup_key [OF assms(1) l] by auto
  obtain victims where v: "c = length victims" "oldest_first ca_createdAtMs (nat n) victims ?P"
      "rc_lookup cops st' = without victims (rc_lookup cops st)"
    using sweep [OF assms(1-3)] by blast
  have f: "finite ?P" by (rule finite_subset [OF _ assms(5)]) auto
  have "length victims = card ?P" using v(1,2) assms(4) by (auto simp: oldest_first_def)
  hence "card (set victims) = card ?P" using v(2) by (auto simp: oldest_first_def distinct_card)
  hence "set victims = ?P" using v(2) f by (intro card_subset_eq) (auto simp: oldest_first_def)
  hence "e \<in> set victims" using e by blast
  hence "rc_lookup cops st' k = None" using v(3) l by (simp add: without_def)
  thus False using assms(6) by simp
qed

end

subsection \<open>Both caches keep it\<close>

definition inMemoryResultCache :: "mem_cache result_cache_ops" where
  "inMemoryResultCache = \<lparr>rc_lookup = mc_lookup, rc_put = mc_put,
     rc_sweepExpired = (\<lambda>now ttl n st. apfst Some (mc_sweepExpired now ttl n st))\<rparr>"

definition pgResultCache :: "pg_cache result_cache_ops" where
  "pgResultCache = \<lparr>rc_lookup = pc_lookup, rc_put = pc_put, rc_sweepExpired = pc_sweepExpired\<rparr>"

abbreviation mem_cache_ok :: "mem_cache \<Rightarrow> bool" where
  "mem_cache_ok \<equiv> keyed_ok ca_computeIdentity"

abbreviation pg_cache_ok :: "pg_cache \<Rightarrow> bool" where
  "pg_cache_ok \<equiv> tab_ok ca_computeIdentity"

interpretation mem_cache: result_cache_contract inMemoryResultCache mem_cache_ok
proof (unfold_locales, goal_cases)
  case (1 st k e) thus ?case using keyed_ok_get by (simp add: inMemoryResultCache_def mc_lookup_def)
next
  case (2 st e k) show ?case by (auto simp: inMemoryResultCache_def mc_lookup_def mc_put_def)
next
  case (3 st e) thus ?case by (simp add: inMemoryResultCache_def mc_put_def keyed_ok_set)
next
  case (4 st n now ttl c st')
  obtain c0 where "mc_sweepExpired now ttl n st = (c0, st')" "c = Some c0"
    using 4(3) by (cases "mc_sweepExpired now ttl n st") (simp add: inMemoryResultCache_def)
  thus ?case using js_sweep_spec [OF 4(1), of ca_createdAtMs "now - ttl" "nat n" c0 st'] 4(2)
    by (simp add: inMemoryResultCache_def mc_lookup_def [abs_def] mc_sweepExpired_def)
qed

interpretation pg_cache: result_cache_contract pgResultCache pg_cache_ok
proof (unfold_locales, goal_cases)
  case (1 st k e) thus ?case using tab_get_key by (simp add: pgResultCache_def pc_lookup_def)
next
  case (2 st e k)
  show ?case by (auto simp: pgResultCache_def pc_lookup_def pc_put_def tab_get_append split: option.split)
next
  case (3 st e) thus ?case by (simp add: pgResultCache_def pc_put_def tab_ok_append)
next
  case (4 st n now ttl c st')
  obtain c0 where "tab_sweep ca_computeIdentity ca_createdAtMs (now - ttl) (nat n) st = (c0, st')" "c = Some c0"
    using 4(2,3) by (cases "tab_sweep ca_computeIdentity ca_createdAtMs (now - ttl) (nat n) st")
      (simp add: pgResultCache_def pc_sweepExpired_def)
  thus ?case using tab_sweep_spec [OF 4(1), of ca_createdAtMs "now - ttl" "nat n" c0 st']
    by (simp add: pgResultCache_def pc_lookup_def [abs_def])
qed

subsection \<open>Properties\<close>

lemma mem_cache_finite: "mem_cache_ok st \<Longrightarrow> finite {e. mc_lookup st (ca_computeIdentity e) = Some e}"
  by (rule finite_subset [of _ "set (js_values st)"]) (auto simp: mc_lookup_def js_get_values)

lemma pg_cache_finite: "pg_cache_ok st \<Longrightarrow> finite {e. pc_lookup st (ca_computeIdentity e) = Some e}"
  by (rule finite_subset [of _ "set st"]) (auto simp: pc_lookup_def tab_get_iff)

text \<open>Note. TTL eviction of both result caches: a sweep evicts exactly the oldest expired entries up to its
  batch limit and reports their number, keeps every entry that is not expired, adds nothing, and when it
  evicts fewer than the limit no expired entry can be hit any more; an entry once cached is never replaced
  by later writers.\<close>
theorem cache_sweep_exact:
  assumes "mem_cache_ok m" "pg_cache_ok p" "0 \<le> n"
    and "mc_sweepExpired now ttl n m = (c, m')" "pc_sweepExpired now ttl n p = (d, p')"
  shows "(\<exists>victims. c = length victims
       \<and> oldest_first ca_createdAtMs (nat n) victims
           {e. mc_lookup m (ca_computeIdentity e) = Some e \<and> ca_createdAtMs e < now - ttl}
       \<and> mc_lookup m' = without victims (mc_lookup m))
    \<and> (\<exists>victims. d = Some (length victims)
       \<and> oldest_first ca_createdAtMs (nat n) victims
           {e. pc_lookup p (ca_computeIdentity e) = Some e \<and> ca_createdAtMs e < now - ttl}
       \<and> pc_lookup p' = without victims (pc_lookup p))
    \<and> (int c < n \<longrightarrow> (\<forall>k e. mc_lookup m' k = Some e \<longrightarrow> now - ttl \<le> ca_createdAtMs e))
    \<and> (\<forall>k e es. mc_lookup m k = Some e \<longrightarrow> mc_lookup (fold mc_put es m) k = Some e)
    \<and> (\<forall>k e es. pc_lookup p k = Some e \<longrightarrow> pc_lookup (fold pc_put es p) k = Some e)"
proof (intro conjI impI allI)
  have mc: "rc_sweepExpired inMemoryResultCache now ttl n m = (Some c, m')"
    using assms(4) by (simp add: inMemoryResultCache_def)
  have pc: "rc_sweepExpired pgResultCache now ttl n p = (d, p')" using assms(5) by (simp add: pgResultCache_def)
  show "\<exists>victims. c = length victims \<and> oldest_first ca_createdAtMs (nat n) victims
        {e. mc_lookup m (ca_computeIdentity e) = Some e \<and> ca_createdAtMs e < now - ttl}
      \<and> mc_lookup m' = without victims (mc_lookup m)"
    using mem_cache.sweep [OF assms(1,3) mc] by (simp add: inMemoryResultCache_def)
  show "\<exists>victims. d = Some (length victims) \<and> oldest_first ca_createdAtMs (nat n) victims
        {e. pc_lookup p (ca_computeIdentity e) = Some e \<and> ca_createdAtMs e < now - ttl}
      \<and> pc_lookup p' = without victims (pc_lookup p)"
    using pg_cache.sweep [OF assms(2,3) pc] by (simp add: pgResultCache_def)
  show "now - ttl \<le> ca_createdAtMs e" if "int c < n" "mc_lookup m' k = Some e" for k e
    using mem_cache.sweep_complete [OF assms(1,3) mc that(1)] mem_cache_finite [OF assms(1)] that(2)
    by (simp add: inMemoryResultCache_def)
  show "mc_lookup (fold mc_put es m) k = Some e" if "mc_lookup m k = Some e" for k e es
    using mem_cache.first_writer_wins [OF assms(1)] that by (simp add: inMemoryResultCache_def)
  show "pc_lookup (fold pc_put es p) k = Some e" if "pc_lookup p k = Some e" for k e es
    using pg_cache.first_writer_wins [OF assms(2)] that by (simp add: pgResultCache_def)
qed

definition sampleEntry :: "string \<Rightarrow> ms \<Rightarrow> cache_entry" where
  "sampleEntry k t = \<lparr>ca_computeIdentity = k, ca_requestFingerprint = ''f'', ca_datasetFingerprint = ''d'',
     ca_computeVersion = DEDUP_COMPUTE_VERSION, ca_sandboxPolicyVersion = ''p'', ca_templateRef = ''t'',
     ca_createdAtMs = t\<rparr>"

theorem cache_sweep_exact_witness:
  "mc_sweepExpired 100 50 2 (fold mc_put [sampleEntry ''a'' 10, sampleEntry ''b'' 80] [])
     = (1, [(''b'', sampleEntry ''b'' 80)])
   \<and> mc_lookup [(''b'', sampleEntry ''b'' 80)] ''b'' = Some (sampleEntry ''b'' 80)
   \<and> 50 \<le> ca_createdAtMs (sampleEntry ''b'' 80)"
proof -
  let ?m = "fold mc_put [sampleEntry ''a'' 10, sampleEntry ''b'' 80] []"
  let ?p = "fold pc_put [sampleEntry ''a'' 10, sampleEntry ''b'' 80] []"
  have m: "mem_cache_ok ?m" and p: "pg_cache_ok ?p" by code_simp+
  have s: "mc_sweepExpired 100 50 2 ?m = (1, [(''b'', sampleEntry ''b'' 80)])"
      "pc_sweepExpired 100 50 2 ?p = (Some 1, [sampleEntry ''b'' 80])" by code_simp+
  have l: "mc_lookup [(''b'', sampleEntry ''b'' 80)] ''b'' = Some (sampleEntry ''b'' 80)" by code_simp
  have "\<forall>k e. mc_lookup [(''b'', sampleEntry ''b'' 80)] k = Some e \<longrightarrow> 100 - 50 \<le> ca_createdAtMs e"
    using cache_sweep_exact [OF m p _ s] by simp
  from this [rule_format, OF l] show ?thesis using s(1) l by simp
qed

end
