(* ===== verification/Wake.thy ===== *)
theory Wake
  imports Completion Publication Compute_Lock Result_Cache
begin

text \<open>
  \<open>apps/backtester/src/jobs/coalesce/wake.ts\<close> and \<open>maintenance.ts\<close>: the pass that poisons, releases or elects
  the followers waiting for a compute, and the throttled sweeps around it.  The pass is written over the
  operations of the three stores; it only writes the job store.
\<close>

record ('s, 'c, 'l) wake_deps =
  wd_store :: "'s job_store_ops"
  wd_resultCache :: "'c result_cache_ops"
  wd_computeLock :: "'l compute_lock_ops"
  wd_computeWaitMaxAttempts :: nat

record ('s, 'c, 'l) coord =
  co_store :: 's
  co_cache :: 'c
  co_locks :: 'l

record wake_result =
  wr_released :: nat
  wr_poisoned :: nat
  wr_poisonedJobs :: "job_row list"

subsection \<open>Wake\<close>

definition addToGroup :: "job_row \<Rightarrow> job_row list js_map \<Rightarrow> job_row list js_map" where
  "addToGroup w byCi = (case computeIdentity w of
      None \<Rightarrow> byCi
    | Some ci \<Rightarrow> if ci = [] then byCi
        else (case js_get byCi ci of Some grp \<Rightarrow> js_set ci (grp @ [w]) byCi | None \<Rightarrow> js_set ci [w] byCi))"

definition groupByIdentity :: "job_row list \<Rightarrow> job_row list js_map" where
  "groupByIdentity waiters = fold addToGroup waiters []"

text \<open>The exhausted waiters of a group, poisoned one after the other.\<close>

fun poisonLoop :: "('s, 'c, 'l) wake_deps \<Rightarrow> ms \<Rightarrow> job_row list \<Rightarrow> job_row list \<times> 's \<Rightarrow> job_row list \<times> 's" where
  "poisonLoop deps now [] acc = acc"
| "poisonLoop deps now (w # grp) (rows, st) =
     (if wd_computeWaitMaxAttempts deps \<le> computeWaitAttempts w
      then (case op_poisonComputeWaiter (wd_store deps) (runId w) now st of
              (Some row, st') \<Rightarrow> poisonLoop deps now grp (rows @ [row], st')
            | (None, st') \<Rightarrow> poisonLoop deps now grp (rows, st'))
      else poisonLoop deps now grp (rows, st))"

definition wakeReason :: "('s, 'c, 'l) wake_deps \<Rightarrow> compute_lock option \<Rightarrow> 's \<Rightarrow> compute_wake_reason" where
  "wakeReason deps lock st = (case Option.bind lock (\<lambda>l. op_get (wd_store deps) st (cl_leaderRunId l)) of
      Some leaderJob \<Rightarrow> if status leaderJob \<in> {Failed, Timed_out, Canceled} then Leader_failed else Lock_expired
    | None \<Rightarrow> Lock_expired)"

definition lockAlive :: "ms \<Rightarrow> compute_lock option \<Rightarrow> bool" where
  "lockAlive now lock = (case lock of None \<Rightarrow> False | Some l \<Rightarrow> now \<le> cl_lockExpiresAtMs l)"

definition wakeGroup ::
    "('s, 'c, 'l) wake_deps \<Rightarrow> ms \<Rightarrow> 'c \<Rightarrow> 'l \<Rightarrow> string \<times> job_row list \<Rightarrow> wake_result \<times> 's \<Rightarrow> wake_result \<times> 's" where
  "wakeGroup deps now cache locks entry acc = (case (entry, acc) of ((ci, grp), (res, st)) \<Rightarrow>
     (let (rows, st1) = poisonLoop deps now grp ([], st);
          res1 = res\<lparr>wr_poisoned := wr_poisoned res + length rows, wr_poisonedJobs := wr_poisonedJobs res @ rows\<rparr>;
          live = [w \<leftarrow> grp. computeWaitAttempts w < wd_computeWaitMaxAttempts deps]
      in if live = [] then (res1, st1)
         else if rc_lookup (wd_resultCache deps) cache ci \<noteq> None
         then (case op_releaseAllComputeWaiters (wd_store deps) ci Cache_ready now st1 of
                 (n, st2) \<Rightarrow> (res1\<lparr>wr_released := wr_released res1 + n\<rparr>, st2))
         else let lock = lk_get (wd_computeLock deps) locks ci
              in if lockAlive now lock then (res1, st1)
                 else (case op_electOneComputeWaiter (wd_store deps) ci (wakeReason deps lock st1) now st1 of
                         (Some _, st2) \<Rightarrow> (res1\<lparr>wr_released := wr_released res1 + 1\<rparr>, st2)
                       | (None, st2) \<Rightarrow> (res1, st2))))"

definition wakeComputeWaiters ::
    "('s, 'c, 'l) wake_deps \<Rightarrow> ms \<Rightarrow> ('s, 'c, 'l) coord \<Rightarrow> wake_result \<times> ('s, 'c, 'l) coord" where
  "wakeComputeWaiters deps now w =
     (let waiters = op_listComputeWaiters (wd_store deps) (co_store w);
          (res, st) = fold (wakeGroup deps now (co_cache w) (co_locks w)) (groupByIdentity waiters)
             (\<lparr>wr_released = 0, wr_poisoned = 0, wr_poisonedJobs = []\<rparr>, co_store w)
      in (res, w\<lparr>co_store := st\<rparr>))"

subsection \<open>Maintenance\<close>

definition DEFAULT_SWEEP_INTERVAL_MS :: ms where
  "DEFAULT_SWEEP_INTERVAL_MS = 60000"

record maintenance_options =
  mo_sweepBatchLimit :: "int option"
  mo_sweepIntervalMs :: "ms option"

text \<open>Whether the throttle lets a sweep through.\<close>

definition sweepDue :: "ms \<Rightarrow> ms option \<Rightarrow> ms \<Rightarrow> bool" where
  "sweepDue intervalMs lastSweepAtMs now = (case lastSweepAtMs of None \<Rightarrow> True | Some l \<Rightarrow> intervalMs \<le> now - l)"

text \<open>One call of the step that \<open>createCoalesceMaintenance\<close> builds; its throttle state is passed explicitly.\<close>

definition coalesceMaintenance ::
    "('s, 'c, 'l) wake_deps \<Rightarrow> ms \<Rightarrow> maintenance_options \<Rightarrow> ms \<Rightarrow> ms \<Rightarrow> ms option \<times> ('s, 'c, 'l) coord \<Rightarrow>
     job_row list \<times> ms option \<times> ('s, 'c, 'l) coord" where
  "coalesceMaintenance deps computeLockTtlMs opts clock1 clock2 state = (case state of (lastSweepAtMs, w) \<Rightarrow>
     (let batchLimit = orElse (mo_sweepBatchLimit opts) 1000;
          intervalMs = orElse (mo_sweepIntervalMs opts) (min computeLockTtlMs DEFAULT_SWEEP_INTERVAL_MS);
          (res, w1) = wakeComputeWaiters deps clock1 w
      in if sweepDue intervalMs lastSweepAtMs clock2
         then (wr_poisonedJobs res, Some clock2,
               w1\<lparr>co_locks := snd (lk_sweepExpired (wd_computeLock deps) clock2 computeLockTtlMs batchLimit (co_locks w1))\<rparr>)
         else (wr_poisonedJobs res, lastSweepAtMs, w1)))"

text \<open>One call of the step that \<open>createResultCacheSweep\<close> builds.\<close>

definition resultCacheSweep ::
    "'c result_cache_ops \<Rightarrow> ms \<Rightarrow> maintenance_options \<Rightarrow> ms \<Rightarrow> ms option \<times> 'c \<Rightarrow> ms option \<times> 'c" where
  "resultCacheSweep cops ttlMs opts now state = (case state of (lastSweepAtMs, cache) \<Rightarrow>
     (let batchLimit = orElse (mo_sweepBatchLimit opts) 1000;
          intervalMs = orElse (mo_sweepIntervalMs opts) (min ttlMs DEFAULT_SWEEP_INTERVAL_MS)
      in if sweepDue intervalMs lastSweepAtMs now
         then (Some now, snd (rc_sweepExpired cops now ttlMs batchLimit cache))
         else (lastSweepAtMs, cache)))"

subsection \<open>Grouping\<close>

definition waiting :: "job_row \<Rightarrow> string option" where
  "waiting r = (if status r = Waiting_for_compute \<and> truthy (computeIdentity r) then computeIdentity r else None)"

lemma waiting_isWaiter: "ci \<noteq> [] \<Longrightarrow> isWaiter ci r \<longleftrightarrow> waiting r = Some ci"
  by (auto simp: isWaiter_def waiting_def)

definition groups_ok :: "job_row list js_map \<Rightarrow> bool" where
  "groups_ok m = (map_ok m \<and> (\<forall>ci g. js_get m ci = Some g \<longrightarrow> ci \<noteq> [] \<and> g \<noteq> []))"

lemma groups_okD: "groups_ok m \<Longrightarrow> js_get m ci = Some g \<Longrightarrow> ci \<noteq> [] \<and> g \<noteq> []"
  by (simp add: groups_ok_def)

lemma groups_ok_set: "groups_ok m \<Longrightarrow> c \<noteq> [] \<Longrightarrow> g \<noteq> [] \<Longrightarrow> groups_ok (js_set c g m)"
  by (simp add: groups_ok_def)

lemma addToGroup_eq: "addToGroup w m = (if truthy (computeIdentity w)
    then js_set (the (computeIdentity w)) (orElse (js_get m (the (computeIdentity w))) [] @ [w]) m else m)"
  by (auto simp: addToGroup_def split: option.split)

lemma group_step:
  assumes "groups_ok m"
  shows "groups_ok (addToGroup w m)"
    "ci \<noteq> [] \<Longrightarrow> orElse (js_get (addToGroup w m) ci) [] =
       orElse (js_get m ci) [] @ (if computeIdentity w = Some ci then [w] else [])"
proof -
  show "groups_ok (addToGroup w m)"
    using assms by (cases "computeIdentity w") (simp_all add: addToGroup_eq groups_ok_set)
  show "ci \<noteq> [] \<Longrightarrow> orElse (js_get (addToGroup w m) ci) [] =
       orElse (js_get m ci) [] @ (if computeIdentity w = Some ci then [w] else [])"
    by (cases "computeIdentity w") (auto simp: addToGroup_eq)
qed

lemma group_fold:
  "groups_ok m \<Longrightarrow> \<forall>w \<in> set ws. status w = Waiting_for_compute \<Longrightarrow>
   groups_ok (fold addToGroup ws m) \<and>
   (ci \<noteq> [] \<longrightarrow> orElse (js_get (fold addToGroup ws m) ci) [] = orElse (js_get m ci) [] @ filter (isWaiter ci) ws)"
proof (induction ws arbitrary: m)
  case (Cons w ws)
  have w: "isWaiter ci w \<longleftrightarrow> computeIdentity w = Some ci" using Cons.prems(2) by (simp add: isWaiter_def)
  have "\<forall>w \<in> set ws. status w = Waiting_for_compute" using Cons.prems(2) by simp
  note ih = Cons.IH [OF group_step(1) [OF Cons.prems(1), of w] this]
  show ?case using ih group_step(2) [OF Cons.prems(1), of ci w] by (simp add: w)
qed simp

lemma group_spec:
  assumes "\<forall>w \<in> set ws. status w = Waiting_for_compute"
  shows "groups_ok (groupByIdentity ws)"
    "ci \<noteq> [] \<Longrightarrow> orElse (js_get (groupByIdentity ws) ci) [] = filter (isWaiter ci) ws"
  using group_fold [OF _ assms, of "[]" ci] by (simp_all add: groupByIdentity_def groups_ok_def)

end
