(* ===== verification/Wake_Facts.thy ===== *)
theory Wake_Facts
  imports Wake
begin

text \<open>
  What a wake pass does to each row: the effect of the poisoning loop, of one group and of the whole pass, for
  every job store that keeps the contract.
\<close>

definition poisonRow :: "ms \<Rightarrow> job_row \<Rightarrow> job_row" where
  "poisonRow now r = applyPatch Failed (terminalPatch now ''compute_wait_exhausted'') r"

definition exhausted :: "nat \<Rightarrow> string \<Rightarrow> job_row \<Rightarrow> bool" where
  "exhausted mx ci r = (isWaiter ci r \<and> mx \<le> computeWaitAttempts r)"

definition live :: "nat \<Rightarrow> string \<Rightarrow> job_row \<Rightarrow> bool" where
  "live mx ci r = (isWaiter ci r \<and> computeWaitAttempts r < mx)"

text \<open>The row a waiter becomes, given whether its compute is cached, whether the lock is alive, and which waiter
  is elected with which reason.\<close>

definition wokenRow :: "nat \<Rightarrow> ms \<Rightarrow> bool \<Rightarrow> bool \<Rightarrow> compute_wake_reason \<Rightarrow> job_row \<Rightarrow> string \<Rightarrow> job_row \<Rightarrow> job_row" where
  "wokenRow mx now hit alive why e ci r =
     (if exhausted mx ci r then poisonRow now r
      else if live mx ci r then
        (if hit then applyPatch Queued (wakePatch now Cache_ready) r
         else if \<not> alive \<and> r = e then applyPatch Queued (wakePatch now why) r else r)
      else r)"

lemma poison_keeps [simp]: "runId (poisonRow now r) = runId r" "status (poisonRow now r) = Failed"
    "computeIdentity (poisonRow now r) = computeIdentity r"
  by (simp_all add: poisonRow_def applyPatch_def terminalPatch_def patch_at_def)

lemma wake_keeps [simp]: "computeIdentity (applyPatch Queued (wakePatch now why) r) = computeIdentity r"
  by (simp add: applyPatch_def wakePatch_def patch_at_def)

lemma wokenRow_id [simp]: "runId (wokenRow mx now hit alive why e ci r) = runId r"
    "computeIdentity (wokenRow mx now hit alive why e ci r) = computeIdentity r"
  by (simp_all add: wokenRow_def)

lemma wokenRow_other: "\<not> isWaiter ci r \<Longrightarrow> wokenRow mx now hit alive why e ci r = r"
  by (simp add: wokenRow_def exhausted_def live_def)

definition poisonSet :: "ms \<Rightarrow> job_row set \<Rightarrow> job_row \<Rightarrow> job_row" where
  "poisonSet now A r = (if r \<in> A then poisonRow now r else r)"

text \<open>The waiter elected for a group is a live one, the one that has queued longest.\<close>

definition elects :: "nat \<Rightarrow> string \<Rightarrow> (string \<Rightarrow> job_row option) \<Rightarrow> job_row \<Rightarrow> bool" where
  "elects mx ci R e \<longleftrightarrow> R (runId e) = Some e \<and> live mx ci e \<and>
     (\<forall>k q. R k = Some q \<longrightarrow> live mx ci q \<longrightarrow> queueTs e \<le> queueTs q)"

definition failedLeader :: "job_row option \<Rightarrow> compute_wake_reason" where
  "failedLeader j = (case j of Some leaderJob \<Rightarrow>
       if status leaderJob \<in> {Failed, Timed_out, Canceled} then Leader_failed else Lock_expired
     | None \<Rightarrow> Lock_expired)"

text \<open>The row after the groups of the identities \<open>D\<close> have been processed.\<close>

definition passRow :: "nat \<Rightarrow> ms \<Rightarrow> (string \<Rightarrow> bool) \<Rightarrow> (string \<Rightarrow> bool) \<Rightarrow> (string \<Rightarrow> job_row) \<Rightarrow> (string \<Rightarrow> compute_wake_reason)
    \<Rightarrow> string set \<Rightarrow> job_row \<Rightarrow> job_row" where
  "passRow mx now H A e why D r = (case waiting r of None \<Rightarrow> r
     | Some ci \<Rightarrow> if ci \<in> D then wokenRow mx now (H ci) (A ci) (why ci) (e ci) ci r else r)"

lemma passRow_waiter:
  assumes "ci \<notin> D" "ci \<noteq> []"
  shows "isWaiter ci r \<Longrightarrow> passRow mx now H A e why D r = r"
    "isWaiter ci (passRow mx now H A e why D r) \<longleftrightarrow> isWaiter ci r"
proof -
  show k: "isWaiter ci r \<Longrightarrow> passRow mx now H A e why D r = r"
    using assms waiting_isWaiter [OF assms(2)] by (simp add: passRow_def)
  show "isWaiter ci (passRow mx now H A e why D r) \<longleftrightarrow> isWaiter ci r"
  proof (cases "waiting r")
    case None
    thus ?thesis by (simp add: passRow_def)
  next
    case (Some c)
    hence c: "computeIdentity r = Some c" by (simp add: waiting_def split: if_splits)
    show ?thesis
    proof (cases "c = ci")
      case True
      thus ?thesis using Some assms(1) by (simp add: passRow_def)
    next
      case False
      have "computeIdentity (passRow mx now H A e why D r) = Some c" using Some c by (simp add: passRow_def)
      thus ?thesis using c False by (simp add: isWaiter_def)
    qed
  qed
qed

lemma passRow_insert:
  assumes "ci \<notin> D" "ci \<noteq> []"
  shows "wokenRow mx now (H ci) (A ci) w x ci (passRow mx now H A e why D r) =
    passRow mx now H A (e(ci := x)) (why(ci := w)) (insert ci D) r"
proof (cases "isWaiter ci r")
  case True
  thus ?thesis using passRow_waiter(1) [OF assms True] waiting_isWaiter [OF assms(2)] by (simp add: passRow_def)
next
  case False
  have "\<not> isWaiter ci (passRow mx now H A e why D r)" using False passRow_waiter(2) [OF assms] by blast
  hence l: "wokenRow mx now (H ci) (A ci) w x ci (passRow mx now H A e why D r) = passRow mx now H A e why D r"
    by (rule wokenRow_other)
  have "waiting r \<noteq> Some ci" using False waiting_isWaiter [OF assms(2)] by simp
  thus ?thesis unfolding l by (cases "waiting r") (auto simp: passRow_def)
qed

locale wake_ctx = job_store_contract "wd_store deps" inv evs
  for deps :: "('s, 'c, 'l) wake_deps" and inv :: "'s \<Rightarrow> bool" and evs :: "'s \<Rightarrow> job_event_row list"
begin

abbreviation rows_of :: "'s \<Rightarrow> string \<Rightarrow> job_row option" where
  "rows_of st \<equiv> op_get (wd_store deps) st"

abbreviation mx :: nat where
  "mx \<equiv> wd_computeWaitMaxAttempts deps"

lemma poison_step:
  assumes "inv st" "inv st0" "\<And>k. rows_of st k = map_option (poisonSet now A) (rows_of st0 k)"
    and "rows_of st0 (runId w) = Some w" "status w = Waiting_for_compute"
    and "op_poisonComputeWaiter (wd_store deps) (runId w) now st = (res, st')"
  shows "inv st'" "evs st' = evs st"
    "res = (if w \<in> A then None else Some (poisonRow now w))"
    "rows_of st' k = map_option (poisonSet now (insert w A)) (rows_of st0 k)"
proof -
  have w: "rows_of st (runId w) = Some (poisonSet now A w)" using assms(3,4) by simp
  have c: "cas_ok (rows_of st (runId w)) Waiting_for_compute Failed None \<longleftrightarrow> w \<notin> A"
    using assms(5) by (simp add: w poisonSet_def canTransition_def)
  show "inv st'" "evs st' = evs st"
    using poison_inv [OF assms(1)] poison_evs [OF assms(1)] assms(6) by (metis snd_conv)+
  show "res = (if w \<in> A then None else Some (poisonRow now w))"
    using poison_result [OF assms(1), of "runId w" now] assms(6) c w by (simp add: poisonSet_def poisonRow_def)
  have r: "rows_of st' = (if w \<notin> A then (rows_of st)(runId w \<mapsto> poisonRow now w) else rows_of st)"
    using poison_rows [OF assms(1), of "runId w" now] assms(6) c w by (simp add: poisonSet_def poisonRow_def)
  show "rows_of st' k = map_option (poisonSet now (insert w A)) (rows_of st0 k)"
  proof (cases "k = runId w")
    case True
    thus ?thesis using r assms(3,4) by (simp add: poisonSet_def)
  next
    case False
    have "q \<noteq> w" if "rows_of st0 k = Some q" for q using row_ok [OF assms(2) that] False by auto
    hence "map_option (poisonSet now (insert w A)) (rows_of st0 k) = map_option (poisonSet now A) (rows_of st0 k)"
      by (cases "rows_of st0 k") (simp_all add: poisonSet_def)
    thus ?thesis using r False assms(3) by simp
  qed
qed

lemma poison_loop:
  assumes "inv st0" "\<And>w. w \<in> set g \<Longrightarrow> rows_of st0 (runId w) = Some w \<and> status w = Waiting_for_compute"
    and "inv st" "\<And>k. rows_of st k = map_option (poisonSet now A) (rows_of st0 k)"
    and "poisonLoop deps now g (rows, st) = (rows', st')"
    and "set rows = poisonRow now ` A" "distinct (map runId rows)" "\<And>w. w \<in> A \<Longrightarrow> rows_of st0 (runId w) = Some w"
  shows "inv st' \<and> evs st' = evs st
    \<and> (\<forall>k. rows_of st' k = map_option (poisonSet now (A \<union> {w \<in> set g. mx \<le> computeWaitAttempts w})) (rows_of st0 k))
    \<and> set rows' = poisonRow now ` (A \<union> {w \<in> set g. mx \<le> computeWaitAttempts w}) \<and> distinct (map runId rows')"
  using assms(2-)
proof (induction g arbitrary: rows st A)
  case Nil
  thus ?case by simp
next
  case (Cons w g)
  show ?case
  proof (cases "mx \<le> computeWaitAttempts w")
    case False
    have s: "A \<union> {v \<in> set (w # g). mx \<le> computeWaitAttempts v} = A \<union> {v \<in> set g. mx \<le> computeWaitAttempts v}"
      using False by auto
    have l: "poisonLoop deps now g (rows, st) = (rows', st')" using Cons.prems(4) False by simp
    show ?thesis unfolding s
    proof (rule Cons.IH [OF _ Cons.prems(2,3) l Cons.prems(5-7)])
      show "rows_of st0 (runId v) = Some v \<and> status v = Waiting_for_compute" if "v \<in> set g" for v
        using Cons.prems(1) that by simp
    qed
  next
    case True
    obtain res st1 where p: "op_poisonComputeWaiter (wd_store deps) (runId w) now st = (res, st1)"
      by (cases "op_poisonComputeWaiter (wd_store deps) (runId w) now st")
    note ps = poison_step [OF Cons.prems(2) assms(1) Cons.prems(3) _ _ p]
    have w: "rows_of st0 (runId w) = Some w" "status w = Waiting_for_compute" using Cons.prems(1) [of w] by simp_all
    have l: "poisonLoop deps now g (if w \<in> A then rows else rows @ [poisonRow now w], st1) = (rows', st')"
      using Cons.prems(4) True p ps(3) [OF w] by (simp split: if_splits)
    have s: "A \<union> {v \<in> set (w # g). mx \<le> computeWaitAttempts v} = insert w A \<union> {v \<in> set g. mx \<le> computeWaitAttempts v}"
      using True by auto
    have fresh: "runId w \<notin> runId ` set rows" if "w \<notin> A"
    proof
      assume "runId w \<in> runId ` set rows"
      then obtain v where v: "v \<in> A" "runId v = runId w" using Cons.prems(5) by auto
      have "Some v = Some w" using Cons.prems(7) [OF v(1)] w(1) unfolding v(2) by (simp only:)
      hence "v = w" by (simp only: option.inject)
      thus False using v(1) that by blast
    qed
    have "inv st' \<and> evs st' = evs st1
      \<and> (\<forall>k. rows_of st' k = map_option (poisonSet now (insert w A \<union> {w \<in> set g. mx \<le> computeWaitAttempts w})) (rows_of st0 k))
      \<and> set rows' = poisonRow now ` (insert w A \<union> {w \<in> set g. mx \<le> computeWaitAttempts w}) \<and> distinct (map runId rows')"
    proof (rule Cons.IH [OF _ ps(1) [OF w] ps(4) [OF w] l])
      show "rows_of st0 (runId v) = Some v \<and> status v = Waiting_for_compute" if "v \<in> set g" for v
        using Cons.prems(1) that by simp
      show "set (if w \<in> A then rows else rows @ [poisonRow now w]) = poisonRow now ` insert w A"
        using Cons.prems(5) by auto
      show "distinct (map runId (if w \<in> A then rows else rows @ [poisonRow now w]))"
        using Cons.prems(6) fresh by auto
      show "rows_of st0 (runId v) = Some v" if "v \<in> insert w A" for v using Cons.prems(7) w that by auto
    qed
    thus ?thesis unfolding s using ps(2) [OF w] by simp
  qed
qed

text \<open>One group.\<close>

definition all_waiters :: "string \<Rightarrow> job_row list \<Rightarrow> 's \<Rightarrow> bool" where
  "all_waiters ci g st \<longleftrightarrow> set g = {r. rows_of st (runId r) = Some r \<and> isWaiter ci r}"

definition hit :: "'c \<Rightarrow> string \<Rightarrow> bool" where
  "hit cache ci = (rc_lookup (wd_resultCache deps) cache ci \<noteq> None)"

definition alive :: "ms \<Rightarrow> 'l \<Rightarrow> string \<Rightarrow> bool" where
  "alive now locks ci = lockAlive now (lk_get (wd_computeLock deps) locks ci)"

lemma poisonSet_exhausted:
  assumes "inv st" "all_waiters ci g st" "rows_of st k = Some r"
  shows "poisonSet now {w \<in> set g. mx \<le> computeWaitAttempts w} r = (if exhausted mx ci r then poisonRow now r else r)"
proof -
  have "runId r = k" using row_ok [OF assms(1,3)] by simp
  hence "r \<in> {w \<in> set g. mx \<le> computeWaitAttempts w} \<longleftrightarrow> exhausted mx ci r"
    using assms(2,3) by (simp add: all_waiters_def exhausted_def)
  thus ?thesis by (simp add: poisonSet_def)
qed

lemma group_poison:
  assumes "inv st" "all_waiters ci g st" "poisonLoop deps now g ([], st) = (rows, st1)"
  shows "inv st1" "evs st1 = evs st"
    "rows_of st1 k = map_option (\<lambda>r. if exhausted mx ci r then poisonRow now r else r) (rows_of st k)"
    "set rows = poisonRow now ` {w. rows_of st (runId w) = Some w \<and> exhausted mx ci w}" "distinct (map runId rows)"
proof -
  have g: "rows_of st (runId w) = Some w \<and> status w = Waiting_for_compute" if "w \<in> set g" for w
    using assms(2) that by (simp add: all_waiters_def isWaiter_def)
  have i: "map_option (poisonSet now {}) x = x" for x by (cases x) (simp_all add: poisonSet_def)
  have p': "inv st1 \<and> evs st1 = evs st
    \<and> (\<forall>k. rows_of st1 k = map_option (poisonSet now {w \<in> set g. mx \<le> computeWaitAttempts w}) (rows_of st k))
    \<and> set rows = poisonRow now ` {w \<in> set g. mx \<le> computeWaitAttempts w} \<and> distinct (map runId rows)"
    using poison_loop [OF assms(1) g assms(1) _ assms(3), where A = "{}"] by (simp add: i)
  thus "inv st1" "evs st1 = evs st" "distinct (map runId rows)" by blast+
  show "rows_of st1 k = map_option (\<lambda>r. if exhausted mx ci r then poisonRow now r else r) (rows_of st k)"
  proof (cases "rows_of st k")
    case None
    thus ?thesis using p' by simp
  next
    case (Some r)
    thus ?thesis using p' poisonSet_exhausted [OF assms(1,2) Some] by simp
  qed
  have "{w \<in> set g. mx \<le> computeWaitAttempts w} = {w. rows_of st (runId w) = Some w \<and> exhausted mx ci w}"
    using assms(2) by (auto simp: all_waiters_def exhausted_def)
  thus "set rows = poisonRow now ` {w. rows_of st (runId w) = Some w \<and> exhausted mx ci w}" using p' by simp
qed

lemma waiter_after_poison: "isWaiter ci (if exhausted mx ci r then poisonRow now r else r) \<longleftrightarrow> live mx ci r"
  by (auto simp: exhausted_def live_def isWaiter_def)

lemma group_elect:
  assumes "inv st" "inv st1"
    and r1: "\<And>k. rows_of st1 k = map_option (\<lambda>r. if exhausted mx ci r then poisonRow now r else r) (rows_of st k)"
    and l: "rows_of st k0 = Some r0" "live mx ci r0"
    and el: "op_electOneComputeWaiter (wd_store deps) ci why now st1 = (res, st2)"
    and "\<not> hit'" "\<not> alive'"
  shows "\<exists>e. elects mx ci (rows_of st) e \<and> res \<noteq> None
    \<and> (\<forall>k. rows_of st2 k = map_option (wokenRow mx now hit' alive' why e ci) (rows_of st k))"
proof -
  have w0: "rows_of st1 k0 = Some r0" using r1 [of k0] l by (auto simp: live_def exhausted_def)
  have iw: "isWaiter ci r0" using l(2) by (simp add: live_def)
  have "res \<noteq> None"
  proof
    assume "res = None"
    hence "\<forall>k r. rows_of st1 k = Some r \<longrightarrow> \<not> isWaiter ci r"
      using elect_none [OF assms(2), of ci why now] el by simp
    thus False using w0 iw by blast
  qed
  then obtain x where x: "res = Some x" by blast
  obtain e where e: "rows_of st1 (runId e) = Some e" "isWaiter ci e"
      "\<forall>k q. rows_of st1 k = Some q \<longrightarrow> isWaiter ci q \<longrightarrow> queueTs e \<le> queueTs q"
      "x = applyPatch Queued (wakePatch now why) e" "rows_of st2 = (rows_of st1)(runId e \<mapsto> x)"
    using elect_some [OF assms(2), of ci why now x] el x by auto
  obtain e0 where e0: "rows_of st (runId e) = Some e0" "e = (if exhausted mx ci e0 then poisonRow now e0 else e0)"
    using r1 [of "runId e"] e(1) by (cases "rows_of st (runId e)") auto
  have le: "live mx ci e0" using e(2) waiter_after_poison [of ci e0 now] unfolding e0(2) by simp
  have "\<not> exhausted mx ci e0" using le by (simp add: live_def exhausted_def)
  hence ee: "e0 = e" using e0(2) by (simp only: if_False)
  have em: "elects mx ci (rows_of st) e"
    unfolding elects_def
  proof (intro conjI allI impI)
    show "rows_of st (runId e) = Some e" "live mx ci e" using e0(1) le unfolding ee by simp_all
    fix k q assume q: "rows_of st k = Some q" "live mx ci q"
    have "rows_of st1 k = Some q" using r1 [of k] q by (simp add: live_def exhausted_def)
    thus "queueTs e \<le> queueTs q" using e(3) q(2) by (simp add: live_def)
  qed
  have "rows_of st2 k = map_option (wokenRow mx now hit' alive' why e ci) (rows_of st k)" for k
  proof (cases "rows_of st k")
    case None
    hence "k \<noteq> runId e" using e0(1) by auto
    thus ?thesis using None e(5) r1 [of k] by simp
  next
    case (Some r)
    have k: "runId r = k" using row_ok [OF assms(1) Some] by simp
    show ?thesis
    proof (cases "k = runId e")
      case True
      hence "r = e" using Some e0(1) ee by (simp only: option.inject)
      thus ?thesis using True Some e(4,5) le ee assms(7,8) unfolding wokenRow_def by (simp add: exhausted_def live_def)
    next
      case False
      hence "r \<noteq> e" using k by blast
      thus ?thesis using False Some e(5) r1 [of k] assms(7) by (simp add: wokenRow_def)
    qed
  qed
  thus ?thesis using em \<open>res \<noteq> None\<close> by blast
qed

lemma group_release:
  assumes "inv st1"
    and r1: "\<And>k. rows_of st1 k = map_option (\<lambda>r. if exhausted mx ci r then poisonRow now r else r) (rows_of st k)"
    and rl: "op_releaseAllComputeWaiters (wd_store deps) ci Cache_ready now st1 = (n, st2)" and "hit'"
  shows "rows_of st2 k = map_option (wokenRow mx now hit' alive' why e ci) (rows_of st k)"
proof -
  have "rows_of st2 k = map_option (releaseRow ci Cache_ready now) (rows_of st1 k)"
    using release_rows [OF assms(1), of ci Cache_ready now k] rl by simp
  moreover have "releaseRow ci Cache_ready now (if exhausted mx ci r then poisonRow now r else r) =
      wokenRow mx now hit' alive' why e ci r" for r
    using assms(4) unfolding releaseRow_def waiter_after_poison wokenRow_def
    by (cases "exhausted mx ci r") (auto simp: live_def exhausted_def)
  ultimately show ?thesis using r1 [of k] by (cases "rows_of st k") simp_all
qed

definition groupEffect :: "ms \<Rightarrow> 'c \<Rightarrow> 'l \<Rightarrow> string \<Rightarrow> 's \<Rightarrow> job_row \<Rightarrow> compute_wake_reason \<Rightarrow> wake_result \<Rightarrow> wake_result \<Rightarrow> 's \<Rightarrow> bool" where
  "groupEffect now cache locks ci st e why res res' st' \<longleftrightarrow> inv st' \<and> evs st' = evs st
     \<and> (\<forall>k. rows_of st' k = map_option (wokenRow mx now (hit cache ci) (alive now locks ci) why e ci) (rows_of st k))
     \<and> (\<not> hit cache ci \<longrightarrow> \<not> alive now locks ci \<longrightarrow> (\<exists>k r. rows_of st k = Some r \<and> live mx ci r) \<longrightarrow> elects mx ci (rows_of st) e)
     \<and> why \<in> {Lock_expired, Leader_failed}
     \<and> (\<exists>rows. wr_poisonedJobs res' = wr_poisonedJobs res @ rows \<and> distinct (map runId rows)
          \<and> wr_poisoned res' = wr_poisoned res + length rows
          \<and> set rows = poisonRow now ` {w. rows_of st (runId w) = Some w \<and> exhausted mx ci w})"

lemma group_effect:
  assumes "inv st" "all_waiters ci g st" "wakeGroup deps now cache locks (ci, g) (res, st) = (res', st')"
  shows "\<exists>e why. groupEffect now cache locks ci st e why res res' st'"
proof -
  obtain rows st1 where p: "poisonLoop deps now g ([], st) = (rows, st1)" by (cases "poisonLoop deps now g ([], st)")
  note gp = group_poison [OF assms(1,2) p]
  let ?live = "[w \<leftarrow> g. computeWaitAttempts w < mx]"
  define res1 where "res1 = res\<lparr>wr_poisoned := wr_poisoned res + length rows, wr_poisonedJobs := wr_poisonedJobs res @ rows\<rparr>"
  define why where "why = wakeReason deps (lk_get (wd_computeLock deps) locks ci) st1"
  have why: "why \<in> {Lock_expired, Leader_failed}" by (auto simp: why_def wakeReason_def split: option.split)
  have rws: "wr_poisonedJobs r' = wr_poisonedJobs res @ rows \<and> wr_poisoned r' = wr_poisoned res + length rows"
    if "wr_poisonedJobs r' = wr_poisonedJobs res1" "wr_poisoned r' = wr_poisoned res1" for r' :: wake_result
    using that by (simp add: res1_def)
  have finish: "groupEffect now cache locks ci st e why res r' st2"
    if "inv st2" "evs st2 = evs st" "wr_poisonedJobs r' = wr_poisonedJobs res1" "wr_poisoned r' = wr_poisoned res1"
      "\<And>k. rows_of st2 k = map_option (wokenRow mx now (hit cache ci) (alive now locks ci) why e ci) (rows_of st k)"
      "\<not> hit cache ci \<Longrightarrow> \<not> alive now locks ci \<Longrightarrow> (\<exists>k r. rows_of st k = Some r \<and> live mx ci r) \<Longrightarrow> elects mx ci (rows_of st) e"
    for st2 r' e
    unfolding groupEffect_def using that(1,2,5,6) why rws [OF that(3,4)] gp(4,5) by blast
  have keep: "rows_of st1 k = map_option (wokenRow mx now (hit cache ci) (alive now locks ci) why e ci) (rows_of st k)"
    if "\<And>r. rows_of st k = Some r \<Longrightarrow> live mx ci r \<Longrightarrow> \<not> hit cache ci \<and> alive now locks ci" for k e
    using gp(3) [of k] that by (cases "rows_of st k") (auto simp: wokenRow_def)
  have lv: "?live = [] \<longleftrightarrow> (\<forall>k r. rows_of st k = Some r \<longrightarrow> \<not> live mx ci r)"
  proof
    assume "?live = []"
    hence "\<not> live mx ci r" if "rows_of st k = Some r" for k r
      using row_ok [OF assms(1) that] that assms(2) by (auto simp: all_waiters_def live_def filter_empty_conv)
    thus "\<forall>k r. rows_of st k = Some r \<longrightarrow> \<not> live mx ci r" by blast
  next
    assume "\<forall>k r. rows_of st k = Some r \<longrightarrow> \<not> live mx ci r"
    thus "?live = []" using assms(2) by (auto simp: all_waiters_def live_def filter_empty_conv)
  qed
  have eff: "wakeGroup deps now cache locks (ci, g) (res, st) = (if ?live = [] then (res1, st1)
      else if hit cache ci then (case op_releaseAllComputeWaiters (wd_store deps) ci Cache_ready now st1 of
                 (n, st2) \<Rightarrow> (res1\<lparr>wr_released := wr_released res1 + n\<rparr>, st2))
      else if alive now locks ci then (res1, st1)
      else (case op_electOneComputeWaiter (wd_store deps) ci why now st1 of
              (Some _, st2) \<Rightarrow> (res1\<lparr>wr_released := wr_released res1 + 1\<rparr>, st2) | (None, st2) \<Rightarrow> (res1, st2)))"
    by (simp only: wakeGroup_def hit_def alive_def why_def res1_def Let_def prod.case p)
  note def = eff [unfolded assms(3)]
  show ?thesis
  proof (cases "?live = []")
    case True
    hence "res' = res1" "st' = st1" using def by simp_all
    thus ?thesis using finish [OF gp(1,2) HOL.refl HOL.refl keep] lv True by blast
  next
    case nl: False
    show ?thesis
    proof (cases "hit cache ci")
      case h: True
      obtain n st2 where rl: "op_releaseAllComputeWaiters (wd_store deps) ci Cache_ready now st1 = (n, st2)"
        by (cases "op_releaseAllComputeWaiters (wd_store deps) ci Cache_ready now st1")
      have e: "st' = st2" "res' = res1\<lparr>wr_released := wr_released res1 + n\<rparr>" using def nl h rl by simp_all
      have "inv st2" "evs st2 = evs st"
        using release_inv [OF gp(1), of ci Cache_ready now] release_evs [OF gp(1), of ci Cache_ready now] rl gp(2) by simp_all
      thus ?thesis using finish [of st2 res' undefined] group_release [OF gp(1) gp(3) rl h] h e by fastforce
    next
      case h: False
      show ?thesis
      proof (cases "alive now locks ci")
        case a: True
        hence "res' = res1" "st' = st1" using def nl h by simp_all
        thus ?thesis using finish [OF gp(1,2) HOL.refl HOL.refl keep] h a by blast
      next
        case a: False
        obtain x st2 where el: "op_electOneComputeWaiter (wd_store deps) ci why now st1 = (x, st2)"
          by (cases "op_electOneComputeWaiter (wd_store deps) ci why now st1")
        obtain k0 r0 where l: "rows_of st k0 = Some r0" "live mx ci r0" using lv nl by blast
        obtain e where ee: "elects mx ci (rows_of st) e" "x \<noteq> None"
            "\<And>k. rows_of st2 k = map_option (wokenRow mx now (hit cache ci) (alive now locks ci) why e ci) (rows_of st k)"
          using group_elect [OF assms(1) gp(1) gp(3) l el h a] by blast
        have e': "st' = st2" "wr_poisonedJobs res' = wr_poisonedJobs res1" "wr_poisoned res' = wr_poisoned res1"
          using def nl h a el ee(2) by (auto split: option.splits)
        have "inv st2" "evs st2 = evs st"
          using elect_inv [OF gp(1), of ci why now] elect_evs [OF gp(1), of ci why now] el gp(2) by simp_all
        thus ?thesis using finish [of st2 res' e] ee(1,3) e' by blast
      qed
    qed
  qed
qed

text \<open>The whole pass.\<close>

definition passInv :: "ms \<Rightarrow> 'c \<Rightarrow> 'l \<Rightarrow> 's \<Rightarrow> string set \<Rightarrow> (string \<Rightarrow> job_row) \<Rightarrow> (string \<Rightarrow> compute_wake_reason)
    \<Rightarrow> wake_result \<times> 's \<Rightarrow> bool" where
  "passInv now cache locks st0 D e why acc \<longleftrightarrow> inv (snd acc) \<and> evs (snd acc) = evs st0
     \<and> (\<forall>k. rows_of (snd acc) k = map_option (passRow mx now (hit cache) (alive now locks) e why D) (rows_of st0 k))
     \<and> (\<forall>ci \<in> D. why ci \<in> {Lock_expired, Leader_failed} \<and> (\<not> hit cache ci \<longrightarrow> \<not> alive now locks ci \<longrightarrow>
          (\<exists>k r. rows_of st0 k = Some r \<and> live mx ci r) \<longrightarrow> elects mx ci (rows_of st0) (e ci)))
     \<and> wr_poisoned (fst acc) = length (wr_poisonedJobs (fst acc)) \<and> distinct (map runId (wr_poisonedJobs (fst acc)))
     \<and> set (wr_poisonedJobs (fst acc)) = poisonRow now ` {w. rows_of st0 (runId w) = Some w \<and> (\<exists>ci \<in> D. exhausted mx ci w)}"

lemma waiter_same:
  assumes "passInv now cache locks st0 D e why acc" "ci \<notin> D" "ci \<noteq> []" "isWaiter ci q"
  shows "rows_of (snd acc) k = Some q \<longleftrightarrow> rows_of st0 k = Some q"
proof -
  let ?f = "passRow mx now (hit cache) (alive now locks) e why D"
  have r: "rows_of (snd acc) k = map_option ?f (rows_of st0 k)" using assms(1) by (simp add: passInv_def)
  show ?thesis
  proof (cases "rows_of st0 k")
    case None
    thus ?thesis using r by simp
  next
    case (Some x)
    have "?f x = q \<longleftrightarrow> x = q"
    proof
      assume a: "?f x = q"
      hence "isWaiter ci x" using passRow_waiter(2) [OF assms(2,3)] assms(4) by blast
      from passRow_waiter(1) [OF assms(2,3) this] a show "x = q" by (simp only:)
    next
      assume "x = q"
      thus "?f x = q" using passRow_waiter(1) [OF assms(2-4)] by (simp only:)
    qed
    thus ?thesis using r Some by (simp only: option.map option.inject)
  qed
qed

lemma pass_step:
  assumes p: "passInv now cache locks st0 D e why acc" and ci: "ci \<notin> D" "ci \<noteq> []" and g: "all_waiters ci g st0"
  shows "\<exists>e' why'. passInv now cache locks st0 (insert ci D) e' why' (wakeGroup deps now cache locks (ci, g) acc)"
proof -
  obtain res st where acc: "acc = (res, st)" by (cases acc)
  obtain res' st' where w: "wakeGroup deps now cache locks (ci, g) acc = (res', st')" by (cases "wakeGroup deps now cache locks (ci, g) acc")
  have same: "isWaiter ci q \<Longrightarrow> rows_of st k = Some q \<longleftrightarrow> rows_of st0 k = Some q" for k q
    using waiter_same [OF p ci, of q k] acc by simp
  have aw: "all_waiters ci g st" using g same by (auto simp: all_waiters_def)
  have iv: "inv st" using p acc by (simp add: passInv_def)
  obtain x y where ge: "groupEffect now cache locks ci st x y res res' st'"
    using group_effect [OF iv aw w [unfolded acc]] by blast
  then obtain rows where rws: "wr_poisonedJobs res' = wr_poisonedJobs res @ rows" "distinct (map runId rows)"
      "wr_poisoned res' = wr_poisoned res + length rows"
      "set rows = poisonRow now ` {w. rows_of st (runId w) = Some w \<and> exhausted mx ci w}"
    unfolding groupEffect_def by blast
  have ex: "{w. rows_of st (runId w) = Some w \<and> exhausted mx ci w} = {w. rows_of st0 (runId w) = Some w \<and> exhausted mx ci w}"
    using same by (auto simp: exhausted_def)
  have lv: "live mx ci q \<Longrightarrow> rows_of st k = Some q \<longleftrightarrow> rows_of st0 k = Some q" for k q using same by (simp add: live_def)
  have el: "elects mx ci (rows_of st) x \<longleftrightarrow> elects mx ci (rows_of st0) x"
    unfolding elects_def using lv by blast
  have rw: "rows_of st' k = map_option (passRow mx now (hit cache) (alive now locks) (e(ci := x)) (why(ci := y)) (insert ci D)) (rows_of st0 k)" for k
  proof -
    have a: "rows_of st' k = map_option (wokenRow mx now (hit cache ci) (alive now locks ci) y x ci) (rows_of st k)"
      using ge by (simp add: groupEffect_def)
    have b: "rows_of st k = map_option (passRow mx now (hit cache) (alive now locks) e why D) (rows_of st0 k)"
      using p acc by (simp add: passInv_def)
    show ?thesis unfolding a b option.map_comp comp_def passRow_insert [OF ci] ..
  qed
  have dj: "runId ` set (wr_poisonedJobs res) \<inter> runId ` set rows = {}"
  proof -
    have old: "set (wr_poisonedJobs res) = poisonRow now ` {w. rows_of st0 (runId w) = Some w \<and> (\<exists>ci \<in> D. exhausted mx ci w)}"
      using p acc by (simp add: passInv_def)
    have "False" if "rows_of st0 (runId v) = Some v" "c \<in> D" "exhausted mx c v" "rows_of st0 (runId u) = Some u"
        "exhausted mx ci u" "runId v = runId u" for u v c
    proof -
      have "Some v = Some u" using that(1,4) unfolding that(6) by (simp only:)
      hence "v = u" by (simp only: option.inject)
      thus False using that(2,3,5) ci(1) by (auto simp: exhausted_def isWaiter_def)
    qed
    thus ?thesis unfolding old rws(4) ex by fastforce
  qed
  have "passInv now cache locks st0 (insert ci D) (e(ci := x)) (why(ci := y)) (res', st')"
    unfolding passInv_def fst_conv snd_conv
  proof (intro conjI allI ballI)
    show "inv st'" "evs st' = evs st0" using ge p acc by (simp_all add: groupEffect_def passInv_def)
    show "rows_of st' k = map_option (passRow mx now (hit cache) (alive now locks) (e(ci := x)) (why(ci := y)) (insert ci D)) (rows_of st0 k)" for k
      by (rule rw)
    have y: "y \<in> {Lock_expired, Leader_failed}" using ge by (simp add: groupEffect_def)
    have ely: "\<not> hit cache ci \<Longrightarrow> \<not> alive now locks ci \<Longrightarrow> \<exists>k r. rows_of st0 k = Some r \<and> live mx ci r \<Longrightarrow> elects mx ci (rows_of st0) x"
      using ge lv el unfolding groupEffect_def by blast
    have oldD: "\<forall>c \<in> D. why c \<in> {Lock_expired, Leader_failed} \<and> (\<not> hit cache c \<longrightarrow> \<not> alive now locks c \<longrightarrow>
          (\<exists>k r. rows_of st0 k = Some r \<and> live mx c r) \<longrightarrow> elects mx c (rows_of st0) (e c))"
      using p unfolding passInv_def by blast
    show "(why(ci := y)) c \<in> {Lock_expired, Leader_failed}" if "c \<in> insert ci D" for c
      using y oldD that by (cases "c = ci") auto
    show "\<not> hit cache c \<longrightarrow> \<not> alive now locks c \<longrightarrow> (\<exists>k r. rows_of st0 k = Some r \<and> live mx c r) \<longrightarrow>
        elects mx c (rows_of st0) ((e(ci := x)) c)" if "c \<in> insert ci D" for c
      using ely oldD that by (cases "c = ci") (simp, auto)
    show "wr_poisoned res' = length (wr_poisonedJobs res')" using rws p acc by (simp add: passInv_def)
    show "distinct (map runId (wr_poisonedJobs res'))" using rws(1,2) dj p acc by (simp add: passInv_def)
    have old: "set (wr_poisonedJobs res) = poisonRow now ` {w. rows_of st0 (runId w) = Some w \<and> (\<exists>ci \<in> D. exhausted mx ci w)}"
      using p acc by (simp add: passInv_def)
    show "set (wr_poisonedJobs res') = poisonRow now ` {w. rows_of st0 (runId w) = Some w \<and> (\<exists>ci \<in> insert ci D. exhausted mx ci w)}"
      unfolding rws(1) set_append old rws(4) ex by blast
  qed
  thus ?thesis unfolding w by blast
qed

lemma pass_fold:
  "passInv now cache locks st0 D e why acc \<Longrightarrow> distinct (map fst gs) \<Longrightarrow> D \<inter> fst ` set gs = {} \<Longrightarrow>
   \<forall>(ci, g) \<in> set gs. ci \<noteq> [] \<and> all_waiters ci g st0 \<Longrightarrow>
   \<exists>e' why'. passInv now cache locks st0 (D \<union> fst ` set gs) e' why' (fold (wakeGroup deps now cache locks) gs acc)"
proof (induction gs arbitrary: D e why acc)
  case Nil
  thus ?case by auto
next
  case (Cons x gs)
  obtain ci g where x: "x = (ci, g)" by (cases x)
  have c: "ci \<notin> D" "ci \<noteq> []" "all_waiters ci g st0" using Cons.prems(3,4) x by auto
  obtain e1 w1 where p1: "passInv now cache locks st0 (insert ci D) e1 w1 (wakeGroup deps now cache locks x acc)"
    using pass_step [OF Cons.prems(1) c] unfolding x by blast
  have "\<exists>e' why'. passInv now cache locks st0 (insert ci D \<union> fst ` set gs) e' why'
      (fold (wakeGroup deps now cache locks) gs (wakeGroup deps now cache locks x acc))"
    by (rule Cons.IH [OF p1]) (use Cons.prems(2-4) x in auto)
  moreover have "insert ci D \<union> fst ` set gs = D \<union> fst ` set (x # gs)" using x by simp
  ultimately show ?case by (simp only: fold_simps)
qed

lemma wake_pass:
  assumes "inv (co_store w)" "wakeComputeWaiters deps now w = (res, w')"
  shows "co_cache w' = co_cache w \<and> co_locks w' = co_locks w \<and>
    (\<exists>e why. passInv now (co_cache w) (co_locks w) (co_store w)
       {ci. \<exists>k r. rows_of (co_store w) k = Some r \<and> waiting r = Some ci} e why (res, co_store w'))"
proof -
  let ?st = "co_store w" and ?ws = "op_listComputeWaiters (wd_store deps) (co_store w)"
  let ?gs = "groupByIdentity ?ws" and ?z = "\<lparr>wr_released = 0, wr_poisoned = 0, wr_poisonedJobs = []\<rparr>"
  have ws: "set ?ws = {r. rows_of ?st (runId r) = Some r \<and> status r = Waiting_for_compute}"
    by (rule waiters [OF assms(1)])
  have st: "\<forall>w \<in> set ?ws. status w = Waiting_for_compute" using ws by blast
  note gok = group_spec(1) [OF st]
  have m: "map_ok ?gs" using gok by (simp add: groups_ok_def)
  have g: "ci \<noteq> [] \<and> g = filter (isWaiter ci) ?ws \<and> g \<noteq> []" if "(ci, g) \<in> set ?gs" for ci g
  proof -
    have "js_get ?gs ci = Some g" using that js_get_in [OF m] by simp
    thus ?thesis using groups_okD [OF gok] group_spec(2) [OF st, of ci] by simp
  qed
  have aw: "all_waiters ci (filter (isWaiter ci) ?ws) ?st" for ci
    using ws by (auto simp: all_waiters_def isWaiter_def)
  have D: "fst ` set ?gs = {ci. \<exists>k r. rows_of ?st k = Some r \<and> waiting r = Some ci}"
  proof (intro set_eqI iffI)
    fix ci assume "ci \<in> fst ` set ?gs"
    then obtain gr where "(ci, gr) \<in> set ?gs" by auto
    from g [OF this] have ne: "ci \<noteq> []" "filter (isWaiter ci) ?ws \<noteq> []" by blast+
    then obtain r where "r \<in> set ?ws" "isWaiter ci r" by (auto simp: filter_empty_conv)
    with ne(1) show "ci \<in> {ci. \<exists>k r. rows_of ?st k = Some r \<and> waiting r = Some ci}"
      using ws waiting_isWaiter [of ci r] by blast
  next
    fix ci assume "ci \<in> {ci. \<exists>k r. rows_of ?st k = Some r \<and> waiting r = Some ci}"
    then obtain k r where r: "rows_of ?st k = Some r" "waiting r = Some ci" by blast
    hence ne: "ci \<noteq> []" by (auto simp: waiting_def split: if_splits)
    have iw: "isWaiter ci r" using r(2) waiting_isWaiter [OF ne] by simp
    have "r \<in> set ?ws" using ws r(1) iw row_ok [OF assms(1) r(1)] by (simp add: isWaiter_def)
    hence "filter (isWaiter ci) ?ws \<noteq> []" using iw by (auto simp: filter_empty_conv)
    hence "js_get ?gs ci \<noteq> None" using group_spec(2) [OF st ne] by (cases "js_get ?gs ci") simp_all
    thus "ci \<in> fst ` set ?gs" using js_get_keys [of ?gs ci] by (simp add: js_keys_def)
  qed
  have init: "passInv now (co_cache w) (co_locks w) ?st {} undefined undefined (?z, ?st)"
  proof -
    have "passRow mx now H A e why {} r = r" for H A e why r by (simp add: passRow_def split: option.split)
    hence "map_option (passRow mx now H A e why {}) x = x" for H A e why x by (cases x) simp_all
    thus ?thesis using assms(1) by (simp add: passInv_def)
  qed
  have "\<exists>e why. passInv now (co_cache w) (co_locks w) ?st ({} \<union> fst ` set ?gs) e why
      (fold (wakeGroup deps now (co_cache w) (co_locks w)) ?gs (?z, ?st))"
  proof (rule pass_fold [OF init])
    show "distinct (map fst ?gs)" using m by (simp add: map_ok_def)
    show "\<forall>(ci, gr) \<in> set ?gs. ci \<noteq> [] \<and> all_waiters ci gr ?st" using g aw by blast
  qed simp
  moreover have "fold (wakeGroup deps now (co_cache w) (co_locks w)) ?gs (?z, ?st) = (res, co_store w')"
      "co_cache w' = co_cache w" "co_locks w' = co_locks w"
    using assms(2) by (auto simp: wakeComputeWaiters_def Let_def split: prod.splits)
  ultimately show ?thesis unfolding D by simp
qed

lemma wake_exact:
  assumes "inv (co_store w)" "wakeComputeWaiters deps now w = (res, w')"
  shows "\<exists>e why.
      (\<forall>k. rows_of (co_store w') k = map_option (\<lambda>r. case waiting r of None \<Rightarrow> r
          | Some ci \<Rightarrow> wokenRow mx now (hit (co_cache w) ci) (alive now (co_locks w) ci) (why ci) (e ci) ci r)
          (rows_of (co_store w) k))
    \<and> (\<forall>ci k r. rows_of (co_store w) k = Some r \<longrightarrow> waiting r = Some ci \<longrightarrow> why ci \<in> {Lock_expired, Leader_failed}
        \<and> (live mx ci r \<longrightarrow> \<not> hit (co_cache w) ci \<longrightarrow> \<not> alive now (co_locks w) ci \<longrightarrow> elects mx ci (rows_of (co_store w)) (e ci)))"
    and "distinct (map runId (wr_poisonedJobs res))"
    "set (wr_poisonedJobs res) = poisonRow now ` {r. rows_of (co_store w) (runId r) = Some r \<and> (\<exists>ci. waiting r = Some ci \<and> exhausted mx ci r)}"
    "inv (co_store w')" "evs (co_store w') = evs (co_store w)" "wr_poisoned res = length (wr_poisonedJobs res)"
proof -
  let ?D = "{ci. \<exists>k r. rows_of (co_store w) k = Some r \<and> waiting r = Some ci}"
  obtain e why where p: "passInv now (co_cache w) (co_locks w) (co_store w) ?D e why (res, co_store w')"
    using wake_pass [OF assms] by blast
  show "inv (co_store w')" "evs (co_store w') = evs (co_store w)" "distinct (map runId (wr_poisonedJobs res))"
      "wr_poisoned res = length (wr_poisonedJobs res)"
    using p by (simp_all add: passInv_def)
  have "(\<exists>ci \<in> ?D. exhausted mx ci r) \<longleftrightarrow> (\<exists>ci. waiting r = Some ci \<and> exhausted mx ci r)"
    if "rows_of (co_store w) (runId r) = Some r" for r
  proof
    assume "\<exists>ci \<in> ?D. exhausted mx ci r"
    then obtain ci where ci: "ci \<in> ?D" "exhausted mx ci r" by blast
    have "ci \<noteq> []" using ci(1) by (auto simp: waiting_def split: if_splits)
    thus "\<exists>ci. waiting r = Some ci \<and> exhausted mx ci r"
      using ci(2) waiting_isWaiter [of ci r] by (auto simp: exhausted_def)
  qed (use that in blast)
  hence "{r. rows_of (co_store w) (runId r) = Some r \<and> (\<exists>ci \<in> ?D. exhausted mx ci r)} =
      {r. rows_of (co_store w) (runId r) = Some r \<and> (\<exists>ci. waiting r = Some ci \<and> exhausted mx ci r)}"
    by (intro Collect_cong conj_cong HOL.refl) simp
  thus "set (wr_poisonedJobs res) = poisonRow now ` {r. rows_of (co_store w) (runId r) = Some r \<and> (\<exists>ci. waiting r = Some ci \<and> exhausted mx ci r)}"
    using p by (simp add: passInv_def)
  have rw: "rows_of (co_store w') k = map_option (\<lambda>r. case waiting r of None \<Rightarrow> r
          | Some ci \<Rightarrow> wokenRow mx now (hit (co_cache w) ci) (alive now (co_locks w) ci) (why ci) (e ci) ci r)
          (rows_of (co_store w) k)" for k
  proof (cases "rows_of (co_store w) k")
    case None
    thus ?thesis using p by (simp add: passInv_def)
  next
    case (Some r)
    have "waiting r = Some ci \<Longrightarrow> ci \<in> ?D" for ci using Some by blast
    hence "passRow mx now (hit (co_cache w)) (alive now (co_locks w)) e why ?D r = (case waiting r of None \<Rightarrow> r
          | Some ci \<Rightarrow> wokenRow mx now (hit (co_cache w) ci) (alive now (co_locks w) ci) (why ci) (e ci) ci r)"
      unfolding passRow_def by (cases "waiting r") simp_all
    moreover have "rows_of (co_store w') k = Some (passRow mx now (hit (co_cache w)) (alive now (co_locks w)) e why ?D r)"
      using p Some by (simp add: passInv_def)
    ultimately show ?thesis using Some by simp
  qed
  moreover have "why ci \<in> {Lock_expired, Leader_failed} \<and> (live mx ci r \<longrightarrow> \<not> hit (co_cache w) ci \<longrightarrow>
      \<not> alive now (co_locks w) ci \<longrightarrow> elects mx ci (rows_of (co_store w)) (e ci))"
    if "rows_of (co_store w) k = Some r" "waiting r = Some ci" for ci k r
  proof -
    have "ci \<in> ?D" using that by blast
    moreover have "\<forall>c \<in> ?D. why c \<in> {Lock_expired, Leader_failed} \<and> (\<not> hit (co_cache w) c \<longrightarrow> \<not> alive now (co_locks w) c \<longrightarrow>
          (\<exists>k r. rows_of (co_store w) k = Some r \<and> live mx c r) \<longrightarrow> elects mx c (rows_of (co_store w)) (e c))"
      using p unfolding passInv_def by blast
    ultimately show ?thesis using that(1) by blast
  qed
  ultimately show "\<exists>e why.
      (\<forall>k. rows_of (co_store w') k = map_option (\<lambda>r. case waiting r of None \<Rightarrow> r
          | Some ci \<Rightarrow> wokenRow mx now (hit (co_cache w) ci) (alive now (co_locks w) ci) (why ci) (e ci) ci r)
          (rows_of (co_store w) k))
    \<and> (\<forall>ci k r. rows_of (co_store w) k = Some r \<longrightarrow> waiting r = Some ci \<longrightarrow> why ci \<in> {Lock_expired, Leader_failed}
        \<and> (live mx ci r \<longrightarrow> \<not> hit (co_cache w) ci \<longrightarrow> \<not> alive now (co_locks w) ci \<longrightarrow> elects mx ci (rows_of (co_store w)) (e ci)))"
    by blast
qed

end

interpretation mem_wake: wake_ctx "\<lparr>wd_store = inMemoryOps, wd_resultCache = cops, wd_computeLock = lops,
    wd_computeWaitMaxAttempts = n\<rparr>" store_ok events for cops lops n
  unfolding wake_ctx_def using mem.job_store_contract_axioms by simp

interpretation pg_wake: wake_ctx "\<lparr>wd_store = pgOps jsonb, wd_resultCache = cops, wd_computeLock = lops,
    wd_computeWaitMaxAttempts = n\<rparr>" pg_ok pg_events for jsonb cops lops n
  unfolding wake_ctx_def using pg.job_store_contract_axioms by simp

end
