(* ===== verification/Wake_Properties.thy ===== *)
theory Wake_Properties
  imports Wake_Facts Job_Store_Properties
begin

text \<open>The properties of the wake pass, on the Postgres stores and on the in-memory stores.\<close>

definition pgWakeDeps :: "(json \<Rightarrow> json) \<Rightarrow> nat \<Rightarrow> (pg_store, pg_cache, pg_locks) wake_deps" where
  "pgWakeDeps jsonb n = \<lparr>wd_store = pgOps jsonb, wd_resultCache = pgResultCache, wd_computeLock = pgLocks,
     wd_computeWaitMaxAttempts = n\<rparr>"

definition memWakeDeps :: "nat \<Rightarrow> (job_store, mem_cache, mem_locks) wake_deps" where
  "memWakeDeps n = \<lparr>wd_store = inMemoryOps, wd_resultCache = inMemoryResultCache, wd_computeLock = inMemoryLocks,
     wd_computeWaitMaxAttempts = n\<rparr>"

text \<open>Claim C20. A wake pass over the Postgres stores rewrites the rows one by one as follows, and leaves every row
  that does not wait for a compute alone: a waiter at or over the attempts cap is failed with
  \<open>compute_wait_exhausted\<close>; another waiter is queued with reason \<open>cache_ready\<close> when the cache index has its
  identity; otherwise it keeps waiting while the lock is alive; and when there is neither a cached result nor
  a live lock, exactly one live waiter of the identity is queued, one that has queued longest, to become the
  new leader.  The rows handed back for publication are exactly the poisoned ones, each once.\<close>
theorem wake_pass_exact:
  assumes "pg_ok (co_store w)" "wakeComputeWaiters (pgWakeDeps jsonb mx) now w = (res, w')"
  shows "(\<exists>e why.
      (\<forall>k. pg_get (co_store w') k = map_option (\<lambda>r. case waiting r of None \<Rightarrow> r
          | Some ci \<Rightarrow> wokenRow mx now (pc_lookup (co_cache w) ci \<noteq> None) (lockAlive now (pl_get (co_locks w) ci))
                        (why ci) (e ci) ci r) (pg_get (co_store w) k))
      \<and> (\<forall>ci k r. pg_get (co_store w) k = Some r \<longrightarrow> waiting r = Some ci \<longrightarrow> why ci \<in> {Lock_expired, Leader_failed}
        \<and> (live mx ci r \<longrightarrow> pc_lookup (co_cache w) ci = None \<longrightarrow> \<not> lockAlive now (pl_get (co_locks w) ci) \<longrightarrow>
           elects mx ci (pg_get (co_store w)) (e ci))))
    \<and> distinct (map runId (wr_poisonedJobs res))
    \<and> set (wr_poisonedJobs res) =
        poisonRow now ` {r. pg_get (co_store w) (runId r) = Some r \<and> (\<exists>ci. waiting r = Some ci \<and> exhausted mx ci r)}
    \<and> pg_ok (co_store w') \<and> co_cache w' = co_cache w \<and> co_locks w' = co_locks w"
proof -
  have d: "wakeComputeWaiters \<lparr>wd_store = pgOps jsonb, wd_resultCache = pgResultCache, wd_computeLock = pgLocks,
      wd_computeWaitMaxAttempts = mx\<rparr> now w = (res, w')"
    using assms(2) by (simp only: pgWakeDeps_def)
  have g: "op_get (pgOps jsonb) = pg_get" "rc_lookup pgResultCache = pc_lookup" "lk_get pgLocks = pl_get"
    by (simp_all add: pgOps_def pgResultCache_def pgLocks_def)
  note x = pg_wake.wake_exact [OF assms(1) d, unfolded pg_wake.hit_def pg_wake.alive_def wake_deps.simps g]
  have c: "co_cache w' = co_cache w" "co_locks w' = co_locks w" using pg_wake.wake_pass [OF assms(1) d] by blast+
  show ?thesis using x(1) by (intro conjI x(2-4) c) (simp only: not_not)
qed

definition waitCalls :: "string \<Rightarrow> nat \<Rightarrow> store_call list" where
  "waitCalls rid n = [Call_insert (sampleJob rid None 1),
     Call_transition rid Accepted Queued ((patch_at 2)\<lparr>p_queuedAtMs := Some 2\<rparr>) None,
     Call_claim 3 (Some \<lparr>l_workerId = ''w'', l_ttlMs = 30\<rparr>) True,
     Call_transition rid Running Waiting_for_compute
       ((patch_at 4)\<lparr>p_computeIdentity := Some ''ci'', p_computeWaitAttempts := Some n\<rparr>) None]"

definition wakeSample :: "(pg_store, pg_cache, pg_locks) coord" where
  "wakeSample = \<lparr>co_store = exec_calls (pgOps id) (waitCalls ''a'' 1 @ waitCalls ''b'' 1 @ waitCalls ''c'' 3) emptyPg,
     co_cache = [], co_locks = []\<rparr>"

lemma wakeSample_ok: "pg_ok (co_store wakeSample)"
  unfolding wakeSample_def coord.simps by (rule pg.runs_inv) simp

theorem wake_pass_exact_witness:
  "distinct (map runId (wr_poisonedJobs (fst (wakeComputeWaiters (pgWakeDeps id 3) 100 wakeSample))))
   \<and> map runId (wr_poisonedJobs (fst (wakeComputeWaiters (pgWakeDeps id 3) 100 wakeSample))) = [''c'']
   \<and> map (\<lambda>k. map_option status (pg_get (co_store (snd (wakeComputeWaiters (pgWakeDeps id 3) 100 wakeSample))) k))
       [''a'', ''b'', ''c''] = [Some Queued, Some Waiting_for_compute, Some Failed]"
proof -
  have "map runId (wr_poisonedJobs (fst (wakeComputeWaiters (pgWakeDeps id 3) 100 wakeSample))) = [''c'']"
    "map (\<lambda>k. map_option status (pg_get (co_store (snd (wakeComputeWaiters (pgWakeDeps id 3) 100 wakeSample))) k))
       [''a'', ''b'', ''c''] = [Some Queued, Some Waiting_for_compute, Some Failed]"
    by code_simp+
  thus ?thesis using wake_pass_exact [OF wakeSample_ok, of id 3 100] by (metis prod.collapse)
qed

text \<open>Note. One maintenance step hands back the rows its wake pass poisoned; its sweep of the lock table runs only
  when the interval since the last one has elapsed and then records the time; it deletes at most the batch
  limit of locks, and never a lock that has not been expired for at least the lock TTL, so a lock that just
  expired is still there for the next wake pass to read its leader.\<close>
theorem maintenance_step:
  assumes "pg_locks_ok (co_locks w)" "0 \<le> orElse (mo_sweepBatchLimit opts) 1000"
    and "coalesceMaintenance (pgWakeDeps jsonb mx) ttl opts t1 t2 (lastSweep, w) = (rows, last', w')"
  shows "rows = wr_poisonedJobs (fst (wakeComputeWaiters (pgWakeDeps jsonb mx) t1 w))
    \<and> co_store w' = co_store (snd (wakeComputeWaiters (pgWakeDeps jsonb mx) t1 w))
    \<and> (if sweepDue (orElse (mo_sweepIntervalMs opts) (min ttl DEFAULT_SWEEP_INTERVAL_MS)) lastSweep t2
       then last' = Some t2 \<and> int (card {ci. pl_get (co_locks w) ci \<noteq> None \<and> pl_get (co_locks w') ci = None})
              \<le> orElse (mo_sweepBatchLimit opts) 1000
       else last' = lastSweep \<and> co_locks w' = co_locks w)
    \<and> (\<forall>ci l. pl_get (co_locks w) ci = Some l \<longrightarrow> t2 - ttl \<le> cl_lockExpiresAtMs l \<longrightarrow> pl_get (co_locks w') ci = Some l)"
proof -
  let ?n = "orElse (mo_sweepBatchLimit opts) 1000"
  let ?due = "sweepDue (orElse (mo_sweepIntervalMs opts) (min ttl DEFAULT_SWEEP_INTERVAL_MS)) lastSweep t2"
  obtain res w1 where wk: "wakeComputeWaiters (pgWakeDeps jsonb mx) t1 w = (res, w1)"
    by (cases "wakeComputeWaiters (pgWakeDeps jsonb mx) t1 w")
  have l1: "co_locks w1 = co_locks w" using wk by (auto simp: wakeComputeWaiters_def Let_def split: prod.splits)
  have ops: "wd_computeLock (pgWakeDeps jsonb mx) = pgLocks" by (simp add: pgWakeDeps_def)
  have st: "(rows, last', w') = (if ?due
      then (wr_poisonedJobs res, Some t2, w1\<lparr>co_locks := snd (lk_sweepExpired pgLocks t2 ttl ?n (co_locks w1))\<rparr>)
      else (wr_poisonedJobs res, lastSweep, w1))"
    using assms(3) by (simp only: coalesceMaintenance_def wk ops prod.case Let_def)
  obtain c ls where sw: "lk_sweepExpired pgLocks t2 ttl ?n (co_locks w1) = (c, ls)"
    by (cases "lk_sweepExpired pgLocks t2 ttl ?n (co_locks w1)")
  have gl: "lk_get pgLocks = pl_get" by (simp add: pgLocks_def)
  obtain victims where v: "oldest_first cl_lockExpiresAtMs (nat ?n) victims
        {e. pl_get (co_locks w) (cl_computeIdentity e) = Some e \<and> cl_lockExpiresAtMs e < t2 - ttl}"
      "pl_get ls = without victims (pl_get (co_locks w))"
    using pg_locks.sweep [OF _ assms(2) sw] assms(1) unfolding l1 gl by blast
  show ?thesis
  proof (cases ?due)
    case False
    thus ?thesis using st l1 wk by simp
  next
    case True
    hence e: "rows = wr_poisonedJobs res" "last' = Some t2" "co_store w' = co_store w1" "co_locks w' = ls"
      using st sw by simp_all
    have sub: "{ci. pl_get (co_locks w) ci \<noteq> None \<and> pl_get ls ci = None} \<subseteq> cl_computeIdentity ` set victims"
    proof
      fix ci assume "ci \<in> {ci. pl_get (co_locks w) ci \<noteq> None \<and> pl_get ls ci = None}"
      then obtain l where l: "pl_get (co_locks w) ci = Some l" "l \<in> set victims"
        using v(2) by (auto simp: without_def split: option.splits if_splits)
      thus "ci \<in> cl_computeIdentity ` set victims" using tab_get_key [of cl_computeIdentity] by (force simp: pl_get_def)
    qed
    have "card {ci. pl_get (co_locks w) ci \<noteq> None \<and> pl_get ls ci = None} \<le> length victims"
      using card_mono [OF _ sub] card_image_le [of "set victims" cl_computeIdentity] card_length [of victims] by fastforce
    moreover have "int (length victims) \<le> ?n" using v(1) assms(2) by (simp add: oldest_first_def)
    moreover have "pl_get ls ci = Some l" if "pl_get (co_locks w) ci = Some l" "t2 - ttl \<le> cl_lockExpiresAtMs l" for ci l
    proof -
      have "l \<notin> set victims" using v(1) that(2) by (auto simp: oldest_first_def)
      thus ?thesis using v(2) that(1) by (simp add: without_def)
    qed
    ultimately show ?thesis using True e wk by auto
  qed
qed

theorem maintenance_step_witness:
  "\<exists>rows last' w'. coalesceMaintenance (pgWakeDeps id 3) 50 \<lparr>mo_sweepBatchLimit = None, mo_sweepIntervalMs = None\<rparr> 100 200 (None, wakeSample)
     = (rows, last', w') \<and> map runId rows = [''c''] \<and> last' = Some 200"
proof -
  let ?o = "\<lparr>mo_sweepBatchLimit = None, mo_sweepIntervalMs = None\<rparr>"
  obtain rows last' w' where e: "coalesceMaintenance (pgWakeDeps id 3) 50 ?o 100 200 (None, wakeSample) = (rows, last', w')"
    by (cases "coalesceMaintenance (pgWakeDeps id 3) 50 ?o 100 200 (None, wakeSample)") auto
  have l: "pg_locks_ok (co_locks wakeSample)" by (simp add: wakeSample_def tab_ok_def)
  have r: "map runId (wr_poisonedJobs (fst (wakeComputeWaiters (pgWakeDeps id 3) 100 wakeSample))) = [''c'']" by code_simp
  have d: "sweepDue (orElse (mo_sweepIntervalMs ?o) (min 50 DEFAULT_SWEEP_INTERVAL_MS)) None 200" by code_simp
  have "0 \<le> orElse (mo_sweepBatchLimit ?o) 1000" by simp
  from maintenance_step [OF l this e] show ?thesis using e r d by auto
qed

end
