(* ===== verification/Bundle_Store.thy ===== *)
theory Bundle_Store
  imports Fingerprint Bundle
begin

text \<open>
  The content-addressed bundle registry: in memory and on the file system
  (\<open>apps/backtester/src/sandbox/bundle-store.ts\<close>) and on S3 (\<open>s3-bundle-store.ts\<close>), whose object client is a
  map from keys to bodies.  \<open>JSON.parse\<close> is the parameter \<open>jsonParse\<close>.  The text each store keeps under a
  hash is the view its contract is stated over.
\<close>

definition bundleHash_of :: "(rat \<Rightarrow> string) \<Rightarrow> (string \<Rightarrow> string) \<Rightarrow> json \<Rightarrow> canon_error + content_hash" where
  "bundleHash_of dec8 sha256 bundle = contentRef dec8 sha256 bundle"

definition hexOf :: "content_hash \<Rightarrow> string" where
  "hexOf r = drop (length ''sha256:'') r"

record 'b bundle_store_ops =
  bs_put :: "json \<Rightarrow> 'b \<Rightarrow> (canon_error + content_hash) \<times> 'b"
  bs_get :: "'b \<Rightarrow> content_hash \<Rightarrow> json option"
  bs_has :: "'b \<Rightarrow> content_hash \<Rightarrow> bool"

text \<open>The libraries the stores are built on.\<close>

record hash_env =
  he_dec8 :: "rat \<Rightarrow> string"
  he_sha256 :: "string \<Rightarrow> string"
  he_jsonParse :: "string \<Rightarrow> json option"

abbreviation canon :: "hash_env \<Rightarrow> json \<Rightarrow> canon_error + string" where
  "canon env b \<equiv> canonicalJson (he_dec8 env) b"

abbreviation bhash :: "hash_env \<Rightarrow> json \<Rightarrow> canon_error + content_hash" where
  "bhash env b \<equiv> bundleHash_of (he_dec8 env) (he_sha256 env) b"

subsection \<open>In memory\<close>

definition mb_put :: "hash_env \<Rightarrow> json \<Rightarrow> string js_map \<Rightarrow> (canon_error + content_hash) \<times> string js_map" where
  "mb_put env bundle bundles = (case (bhash env bundle, canon env bundle) of
      (Inr h, Inr text) \<Rightarrow> (Inr h, js_set h text bundles)
    | (Inl e, _) \<Rightarrow> (Inl e, bundles)
    | (_, Inl e) \<Rightarrow> (Inl e, bundles))"

definition mb_get :: "hash_env \<Rightarrow> string js_map \<Rightarrow> content_hash \<Rightarrow> json option" where
  "mb_get env bundles h = Option.bind (js_get bundles h) (he_jsonParse env)"

definition mb_has :: "string js_map \<Rightarrow> content_hash \<Rightarrow> bool" where
  "mb_has bundles h = (js_get bundles h \<noteq> None)"

subsection \<open>File system\<close>

text \<open>The bundle files below the base directory, by path.  A new bundle is written to a temporary file of its own
  and renamed into place, so that a reader sees nothing or the whole text; both steps together are one write.\<close>

definition pathFor :: "string \<Rightarrow> content_hash \<Rightarrow> string" where
  "pathFor baseDir h = baseDir @ ''/'' @ hexOf h @ ''.json''"

definition fb_put :: "hash_env \<Rightarrow> string \<Rightarrow> json \<Rightarrow> string js_map \<Rightarrow> (canon_error + content_hash) \<times> string js_map" where
  "fb_put env baseDir bundle files = (case bhash env bundle of
      Inl e \<Rightarrow> (Inl e, files)
    | Inr h \<Rightarrow>
        let path = pathFor baseDir h
        in if js_get files path \<noteq> None then (Inr h, files)
           else (case canon env bundle of
                   Inl e \<Rightarrow> (Inl e, files)
                 | Inr text \<Rightarrow> (Inr h, js_set path text files)))"

definition fb_get :: "hash_env \<Rightarrow> string \<Rightarrow> string js_map \<Rightarrow> content_hash \<Rightarrow> json option" where
  "fb_get env baseDir files h = Option.bind (js_get files (pathFor baseDir h)) (he_jsonParse env)"

definition fb_has :: "string \<Rightarrow> string js_map \<Rightarrow> content_hash \<Rightarrow> bool" where
  "fb_has baseDir files h = (js_get files (pathFor baseDir h) \<noteq> None)"

subsection \<open>S3\<close>

definition keyFor :: "content_hash \<Rightarrow> string" where
  "keyFor h = ''bundles/'' @ hexOf h @ ''.json''"

definition s3_put :: "hash_env \<Rightarrow> json \<Rightarrow> string js_map \<Rightarrow> (canon_error + content_hash) \<times> string js_map" where
  "s3_put env bundle objects = (case (bhash env bundle, canon env bundle) of
      (Inr h, Inr body) \<Rightarrow> (Inr h, js_set (keyFor h) body objects)
    | (Inl e, _) \<Rightarrow> (Inl e, objects)
    | (_, Inl e) \<Rightarrow> (Inl e, objects))"

definition s3_get :: "hash_env \<Rightarrow> string js_map \<Rightarrow> content_hash \<Rightarrow> json option" where
  "s3_get env objects h = Option.bind (js_get objects (keyFor h)) (he_jsonParse env)"

definition s3_has :: "string js_map \<Rightarrow> content_hash \<Rightarrow> bool" where
  "s3_has objects h = (js_get objects (keyFor h) \<noteq> None)"

subsection \<open>The contract\<close>

definition is_ref :: "content_hash \<Rightarrow> bool" where
  "is_ref h = startsWith h ''sha256:''"

text \<open>\<open>textOf st h\<close> is the text stored under a reference.  Every text is stored under its own hash.\<close>

locale bundle_store_contract =
  fixes ops :: "'b bundle_store_ops" and env :: hash_env and textOf :: "'b \<Rightarrow> content_hash \<Rightarrow> string option"
  assumes put_error: "bhash env b = Inl e \<Longrightarrow> bs_put ops b st = (Inl e, st)"
    and put_hash: "bhash env b = Inr h \<Longrightarrow> fst (bs_put ops b st) = Inr h"
    and put_text: "bhash env b = Inr h \<Longrightarrow> canon env b = Inr t \<Longrightarrow> is_ref k \<Longrightarrow>
      textOf (snd (bs_put ops b st)) k = (if k = h then (if textOf st h = None then Some t else textOf (snd (bs_put ops b st)) h)
        else textOf st k)"
    and put_again: "bhash env b = Inr h \<Longrightarrow> canon env b = Inr t \<Longrightarrow>
      textOf (snd (bs_put ops b st)) h \<in> {textOf st h, Some t} \<and> textOf (snd (bs_put ops b st)) h \<noteq> None"
    and get_text: "bs_get ops st k = Option.bind (textOf st k) (he_jsonParse env)"
    and has_text: "bs_has ops st k \<longleftrightarrow> textOf st k \<noteq> None"
begin

text \<open>Every stored text hashes to the reference it is stored under.\<close>

definition addressed :: "'b \<Rightarrow> bool" where
  "addressed st = (\<forall>k t. is_ref k \<longrightarrow> textOf st k = Some t \<longrightarrow> k = ''sha256:'' @ he_sha256 env t)"

lemma hash_canon: "bhash env b = Inr h \<Longrightarrow> \<exists>t. canon env b = Inr t \<and> h = ''sha256:'' @ he_sha256 env t"
  by (auto simp: bundleHash_of_def contentRef_def map_sum_Inr)

lemma hash_is_ref: "bhash env b = Inr h \<Longrightarrow> is_ref h"
  using hash_canon [of b h] by (auto simp: is_ref_def startsWith_def)

lemma put_addressed:
  assumes "addressed st" shows "addressed (snd (bs_put ops b st))"
proof (cases "bhash env b")
  case (Inl e)
  thus ?thesis using assms put_error [OF Inl] by simp
next
  case (Inr h)
  obtain t where t: "canon env b = Inr t" "h = ''sha256:'' @ he_sha256 env t" using hash_canon [OF Inr] by blast
  show ?thesis unfolding addressed_def
  proof (intro allI impI)
    fix k u assume k: "is_ref k" "textOf (snd (bs_put ops b st)) k = Some u"
    show "k = ''sha256:'' @ he_sha256 env u"
    proof (cases "k = h")
      case True
      hence "textOf st h = Some u \<or> u = t" using put_again [OF Inr t(1), of st] k(2) by auto
      thus ?thesis using assms k(1) True t(2) by (auto simp: addressed_def)
    next
      case False
      hence "textOf st k = Some u" using put_text [OF Inr t(1) k(1), of st] k(2) by simp
      thus ?thesis using assms k(1) by (simp add: addressed_def)
    qed
  qed
qed

lemma puts_keep:
  assumes "addressed st" "is_ref k" "textOf st k = Some t" "\<forall>u. he_sha256 env u = he_sha256 env t \<longrightarrow> u = t"
  shows "addressed (fold (\<lambda>b st. snd (bs_put ops b st)) bs st) \<and>
    textOf (fold (\<lambda>b st. snd (bs_put ops b st)) bs st) k = Some t"
  using assms(1,3)
proof (induction bs arbitrary: st)
  case (Cons b bs)
  have "textOf (snd (bs_put ops b st)) k = Some t"
  proof (cases "bhash env b")
    case (Inl e)
    thus ?thesis using Cons.prems put_error [OF Inl] by simp
  next
    case (Inr h)
    obtain u where u: "canon env b = Inr u" "h = ''sha256:'' @ he_sha256 env u" using hash_canon [OF Inr] by blast
    show ?thesis
    proof (cases "k = h")
      case True
      have "k = ''sha256:'' @ he_sha256 env t" using Cons.prems assms(2) by (simp add: addressed_def)
      hence "u = t" using True u(2) assms(4) by simp
      thus ?thesis using put_again [OF Inr u(1), of st] Cons.prems(2) True by auto
    next
      case False
      thus ?thesis using put_text [OF Inr u(1) assms(2), of st] Cons.prems(2) by simp
    qed
  qed
  thus ?case using Cons.IH [OF put_addressed [OF Cons.prems(1)]] by simp
qed simp

lemma stored:
  assumes "bhash env b = Inr h" "canon env b = Inr t" "\<forall>u. he_sha256 env u = he_sha256 env t \<longrightarrow> u = t" "addressed st"
  shows "bs_get ops (fold (\<lambda>b st. snd (bs_put ops b st)) (before @ b # after) st) h = he_jsonParse env t"
proof -
  let ?p = "\<lambda>b st. snd (bs_put ops b st)"
  have a: "addressed (fold ?p before st)" using assms(4) by (induction before arbitrary: st) (auto simp: put_addressed)
  let ?st = "?p b (fold ?p before st)"
  have h: "h = ''sha256:'' @ he_sha256 env t" using hash_canon [OF assms(1)] assms(2) by auto
  have "textOf (fold ?p before st) h = Some u \<Longrightarrow> u = t" for u
    using a assms(3) hash_is_ref [OF assms(1)] h by (fastforce simp: addressed_def)
  hence "textOf ?st h = Some t" using put_again [OF assms(1,2), of "fold ?p before st"] by auto
  hence "textOf (fold ?p after ?st) h = Some t"
    using puts_keep [OF put_addressed [OF a] hash_is_ref [OF assms(1)] _ assms(3)] by blast
  thus ?thesis by (simp add: get_text)
qed

end

definition inMemoryBundles :: "hash_env \<Rightarrow> string js_map bundle_store_ops" where
  "inMemoryBundles env = \<lparr>bs_put = mb_put env, bs_get = mb_get env, bs_has = mb_has\<rparr>"

definition fileBundles :: "hash_env \<Rightarrow> string \<Rightarrow> string js_map bundle_store_ops" where
  "fileBundles env baseDir = \<lparr>bs_put = fb_put env baseDir, bs_get = fb_get env baseDir, bs_has = fb_has baseDir\<rparr>"

definition s3Bundles :: "hash_env \<Rightarrow> string js_map bundle_store_ops" where
  "s3Bundles env = \<lparr>bs_put = s3_put env, bs_get = s3_get env, bs_has = s3_has\<rparr>"

lemma bhash_canon: "bhash env b = map_sum id (\<lambda>s. ''sha256:'' @ he_sha256 env s) (canon env b)"
  by (simp add: bundleHash_of_def contentRef_def)

interpretation mem_bundles: bundle_store_contract "inMemoryBundles env" env js_get for env
proof (unfold_locales, goal_cases)
  case (1 b e st) thus ?case by (simp add: inMemoryBundles_def mb_put_def split: sum.split)
next
  case (2 b h st) thus ?case by (cases "canon env b") (simp_all add: inMemoryBundles_def mb_put_def bhash_canon)
next
  case (3 b h t k st) thus ?case by (simp add: inMemoryBundles_def mb_put_def)
next
  case (4 b h t st) thus ?case by (simp add: inMemoryBundles_def mb_put_def)
qed (simp_all add: inMemoryBundles_def mb_get_def mb_has_def)

lemma ref_hex: "is_ref h \<Longrightarrow> h = ''sha256:'' @ hexOf h"
  by (auto simp: is_ref_def startsWith_def prefix_def hexOf_def)

lemma hex_inj: "is_ref h \<Longrightarrow> is_ref k \<Longrightarrow> hexOf h = hexOf k \<longleftrightarrow> h = k"
  using ref_hex by metis

lemma bhash_ref: "bhash env b = Inr h \<Longrightarrow> is_ref h"
  by (auto simp: bhash_canon map_sum_Inr is_ref_def startsWith_def)

interpretation s3_bundles: bundle_store_contract "s3Bundles env" env "\<lambda>st h. js_get st (keyFor h)" for env
proof (unfold_locales, goal_cases)
  case (1 b e st) thus ?case by (simp add: s3Bundles_def s3_put_def split: sum.split)
next
  case (2 b h st) thus ?case by (cases "canon env b") (simp_all add: s3Bundles_def s3_put_def bhash_canon)
next
  case (3 b h t k st)
  have "keyFor k = keyFor h \<longleftrightarrow> k = h" using hex_inj [OF 3(3) bhash_ref [OF 3(1)]] by (simp add: keyFor_def)
  thus ?case using 3 by (simp add: s3Bundles_def s3_put_def)
next
  case (4 b h t st) thus ?case by (simp add: s3Bundles_def s3_put_def)
qed (simp_all add: s3Bundles_def s3_get_def s3_has_def)

interpretation file_bundles: bundle_store_contract "fileBundles env d" env "\<lambda>st h. js_get st (pathFor d h)" for env d
proof (unfold_locales, goal_cases)
  case (1 b e st) thus ?case by (simp add: fileBundles_def fb_put_def)
next
  case (2 b h st) thus ?case by (cases "canon env b") (simp_all add: fileBundles_def fb_put_def bhash_canon Let_def)
next
  case (3 b h t k st)
  have "pathFor d k = pathFor d h \<longleftrightarrow> k = h" using hex_inj [OF 3(3) bhash_ref [OF 3(1)]] by (simp add: pathFor_def)
  thus ?case using 3 by (cases "js_get st (pathFor d h)") (simp_all add: fileBundles_def fb_put_def Let_def)
next
  case (4 b h t st) thus ?case by (cases "js_get st (pathFor d h)") (simp_all add: fileBundles_def fb_put_def Let_def)
qed (simp_all add: fileBundles_def fb_get_def fb_has_def)

text \<open>Claim C35. The registry is content addressed, in each of its three implementations: a bundle that was put into
  an empty registry among any other bundles can be read back under its hash as the parse of its canonical
  text, whatever is put afterwards, provided no other text has the same digest.\<close>
theorem bundle_put_get:
  assumes "bhash env b = Inr h" "canon env b = Inr t" "\<forall>u. he_sha256 env u = he_sha256 env t \<longrightarrow> u = t"
  shows "mb_get env (fold (\<lambda>b st. snd (mb_put env b st)) (before @ b # after) []) h = he_jsonParse env t
    \<and> fb_get env d (fold (\<lambda>b st. snd (fb_put env d b st)) (before @ b # after) []) h = he_jsonParse env t
    \<and> s3_get env (fold (\<lambda>b st. snd (s3_put env b st)) (before @ b # after) []) h = he_jsonParse env t"
proof -
  show ?thesis
    using mem_bundles.stored [OF assms, of "[]" before after] file_bundles.stored [OF assms, of d "[]" before after]
      s3_bundles.stored [OF assms, of "[]" before after]
    by (simp add: inMemoryBundles_def fileBundles_def s3Bundles_def mem_bundles.addressed_def
        file_bundles.addressed_def s3_bundles.addressed_def)
qed

definition sampleEnv :: hash_env where
  "sampleEnv = \<lparr>he_dec8 = (\<lambda>_. ''0''), he_sha256 = id, he_jsonParse = (\<lambda>s. if s = ''null'' @ [CHR 0x0A] then Some JNull else None)\<rparr>"

theorem bundle_put_get_witness:
  "fb_get sampleEnv ''/b'' (fold (\<lambda>b st. snd (fb_put sampleEnv ''/b'' b st)) ([sampleBundle] @ JNull # []) []) (''sha256:null'' @ [CHR 0x0A])
     = Some JNull"
proof -
  have h: "bhash sampleEnv JNull = Inr (''sha256:null'' @ [CHR 0x0A])" "canon sampleEnv JNull = Inr (''null'' @ [CHR 0x0A])"
      "he_jsonParse sampleEnv (''null'' @ [CHR 0x0A]) = Some JNull" by code_simp+
  have "\<forall>u. he_sha256 sampleEnv u = he_sha256 sampleEnv (''null'' @ [CHR 0x0A]) \<longrightarrow> u = ''null'' @ [CHR 0x0A]"
    by (simp add: sampleEnv_def)
  from bundle_put_get [OF h(1,2) this, of "[sampleBundle]" "[]" "''/b''"] h(3) show ?thesis by simp
qed

end
