(* ===== verification/Submit.thy ===== *)
theory Submit
  imports Bundle_Store Job_Store_Interface
begin

text \<open>
  \<open>apps/backtester/src/jobs/submit.ts\<close>: validation of a submitted request, the guard on the callback host, the
  replay contract of a resume token, backpressure, the bundle registry, and the insert that accepts and
  queues a job.  The request is a JSON value; a field whose type the source does not check is read at its
  declared type.  The URL parser, \<open>Date.parse\<close>, \<open>String(v)\<close> on values that are not strings and the metric
  catalogue of the kernel package are parameters.  Every throw is a left value.
\<close>

record submit_error =
  er_statusCode :: nat
  er_code :: string
  er_message :: string
  er_category :: string
  er_retryAfterS :: "nat option"
  er_extras :: "(string \<times> int) list option"

definition validationError :: "string \<Rightarrow> submit_error" where
  "validationError msg = \<lparr>er_statusCode = 400, er_code = ''validation_error'', er_message = msg,
     er_category = ''validation_error'', er_retryAfterS = None, er_extras = None\<rparr>"

definition conflictError :: "string \<Rightarrow> string \<Rightarrow> submit_error" where
  "conflictError code msg = (validationError msg)\<lparr>er_statusCode := 409, er_code := code\<rparr>"

record submit_env =
  sv_hash :: hash_env
  sv_parseUrl :: "string \<Rightarrow> (string \<times> string) option"
  sv_dateParse :: "string \<Rightarrow> ms option"
  sv_show :: "json \<Rightarrow> string"
  sv_kernelMetrics :: "string list"

subsection \<open>The callback host\<close>

definition dottedQuad :: "string \<Rightarrow> nat list option" where
  "dottedQuad s = (let parts = split_on (CHR ''.'') s in
     if length parts = 4 \<and> list_all (\<lambda>p. p \<noteq> [] \<and> length p \<le> 3 \<and> list_all isDigit p) parts
     then Some (map decVal parts) else None)"

definition isBlockedIpv4 :: "string \<Rightarrow> bool" where
  "isBlockedIpv4 s = (case dottedQuad s of
      Some [a, b, c, d] \<Rightarrow>
        if a > 255 \<or> b > 255 \<or> c > 255 \<or> d > 255 then False
        else a = 0 \<or> a = 127 \<or> a = 10 \<or> (a = 169 \<and> b = 254) \<or> (a = 172 \<and> 16 \<le> b \<and> b \<le> 31) \<or> (a = 192 \<and> b = 168)
    | _ \<Rightarrow> False)"

definition showQuad :: "nat \<Rightarrow> nat \<Rightarrow> string" where
  "showQuad hi lo = showDec ((hi div 256) mod 256) @ ''.'' @ showDec (hi mod 256) @ ''.''
     @ showDec ((lo div 256) mod 256) @ ''.'' @ showDec (lo mod 256)"

definition mappedTail :: "string \<Rightarrow> string option" where
  "mappedTail h =
     (if startsWith h ''::ffff:'' then Some (drop 7 h)
      else if startsWith h ''::'' \<and> length (split_on (CHR '':'') (drop 2 h)) = 2 then Some (drop 2 h)
      else None)"

definition embeddedMappedIpv4 :: "string \<Rightarrow> string option" where
  "embeddedMappedIpv4 h = (case mappedTail h of
      None \<Rightarrow> None
    | Some tail \<Rightarrow>
        if includesChar tail (CHR ''.'') then Some tail
        else (case split_on (CHR '':'') tail of
                [g0, g1] \<Rightarrow>
                  (case (parseHex g0, parseHex g1) of
                     (Some hi, Some lo) \<Rightarrow> if hi > 0xffff \<or> lo > 0xffff then None else Some (showQuad hi lo)
                   | _ \<Rightarrow> None)
              | _ \<Rightarrow> None))"

definition stripBrackets :: "string \<Rightarrow> string" where
  "stripBrackets s = (let t = (case s of [] \<Rightarrow> [] | c # cs \<Rightarrow> if c = CHR ''['' then cs else s)
     in if t \<noteq> [] \<and> last t = CHR '']'' then butlast t else t)"

definition isBlockedWebhookHost :: "string \<Rightarrow> bool" where
  "isBlockedWebhookHost hostname =
     (let h = stripBrackets (toLowerCase hostname)
      in if h = [] \<or> h = ''localhost'' \<or> endsWith h ''.localhost'' then True
         else if includesChar h (CHR '':'') then
           (if h = ''::1'' \<or> h = ''::'' then True
            else if startsWith h ''fe80:'' \<or> startsWith h ''fc'' \<or> startsWith h ''fd'' then True
            else case embeddedMappedIpv4 h of Some mapped \<Rightarrow> isBlockedIpv4 mapped | None \<Rightarrow> False)
         else isBlockedIpv4 h)"

definition assertSafeCallbackUrl :: "submit_env \<Rightarrow> string \<Rightarrow> submit_error option" where
  "assertSafeCallbackUrl env raw = (case sv_parseUrl env raw of
      None \<Rightarrow> Some (validationError ''callbackUrl must be a valid absolute URL'')
    | Some (protocol, hostname) \<Rightarrow>
        if protocol \<noteq> ''http:'' \<and> protocol \<noteq> ''https:''
        then Some (validationError ''callbackUrl must use http or https'')
        else if isBlockedWebhookHost hostname
        then Some (validationError (''callbackUrl host not allowed: '' @ hostname))
        else None)"

subsection \<open>Validation\<close>

definition VALID_MODES :: "string list" where
  "VALID_MODES = [''research'', ''review'', ''promotion'']"

definition METRIC_CATALOG :: "string list" where
  "METRIC_CATALOG = [''pnl'', ''return_pct'', ''total_bars'', ''long_bars'', ''win_rate'', ''seed_probe'']"

definition E1A_METRIC_CATALOG :: "string list" where
  "E1A_METRIC_CATALOG = [''sortino'', ''expectancy'', ''sqn'', ''cagr'', ''calmar'', ''returns_stddev'', ''returns_skew'',
     ''returns_kurtosis'', ''returns_count'']"

definition VALID_OVERLAY_METRICS :: "submit_env \<Rightarrow> string list" where
  "VALID_OVERLAY_METRICS env = sv_kernelMetrics env @ E1A_METRIC_CATALOG"

text \<open>A non-empty string, a \<open>typeof v === 'string'\<close>, and a non-empty array.\<close>

definition nonempty_str :: "json \<Rightarrow> bool" where
  "nonempty_str v = (case v of JStr s \<Rightarrow> s \<noteq> [] | _ \<Rightarrow> False)"

definition is_str :: "json \<Rightarrow> bool" where
  "is_str v = (case v of JStr _ \<Rightarrow> True | _ \<Rightarrow> False)"

definition nonempty_arr :: "json \<Rightarrow> bool" where
  "nonempty_arr v = (case v of JArr xs \<Rightarrow> xs \<noteq> [] | _ \<Rightarrow> False)"

definition validateShape :: "json \<Rightarrow> submit_error option" where
  "validateShape req =
     (if \<not> json_truthy req \<or> \<not> is_object req then Some (validationError ''request body must be an object'')
      else if \<not> nonempty_str (field req ''datasetRef'') then Some (validationError ''datasetRef is required'')
      else if \<not> json_truthy (field req ''moduleRef'') \<or> \<not> is_str (field (field req ''moduleRef'') ''id'')
              \<or> \<not> is_str (field (field req ''moduleRef'') ''version'')
      then Some (validationError ''moduleRef {id, version} is required'')
      else if \<not> nonempty_arr (field req ''symbols'') then Some (validationError ''symbols must be a non-empty array'')
      else if \<not> nonempty_str (field req ''timeframe'') then Some (validationError ''timeframe is required'')
      else if \<not> json_truthy (field req ''period'') \<or> \<not> is_str (field (field req ''period'') ''from'')
              \<or> \<not> is_str (field (field req ''period'') ''to'')
      then Some (validationError ''period {from, to} is required'')
      else None)"

definition validatePeriod :: "submit_env \<Rightarrow> json \<Rightarrow> submit_error option" where
  "validatePeriod env req =
     (let dateOf = (\<lambda>k. Option.bind (as_str (field (field req ''period'') k)) (sv_dateParse env))
      in case (dateOf ''from'', dateOf ''to'') of
           (Some fromMs, Some toMs) \<Rightarrow>
             if toMs \<le> fromMs then Some (validationError ''period.from must be strictly before period.to'') else None
         | _ \<Rightarrow> Some (validationError ''period {from, to} must be ISO-8601 timestamps''))"

definition validateCallback :: "submit_env \<Rightarrow> json \<Rightarrow> submit_error option" where
  "validateCallback env req = (case field req ''callbackUrl'' of
      JUndef \<Rightarrow> None
    | JStr raw \<Rightarrow> assertSafeCallbackUrl env raw
    | v \<Rightarrow> assertSafeCallbackUrl env (sv_show env v))"

definition validateModeSeed :: "json \<Rightarrow> submit_error option" where
  "validateModeSeed req =
     (if \<not> (case field req ''mode'' of JStr s \<Rightarrow> s \<in> set VALID_MODES | _ \<Rightarrow> False)
      then Some (validationError ''mode must be research|review|promotion'')
      else if \<not> (case field req ''seed'' of JNum n \<Rightarrow> isFinite n | _ \<Rightarrow> False)
      then Some (validationError ''seed must be a finite number'')
      else None)"

definition quoted :: "string \<Rightarrow> string" where
  "quoted s = CHR 0x27 # s @ [CHR 0x27]"

definition validateWalkForward :: "json \<Rightarrow> submit_error option" where
  "validateWalkForward req = (case field req ''walkForward'' of
      JUndef \<Rightarrow> None
    | JObj m \<Rightarrow>
        (let wf = JObj m in
         if \<not> (case field wf ''folds'' of JNum (JFin r) \<Rightarrow> isSafeInteger (JFin r) \<and> 1 \<le> r | _ \<Rightarrow> False)
         then Some (validationError ''walkForward.folds must be an integer >= 1'')
         else if field wf ''mode'' \<noteq> JStr ''rolling'' \<and> field wf ''mode'' \<noteq> JStr ''expanding''
         then Some (validationError (''walkForward.mode must be '' @ quoted ''rolling'' @ '' or '' @ quoted ''expanding''))
         else None)
    | _ \<Rightarrow> Some (validationError ''walkForward must be an object { folds, mode }''))"

definition validateMetrics :: "submit_env \<Rightarrow> json \<Rightarrow> submit_error option" where
  "validateMetrics env req = (case field req ''metrics'' of
      JUndef \<Rightarrow> None
    | JArr ms \<Rightarrow>
        (let engine = field req ''engine'';
             catalog = (if engine = JStr ''overlay'' \<or> engine = JStr ''strategy'' then VALID_OVERLAY_METRICS env
                        else METRIC_CATALOG);
             unknown = [m \<leftarrow> ms. \<not> (case m of JStr s \<Rightarrow> s \<in> set catalog | _ \<Rightarrow> False)]
         in if engine = JStr ''strategy'' \<and> ms = [] then Some (validationError ''metrics must be a non-empty array'')
            else if unknown \<noteq> []
            then Some (validationError (''unknown_metric: '' @ joinWith '', '' (map (sv_show env) unknown)))
            else None)
    | _ \<Rightarrow> Some (validationError ''metrics must be an array''))"

definition validateModuleBundle :: "submit_env \<Rightarrow> json \<Rightarrow> submit_error option" where
  "validateModuleBundle env req =
     (let b = field req ''moduleBundle''; issues = validateBundle b;
          expectedKind = (if field req ''engine'' = JStr ''overlay'' then ''overlay'' else ''strategy'')
      in if b = JUndef then None
         else if issues \<noteq> []
         then Some (validationError (''invalid module bundle: '' @ joinWith '', '' (map (\<lambda>i. codeName (bi_code i)) issues)))
         else if field (field b ''manifest'') ''kind'' \<noteq> JStr expectedKind
         then Some (validationError (''module bundle kind must be '' @ expectedKind @ '' for engine ''
                @ (case field_or req ''engine'' (JStr ''momentum'') of JStr e \<Rightarrow> e | v \<Rightarrow> sv_show env v)))
         else None)"

fun first_error :: "submit_error option list \<Rightarrow> submit_error option" where
  "first_error [] = None"
| "first_error (None # es) = first_error es"
| "first_error (Some e # es) = Some e"

definition validate :: "submit_env \<Rightarrow> json \<Rightarrow> submit_error option" where
  "validate env req = first_error [validateShape req, validatePeriod env req, validateCallback env req,
     validateModeSeed req, validateWalkForward req, validateMetrics env req, validateModuleBundle env req]"

subsection \<open>Submitting\<close>

datatype submit_failure = Submit_error submit_error | Store_failure store_error | Canon_failure canon_error

record ('s, 'b) submit_deps =
  sd_store :: "'s job_store_ops"
  sd_clock :: "nat \<Rightarrow> ms"
  sd_uid :: "nat \<Rightarrow> string"
  sd_defaultQueueTimeoutMs :: ms
  sd_defaultRunTimeoutMs :: ms
  sd_enableOverlayEngine :: bool
  sd_bundleStore :: "'b bundle_store_ops option"
  sd_queueMaxDepth :: "nat option"
  sd_queueRetryAfterS :: "nat option"

record ('s, 'b) submit_world =
  sw_store :: 's
  sw_bundles :: 'b
  sw_clocks :: nat
  sw_uids :: nat

record submit_outcome =
  so_handle :: run_job_handle
  so_created :: bool

definition sb_clock :: "('s, 'b) submit_deps \<Rightarrow> ('s, 'b) submit_world \<Rightarrow> ms \<times> ('s, 'b) submit_world" where
  "sb_clock deps w = (sd_clock deps (sw_clocks w), w\<lparr>sw_clocks := sw_clocks w + 1\<rparr>)"

definition sb_uid :: "('s, 'b) submit_deps \<Rightarrow> ('s, 'b) submit_world \<Rightarrow> string \<times> ('s, 'b) submit_world" where
  "sb_uid deps w = (sd_uid deps (sw_uids w), w\<lparr>sw_uids := sw_uids w + 1\<rparr>)"

definition as_ms :: "json \<Rightarrow> ms option" where
  "as_ms v = (case v of JNum (JFin r) \<Rightarrow> Some \<lfloor>r\<rfloor> | _ \<Rightarrow> None)"

definition isContentHash :: "string \<Rightarrow> bool" where
  "isContentHash s = (startsWith s ''sha256:'' \<and> length (drop 7 s) = 64
     \<and> list_all (\<lambda>c. c \<in> set ''0123456789abcdef'') (drop 7 s))"

text \<open>The replay contract.\<close>

definition replayConflict :: submit_failure where
  "replayConflict = Submit_error (conflictError ''resume_token_conflict'' ''resume token reused with a different request'')"

definition assertReplayFingerprint :: "submit_env \<Rightarrow> job_row \<Rightarrow> string \<Rightarrow> submit_failure option" where
  "assertReplayFingerprint env job fingerprint =
     (case storedRequestFingerprint (he_dec8 (sv_hash env)) (he_sha256 (sv_hash env)) (request job) (bundleHash job) of
        Inl e \<Rightarrow> Some (Canon_failure e)
      | Inr f \<Rightarrow> if f \<noteq> fingerprint then Some replayConflict else None)"

definition eventName :: "job_event_type \<Rightarrow> string" where
  "eventName t = (case t of Job_accepted \<Rightarrow> ''job_accepted'' | Job_queued \<Rightarrow> ''job_queued'' | Job_started \<Rightarrow> ''job_started''
     | Job_completed \<Rightarrow> ''job_completed'' | Job_failed \<Rightarrow> ''job_failed'' | Job_canceled \<Rightarrow> ''job_canceled''
     | Job_expired \<Rightarrow> ''job_expired'' | Job_timed_out \<Rightarrow> ''job_timed_out'')"

definition eventRow :: "string \<Rightarrow> string \<Rightarrow> string \<Rightarrow> job_event_type \<Rightarrow> ms \<Rightarrow> job_event_row" where
  "eventRow uid jid rid eventType atMs = \<lparr>ev_eventUid = uid, ev_jobId = jid, ev_runId = rid,
     ev_eventType = eventType,
     ev_payload = Json_payload (JObj [(''eventType'', JStr (eventName eventType)), (''runId'', JStr rid),
       (''atMs'', JNum (JFin (of_int atMs)))]),
     ev_createdAtMs = atMs, ev_deliveryState = None, ev_deliveryAttempts = None\<rparr>"

text \<open>\<open>{ ...rest, runId, metrics: body.metrics ?? [] }\<close>.\<close>

definition storedRequest :: "json \<Rightarrow> string \<Rightarrow> json" where
  "storedRequest body rid = (case body of
      JObj m \<Rightarrow> JObj (js_set ''metrics'' (field_or body ''metrics'' (JArr [])) (js_set ''runId'' (JStr rid)
        [p \<leftarrow> m. fst p \<noteq> ''moduleBundle'' \<and> fst p \<noteq> ''bundleRef'']))
    | _ \<Rightarrow> body)"

definition newJobOf :: "('s, 'b) submit_deps \<Rightarrow> json \<Rightarrow> string \<Rightarrow> string \<Rightarrow> ms \<Rightarrow> content_hash option \<Rightarrow> new_job" where
  "newJobOf deps body rid fingerprint now storedBundleHash = \<lparr>nj_jobId = rid, nj_runId = rid,
     nj_resumeToken = as_str (field body ''resumeToken''), nj_requestFingerprint = fingerprint,
     nj_correlationId = as_str (field body ''correlationId''), nj_workflowId = as_str (field body ''workflowId''),
     nj_request = storedRequest body rid,
     nj_effectiveSeed = (case field body ''seed'' of JNum n \<Rightarrow> n | _ \<Rightarrow> JNaN),
     nj_datasetRef = orElse (as_str (field body ''datasetRef'')) [],
     nj_bundleHash = (if truthy storedBundleHash then storedBundleHash else None),
     nj_callbackUrl = as_str (field body ''callbackUrl''),
     nj_queueDeadlineMs = Some (now + orElse (as_ms (field body ''queueTimeoutMs'')) (sd_defaultQueueTimeoutMs deps)),
     nj_runTimeoutMs = orElse (as_ms (field body ''runTimeoutMs'')) (sd_defaultRunTimeoutMs deps),
     nj_acceptedAtMs = now\<rparr>"

text \<open>The bundle of a new job: registered, or found by reference.\<close>

definition resolveBundle ::
    "('s, 'b) submit_deps \<Rightarrow> json \<Rightarrow> 'b \<Rightarrow> (submit_failure + content_hash option) \<times> 'b" where
  "resolveBundle deps body bst =
     (let hasBundle = json_truthy (field body ''moduleBundle''); ref = as_str (field body ''bundleRef'')
      in if hasBundle \<and> truthy ref
         then (Inl (Submit_error (validationError ''provide either moduleBundle or bundleRef, not both'')), bst)
         else if truthy ref then
           (if \<not> isContentHash (the ref)
            then (Inl (Submit_error (validationError (''malformed bundleRef: '' @ the ref))), bst)
            else case sd_bundleStore deps of
                   None \<Rightarrow> (Inl (Submit_error (validationError ''module bundle submission is not enabled'')), bst)
                 | Some ops \<Rightarrow> if \<not> bs_has ops bst (the ref)
                     then (Inl (Submit_error (conflictError ''unknown_bundle'' (''unknown bundle: '' @ the ref))), bst)
                     else (Inr ref, bst))
         else if hasBundle then
           (case sd_bundleStore deps of
              None \<Rightarrow> (Inl (Submit_error (validationError ''module bundle submission is not enabled'')), bst)
            | Some ops \<Rightarrow> (case bs_put ops (field body ''moduleBundle'') bst of
                  (Inl e, bst') \<Rightarrow> (Inl (Canon_failure e), bst')
                | (Inr h, bst') \<Rightarrow> (Inr (Some h), bst')))
         else (Inr None, bst))"

definition queueFull :: "('s, 'b) submit_deps \<Rightarrow> nat \<Rightarrow> submit_failure" where
  "queueFull deps depth = (let cap = orElse (sd_queueMaxDepth deps) 0 in
     Submit_error \<lparr>er_statusCode = 429, er_code = ''queue_full'',
       er_message = ''queue depth '' @ showDec depth @ '' >= cap '' @ showDec cap, er_category = ''rate_limit'',
       er_retryAfterS = Some (orElse (sd_queueRetryAfterS deps) 30),
       er_extras = Some [(''queueDepth'', int depth), (''maxDepth'', int cap)]\<rparr>)"

text \<open>After the insert created \<open>job\<close>: the accepted event, the transition to queued, and the queued event when the
  transition won.  Other actors may run before each of the three store calls.\<close>

definition enqueue :: "('s, 'b) submit_deps \<Rightarrow> job_row \<Rightarrow> string \<Rightarrow> ms \<Rightarrow> ('s, 'b) submit_world \<Rightarrow>
    submit_outcome \<times> ('s, 'b) submit_world" where
  "enqueue deps job rid now w =
     (let (uid1, w1) = sb_uid deps w;
          st1 = op_appendEvent (sd_store deps) (eventRow uid1 rid rid Job_accepted now) (sw_store w1);
          (queuedAt, w2) = sb_clock deps (w1\<lparr>sw_store := st1\<rparr>);
          (enqueued, st2) = op_transition (sd_store deps) rid Accepted Queued
             ((patch_at queuedAt)\<lparr>p_queuedAtMs := Some queuedAt\<rparr>) None (sw_store w2)
      in if \<not> enqueued
         then (\<lparr>so_handle = toHandle (orElse (op_get (sd_store deps) st2 rid) job) False, so_created = True\<rparr>,
               w2\<lparr>sw_store := st2\<rparr>)
         else let (uid2, w3) = sb_uid deps (w2\<lparr>sw_store := st2\<rparr>)
              in (\<lparr>so_handle = toHandle job False, so_created = True\<rparr>,
                  w3\<lparr>sw_store := op_appendEvent (sd_store deps) (eventRow uid2 rid rid Job_queued queuedAt) (sw_store w3)\<rparr>))"

text \<open>Everything after the replay lookup: backpressure, the bundle, the insert.\<close>

definition submitNew :: "submit_env \<Rightarrow> ('s, 'b) submit_deps \<Rightarrow> json \<Rightarrow> string \<Rightarrow> string \<Rightarrow> ms \<Rightarrow> ('s, 'b) submit_world \<Rightarrow>
    (submit_failure + submit_outcome) \<times> ('s, 'b) submit_world" where
  "submitNew env deps body rid fingerprint now w =
     (let cap = orElse (sd_queueMaxDepth deps) 0; depth = fst (op_countQueueStats (sd_store deps) (sw_store w) now)
      in if cap > 0 \<and> depth \<ge> cap then (Inl (queueFull deps depth), w)
         else case resolveBundle deps body (sw_bundles w) of
                (Inl e, bst) \<Rightarrow> (Inl e, w\<lparr>sw_bundles := bst\<rparr>)
              | (Inr storedBundleHash, bst) \<Rightarrow>
                  (let w1 = w\<lparr>sw_bundles := bst\<rparr>
                   in case op_insertOrGet (sd_store deps) (newJobOf deps body rid fingerprint now storedBundleHash) (sw_store w1) of
                        (Inl e, st) \<Rightarrow> (Inl (Store_failure e), w1\<lparr>sw_store := st\<rparr>)
                      | (Inr (job, created), st) \<Rightarrow>
                          (let w2 = w1\<lparr>sw_store := st\<rparr>
                           in if \<not> created
                              then (case assertReplayFingerprint env job fingerprint of
                                      Some e \<Rightarrow> (Inl e, w2)
                                    | None \<Rightarrow> (Inr \<lparr>so_handle = toHandle job True, so_created = False\<rparr>, w2))
                              else apfst Inr (enqueue deps job rid now w2))))"

definition submitRun :: "submit_env \<Rightarrow> ('s, 'b) submit_deps \<Rightarrow> json \<Rightarrow> ('s, 'b) submit_world \<Rightarrow>
    (submit_failure + submit_outcome) \<times> ('s, 'b) submit_world" where
  "submitRun env deps body w =
     (if field body ''engine'' = JStr ''overlay'' \<and> \<not> sd_enableOverlayEngine deps
      then (Inl (Submit_error (validationError ''overlay engine is disabled'')), w)
      else case validate env body of
             Some e \<Rightarrow> (Inl (Submit_error e), w)
           | None \<Rightarrow>
               (let (rid, w1) = (case as_str (field body ''runId'') of Some r \<Rightarrow> (r, w) | None \<Rightarrow> sb_uid deps w)
                in case requestFingerprint_of (he_dec8 (sv_hash env)) (he_sha256 (sv_hash env)) body of
                     Inl e \<Rightarrow> (Inl (Canon_failure e), w1)
                   | Inr fingerprint \<Rightarrow>
                       (let (now, w2) = sb_clock deps w1
                        in case Option.bind (as_str (field body ''resumeToken''))
                                  (op_findByResumeToken (sd_store deps) (sw_store w2)) of
                             Some existing \<Rightarrow>
                               (case assertReplayFingerprint env existing fingerprint of
                                  Some e \<Rightarrow> (Inl e, w2)
                                | None \<Rightarrow> (Inr \<lparr>so_handle = toHandle existing True, so_created = False\<rparr>, w2))
                           | None \<Rightarrow> submitNew env deps body rid fingerprint now w2)))"

end
