(* ===== verification/Submit_Facts.thy ===== *)
theory Submit_Facts
  imports Submit Pg_Job_Store_Facts Store_Runs
begin

text \<open>
  What a submit does to a job store that keeps the contract and finds rows by their resume token, and that the
  fingerprint recomputed from a stored row is the fingerprint of the request it was submitted with.
\<close>

subsection \<open>Fingerprints of stored requests\<close>

text \<open>Two values that canonicalise alike.\<close>

definition alike :: "(rat \<Rightarrow> string) \<Rightarrow> json \<Rightarrow> json \<Rightarrow> bool" where
  "alike dec8 v w \<longleftrightarrow> (v = JUndef \<longleftrightarrow> w = JUndef) \<and> (v = JNull \<longleftrightarrow> w = JNull) \<and> normal_form dec8 v = normal_form dec8 w"

lemma alike_refl [simp]: "alike dec8 v v"
  by (simp add: alike_def)

lemma insort_key_map:
  "(\<And>x. key' (g x) = key x) \<Longrightarrow> map g (insort_key key x xs) = insort_key key' (g x) (map g xs)"
  by (induction xs) auto

lemma sort_key_map:
  assumes "\<And>x. key' (g x) = key x" shows "map g (sort_key key xs) = sort_key key' (map g xs)"
  by (induction xs) (simp_all add: insort_key_map [of key' g key, OF assms])

lemma normal_form_alike:
  assumes "list_all2 (\<lambda>p q. fst p = fst q \<and> alike dec8 (snd p) (snd q)) m m'"
  shows "normal_form dec8 (JObj m) = normal_form dec8 (JObj m')"
proof -
  let ?g = "\<lambda>p. (fst p, normal_form dec8 (snd p))"
  let ?h = "\<lambda>q. map_sum id (Pair (fst q)) (snd q)"
  have f: "map ?g (filter (\<lambda>p. snd p \<noteq> JUndef) m) = map ?g (filter (\<lambda>p. snd p \<noteq> JUndef) m')"
    using assms by (induction rule: list_all2_induct) (auto simp: alike_def)
  have "map ?g (definedMembers m) = map ?g (definedMembers m')"
    unfolding definedMembers_def using f by (simp add: sort_key_map [of fst ?g fst])
  hence "map ?h (map ?g (definedMembers m)) = map ?h (map ?g (definedMembers m'))" by (rule arg_cong)
  hence e: "map (\<lambda>p. map_sum id (Pair (fst p)) (normal_form dec8 (snd p))) (definedMembers m) =
      map (\<lambda>p. map_sum id (Pair (fst p)) (normal_form dec8 (snd p))) (definedMembers m')"
    by (simp add: comp_def)
  show ?thesis unfolding normal_form.simps e ..
qed

lemma field_or_alike: "alike dec8 (field r k) (field r' k) \<Longrightarrow> alike dec8 (field_or r k d) (field_or r' k d)"
  by (cases "field r k"; cases "field r' k") (auto simp: alike_def field_or_def)

lemma normalize_alike:
  assumes "\<And>k. list_ex (\<lambda>x. x = k) (filter (\<lambda>k. k \<notin> set [''moduleBundle'', ''bundleRef'', ''metrics'']) runAffecting) \<Longrightarrow>
      alike dec8 (field r k) (field r' k)"
    and "alike dec8 (field_or r ''metrics'' (JArr [])) (field_or r' ''metrics'' (JArr []))"
  shows "normal_form dec8 (normalizeRequest r b) = normal_form dec8 (normalizeRequest r' b)"
proof -
  have a: "alike dec8 (field r ''datasetRef'') (field r' ''datasetRef'')" "alike dec8 (field r ''moduleRef'') (field r' ''moduleRef'')"
    "alike dec8 (field r ''symbols'') (field r' ''symbols'')" "alike dec8 (field r ''timeframe'') (field r' ''timeframe'')"
    "alike dec8 (field r ''period'') (field r' ''period'')" "alike dec8 (field r ''params'') (field r' ''params'')"
    "alike dec8 (field r ''seed'') (field r' ''seed'')" "alike dec8 (field r ''mode'') (field r' ''mode'')"
    "alike dec8 (field r ''engine'') (field r' ''engine'')"
    "alike dec8 (field r ''overlayRefs'') (field r' ''overlayRefs'')"
    "alike dec8 (field r ''riskProfileRef'') (field r' ''riskProfileRef'')"
    "alike dec8 (field r ''executionProfileRef'') (field r' ''executionProfileRef'')"
    "alike dec8 (field r ''robustnessChecks'') (field r' ''robustnessChecks'')"
    "alike dec8 (field r ''curatedBaselineRef'') (field r' ''curatedBaselineRef'')"
    "alike dec8 (field r ''walkForward'') (field r' ''walkForward'')"
    by (rule assms(1), code_simp)+
  have u: "field r ''curatedBaselineRef'' = JUndef \<longleftrightarrow> field r' ''curatedBaselineRef'' = JUndef"
    "field r ''walkForward'' = JUndef \<longleftrightarrow> field r' ''walkForward'' = JUndef" using a(14,15) by (simp_all add: alike_def)
  have o: "list_all2 (\<lambda>p q. fst p = fst q \<and> alike dec8 (snd p) (snd q))
      (if field r k \<noteq> JUndef then [(k, field r k)] else []) (if field r' k \<noteq> JUndef then [(k, field r' k)] else [])"
    if "alike dec8 (field r k) (field r' k)" for k
    using that by (auto simp: alike_def)
  show ?thesis unfolding normalizeRequest_def
    by (intro normal_form_alike list_all2_appendI o a(14,15))
      (simp add: a(1-8) assms(2) field_or_alike [OF a(6)] field_or_alike [OF a(9)] field_or_alike [OF a(10)]
        field_or_alike [OF a(11)] field_or_alike [OF a(12)] field_or_alike [OF a(13)])
qed

lemma stored_field:
  assumes "k \<notin> set [''moduleBundle'', ''bundleRef'', ''metrics'', ''runId'']"
  shows "field (storedRequest body rid) k = field body k"
proof (cases body)
  case (JObj m)
  have "map_of [p \<leftarrow> m. fst p \<noteq> ''moduleBundle'' \<and> fst p \<noteq> ''bundleRef''] k = map_of m k"
    using assms by (induction m) auto
  thus ?thesis using JObj assms by (simp add: storedRequest_def js_set_def update_conv')
qed (simp_all add: storedRequest_def)

lemma stored_metrics: "field_or (storedRequest (JObj m) rid) ''metrics'' (JArr []) = field_or (JObj m) ''metrics'' (JArr [])"
  by (cases "field (JObj m) ''metrics''") (simp_all add: storedRequest_def field_or_def js_set_def update_conv' split: json.splits)

text \<open>How the store reads a request back: every field canonicalises as before.\<close>

definition reads_back :: "(rat \<Rightarrow> string) \<Rightarrow> (json \<Rightarrow> json) \<Rightarrow> json \<Rightarrow> bool" where
  "reads_back dec8 rd v \<longleftrightarrow> (\<forall>k. alike dec8 (field v k) (field (rd v) k))"

lemma reads_back_id [simp]: "reads_back dec8 id v"
  by (simp add: reads_back_def)

lemma stored_fingerprint:
  assumes "body = JObj m" "reads_back dec8 rd (storedRequest body rid)"
  shows "fingerprintOf dec8 sha256 (rd (storedRequest body rid)) b = fingerprintOf dec8 sha256 body b"
proof -
  let ?s = "storedRequest body rid"
  have f: "alike dec8 (field body k) (field (rd ?s) k)"
    if "list_ex (\<lambda>x. x = k) (filter (\<lambda>k. k \<notin> set [''moduleBundle'', ''bundleRef'', ''metrics'']) runAffecting)" for k
  proof -
    have "''runId'' \<notin> set runAffecting" by code_simp
    hence "k \<notin> set [''moduleBundle'', ''bundleRef'', ''metrics'', ''runId'']" using that by (auto simp: list_ex_iff)
    from stored_field [OF this, of body rid] have e: "field ?s k = field body k" .
    have "alike dec8 (field ?s k) (field (rd ?s) k)" using assms(2) unfolding reads_back_def by blast
    thus ?thesis unfolding e .
  qed
  have m: "alike dec8 (field_or body ''metrics'' (JArr [])) (field_or (rd ?s) ''metrics'' (JArr []))"
  proof -
    have "alike dec8 (field ?s ''metrics'') (field (rd ?s) ''metrics'')" using assms(2) by (simp add: reads_back_def)
    from field_or_alike [OF this, of "JArr []"] show ?thesis using stored_metrics [of m rid] assms(1) by simp
  qed
  have "normal_form dec8 (normalizeRequest body b) = normal_form dec8 (normalizeRequest (rd ?s) b)"
    by (rule normalize_alike [OF f m])
  thus ?thesis by (simp add: fingerprintOf_def canonicalJson_normal_form)
qed

subsection \<open>The store\<close>

locale submit_store = job_store_contract ops inv evs
  for ops :: "'s job_store_ops" and inv :: "'s \<Rightarrow> bool" and evs :: "'s \<Rightarrow> job_event_row list" +
  fixes rd :: "json \<Rightarrow> json"
  assumes insert_row: "inv st \<Longrightarrow> op_insertOrGet ops j st = (Inr (r, True), st') \<Longrightarrow>
      request r = rd (nj_request j) \<and> bundleHash r = nj_bundleHash j"
    and insert_find: "inv st \<Longrightarrow> op_insertOrGet ops j st = (Inr (r, True), st') \<Longrightarrow> nj_resumeToken j = Some tok \<Longrightarrow>
      nj_runId j \<noteq> [] \<Longrightarrow> op_findByResumeToken ops st' tok = Some r"
    and find_append: "op_findByResumeToken ops (op_appendEvent ops ev st) tok = op_findByResumeToken ops st tok"
    and find_transition: "inv st \<Longrightarrow> op_findByResumeToken ops (snd (op_transition ops rid from to p e st)) tok =
      Option.bind (op_findByResumeToken ops st tok) (\<lambda>r. op_get ops (snd (op_transition ops rid from to p e st)) (runId r))"

lemma mem_find_transition:
  assumes "store_ok st"
  shows "findByResumeToken (snd (transition rid from to p e st)) tok =
    Option.bind (findByResumeToken st tok) (\<lambda>r. get (snd (transition rid from to p e st)) (runId r))"
proof (cases "cas_ok (get st rid) from to e")
  case False
  hence "snd (transition rid from to p e st) = st" by (simp add: transition_eq)
  thus ?thesis using mem_find_token [OF assms] by (cases "findByResumeToken st tok") auto
next
  case True
  then obtain r where r: "get st rid = Some r" by (cases "get st rid") auto
  let ?r' = "applyPatch to p r"
  have rr: "runId r = rid" using store_ok_get [OF assms r] by simp
  have st': "snd (transition rid from to p e st) = set_row rid ?r' st" using True r by (simp add: transition_eq)
  have k: "byKey (set_row rid ?r' st) = byKey st" by (simp add: set_row_def)
  have g: "get (set_row rid ?r' st) k = (if k = rid then Some ?r' else get st k)" for k by simp
  have ex: "existingJob (set_row rid ?r' st) tok = map_option (\<lambda>x. if runId x = rid then ?r' else x) (existingJob st tok)"
  proof (cases "js_get (byKey st) tok")
    case None
    thus ?thesis by (simp add: existingJob_def k)
  next
    case (Some k)
    show ?thesis
    proof (cases "get st k")
      case None
      hence "k \<noteq> rid" using r by auto
      thus ?thesis using None Some g [of k] unfolding get_def existingJob_def \<open>byKey (set_row rid ?r' st) = byKey st\<close> by simp
    next
      case (Some x)
      thus ?thesis using \<open>js_get (byKey st) tok = Some k\<close> g [of k] store_ok_get [OF assms Some] r
        unfolding get_def existingJob_def \<open>byKey (set_row rid ?r' st) = byKey st\<close> by auto
    qed
  qed
  show ?thesis
  proof (cases "existingJob st tok")
    case None
    thus ?thesis using ex by (simp add: findByResumeToken_def st')
  next
    case (Some x)
    obtain kx where gx: "get st kx = Some x" using existingJob_get [OF Some] by blast
    have kx: "runId x = kx" using store_ok_get [OF assms gx] by simp
    show ?thesis
    proof (cases "kx = rid")
      case True
      hence "x = r" using gx r by (simp only: option.inject)
      hence e1: "existingJob (set_row rid ?r' st) tok = Some ?r'" using ex Some rr by simp
      show ?thesis unfolding st' findByResumeToken_def e1 Some using \<open>x = r\<close> rr g [of rid] by simp
    next
      case False
      hence e1: "existingJob (set_row rid ?r' st) tok = Some x" using ex Some kx by simp
      show ?thesis unfolding st' findByResumeToken_def e1 Some using kx False g [of kx] gx by simp
    qed
  qed
qed

lemma mem_insert_find:
  assumes "store_ok st" "insertOrGet j st = ((r, True), st')" "nj_resumeToken j = Some tok" "nj_runId j \<noteq> []"
  shows "findByResumeToken st' tok = Some r"
proof -
  have n: "existingJob st (jobKey j) = None"
    using assms(2) by (cases "existingJob st (jobKey j)") (simp_all add: insertOrGet_old)
  have r: "r = newRow j" and st': "st' = st\<lparr>jobs := js_set (nj_runId j) (newRow j) (jobs st),
      byKey := js_set (jobKey j) (nj_runId j) (byKey st)\<rparr>"
    using assms(2) n by (auto simp: insertOrGet_def Let_def)
  have "existingJob st' tok = Some (newRow j)" using assms(3,4) by (simp add: existingJob_def st' jobKey_def)
  thus ?thesis using assms(3) by (simp add: findByResumeToken_def r)
qed

interpretation mem_submit: submit_store inMemoryOps store_ok events id
proof (unfold_locales, goal_cases)
  case (1 st j r st')
  hence "insertOrGet j st = ((r, True), st')" by (auto simp: apfst_def map_prod_def split: prod.splits)
  from mem_insert_created(4) [OF 1(1) this] show ?case by (simp add: newRow_def)
next
  case (2 st j r st' tok)
  hence "insertOrGet j st = ((r, True), st')" by (auto simp: apfst_def map_prod_def split: prod.splits)
  from mem_insert_find [OF 2(1) this 2(3,4)] show ?case by simp
next
  case (3 ev st tok)
  have "existingJob (appendEvent ev st) tok = existingJob st tok"
    by (simp add: existingJob_def appendEvent_def split: option.split)
  thus ?case by (simp add: findByResumeToken_def)
next
  case (4 st rid s t p e tok)
  from mem_find_transition [OF this] show ?case by simp
qed

lemma pg_find_get:
  assumes "pg_ok st" "find (\<lambda>r. resume_token r = Some tok) (backtest_job st) = Some r"
  shows "find (\<lambda>q. run_id q = run_id r) (backtest_job st) = Some r"
proof -
  have "r \<in> set (backtest_job st)" using assms(2) by (auto simp: find_Some_iff)
  moreover have "distinct (map run_id t) \<Longrightarrow> r \<in> set t \<Longrightarrow> find (\<lambda>q. run_id q = run_id r) t = Some r" for t
    by (induction t) auto
  ultimately show ?thesis using assms(1) by (simp add: pg_ok_def)
qed

lemma pg_find_map:
  assumes "pg_ok st" "\<And>r. run_id (f r) = run_id r" "\<And>r. resume_token (f r) = resume_token r"
    and "backtest_job st' = map f (backtest_job st)"
  shows "pg_findByResumeToken st' tok = Option.bind (pg_findByResumeToken st tok) (\<lambda>r. pg_get st' (runId r))"
proof (cases "find (\<lambda>r. resume_token r = Some tok) (backtest_job st)")
  case None
  thus ?thesis by (simp add: pg_findByResumeToken_def assms(3,4) find_map)
next
  case (Some r)
  have "pg_get st' (run_id r) = Some (rowToJob (f r))"
    using pg_find_get [OF assms(1) Some] by (simp add: pg_get_def assms(2,4) find_map)
  thus ?thesis using Some by (simp add: pg_findByResumeToken_def assms(3,4) find_map)
qed

lemma pg_find_transition:
  assumes "pg_ok st"
  shows "pg_findByResumeToken (snd (pg_transition rid from to p e st)) tok =
    Option.bind (pg_findByResumeToken st tok) (\<lambda>r. pg_get (snd (pg_transition rid from to p e st)) (runId r))"
proof -
  define entry where "entry = (if from = to then [] else
    [\<lparr>tl_status = (if to = Waiting_for_compute then Running else to), tl_atMs = p_atMs p\<rparr>])"
  let ?f = "\<lambda>r. if canTransition from to \<and> cas_where rid from e r then db_applyPatch to p entry r else r"
  have b: "backtest_job (snd (pg_transition rid from to p e st)) = map ?f (backtest_job st)"
    by (simp add: pg_transition_alt Let_def sql_update_def notifyQueued_def entry_def)
  show ?thesis by (rule pg_find_map [OF assms _ _ b]) (simp_all add: db_applyPatch_def)
qed

interpretation pg_submit: submit_store "pgOps jsonb" pg_ok pg_events jsonb for jsonb
proof (unfold_locales, goal_cases)
  case (1 st j r st')
  hence "pg_insertOrGet jsonb j st = (Inr (r, True), st')"
    by (cases "fst (pg_insertOrGet jsonb j st)") (auto simp: apfst_def map_prod_def split: prod.splits)
  from pg_insert_created(1) [OF 1(1) this] show ?case by (simp add: rowToJob_def pg_newRow_def)
next
  case (2 st j r st' tok)
  hence i: "pg_insertOrGet jsonb j st = (Inr (r, True), st')"
    by (cases "fst (pg_insertOrGet jsonb j st)") (auto simp: apfst_def map_prod_def split: prod.splits)
  have s: "st' = st\<lparr>backtest_job := backtest_job st @ [pg_newRow jsonb j]\<rparr>" "r = rowToJob (pg_newRow jsonb j)"
      "find (\<lambda>r. resume_token r = Some tok) (backtest_job st) = None"
    using i 2(3) by (auto simp: pg_insertOrGet_def Let_def split: if_splits option.splits)
  have "resume_token (pg_newRow jsonb j) = Some tok" using 2(3) by (simp add: pg_newRow_def)
  thus ?case using s by (simp add: pg_findByResumeToken_def find_snoc)
next
  case (3 ev st tok)
  show ?case by (simp add: pg_findByResumeToken_def pg_appendEvent_def Let_def)
next
  case (4 st rid s t p e tok)
  from pg_find_transition [OF this] show ?case by simp
qed

subsection \<open>Submitting\<close>

definition acceptedEvent :: "('s, 'b) submit_deps \<Rightarrow> string \<Rightarrow> ms \<Rightarrow> ('s, 'b) submit_world \<Rightarrow> job_event_row" where
  "acceptedEvent deps rid now w = eventRow (sd_uid deps (sw_uids w)) rid rid Job_accepted now"

definition queuedEvent :: "('s, 'b) submit_deps \<Rightarrow> string \<Rightarrow> ('s, 'b) submit_world \<Rightarrow> job_event_row" where
  "queuedEvent deps rid w = eventRow (sd_uid deps (sw_uids w + 1)) rid rid Job_queued (sd_clock deps (sw_clocks w))"

definition queuedRow :: "('s, 'b) submit_deps \<Rightarrow> job_row \<Rightarrow> ('s, 'b) submit_world \<Rightarrow> job_row" where
  "queuedRow deps job w = applyPatch Queued ((patch_at (sd_clock deps (sw_clocks w)))\<lparr>p_queuedAtMs := Some (sd_clock deps (sw_clocks w))\<rparr>) job"

lemma queuedRow_simps [simp]: "status (queuedRow deps job w) = Queued" "runId (queuedRow deps job w) = runId job"
    "request (queuedRow deps job w) = request job" "bundleHash (queuedRow deps job w) = bundleHash job"
    "requestFingerprint (queuedRow deps job w) = requestFingerprint job" "resumeToken (queuedRow deps job w) = resumeToken job"
  by (simp_all add: queuedRow_def)

definition enqueuedStore :: "('s, 'b) submit_deps \<Rightarrow> string \<Rightarrow> ms \<Rightarrow> ('s, 'b) submit_world \<Rightarrow> bool \<times> 's" where
  "enqueuedStore deps rid now w = op_transition (sd_store deps) rid Accepted Queued
     ((patch_at (sd_clock deps (sw_clocks w)))\<lparr>p_queuedAtMs := Some (sd_clock deps (sw_clocks w))\<rparr>) None
     (op_appendEvent (sd_store deps) (acceptedEvent deps rid now w) (sw_store w))"

lemma enqueue_store: "sw_store (snd (enqueue deps job rid now w)) =
    (if fst (enqueuedStore deps rid now w)
     then op_appendEvent (sd_store deps) (queuedEvent deps rid w) (snd (enqueuedStore deps rid now w))
     else snd (enqueuedStore deps rid now w))"
  "fst (enqueue deps job rid now w) = \<lparr>so_handle = toHandle (if fst (enqueuedStore deps rid now w) then job
     else orElse (op_get (sd_store deps) (snd (enqueuedStore deps rid now w)) rid) job) False, so_created = True\<rparr>"
  by (simp_all add: enqueue_def sb_uid_def sb_clock_def enqueuedStore_def acceptedEvent_def queuedEvent_def Let_def
      split: prod.split)

lemma enqueue_created: "so_created (fst (enqueue deps job rid now w))"
  by (simp add: enqueue_store(2))

definition runIdOf :: "('s, 'b) submit_deps \<Rightarrow> json \<Rightarrow> ('s, 'b) submit_world \<Rightarrow> string \<times> ('s, 'b) submit_world" where
  "runIdOf deps body w = (case as_str (field body ''runId'') of Some r \<Rightarrow> (r, w) | None \<Rightarrow> sb_uid deps w)"

abbreviation fpOf :: "submit_env \<Rightarrow> json \<Rightarrow> canon_error + string" where
  "fpOf env body \<equiv> requestFingerprint_of (he_dec8 (sv_hash env)) (he_sha256 (sv_hash env)) body"

text \<open>The request passes the checks that come before any store is read.\<close>

definition admitted :: "submit_env \<Rightarrow> ('s, 'b) submit_deps \<Rightarrow> json \<Rightarrow> bool" where
  "admitted env deps body = (\<not> (field body ''engine'' = JStr ''overlay'' \<and> \<not> sd_enableOverlayEngine deps) \<and> validate env body = None)"

definition tokenJob :: "('s, 'b) submit_deps \<Rightarrow> json \<Rightarrow> 's \<Rightarrow> job_row option" where
  "tokenJob deps body st = Option.bind (as_str (field body ''resumeToken'')) (op_findByResumeToken (sd_store deps) st)"

lemma submitRun_admitted:
  assumes "admitted env deps body" "runIdOf deps body w = (rid, w1)" "fpOf env body = Inr fp" "sb_clock deps w1 = (now, w2)"
  shows "submitRun env deps body w = (case tokenJob deps body (sw_store w2) of
      Some existing \<Rightarrow> (case assertReplayFingerprint env existing fp of
          Some e \<Rightarrow> (Inl e, w2) | None \<Rightarrow> (Inr \<lparr>so_handle = toHandle existing True, so_created = False\<rparr>, w2))
    | None \<Rightarrow> submitNew env deps body rid fp now w2)"
proof -
  have r: "(case as_str (field body ''runId'') of None \<Rightarrow> sb_uid deps w | Some r \<Rightarrow> (r, w)) = (rid, w1)"
    using assms(2) by (simp only: runIdOf_def)
  have v: "validate env body = None" "(field body ''engine'' = JStr ''overlay'' \<and> \<not> sd_enableOverlayEngine deps) = False"
    using assms(1) unfolding admitted_def by blast+
  show ?thesis
    by (simp only: submitRun_def v if_False option.case r Let_def prod.case assms(3,4) sum.case tokenJob_def)
qed

lemma submitRun_rejected:
  assumes "\<not> admitted env deps body" shows "\<exists>e. submitRun env deps body w = (Inl e, w)"
  using assms by (auto simp: submitRun_def admitted_def split: option.split)

lemma runIdOf_store: "runIdOf deps body w = (rid, w1) \<Longrightarrow> sw_store w1 = sw_store w \<and> sw_bundles w1 = sw_bundles w"
  by (auto simp: runIdOf_def sb_uid_def split: option.splits)

lemma sb_clock_store: "sb_clock deps w = (now, w1) \<Longrightarrow> sw_store w1 = sw_store w \<and> sw_bundles w1 = sw_bundles w \<and> sw_uids w1 = sw_uids w"
  by (auto simp: sb_clock_def)

text \<open>What \<^const>\<open>submitNew\<close> makes of the answer of the store's insert.\<close>

definition settled :: "submit_env \<Rightarrow> ('s, 'b) submit_deps \<Rightarrow> string \<Rightarrow> string \<Rightarrow> ms \<Rightarrow> ('s, 'b) submit_world \<Rightarrow>
    store_error + job_row \<times> bool \<Rightarrow> (submit_failure + submit_outcome) \<times> ('s, 'b) submit_world" where
  "settled env deps rid fp now w ins = (case ins of
       Inl e \<Rightarrow> (Inl (Store_failure e), w)
     | Inr (job, created) \<Rightarrow>
         if created then apfst Inr (enqueue deps job rid now w)
         else (case assertReplayFingerprint env job fp of
                 Some e \<Rightarrow> (Inl e, w)
               | None \<Rightarrow> (Inr \<lparr>so_handle = toHandle job True, so_created = False\<rparr>, w)))"

definition depthReached :: "('s, 'b) submit_deps \<Rightarrow> ms \<Rightarrow> 's \<Rightarrow> bool" where
  "depthReached deps now st = (orElse (sd_queueMaxDepth deps) 0 > 0 \<and>
     fst (op_countQueueStats (sd_store deps) st now) \<ge> orElse (sd_queueMaxDepth deps) 0)"

lemma submitNew_full:
  assumes "depthReached deps now (sw_store w)"
  shows "submitNew env deps body rid fp now w = (Inl (queueFull deps (fst (op_countQueueStats (sd_store deps) (sw_store w) now))), w)"
  using assms by (simp add: submitNew_def depthReached_def Let_def)

lemma submitNew_bundle_error:
  assumes "\<not> depthReached deps now (sw_store w)" "resolveBundle deps body (sw_bundles w) = (Inl e, bst)"
  shows "submitNew env deps body rid fp now w = (Inl e, w\<lparr>sw_bundles := bst\<rparr>)"
  using assms by (auto simp: submitNew_def depthReached_def Let_def)

lemma submitNew_settled:
  assumes "\<not> depthReached deps now (sw_store w)" "resolveBundle deps body (sw_bundles w) = (Inr h, bst)"
    and "op_insertOrGet (sd_store deps) (newJobOf deps body rid fp now h) (sw_store w) = (ins, st)"
  shows "submitNew env deps body rid fp now w = settled env deps rid fp now (w\<lparr>sw_bundles := bst, sw_store := st\<rparr>) ins"
proof -
  have nf: "(orElse (sd_queueMaxDepth deps) 0 > 0 \<and>
     fst (op_countQueueStats (sd_store deps) (sw_store w) now) \<ge> orElse (sd_queueMaxDepth deps) 0) = False"
    using assms(1) unfolding depthReached_def by blast
  have ins: "op_insertOrGet (sd_store deps) (newJobOf deps body rid fp now h) (sw_store (w\<lparr>sw_bundles := bst\<rparr>)) = (ins, st)"
    using assms(3) by simp
  show ?thesis
  proof (cases ins)
    case (Inl e)
    thus ?thesis by (simp only: submitNew_def settled_def Let_def nf if_False assms(2) prod.case sum.case ins)
  next
    case (Inr jc)
    obtain job c where j: "jc = (job, c)" by (cases jc)
    show ?thesis
      by (cases c) (simp_all only: submitNew_def settled_def Let_def nf if_False if_True not_True_eq_False not_False_eq_True
          assms(2) prod.case sum.case ins Inr j)
  qed
qed

lemma settled_created:
  assumes "settled env deps rid fp now w ins = (Inr out, w')" "so_created out"
  obtains job where "ins = Inr (job, True)" "(out, w') = enqueue deps job rid now w"
proof (cases ins)
  case (Inl e)
  thus thesis using assms(1) by (simp add: settled_def)
next
  case (Inr jc)
  obtain job c where j: "jc = (job, c)" by (cases jc)
  show thesis
  proof (cases c)
    case True
    thus thesis using assms(1) Inr j that [of job]
      by (cases "enqueue deps job rid now w") (simp add: settled_def)
  next
    case False
    thus thesis using assms Inr j by (cases "assertReplayFingerprint env job fp") (auto simp: settled_def)
  qed
qed

lemma settled_not_created:
  assumes "settled env deps rid fp now w ins = (res, w')" "\<not> (\<exists>out. res = Inr out \<and> so_created out)"
  shows "w' = w \<and> (\<forall>job. ins \<noteq> Inr (job, True))"
proof (cases ins)
  case (Inl e)
  thus ?thesis using assms(1) by (simp add: settled_def)
next
  case (Inr jc)
  obtain job c where j: "jc = (job, c)" by (cases jc)
  show ?thesis
  proof (cases c)
    case True
    hence "res = Inr (fst (enqueue deps job rid now w))" using assms(1) Inr j
      by (cases "enqueue deps job rid now w") (simp add: settled_def)
    thus ?thesis using assms(2) enqueue_created [of deps job rid now w] by simp
  next
    case False
    thus ?thesis using assms(1) Inr j by (cases "assertReplayFingerprint env job fp") (auto simp: settled_def)
  qed
qed

text \<open>The path of a submit that creates a job.\<close>

lemma submitNew_created:
  assumes "submitNew env deps body rid fp now w = (Inr out, w')" "so_created out"
  obtains h bst job st where "resolveBundle deps body (sw_bundles w) = (Inr h, bst)"
    "op_insertOrGet (sd_store deps) (newJobOf deps body rid fp now h) (sw_store w) = (Inr (job, True), st)"
    "(out, w') = enqueue deps job rid now (w\<lparr>sw_bundles := bst, sw_store := st\<rparr>)"
proof -
  obtain rb bst where rb: "resolveBundle deps body (sw_bundles w) = (rb, bst)" by (cases "resolveBundle deps body (sw_bundles w)")
  have nf: "\<not> depthReached deps now (sw_store w)" using assms(1) submitNew_full by fastforce
  obtain h where h: "rb = Inr h" using assms(1) rb submitNew_bundle_error [OF nf] by (cases rb) fastforce+
  obtain ins st where ins: "op_insertOrGet (sd_store deps) (newJobOf deps body rid fp now h) (sw_store w) = (ins, st)"
    by (cases "op_insertOrGet (sd_store deps) (newJobOf deps body rid fp now h) (sw_store w)")
  have "settled env deps rid fp now (w\<lparr>sw_bundles := bst, sw_store := st\<rparr>) ins = (Inr out, w')"
    using submitNew_settled [OF nf, of body h bst rid fp ins st env] rb h ins assms(1) by simp
  from settled_created [OF this assms(2)] show thesis using that [of h bst] rb h ins by metis
qed

text \<open>The bundle a new job carries is the one its fingerprint was computed with.\<close>

definition plainBundleRef :: "json \<Rightarrow> bool" where
  "plainBundleRef body = (case field body ''bundleRef'' of JUndef \<Rightarrow> True | JNull \<Rightarrow> True | JStr s \<Rightarrow> s \<noteq> [] | _ \<Rightarrow> False)"

definition storesByHash :: "hash_env \<Rightarrow> 'b bundle_store_ops \<Rightarrow> bool" where
  "storesByHash env bops \<longleftrightarrow> (\<forall>b st. fst (bs_put bops b st) = bhash env b)"

lemma bundle_value:
  assumes "resolveBundle deps body bst = (Inr h, bst')" "plainBundleRef body"
    and "\<forall>bops. sd_bundleStore deps = Some bops \<longrightarrow> storesByHash env bops"
  shows "bundleHashValue (he_dec8 env) (he_sha256 env) body = Inr (hashOrNull (if truthy h then h else None))"
proof (cases "json_truthy (field body ''moduleBundle'')")
  case True
  then obtain bops where b: "sd_bundleStore deps = Some bops" "fst (bs_put bops (field body ''moduleBundle'') bst) = Inr (the h)" "h \<noteq> None"
    using assms(1) by (auto simp: resolveBundle_def Let_def split: if_splits option.splits prod.splits sum.splits)
  hence "bhash env (field body ''moduleBundle'') = Inr (the h)" using assms(3) by (simp add: storesByHash_def)
  hence c: "contentRef (he_dec8 env) (he_sha256 env) (field body ''moduleBundle'') = Inr (the h)" by (simp add: bundleHash_of_def)
  hence "the h \<noteq> []" by (auto simp: contentRef_def map_sum_Inr)
  thus ?thesis using True c b(3) by (auto simp: bundleHashValue_def hashOrNull_def truthy_def)
next
  case False
  thus ?thesis using assms(1,2)
    by (auto simp: resolveBundle_def bundleHashValue_def field_or_def hashOrNull_def plainBundleRef_def truthy_def Let_def
        split: if_splits option.splits json.splits)
qed

definition freshUids :: "('s, 'b) submit_deps \<Rightarrow> ('s, 'b) submit_world \<Rightarrow> job_event_row list \<Rightarrow> bool" where
  "freshUids deps w evts \<longleftrightarrow> inj (sd_uid deps) \<and> (\<forall>n \<ge> sw_uids w. sd_uid deps n \<notin> ev_eventUid ` set evts)"

context submit_store
begin

lemma enqueue_won:
  assumes "sd_store deps = ops" "inv (sw_store w)" "op_get ops (sw_store w) rid = Some job" "status job = Accepted"
    and "sd_uid deps (sw_uids w) \<notin> ev_eventUid ` set (evs (sw_store w))"
    and "sd_uid deps (sw_uids w + 1) \<notin> insert (sd_uid deps (sw_uids w)) (ev_eventUid ` set (evs (sw_store w)))"
  shows "op_get ops (sw_store (snd (enqueue deps job rid now w))) = (op_get ops (sw_store w))(rid \<mapsto> queuedRow deps job w)"
    "map ev_core (evs (sw_store (snd (enqueue deps job rid now w)))) = map ev_core (evs (sw_store w)) @
       [ev_core (acceptedEvent deps rid now w), ev_core (queuedEvent deps rid w)]"
    "inv (sw_store (snd (enqueue deps job rid now w)))"
    "op_findByResumeToken ops (sw_store w) tok = Some job \<Longrightarrow> runId job = rid \<Longrightarrow>
       op_findByResumeToken ops (sw_store (snd (enqueue deps job rid now w))) tok = Some (queuedRow deps job w)"
proof -
  let ?st1 = "op_appendEvent ops (acceptedEvent deps rid now w) (sw_store w)"
  have u: "ev_eventUid (acceptedEvent deps rid now w) = sd_uid deps (sw_uids w)"
      "ev_eventUid (queuedEvent deps rid w) = sd_uid deps (sw_uids w + 1)"
    by (simp_all add: acceptedEvent_def queuedEvent_def eventRow_def)
  have i1: "inv ?st1" and g1: "op_get ops ?st1 = op_get ops (sw_store w)" by (simp_all add: append_inv append_rows assms(2))
  have e1: "map ev_core (evs ?st1) = map ev_core (evs (sw_store w)) @ [ev_core (acceptedEvent deps rid now w)]"
    by (rule append_evs) (use u assms(5) in simp)
  have cas: "cas_ok (op_get ops ?st1 rid) Accepted Queued None" using g1 assms(3,4) by (simp add: canTransition_def)
  define tr where "tr = enqueuedStore deps rid now w"
  have tr: "tr = op_transition ops rid Accepted Queued
      ((patch_at (sd_clock deps (sw_clocks w)))\<lparr>p_queuedAtMs := Some (sd_clock deps (sw_clocks w))\<rparr>) None ?st1"
    by (simp add: tr_def enqueuedStore_def assms(1))
  have f: "fst tr" unfolding tr transition_flag [OF i1] by (rule cas)
  have g2: "op_get ops (snd tr) = (op_get ops (sw_store w))(rid \<mapsto> queuedRow deps job w)"
    unfolding tr transition_rows [OF i1] using cas g1 assms(3) by (simp add: queuedRow_def)
  have i2: "inv (snd tr)" "evs (snd tr) = evs ?st1" unfolding tr by (simp_all add: transition_inv transition_evs i1)
  have st: "sw_store (snd (enqueue deps job rid now w)) = op_appendEvent ops (queuedEvent deps rid w) (snd tr)"
    using f by (simp add: enqueue_store(1) flip: tr_def assms(1))
  show "op_get ops (sw_store (snd (enqueue deps job rid now w))) = (op_get ops (sw_store w))(rid \<mapsto> queuedRow deps job w)"
    unfolding st append_rows by (rule g2)
  have "ev_eventUid ` set (evs ?st1) = insert (sd_uid deps (sw_uids w)) (ev_eventUid ` set (evs (sw_store w)))"
  proof -
    have "map ev_eventUid (evs ?st1) = map fst (map ev_core (evs ?st1))" by (simp add: ev_core_def comp_def)
    also have "\<dots> = map ev_eventUid (evs (sw_store w)) @ [sd_uid deps (sw_uids w)]"
      unfolding e1 using u(1) by (simp add: ev_core_def comp_def)
    finally have "set (map ev_eventUid (evs ?st1)) = set (map ev_eventUid (evs (sw_store w)) @ [sd_uid deps (sw_uids w)])" by simp
    thus ?thesis by simp
  qed
  hence "ev_eventUid (queuedEvent deps rid w) \<notin> ev_eventUid ` set (evs (snd tr))" using assms(6) u(2) i2(2) by simp
  from append_evs [OF this] show "map ev_core (evs (sw_store (snd (enqueue deps job rid now w)))) = map ev_core (evs (sw_store w)) @
       [ev_core (acceptedEvent deps rid now w), ev_core (queuedEvent deps rid w)]"
    unfolding st i2(2) e1 by simp
  show "inv (sw_store (snd (enqueue deps job rid now w)))" unfolding st by (rule append_inv [OF i2(1)])
  show "op_findByResumeToken ops (sw_store (snd (enqueue deps job rid now w))) tok = Some (queuedRow deps job w)"
    if "op_findByResumeToken ops (sw_store w) tok = Some job" "runId job = rid"
    unfolding st find_append tr find_transition [OF i1] using that g2 [unfolded tr] by simp
qed

lemma enqueue_lost:
  assumes "sd_store deps = ops" "inv (sw_store w)" "op_get ops (sw_store w) rid = Some r" "status r \<noteq> Accepted"
    and "sd_uid deps (sw_uids w) \<notin> ev_eventUid ` set (evs (sw_store w))"
  shows "op_get ops (sw_store (snd (enqueue deps job rid now w))) = op_get ops (sw_store w)"
    "map ev_core (evs (sw_store (snd (enqueue deps job rid now w)))) = map ev_core (evs (sw_store w)) @ [ev_core (acceptedEvent deps rid now w)]"
    "fst (enqueue deps job rid now w) = \<lparr>so_handle = toHandle r False, so_created = True\<rparr>"
proof -
  let ?st1 = "op_appendEvent ops (acceptedEvent deps rid now w) (sw_store w)"
  have i1: "inv ?st1" and g1: "op_get ops ?st1 = op_get ops (sw_store w)" by (simp_all add: append_inv append_rows assms(2))
  define tr where "tr = enqueuedStore deps rid now w"
  have tr: "tr = op_transition ops rid Accepted Queued
      ((patch_at (sd_clock deps (sw_clocks w)))\<lparr>p_queuedAtMs := Some (sd_clock deps (sw_clocks w))\<rparr>) None ?st1"
    by (simp add: tr_def enqueuedStore_def assms(1))
  have cas: "\<not> cas_ok (op_get ops ?st1 rid) Accepted Queued None" using g1 assms(3,4) by simp
  have f: "\<not> fst tr" unfolding tr transition_flag [OF i1] by (rule cas)
  have g2: "op_get ops (snd tr) = op_get ops (sw_store w)" "evs (snd tr) = evs ?st1"
    unfolding tr using transition_rows [OF i1] transition_evs [OF i1] cas g1 by simp_all
  have st: "sw_store (snd (enqueue deps job rid now w)) = snd tr"
    using f by (simp add: enqueue_store(1) flip: tr_def)
  show "op_get ops (sw_store (snd (enqueue deps job rid now w))) = op_get ops (sw_store w)" unfolding st by (rule g2(1))
  show "map ev_core (evs (sw_store (snd (enqueue deps job rid now w)))) = map ev_core (evs (sw_store w)) @ [ev_core (acceptedEvent deps rid now w)]"
    unfolding st g2(2) by (rule append_evs) (use assms(5) in \<open>simp add: acceptedEvent_def eventRow_def\<close>)
  show "fst (enqueue deps job rid now w) = \<lparr>so_handle = toHandle r False, so_created = True\<rparr>"
    using f g2(1) assms(1,3) by (simp add: enqueue_store(2) flip: tr_def)
qed

lemma submitNew_unchanged:
  assumes "sd_store deps = ops" "inv (sw_store w)" "submitNew env deps body rid fp now w = (res, w')"
    and "\<not> (\<exists>out. res = Inr out \<and> so_created out)"
  shows "sw_store w' = sw_store w"
proof (cases "depthReached deps now (sw_store w)")
  case True
  thus ?thesis using assms(3) submitNew_full by fastforce
next
  case nf: False
  obtain rb bst where rb: "resolveBundle deps body (sw_bundles w) = (rb, bst)" by (cases "resolveBundle deps body (sw_bundles w)")
  show ?thesis
  proof (cases rb)
    case (Inl e)
    thus ?thesis using assms(3) submitNew_bundle_error [OF nf] rb by fastforce
  next
    case (Inr h)
    obtain ins st where ins: "op_insertOrGet ops (newJobOf deps body rid fp now h) (sw_store w) = (ins, st)"
      by (cases "op_insertOrGet ops (newJobOf deps body rid fp now h) (sw_store w)")
    have "settled env deps rid fp now (w\<lparr>sw_bundles := bst, sw_store := st\<rparr>) ins = (res, w')"
      using submitNew_settled [OF nf, of body h bst rid fp ins st env] rb Inr ins assms(1,3) by simp
    from settled_not_created [OF this assms(4)]
    have w': "sw_store w' = st" and nc: "\<forall>job. ins \<noteq> Inr (job, True)" by auto
    show ?thesis
    proof (cases ins)
      case (Inl e)
      thus ?thesis using w' insert_error [OF assms(2)] ins by simp
    next
      case (Inr jc)
      obtain job where "jc = (job, False)" using nc Inr by (cases jc) (metis (full_types))
      thus ?thesis using w' insert_replay [OF assms(2)] ins Inr by auto
    qed
  qed
qed

lemma submitRun_unchanged:
  assumes "sd_store deps = ops" "inv (sw_store w)" "submitRun env deps body w = (res, w')"
    and "\<not> (\<exists>out. res = Inr out \<and> so_created out)"
  shows "sw_store w' = sw_store w"
proof (cases "admitted env deps body")
  case False
  thus ?thesis using submitRun_rejected [OF False, of w] assms(3) by auto
next
  case True
  obtain rid w1 where r: "runIdOf deps body w = (rid, w1)" by (cases "runIdOf deps body w")
  show ?thesis
  proof (cases "fpOf env body")
    case (Inl e)
    have "w' = w1" using assms(3) Inl True r
      by (auto simp: submitRun_def admitted_def runIdOf_def split: if_splits option.splits prod.splits)
    thus ?thesis using runIdOf_store [OF r] by simp
  next
    case (Inr fp)
    obtain now w2 where c: "sb_clock deps w1 = (now, w2)" by (cases "sb_clock deps w1")
    have st: "sw_store w2 = sw_store w" using runIdOf_store [OF r] sb_clock_store [OF c] by simp
    note sr = submitRun_admitted [OF True r Inr c]
    show ?thesis
    proof (cases "tokenJob deps body (sw_store w2)")
      case None
      hence "submitNew env deps body rid fp now w2 = (res, w')" using sr assms(3) by simp
      from submitNew_unchanged [OF assms(1) _ this assms(4)] show ?thesis using assms(2) st by simp
    next
      case (Some x)
      thus ?thesis using sr assms(3) st by (cases "assertReplayFingerprint env x fp") auto
    qed
  qed
qed

text \<open>A submit that creates a job: what it leaves in the store.\<close>

lemma submitRun_creates:
  assumes ops: "sd_store deps = ops" and i: "inv (sw_store w)"
    and run: "submitRun env deps body w = (Inr out, w')" "so_created out"
    and fresh: "freshUids deps w (evs (sw_store w))"
  obtains rid fp h row where "rid = fst (runIdOf deps body w)" "fpOf env body = Inr fp" "admitted env deps body"
    "tokenJob deps body (sw_store w) = None"
    "op_get ops (sw_store w') = (op_get ops (sw_store w))(rid \<mapsto> row)" "status row = Queued" "runId row = rid"
    "request row = rd (storedRequest body rid)" "bundleHash row = (if truthy h then h else None)"
    "resumeToken row = as_str (field body ''resumeToken'')" "requestFingerprint row = fp"
    "\<exists>b b'. resolveBundle deps body b = (Inr h, b')"
    "\<exists>u v t t'. map ev_core (evs (sw_store w')) = map ev_core (evs (sw_store w)) @
       [ev_core (eventRow u rid rid Job_accepted t), ev_core (eventRow v rid rid Job_queued t')]"
    "inv (sw_store w')" "h_runId (so_handle out) = rid" "h_requestFingerprint (so_handle out) = fp"
    "\<And>tok. as_str (field body ''resumeToken'') = Some tok \<Longrightarrow> rid \<noteq> [] \<Longrightarrow> op_findByResumeToken ops (sw_store w') tok = Some row"
proof -
  have adm: "admitted env deps body"
  proof (rule ccontr)
    assume "\<not> admitted env deps body"
    from submitRun_rejected [OF this, of w] show False using run(1) by auto
  qed
  obtain rid w1 where r: "runIdOf deps body w = (rid, w1)" by (cases "runIdOf deps body w")
  obtain now w2 where c: "sb_clock deps w1 = (now, w2)" by (cases "sb_clock deps w1")
  have st2: "sw_store w2 = sw_store w" "sw_uids w \<le> sw_uids w2"
    using runIdOf_store [OF r] sb_clock_store [OF c] r by (auto simp: runIdOf_def sb_uid_def split: option.splits)
  obtain fp where fp: "fpOf env body = Inr fp"
  proof (cases "fpOf env body")
    case (Inl e)
    thus thesis using run(1) adm by (auto simp: submitRun_def admitted_def split: if_splits option.splits prod.splits)
  qed (use that in blast)
  note sr = submitRun_admitted [OF adm r fp c]
  have tok: "tokenJob deps body (sw_store w2) = None"
  proof (rule ccontr)
    assume "tokenJob deps body (sw_store w2) \<noteq> None"
    then obtain x where "tokenJob deps body (sw_store w2) = Some x" by blast
    thus False using sr run by (cases "assertReplayFingerprint env x fp") auto
  qed
  have "submitNew env deps body rid fp now w2 = (Inr out, w')" using sr tok run(1) by simp
  from submitNew_created [OF this run(2)] obtain h bst job st where
    rb: "resolveBundle deps body (sw_bundles w2) = (Inr h, bst)" and
    ins: "op_insertOrGet ops (newJobOf deps body rid fp now h) (sw_store w) = (Inr (job, True), st)" and
    en: "(out, w') = enqueue deps job rid now (w2\<lparr>sw_bundles := bst, sw_store := st\<rparr>)"
    unfolding ops st2(1) by blast
  let ?w = "w2\<lparr>sw_bundles := bst, sw_store := st\<rparr>"
  have nj: "nj_runId (newJobOf deps body rid fp now h) = rid" "nj_jobId (newJobOf deps body rid fp now h) = rid"
      "nj_resumeToken (newJobOf deps body rid fp now h) = as_str (field body ''resumeToken'')"
      "nj_requestFingerprint (newJobOf deps body rid fp now h) = fp"
      "nj_request (newJobOf deps body rid fp now h) = storedRequest body rid"
      "nj_bundleHash (newJobOf deps body rid fp now h) = (if truthy h then h else None)"
    by (simp_all add: newJobOf_def)
  from insert_created [OF i ins, unfolded nj] have job: "inv st" "op_get ops st = (op_get ops (sw_store w))(rid \<mapsto> job)"
      "evs st = evs (sw_store w)" "status job = Accepted" "runId job = rid" "resumeToken job = as_str (field body ''resumeToken'')"
      "requestFingerprint job = fp" by blast+
  from insert_row [OF i ins, unfolded nj] have req: "request job = rd (storedRequest body rid)" "bundleHash job = (if truthy h then h else None)" by blast+
  have g: "op_get ops (sw_store ?w) rid = Some job" using job(2) by simp
  have inj: "sd_uid deps m = sd_uid deps n \<longleftrightarrow> m = n" for m n using fresh by (auto simp: freshUids_def inj_def)
  have f: "sd_uid deps (sw_uids ?w) \<notin> ev_eventUid ` set (evs (sw_store ?w))"
      "sd_uid deps (sw_uids ?w + 1) \<notin> insert (sd_uid deps (sw_uids ?w)) (ev_eventUid ` set (evs (sw_store ?w)))"
    using fresh st2(2) job(3) by (simp_all add: freshUids_def inj)
  have iw: "inv (sw_store ?w)" using job(1) by simp
  note won = enqueue_won [OF ops iw g job(4) f, where now = now]
  have w': "w' = snd (enqueue deps job rid now ?w)" "out = fst (enqueue deps job rid now ?w)" using en by (metis fst_conv snd_conv)+
  have out: "h_runId (so_handle out) = rid" "h_requestFingerprint (so_handle out) = fp"
  proof -
    have "fst (enqueuedStore deps rid now ?w)"
    proof -
      have j: "inv (op_appendEvent ops (acceptedEvent deps rid now ?w) (sw_store ?w))" using append_inv [OF iw] .
      have "op_get ops (op_appendEvent ops (acceptedEvent deps rid now ?w) (sw_store ?w)) rid = Some job" using append_rows g by simp
      thus ?thesis using transition_flag [OF j] job(4) ops by (simp add: enqueuedStore_def canTransition_def)
    qed
    hence "so_handle out = toHandle job False" unfolding w'(2) by (simp add: enqueue_store(2))
    thus "h_runId (so_handle out) = rid" "h_requestFingerprint (so_handle out) = fp" using job by (simp_all add: toHandle_def)
  qed
  have find: "op_findByResumeToken ops (sw_store w') t = Some (queuedRow deps job ?w)"
    if "as_str (field body ''resumeToken'') = Some t" "rid \<noteq> []" for t
  proof -
    have "op_findByResumeToken ops (sw_store ?w) t = Some job"
      using insert_find [OF i ins, unfolded nj, of t] that by simp
    from won(4) [OF this job(5)] show ?thesis unfolding w'(1) .
  qed
  show thesis
  proof (rule that [of rid fp "queuedRow deps job ?w" h])
    show "op_get ops (sw_store w') = (op_get ops (sw_store w))(rid \<mapsto> queuedRow deps job ?w)"
      unfolding w'(1) won(1) using job(2) by simp
    show "inv (sw_store w')" unfolding w'(1) by (rule won(3))
    show "\<exists>u v t t'. map ev_core (evs (sw_store w')) = map ev_core (evs (sw_store w)) @
       [ev_core (eventRow u rid rid Job_accepted t), ev_core (eventRow v rid rid Job_queued t')]"
      unfolding w'(1) won(2) using job(3) by (auto simp: acceptedEvent_def queuedEvent_def)
    show "\<exists>b b'. resolveBundle deps body b = (Inr h, b')" using rb by blast
    show "op_findByResumeToken ops (sw_store w') t = Some (queuedRow deps job ?w)"
      if "as_str (field body ''resumeToken'') = Some t" "rid \<noteq> []" for t by (rule find [OF that])
  qed (use r fp adm tok st2 req job out in simp_all)
qed

text \<open>Submitting the same request again finds the job by its token and answers it, changing nothing.\<close>

lemma submitRun_replayed:
  assumes ops: "sd_store deps = ops" and i: "inv (sw_store w)"
    and run: "submitRun env deps body w = (Inr out, w')" "so_created out"
    and fresh: "freshUids deps w (evs (sw_store w))"
    and body: "body = JObj m" "field body ''resumeToken'' = JStr tok" "plainBundleRef body" "fst (runIdOf deps body w) \<noteq> []"
    and rb: "reads_back (he_dec8 (sv_hash env)) rd (storedRequest body (fst (runIdOf deps body w)))"
    and bs: "\<forall>bops. sd_bundleStore deps = Some bops \<longrightarrow> storesByHash (sv_hash env) bops"
    and later: "sw_store v = sw_store w'"
  shows "\<exists>out' v'. submitRun env deps body v = (Inr out', v') \<and> \<not> so_created out' \<and> sw_store v' = sw_store v
    \<and> sw_bundles v' = sw_bundles v \<and> h_runId (so_handle out') = h_runId (so_handle out) \<and> h_idempotentReplay (so_handle out')
    \<and> h_requestFingerprint (so_handle out') = h_requestFingerprint (so_handle out)"
proof -
  from submitRun_creates [OF ops i run fresh] obtain rid fp h row where rid: "rid = fst (runIdOf deps body w)" and
    fp: "fpOf env body = Inr fp" and adm: "admitted env deps body" and
    row: "runId row = rid" "request row = rd (storedRequest body rid)" "bundleHash row = (if truthy h then h else None)"
      "requestFingerprint row = fp" and
    h: "\<exists>b b'. resolveBundle deps body b = (Inr h, b')" and
    out: "h_runId (so_handle out) = rid" "h_requestFingerprint (so_handle out) = fp" and
    find: "\<And>tok. as_str (field body ''resumeToken'') = Some tok \<Longrightarrow> rid \<noteq> [] \<Longrightarrow> op_findByResumeToken ops (sw_store w') tok = Some row"
    by metis
  obtain b b' where "resolveBundle deps body b = (Inr h, b')" using h by blast
  from bundle_value [OF this body(3) bs]
  have bh: "bundleHashValue (he_dec8 (sv_hash env)) (he_sha256 (sv_hash env)) body = Inr (hashOrNull (bundleHash row))" using row(3) by simp
  have "storedRequestFingerprint (he_dec8 (sv_hash env)) (he_sha256 (sv_hash env)) (request row) (bundleHash row) = Inr fp"
    unfolding storedRequestFingerprint_def row(2) stored_fingerprint [OF body(1) rb [folded rid]]
    using fp bh by (simp add: requestFingerprint_of_def)
  hence ok: "assertReplayFingerprint env row fp = None" by (simp add: assertReplayFingerprint_def)
  obtain rid' v1 where r: "runIdOf deps body v = (rid', v1)" by (cases "runIdOf deps body v")
  obtain now v2 where c: "sb_clock deps v1 = (now, v2)" by (cases "sb_clock deps v1")
  have st: "sw_store v2 = sw_store w'" "sw_store v2 = sw_store v" "sw_bundles v2 = sw_bundles v"
    using runIdOf_store [OF r] sb_clock_store [OF c] later by simp_all
  have "tokenJob deps body (sw_store v2) = Some row"
    using find [of tok] body(2,4) ops st(1) rid by (simp add: tokenJob_def)
  with submitRun_admitted [OF adm r fp c] ok
  have "submitRun env deps body v = (Inr \<lparr>so_handle = toHandle row True, so_created = False\<rparr>, v2)" by simp
  thus ?thesis using st row out by (auto simp: toHandle_def)
qed

end

end
