(* ===== verification/Callback_Host.thy ===== *)
theory Callback_Host
  imports Submit
begin

text \<open>
  The guard on the host of a completion webhook, against the address ranges it is meant to refuse: every IPv4
  address, printed as a dotted quad or, the way a URL parser serialises an IPv6 literal, as an IPv4-mapped or
  IPv4-compatible one.  The guard decides exactly the private, loopback, link-local and unspecified ranges, but
  for one hole: a compatible address below 0.1.0.0 is serialised as a single group, which the guard does not read.
\<close>

subsection \<open>Printing and reading numbers\<close>

definition hexDigit :: "nat \<Rightarrow> char" where
  "hexDigit n = ''0123456789abcdef'' ! n"

fun showHex :: "nat \<Rightarrow> string" where
  "showHex n = (if n < 16 then [hexDigit n] else showHex (n div 16) @ [hexDigit (n mod 16)])"

declare showHex.simps [simp del]

lemma hexVal_hexDigit:
  assumes "n < 16" shows "hexVal (hexDigit n) = Some n"
proof -
  have "\<forall>k \<in> set [0..<16]. hexVal (hexDigit k) = Some k" by code_simp
  thus ?thesis using assms by auto
qed

lemma showHex_digits: "c \<in> set (showHex n) \<Longrightarrow> \<exists>k < 16. c = hexDigit k"
proof (induction n rule: showHex.induct)
  case (1 n)
  show ?case
  proof (cases "n < 16")
    case True
    thus ?thesis using 1(2) by (auto simp: showHex.simps [of n])
  next
    case False
    hence "c \<in> set (showHex (n div 16)) \<or> c = hexDigit (n mod 16)" using 1(2) by (auto simp: showHex.simps [of n])
    moreover have "n mod 16 < 16" by simp
    ultimately show ?thesis using 1(1) False by blast
  qed
qed

lemma showHex_not_Nil [simp]: "showHex n \<noteq> []"
  by (subst showHex.simps) simp

lemma showHex_value: "foldl (\<lambda>m c. m * 16 + the (hexVal c)) 0 (showHex n) = n"
proof (induction n rule: showHex.induct)
  case (1 n)
  show ?case
  proof (cases "n < 16")
    case True
    thus ?thesis by (simp add: showHex.simps [of n] hexVal_hexDigit)
  next
    case False
    thus ?thesis using 1 by (simp add: showHex.simps [of n] hexVal_hexDigit)
  qed
qed

lemma parseHex_showHex: "parseHex (showHex n) = Some n"
proof -
  have "takeWhile (\<lambda>c. hexVal c \<noteq> None) (showHex n) = showHex n"
    using showHex_digits [of _ n] hexVal_hexDigit by (auto simp: takeWhile_eq_all_conv)
  thus ?thesis unfolding parseHex_def Let_def by (simp only: showHex_value showHex_not_Nil if_False)
qed

lemma hexDigit_chars:
  assumes "k < 16"
  shows "hexDigit k \<notin> set ''.:[]'' \<and> lowerChar (hexDigit k) = hexDigit k"
proof -
  have "\<forall>k \<in> set [0..<16]. hexDigit k \<notin> set ''.:[]'' \<and> lowerChar (hexDigit k) = hexDigit k" by code_simp
  thus ?thesis using assms by auto
qed

lemma showHex_chars: "c \<in> set (showHex n) \<Longrightarrow> c \<notin> set ''.:[]'' \<and> lowerChar c = c"
  using showHex_digits [of c n] hexDigit_chars by metis

text \<open>A byte printed in decimal.\<close>

lemma showDec_digits: "c \<in> set (showDec n) \<Longrightarrow> \<exists>k < (10 :: nat). c = char_of (48 + k)"
proof (induction n rule: showDec.induct)
  case (1 n)
  show ?case
  proof (cases "n < 10")
    case True
    thus ?thesis using 1(2) by (auto simp: showDec.simps [of n])
  next
    case False
    hence "c \<in> set (showDec (n div 10)) \<or> c = char_of (48 + n mod 10)" using 1(2) by (auto simp: showDec.simps [of n])
    moreover have "n mod 10 < 10" by simp
    ultimately show ?thesis using 1(1) False by blast
  qed
qed

lemma decDigit_chars:
  assumes "k < (10 :: nat)"
  shows "of_char (char_of (48 + k) :: char) = 48 + k \<and> isDigit (char_of (48 + k))
    \<and> char_of (48 + k) \<notin> set ''.:[]'' \<and> lowerChar (char_of (48 + k)) = char_of (48 + k)"
proof -
  have "\<forall>k \<in> set [0..<10]. of_char (char_of (48 + k) :: char) = 48 + k \<and> isDigit (char_of (48 + k))
    \<and> char_of (48 + k) \<notin> set ''.:[]'' \<and> lowerChar (char_of (48 + k)) = char_of (48 + k)" by code_simp
  thus ?thesis using assms by auto
qed

lemma showDec_chars: "c \<in> set (showDec n) \<Longrightarrow> isDigit c \<and> c \<notin> set ''.:[]'' \<and> lowerChar c = c"
  using showDec_digits [of c n] decDigit_chars by metis

lemma showDec_value: "decVal (showDec n) = n"
proof (induction n rule: showDec.induct)
  case (1 n)
  show ?case
  proof (cases "n < 10")
    case True
    thus ?thesis using decDigit_chars [of n] by (simp add: showDec.simps [of n] decVal_def)
  next
    case False
    thus ?thesis using 1 decDigit_chars [of "n mod 10"] by (simp add: showDec.simps [of n] decVal_def)
  qed
qed

lemma showDec_byte: "n < 256 \<Longrightarrow> length (showDec n) \<le> 3" "showDec n \<noteq> []"
  by (simp_all add: showDec.simps [of n] showDec.simps [of "n div 10"] showDec.simps [of "n div 10 div 10"])

lemma split_on_none: "c \<notin> set s \<Longrightarrow> split_on c s = [s]"
  by (induction s) auto

lemma split_on_append: "c \<notin> set s \<Longrightarrow> split_on c (s @ c # t) = s # split_on c t"
  by (induction s) auto

subsection \<open>Dotted quads\<close>

definition quad :: "nat \<Rightarrow> nat \<Rightarrow> nat \<Rightarrow> nat \<Rightarrow> string" where
  "quad a b c d = showDec a @ ''.'' @ showDec b @ ''.'' @ showDec c @ ''.'' @ showDec d"

text \<open>The ranges to refuse: unspecified, loopback, private and link-local.\<close>

definition internalV4 :: "nat \<Rightarrow> nat \<Rightarrow> bool" where
  "internalV4 a b \<longleftrightarrow> a \<in> {0, 10, 127} \<or> (a, b) \<in> {(169, 254), (192, 168)} \<or> a = 172 \<and> b \<in> {16..31}"

lemma byte_no_sep:
  assumes "x \<in> set ''.:[]''" shows "x \<notin> set (showDec n)"
  using showDec_chars assms by blast

lemma dottedQuad_quad:
  assumes "a < 256" "b < 256" "c < 256" "d < 256"
  shows "dottedQuad (quad a b c d) = Some [a, b, c, d]"
proof -
  have dot: "CHR ''.'' \<notin> set (showDec n)" for n by (rule byte_no_sep) simp
  have "split_on CHR ''.'' (quad a b c d) = [showDec a, showDec b, showDec c, showDec d]"
    by (simp add: quad_def split_on_append split_on_none dot assms)
  moreover have "list_all isDigit (showDec n)" for n using showDec_chars by (auto simp: list_all_iff)
  ultimately show ?thesis using assms by (simp add: dottedQuad_def showDec_byte showDec_value)
qed

lemma blocked_quad:
  assumes "a < 256" "b < 256" "c < 256" "d < 256"
  shows "isBlockedIpv4 (quad a b c d) \<longleftrightarrow> internalV4 a b"
  using assms by (auto simp: isBlockedIpv4_def dottedQuad_quad internalV4_def)

lemma quad_chars:
  assumes "x \<in> set (quad a b c d)"
  shows "x \<notin> set '':[]'' \<and> lowerChar x = x"
proof -
  have "lowerChar CHR ''.'' = CHR ''.''" by code_simp
  moreover have "x \<notin> set ''.:[]'' \<and> lowerChar x = x" if "x \<in> set (showDec n)" for n
    using showDec_chars [OF that] by blast
  moreover have "x = CHR ''.'' \<or> x \<in> set (showDec a) \<or> x \<in> set (showDec b) \<or> x \<in> set (showDec c) \<or> x \<in> set (showDec d)"
    using assms by (auto simp: quad_def)
  ultimately show ?thesis by auto
qed

lemma plain_host:
  assumes "\<And>x. x \<in> set s \<Longrightarrow> x \<notin> set ''[]'' \<and> lowerChar x = x"
  shows "stripBrackets (toLowerCase s) = s" "stripBrackets (toLowerCase (''['' @ s @ '']'')) = s"
proof -
  have l: "toLowerCase s = s" unfolding toLowerCase_def using assms by (simp add: map_idI)
  have b: "lowerChar CHR ''['' = CHR ''[''" "lowerChar CHR '']'' = CHR '']''" by code_simp+
  have "last s \<noteq> CHR '']''" if "s \<noteq> []" using assms [of "last s"] that by auto
  moreover have "s = CHR ''['' # t \<Longrightarrow> False" for t using assms [of "CHR ''[''"] by simp
  ultimately show "stripBrackets (toLowerCase s) = s" unfolding l stripBrackets_def by (auto split: list.split)
  show "stripBrackets (toLowerCase (''['' @ s @ '']'')) = s"
    using l b by (simp add: stripBrackets_def toLowerCase_def)
qed

subsection \<open>The guard\<close>

lemma quad_not_local:
  "quad a b c d \<noteq> []" "quad a b c d \<noteq> ''localhost''" "\<not> endsWith (quad a b c d) ''.localhost''"
proof -
  have n: "CHR ''l'' \<notin> set (quad a b c d)"
  proof
    assume "CHR ''l'' \<in> set (quad a b c d)"
    hence "CHR ''l'' \<in> set (showDec a) \<union> set (showDec b) \<union> set (showDec c) \<union> set (showDec d)" by (auto simp: quad_def)
    hence "isDigit CHR ''l''" using showDec_chars by blast
    moreover have "\<not> isDigit CHR ''l''" by code_simp
    ultimately show False by blast
  qed
  show "quad a b c d \<noteq> []" by (simp add: quad_def)
  show "quad a b c d \<noteq> ''localhost''" using n by auto
  show "\<not> endsWith (quad a b c d) ''.localhost''" using n by (auto simp: endsWith_def suffix_def)
qed

lemma host_quad:
  assumes "a < 256" "b < 256" "c < 256" "d < 256"
  shows "isBlockedWebhookHost (quad a b c d) \<longleftrightarrow> internalV4 a b"
proof -
  have p: "stripBrackets (toLowerCase (quad a b c d)) = quad a b c d"
    by (rule plain_host(1)) (use quad_chars in auto)
  have "CHR '':'' \<notin> set (quad a b c d)" using quad_chars [of "CHR '':''" a b c d] by auto
  thus ?thesis using quad_not_local [of a b c d] blocked_quad [OF assms]
    by (simp add: isBlockedWebhookHost_def p)
qed

text \<open>How a URL parser serialises the eight groups of an IPv6 address: in hexadecimal, with the first longest run of
  two or more zero groups written as a double colon.\<close>

definition zeroRun :: "nat list \<Rightarrow> nat \<Rightarrow> nat" where
  "zeroRun ps i = length (takeWhile ((=) 0) (drop i ps))"

definition longestRun :: "nat list \<Rightarrow> nat \<times> nat" where
  "longestRun ps = fold (\<lambda>i (j, m). if m < zeroRun ps i then (i, zeroRun ps i) else (j, m)) [0, 1, 2, 3, 4, 5, 6, 7] (0, 1)"

definition serialize6 :: "nat list \<Rightarrow> string" where
  "serialize6 ps = (case longestRun ps of (j, m) \<Rightarrow>
     if m = 1 then join '':'' (map showHex ps)
     else join '':'' (map showHex (take j ps)) @ ''::'' @ join '':'' (map showHex (drop (j + m) ps)))"

text \<open>The two IPv6 forms of an IPv4 address.\<close>

definition mapped6 :: "nat \<Rightarrow> nat \<Rightarrow> nat \<Rightarrow> nat \<Rightarrow> string" where
  "mapped6 a b c d = serialize6 [0, 0, 0, 0, 0, 65535, a * 256 + b, c * 256 + d]"

definition compat6 :: "nat \<Rightarrow> nat \<Rightarrow> nat \<Rightarrow> nat \<Rightarrow> string" where
  "compat6 a b c d = serialize6 [0, 0, 0, 0, 0, 0, a * 256 + b, c * 256 + d]"

lemma showHex_ffff: "showHex 65535 = ''ffff''"
  by (simp add: showHex.simps [of 65535] showHex.simps [of 4095] showHex.simps [of 255] showHex.simps [of 15] hexDigit_def)

lemma serialize6_two: "r \<noteq> 0 \<Longrightarrow> serialize6 [0, 0, 0, 0, 0, r, p, q] = ''::'' @ showHex r @ '':'' @ showHex p @ '':'' @ showHex q"
proof -
  have run: "0 = x \<longleftrightarrow> x = 0" for x :: nat by auto
  show "r \<noteq> 0 \<Longrightarrow> ?thesis"
    by (cases "p = 0"; cases "q = 0") (simp_all add: serialize6_def longestRun_def zeroRun_def run)
qed

lemma serialize6_one: "p \<noteq> 0 \<Longrightarrow> serialize6 [0, 0, 0, 0, 0, 0, p, q] = ''::'' @ showHex p @ '':'' @ showHex q"
  by (cases "q = 0") (simp_all add: serialize6_def longestRun_def zeroRun_def)

lemma serialize6_zero: "serialize6 [0, 0, 0, 0, 0, 0, 0, q] = (if q = 0 then ''::'' else ''::'' @ showHex q)"
  by (simp add: serialize6_def longestRun_def zeroRun_def)

lemma mapped6_text: "mapped6 a b c d = ''::ffff:'' @ showHex (a * 256 + b) @ '':'' @ showHex (c * 256 + d)"
  using serialize6_two [of 65535] by (simp add: mapped6_def showHex_ffff)

lemma compat6_text: "0 < a * 256 + b \<Longrightarrow> compat6 a b c d = ''::'' @ showHex (a * 256 + b) @ '':'' @ showHex (c * 256 + d)"
  unfolding compat6_def by (rule serialize6_one) simp

lemma compat6_low: "compat6 0 0 c d = (if c * 256 + d = 0 then ''::'' else ''::'' @ showHex (c * 256 + d))"
  using serialize6_zero [of "c * 256 + d"] by (simp only: compat6_def mult_0 add_0)

lemma hex_no_sep: "CHR '':'' \<notin> set (showHex n)" "CHR ''.'' \<notin> set (showHex n)"
  using showHex_chars [of "CHR '':''" n] showHex_chars [of "CHR ''.''" n] by auto

lemma split_groups: "split_on CHR '':'' (showHex m @ '':'' @ showHex n) = [showHex m, showHex n]"
  by (simp add: split_on_append split_on_none hex_no_sep)

lemma tail_quad:
  assumes "a < 256" "b < 256" "c < 256" "d < 256" "mappedTail h = Some (showHex (a * 256 + b) @ '':'' @ showHex (c * 256 + d))"
  shows "embeddedMappedIpv4 h = Some (quad a b c d)"
proof -
  have "a * 256 + b \<le> 65535" "c * 256 + d \<le> 65535" using assms(1-4) by linarith+
  moreover have "(a * 256 + b) div 256 mod 256 = a" "(a * 256 + b) mod 256 = b"
      "(c * 256 + d) div 256 mod 256 = c" "(c * 256 + d) mod 256 = d" using assms(1-4) by auto
  ultimately show ?thesis
    by (simp add: embeddedMappedIpv4_def assms(5) split_groups [simplified] parseHex_showHex showQuad_def quad_def hex_no_sep)
qed

lemma host6:
  assumes "\<And>x. x \<in> set h \<Longrightarrow> x \<notin> set ''[]'' \<and> lowerChar x = x" "prefix ''::'' h" "h \<noteq> ''::''" "h \<noteq> ''::1''"
    "\<not> endsWith h ''.localhost''" "embeddedMappedIpv4 h = Some q"
  shows "isBlockedWebhookHost (''['' @ h @ '']'') \<longleftrightarrow> isBlockedIpv4 q"
proof -
  obtain t where h: "h = ''::'' @ t" using assms(2) by (auto simp: prefix_def)
  define host where "host = ''['' @ h @ '']''"
  have p: "stripBrackets (toLowerCase host) = h" unfolding host_def by (rule plain_host(2) [OF assms(1)])
  have l: "h \<noteq> []" "h \<noteq> ''localhost''" "CHR '':'' \<in> set h" "\<not> startsWith h ''fe80:''" "\<not> startsWith h ''fc''" "\<not> startsWith h ''fd''"
    by (simp_all add: h startsWith_def)
  have "isBlockedWebhookHost host \<longleftrightarrow> isBlockedIpv4 q"
    unfolding isBlockedWebhookHost_def Let_def p using assms(3-6) l by simp
  thus ?thesis by (simp add: host_def)
qed

lemma hex_last: "\<not> suffix ''.localhost'' (s @ '':'' @ showHex n)"
proof
  assume "suffix ''.localhost'' (s @ '':'' @ showHex n)"
  then obtain zs where "s @ '':'' @ showHex n = zs @ ''.localhost''" by (auto simp: suffix_def)
  hence "last (s @ '':'' @ showHex n) = last (zs @ ''.localhost'')" by (rule arg_cong)
  hence "last (s @ '':'' @ showHex n) = CHR ''t''" by simp
  hence "CHR ''t'' \<in> set (showHex n)" by (metis last_appendR last_in_set showHex_not_Nil append_is_Nil_conv)
  from showHex_digits [OF this] obtain k where "k < 16" "CHR ''t'' = hexDigit k" by blast
  moreover have "hexVal CHR ''t'' = None" by code_simp
  ultimately show False using hexVal_hexDigit by fastforce
qed

lemma hex6_chars:
  assumes "x \<in> set (s @ showHex m @ '':'' @ showHex n)" "\<forall>x \<in> set s. x \<notin> set ''[]'' \<and> lowerChar x = x"
  shows "x \<notin> set ''[]'' \<and> lowerChar x = x"
proof -
  have "lowerChar CHR '':'' = CHR '':''" by code_simp
  moreover have "x \<in> set s \<or> x = CHR '':'' \<or> x \<in> set (showHex m) \<or> x \<in> set (showHex n)" using assms(1) by auto
  ultimately show ?thesis using assms(2) showHex_chars by auto
qed

lemma host_mapped:
  assumes "a < 256" "b < 256" "c < 256" "d < 256"
  shows "isBlockedWebhookHost (''['' @ mapped6 a b c d @ '']'') \<longleftrightarrow> internalV4 a b"
proof -
  have t: "mappedTail (mapped6 a b c d) = Some (showHex (a * 256 + b) @ '':'' @ showHex (c * 256 + d))"
    by (simp add: mappedTail_def mapped6_text startsWith_def)
  have "\<forall>x \<in> set ''::ffff:''. x \<notin> set ''[]'' \<and> lowerChar x = x" by code_simp
  from hex6_chars [OF _ this] have ch: "\<And>x. x \<in> set (mapped6 a b c d) \<Longrightarrow> x \<notin> set ''[]'' \<and> lowerChar x = x"
    unfolding mapped6_text by blast
  have "\<not> endsWith (mapped6 a b c d) ''.localhost''"
    using hex_last [of "''::ffff:'' @ showHex (a * 256 + b)"] unfolding endsWith_def mapped6_text append_assoc .
  from host6 [OF ch _ _ _ this tail_quad [OF assms t]] show ?thesis
    unfolding blocked_quad [OF assms] by (simp add: mapped6_text)
qed

lemma compat_chars: "x \<in> set (''::'' @ showHex m @ '':'' @ showHex n) \<Longrightarrow> x \<notin> set ''[]'' \<and> lowerChar x = x"
proof -
  have "\<forall>x \<in> set ''::''. x \<notin> set ''[]'' \<and> lowerChar x = x" by code_simp
  from hex6_chars [OF _ this] show "x \<in> set (''::'' @ showHex m @ '':'' @ showHex n) \<Longrightarrow> ?thesis" by blast
qed

lemma host_compat:
  assumes "a < 256" "b < 256" "c < 256" "d < 256" "0 < a * 256 + b" "(a, b) \<noteq> (255, 255)"
  shows "isBlockedWebhookHost (''['' @ compat6 a b c d @ '']'') \<longleftrightarrow> internalV4 a b"
proof -
  note ct = compat6_text [OF assms(5), of c d]
  let ?g = "showHex (a * 256 + b) @ '':'' @ showHex (c * 256 + d)"
  have "\<not> startsWith (compat6 a b c d) ''::ffff:''"
  proof
    assume "startsWith (compat6 a b c d) ''::ffff:''"
    then obtain t where "?g = ''ffff'' @ CHR '':'' # t" by (auto simp: startsWith_def ct prefix_def)
    hence "split_on CHR '':'' ?g = ''ffff'' # split_on CHR '':'' t" using split_on_append [of "CHR '':''" "''ffff''" t] by simp
    hence "showHex (a * 256 + b) = ''ffff''" using split_groups by simp
    hence "parseHex ''ffff'' = Some (a * 256 + b)" using parseHex_showHex by metis
    moreover have "parseHex ''ffff'' = Some 65535" by (simp add: parseHex_def hexVal_def)
    ultimately have "a * 256 + b = 65535" by simp
    hence "a = 255 \<and> b = 255" using assms(1,2) by presburger
    thus False using assms(6) by simp
  qed
  hence t: "mappedTail (compat6 a b c d) = Some ?g"
    using split_groups [of "a * 256 + b" "c * 256 + d"] by (simp add: mappedTail_def ct startsWith_def)
  have ch: "\<And>x. x \<in> set (compat6 a b c d) \<Longrightarrow> x \<notin> set ''[]'' \<and> lowerChar x = x" unfolding ct by (rule compat_chars)
  have "\<not> endsWith (compat6 a b c d) ''.localhost''"
    using hex_last [of "''::'' @ showHex (a * 256 + b)"] unfolding endsWith_def ct append_assoc .
  moreover have "length (compat6 a b c d) > 3" using length_greater_0_conv [of "showHex (a * 256 + b)"] by (simp add: ct)
  hence "compat6 a b c d \<noteq> ''::''" "compat6 a b c d \<noteq> ''::1''" by auto
  moreover have "prefix ''::'' (compat6 a b c d)" unfolding ct by (rule prefixI) (rule refl)
  ultimately show ?thesis
    using host6 [OF ch _ _ _ _ tail_quad [OF assms(1-4) t]] blocked_quad [OF assms(1-4)] by blast
qed

text \<open>An IPv6 literal from which no IPv4 address is read is let through.\<close>

lemma host6_unread:
  assumes "\<And>x. x \<in> set h \<Longrightarrow> x \<notin> set ''[]'' \<and> lowerChar x = x" "prefix ''::'' h" "h \<noteq> ''::''" "h \<noteq> ''::1''"
    "\<not> endsWith h ''.localhost''" "embeddedMappedIpv4 h = None"
  shows "\<not> isBlockedWebhookHost (''['' @ h @ '']'')"
proof -
  obtain t where h: "h = ''::'' @ t" using assms(2) by (auto simp: prefix_def)
  define host where "host = ''['' @ h @ '']''"
  have p: "stripBrackets (toLowerCase host) = h" unfolding host_def by (rule plain_host(2) [OF assms(1)])
  have l: "h \<noteq> []" "h \<noteq> ''localhost''" "CHR '':'' \<in> set h" "\<not> startsWith h ''fe80:''" "\<not> startsWith h ''fc''" "\<not> startsWith h ''fd''"
    by (simp_all add: h startsWith_def)
  have "\<not> isBlockedWebhookHost host"
    unfolding isBlockedWebhookHost_def Let_def p using assms(3-6) l by simp
  thus ?thesis by (simp add: host_def)
qed

text \<open>Compatible addresses of the last block, 255.255.0.0/16, print like mapped ones with one group missing.\<close>

lemma host_compat_last: "\<not> isBlockedWebhookHost (''['' @ compat6 255 255 c d @ '']'')"
proof -
  have ct: "compat6 255 255 c d = ''::'' @ showHex 65535 @ '':'' @ showHex (c * 256 + d)" using compat6_text [of 255 255 c d] by simp
  have e: "embeddedMappedIpv4 (compat6 255 255 c d) = None"
    unfolding ct showHex_ffff by (simp add: embeddedMappedIpv4_def mappedTail_def startsWith_def hex_no_sep split_on_none)
  have ch: "\<And>x. x \<in> set (compat6 255 255 c d) \<Longrightarrow> x \<notin> set ''[]'' \<and> lowerChar x = x" unfolding ct by (rule compat_chars)
  have l: "\<not> endsWith (compat6 255 255 c d) ''.localhost''"
    using hex_last [of "''::'' @ showHex 65535"] unfolding endsWith_def ct append_assoc .
  have p: "prefix ''::'' (compat6 255 255 c d)" unfolding ct by (rule prefixI) (rule refl)
  show ?thesis by (rule host6_unread [OF ch p _ _ l e]) (simp_all add: ct showHex_ffff)
qed

lemma showHex_one: "showHex n = ''1'' \<longleftrightarrow> n = 1"
proof
  assume "showHex n = ''1''"
  hence "Some n = parseHex ''1''" by (metis parseHex_showHex)
  thus "n = 1" by (simp add: parseHex_def hexVal_def)
next
  assume "n = 1"
  moreover have "showHex 1 = ''1''" by code_simp
  ultimately show "showHex n = ''1''" by simp
qed

text \<open>Compatible addresses of the first block, 0.0.0.0/16, print as one group, which only the unspecified and the
  loopback address of IPv6 are recognised by.\<close>

lemma host_compat_low: "isBlockedWebhookHost (''['' @ compat6 0 0 c d @ '']'') \<longleftrightarrow> c * 256 + d \<le> 1"
proof (cases "c * 256 + d \<le> 1")
  case True
  hence "c * 256 + d = 0 \<or> c * 256 + d = 1" by linarith
  moreover have "isBlockedWebhookHost ''[::]''" "isBlockedWebhookHost ''[::1]''" by code_simp+
  moreover have "showHex 1 = ''1''" by code_simp
  ultimately have "isBlockedWebhookHost (''['' @ compat6 0 0 c d @ '']'')" unfolding compat6_low by auto
  thus ?thesis using True by simp
next
  case False
  hence "c * 256 + d \<noteq> 0" by linarith
  hence ct: "compat6 0 0 c d = ''::'' @ showHex (c * 256 + d)" unfolding compat6_low by (simp only: if_False)
  have n: "CHR '':'' \<notin> set (showHex (c * 256 + d))" by (rule hex_no_sep)
  have "\<not> startsWith (compat6 0 0 c d) ''::ffff:''"
  proof
    assume "startsWith (compat6 0 0 c d) ''::ffff:''"
    then obtain t where "showHex (c * 256 + d) = ''ffff:'' @ t" by (auto simp: startsWith_def ct prefix_def)
    thus False using n by simp
  qed
  hence e: "embeddedMappedIpv4 (compat6 0 0 c d) = None"
    by (simp add: embeddedMappedIpv4_def mappedTail_def ct split_on_none n)
  have ch: "\<And>x. x \<in> set (compat6 0 0 c d) \<Longrightarrow> x \<notin> set ''[]'' \<and> lowerChar x = x"
    using compat_chars [of _ "c * 256 + d" 0] unfolding ct by auto
  have l: "\<not> endsWith (compat6 0 0 c d) ''.localhost''"
    using hex_last [of "'':''" "c * 256 + d"] unfolding endsWith_def ct by simp
  have p: "prefix ''::'' (compat6 0 0 c d)" unfolding ct by (rule prefixI) (rule refl)
  have "compat6 0 0 c d \<noteq> ''::1''" using False showHex_one [of "c * 256 + d"] by (auto simp: ct)
  from host6_unread [OF ch p _ this l e] False show ?thesis by (simp add: ct)
qed

lemma compat_exact:
  assumes "a < 256" "b < 256" "c < 256" "d < 256"
  shows "isBlockedWebhookHost (''['' @ compat6 a b c d @ '']'') \<longleftrightarrow>
    internalV4 a b \<and> \<not> (a = 0 \<and> b = 0 \<and> 1 < c * 256 + d)"
proof (cases "a * 256 + b = 0")
  case True
  hence z: "a = 0" "b = 0" by simp_all
  show ?thesis unfolding z host_compat_low by (auto simp: internalV4_def)
next
  case False
  have "\<not> internalV4 255 255" by (simp add: internalV4_def)
  thus ?thesis using False host_compat [OF assms] host_compat_last [of c d] by (cases "(a, b) = (255, 255)") auto
qed

text \<open>Claim C34. Over the whole IPv4 space, in every spelling a URL parser gives an IPv4 address, the webhook guard is
  exact but for one hole.  A dotted quad and an IPv4-mapped IPv6 literal are refused exactly when the address is
  unspecified, loopback, private or link-local, and so is an IPv4-compatible literal, except that the internal
  addresses 0.0.0.2 to 0.0.255.255 pass in that spelling: the parser prints them as one group (\<open>::102\<close>).  A URL
  with a refused host is answered with a validation error, one whose host passes is accepted.\<close>
theorem callback_host_exact:
  assumes "a < 256" "b < 256" "c < 256" "d < 256"
  shows "(isBlockedWebhookHost (quad a b c d) \<longleftrightarrow> internalV4 a b)
    \<and> (isBlockedWebhookHost (''['' @ mapped6 a b c d @ '']'') \<longleftrightarrow> internalV4 a b)
    \<and> (isBlockedWebhookHost (''['' @ compat6 a b c d @ '']'') \<longleftrightarrow> internalV4 a b \<and> \<not> (a = 0 \<and> b = 0 \<and> 1 < c * 256 + d))
    \<and> (\<forall>env raw protocol host. sv_parseUrl env raw = Some (protocol, host) \<longrightarrow>
         assertSafeCallbackUrl env raw =
           (if protocol \<notin> {''http:'', ''https:''} then Some (validationError ''callbackUrl must use http or https'')
            else if isBlockedWebhookHost host then Some (validationError (''callbackUrl host not allowed: '' @ host)) else None))"
  using host_quad [OF assms] host_mapped [OF assms] compat_exact [OF assms] by (simp add: assertSafeCallbackUrl_def)

text \<open>The metadata address, whichever way it is spelled.\<close>
theorem callback_host_exact_witness:
  "isBlockedWebhookHost (quad 169 254 169 254) \<and> isBlockedWebhookHost (''['' @ mapped6 169 254 169 254 @ '']'')
    \<and> isBlockedWebhookHost (''['' @ compat6 169 254 169 254 @ '']'') \<and> \<not> isBlockedWebhookHost (quad 8 8 4 4)"
proof -
  have "internalV4 169 254" "\<not> internalV4 8 8" by (simp_all add: internalV4_def)
  thus ?thesis using callback_host_exact [of 169 254 169 254] callback_host_exact [of 8 8 4 4] by simp
qed

text \<open>Note. What the guard lets through: the internal address 0.0.1.2 in its compatible spelling, link-local IPv6
  addresses outside \<open>fe80::/16\<close>, although the comment names \<open>fe80::/10\<close>, and the loopback name written with its
  final dot.\<close>
theorem callback_host_gaps:
  "\<not> isBlockedWebhookHost ''[::102]'' \<and> \<not> isBlockedWebhookHost ''[fe90::1]'' \<and> \<not> isBlockedWebhookHost ''[febf::1]''
    \<and> \<not> isBlockedWebhookHost ''localhost.'' \<and> isBlockedWebhookHost ''[fe80::1]'' \<and> isBlockedWebhookHost ''localhost''"
  by code_simp

end
