(* ===== verification/Submit_Properties.thy ===== *)
theory Submit_Properties
  imports Submit_Facts Callback_Host
begin

text \<open>
  Submitting a run, on the Postgres store: what a created job leaves behind, that every other answer leaves the
  store alone, and that a resume token makes the submit idempotent.
\<close>

subsection \<open>The bundle stores name a bundle by its hash\<close>

lemma storesByHash_mem: "storesByHash env (inMemoryBundles env)"
  unfolding storesByHash_def
proof (intro allI)
  fix b st show "fst (bs_put (inMemoryBundles env) b st) = bhash env b"
    by (cases "bhash env b") (simp_all add: mem_bundles.put_error mem_bundles.put_hash)
qed

subsection \<open>Properties\<close>

text \<open>Claim C29. A submit either creates one job or leaves the job store as it was.  When it creates one, the row appears
  under the run id of the handle, is queued, holds the request without its bundle, the fingerprint of the
  request and the resume token, and exactly two events are appended, accepted then queued.  Every rejected,
  throttled, conflicting or replayed submit changes no row and no event.\<close>
theorem submit_effect:
  assumes "sd_store deps = pgOps jsonb" "pg_ok (sw_store w)" "freshUids deps w (pg_events (sw_store w))"
    and "submitRun env deps body w = (res, w')"
  shows "case res of
      Inl _ \<Rightarrow> sw_store w' = sw_store w
    | Inr out \<Rightarrow> if \<not> so_created out then sw_store w' = sw_store w
        else (\<exists>row u v t t'. pg_get (sw_store w') = (pg_get (sw_store w))(h_runId (so_handle out) \<mapsto> row)
          \<and> status row = Queued \<and> request row = jsonb (storedRequest body (h_runId (so_handle out)))
          \<and> resumeToken row = as_str (field body ''resumeToken'')
          \<and> fpOf env body = Inr (requestFingerprint row) \<and> h_requestFingerprint (so_handle out) = requestFingerprint row
          \<and> map ev_core (pg_events (sw_store w')) = map ev_core (pg_events (sw_store w)) @
              [ev_core (eventRow u (h_runId (so_handle out)) (h_runId (so_handle out)) Job_accepted t),
               ev_core (eventRow v (h_runId (so_handle out)) (h_runId (so_handle out)) Job_queued t')]
          \<and> pg_ok (sw_store w'))"
proof (cases "\<exists>out. res = Inr out \<and> so_created out")
  case False
  from pg_submit.submitRun_unchanged [OF assms(1,2,4) False] False show ?thesis by (auto split: sum.split)
next
  case True
  then obtain out where out: "res = Inr out" "so_created out" by blast
  show ?thesis
  proof (rule pg_submit.submitRun_creates [OF assms(1,2) assms(4)[unfolded out(1)] out(2) assms(3)], goal_cases)
    case (1 rid fp h row)
    from 1(13) show ?case unfolding out(1) using out(2) 1(2,5-8,10-12,14-16) by (simp, intro exI [of _ row]) simp
  qed
qed

text \<open>Claim C28. Resume tokens make a submit idempotent.  After a submit with a resume token has created a job, the
  same request submitted again is answered as a replay with the same run id and the same fingerprint, and
  changes neither the job store nor the bundle store: the fingerprint recomputed from the stored row, which has
  lost the bundle and gained a run id and a metrics list, is the fingerprint of the request.\<close>
theorem submit_replay:
  assumes "sd_store deps = pgOps jsonb" "pg_ok (sw_store w)" "freshUids deps w (pg_events (sw_store w))"
    and "submitRun env deps body w = (Inr out, w')" "so_created out"
    and "body = JObj m" "field body ''resumeToken'' = JStr tok" "plainBundleRef body" "fst (runIdOf deps body w) \<noteq> []"
    and "reads_back (he_dec8 (sv_hash env)) jsonb (storedRequest body (fst (runIdOf deps body w)))"
    and "sd_bundleStore deps = Some (inMemoryBundles (sv_hash env))"
    and "sw_store v = sw_store w'"
  shows "\<exists>out' v'. submitRun env deps body v = (Inr out', v') \<and> \<not> so_created out'
    \<and> sw_store v' = sw_store v \<and> sw_bundles v' = sw_bundles v
    \<and> h_runId (so_handle out') = h_runId (so_handle out) \<and> h_idempotentReplay (so_handle out')
    \<and> h_requestFingerprint (so_handle out') = h_requestFingerprint (so_handle out)"
  by (rule pg_submit.submitRun_replayed [OF assms(1,2,4,5,3,6-10) _ assms(12)])
    (simp add: assms(11) storesByHash_mem)

subsection \<open>A run that submits\<close>

definition sampleBody :: json where
  "sampleBody = JObj [(''datasetRef'', JStr ''d1''),
     (''moduleRef'', JObj [(''id'', JStr ''m''), (''version'', JStr ''1'')]),
     (''symbols'', JArr [JStr ''BTC'']), (''timeframe'', JStr ''1m''),
     (''period'', JObj [(''from'', JStr ''a''), (''to'', JStr ''b'')]),
     (''seed'', JNum (JFin 7)), (''mode'', JStr ''research''), (''resumeToken'', JStr ''tok'')]"

definition sampleSubmitEnv :: submit_env where
  "sampleSubmitEnv = \<lparr>sv_hash = sampleEnv, sv_parseUrl = (\<lambda>_. None), sv_dateParse = (\<lambda>s. if s = ''a'' then Some 0 else Some 1),
     sv_show = (\<lambda>_. []), sv_kernelMetrics = []\<rparr>"

definition sampleSubmitDeps :: "(pg_store, string js_map) submit_deps" where
  "sampleSubmitDeps = \<lparr>sd_store = pgOps id, sd_clock = (\<lambda>n. int n), sd_uid = (\<lambda>n. replicate (Suc n) CHR ''u''),
     sd_defaultQueueTimeoutMs = 60, sd_defaultRunTimeoutMs = 60, sd_enableOverlayEngine = False,
     sd_bundleStore = Some (inMemoryBundles sampleEnv), sd_queueMaxDepth = Some 5, sd_queueRetryAfterS = None\<rparr>"

definition sampleWorld :: "(pg_store, string js_map) submit_world" where
  "sampleWorld = \<lparr>sw_store = emptyPg, sw_bundles = [], sw_clocks = 0, sw_uids = 0\<rparr>"

lemma sample_fresh: "freshUids sampleSubmitDeps sampleWorld (pg_events (sw_store sampleWorld))"
  by (simp add: freshUids_def sampleSubmitDeps_def sampleWorld_def emptyPg_def pg_events_def inj_def)

lemma sample_ok: "pg_ok (sw_store sampleWorld)" "sd_store sampleSubmitDeps = pgOps id"
  by (simp_all add: sampleWorld_def emptyPg_def pg_ok_def sampleSubmitDeps_def)

lemma sample_runs: "case fst (submitRun sampleSubmitEnv sampleSubmitDeps sampleBody sampleWorld) of Inl _ \<Rightarrow> False | Inr out \<Rightarrow> so_created out"
  by code_simp

theorem submit_effect_witness:
  "\<exists>row. pg_get (sw_store (snd (submitRun sampleSubmitEnv sampleSubmitDeps sampleBody sampleWorld))) ''u'' = Some row \<and> status row = Queued
     \<and> resumeToken row = Some ''tok''"
proof -
  obtain res w' where r: "submitRun sampleSubmitEnv sampleSubmitDeps sampleBody sampleWorld = (res, w')"
    by (cases "submitRun sampleSubmitEnv sampleSubmitDeps sampleBody sampleWorld")
  obtain out where out: "res = Inr out" "so_created out" using sample_runs r by (cases res) auto
  have "h_runId (so_handle (projr (fst (submitRun sampleSubmitEnv sampleSubmitDeps sampleBody sampleWorld)))) = ''u''" by code_simp
  hence "h_runId (so_handle out) = ''u''" using r out by simp
  moreover have "as_str (field sampleBody ''resumeToken'') = Some ''tok''" by code_simp
  ultimately show ?thesis using submit_effect [OF sample_ok(2,1) sample_fresh r] out r by auto
qed

theorem submit_replay_witness:
  "\<exists>out v. submitRun sampleSubmitEnv sampleSubmitDeps sampleBody (snd (submitRun sampleSubmitEnv sampleSubmitDeps sampleBody sampleWorld)) = (Inr out, v)
     \<and> \<not> so_created out \<and> sw_store v = sw_store (snd (submitRun sampleSubmitEnv sampleSubmitDeps sampleBody sampleWorld))"
proof -
  obtain res w' where r: "submitRun sampleSubmitEnv sampleSubmitDeps sampleBody sampleWorld = (res, w')"
    by (cases "submitRun sampleSubmitEnv sampleSubmitDeps sampleBody sampleWorld")
  obtain out where out: "res = Inr out" "so_created out" using sample_runs r by (cases res) auto
  have b: "sampleBody = JObj [(''datasetRef'', JStr ''d1''),
     (''moduleRef'', JObj [(''id'', JStr ''m''), (''version'', JStr ''1'')]),
     (''symbols'', JArr [JStr ''BTC'']), (''timeframe'', JStr ''1m''),
     (''period'', JObj [(''from'', JStr ''a''), (''to'', JStr ''b'')]),
     (''seed'', JNum (JFin 7)), (''mode'', JStr ''research''), (''resumeToken'', JStr ''tok'')]" by (rule sampleBody_def)
  have t: "field sampleBody ''resumeToken'' = JStr ''tok''" "plainBundleRef sampleBody"
      "fst (runIdOf sampleSubmitDeps sampleBody sampleWorld) \<noteq> []" by code_simp+
  have s: "sd_bundleStore sampleSubmitDeps = Some (inMemoryBundles (sv_hash sampleSubmitEnv))"
    by (simp add: sampleSubmitDeps_def sampleSubmitEnv_def)
  from submit_replay [OF sample_ok(2,1) sample_fresh r [unfolded out(1)] out(2) b t reads_back_id s, of w'] r
  show ?thesis by auto
qed

text \<open>An empty \<open>bundleRef\<close> enters the fingerprint of the request as the empty string but the stored row as no bundle, so
  that the identical request submitted again is refused as a conflict.\<close>

definition sampleEmptyRef :: json where
  "sampleEmptyRef = (case sampleBody of JObj m \<Rightarrow> JObj (m @ [(''bundleRef'', JStr [])]) | v \<Rightarrow> v)"

theorem empty_bundleRef_conflict:
  "(case submitRun sampleSubmitEnv sampleSubmitDeps sampleEmptyRef sampleWorld of
      (Inr out, w) \<Rightarrow> so_created out \<and> fst (submitRun sampleSubmitEnv sampleSubmitDeps sampleEmptyRef w) = Inl replayConflict
    | (Inl _, _) \<Rightarrow> False)"
  by code_simp

end
