(* ===== verification/Holdout.thy ===== *)
theory Holdout
  imports Contracts
begin

text \<open>
  The time windows a run is judged on: the held-out tail of a dataset (\<open>apps/backtester/src/engine/holdout.ts\<close>)
  and the walk-forward folds (\<open>engine/walk-forward.ts\<close>).  Instants are integer milliseconds.  \<open>Date.parse\<close> and
  \<open>toISOString\<close> are parameters (the statements that read a printed date back use that parsing inverts
  printing), and so is the rounding of a floating-point product or quotient, of which the statements use that
  it is monotone and exact on the integers that a double holds.
\<close>

record date_env =
  de_parse :: "string \<Rightarrow> ms option"
  de_iso :: "ms \<Rightarrow> string"
  de_round :: "rat \<Rightarrow> rat"

text \<open>\<open>Math.round\<close>: the nearest integer, halves upwards.\<close>

definition jsRound :: "rat \<Rightarrow> int" where
  "jsRound r = \<lfloor>r + 1 / 2\<rfloor>"

datatype window_error = HoldoutConfigError string | WalkForwardConfigError string

subsection \<open>The held-out window\<close>

definition computeHoldoutWindow :: "date_env \<Rightarrow> run_period \<Rightarrow> jsnum \<Rightarrow> window_error + run_period" where
  "computeHoldoutWindow env coverage fraction =
     (case fraction of
        JFin f \<Rightarrow>
          if f \<le> 0 \<or> f \<ge> 1 then Inl (HoldoutConfigError ''holdout: `fraction` must be a finite number in (0, 1)'')
          else (case (de_parse env (period_from coverage), de_parse env (period_to coverage)) of
                  (Some fromMs, Some toMs) \<Rightarrow>
                    if toMs \<le> fromMs then Inl (HoldoutConfigError ''holdout: coverage `from` must precede `to`'')
                    else (let holdoutFromMs = toMs - jsRound (de_round env (f * of_int (toMs - fromMs)))
                          in Inr \<lparr>period_from = de_iso env holdoutFromMs, period_to = period_to coverage\<rparr>)
                | _ \<Rightarrow> Inl (HoldoutConfigError ''holdout: coverage bounds are not parseable dates''))
      | _ \<Rightarrow> Inl (HoldoutConfigError ''holdout: `fraction` must be a finite number in (0, 1)''))"

text \<open>A comparison with an unparseable date is a comparison with \<open>NaN\<close>, which is false.\<close>

definition ms_lt :: "ms option \<Rightarrow> ms option \<Rightarrow> bool" where
  "ms_lt a b = (case (a, b) of (Some x, Some y) \<Rightarrow> x < y | _ \<Rightarrow> False)"

definition ms_le :: "ms option \<Rightarrow> ms option \<Rightarrow> bool" where
  "ms_le a b = (case (a, b) of (Some x, Some y) \<Rightarrow> x \<le> y | _ \<Rightarrow> False)"

definition holdoutOverlap :: "date_env \<Rightarrow> run_period \<Rightarrow> run_period \<Rightarrow> bool \<times> containment" where
  "holdoutOverlap env runPeriod holdout =
     (let rFrom = de_parse env (period_from runPeriod); rTo = de_parse env (period_to runPeriod);
          hFrom = de_parse env (period_from holdout); hTo = de_parse env (period_to holdout);
          overlaps = ms_lt rFrom hTo \<and> ms_lt hFrom rTo
      in if \<not> overlaps then (False, Contain_none)
         else (True, if ms_le hFrom rFrom \<and> ms_le rTo hTo then Contain_full else Contain_partial))"

definition buildHoldoutMarker :: "date_env \<Rightarrow> run_period \<Rightarrow> jsnum \<Rightarrow> run_period \<Rightarrow> window_error + holdout_resolved" where
  "buildHoldoutMarker env coverage fraction runPeriod =
     (case computeHoldoutWindow env coverage fraction of
        Inl e \<Rightarrow> Inl e
      | Inr window \<Rightarrow>
          (let (overlaps, containment) = holdoutOverlap env runPeriod window
           in Inr \<lparr>hr_fraction = fraction, hr_coverage = coverage, hr_window = window,
                hr_overlaps = overlaps, hr_containment = containment\<rparr>))"

subsection \<open>Walk-forward folds\<close>

record wf_scheme =
  sc_folds :: jsnum
  sc_mode :: string

definition wf_boundary :: "date_env \<Rightarrow> ms \<Rightarrow> ms \<Rightarrow> nat \<Rightarrow> nat \<Rightarrow> ms" where
  "wf_boundary env fromMs totalMs segments k =
     fromMs + jsRound (de_round env (de_round env (of_int (totalMs * int k)) / of_nat segments))"

definition wf_fold :: "date_env \<Rightarrow> string \<Rightarrow> ms \<Rightarrow> ms \<Rightarrow> nat \<Rightarrow> nat \<Rightarrow> fold_window" where
  "wf_fold env mode fromMs totalMs segments i =
     (let boundary = wf_boundary env fromMs totalMs segments;
          testFrom = boundary (i + 1); testTo = boundary (i + 2);
          trainFrom = (if mode = ''expanding'' then fromMs else boundary i)
      in \<lparr>fw_index = i, fw_train = \<lparr>period_from = de_iso env trainFrom, period_to = de_iso env testFrom\<rparr>,
          fw_test = \<lparr>period_from = de_iso env testFrom, period_to = de_iso env testTo\<rparr>\<rparr>)"

definition splitWalkForward :: "date_env \<Rightarrow> run_period \<Rightarrow> wf_scheme \<Rightarrow> window_error + fold_window list" where
  "splitWalkForward env period scheme =
     (case (de_parse env (period_from period), de_parse env (period_to period)) of
        (Some fromMs, Some toMs) \<Rightarrow>
          if toMs \<le> fromMs then Inl (WalkForwardConfigError ''walk-forward: period `from` must precede `to`'')
          else (case sc_folds scheme of
                  JFin f \<Rightarrow>
                    if \<not> isSafeInteger (JFin f) \<or> f < 1
                    then Inl (WalkForwardConfigError ''walk-forward: `folds` must be a positive integer'')
                    else if sc_mode scheme \<noteq> ''rolling'' \<and> sc_mode scheme \<noteq> ''expanding''
                    then Inl (WalkForwardConfigError ''walk-forward: `mode` must be rolling or expanding'')
                    else (let folds = nat \<lfloor>f\<rfloor>; segments = folds + 1; totalMs = toMs - fromMs
                          in Inr (map (wf_fold env (sc_mode scheme) fromMs totalMs segments) [0..<folds]))
                | _ \<Rightarrow> Inl (WalkForwardConfigError ''walk-forward: `folds` must be a positive integer''))
      | _ \<Rightarrow> Inl (WalkForwardConfigError ''walk-forward: period bounds are not parseable dates''))"

subsection \<open>Rounding and dates\<close>

text \<open>What is used of floating-point rounding, and of the two date functions.\<close>

definition rounds :: "(rat \<Rightarrow> rat) \<Rightarrow> bool" where
  "rounds fl \<longleftrightarrow> mono fl \<and> (\<forall>n :: int. \<bar>n\<bar> \<le> 2 ^ 53 \<longrightarrow> fl (of_int n) = of_int n)"

definition dates_ok :: "date_env \<Rightarrow> bool" where
  "dates_ok env \<longleftrightarrow> (\<forall>t. de_parse env (de_iso env t) = Some t) \<and> rounds (de_round env)"

lemma jsRound_of_int [simp]: "jsRound (of_int n) = n"
  by (simp add: jsRound_def floor_unique)

lemma jsRound_mono: "a \<le> b \<Longrightarrow> jsRound a \<le> jsRound b"
  unfolding jsRound_def by (rule floor_mono) simp

lemma rounds_mono: "rounds fl \<Longrightarrow> a \<le> b \<Longrightarrow> fl a \<le> fl b"
  by (auto simp: rounds_def mono_def)

lemma rounds_int: "rounds fl \<Longrightarrow> \<bar>n\<bar> \<le> 2 ^ 53 \<Longrightarrow> fl (of_int n) = of_int n"
  by (simp add: rounds_def)

lemma jsRound_between:
  assumes "rounds fl" "of_int m \<le> r" "r \<le> of_int n" "\<bar>m\<bar> \<le> 2 ^ 53" "\<bar>n\<bar> \<le> 2 ^ 53"
  shows "m \<le> jsRound (fl r)" "jsRound (fl r) \<le> n"
proof -
  have "fl (of_int m) \<le> fl r" "fl r \<le> fl (of_int n)" using rounds_mono [OF assms(1)] assms(2,3) by blast+
  from jsRound_mono [OF this(1)] jsRound_mono [OF this(2)] show "m \<le> jsRound (fl r)" "jsRound (fl r) \<le> n"
    using rounds_int [OF assms(1)] assms(4,5) by simp_all
qed

subsection \<open>The windows\<close>

lemma boundary_mono:
  assumes "rounds (de_round env)" "0 \<le> totalMs" "j \<le> k"
  shows "wf_boundary env fromMs totalMs segments j \<le> wf_boundary env fromMs totalMs segments k"
proof -
  have "of_int (totalMs * int j) \<le> (of_int (totalMs * int k) :: rat)" using assms(2,3) by (simp add: mult_left_mono)
  hence "de_round env (of_int (totalMs * int j)) \<le> de_round env (of_int (totalMs * int k))" by (rule rounds_mono [OF assms(1)])
  hence "de_round env (of_int (totalMs * int j)) / of_nat segments \<le> de_round env (of_int (totalMs * int k)) / of_nat segments"
    by (rule divide_right_mono) simp
  from rounds_mono [OF assms(1) this] show ?thesis unfolding wf_boundary_def by (simp add: jsRound_mono)
qed

lemma boundary_ends:
  assumes "rounds (de_round env)" "0 \<le> totalMs" "0 < segments" "totalMs * int segments \<le> 2 ^ 53"
  shows "wf_boundary env fromMs totalMs segments 0 = fromMs" "wf_boundary env fromMs totalMs segments segments = fromMs + totalMs"
proof -
  have z: "de_round env 0 = 0" using rounds_int [OF assms(1), of 0] by simp
  show "wf_boundary env fromMs totalMs segments 0 = fromMs" using jsRound_of_int [of 0] by (simp add: wf_boundary_def z)
  have t: "totalMs \<le> totalMs * int segments" using mult_left_mono [of 1 "int segments" totalMs] assms(2,3) by simp
  have "de_round env (of_int (totalMs * int segments)) = of_int (totalMs * int segments)"
    using assms(2,4) by (intro rounds_int [OF assms(1)]) simp
  hence "de_round env (of_int (totalMs * int segments)) / of_nat segments = of_int totalMs" using assms(3) by simp
  moreover have "de_round env (of_int totalMs) = of_int totalMs" using assms(2,4) t by (intro rounds_int [OF assms(1)]) simp
  ultimately show "wf_boundary env fromMs totalMs segments segments = fromMs + totalMs" by (simp add: wf_boundary_def)
qed

lemma split_ok:
  assumes "splitWalkForward env period scheme = Inr fs"
  obtains fromMs toMs folds where "de_parse env (period_from period) = Some fromMs" "de_parse env (period_to period) = Some toMs"
    "fromMs < toMs" "sc_folds scheme = JFin (of_nat folds)" "1 \<le> folds" "sc_mode scheme \<in> {''rolling'', ''expanding''}"
    "fs = map (wf_fold env (sc_mode scheme) fromMs (toMs - fromMs) (folds + 1)) [0..<folds]"
proof -
  obtain fromMs toMs where d: "de_parse env (period_from period) = Some fromMs" "de_parse env (period_to period) = Some toMs" "fromMs < toMs"
    using assms by (auto simp: splitWalkForward_def split: option.splits if_splits)
  obtain f where f: "sc_folds scheme = JFin f" using assms d by (auto simp: splitWalkForward_def split: jsnum.splits)
  have g: "isSafeInteger (JFin f)" "1 \<le> f" "sc_mode scheme \<in> {''rolling'', ''expanding''}"
      "fs = map (wf_fold env (sc_mode scheme) fromMs (toMs - fromMs) (nat \<lfloor>f\<rfloor> + 1)) [0..<nat \<lfloor>f\<rfloor>]"
    using assms d f by (auto simp: splitWalkForward_def Let_def split: if_splits)
  have "f = of_nat (nat \<lfloor>f\<rfloor>)" using g(1,2) by auto
  moreover have "1 \<le> nat \<lfloor>f\<rfloor>" using g(2) by linarith
  ultimately show thesis using that [of fromMs toMs "nat \<lfloor>f\<rfloor>"] d f g by metis
qed

text \<open>Claim C36. The walk-forward split of a period into \<open>folds\<close> folds has exactly that many windows.  Each fold trains on
  a window that ends where its test window begins, so no test data is trained on, and lies inside the period;
  consecutive test windows meet without gap or overlap, the last one ends with the period; an expanding fold
  trains from the start of the period, a rolling one from the start of the previous test window.\<close>
theorem walk_forward_windows:
  assumes "dates_ok env" "splitWalkForward env period scheme = Inr fs"
    and "de_parse env (period_from period) = Some a" "de_parse env (period_to period) = Some b"
    and "sc_folds scheme = JFin (of_nat folds)" "(b - a) * int (folds + 1) \<le> 2 ^ 53"
  shows "length fs = folds \<and> 1 \<le> folds
    \<and> (\<exists>B. mono B \<and> B 0 = a \<and> B (folds + 1) = b
        \<and> (\<forall>i < folds. fw_index (fs ! i) = i
            \<and> de_parse env (period_from (fw_train (fs ! i))) = Some (if sc_mode scheme = ''expanding'' then a else B i)
            \<and> de_parse env (period_to (fw_train (fs ! i))) = Some (B (i + 1))
            \<and> de_parse env (period_from (fw_test (fs ! i))) = Some (B (i + 1))
            \<and> de_parse env (period_to (fw_test (fs ! i))) = Some (B (i + 2))))"
proof -
  from split_ok [OF assms(2)] obtain a' b' n where s: "de_parse env (period_from period) = Some a'" "de_parse env (period_to period) = Some b'"
      "a' < b'" "sc_folds scheme = JFin (of_nat n)" "1 \<le> n"
      "fs = map (wf_fold env (sc_mode scheme) a' (b' - a') (n + 1)) [0..<n]" by metis
  have e: "a' = a" "b' = b" "n = folds" using s assms(3-5) by simp_all
  let ?B = "wf_boundary env a (b - a) (folds + 1)"
  have r: "rounds (de_round env)" and iso: "\<And>t. de_parse env (de_iso env t) = Some t" using assms(1) by (auto simp: dates_ok_def)
  have "mono ?B" using boundary_mono [OF r] s(3) e by (simp add: mono_def)
  moreover have "?B 0 = a" "?B (folds + 1) = b" using boundary_ends [OF r, of "b - a" "folds + 1"] s(3) e assms(6) by simp_all
  ultimately show ?thesis using s(5,6) unfolding e
    by (intro conjI exI [of _ ?B]) (simp_all add: wf_fold_def Let_def iso)
qed

text \<open>Note. The held-out window of a dataset is a tail of its coverage: it starts inside the coverage and ends with
  it, whatever the rounding of the product; and a run is reported disjoint from it, inside it, or partly
  overlapping exactly as the half-open intervals are (when the window is not empty).\<close>
theorem holdout_window:
  assumes "dates_ok env" "computeHoldoutWindow env coverage fraction = Inr w"
    and "de_parse env (period_from coverage) = Some a" "de_parse env (period_to coverage) = Some b" "b - a \<le> 2 ^ 53"
    and "de_parse env (period_from run) = Some x" "de_parse env (period_to run) = Some y" "x < y"
  shows "\<exists>h. de_parse env (period_from w) = Some h \<and> de_parse env (period_to w) = Some b \<and> a \<le> h \<and> h \<le> b
    \<and> (h < b \<longrightarrow> holdoutOverlap env run w =
        (if {x..<y} \<inter> {h..<b} = {} then (False, Contain_none)
         else (True, if {x..<y} \<subseteq> {h..<b} then Contain_full else Contain_partial)))"
proof -
  have r: "rounds (de_round env)" and iso: "\<And>t. de_parse env (de_iso env t) = Some t" using assms(1) by (auto simp: dates_ok_def)
  obtain f where f: "fraction = JFin f" "0 < f" "f < 1" "a < b"
      "w = \<lparr>period_from = de_iso env (b - jsRound (de_round env (f * of_int (b - a)))), period_to = period_to coverage\<rparr>"
    using assms(2-4) by (auto simp: computeHoldoutWindow_def Let_def split: jsnum.splits if_splits)
  define h where "h = b - jsRound (de_round env (f * of_int (b - a)))"
  have "0 \<le> f * of_int (b - a)" "f * of_int (b - a) \<le> of_int (b - a)"
    using f(2-4) mult_right_mono [of f 1 "of_int (b - a)"] by simp_all
  hence h: "a \<le> h" "h \<le> b" using jsRound_between [OF r, of 0 "f * of_int (b - a)" "b - a"] f(4) assms(5)
    by (simp_all add: h_def)
  have i: "{x..<y} \<inter> {h..<b} = {} \<longleftrightarrow> \<not> (x < b \<and> h < y)" if "h < b"
  proof
    show "\<not> (x < b \<and> h < y)" if e: "{x..<y} \<inter> {h..<b} = {}"
    proof
      assume "x < b \<and> h < y"
      hence "max x h \<in> {x..<y} \<inter> {h..<b}" using \<open>h < b\<close> assms(8) by auto
      thus False using e by blast
    qed
  qed auto
  have s: "{x..<y} \<subseteq> {h..<b} \<longleftrightarrow> h \<le> x \<and> y \<le> b" 
  proof
    assume e: "{x..<y} \<subseteq> {h..<b}"
    have "x \<in> {x..<y}" "y - 1 \<in> {x..<y}" using assms(8) by auto
    hence "x \<in> {h..<b}" "y - 1 \<in> {h..<b}" using e by blast+
    thus "h \<le> x \<and> y \<le> b" by auto
  qed auto
  have p: "de_parse env (period_from w) = Some h" "de_parse env (period_to w) = Some b" using f(5) iso assms(4) by (simp_all add: h_def)
  have "holdoutOverlap env run w = (if \<not> (x < b \<and> h < y) then (False, Contain_none)
      else (True, if h \<le> x \<and> y \<le> b then Contain_full else Contain_partial))"
    by (simp add: holdoutOverlap_def p assms(6,7) ms_lt_def ms_le_def)
  thus ?thesis using h p i s by (intro exI [of _ h]) simp
qed

subsection \<open>On concrete dates\<close>

text \<open>Dates written as the decimal digits of their instant in unary: a printing that parsing inverts.\<close>

definition sampleDates :: date_env where
  "sampleDates = \<lparr>de_parse = (\<lambda>s. Some (case s of [] \<Rightarrow> 0 | c # cs \<Rightarrow> if c = CHR ''-'' then - int (length cs) else int (length s))),
     de_iso = (\<lambda>t. if t < 0 then CHR ''-'' # replicate (nat (- t)) CHR ''i'' else replicate (nat t) CHR ''i''), de_round = id\<rparr>"

lemma sampleDates_ok: "dates_ok sampleDates"
proof -
  have "de_parse sampleDates (de_iso sampleDates t) = Some t" for t
    by (cases "nat t") (auto simp: sampleDates_def)
  thus ?thesis by (simp add: dates_ok_def rounds_def sampleDates_def mono_def)
qed

definition samplePeriod :: run_period where
  "samplePeriod = \<lparr>period_from = ''ii'', period_to = ''iiiiiiiiiii''\<rparr>"

theorem walk_forward_windows_witness:
  "length (projr (splitWalkForward sampleDates samplePeriod \<lparr>sc_folds = JFin 2, sc_mode = ''rolling''\<rparr>)) = 2
   \<and> de_parse sampleDates (period_from (fw_train (projr (splitWalkForward sampleDates samplePeriod \<lparr>sc_folds = JFin 2, sc_mode = ''rolling''\<rparr>) ! 0))) = Some 2"
proof -
  let ?s = "\<lparr>sc_folds = JFin 2, sc_mode = ''rolling''\<rparr>"
  obtain fs where fs: "splitWalkForward sampleDates samplePeriod ?s = Inr fs"
  proof -
    have "\<not> isl (splitWalkForward sampleDates samplePeriod ?s)" by code_simp
    thus thesis using that by (cases "splitWalkForward sampleDates samplePeriod ?s") simp_all
  qed
  have p: "de_parse sampleDates (period_from samplePeriod) = Some 2" "de_parse sampleDates (period_to samplePeriod) = Some 11" by code_simp+
  have f: "sc_folds ?s = JFin (of_nat 2)" by simp
  from walk_forward_windows [OF sampleDates_ok fs p f] show ?thesis unfolding fs by auto
qed

theorem holdout_window_witness:
  "holdoutOverlap sampleDates samplePeriod (projr (computeHoldoutWindow sampleDates samplePeriod (JFin (1 / 3)))) = (True, Contain_partial)"
proof -
  obtain w where w: "computeHoldoutWindow sampleDates samplePeriod (JFin (1 / 3)) = Inr w"
  proof -
    have "\<not> isl (computeHoldoutWindow sampleDates samplePeriod (JFin (1 / 3)))" by code_simp
    thus thesis using that by (cases "computeHoldoutWindow sampleDates samplePeriod (JFin (1 / 3))") simp_all
  qed
  have p: "de_parse sampleDates (period_from samplePeriod) = Some 2" "de_parse sampleDates (period_to samplePeriod) = Some 11" by code_simp+
  have h: "de_parse sampleDates (period_from (projr (computeHoldoutWindow sampleDates samplePeriod (JFin (1 / 3))))) = Some 8" by code_simp
  have "\<not> {2..<11 :: int} \<subseteq> {8..<11}" "{2..<11 :: int} \<inter> {8..<11} \<noteq> {}" by auto
  with holdout_window [OF sampleDates_ok w p _ p] h show ?thesis unfolding w by auto
qed

end
