(* ===== verification/Promotion_Gate.thy ===== *)
theory Promotion_Gate
  imports Holdout Fingerprint
begin

text \<open>
  The promotion gate (\<open>apps/backtester/src/evidence/promotion-gate.ts\<close>), the verdict (\<open>evidence/verdict.ts\<close>), the evaluation
  of a window (\<open>engine/window-eval.ts\<close>) and the comparison of two runs (\<open>engine/equivalence.ts\<close>).  A trade is the JSON
  object the engine reports; the metric functions and the timeframe parser come from the engine package and
  are parameters.  The walk over the bar grid need not end, so what depends on it is an option: no value
  is a call that does not return.
\<close>

record equity_point =
  ep_barIndex :: int
  ep_barTs :: ms
  ep_equity :: jsnum

record completed_outcome =
  co_trades :: "json list"
  co_equityCurve :: "equity_point list"
  co_value :: json

datatype run_outcome = Rejected_outcome json | Completed_outcome completed_outcome

record gate_env =
  ge_dates :: date_env
  ge_dec8 :: "rat \<Rightarrow> string"
  ge_sha256 :: "string \<Rightarrow> string"
  ge_computeMetrics :: "string list \<Rightarrow> equity_point list \<Rightarrow> json list \<Rightarrow> rat \<Rightarrow> metric_record"
  ge_parseTimeframeMs :: "string \<Rightarrow> ms option"

subsection \<open>Comparing two runs\<close>

text \<open>\<open>a !== b\<close> on the primitive values of a trade: \<open>NaN\<close> differs from itself.\<close>

definition strict_neq :: "json \<Rightarrow> json \<Rightarrow> bool" where
  "strict_neq a b = (case (a, b) of (JNum x, JNum y) \<Rightarrow> \<not> num_eq x y | _ \<Rightarrow> a \<noteq> b)"

definition TRADE_FIELDS :: "string list" where
  "TRADE_FIELDS = [''side'', ''entryBarIndex'', ''entryTs'', ''entryFillPrice'', ''exitBarIndex'', ''exitTs'',
     ''exitFillPrice'', ''size'', ''feePaid'', ''realizedPnl'', ''closeReason'']"

record trade_divergence =
  td_index :: nat
  td_field :: string
  td_expected :: json
  td_actual :: json

fun tradeDivergenceFrom :: "nat \<Rightarrow> json list \<Rightarrow> json list \<Rightarrow> trade_divergence option" where
  "tradeDivergenceFrom i (a # as) (b # bs) =
     (case find (\<lambda>f. strict_neq (field a f) (field b f)) TRADE_FIELDS of
        Some f \<Rightarrow> Some \<lparr>td_index = i, td_field = f, td_expected = field a f, td_actual = field b f\<rparr>
      | None \<Rightarrow> tradeDivergenceFrom (i + 1) as bs)"
| "tradeDivergenceFrom i _ _ = None"

definition firstTradeDivergence :: "json list \<Rightarrow> json list \<Rightarrow> trade_divergence option" where
  "firstTradeDivergence a b = (case tradeDivergenceFrom 0 a b of
      Some d \<Rightarrow> Some d
    | None \<Rightarrow> if length a \<noteq> length b
        then Some \<lparr>td_index = min (length a) (length b), td_field = ''count'',
               td_expected = JNum (JFin (of_nat (length a))), td_actual = JNum (JFin (of_nat (length b)))\<rparr>
        else None)"

record equivalence_result =
  eq_equivalent :: bool
  eq_resultHashMatch :: bool
  eq_firstDivergence :: "trade_divergence option"
  eq_curatedTradeCount :: nat
  eq_candidateTradeCount :: nat

definition tradeCount :: "run_outcome \<Rightarrow> nat" where
  "tradeCount r = (case r of Completed_outcome c \<Rightarrow> length (co_trades c) | Rejected_outcome _ \<Rightarrow> 0)"

definition compareBacktestRuns :: "gate_env \<Rightarrow> run_outcome \<Rightarrow> run_outcome \<Rightarrow> canon_error + equivalence_result" where
  "compareBacktestRuns env curated candidate = (case (curated, candidate) of
      (Completed_outcome cu, Completed_outcome ca) \<Rightarrow>
        (case (contentRef (ge_dec8 env) (ge_sha256 env) (co_value cu), contentRef (ge_dec8 env) (ge_sha256 env) (co_value ca)) of
           (Inr h, Inr h') \<Rightarrow>
             (let resultHashMatch = (h = h'); dv = firstTradeDivergence (co_trades cu) (co_trades ca)
              in Inr \<lparr>eq_equivalent = (resultHashMatch \<and> dv = None), eq_resultHashMatch = resultHashMatch,
                   eq_firstDivergence = dv, eq_curatedTradeCount = length (co_trades cu),
                   eq_candidateTradeCount = length (co_trades ca)\<rparr>)
         | (Inl e, _) \<Rightarrow> Inl e
         | (_, Inl e) \<Rightarrow> Inl e)
    | _ \<Rightarrow> Inr \<lparr>eq_equivalent = False, eq_resultHashMatch = False, eq_firstDivergence = None,
        eq_curatedTradeCount = tradeCount curated, eq_candidateTradeCount = tradeCount candidate\<rparr>)"

subsection \<open>Evaluating a window\<close>

definition ms_num :: "ms option \<Rightarrow> jsnum" where
  "ms_num t = (case t of None \<Rightarrow> JNaN | Some x \<Rightarrow> JFin (of_int x))"

definition trade_num :: "json \<Rightarrow> string \<Rightarrow> jsnum" where
  "trade_num t f = (case field t f of JNum n \<Rightarrow> n | _ \<Rightarrow> JNaN)"

abbreviation barNum :: "equity_point \<Rightarrow> jsnum" where
  "barNum p \<equiv> JFin (of_int (ep_barTs p))"

text \<open>The loop keeps the last point before the window among those with the greatest bar time.\<close>

definition anchorPoint :: "equity_point list \<Rightarrow> jsnum \<Rightarrow> equity_point option" where
  "anchorPoint equity fromMs = fold (\<lambda>p anchor.
      if num_lt (barNum p) fromMs \<and> (case anchor of None \<Rightarrow> True | Some a \<Rightarrow> ep_barTs a \<le> ep_barTs p) then Some p else anchor)
    equity None"

definition anchoredTestEquity :: "equity_point list \<Rightarrow> jsnum \<Rightarrow> jsnum \<Rightarrow> equity_point list" where
  "anchoredTestEquity equity fromMs toMs =
     (let inside = [p \<leftarrow> equity. num_le fromMs (barNum p) \<and> num_lt (barNum p) toMs]
      in case anchorPoint equity fromMs of None \<Rightarrow> inside | Some a \<Rightarrow> a # inside)"

record window_eval =
  we_equity :: "equity_point list"
  we_inTest :: "json list"
  we_carryInClosedTradeCount :: nat
  we_metrics :: metric_record
  we_warmupSteps :: nat

definition YEAR_MS :: rat where
  "YEAR_MS = (1461 / 4) * 24 * 60 * 60 * 1000"

definition evaluateWindow :: "gate_env \<Rightarrow> completed_outcome \<Rightarrow> run_period \<Rightarrow> string list \<Rightarrow> window_eval" where
  "evaluateWindow env outcome window requestedMetrics =
     (let f = de_parse (ge_dates env) (period_from window); t = de_parse (ge_dates env) (period_to window);
          fromMs = ms_num f; toMs = ms_num t;
          allEquity = co_equityCurve outcome;
          equity = anchoredTestEquity allEquity fromMs toMs;
          warmupSteps = card (set (map ep_barTs [p \<leftarrow> allEquity. num_lt (barNum p) fromMs]));
          inTest = [x \<leftarrow> co_trades outcome. num_le fromMs (trade_num x ''entryTs'') \<and> num_lt (trade_num x ''exitTs'') toMs];
          carryIn = length [x \<leftarrow> co_trades outcome. num_lt (trade_num x ''entryTs'') fromMs \<and>
            num_le fromMs (trade_num x ''exitTs'') \<and> num_lt (trade_num x ''exitTs'') toMs];
          years = (case (f, t) of (Some a, Some b) \<Rightarrow> of_int (b - a) / YEAR_MS | _ \<Rightarrow> 0)
      in \<lparr>we_equity = equity, we_inTest = inTest, we_carryInClosedTradeCount = carryIn,
          we_metrics = ge_computeMetrics env requestedMetrics equity inTest years, we_warmupSteps = warmupSteps\<rparr>)"

subsection \<open>The verdict\<close>

record evidence_thresholds =
  th_minSharpe :: jsnum
  th_maxDrawdown :: jsnum
  th_minWinRate :: jsnum
  th_minTrades :: jsnum

definition DEFAULT_THRESHOLDS :: evidence_thresholds where
  "DEFAULT_THRESHOLDS = \<lparr>th_minSharpe = JFin 0, th_maxDrawdown = JFin 1, th_minWinRate = JFin 0, th_minTrades = JFin 1\<rparr>"

datatype gate_verdict = Verdict_passed | Verdict_failed

definition decideVerdict :: "metric_record \<Rightarrow> evidence_thresholds \<Rightarrow> gate_verdict" where
  "decideVerdict metrics thresholds =
     (case (map_of metrics ''sharpe'', map_of metrics ''max_drawdown'', map_of metrics ''win_rate'', map_of metrics ''total_trades'') of
        (Some sharpe, Some drawdown, Some winRate, Some trades) \<Rightarrow>
          if num_lt (th_minSharpe thresholds) sharpe \<and> num_lt drawdown (th_maxDrawdown thresholds)
             \<and> num_lt (th_minWinRate thresholds) winRate \<and> num_le (th_minTrades thresholds) trades
          then Verdict_passed else Verdict_failed
      | _ \<Rightarrow> Verdict_failed)"

subsection \<open>The coverage of a window by bars\<close>

text \<open>The bar whose interval contains the left edge, the latest one when there are several.\<close>

definition anchorBar :: "ms list \<Rightarrow> ms \<Rightarrow> ms \<Rightarrow> ms option" where
  "anchorBar barTimes wFrom interval = fold (\<lambda>ts anchor.
      if ts \<le> wFrom \<and> wFrom < ts + interval \<and> (case anchor of None \<Rightarrow> True | Some a \<Rightarrow> a < ts) then Some ts else anchor)
    barTimes None"

text \<open>The walk over the grid: the number of slots in the window, or nothing when one has no bar.\<close>

partial_function (option) gridWalk :: "ms list \<Rightarrow> ms \<Rightarrow> ms \<Rightarrow> ms \<Rightarrow> ms \<Rightarrow> nat \<Rightarrow> nat option option" where
  "gridWalk present wFrom wTo interval ts expected =
     (if ts < wTo
      then if ts \<ge> wFrom
           then if ts \<in> set present then gridWalk present wFrom wTo interval (ts + interval) (expected + 1) else Some None
           else gridWalk present wFrom wTo interval (ts + interval) expected
      else Some (Some expected))"

declare gridWalk.simps [code]

definition symbolCoversWindow :: "ms list \<Rightarrow> ms \<Rightarrow> ms \<Rightarrow> ms \<Rightarrow> bool option" where
  "symbolCoversWindow barTimes wFrom wTo interval =
     (case anchorBar barTimes wFrom interval of
        None \<Rightarrow> Some False
      | Some anchor \<Rightarrow>
          map_option (\<lambda>walked. case walked of
              None \<Rightarrow> False
            | Some expected \<Rightarrow> length [ts \<leftarrow> barTimes. wFrom \<le> ts \<and> ts < wTo] = expected)
            (gridWalk barTimes wFrom wTo interval anchor 0))"

text \<open>\<open>bars.every\<close>, which stops at the first symbol that fails.\<close>

fun everyCovers :: "ms list list \<Rightarrow> ms \<Rightarrow> ms \<Rightarrow> ms \<Rightarrow> bool option" where
  "everyCovers [] wFrom wTo interval = Some True"
| "everyCovers (bars # rest) wFrom wTo interval =
     Option.bind (symbolCoversWindow bars wFrom wTo interval) (\<lambda>ok. if ok then everyCovers rest wFrom wTo interval else Some False)"

subsection \<open>The gate\<close>

datatype integrity = Integrity_ok | Integrity_reject promotion_failure_reason

definition evaluatePromotionIntegrity :: "gate_env \<Rightarrow> completed_outcome \<Rightarrow> completed_outcome \<Rightarrow> bool \<Rightarrow> canon_error + integrity" where
  "evaluatePromotionIntegrity env candidate curated bundleGateRejected =
     (if bundleGateRejected then Inr (Integrity_reject Gate_rejected)
      else case compareBacktestRuns env (Completed_outcome curated) (Completed_outcome candidate) of
             Inl e \<Rightarrow> Inl e
           | Inr r \<Rightarrow> Inr (if \<not> eq_equivalent r then Integrity_reject Twin_divergent else Integrity_ok))"

datatype window_outcome =
    Window_reject promotion_failure_reason
  | Evaluated gate_verdict metric_record metric_record

record gate_policy =
  gp_thresholds :: evidence_thresholds
  gp_metrics :: "string list"
  gp_minWarmupBars :: nat
  gp_minTrades :: nat

definition evaluatePromotionWindow :: "gate_env \<Rightarrow> completed_outcome \<Rightarrow> completed_outcome \<Rightarrow> run_period \<Rightarrow> run_period \<Rightarrow>
    gate_policy \<Rightarrow> ms list list \<Rightarrow> string \<Rightarrow> string \<Rightarrow> window_outcome option" where
  "evaluatePromotionWindow env candidate curated w runPeriod policy executedBarTimes requestTimeframe datasetTimeframe =
     (let parse = de_parse (ge_dates env);
          wFrom = parse (period_from w); wTo = parse (period_to w); pFrom = parse (period_from runPeriod); pTo = parse (period_to runPeriod)
      in if \<not> (ms_le pFrom wFrom \<and> ms_le wTo pTo) then Some (Window_reject Holdout_not_covered)
         else let interval = (if requestTimeframe = datasetTimeframe then ge_parseTimeframeMs env datasetTimeframe else None);
                  covered = (case interval of
                      None \<Rightarrow> Some False
                    | Some iv \<Rightarrow> if executedBarTimes = [] then Some False else everyCovers executedBarTimes (the wFrom) (the wTo) iv)
              in map_option (\<lambda>ok.
                   if \<not> ok then Window_reject Evaluation_insufficient
                   else let evalC = evaluateWindow env candidate w (gp_metrics policy)
                        in if we_warmupSteps evalC < gp_minWarmupBars policy then Window_reject Warmup_insufficient
                           else if length (we_equity evalC) < 2 \<or> length (we_inTest evalC) < gp_minTrades policy
                           then Window_reject Evaluation_insufficient
                           else let evalCur = evaluateWindow env curated w (gp_metrics policy)
                                in Evaluated (decideVerdict (we_metrics evalC) (gp_thresholds policy)) (we_metrics evalC) (we_metrics evalCur))
                 covered)"

subsection \<open>The grid\<close>

definition slots :: "ms \<Rightarrow> ms \<Rightarrow> ms \<Rightarrow> ms \<Rightarrow> ms set" where
  "slots wFrom wTo interval ts = {s. \<exists>k :: nat. s = ts + int k * interval \<and> wFrom \<le> s \<and> s < wTo}"

lemma slots_finite: "finite (slots wFrom wTo interval ts)"
  by (rule finite_subset [of _ "{wFrom..<wTo}"]) (auto simp: slots_def)

lemma slots_past:
  assumes "0 < interval" "wTo \<le> ts" shows "slots wFrom wTo interval ts = {}"
proof -
  have "ts \<le> ts + int k * interval" for k using assms(1) by simp
  thus ?thesis using assms(2) unfolding slots_def by (smt (verit) Collect_empty_eq)
qed

lemma slots_step:
  assumes "0 < interval" "ts < wTo"
  shows "slots wFrom wTo interval ts = (if wFrom \<le> ts then {ts} else {}) \<union> slots wFrom wTo interval (ts + interval)"
proof (rule set_eqI)
  fix s
  have "(\<exists>k :: nat. s = ts + int k * interval) \<longleftrightarrow> s = ts \<or> (\<exists>k :: nat. s = ts + interval + int k * interval)"
  proof
    assume "\<exists>k :: nat. s = ts + int k * interval"
    then obtain k :: nat where k: "s = ts + int k * interval" by blast
    show "s = ts \<or> (\<exists>k :: nat. s = ts + interval + int k * interval)"
    proof (cases k)
      case (Suc j)
      hence "s = ts + interval + int j * interval" using k by (simp add: algebra_simps)
      thus ?thesis by blast
    qed (use k in simp)
  next
    assume "s = ts \<or> (\<exists>k :: nat. s = ts + interval + int k * interval)"
    thus "\<exists>k :: nat. s = ts + int k * interval"
    proof
      assume "s = ts" thus ?thesis by (intro exI [of _ 0]) simp
    next
      assume "\<exists>k :: nat. s = ts + interval + int k * interval"
      then obtain k :: nat where "s = ts + interval + int k * interval" by blast
      thus ?thesis by (intro exI [of _ "Suc k"]) (simp add: algebra_simps)
    qed
  qed
  thus "s \<in> slots wFrom wTo interval ts \<longleftrightarrow> s \<in> (if wFrom \<le> ts then {ts} else {}) \<union> slots wFrom wTo interval (ts + interval)"
    using assms(2) unfolding slots_def by auto
qed

lemma slots_later: "0 < interval \<Longrightarrow> ts \<notin> slots wFrom wTo interval (ts + interval)"
proof
  assume i: "0 < interval" and "ts \<in> slots wFrom wTo interval (ts + interval)"
  then obtain k :: nat where "ts = ts + interval + int k * interval" by (auto simp: slots_def)
  moreover have "0 \<le> int k * interval" using i by simp
  ultimately show False using i by linarith
qed

lemma gridWalk_slots:
  assumes "0 < interval"
  shows "gridWalk bars wFrom wTo interval ts n =
    Some (if slots wFrom wTo interval ts \<subseteq> set bars then Some (n + card (slots wFrom wTo interval ts)) else None)"
proof (induction "nat (wTo - ts)" arbitrary: ts n rule: less_induct)
  case less
  show ?case
  proof (cases "ts < wTo")
    case False
    thus ?thesis using slots_past [OF assms, of wTo ts wFrom] by (simp add: gridWalk.simps)
  next
    case True
    hence "nat (wTo - (ts + interval)) < nat (wTo - ts)" using assms by simp
    note IH = less(1) [OF this]
    have c: "card (insert ts (slots wFrom wTo interval (ts + interval))) = Suc (card (slots wFrom wTo interval (ts + interval)))"
      using slots_later [OF assms] slots_finite by simp
    show ?thesis
      by (subst gridWalk.simps) (simp add: True IH slots_step [OF assms True, of wFrom] c)
  qed
qed

text \<open>The greatest element of a set, if it has one.\<close>

definition greatest :: "ms set \<Rightarrow> ms option \<Rightarrow> bool" where
  "greatest cs r \<longleftrightarrow> (case r of None \<Rightarrow> cs = {} | Some a \<Rightarrow> a \<in> cs \<and> (\<forall>c \<in> cs. c \<le> a))"

lemma greatest_unique: "greatest cs r \<Longrightarrow> greatest cs r' \<Longrightarrow> r = r'"
  by (auto simp: greatest_def intro: antisym split: option.splits)

lemma anchor_fold:
  assumes "greatest cs acc"
  shows "greatest (cs \<union> {b \<in> set bars. b \<le> wFrom \<and> wFrom < b + interval})
    (fold (\<lambda>ts anchor. if ts \<le> wFrom \<and> wFrom < ts + interval \<and> (case anchor of None \<Rightarrow> True | Some a \<Rightarrow> a < ts)
       then Some ts else anchor) bars acc)"
  using assms
proof (induction bars arbitrary: acc cs)
  case Nil
  thus ?case by simp
next
  case (Cons b bs)
  let ?acc = "if b \<le> wFrom \<and> wFrom < b + interval \<and> (case acc of None \<Rightarrow> True | Some a \<Rightarrow> a < b) then Some b else acc"
  let ?cs = "cs \<union> (if b \<le> wFrom \<and> wFrom < b + interval then {b} else {})"
  have "greatest ?cs ?acc" using Cons.prems by (cases acc) (auto simp: greatest_def)
  from Cons.IH [OF this]
  have g: "greatest (?cs \<union> {b \<in> set bs. b \<le> wFrom \<and> wFrom < b + interval})
    (fold (\<lambda>ts anchor. if ts \<le> wFrom \<and> wFrom < ts + interval \<and> (case anchor of None \<Rightarrow> True | Some a \<Rightarrow> a < ts)
       then Some ts else anchor) bs ?acc)" .
  have "?cs \<union> {c \<in> set bs. c \<le> wFrom \<and> wFrom < c + interval} = cs \<union> {c \<in> set (b # bs). c \<le> wFrom \<and> wFrom < c + interval}" by auto
  with g show ?case by simp
qed

lemma anchorBar_iff:
  "anchorBar bars wFrom interval = Some a \<longleftrightarrow>
     a \<in> set bars \<and> a \<le> wFrom \<and> wFrom < a + interval \<and> (\<forall>b \<in> set bars. b \<le> wFrom \<longrightarrow> b \<le> a)"
proof -
  let ?C = "{b \<in> set bars. b \<le> wFrom \<and> wFrom < b + interval}"
  have "greatest {} None" by (simp add: greatest_def)
  from anchor_fold [OF this, of bars wFrom interval]
  have g: "greatest ?C (anchorBar bars wFrom interval)" by (simp add: anchorBar_def)
  have "anchorBar bars wFrom interval = Some a \<longleftrightarrow> greatest ?C (Some a)" using g greatest_unique by metis
  also have "\<dots> \<longleftrightarrow> a \<in> set bars \<and> a \<le> wFrom \<and> wFrom < a + interval \<and> (\<forall>b \<in> set bars. b \<le> wFrom \<longrightarrow> b \<le> a)"
    by (force simp: greatest_def)
  finally show ?thesis .
qed

text \<open>Every instant of the window lies in the interval of a slot, when the first slot is at or before the left edge.\<close>

lemma slots_cover:
  assumes "0 < interval" "a \<le> wFrom" "wFrom < a + interval" "t \<in> {wFrom..<wTo}"
  shows "\<exists>b \<in> insert a (slots wFrom wTo interval a). b \<le> t \<and> t < b + interval"
proof -
  define k where "k = (t - a) div interval"
  define b where "b = a + k * interval"
  have "0 \<le> k" unfolding k_def using assms by (simp add: pos_imp_zdiv_nonneg_iff)
  have m: "(t - a) mod interval = (t - a) - k * interval" unfolding k_def by (simp add: minus_div_mult_eq_mod)
  have "b \<le> t" "t < b + interval" using pos_mod_sign [OF assms(1), of "t - a"] pos_mod_bound [OF assms(1), of "t - a"] m
    by (simp_all add: b_def)
  moreover have "b \<in> insert a (slots wFrom wTo interval a)"
  proof (cases "wFrom \<le> b")
    case True
    hence "b \<in> slots wFrom wTo interval a" using \<open>0 \<le> k\<close> \<open>b \<le> t\<close> assms(4) unfolding slots_def b_def
      by (auto intro!: exI [of _ "nat k"])
    thus ?thesis by blast
  next
    case False
    hence "k * interval < interval" using assms(3) by (simp add: b_def)
    hence "k = 0" using \<open>0 \<le> k\<close> assms(1) by (simp add: mult_less_cancel_right2)
    thus ?thesis by (simp add: b_def)
  qed
  ultimately show ?thesis by blast
qed

text \<open>Claim C32. The completeness check of the promotion gate is exact.  For a positive interval it returns, and its answer
  is that the bars in the window are exactly the slots of the grid that runs through the last bar at or before
  the left edge, whose own interval contains that edge; when it answers yes, every instant of the window lies
  in the interval of a bar, so a gap at either edge or inside the window is always refused.\<close>
theorem covers_window:
  assumes "0 < interval" "distinct bars"
  shows "\<exists>r. symbolCoversWindow bars wFrom wTo interval = Some r
    \<and> (r \<longleftrightarrow> (\<exists>a \<in> set bars. a \<le> wFrom \<and> wFrom < a + interval \<and> (\<forall>b \<in> set bars. b \<le> wFrom \<longrightarrow> b \<le> a)
         \<and> {b \<in> set bars. wFrom \<le> b \<and> b < wTo} = slots wFrom wTo interval a))
    \<and> (r \<longrightarrow> (\<forall>t \<in> {wFrom..<wTo}. \<exists>b \<in> set bars. b \<le> t \<and> t < b + interval))"
proof -
  let ?W = "{b \<in> set bars. wFrom \<le> b \<and> b < wTo}"
  have l: "length [ts \<leftarrow> bars. wFrom \<le> ts \<and> ts < wTo] = card ?W"
    using distinct_card [of "[ts \<leftarrow> bars. wFrom \<le> ts \<and> ts < wTo]"] assms(2) by simp
  have sub: "slots wFrom wTo interval a \<subseteq> set bars \<and> card ?W = card (slots wFrom wTo interval a) \<longleftrightarrow> ?W = slots wFrom wTo interval a" for a
  proof
    assume c: "slots wFrom wTo interval a \<subseteq> set bars \<and> card ?W = card (slots wFrom wTo interval a)"
    hence "slots wFrom wTo interval a \<subseteq> ?W" by (auto simp: slots_def)
    from card_subset_eq [OF _ this] c show "?W = slots wFrom wTo interval a" by simp
  next
    assume e: "?W = slots wFrom wTo interval a"
    have "?W \<subseteq> set bars" by blast
    thus "slots wFrom wTo interval a \<subseteq> set bars \<and> card ?W = card (slots wFrom wTo interval a)" unfolding e by simp
  qed
  show ?thesis
  proof (cases "anchorBar bars wFrom interval")
    case None
    hence "symbolCoversWindow bars wFrom wTo interval = Some False" by (simp add: symbolCoversWindow_def)
    moreover have "\<not> (\<exists>a \<in> set bars. a \<le> wFrom \<and> wFrom < a + interval \<and> (\<forall>b \<in> set bars. b \<le> wFrom \<longrightarrow> b \<le> a))"
      using anchorBar_iff [of bars wFrom interval] None by auto
    ultimately show ?thesis by blast
  next
    case (Some a)
    define r where "r \<longleftrightarrow> ?W = slots wFrom wTo interval a"
    have a: "a \<in> set bars" "a \<le> wFrom" "wFrom < a + interval" "\<forall>b \<in> set bars. b \<le> wFrom \<longrightarrow> b \<le> a"
      using anchorBar_iff Some by blast+
    have "symbolCoversWindow bars wFrom wTo interval = Some r"
      using sub [of a] by (simp add: symbolCoversWindow_def Some gridWalk_slots [OF assms(1)] l r_def) blast
    moreover have "r \<longleftrightarrow> (\<exists>a \<in> set bars. a \<le> wFrom \<and> wFrom < a + interval \<and> (\<forall>b \<in> set bars. b \<le> wFrom \<longrightarrow> b \<le> a)
         \<and> ?W = slots wFrom wTo interval a)"
    proof -
      have "a' = a" if "a' \<in> set bars" "a' \<le> wFrom" "\<forall>b \<in> set bars. b \<le> wFrom \<longrightarrow> b \<le> a'" for a'
        using that a by (meson order_antisym)
      thus ?thesis using a unfolding r_def by blast
    qed
    moreover have "\<exists>b \<in> set bars. b \<le> t \<and> t < b + interval" if r "t \<in> {wFrom..<wTo}" for t
    proof -
      have "insert a (slots wFrom wTo interval a) \<subseteq> set bars" using \<open>r\<close> a(1) unfolding r_def by blast
      thus ?thesis using slots_cover [OF assms(1) a(2,3) that(2)] by blast
    qed
    ultimately show ?thesis by blast
  qed
qed

theorem covers_window_witness:
  "symbolCoversWindow [0, 10, 20, 30] 12 40 10 = Some True \<and> symbolCoversWindow [0, 10, 30] 12 40 10 = Some False"
proof -
  have "symbolCoversWindow [0, 10, 20, 30] 12 40 10 = Some True" by code_simp
  moreover have "(0 :: int) < 10" "distinct [0, 10, 30 :: int]" by simp_all
  from covers_window [OF this, of 12 40] obtain r where "symbolCoversWindow [0, 10, 30] 12 40 10 = Some r"
      "r \<longrightarrow> (\<forall>t \<in> {12..<40 :: int}. \<exists>b \<in> set [0, 10, 30]. b \<le> t \<and> t < b + 10)"
    by (elim exE conjE) (rule that)
  moreover have "\<not> (\<forall>t \<in> {12..<40 :: int}. \<exists>b \<in> set [0, 10, 30]. b \<le> t \<and> t < b + 10)"
  proof
    assume h: "\<forall>t \<in> {12..<40 :: int}. \<exists>b \<in> set [0, 10, 30]. b \<le> t \<and> t < b + 10"
    have "(20 :: int) \<in> {12..<40}" by simp
    from bspec [OF h this] show False by simp
  qed
  ultimately show ?thesis by (cases r) (simp_all only: simp_thms)
qed

end
