(* ===== verification/Attempt_Ledger.thy ===== *)
theory Attempt_Ledger
  imports Prelude
begin

text \<open>
  The promotion attempt ledger, in memory (\<open>apps/backtester/src/jobs/promotion/attempt-ledger.ts\<close>) and in Postgres
  (\<open>pg-attempt-ledger.ts\<close>, tables of migration 0009): attempts are numbered per epoch, and a replay keeps its
  number.  The abstract ledger keeps, for each epoch, the identities in order of first arrival; the number of
  an attempt is its position.  A Postgres call is one transaction that holds the epoch's counter row locked from
  its read to its commit; calls of several clients interleave at those two points.
\<close>

record promotion_attempt =
  pa_qualificationEpochKey :: string
  pa_attemptIdentity :: string
  pa_requestFingerprint :: string
  pa_datasetFingerprint :: string
  pa_runId :: string
  pa_resultHash :: string
  pa_passed :: bool
  pa_createdAtMs :: ms

type_synonym attempt_answer = "nat \<times> bool"

subsection \<open>The ledgers\<close>

record mem_attempts =
  ma_next :: "nat js_map"
  ma_attempts :: "nat js_map"

definition emptyAttempts :: mem_attempts where
  "emptyAttempts = \<lparr>ma_next = [], ma_attempts = []\<rparr>"

definition attemptKey :: "string \<Rightarrow> string \<Rightarrow> string" where
  "attemptKey epochKey identity = epochKey @ [CHR 0x00] @ identity"

definition ma_recordIfNewAndGetAttempt :: "promotion_attempt \<Rightarrow> mem_attempts \<Rightarrow> attempt_answer \<times> mem_attempts" where
  "ma_recordIfNewAndGetAttempt r st =
     (let key = attemptKey (pa_qualificationEpochKey r) (pa_attemptIdentity r)
      in case js_get (ma_attempts st) key of
           Some existing \<Rightarrow> ((existing, False), st)
         | None \<Rightarrow>
             (let n = orElse (js_get (ma_next st) (pa_qualificationEpochKey r)) 1
              in ((n, True), st\<lparr>ma_attempts := js_set key n (ma_attempts st),
                   ma_next := js_set (pa_qualificationEpochKey r) (n + 1) (ma_next st)\<rparr>)))"

record attempt_row =
  ar_attempt :: promotion_attempt
  ar_number :: nat

record promotion_db =
  backtest_promotion_epoch :: "(string \<times> nat) list"
  backtest_promotion_attempt :: "attempt_row list"

definition emptyPromotion :: promotion_db where
  "emptyPromotion = \<lparr>backtest_promotion_epoch = [], backtest_promotion_attempt = []\<rparr>"

text \<open>The statements of the transaction: the counter row is created if it is missing, then read under its lock; the
  replay check, the insert and the update follow under the lock.\<close>

definition ensureEpoch :: "string \<Rightarrow> promotion_db \<Rightarrow> promotion_db" where
  "ensureEpoch e db = (if map_of (backtest_promotion_epoch db) e = None
     then db\<lparr>backtest_promotion_epoch := backtest_promotion_epoch db @ [(e, 1)]\<rparr> else db)"

definition lockedNext :: "string \<Rightarrow> promotion_db \<Rightarrow> nat" where
  "lockedNext e db = the (map_of (backtest_promotion_epoch db) e)"

definition storedAttempt :: "string \<Rightarrow> string \<Rightarrow> promotion_db \<Rightarrow> nat option" where
  "storedAttempt e i db = map_option ar_number
     (find (\<lambda>a. pa_qualificationEpochKey (ar_attempt a) = e \<and> pa_attemptIdentity (ar_attempt a) = i) (backtest_promotion_attempt db))"

definition attemptUnderLock :: "promotion_attempt \<Rightarrow> nat \<Rightarrow> promotion_db \<Rightarrow> attempt_answer \<times> promotion_db" where
  "attemptUnderLock r n db =
     (case storedAttempt (pa_qualificationEpochKey r) (pa_attemptIdentity r) db of
        Some k \<Rightarrow> ((k, False), db)
      | None \<Rightarrow> ((n, True), db\<lparr>
          backtest_promotion_attempt := backtest_promotion_attempt db @ [\<lparr>ar_attempt = r, ar_number = n\<rparr>],
          backtest_promotion_epoch := map (\<lambda>row. if fst row = pa_qualificationEpochKey r then (fst row, n + 1) else row)
            (backtest_promotion_epoch db)\<rparr>))"

text \<open>A query that fails rolls the transaction back and the call throws.\<close>

definition pg_recordIfNewAndGetAttempt :: "bool \<Rightarrow> promotion_attempt \<Rightarrow> promotion_db \<Rightarrow> (unit + attempt_answer) \<times> promotion_db" where
  "pg_recordIfNewAndGetAttempt fault r db =
     (if fault then (Inl (), db)
      else let db1 = ensureEpoch (pa_qualificationEpochKey r) db; n = lockedNext (pa_qualificationEpochKey r) db1
           in apfst Inr (attemptUnderLock r n db1))"

subsection \<open>The abstract ledger\<close>

fun position :: "string list \<Rightarrow> string \<Rightarrow> nat option" where
  "position [] i = None"
| "position (x # xs) i = (if x = i then Some 1 else map_option Suc (position xs i))"

type_synonym arrivals = "string \<Rightarrow> string list"

definition recordArrival :: "string \<Rightarrow> string \<Rightarrow> arrivals \<Rightarrow> attempt_answer \<times> arrivals" where
  "recordArrival e i L = (case position (L e) i of
      Some n \<Rightarrow> ((n, False), L)
    | None \<Rightarrow> ((length (L e) + 1, True), L(e := L e @ [i])))"

lemma position_snoc: "position (xs @ [x]) i = (case position xs i of Some n \<Rightarrow> Some n | None \<Rightarrow> if x = i then Some (length xs + 1) else None)"
  by (induction xs) (auto split: option.split)

lemma position_None: "position xs i = None \<longleftrightarrow> i \<notin> set xs"
  by (induction xs) auto

lemma position_Some: "position xs i = Some n \<Longrightarrow> 1 \<le> n \<and> n \<le> length xs \<and> xs ! (n - 1) = i"
  by (induction xs arbitrary: n) (auto split: if_splits simp: nth_Cons split: nat.split)

lemma position_nth: "distinct xs \<Longrightarrow> k < length xs \<Longrightarrow> position xs (xs ! k) = Some (k + 1)"
  by (induction xs arbitrary: k) (auto simp: nth_Cons split: nat.split)

subsection \<open>What a ledger promises\<close>

locale attempt_ledger_contract =
  fixes rec :: "promotion_attempt \<Rightarrow> 's \<Rightarrow> attempt_answer \<times> 's"
    and view :: "'s \<Rightarrow> arrivals \<Rightarrow> bool"
    and okEpoch :: "string \<Rightarrow> bool"
  assumes rec_step: "view st L \<Longrightarrow> okEpoch (pa_qualificationEpochKey r) \<Longrightarrow>
      fst (rec r st) = fst (recordArrival (pa_qualificationEpochKey r) (pa_attemptIdentity r) L)
      \<and> view (snd (rec r st)) (snd (recordArrival (pa_qualificationEpochKey r) (pa_attemptIdentity r) L))"

text \<open>The answers of a sequence of calls, to a ledger and to the specification.\<close>

primrec runAttempts :: "(promotion_attempt \<Rightarrow> 's \<Rightarrow> attempt_answer \<times> 's) \<Rightarrow> promotion_attempt list \<Rightarrow> 's \<Rightarrow> attempt_answer list" where
  "runAttempts rec [] st = []"
| "runAttempts rec (r # rs) st = fst (rec r st) # runAttempts rec rs (snd (rec r st))"

primrec arrivalAnswers :: "promotion_attempt list \<Rightarrow> arrivals \<Rightarrow> attempt_answer list" where
  "arrivalAnswers [] L = []"
| "arrivalAnswers (r # rs) L = (let (a, L') = recordArrival (pa_qualificationEpochKey r) (pa_attemptIdentity r) L in a # arrivalAnswers rs L')"

context attempt_ledger_contract
begin

lemma runAttempts_refines:
  assumes "view st L" "\<forall>r \<in> set rs. okEpoch (pa_qualificationEpochKey r)"
  shows "runAttempts rec rs st = arrivalAnswers rs L"
  using assms
proof (induction rs arbitrary: st L)
  case (Cons r rs)
  from rec_step [OF Cons.prems(1), of r] Cons.prems(2)
  have s: "fst (rec r st) = fst (recordArrival (pa_qualificationEpochKey r) (pa_attemptIdentity r) L)"
      "view (snd (rec r st)) (snd (recordArrival (pa_qualificationEpochKey r) (pa_attemptIdentity r) L))" by simp_all
  from Cons.IH [OF s(2)] Cons.prems(2) s(1) show ?case by (simp add: case_prod_beta Let_def)
qed simp

end

subsection \<open>In memory\<close>

definition ma_view :: "mem_attempts \<Rightarrow> arrivals \<Rightarrow> bool" where
  "ma_view st L \<longleftrightarrow> (\<forall>e. CHR 0x00 \<notin> set e \<longrightarrow>
     orElse (js_get (ma_next st) e) 1 = length (L e) + 1 \<and> (\<forall>i. js_get (ma_attempts st) (attemptKey e i) = position (L e) i))"

lemma attemptKey_inj:
  assumes "CHR 0x00 \<notin> set e" "CHR 0x00 \<notin> set e'"
  shows "attemptKey e i = attemptKey e' i' \<longleftrightarrow> e = e' \<and> i = i'"
proof -
  have "takeWhile (\<lambda>c. c \<noteq> CHR 0x00) (attemptKey e i) = e" if "CHR 0x00 \<notin> set e" for e i
    unfolding attemptKey_def using that by (subst takeWhile_append2) auto
  thus ?thesis using assms by (metis attemptKey_def append_same_eq append.assoc same_append_eq)
qed

interpretation mem_ledger: attempt_ledger_contract ma_recordIfNewAndGetAttempt ma_view "\<lambda>e. CHR 0x00 \<notin> set e"
proof (unfold_locales, goal_cases)
  case (1 st L r)
  let ?e = "pa_qualificationEpochKey r" and ?i = "pa_attemptIdentity r"
  have v: "orElse (js_get (ma_next st) ?e) 1 = length (L ?e) + 1" "js_get (ma_attempts st) (attemptKey ?e ?i) = position (L ?e) ?i"
    using 1 by (simp_all add: ma_view_def)
  show ?case
  proof (cases "position (L ?e) ?i")
    case (Some n)
    thus ?thesis using v 1(1) by (simp add: ma_recordIfNewAndGetAttempt_def recordArrival_def)
  next
    case None
    have "ma_view (st\<lparr>ma_attempts := js_set (attemptKey ?e ?i) (length (L ?e) + 1) (ma_attempts st),
        ma_next := js_set ?e (length (L ?e) + 1 + 1) (ma_next st)\<rparr>) (L(?e := L ?e @ [?i]))"
      unfolding ma_view_def
    proof (intro allI impI)
      fix e assume e: "CHR 0x00 \<notin> set e"
      show "orElse (js_get (ma_next (st\<lparr>ma_attempts := js_set (attemptKey ?e ?i) (length (L ?e) + 1) (ma_attempts st),
          ma_next := js_set ?e (length (L ?e) + 1 + 1) (ma_next st)\<rparr>)) e) 1 = length ((L(?e := L ?e @ [?i])) e) + 1
        \<and> (\<forall>i. js_get (ma_attempts (st\<lparr>ma_attempts := js_set (attemptKey ?e ?i) (length (L ?e) + 1) (ma_attempts st),
          ma_next := js_set ?e (length (L ?e) + 1 + 1) (ma_next st)\<rparr>)) (attemptKey e i) = position ((L(?e := L ?e @ [?i])) e) i)"
        using 1 e None by (auto simp: ma_view_def attemptKey_inj position_snoc orElse_def split: option.split)
    qed
    thus ?thesis using v None by (simp add: ma_recordIfNewAndGetAttempt_def recordArrival_def)
  qed
qed

subsection \<open>In Postgres\<close>

definition nextAttempt :: "promotion_db \<Rightarrow> string \<Rightarrow> nat" where
  "nextAttempt db e = orElse (map_of (backtest_promotion_epoch db) e) 1"

definition pg_view :: "promotion_db \<Rightarrow> arrivals \<Rightarrow> bool" where
  "pg_view db L \<longleftrightarrow> (\<forall>e. nextAttempt db e = length (L e) + 1 \<and> (\<forall>i. storedAttempt e i db = position (L e) i))"

lemma ensureEpoch_next: "nextAttempt (ensureEpoch e db) e' = nextAttempt db e'"
  "storedAttempt e' i (ensureEpoch e db) = storedAttempt e' i db" "lockedNext e (ensureEpoch e db) = nextAttempt db e"
  "map_of (backtest_promotion_epoch (ensureEpoch e db)) e \<noteq> None"
  by (auto simp: ensureEpoch_def nextAttempt_def storedAttempt_def lockedNext_def orElse_def map_add_def split: option.splits)

lemma ensureEpoch_view: "pg_view db L \<Longrightarrow> pg_view (ensureEpoch e db) L \<and> lockedNext e (ensureEpoch e db) = length (L e) + 1"
  by (simp add: pg_view_def ensureEpoch_next)

lemma map_of_bump: "map_of (map (\<lambda>row. if fst row = e then (fst row, n) else row) t) e' =
    (if e' = e then map_option (\<lambda>_. n) (map_of t e) else map_of t e')"
  by (induction t) auto

lemma attemptUnderLock_view:
  assumes "pg_view db L" "map_of (backtest_promotion_epoch db) (pa_qualificationEpochKey r) \<noteq> None"
    and "n = length (L (pa_qualificationEpochKey r)) + 1"
  shows "fst (attemptUnderLock r n db) = fst (recordArrival (pa_qualificationEpochKey r) (pa_attemptIdentity r) L)
    \<and> pg_view (snd (attemptUnderLock r n db)) (snd (recordArrival (pa_qualificationEpochKey r) (pa_attemptIdentity r) L))"
proof -
  let ?e = "pa_qualificationEpochKey r" and ?i = "pa_attemptIdentity r"
  have s: "storedAttempt ?e ?i db = position (L ?e) ?i" using assms(1) by (simp add: pg_view_def)
  show ?thesis
  proof (cases "position (L ?e) ?i")
    case (Some k)
    thus ?thesis using s assms(1) by (simp add: attemptUnderLock_def recordArrival_def)
  next
    case None
    let ?db = "db\<lparr>backtest_promotion_attempt := backtest_promotion_attempt db @ [\<lparr>ar_attempt = r, ar_number = n\<rparr>],
       backtest_promotion_epoch := map (\<lambda>row. if fst row = ?e then (fst row, n + 1) else row) (backtest_promotion_epoch db)\<rparr>"
    have st: "storedAttempt e i ?db = (case storedAttempt e i db of Some k \<Rightarrow> Some k | None \<Rightarrow> if ?e = e \<and> ?i = i then Some n else None)" for e i
      by (simp add: storedAttempt_def find_snoc split: option.split)
    have "pg_view ?db (L(?e := L ?e @ [?i]))"
      unfolding pg_view_def
    proof (intro allI conjI)
      fix e i
      have "nextAttempt ?db e = (if e = ?e then n + 1 else nextAttempt db e)"
        using assms(2) by (auto simp: nextAttempt_def map_of_bump orElse_def)
      thus "nextAttempt ?db e = length ((L(?e := L ?e @ [?i])) e) + 1" using assms(1,3) by (simp add: pg_view_def)
      show "storedAttempt e i ?db = position ((L(?e := L ?e @ [?i])) e) i"
        unfolding st using assms(1,3) by (auto simp: pg_view_def position_snoc split: option.split)
    qed
    moreover have "attemptUnderLock r n db = ((n, True), ?db)" using s None by (simp add: attemptUnderLock_def)
    moreover have "recordArrival ?e ?i L = ((n, True), L(?e := L ?e @ [?i]))" using None assms(3) by (simp add: recordArrival_def)
    ultimately show ?thesis by simp
  qed
qed

definition pg_attempt :: "promotion_attempt \<Rightarrow> promotion_db \<Rightarrow> attempt_answer \<times> promotion_db" where
  "pg_attempt r db = apfst projr (pg_recordIfNewAndGetAttempt False r db)"

interpretation pg_ledger: attempt_ledger_contract pg_attempt pg_view "\<lambda>_. True"
proof (unfold_locales, goal_cases)
  case (1 st L r)
  let ?e = "pa_qualificationEpochKey r"
  from attemptUnderLock_view [OF conjunct1 [OF ensureEpoch_view [OF 1(1)]] ensureEpoch_next(4) conjunct2 [OF ensureEpoch_view [OF 1(1)]]]
  show ?case by (simp add: pg_attempt_def pg_recordIfNewAndGetAttempt_def Let_def apfst_def map_prod_def case_prod_beta)
qed

subsection \<open>Concurrent transactions\<close>

text \<open>Client \<open>c\<close> makes the call \<open>calls c\<close>.  It has begun, holds the lock on the counter row of its epoch with the value it
  read, has its answer, or was rolled back.  What it wrote becomes visible when it commits; until then no other
  client gets the lock on the same row.\<close>

datatype attempt_pc = Begun | Holding nat | Answered attempt_answer | Rolled_back

record attempt_state =
  as_db :: promotion_db
  as_pc :: "nat \<Rightarrow> attempt_pc"

inductive attempt_txn :: "(nat \<Rightarrow> promotion_attempt) \<Rightarrow> attempt_state \<Rightarrow> attempt_state \<Rightarrow> bool" for calls where
  lock: "as_pc st c = Begun \<Longrightarrow>
     (\<forall>d n. as_pc st d = Holding n \<longrightarrow> pa_qualificationEpochKey (calls d) \<noteq> pa_qualificationEpochKey (calls c)) \<Longrightarrow>
     attempt_txn calls st (st\<lparr>as_pc := (as_pc st)(c := Holding
       (lockedNext (pa_qualificationEpochKey (calls c)) (ensureEpoch (pa_qualificationEpochKey (calls c)) (as_db st))))\<rparr>)"
| commit: "as_pc st c = Holding n \<Longrightarrow>
     attemptUnderLock (calls c) n (ensureEpoch (pa_qualificationEpochKey (calls c)) (as_db st)) = (a, db) \<Longrightarrow>
     attempt_txn calls st (st\<lparr>as_db := db, as_pc := (as_pc st)(c := Answered a)\<rparr>)"
| rollback: "as_pc st c = Begun \<or> as_pc st c = Holding n \<Longrightarrow>
     attempt_txn calls st (st\<lparr>as_pc := (as_pc st)(c := Rolled_back)\<rparr>)"

inductive_cases attempt_txnE: "attempt_txn calls st st'"

definition noAttempts :: attempt_state where
  "noAttempts = \<lparr>as_db = emptyPromotion, as_pc = (\<lambda>_. Begun)\<rparr>"

text \<open>The invariant: the tables hold arrival lists without repetition, a lock holder knows the current counter and is the
  only one of its epoch, every answer is the position of its identity, and an identity is inserted once.\<close>

definition attempt_inv :: "(nat \<Rightarrow> promotion_attempt) \<Rightarrow> attempt_state \<Rightarrow> arrivals \<Rightarrow> bool" where
  "attempt_inv calls st L \<longleftrightarrow> pg_view (as_db st) L \<and> (\<forall>e. distinct (L e))
     \<and> (\<forall>c n. as_pc st c = Holding n \<longrightarrow> n = length (L (pa_qualificationEpochKey (calls c))) + 1)
     \<and> (\<forall>c d m n. as_pc st c = Holding m \<longrightarrow> as_pc st d = Holding n \<longrightarrow>
          pa_qualificationEpochKey (calls c) = pa_qualificationEpochKey (calls d) \<longrightarrow> c = d)
     \<and> (\<forall>c n b. as_pc st c = Answered (n, b) \<longrightarrow>
          position (L (pa_qualificationEpochKey (calls c))) (pa_attemptIdentity (calls c)) = Some n)
     \<and> (\<forall>c d m n. as_pc st c = Answered (m, True) \<longrightarrow> as_pc st d = Answered (n, True) \<longrightarrow>
          pa_qualificationEpochKey (calls c) = pa_qualificationEpochKey (calls d) \<longrightarrow>
          pa_attemptIdentity (calls c) = pa_attemptIdentity (calls d) \<longrightarrow> c = d)"

lemma attempt_inv_lock:
  assumes inv: "attempt_inv calls st L" and "as_pc st c = Begun"
    and free: "\<forall>d n. as_pc st d = Holding n \<longrightarrow> pa_qualificationEpochKey (calls d) \<noteq> pa_qualificationEpochKey (calls c)"
  shows "attempt_inv calls (st\<lparr>as_pc := (as_pc st)(c := Holding
       (lockedNext (pa_qualificationEpochKey (calls c)) (ensureEpoch (pa_qualificationEpochKey (calls c)) (as_db st))))\<rparr>) L"
proof -
  have n: "lockedNext e (ensureEpoch e (as_db st)) = length (L e) + 1" for e
    using inv ensureEpoch_view [of "as_db st" L e] by (simp add: attempt_inv_def)
  show ?thesis using inv free unfolding attempt_inv_def n
    by (intro conjI allI impI) (auto split: if_splits)
qed

lemma attempt_inv_rollback:
  assumes inv: "attempt_inv calls st L" shows "attempt_inv calls (st\<lparr>as_pc := (as_pc st)(c := Rolled_back)\<rparr>) L"
  using assms unfolding attempt_inv_def by simp

lemma recordArrival_facts:
  assumes "recordArrival e i L = ((n, b), L')" "distinct (L e)"
  shows "position (L' e) i = Some n" "distinct (L' e)" "\<And>e'. e' \<noteq> e \<Longrightarrow> L' e' = L e'"
    "\<And>j m. position (L e) j = Some m \<Longrightarrow> position (L' e) j = Some m" "b \<longleftrightarrow> i \<notin> set (L e)"
  using assms by (auto simp: recordArrival_def position_snoc position_None split: option.splits) (metis option.distinct(1) position_None)+

lemma attempt_inv_commit:
  assumes inv: "attempt_inv calls st L" and c: "as_pc st c = Holding n"
    and step: "attemptUnderLock (calls c) n (ensureEpoch (pa_qualificationEpochKey (calls c)) (as_db st)) = (a, db)"
  shows "\<exists>L'. attempt_inv calls (st\<lparr>as_db := db, as_pc := (as_pc st)(c := Answered a)\<rparr>) L'"
proof -
  let ?e = "pa_qualificationEpochKey (calls c)" and ?i = "pa_attemptIdentity (calls c)"
  obtain k b L' where r: "recordArrival ?e ?i L = ((k, b), L')" by (metis surj_pair)
  have v: "pg_view (ensureEpoch ?e (as_db st)) L" using inv ensureEpoch_view by (simp add: attempt_inv_def)
  have n: "n = length (L ?e) + 1" and d: "distinct (L ?e)" "\<And>e. distinct (L e)" using inv c by (simp_all add: attempt_inv_def)
  have a: "a = (k, b)" and db: "pg_view db L'" using attemptUnderLock_view [OF v ensureEpoch_next(4) n] step r by simp_all
  note f = recordArrival_facts [OF r d(1)]
  have keep: "position (L' e) j = Some m" if "position (L e) j = Some m" for e j m
    using that f(3,4) by (cases "e = ?e") auto
  have dist: "distinct (L' e)" for e using f(2,3) d(2) by (cases "e = ?e") auto
  have hold: "m = length (L' (pa_qualificationEpochKey (calls x))) + 1" if "x \<noteq> c" "as_pc st x = Holding m" for x m
  proof -
    have "pa_qualificationEpochKey (calls x) \<noteq> ?e" using inv that c unfolding attempt_inv_def by blast
    thus ?thesis using inv that f(3) by (simp add: attempt_inv_def)
  qed
  have known: "?i \<in> set (L ?e)" if "as_pc st x = Answered (m, True)" "pa_qualificationEpochKey (calls x) = ?e"
      "pa_attemptIdentity (calls x) = ?i" for x m
    using inv that position_None unfolding attempt_inv_def by (metis option.distinct(1))
  have "attempt_inv calls (st\<lparr>as_db := db, as_pc := (as_pc st)(c := Answered a)\<rparr>) L'"
    unfolding attempt_inv_def a
  proof (intro conjI allI impI, goal_cases)
    case (3 x m)
    thus ?case using hold [of x m] by (simp split: if_splits)
  next
    case (4 x y l m)
    thus ?case using inv by (simp add: attempt_inv_def split: if_splits)
  next
    case (5 x m b')
    thus ?case using f(1) keep inv by (auto simp: attempt_inv_def split: if_splits)
  next
    case (6 x y l m)
    show ?case
    proof (cases "x = c \<or> y = c")
      case False
      thus ?thesis using 6 inv by (simp add: attempt_inv_def)
    next
      case True
      show ?thesis
      proof (rule ccontr)
        assume "x \<noteq> y"
        then obtain z q where "b" "z \<noteq> c" "as_pc st z = Answered (q, True)" "pa_qualificationEpochKey (calls z) = ?e"
            "pa_attemptIdentity (calls z) = ?i" 
        proof (cases "x = c")
          case True
          hence "y \<noteq> c" using \<open>x \<noteq> y\<close> by blast
          show thesis by (rule that [of y m]) (use 6 True \<open>y \<noteq> c\<close> in simp_all)
        next
          case False
          hence "y = c" using \<open>x = c \<or> y = c\<close> by blast
          show thesis by (rule that [of x l]) (use 6 False \<open>y = c\<close> in simp_all)
        qed
        thus False using known f(5) by blast
      qed
    qed
  qed (use db dist in simp_all)
  thus ?thesis by blast
qed

lemma attempt_inv_answer:
  "attempt_inv calls st L \<Longrightarrow> as_pc st c = Answered (n, b) \<Longrightarrow>
    position (L (pa_qualificationEpochKey (calls c))) (pa_attemptIdentity (calls c)) = Some n"
  unfolding attempt_inv_def by blast

lemma attempt_inv_once:
  "attempt_inv calls st L \<Longrightarrow> as_pc st c = Answered (m, True) \<Longrightarrow> as_pc st d = Answered (n, True) \<Longrightarrow>
    pa_qualificationEpochKey (calls c) = pa_qualificationEpochKey (calls d) \<Longrightarrow>
    pa_attemptIdentity (calls c) = pa_attemptIdentity (calls d) \<Longrightarrow> c = d"
  unfolding attempt_inv_def by blast

lemma attempt_inv_reachable:
  assumes "(attempt_txn calls)\<^sup>*\<^sup>* noAttempts st" shows "\<exists>L. attempt_inv calls st L"
  using assms
proof (induction rule: rtranclp_induct)
  case base
  have "attempt_inv calls noAttempts (\<lambda>_. [])"
    by (simp add: attempt_inv_def noAttempts_def pg_view_def emptyPromotion_def nextAttempt_def storedAttempt_def)
  thus ?case by blast
next
  case (step st st')
  then obtain L where inv: "attempt_inv calls st L" by blast
  from step(2) show ?case
  proof (cases rule: attempt_txn.cases)
    case (lock c)
    thus ?thesis using attempt_inv_lock [OF inv] by blast
  next
    case (commit c n a db)
    thus ?thesis using attempt_inv_commit [OF inv] by blast
  next
    case (rollback c n)
    thus ?thesis using attempt_inv_rollback [OF inv] by blast
  qed
qed

subsection \<open>Properties\<close>

text \<open>Note. The two attempt ledgers refine one specification: on every sequence of calls, from empty, both answer what
  the lists of identities in order of first arrival answer, the position of the attempt's identity in its epoch
  and whether it is new.\<close>
theorem attempt_ledgers_refine:
  assumes "\<forall>r \<in> set rs. CHR 0x00 \<notin> set (pa_qualificationEpochKey r)"
  shows "runAttempts ma_recordIfNewAndGetAttempt rs emptyAttempts = arrivalAnswers rs (\<lambda>_. [])
    \<and> runAttempts pg_attempt rs emptyPromotion = arrivalAnswers rs (\<lambda>_. [])"
proof
  have "ma_view emptyAttempts (\<lambda>_. [])" by (simp add: ma_view_def emptyAttempts_def)
  thus "runAttempts ma_recordIfNewAndGetAttempt rs emptyAttempts = arrivalAnswers rs (\<lambda>_. [])"
    using mem_ledger.runAttempts_refines assms by blast
  have "pg_view emptyPromotion (\<lambda>_. [])" by (simp add: pg_view_def emptyPromotion_def nextAttempt_def storedAttempt_def)
  thus "runAttempts pg_attempt rs emptyPromotion = arrivalAnswers rs (\<lambda>_. [])"
    using pg_ledger.runAttempts_refines by blast
qed

text \<open>Claim C31. Concurrent promotion attempts never share or skip a number.  However the transactions of any number of
  clients interleave and whichever of them fail, two clients of one epoch hold the same number exactly when
  they made the same attempt, at most one of those was told it is new, and below every number handed out each
  number of the epoch belongs to a stored attempt.\<close>
theorem attempts_concurrent:
  assumes "(attempt_txn calls)\<^sup>*\<^sup>* noAttempts st" "as_pc st c = Answered (m, b)" "as_pc st d = Answered (n, b')"
    and "pa_qualificationEpochKey (calls c) = e" "pa_qualificationEpochKey (calls d) = e"
  shows "(m = n \<longleftrightarrow> pa_attemptIdentity (calls c) = pa_attemptIdentity (calls d))
    \<and> (m = n \<and> b \<and> b' \<longrightarrow> c = d)
    \<and> (\<forall>k \<in> {1..m}. \<exists>i. storedAttempt e i (as_db st) = Some k)"
proof -
  obtain L where inv: "attempt_inv calls st L" using attempt_inv_reachable [OF assms(1)] by blast
  have p: "position (L e) (pa_attemptIdentity (calls c)) = Some m" "position (L e) (pa_attemptIdentity (calls d)) = Some n"
    using attempt_inv_answer [OF inv assms(2)] attempt_inv_answer [OF inv assms(3)] assms(4,5) by simp_all
  have eq: "m = n \<longleftrightarrow> pa_attemptIdentity (calls c) = pa_attemptIdentity (calls d)"
    using p position_Some [OF p(1)] position_Some [OF p(2)] by auto
  moreover have "c = d" if "m = n" b b'
    by (rule attempt_inv_once [OF inv]) (use assms(2-5) that eq in simp_all)
  moreover have "\<exists>i. storedAttempt e i (as_db st) = Some k" if "k \<in> {1..m}" for k
  proof -
    have "k - 1 < length (L e)" using that position_Some [OF p(1)] by auto
    from position_nth [OF _ this] have "position (L e) (L e ! (k - 1)) = Some k" using inv that by (simp add: attempt_inv_def)
    thus ?thesis using inv by (auto simp: attempt_inv_def pg_view_def)
  qed
  ultimately show ?thesis by blast
qed

definition sampleAttempt :: "string \<Rightarrow> promotion_attempt" where
  "sampleAttempt i = \<lparr>pa_qualificationEpochKey = ''e'', pa_attemptIdentity = i, pa_requestFingerprint = ''f'',
     pa_datasetFingerprint = ''d'', pa_runId = ''r'', pa_resultHash = ''h'', pa_passed = True, pa_createdAtMs = 0\<rparr>"

theorem attempt_ledgers_refine_witness:
  "runAttempts pg_attempt [sampleAttempt ''a'', sampleAttempt ''b'', sampleAttempt ''a''] emptyPromotion = [(1, True), (2, True), (1, False)]"
proof -
  have "\<forall>r \<in> set [sampleAttempt ''a'', sampleAttempt ''b'', sampleAttempt ''a'']. CHR 0x00 \<notin> set (pa_qualificationEpochKey r)" by code_simp
  from attempt_ledgers_refine [OF this]
  show ?thesis by (simp add: recordArrival_def sampleAttempt_def)
qed

text \<open>Two clients of one epoch, one after the other.\<close>

definition sampleCalls :: "nat \<Rightarrow> promotion_attempt" where
  "sampleCalls c = sampleAttempt (if c = 0 then ''a'' else ''b'')"

theorem attempts_concurrent_witness:
  "\<exists>st. (attempt_txn sampleCalls)\<^sup>*\<^sup>* noAttempts st \<and> as_pc st 0 = Answered (1, True) \<and> as_pc st 1 = Answered (2, True)
     \<and> pa_attemptIdentity (sampleCalls 0) \<noteq> pa_attemptIdentity (sampleCalls 1) \<and> (\<exists>i. storedAttempt ''e'' i (as_db st) = Some 2)"
proof -
  define w0 where "w0 = noAttempts"
  define w1 where "w1 = w0\<lparr>as_pc := (as_pc w0)(0 := Holding 1)\<rparr>"
  define d1 where "d1 = snd (attemptUnderLock (sampleCalls 0) 1 (ensureEpoch ''e'' emptyPromotion))"
  define w2 where "w2 = w1\<lparr>as_db := d1, as_pc := (as_pc w1)(0 := Answered (1, True))\<rparr>"
  define w3 where "w3 = w2\<lparr>as_pc := (as_pc w2)(1 := Holding 2)\<rparr>"
  define d2 where "d2 = snd (attemptUnderLock (sampleCalls 1) 2 (ensureEpoch ''e'' d1))"
  define w4 where "w4 = w3\<lparr>as_db := d2, as_pc := (as_pc w3)(1 := Answered (2, True))\<rparr>"
  have e: "pa_qualificationEpochKey (sampleCalls c) = ''e''" for c by (simp add: sampleCalls_def sampleAttempt_def)
  have l: "lockedNext ''e'' (ensureEpoch ''e'' emptyPromotion) = 1"
      "lockedNext ''e'' (ensureEpoch ''e'' (snd (attemptUnderLock (sampleCalls 0) 1 (ensureEpoch ''e'' emptyPromotion)))) = 2"
      "fst (attemptUnderLock (sampleCalls 0) 1 (ensureEpoch ''e'' emptyPromotion)) = (1, True)"
      "fst (attemptUnderLock (sampleCalls 1) 2 (ensureEpoch ''e''
         (snd (attemptUnderLock (sampleCalls 0) 1 (ensureEpoch ''e'' emptyPromotion))))) = (2, True)" by code_simp+
  have db: "as_db w0 = emptyPromotion" "as_db w1 = emptyPromotion" "as_db w2 = d1" "as_db w3 = d1"
    by (simp_all add: w0_def w1_def w2_def w3_def noAttempts_def)
  have pc: "as_pc w0 = (\<lambda>_. Begun)" by (simp add: w0_def noAttempts_def)
  have "attempt_txn sampleCalls w0 w1"
    using attempt_txn.lock [of w0 0 sampleCalls] l(1) unfolding w1_def e db by (simp add: pc)
  moreover have "attempt_txn sampleCalls w1 w2"
    unfolding w2_def by (rule attempt_txn.commit [of _ _ 1]) (use l(3) in \<open>simp_all add: w1_def d1_def e db prod_eq_iff noAttempts_def w0_def\<close>)
  moreover have "attempt_txn sampleCalls w2 w3"
    using attempt_txn.lock [of w2 1 sampleCalls] l(2) unfolding w3_def e db by (simp add: w2_def w1_def pc d1_def split: if_splits)
  moreover have "attempt_txn sampleCalls w3 w4"
    unfolding w4_def by (rule attempt_txn.commit [of _ _ 2]) (use l(4) in \<open>simp_all add: w3_def d2_def d1_def e db(3) prod_eq_iff\<close>)
  ultimately have r: "(attempt_txn sampleCalls)\<^sup>*\<^sup>* noAttempts w4" unfolding w0_def by (meson rtranclp.rtrancl_into_rtrancl rtranclp.rtrancl_refl)
  have a: "as_pc w4 0 = Answered (1, True)" "as_pc w4 1 = Answered (2, True)" by (simp_all add: w4_def w3_def w2_def)
  note c = attempts_concurrent [OF r a(2) a(1) e e]
  have "(2 :: nat) \<in> {1..2}" by simp
  from bspec [OF conjunct2 [OF conjunct2 [OF c]] this] have "\<exists>i. storedAttempt ''e'' i (as_db w4) = Some 2" .
  moreover have "pa_attemptIdentity (sampleCalls 0) \<noteq> pa_attemptIdentity (sampleCalls 1)"
    using conjunct1 [OF c] by (metis numeral_One numeral_eq_iff semiring_norm(83))
  ultimately show ?thesis using r a by blast
qed

end
