(* ===== verification/Promotion.thy ===== *)
theory Promotion
  imports Promotion_Gate Attempt_Ledger Job_Store
begin

text \<open>
  The held-out promotion gate of the worker (\<open>apps/backtester/src/jobs/promotion/resolve-promotion.ts\<close>), its identity keys
  (\<open>identity.ts\<close>), the epoch resolver (\<open>epoch-resolver.ts\<close>) and the evidence body it signs
  (\<open>evidence/body-v2.ts\<close>).  The data port, the acceptance gate of the sandbox, the signature and the artifact store are
  parameters; each of them may throw (a left value).  The attempt ledger and the artifact store are state.
\<close>

subsection \<open>Identity keys\<close>

definition sortedSymbols :: "json \<Rightarrow> json" where
  "sortedSymbols v = (case v of JArr xs \<Rightarrow> JArr (map JStr (sort (List.map_filter as_str xs))) | _ \<Rightarrow> v)"

definition keyHash :: "gate_env \<Rightarrow> json \<Rightarrow> canon_error + string" where
  "keyHash env v = map_sum id (ge_sha256 env) (canonicalJson (ge_dec8 env) v)"

definition computePromotionFamilyKey :: "gate_env \<Rightarrow> json \<Rightarrow> canon_error + string" where
  "computePromotionFamilyKey env req = keyHash env (JObj [
     (''hint'', field_or req ''trialFamilyHint'' (field (field req ''moduleRef'') ''id'')),
     (''datasetRef'', field req ''datasetRef''), (''symbols'', sortedSymbols (field req ''symbols'')),
     (''timeframe'', field req ''timeframe'')])"

definition computeQualificationEpochKey :: "gate_env \<Rightarrow> string \<Rightarrow> string \<Rightarrow> string \<Rightarrow> canon_error + string" where
  "computeQualificationEpochKey env promotionFamilyKey epochId policyVersion = keyHash env (JObj [
     (''promotionFamilyKey'', JStr promotionFamilyKey), (''epochId'', JStr epochId), (''policyVersion'', JStr policyVersion)])"

definition computeAttemptIdentity :: "gate_env \<Rightarrow> string \<Rightarrow> string \<Rightarrow> canon_error + string" where
  "computeAttemptIdentity env fp dsFp = keyHash env (JObj [
     (''requestFingerprint'', JStr fp), (''datasetFingerprint'', JStr dsFp)])"

text \<open>\<open>DatasetIdentityEpochResolver\<close>: the epoch is the dataset the run names, if the data port lists it.\<close>

definition resolveEpoch :: "(unit + string list) \<Rightarrow> job_row \<Rightarrow> unit + string option" where
  "resolveEpoch listed claimed = map_sum id (find (\<lambda>d. d = datasetRef claimed)) listed"

subsection \<open>Policy, dependencies and context\<close>

record promotion_policy = gate_policy +
  pp_policyVersion :: string
  pp_fraction :: jsnum

definition thresholdsJson :: "evidence_thresholds \<Rightarrow> json" where
  "thresholdsJson t = JObj [(''minSharpe'', JNum (th_minSharpe t)), (''maxDrawdown'', JNum (th_maxDrawdown t)),
     (''minWinRate'', JNum (th_minWinRate t)), (''minTrades'', JNum (th_minTrades t))]"

definition buildPromotionPolicy :: "gate_env \<Rightarrow> jsnum \<Rightarrow> canon_error + promotion_policy" where
  "buildPromotionPolicy env holdoutFraction =
     (let metrics = [''sharpe'', ''max_drawdown'', ''win_rate'', ''total_trades'']
      in map_sum id (\<lambda>v. \<lparr>gp_thresholds = DEFAULT_THRESHOLDS, gp_metrics = metrics, gp_minWarmupBars = 1, gp_minTrades = 1,
             pp_policyVersion = v, pp_fraction = holdoutFraction\<rparr>)
           (keyHash env (JObj [(''fraction'', JNum holdoutFraction), (''thresholds'', thresholdsJson DEFAULT_THRESHOLDS),
              (''metrics'', JArr (map JStr metrics)), (''minWarmupBars'', JNum (JFin 1)), (''minTrades'', JNum (JFin 1))])))"

record 's promotion_deps =
  pd_enabled :: bool
  pd_ledger :: "promotion_attempt \<Rightarrow> 's \<Rightarrow> (unit + attempt_answer) \<times> 's"
  pd_resolve :: "job_row \<Rightarrow> unit + string option"
  pd_policy :: promotion_policy

record 'a promotion_ctx =
  px_candidate :: completed_outcome
  px_curated :: "completed_outcome option"
  px_signingKey :: "string option"
  px_bundleRejected :: "unit + bool"
  px_bundleRef :: string
  px_datasetFingerprint :: string
  px_coverage :: "run_period option"
  px_executedBarTimes :: "ms list list"
  px_datasetTimeframe :: "string option"
  px_runId :: string
  px_now :: ms
  px_sign :: "json \<Rightarrow> string \<Rightarrow> unit + string"
  px_writeArtifact :: "json \<times> string \<Rightarrow> 'a \<Rightarrow> (unit + string) \<times> 'a"

subsection \<open>The evidence body\<close>

definition windowJson :: "gate_env \<Rightarrow> run_period \<Rightarrow> json" where
  "windowJson env p = JObj [(''fromMs'', JNum (ms_num (de_parse (ge_dates env) (period_from p)))),
     (''toMs'', JNum (ms_num (de_parse (ge_dates env) (period_to p))))]"

definition periodJson :: "run_period \<Rightarrow> json" where
  "periodJson p = JObj [(''from'', JStr (period_from p)), (''to'', JStr (period_to p))]"

definition metricsJson :: "metric_record \<Rightarrow> json" where
  "metricsJson m = JObj (map (\<lambda>(k, n). (k, JNum n)) m)"

definition requestPeriod :: "json \<Rightarrow> run_period" where
  "requestPeriod req = \<lparr>period_from = orElse (as_str (field (field req ''period'') ''from'')) [],
     period_to = orElse (as_str (field (field req ''period'') ''to'')) []\<rparr>"

definition showRef :: "json \<Rightarrow> string" where
  "showRef r = orElse (as_str (field r ''id'')) [] @ ''@'' @ orElse (as_str (field r ''version'')) []"

definition buildEvidenceBodyV2 :: "gate_env \<Rightarrow> promotion_policy \<Rightarrow> 'a promotion_ctx \<Rightarrow> json \<Rightarrow> string \<Rightarrow> run_period \<Rightarrow>
    metric_record \<Rightarrow> metric_record \<Rightarrow> nat \<Rightarrow> string \<Rightarrow> string \<Rightarrow> string \<Rightarrow> run_period \<Rightarrow> json" where
  "buildEvidenceBodyV2 env policy ctx req keyId window candM curM attemptNumber epochKey candHash curHash coverage = JObj [
     (''schema'', JStr ''backtest-evidence/v2''), (''backtesterRunId'', JStr (px_runId ctx)),
     (''bundleHash'', JStr (px_bundleRef ctx)), (''verdict'', JStr ''passed''), (''datasetRef'', field req ''datasetRef''),
     (''window'', windowJson env (requestPeriod req)), (''symbols'', sortedSymbols (field req ''symbols'')),
     (''timeframe'', field req ''timeframe''), (''keyId'', JStr keyId), (''mode'', JStr ''promotion''),
     (''evaluationWindow'', windowJson env window), (''candidateHoldoutMetrics'', metricsJson candM),
     (''curatedHoldoutMetrics'', metricsJson curM), (''thresholds'', thresholdsJson (gp_thresholds policy)),
     (''attemptNumber'', JNum (JFin (of_nat attemptNumber))), (''qualificationEpochKey'', JStr epochKey),
     (''candidateResultHash'', JStr candHash), (''curatedResultHash'', JStr curHash),
     (''curatedBaselineRef'', JStr (showRef (field req ''curatedBaselineRef''))),
     (''qualification'', JObj [(''coverage'', periodJson coverage), (''fraction'', JNum (pp_fraction policy)),
        (''policyVersion'', JStr (pp_policyVersion policy)), (''datasetFingerprint'', JStr (px_datasetFingerprint ctx))])]"

subsection \<open>The gate\<close>

text \<open>One stage of the gate: it throws, it rejects with a reason, or it goes on with what it found.\<close>

datatype 'x gate_stage = Throws | Rejects promotion_failure_reason | Goes 'x

text \<open>Everything before the window is judged: the key, the curated twin, integrity, the epoch and the window itself.\<close>

definition resolveWindow :: "gate_env \<Rightarrow> 's promotion_deps \<Rightarrow> job_row \<Rightarrow> 'a promotion_ctx \<Rightarrow>
    (string \<times> completed_outcome \<times> string \<times> run_period \<times> string \<times> run_period) gate_stage" where
  "resolveWindow env deps claimed ctx =
     (case px_signingKey ctx of None \<Rightarrow> Rejects Signing_unavailable | Some key \<Rightarrow>
      (case px_curated ctx of None \<Rightarrow> Rejects Curated_unavailable | Some curated \<Rightarrow>
       if \<not> json_truthy (field (request claimed) ''curatedBaselineRef'') then Rejects Curated_unavailable else
       (case px_bundleRejected ctx of Inl _ \<Rightarrow> Throws | Inr rejected \<Rightarrow>
        (case evaluatePromotionIntegrity env (px_candidate ctx) curated rejected of
           Inl _ \<Rightarrow> Throws
         | Inr (Integrity_reject reason) \<Rightarrow> Rejects reason
         | Inr Integrity_ok \<Rightarrow>
            (case pd_resolve deps claimed of
               Inl _ \<Rightarrow> Throws
             | Inr epoch \<Rightarrow>
                (case (epoch, px_coverage ctx, px_datasetTimeframe ctx) of
                   (Some epochId, Some coverage, Some timeframe) \<Rightarrow>
                     (case computeHoldoutWindow (ge_dates env) coverage (pp_fraction (pd_policy deps)) of
                        Inl _ \<Rightarrow> Rejects Holdout_unavailable
                      | Inr window \<Rightarrow> Goes (key, curated, epochId, coverage, timeframe, window))
                 | _ \<Rightarrow> Rejects Holdout_unavailable))))))"

text \<open>The keys an attempt is recorded under.\<close>

definition attemptKeys :: "gate_env \<Rightarrow> 's promotion_deps \<Rightarrow> job_row \<Rightarrow> 'a promotion_ctx \<Rightarrow> string \<Rightarrow> canon_error + (string \<times> string)" where
  "attemptKeys env deps claimed ctx epochId =
     (case computePromotionFamilyKey env (request claimed) of Inl e \<Rightarrow> Inl e | Inr familyKey \<Rightarrow>
      (case computeQualificationEpochKey env familyKey epochId (pp_policyVersion (pd_policy deps)) of Inl e \<Rightarrow> Inl e | Inr epochKey \<Rightarrow>
       map_sum id (Pair epochKey) (computeAttemptIdentity env (requestFingerprint claimed) (px_datasetFingerprint ctx))))"

definition outcomeHash :: "gate_env \<Rightarrow> completed_outcome \<Rightarrow> canon_error + string" where
  "outcomeHash env c = contentRef (ge_dec8 env) (ge_sha256 env) (co_value c)"

text \<open>The record of an attempt; hashing the outcome is part of the guarded call.\<close>

definition recordAttempt :: "gate_env \<Rightarrow> 's promotion_deps \<Rightarrow> job_row \<Rightarrow> 'a promotion_ctx \<Rightarrow> string \<Rightarrow> string \<Rightarrow> gate_verdict \<Rightarrow> 's \<Rightarrow>
    (unit + attempt_answer) \<times> 's" where
  "recordAttempt env deps claimed ctx epochKey identity verdict st =
     (case outcomeHash env (px_candidate ctx) of
        Inl _ \<Rightarrow> (Inl (), st)
      | Inr h \<Rightarrow> pd_ledger deps \<lparr>pa_qualificationEpochKey = epochKey, pa_attemptIdentity = identity,
            pa_requestFingerprint = requestFingerprint claimed, pa_datasetFingerprint = px_datasetFingerprint ctx,
            pa_runId = px_runId ctx, pa_resultHash = h, pa_passed = (verdict = Verdict_passed), pa_createdAtMs = px_now ctx\<rparr> st)"

text \<open>Signing and persisting the evidence: the identifier of a stored artifact, or a fault.\<close>

definition persistEvidence :: "gate_env \<Rightarrow> 's promotion_deps \<Rightarrow> job_row \<Rightarrow> 'a promotion_ctx \<Rightarrow> string \<Rightarrow> completed_outcome \<Rightarrow>
    run_period \<Rightarrow> run_period \<Rightarrow> metric_record \<Rightarrow> metric_record \<Rightarrow> nat \<Rightarrow> string \<Rightarrow> 'a \<Rightarrow> (unit + string) \<times> 'a" where
  "persistEvidence env deps claimed ctx key curated coverage window candM curM n epochKey art =
     (case (outcomeHash env (px_candidate ctx), outcomeHash env curated) of
        (Inr candHash, Inr curHash) \<Rightarrow>
          (let body = buildEvidenceBodyV2 env (pd_policy deps) ctx (request claimed) key window candM curM n epochKey candHash curHash coverage
           in case px_sign ctx body key of
                Inl _ \<Rightarrow> (Inl (), art)
              | Inr signature \<Rightarrow>
                  (case px_writeArtifact ctx (body, signature) art of
                     (Inl _, art') \<Rightarrow> (Inl (), art')
                   | (Inr aid, art') \<Rightarrow> (if aid = [] then Inl () else Inr aid, art')))
      | _ \<Rightarrow> (Inl (), art))"

definition settleAttempt :: "gate_env \<Rightarrow> 's promotion_deps \<Rightarrow> job_row \<Rightarrow> 'a promotion_ctx \<Rightarrow> string \<Rightarrow> completed_outcome \<Rightarrow>
    string \<Rightarrow> run_period \<Rightarrow> run_period \<Rightarrow> gate_verdict \<Rightarrow> metric_record \<Rightarrow> metric_record \<Rightarrow> 's \<Rightarrow> 'a \<Rightarrow> (promotion_result \<times> string option) \<times> 's \<times> 'a" where
  "settleAttempt env deps claimed ctx key curated epochId coverage window verdict candM curM st art =
     (case attemptKeys env deps claimed ctx epochId of
        Inl _ \<Rightarrow> ((Not_qualified Pr_internal_error None None, None), st, art)
      | Inr (epochKey, identity) \<Rightarrow>
          (case recordAttempt env deps claimed ctx epochKey identity verdict st of
             (Inl _, st') \<Rightarrow> ((Not_qualified Attempt_record_failed None (Some window), None), st', art)
           | (Inr (n, _), st') \<Rightarrow>
               (if verdict = Verdict_failed then ((Not_qualified Metrics_failed (Some n) (Some window), None), st', art)
                else (case persistEvidence env deps claimed ctx key curated coverage window candM curM n epochKey art of
                        (Inl _, art') \<Rightarrow> ((Not_qualified Pr_internal_error (Some n) (Some window), None), st', art')
                      | (Inr aid, art') \<Rightarrow> ((Passed n window, Some aid), st', art')))))"

definition resolvePromotionGate :: "gate_env \<Rightarrow> 's promotion_deps \<Rightarrow> job_row \<Rightarrow> 'a promotion_ctx \<Rightarrow> 's \<Rightarrow> 'a \<Rightarrow>
    ((promotion_result \<times> string option) option \<times> 's \<times> 'a) option" where
  "resolvePromotionGate env deps claimed ctx st art =
     (if \<not> pd_enabled deps \<or> field (request claimed) ''mode'' \<noteq> JStr ''promotion'' then Some (None, st, art)
      else case resolveWindow env deps claimed ctx of
             Throws \<Rightarrow> Some (Some (Not_qualified Pr_internal_error None None, None), st, art)
           | Rejects reason \<Rightarrow> Some (Some (Not_qualified reason None None, None), st, art)
           | Goes (key, curated, epochId, coverage, timeframe, window) \<Rightarrow>
               map_option (\<lambda>outcome. case outcome of
                   Window_reject reason \<Rightarrow> (Some (Not_qualified reason None (Some window), None), st, art)
                 | Evaluated verdict candM curM \<Rightarrow>
                     apfst Some (settleAttempt env deps claimed ctx key curated epochId coverage window verdict candM curM st art))
                 (evaluatePromotionWindow env (px_candidate ctx) curated window (requestPeriod (request claimed))
                    (gate_policy.truncate (pd_policy deps)) (px_executedBarTimes ctx)
                    (orElse (as_str (field (request claimed) ''timeframe'')) []) timeframe))"

end
