(* ===== verification/Promotion_Properties.thy ===== *)
theory Promotion_Properties
  imports Promotion
begin

text \<open>
  What the promotion gate guarantees: that a pass has been earned, recorded and persisted, and that a promotion run
  is always answered.
\<close>

subsection \<open>Stages\<close>

lemma covers_total: "0 < interval \<Longrightarrow> \<exists>r. symbolCoversWindow bars wFrom wTo interval = Some r"
  by (auto simp: symbolCoversWindow_def gridWalk_slots split: option.split)

lemma everyCovers_total: "0 < interval \<Longrightarrow> \<exists>r. everyCovers tapes wFrom wTo interval = Some r"
proof (induction tapes)
  case (Cons bars tapes)
  thus ?case using covers_total [of interval bars wFrom wTo] by auto
qed auto

lemma everyCovers_all: "everyCovers tapes wFrom wTo interval = Some True \<Longrightarrow>
    \<forall>bars \<in> set tapes. symbolCoversWindow bars wFrom wTo interval = Some True"
  by (induction tapes) (auto simp: bind_eq_Some_conv split: if_splits)

lemma window_evaluated:
  assumes "evaluatePromotionWindow env cand cur w p policy tapes rtf dtf = Some (Evaluated v mc mcur)"
  shows "ms_le (de_parse (ge_dates env) (period_from p)) (de_parse (ge_dates env) (period_from w))"
    "ms_le (de_parse (ge_dates env) (period_to w)) (de_parse (ge_dates env) (period_to p))" "rtf = dtf" "tapes \<noteq> []"
    "\<exists>iv. ge_parseTimeframeMs env dtf = Some iv \<and> (\<forall>bars \<in> set tapes.
       symbolCoversWindow bars (the (de_parse (ge_dates env) (period_from w))) (the (de_parse (ge_dates env) (period_to w))) iv = Some True)"
    "v = decideVerdict (we_metrics (evaluateWindow env cand w (gp_metrics policy))) (gp_thresholds policy)"
    "mc = we_metrics (evaluateWindow env cand w (gp_metrics policy))"
    "mcur = we_metrics (evaluateWindow env cur w (gp_metrics policy))"
  using assms everyCovers_all unfolding evaluatePromotionWindow_def Let_def
  by (auto split: if_splits option.splits)

lemma window_total:
  assumes "\<forall>tf iv. ge_parseTimeframeMs env tf = Some iv \<longrightarrow> 0 < iv"
  shows "\<exists>o'. evaluatePromotionWindow env cand cur w p policy tapes rtf dtf = Some o'"
  using assms everyCovers_total unfolding evaluatePromotionWindow_def Let_def
  by (auto split: option.splits)

lemma resolveWindow_goes:
  assumes "resolveWindow env deps claimed ctx = Goes (key, curated, epochId, coverage, timeframe, window)"
  shows "px_signingKey ctx = Some key" "px_curated ctx = Some curated" "px_bundleRejected ctx = Inr False"
    "\<exists>r. compareBacktestRuns env (Completed_outcome curated) (Completed_outcome (px_candidate ctx)) = Inr r \<and> eq_equivalent r"
    "pd_resolve deps claimed = Inr (Some epochId)" "px_coverage ctx = Some coverage" "px_datasetTimeframe ctx = Some timeframe"
    "computeHoldoutWindow (ge_dates env) coverage (pp_fraction (pd_policy deps)) = Inr window"
  using assms unfolding resolveWindow_def evaluatePromotionIntegrity_def
  by (auto split: option.splits if_splits sum.splits integrity.splits prod.splits)

lemma persist_ok:
  assumes "persistEvidence env deps claimed ctx key curated coverage window candM curM n epochKey art = (Inr aid, art')"
  shows "\<exists>body sig. px_sign ctx body key = Inr sig \<and> px_writeArtifact ctx (body, sig) art = (Inr aid, art') \<and> aid \<noteq> []
    \<and> field body ''attemptNumber'' = JNum (JFin (of_nat n)) \<and> field body ''evaluationWindow'' = windowJson env window
    \<and> field body ''candidateHoldoutMetrics'' = metricsJson candM"
proof -
  obtain h h' where h: "outcomeHash env (px_candidate ctx) = Inr h" "outcomeHash env curated = Inr h'"
    using assms by (auto simp: persistEvidence_def split: sum.splits)
  define body where "body = buildEvidenceBodyV2 env (pd_policy deps) ctx (request claimed) key window candM curM n epochKey h h' coverage"
  have f: "field body ''attemptNumber'' = JNum (JFin (of_nat n))" "field body ''evaluationWindow'' = windowJson env window"
      "field body ''candidateHoldoutMetrics'' = metricsJson candM"
    by (simp_all add: body_def buildEvidenceBodyV2_def)
  obtain sg where sg: "px_sign ctx body key = Inr sg" "px_writeArtifact ctx (body, sg) art = (Inr aid, art')" "aid \<noteq> []"
    using assms h by (auto simp: persistEvidence_def Let_def simp flip: body_def split: sum.splits prod.splits if_splits)
  show ?thesis using f sg by blast
qed

lemma record_ok:
  assumes "recordAttempt env deps claimed ctx epochKey identity verdict st = (Inr a, st')"
  shows "\<exists>rec. pd_ledger deps rec st = (Inr a, st') \<and> pa_qualificationEpochKey rec = epochKey \<and> pa_attemptIdentity rec = identity
    \<and> (pa_passed rec \<longleftrightarrow> verdict = Verdict_passed)"
  using assms unfolding recordAttempt_def by (auto split: sum.splits)

lemma settle_passed:
  assumes "settleAttempt env deps claimed ctx key curated epochId coverage window verdict candM curM st art = ((Passed n w, e), st', art')"
  obtains epochKey identity b aid where "w = window" "verdict = Verdict_passed" "e = Some aid"
    "recordAttempt env deps claimed ctx epochKey identity verdict st = (Inr (n, b), st')"
    "persistEvidence env deps claimed ctx key curated coverage window candM curM n epochKey art = (Inr aid, art')"
proof -
  obtain epochKey identity where k: "attemptKeys env deps claimed ctx epochId = Inr (epochKey, identity)"
    using assms by (auto simp: settleAttempt_def split: sum.splits)
  obtain r st1 where r: "recordAttempt env deps claimed ctx epochKey identity verdict st = (r, st1)" by (metis surj_pair)
  obtain m b where m: "r = Inr (m, b)" using assms k r by (auto simp: settleAttempt_def split: sum.splits)
  have v: "verdict \<noteq> Verdict_failed" using assms k r m by (auto simp: settleAttempt_def)
  obtain p art1 where p: "persistEvidence env deps claimed ctx key curated coverage window candM curM m epochKey art = (p, art1)" by (metis surj_pair)
  obtain aid where aid: "p = Inr aid" using assms k r m v p by (auto simp: settleAttempt_def split: sum.splits)
  have "n = m" "w = window" "e = Some aid" "st' = st1" "art' = art1"
    using assms k r m v p aid by (simp_all add: settleAttempt_def)
  moreover have "verdict = Verdict_passed" using v by (cases verdict) simp_all
  ultimately show thesis using r m p aid by (intro that [of aid epochKey identity b]) simp_all
qed

text \<open>Claim C30. A promotion that passes has been earned.  The gate was on for a promotion run with a signing key; the
  bundle was accepted and the run was equivalent to its curated twin; the window is the held-out window of the
  dataset's coverage, lies inside the run's period, and the tape of every symbol covers it on the dataset's own
  timeframe, which is the request's; the candidate's metrics in that window pass the thresholds; the attempt
  number is the ledger's answer to a recorded pass; and an evidence body with that number, window and metrics was
  signed and stored under the returned reference.\<close>
theorem promotion_pass_earned:
  assumes "resolvePromotionGate env deps claimed ctx st art = Some (Some (Passed n w, ref), st', art')"
  shows "pd_enabled deps \<and> field (request claimed) ''mode'' = JStr ''promotion'' \<and> px_bundleRejected ctx = Inr False
    \<and> (\<exists>key curated coverage tf iv b rec body sig aid r.
        px_signingKey ctx = Some key \<and> px_curated ctx = Some curated
        \<and> compareBacktestRuns env (Completed_outcome curated) (Completed_outcome (px_candidate ctx)) = Inr r \<and> eq_equivalent r
        \<and> px_coverage ctx = Some coverage \<and> computeHoldoutWindow (ge_dates env) coverage (pp_fraction (pd_policy deps)) = Inr w
        \<and> ms_le (de_parse (ge_dates env) (period_from (requestPeriod (request claimed)))) (de_parse (ge_dates env) (period_from w))
        \<and> ms_le (de_parse (ge_dates env) (period_to w)) (de_parse (ge_dates env) (period_to (requestPeriod (request claimed))))
        \<and> px_datasetTimeframe ctx = Some tf \<and> orElse (as_str (field (request claimed) ''timeframe'')) [] = tf
        \<and> ge_parseTimeframeMs env tf = Some iv \<and> px_executedBarTimes ctx \<noteq> []
        \<and> (\<forall>bars \<in> set (px_executedBarTimes ctx). symbolCoversWindow bars
             (the (de_parse (ge_dates env) (period_from w))) (the (de_parse (ge_dates env) (period_to w))) iv = Some True)
        \<and> decideVerdict (we_metrics (evaluateWindow env (px_candidate ctx) w (gp_metrics (pd_policy deps))))
             (gp_thresholds (pd_policy deps)) = Verdict_passed
        \<and> pd_ledger deps rec st = (Inr (n, b), st') \<and> pa_passed rec
        \<and> px_sign ctx body key = Inr sig \<and> px_writeArtifact ctx (body, sig) art = (Inr aid, art') \<and> aid \<noteq> [] \<and> ref = Some aid
        \<and> field body ''attemptNumber'' = JNum (JFin (of_nat n)) \<and> field body ''evaluationWindow'' = windowJson env w)"
proof -
  have on: "pd_enabled deps" "field (request claimed) ''mode'' = JStr ''promotion''"
    using assms by (auto simp: resolvePromotionGate_def split: if_splits)
  obtain key curated epochId coverage tf window where g: "resolveWindow env deps claimed ctx = Goes (key, curated, epochId, coverage, tf, window)"
    using assms on by (auto simp: resolvePromotionGate_def split: gate_stage.splits)
  let ?ev = "evaluatePromotionWindow env (px_candidate ctx) curated window (requestPeriod (request claimed))
      (gate_policy.truncate (pd_policy deps)) (px_executedBarTimes ctx) (orElse (as_str (field (request claimed) ''timeframe'')) []) tf"
  have res: "map_option (\<lambda>outcome. case outcome of
        Window_reject reason \<Rightarrow> (Some (Not_qualified reason None (Some window), None), st, art)
      | Evaluated verdict candM curM \<Rightarrow>
          apfst Some (settleAttempt env deps claimed ctx key curated epochId coverage window verdict candM curM st art)) ?ev
    = Some (Some (Passed n w, ref), st', art')"
    using assms on g by (simp add: resolvePromotionGate_def)
  then obtain v mc mcur where ev: "?ev = Some (Evaluated v mc mcur)"
    and s: "apfst Some (settleAttempt env deps claimed ctx key curated epochId coverage window v mc mcur st art) = (Some (Passed n w, ref), st', art')"
  proof (cases ?ev)
    case (Some out)
    thus ?thesis using res that by (cases out) simp_all
  qed simp
  hence "settleAttempt env deps claimed ctx key curated epochId coverage window v mc mcur st art = ((Passed n w, ref), st', art')"
    by (cases "settleAttempt env deps claimed ctx key curated epochId coverage window v mc mcur st art") simp
  from settle_passed [OF this] obtain epochKey identity b aid where
    sp: "w = window" "v = Verdict_passed" "ref = Some aid"
      "recordAttempt env deps claimed ctx epochKey identity v st = (Inr (n, b), st')"
      "persistEvidence env deps claimed ctx key curated coverage window mc mcur n epochKey art = (Inr aid, art')" by metis
  have t: "gp_metrics (gate_policy.truncate (pd_policy deps)) = gp_metrics (pd_policy deps)"
      "gp_thresholds (gate_policy.truncate (pd_policy deps)) = gp_thresholds (pd_policy deps)"
    by (simp_all add: gate_policy.defs)
  from window_evaluated(6) [OF ev] have v: "decideVerdict (we_metrics (evaluateWindow env (px_candidate ctx) w (gp_metrics (pd_policy deps))))
      (gp_thresholds (pd_policy deps)) = Verdict_passed" using sp(1,2) t by simp
  obtain rec where rec: "pd_ledger deps rec st = (Inr (n, b), st')" "pa_passed rec" using record_ok [OF sp(4)] sp(2) by blast
  obtain body sg where bs: "px_sign ctx body key = Inr sg" "px_writeArtifact ctx (body, sg) art = (Inr aid, art')" "aid \<noteq> []"
      "field body ''attemptNumber'' = JNum (JFin (of_nat n))" "field body ''evaluationWindow'' = windowJson env w"
    using persist_ok [OF sp(5)] sp(1) by blast
  obtain iv where iv: "ge_parseTimeframeMs env tf = Some iv" "\<forall>bars \<in> set (px_executedBarTimes ctx). symbolCoversWindow bars
      (the (de_parse (ge_dates env) (period_from w))) (the (de_parse (ge_dates env) (period_to w))) iv = Some True"
    using window_evaluated(5) [OF ev] sp(1) by blast
  obtain r where r: "compareBacktestRuns env (Completed_outcome curated) (Completed_outcome (px_candidate ctx)) = Inr r" "eq_equivalent r"
    using resolveWindow_goes(4) [OF g] by blast
  show ?thesis
    by (rule conjI [OF on(1)], rule conjI [OF on(2)], rule conjI [OF resolveWindow_goes(3) [OF g]])
      (use resolveWindow_goes(1,2,6,7,8) [OF g] window_evaluated(1-4) [OF ev] v rec bs iv r sp(1,3) in metis)
qed

subsection \<open>When an attempt is counted\<close>

lemma everyCovers_True: "everyCovers tapes wFrom wTo interval = Some True \<longleftrightarrow>
    (\<forall>bars \<in> set tapes. symbolCoversWindow bars wFrom wTo interval = Some True)"
proof (induction tapes)
  case (Cons bars tapes)
  show ?case using Cons by (cases "symbolCoversWindow bars wFrom wTo interval") (auto simp: bind_eq_Some_conv)
qed simp

text \<open>A run has been evaluated, with the verdict \<open>v\<close> over the window \<open>w\<close>, and is to be recorded as the attempt
  \<open>rec\<close>: the gate is on, nothing about the bundle, the twin, the epoch or the window stood in the way, the window
  lies in the run's period, every tape covers it on the timeframe both name, it is warm and holds enough trades,
  and the keys and the hash of the record could be computed.\<close>

definition attempt_due :: "gate_env \<Rightarrow> 's promotion_deps \<Rightarrow> job_row \<Rightarrow> 'a promotion_ctx \<Rightarrow> run_period \<Rightarrow> gate_verdict \<Rightarrow>
    promotion_attempt \<Rightarrow> bool" where
  "attempt_due env deps claimed ctx w v rec \<longleftrightarrow>
     pd_enabled deps \<and> field (request claimed) ''mode'' = JStr ''promotion'' \<and> px_bundleRejected ctx = Inr False
     \<and> json_truthy (field (request claimed) ''curatedBaselineRef'')
     \<and> (\<exists>key curated r epochId coverage tf iv epochKey identity h.
          px_signingKey ctx = Some key \<and> px_curated ctx = Some curated
          \<and> compareBacktestRuns env (Completed_outcome curated) (Completed_outcome (px_candidate ctx)) = Inr r \<and> eq_equivalent r
          \<and> pd_resolve deps claimed = Inr (Some epochId) \<and> px_coverage ctx = Some coverage
          \<and> computeHoldoutWindow (ge_dates env) coverage (pp_fraction (pd_policy deps)) = Inr w
          \<and> ms_le (de_parse (ge_dates env) (period_from (requestPeriod (request claimed)))) (de_parse (ge_dates env) (period_from w))
          \<and> ms_le (de_parse (ge_dates env) (period_to w)) (de_parse (ge_dates env) (period_to (requestPeriod (request claimed))))
          \<and> px_datasetTimeframe ctx = Some tf \<and> orElse (as_str (field (request claimed) ''timeframe'')) [] = tf
          \<and> ge_parseTimeframeMs env tf = Some iv \<and> px_executedBarTimes ctx \<noteq> []
          \<and> (\<forall>bars \<in> set (px_executedBarTimes ctx). symbolCoversWindow bars
               (the (de_parse (ge_dates env) (period_from w))) (the (de_parse (ge_dates env) (period_to w))) iv = Some True)
          \<and> (let e = evaluateWindow env (px_candidate ctx) w (gp_metrics (pd_policy deps)) in
               gp_minWarmupBars (pd_policy deps) \<le> we_warmupSteps e \<and> 2 \<le> length (we_equity e)
               \<and> gp_minTrades (pd_policy deps) \<le> length (we_inTest e)
               \<and> v = decideVerdict (we_metrics e) (gp_thresholds (pd_policy deps)))
          \<and> attemptKeys env deps claimed ctx epochId = Inr (epochKey, identity)
          \<and> outcomeHash env (px_candidate ctx) = Inr h
          \<and> rec = \<lparr>pa_qualificationEpochKey = epochKey, pa_attemptIdentity = identity,
               pa_requestFingerprint = requestFingerprint claimed, pa_datasetFingerprint = px_datasetFingerprint ctx,
               pa_runId = px_runId ctx, pa_resultHash = h, pa_passed = (v = Verdict_passed), pa_createdAtMs = px_now ctx\<rparr>)"

text \<open>The attempt number a result names.\<close>

fun attempt_of :: "promotion_result \<Rightarrow> nat option" where
  "attempt_of (Passed n w) = Some n"
| "attempt_of (Not_qualified reason n w) = n"

lemma window_evaluated_iff:
  "evaluatePromotionWindow env cand cur w p policy tapes rtf dtf = Some (Evaluated v mc mcur) \<longleftrightarrow>
    ms_le (de_parse (ge_dates env) (period_from p)) (de_parse (ge_dates env) (period_from w))
    \<and> ms_le (de_parse (ge_dates env) (period_to w)) (de_parse (ge_dates env) (period_to p)) \<and> rtf = dtf \<and> tapes \<noteq> []
    \<and> (\<exists>iv. ge_parseTimeframeMs env dtf = Some iv \<and> (\<forall>bars \<in> set tapes.
         symbolCoversWindow bars (the (de_parse (ge_dates env) (period_from w))) (the (de_parse (ge_dates env) (period_to w))) iv = Some True))
    \<and> (let e = evaluateWindow env cand w (gp_metrics policy) in
         gp_minWarmupBars policy \<le> we_warmupSteps e \<and> 2 \<le> length (we_equity e) \<and> gp_minTrades policy \<le> length (we_inTest e)
         \<and> v = decideVerdict (we_metrics e) (gp_thresholds policy) \<and> mc = we_metrics e)
    \<and> mcur = we_metrics (evaluateWindow env cur w (gp_metrics policy))"
  unfolding evaluatePromotionWindow_def Let_def everyCovers_True [symmetric]
  by (auto split: if_splits option.splits)

lemma resolveWindow_goes_iff:
  "resolveWindow env deps claimed ctx = Goes (key, curated, epochId, coverage, timeframe, window) \<longleftrightarrow>
    px_signingKey ctx = Some key \<and> px_curated ctx = Some curated \<and> px_bundleRejected ctx = Inr False
    \<and> json_truthy (field (request claimed) ''curatedBaselineRef'')
    \<and> (\<exists>r. compareBacktestRuns env (Completed_outcome curated) (Completed_outcome (px_candidate ctx)) = Inr r \<and> eq_equivalent r)
    \<and> pd_resolve deps claimed = Inr (Some epochId) \<and> px_coverage ctx = Some coverage \<and> px_datasetTimeframe ctx = Some timeframe
    \<and> computeHoldoutWindow (ge_dates env) coverage (pp_fraction (pd_policy deps)) = Inr window"
  unfolding resolveWindow_def evaluatePromotionIntegrity_def
  by (auto split: option.splits if_splits sum.splits integrity.splits prod.splits)

text \<open>The two stages of the gate, read off the code.\<close>

definition gate_evaluates :: "gate_env \<Rightarrow> 's promotion_deps \<Rightarrow> job_row \<Rightarrow> 'a promotion_ctx \<Rightarrow>
    string \<Rightarrow> completed_outcome \<Rightarrow> string \<Rightarrow> run_period \<Rightarrow> string \<Rightarrow> run_period \<Rightarrow> gate_verdict \<Rightarrow> metric_record \<Rightarrow> metric_record \<Rightarrow> bool" where
  "gate_evaluates env deps claimed ctx key curated epochId coverage tf w v mc mcur \<longleftrightarrow>
     resolveWindow env deps claimed ctx = Goes (key, curated, epochId, coverage, tf, w)
     \<and> evaluatePromotionWindow env (px_candidate ctx) curated w (requestPeriod (request claimed))
      (gate_policy.truncate (pd_policy deps)) (px_executedBarTimes ctx) (orElse (as_str (field (request claimed) ''timeframe'')) []) tf
       = Some (Evaluated v mc mcur)"

lemma attempt_due_iff:
  "attempt_due env deps claimed ctx w v rec \<longleftrightarrow>
     pd_enabled deps \<and> field (request claimed) ''mode'' = JStr ''promotion''
     \<and> (\<exists>key curated epochId coverage tf mc mcur epochKey identity h.
          gate_evaluates env deps claimed ctx key curated epochId coverage tf w v mc mcur
          \<and> attemptKeys env deps claimed ctx epochId = Inr (epochKey, identity) \<and> outcomeHash env (px_candidate ctx) = Inr h
          \<and> rec = \<lparr>pa_qualificationEpochKey = epochKey, pa_attemptIdentity = identity,
               pa_requestFingerprint = requestFingerprint claimed, pa_datasetFingerprint = px_datasetFingerprint ctx,
               pa_runId = px_runId ctx, pa_resultHash = h, pa_passed = (v = Verdict_passed), pa_createdAtMs = px_now ctx\<rparr>)"
proof -
  have t: "gp_metrics (gate_policy.truncate (pd_policy deps)) = gp_metrics (pd_policy deps)"
      "gp_thresholds (gate_policy.truncate (pd_policy deps)) = gp_thresholds (pd_policy deps)"
      "gp_minWarmupBars (gate_policy.truncate (pd_policy deps)) = gp_minWarmupBars (pd_policy deps)"
      "gp_minTrades (gate_policy.truncate (pd_policy deps)) = gp_minTrades (pd_policy deps)"
    by (simp_all add: gate_policy.defs)
  show ?thesis
    unfolding attempt_due_def gate_evaluates_def resolveWindow_goes_iff window_evaluated_iff t Let_def
    by (intro iffI; (elim conjE exE)?; intro conjI exI; assumption?; blast?)
qed

text \<open>The window a result names.\<close>

fun window_of :: "promotion_result \<Rightarrow> run_period option" where
  "window_of (Passed n w) = Some w"
| "window_of (Not_qualified reason n w) = w"

text \<open>What settling does once the run is evaluated: the one call of the ledger decides whether the result names an
  attempt, and nothing is written before it.\<close>

lemma settle_recorded:
  assumes "attemptKeys env deps claimed ctx epochId = Inr (epochKey, identity)" "outcomeHash env (px_candidate ctx) = Inr h"
    and "rec = \<lparr>pa_qualificationEpochKey = epochKey, pa_attemptIdentity = identity,
               pa_requestFingerprint = requestFingerprint claimed, pa_datasetFingerprint = px_datasetFingerprint ctx,
               pa_runId = px_runId ctx, pa_resultHash = h, pa_passed = (v = Verdict_passed), pa_createdAtMs = px_now ctx\<rparr>"
    and "pd_ledger deps rec st = (a, st1)"
    and "settleAttempt env deps claimed ctx key curated epochId coverage w v mc mcur st art = ((r, e), st', art')"
  shows "st' = st1 \<and> attempt_of r = (case a of Inl _ \<Rightarrow> None | Inr (n, _) \<Rightarrow> Some n) \<and> window_of r = Some w
    \<and> ((isl a \<or> v = Verdict_failed) \<longrightarrow> art' = art)"
  using assms by (auto simp: settleAttempt_def recordAttempt_def isl_def split: sum.splits prod.splits if_splits)

lemma settle_unrecorded:
  assumes "\<not> (\<exists>epochKey identity h. attemptKeys env deps claimed ctx epochId = Inr (epochKey, identity)
      \<and> outcomeHash env (px_candidate ctx) = Inr h)"
    and "settleAttempt env deps claimed ctx key curated epochId coverage w v mc mcur st art = ((r, e), st', art')"
  shows "st' = st \<and> art' = art \<and> e = None \<and> attempt_of r = None"
  using assms by (auto simp: settleAttempt_def recordAttempt_def split: sum.splits prod.splits if_splits)

lemma settle_unnumbered:
  assumes "settleAttempt env deps claimed ctx key curated epochId coverage w v mc mcur st art = ((Not_qualified reason None x, e), st', art')"
  shows "e = None \<and> art' = art \<and> (reason \<noteq> Attempt_record_failed \<longrightarrow> st' = st)"
  using assms by (auto simp: settleAttempt_def split: sum.splits prod.splits if_splits)

lemma gate_evaluates_unique:
  assumes "gate_evaluates env deps claimed ctx key curated epochId coverage tf w v mc mcur"
    and "gate_evaluates env deps claimed ctx key' curated' epochId' coverage' tf' w' v' mc' mcur'"
  shows "key' = key" "curated' = curated" "epochId' = epochId" "coverage' = coverage" "tf' = tf" "w' = w" "v' = v" "mc' = mc" "mcur' = mcur"
  using assms by (auto simp: gate_evaluates_def)

text \<open>The gate's two ways through: the run is not evaluated, and nothing changes, or it is, and settled.\<close>

lemma gate_ways:
  assumes pos: "\<forall>tf iv. ge_parseTimeframeMs env tf = Some iv \<longrightarrow> 0 < iv"
    and on: "pd_enabled deps" "field (request claimed) ''mode'' = JStr ''promotion''"
  obtains (refused) reason x where "resolvePromotionGate env deps claimed ctx st art = Some (Some (Not_qualified reason None x, None), st, art)"
      "\<nexists>key curated epochId coverage tf w v mc mcur. gate_evaluates env deps claimed ctx key curated epochId coverage tf w v mc mcur"
    | (settled) key curated epochId coverage tf w v mc mcur r e st' art' where
      "gate_evaluates env deps claimed ctx key curated epochId coverage tf w v mc mcur"
      "settleAttempt env deps claimed ctx key curated epochId coverage w v mc mcur st art = ((r, e), st', art')"
      "resolvePromotionGate env deps claimed ctx st art = Some (Some (r, e), st', art')"
proof (cases "resolveWindow env deps claimed ctx")
  case (Goes x)
  obtain key curated epochId coverage tf w where x: "x = (key, curated, epochId, coverage, tf, w)" by (cases x) auto
  obtain out where ev: "evaluatePromotionWindow env (px_candidate ctx) curated w (requestPeriod (request claimed))
    (gate_policy.truncate (pd_policy deps)) (px_executedBarTimes ctx) (orElse (as_str (field (request claimed) ''timeframe'')) []) tf = Some out"
    using window_total [OF pos] by blast
  show thesis
  proof (cases out)
    case (Window_reject reason)
    thus thesis using on Goes x ev by (intro refused [of reason "Some w"]) (auto simp: resolvePromotionGate_def gate_evaluates_def)
  next
    case (Evaluated v mc mcur)
    obtain r e st' art' where s: "settleAttempt env deps claimed ctx key curated epochId coverage w v mc mcur st art = ((r, e), st', art')"
      by (metis surj_pair)
    show thesis by (rule settled [OF _ s]) (use on Goes x ev Evaluated s in \<open>simp_all add: resolvePromotionGate_def gate_evaluates_def\<close>)
  qed
qed (use on in \<open>auto intro!: refused simp: resolvePromotionGate_def gate_evaluates_def\<close>)

text \<open>Claim C33. A promotion run is always answered, and an attempt is counted exactly when the run was evaluated.  When the
  gate is on, the run asks for promotion and every known timeframe is positive, the gate returns a result.  A
  result that names an attempt number comes from a run that was evaluated over the window the result names, and
  the number is the ledger's answer to the record of that run; every evaluated run is recorded, and the result
  names the number the ledger answers.  Without an evaluation neither ledger nor artifacts change, and artifacts
  change only for a recorded pass.  When the gate is off or the run is of another mode it answers nothing and
  changes nothing.\<close>
theorem promotion_answered:
  assumes "\<forall>tf iv. ge_parseTimeframeMs env tf = Some iv \<longrightarrow> 0 < iv"
  shows "\<exists>res st' art'. resolvePromotionGate env deps claimed ctx st art = Some (res, st', art')
    \<and> (res = None \<longleftrightarrow> \<not> pd_enabled deps \<or> field (request claimed) ''mode'' \<noteq> JStr ''promotion'')
    \<and> (res = None \<longrightarrow> st' = st \<and> art' = art)
    \<and> (\<forall>reason w e. res = Some (Not_qualified reason None w, e) \<longrightarrow> e = None \<and> art' = art \<and>
         (reason \<noteq> Attempt_record_failed \<longrightarrow> st' = st))
    \<and> (\<forall>r e n. res = Some (r, e) \<longrightarrow> attempt_of r = Some n \<longrightarrow>
         (\<exists>w v rec b. attempt_due env deps claimed ctx w v rec \<and> window_of r = Some w \<and> pd_ledger deps rec st = (Inr (n, b), st')))
    \<and> (\<forall>w v rec n b s. attempt_due env deps claimed ctx w v rec \<longrightarrow> pd_ledger deps rec st = (Inr (n, b), s) \<longrightarrow>
         st' = s \<and> (\<exists>r e. res = Some (r, e) \<and> attempt_of r = Some n \<and> window_of r = Some w))
    \<and> (st' \<noteq> st \<longrightarrow> (\<exists>w v rec. attempt_due env deps claimed ctx w v rec \<and> st' = snd (pd_ledger deps rec st)))
    \<and> (art' \<noteq> art \<longrightarrow> (\<exists>w rec n b. attempt_due env deps claimed ctx w Verdict_passed rec \<and> pd_ledger deps rec st = (Inr (n, b), st')))"
proof (cases "pd_enabled deps \<and> field (request claimed) ''mode'' = JStr ''promotion''")
  case False
  thus ?thesis by (auto simp: resolvePromotionGate_def attempt_due_def)
next
  case True
  hence on: "pd_enabled deps" "field (request claimed) ''mode'' = JStr ''promotion''" by simp_all
  show ?thesis
  proof (rule gate_ways [OF assms on, of ctx st art], goal_cases)
    case (1 reason x)
    have "\<not> attempt_due env deps claimed ctx w v rec" for w v rec using 1(2) unfolding attempt_due_iff by blast
    thus ?case using 1(1) on by auto
  next
    case (2 key curated epochId coverage tf w v mc mcur r e st' art')
    have un: "e = None \<and> art' = art \<and> (reason \<noteq> Attempt_record_failed \<longrightarrow> st' = st)" if "r = Not_qualified reason None x" for reason x
      using settle_unnumbered 2(2) unfolding that by metis
    show ?case
    proof (cases "\<exists>epochKey identity h. attemptKeys env deps claimed ctx epochId = Inr (epochKey, identity)
        \<and> outcomeHash env (px_candidate ctx) = Inr h")
      case False
      have "\<not> attempt_due env deps claimed ctx w' v' rec" for w' v' rec
        using gate_evaluates_unique(3) [OF 2(1)] False unfolding attempt_due_iff by blast
      thus ?thesis using settle_unrecorded [OF False 2(2)] 2(3) on by auto
    next
      case True
      then obtain epochKey identity h where k: "attemptKeys env deps claimed ctx epochId = Inr (epochKey, identity)"
          "outcomeHash env (px_candidate ctx) = Inr h" by blast
      define rec where "rec = \<lparr>pa_qualificationEpochKey = epochKey, pa_attemptIdentity = identity,
        pa_requestFingerprint = requestFingerprint claimed, pa_datasetFingerprint = px_datasetFingerprint ctx,
        pa_runId = px_runId ctx, pa_resultHash = h, pa_passed = (v = Verdict_passed), pa_createdAtMs = px_now ctx\<rparr>"
      obtain a st1 where l: "pd_ledger deps rec st = (a, st1)" by (cases "pd_ledger deps rec st")
      have due: "attempt_due env deps claimed ctx w v rec" using on 2(1) k unfolding attempt_due_iff rec_def by blast
      have only: "w' = w \<and> v' = v \<and> rec' = rec" if "attempt_due env deps claimed ctx w' v' rec'" for w' v' rec'
        using that gate_evaluates_unique [OF 2(1)] k unfolding attempt_due_iff rec_def by (metis Inr_inject prod.inject)
      note s = settle_recorded [OF k rec_def l 2(2)]
      have num: "\<exists>b. a = Inr (n, b)" if "attempt_of r = Some n" for n using s that by (auto split: sum.splits)
      have pass: "\<exists>n b. a = Inr (n, b) \<and> v = Verdict_passed" if "art' \<noteq> art"
        using s that by (cases v; cases a) auto
      have named: "\<exists>w v rec b. attempt_due env deps claimed ctx w v rec \<and> window_of r = Some w \<and> pd_ledger deps rec st = (Inr (n, b), st')"
        if "attempt_of r = Some n" for n using num [OF that] s l due by blast
      have counted: "st' = s' \<and> attempt_of r = Some n \<and> window_of r = Some w'"
        if "attempt_due env deps claimed ctx w' v' rec'" "pd_ledger deps rec' st = (Inr (n, b), s')" for w' v' rec' n b s'
        using only [OF that(1)] that(2) s l by auto
      have wrote: "\<exists>w v rec. attempt_due env deps claimed ctx w v rec \<and> st' = snd (pd_ledger deps rec st)"
        using due s l by (metis snd_conv)
      have stored: "\<exists>w rec n b. attempt_due env deps claimed ctx w Verdict_passed rec \<and> pd_ledger deps rec st = (Inr (n, b), st')"
        if "art' \<noteq> art" using pass [OF that] due s l by blast
      show ?thesis unfolding 2(3) option.inject prod.inject
        by (intro exI [of _ "Some (r, e)"] exI [of _ st'] exI [of _ art'] conjI refl)
          (simp_all only: on option.inject prod.inject option.distinct simp_thms,
           use un in blast, use named in blast, use counted in blast, use wrote in blast, use stored in blast)
    qed
  qed
qed

subsection \<open>A promotion that passes\<close>

definition sampleGateEnv :: gate_env where
  "sampleGateEnv = \<lparr>ge_dates = sampleDates, ge_dec8 = (\<lambda>_. ''0''), ge_sha256 = id,
     ge_computeMetrics = (\<lambda>_ _ _ _. [(''sharpe'', JFin 1), (''max_drawdown'', JFin (1 / 2)), (''win_rate'', JFin 1), (''total_trades'', JFin 1)]),
     ge_parseTimeframeMs = (\<lambda>tf. if tf = ''1'' then Some 1 else None)\<rparr>"

definition sampleOutcome :: completed_outcome where
  "sampleOutcome = \<lparr>co_trades = [JObj [(''entryTs'', JNum (JFin 9)), (''exitTs'', JNum (JFin 10))]],
     co_equityCurve = map (\<lambda>t. \<lparr>ep_barIndex = t, ep_barTs = t, ep_equity = JFin 1\<rparr>) [7, 8, 9], co_value = JNull\<rparr>"

definition samplePromotionDeps :: "promotion_db promotion_deps" where
  "samplePromotionDeps = \<lparr>pd_enabled = True, pd_ledger = pg_recordIfNewAndGetAttempt False,
     pd_resolve = resolveEpoch (Inr [''d'']),
     pd_policy = \<lparr>gp_thresholds = DEFAULT_THRESHOLDS, gp_metrics = [''sharpe''], gp_minWarmupBars = 1, gp_minTrades = 1,
       pp_policyVersion = ''v'', pp_fraction = JFin (1 / 3)\<rparr>\<rparr>"

definition samplePromotionCtx :: "(json \<times> string) list promotion_ctx" where
  "samplePromotionCtx = \<lparr>px_candidate = sampleOutcome, px_curated = Some sampleOutcome, px_signingKey = Some ''k'', px_bundleRejected = Inr False,
     px_bundleRef = ''b'', px_datasetFingerprint = ''f'', px_coverage = Some samplePeriod, px_executedBarTimes = [[2, 3, 4, 5, 6, 7, 8, 9, 10]],
     px_datasetTimeframe = Some ''1'', px_runId = ''r'', px_now = 0, px_sign = (\<lambda>_ _. Inr ''s''),
     px_writeArtifact = (\<lambda>a art. (Inr ''a'', art @ [a]))\<rparr>"

definition samplePromotionJob :: job_row where
  "samplePromotionJob = newRow \<lparr>nj_jobId = ''r'', nj_runId = ''r'', nj_resumeToken = None, nj_requestFingerprint = ''fp'', nj_correlationId = None,
     nj_workflowId = None, nj_request = JObj [(''mode'', JStr ''promotion''), (''timeframe'', JStr ''1''), (''datasetRef'', JStr ''d''),
       (''moduleRef'', JObj [(''id'', JStr ''m'')]), (''symbols'', JArr [JStr ''x'']), (''curatedBaselineRef'', JObj [(''id'', JStr ''c''), (''version'', JStr ''1'')]),
       (''period'', JObj [(''from'', JStr ''ii''), (''to'', JStr ''iiiiiiiiiii'')])],
     nj_effectiveSeed = JFin 0, nj_datasetRef = ''d'', nj_bundleHash = None, nj_callbackUrl = None, nj_queueDeadlineMs = None,
     nj_runTimeoutMs = 0, nj_acceptedAtMs = 0\<rparr>"

abbreviation sampleGateRun where
  "sampleGateRun \<equiv> resolvePromotionGate sampleGateEnv samplePromotionDeps samplePromotionJob samplePromotionCtx emptyPromotion []"

theorem promotion_pass_earned_witness:
  "(case sampleGateRun of Some (Some (Passed n w, ref), st, art) \<Rightarrow> n = 1 \<and> ref = Some ''a'' \<and> length art = 1 | _ \<Rightarrow> False)
    \<and> decideVerdict (we_metrics (evaluateWindow sampleGateEnv sampleOutcome
        \<lparr>period_from = ''iiiiiiii'', period_to = ''iiiiiiiiiii''\<rparr> [''sharpe''])) DEFAULT_THRESHOLDS = Verdict_passed"
proof -
  have run: "case sampleGateRun of Some (Some (Passed n w, ref), st, art) \<Rightarrow> n = 1 \<and> ref = Some ''a'' \<and> length art = 1
      \<and> w = \<lparr>period_from = ''iiiiiiii'', period_to = ''iiiiiiiiiii''\<rparr> | _ \<Rightarrow> False"
    by code_simp
  then obtain n w ref st art where g: "sampleGateRun = Some (Some (Passed n w, ref), st, art)"
      "w = \<lparr>period_from = ''iiiiiiii'', period_to = ''iiiiiiiiiii''\<rparr>" "n = 1" "ref = Some ''a''" "length art = 1"
    by (auto split: option.splits prod.splits promotion_result.splits)
  have d: "gp_metrics (pd_policy samplePromotionDeps) = [''sharpe'']" "gp_thresholds (pd_policy samplePromotionDeps) = DEFAULT_THRESHOLDS"
      "px_candidate samplePromotionCtx = sampleOutcome"
    by (simp_all add: samplePromotionDeps_def samplePromotionCtx_def)
  from promotion_pass_earned [OF g(1)] have "decideVerdict (we_metrics (evaluateWindow sampleGateEnv sampleOutcome w [''sharpe''])) DEFAULT_THRESHOLDS = Verdict_passed"
    unfolding d by blast
  thus ?thesis using g by simp
qed

theorem promotion_answered_witness:
  "\<exists>res st art. resolvePromotionGate sampleGateEnv samplePromotionDeps samplePromotionJob
     (samplePromotionCtx\<lparr>px_signingKey := None\<rparr>) emptyPromotion [] = Some (Some res, st, art) \<and> st = emptyPromotion"
proof -
  have t: "\<forall>tf iv. ge_parseTimeframeMs sampleGateEnv tf = Some iv \<longrightarrow> 0 < iv" by (simp add: sampleGateEnv_def)
  have r: "resolvePromotionGate sampleGateEnv samplePromotionDeps samplePromotionJob (samplePromotionCtx\<lparr>px_signingKey := None\<rparr>) emptyPromotion []
      = Some (Some (Not_qualified Signing_unavailable None None, None), emptyPromotion, [])"
    by (simp add: resolvePromotionGate_def resolveWindow_def samplePromotionDeps_def samplePromotionJob_def newRow_def)
  obtain res st art where "resolvePromotionGate sampleGateEnv samplePromotionDeps samplePromotionJob
      (samplePromotionCtx\<lparr>px_signingKey := None\<rparr>) emptyPromotion [] = Some (res, st, art)"
    and "\<forall>reason w e. res = Some (Not_qualified reason None w, e) \<longrightarrow> e = None \<and> art = [] \<and> (reason \<noteq> Attempt_record_failed \<longrightarrow> st = emptyPromotion)"
    using promotion_answered [OF t, of samplePromotionDeps samplePromotionJob "samplePromotionCtx\<lparr>px_signingKey := None\<rparr>" emptyPromotion "[]"]
    by (elim exE conjE) (rule that, assumption+)
  thus ?thesis using r by auto
qed

end
