(* ===== verification/Dedupe_Ledger.thy ===== *)
theory Dedupe_Ledger
  imports Promotion_Gate Job_Store "HOL-Library.Multiset"
begin

text \<open>
  The append-only ledgers of the worker: trials (\<open>apps/backtester/src/jobs/ledger/trial-ledger.ts\<close>, \<open>pg-trial-ledger.ts\<close>)
  and the novelty pool (\<open>novelty-pool.ts\<close>, \<open>pg-novelty-pool.ts\<close>), and the recording of a trial (\<open>record-trial.ts\<close>).  A
  record belongs to a group and is stored once per request fingerprint of the group.  In memory a group is a map
  in a map; in Postgres a row of one table whose primary key is the pair.  A call that throws is a left value.
\<close>

subsection \<open>The two representations\<close>

text \<open>\<open>recordIfNew\<close> on a map of maps: the group is created when it is missing, even if nothing is then stored.\<close>

definition maps_record :: "('r \<Rightarrow> string) \<Rightarrow> ('r \<Rightarrow> string) \<Rightarrow> 'r \<Rightarrow> 'r js_map js_map \<Rightarrow> bool \<times> 'r js_map js_map" where
  "maps_record grp fp r m =
     (let (fam, m1) = (case js_get m (grp r) of Some fam \<Rightarrow> (fam, m) | None \<Rightarrow> ([], js_set (grp r) [] m))
      in if js_get fam (fp r) \<noteq> None then (False, m1)
         else (True, js_set (grp r) (js_set (fp r) r fam) m1))"

definition maps_rows :: "'r js_map js_map \<Rightarrow> string \<Rightarrow> 'r list" where
  "maps_rows m g = (case js_get m g of Some fam \<Rightarrow> map snd fam | None \<Rightarrow> [])"

text \<open>\<open>INSERT ... ON CONFLICT DO NOTHING\<close>; the answer is whether a row was inserted.\<close>

definition table_record :: "('r \<Rightarrow> string) \<Rightarrow> ('r \<Rightarrow> string) \<Rightarrow> 'r \<Rightarrow> 'r list \<Rightarrow> bool \<times> 'r list" where
  "table_record grp fp r t =
     (if find (\<lambda>q. grp q = grp r \<and> fp q = fp r) t \<noteq> None then (False, t) else (True, t @ [r]))"

subsection \<open>Trials\<close>

record trial_market_context =
  mc_datasetRef :: string
  mc_symbols :: "string list"
  mc_timeframe :: string
  mc_period :: run_period

record trial_record =
  tr_familyKey :: string
  tr_requestFingerprint :: string
  tr_runId :: string
  tr_resultHash :: string
  tr_trialFamilyHint :: "string option"
  tr_marketContext :: trial_market_context
  tr_sharpe :: jsnum
  tr_skew :: jsnum
  tr_kurtosis :: jsnum
  tr_tCount :: nat
  tr_createdAtMs :: ms

record family_key_input =
  fk_trialFamilyHint :: "string option"
  fk_moduleId :: string
  fk_market :: trial_market_context

definition computeFamilyKey :: "(rat \<Rightarrow> string) \<Rightarrow> (string \<Rightarrow> string) \<Rightarrow> family_key_input \<Rightarrow> canon_error + string" where
  "computeFamilyKey dec8 sha256 req = map_sum id sha256 (canonicalJson dec8 (JObj [
     (''hint'', JStr (orElse (fk_trialFamilyHint req) (fk_moduleId req))),
     (''datasetRef'', JStr (mc_datasetRef (fk_market req))),
     (''symbols'', JArr (map JStr (sort (mc_symbols (fk_market req))))),
     (''timeframe'', JStr (mc_timeframe (fk_market req))),
     (''period'', JObj [(''from'', JStr (period_from (mc_period (fk_market req)))), (''to'', JStr (period_to (mc_period (fk_market req))))])]))"

definition mt_recordIfNew :: "trial_record \<Rightarrow> trial_record js_map js_map \<Rightarrow> bool \<times> trial_record js_map js_map" where
  "mt_recordIfNew = maps_record tr_familyKey tr_requestFingerprint"

definition mt_query :: "trial_record js_map js_map \<Rightarrow> string \<Rightarrow> trial_record list" where
  "mt_query m familyKey = maps_rows m familyKey"

definition pt_recordIfNew :: "trial_record \<Rightarrow> trial_record list \<Rightarrow> bool \<times> trial_record list" where
  "pt_recordIfNew = table_record tr_familyKey tr_requestFingerprint"

definition pt_query :: "trial_record list \<Rightarrow> string \<Rightarrow> trial_record list" where
  "pt_query t familyKey = sort_key tr_createdAtMs [r \<leftarrow> t. tr_familyKey r = familyKey]"

subsection \<open>The novelty pool\<close>

record pool_record =
  po_comparabilityKey :: string
  po_requestFingerprint :: string
  po_runId :: string
  po_resultHash :: string
  po_familyKey :: "string option"
  po_dailyDeltas :: "(string \<times> jsnum) list"
  po_createdAtMs :: ms

definition computeComparabilityKey :: "(rat \<Rightarrow> string) \<Rightarrow> (string \<Rightarrow> string) \<Rightarrow> string \<Rightarrow> string list \<Rightarrow> string \<Rightarrow> canon_error + string" where
  "computeComparabilityKey dec8 sha256 dsRef symbols timeframe = map_sum id sha256 (canonicalJson dec8 (JObj [
     (''datasetRef'', JStr dsRef), (''symbols'', JArr (map JStr (sort symbols))), (''timeframe'', JStr timeframe)]))"

definition poolOrder :: "pool_record list \<Rightarrow> pool_record list" where
  "poolOrder rows = sort_key po_createdAtMs (sort_key po_runId rows)"

definition mn_recordIfNew :: "pool_record \<Rightarrow> pool_record js_map js_map \<Rightarrow> bool \<times> pool_record js_map js_map" where
  "mn_recordIfNew = maps_record po_comparabilityKey po_requestFingerprint"

definition mn_query :: "pool_record js_map js_map \<Rightarrow> string \<Rightarrow> string option \<Rightarrow> pool_record list" where
  "mn_query m key exclude = poolOrder [r \<leftarrow> maps_rows m key. Some (po_requestFingerprint r) \<noteq> exclude]"

definition pn_recordIfNew :: "pool_record \<Rightarrow> pool_record list \<Rightarrow> bool \<times> pool_record list" where
  "pn_recordIfNew = table_record po_comparabilityKey po_requestFingerprint"

definition pn_query :: "pool_record list \<Rightarrow> string \<Rightarrow> string option \<Rightarrow> pool_record list" where
  "pn_query t key exclude = poolOrder
     (if truthy exclude then [r \<leftarrow> t. po_comparabilityKey r = key \<and> Some (po_requestFingerprint r) \<noteq> exclude]
      else [r \<leftarrow> t. po_comparabilityKey r = key])"

subsection \<open>Recording a trial\<close>

record dsr_inputs =
  di_sharpe :: jsnum
  di_skew :: jsnum
  di_kurtosis :: jsnum
  di_tCount :: nat

text \<open>The two numeric kernels, and the ledger, whose calls may throw.\<close>

record 's trial_deps =
  td_dsrInputs :: "equity_point list \<Rightarrow> dsr_inputs option"
  td_computeDsr :: "dsr_inputs \<Rightarrow> jsnum list \<Rightarrow> nat \<Rightarrow> (nat \<times> jsnum \<times> jsnum \<times> jsnum \<times> string \<times> jsnum) option"
  td_record :: "trial_record \<Rightarrow> 's \<Rightarrow> (unit + bool) \<times> 's"
  td_query :: "'s \<Rightarrow> string \<Rightarrow> unit + trial_record list"
  td_empiricalMinN :: nat
  td_now :: ms

record trial_input =
  ti_request :: family_key_input
  ti_requestFingerprint :: string
  ti_runId :: string
  ti_resultHash :: string
  ti_equity :: "equity_point list"

definition trialOf :: "'s trial_deps \<Rightarrow> trial_input \<Rightarrow> string \<Rightarrow> dsr_inputs \<Rightarrow> trial_record" where
  "trialOf deps input familyKey inputs = \<lparr>tr_familyKey = familyKey, tr_requestFingerprint = ti_requestFingerprint input,
     tr_runId = ti_runId input, tr_resultHash = ti_resultHash input, tr_trialFamilyHint = fk_trialFamilyHint (ti_request input),
     tr_marketContext = fk_market (ti_request input), tr_sharpe = di_sharpe inputs, tr_skew = di_skew inputs,
     tr_kurtosis = di_kurtosis inputs, tr_tCount = di_tCount inputs, tr_createdAtMs = td_now deps\<rparr>"

definition recordTrialAndComputeContext :: "(rat \<Rightarrow> string) \<Rightarrow> (string \<Rightarrow> string) \<Rightarrow> 's trial_deps \<Rightarrow> trial_input \<Rightarrow> 's \<Rightarrow>
    (canon_error + trial_context option) \<times> 's" where
  "recordTrialAndComputeContext dec8 sha256 deps input st =
     (case td_dsrInputs deps (ti_equity input) of
        None \<Rightarrow> (Inr None, st)
      | Some inputs \<Rightarrow>
          (case computeFamilyKey dec8 sha256 (ti_request input) of
             Inl e \<Rightarrow> (Inl e, st)
           | Inr familyKey \<Rightarrow>
               (let st1 = snd (td_record deps (trialOf deps input familyKey inputs) st)
                in case td_query deps st1 familyKey of
                     Inl _ \<Rightarrow> (Inr None, st1)
                   | Inr trials \<Rightarrow>
                       (case td_computeDsr deps inputs (map tr_sharpe trials) (td_empiricalMinN deps) of
                          None \<Rightarrow> (Inr None, st1)
                        | Some (n, deflated, sr0, vSR, basis, tCount) \<Rightarrow>
                            (Inr (Some \<lparr>tc_familyKey = familyKey, tc_familyHint = fk_trialFamilyHint (ti_request input), tc_trialCount = n,
                               tc_deflatedSharpe = deflated, tc_sr0 = sr0, tc_vSR = vSR, tc_vSRBasis = basis, tc_tCount = tCount\<rparr>), st1)))))"

subsection \<open>What a ledger promises\<close>

text \<open>The first record of every group and fingerprint, in order.\<close>

fun firsts :: "('r \<Rightarrow> string) \<Rightarrow> ('r \<Rightarrow> string) \<Rightarrow> 'r list \<Rightarrow> 'r list \<Rightarrow> 'r list" where
  "firsts grp fp kept [] = kept"
| "firsts grp fp kept (r # rs) = firsts grp fp
     (if \<exists>q \<in> set kept. grp q = grp r \<and> fp q = fp r then kept else kept @ [r]) rs"

locale dedupe_ledger =
  fixes rec :: "'r \<Rightarrow> 's \<Rightarrow> bool \<times> 's" and rows :: "'s \<Rightarrow> string \<Rightarrow> 'r list" and inv :: "'s \<Rightarrow> bool"
    and grp :: "'r \<Rightarrow> string" and fp :: "'r \<Rightarrow> string"
  assumes rec_inv: "inv st \<Longrightarrow> inv (snd (rec r st))"
    and rec_flag: "inv st \<Longrightarrow> fst (rec r st) \<longleftrightarrow> fp r \<notin> fp ` set (rows st (grp r))"
    and rec_rows: "inv st \<Longrightarrow> mset (rows (snd (rec r st)) g) = mset (rows st g) + (if fst (rec r st) \<and> g = grp r then {#r#} else {#})"
begin

lemma rec_kept:
  assumes "inv st" "\<And>g. mset (rows st g) = mset [r \<leftarrow> kept. grp r = g]"
  shows "mset (rows (snd (rec r st)) g) =
    mset [q \<leftarrow> (if \<exists>q \<in> set kept. grp q = grp r \<and> fp q = fp r then kept else kept @ [r]). grp q = g]"
proof -
  have s: "set (rows st (grp r)) = {q \<in> set kept. grp q = grp r}" using arg_cong [OF assms(2), of set_mset] by simp
  have "fp r \<in> fp ` {q \<in> set kept. grp q = grp r} \<longleftrightarrow> (\<exists>q \<in> set kept. grp q = grp r \<and> fp q = fp r)" by (auto simp: image_iff)
  hence "fst (rec r st) \<longleftrightarrow> \<not> (\<exists>q \<in> set kept. grp q = grp r \<and> fp q = fp r)" using rec_flag [OF assms(1), of r] s by simp
  thus ?thesis using rec_rows [OF assms(1), of r g] assms(2) by simp
qed

lemma run_rows:
  assumes "inv st" "\<And>g. mset (rows st g) = mset [r \<leftarrow> kept. grp r = g]"
  shows "inv (fold (\<lambda>r. snd \<circ> rec r) rs st)
    \<and> mset (rows (fold (\<lambda>r. snd \<circ> rec r) rs st) g) = mset [r \<leftarrow> firsts grp fp kept rs. grp r = g]"
  using assms
proof (induction rs arbitrary: st kept)
  case (Cons r rs)
  from Cons.IH [OF rec_inv [OF Cons.prems(1)] rec_kept [OF Cons.prems]] show ?case by simp
qed simp

end

lemma firsts_mem:
  "(\<exists>q \<in> set (firsts grp fp kept rs). grp q = g \<and> fp q = x) \<longleftrightarrow> (\<exists>q \<in> set kept \<union> set rs. grp q = g \<and> fp q = x)"
proof (induction rs arbitrary: kept)
  case (Cons r rs)
  show ?case
  proof (cases "\<exists>q \<in> set kept. grp q = grp r \<and> fp q = fp r")
    case True
    hence "firsts grp fp kept (r # rs) = firsts grp fp kept rs" by simp
    thus ?thesis using Cons.IH [of kept] True by auto
  next
    case False
    hence "firsts grp fp kept (r # rs) = firsts grp fp (kept @ [r]) rs" by (simp only: firsts.simps if_False)
    thus ?thesis using Cons.IH [of "kept @ [r]"] by auto
  qed
qed simp

lemma firsts_distinct:
  assumes "distinct (map fp [q \<leftarrow> kept. grp q = g])" shows "distinct (map fp [q \<leftarrow> firsts grp fp kept rs. grp q = g])"
  using assms
proof (induction rs arbitrary: kept)
  case (Cons r rs)
  have "distinct (map fp [q \<leftarrow> (if \<exists>q \<in> set kept. grp q = grp r \<and> fp q = fp r then kept else kept @ [r]). grp q = g])"
    using Cons.prems by auto
  from Cons.IH [OF this] show ?case by simp
qed simp

lemma firsts_count: "length [q \<leftarrow> firsts grp fp [] rs. grp q = g] = card (fp ` {q \<in> set rs. grp q = g})"
proof -
  have d: "distinct (map fp [q \<leftarrow> firsts grp fp [] rs. grp q = g])" by (rule firsts_distinct) simp
  have "fp ` {q \<in> set (firsts grp fp [] rs). grp q = g} = fp ` {q \<in> set rs. grp q = g}"
    using firsts_mem [of grp fp "[]" rs g] by (auto simp: image_iff) metis+
  thus ?thesis using distinct_card [OF d] by simp
qed

subsection \<open>The interpretations\<close>

definition familyOf :: "'r js_map js_map \<Rightarrow> string \<Rightarrow> 'r js_map" where
  "familyOf m g = (case js_get m g of Some fam \<Rightarrow> fam | None \<Rightarrow> [])"

definition maps_ok :: "('r \<Rightarrow> string) \<Rightarrow> 'r js_map js_map \<Rightarrow> bool" where
  "maps_ok fp m \<longleftrightarrow> (\<forall>g. \<forall>p \<in> set (familyOf m g). fst p = fp (snd p))"

lemma maps_rows_family: "maps_rows m g = map snd (familyOf m g)"
  by (simp add: maps_rows_def familyOf_def split: option.split)

lemma js_set_new: "js_get m k = None \<Longrightarrow> js_set k v m = m @ [(k, v)]"
  by (induction m) (auto simp: js_get_def js_set_def split: if_splits)

lemma maps_record_family:
  "fst (maps_record grp fp r m) \<longleftrightarrow> js_get (familyOf m (grp r)) (fp r) = None"
  "familyOf (snd (maps_record grp fp r m)) g = familyOf m g @
     (if fst (maps_record grp fp r m) \<and> g = grp r then [(fp r, r)] else [])"
proof -
  show "fst (maps_record grp fp r m) \<longleftrightarrow> js_get (familyOf m (grp r)) (fp r) = None"
    by (simp add: maps_record_def familyOf_def split: option.split)
  show "familyOf (snd (maps_record grp fp r m)) g = familyOf m g @ (if fst (maps_record grp fp r m) \<and> g = grp r then [(fp r, r)] else [])"
  proof (cases "js_get m (grp r)")
    case None
    thus ?thesis by (simp add: maps_record_def familyOf_def js_set_new [of "[]"])
  next
    case (Some fam)
    show ?thesis
    proof (cases "js_get fam (fp r)")
      case None
      thus ?thesis using Some js_set_new [OF None, of r] by (simp add: maps_record_def familyOf_def)
    qed (use Some in \<open>simp add: maps_record_def familyOf_def\<close>)
  qed
qed

lemma maps_ledger:
  assumes "\<And>m g. mset (rows m g) = mset (maps_rows m g)"
  shows "dedupe_ledger (maps_record grp fp) rows (maps_ok fp) grp fp"
proof (unfold_locales, goal_cases)
  case (1 st r)
  thus ?case by (auto simp: maps_ok_def maps_record_family(2) split: if_splits)
next
  case (2 st r)
  let ?fam = "familyOf st (grp r)"
  have s: "set (rows st (grp r)) = set (map snd ?fam)" using arg_cong [OF assms, of set_mset st "grp r"] by (simp add: maps_rows_family)
  have "js_get ?fam (fp r) = None \<longleftrightarrow> fp r \<notin> fst ` set ?fam" by (simp add: js_get_def map_of_eq_None_iff)
  also have "fst ` set ?fam = fp ` set (map snd ?fam)" using 2 by (force simp: maps_ok_def image_iff)
  finally show ?case by (simp only: maps_record_family(1) s)
next
  case (3 st r g)
  show ?case by (simp add: assms maps_rows_family maps_record_family(2))
qed

lemma table_ledger:
  assumes "\<And>t g. mset (rows t g) = mset [r \<leftarrow> t. grp r = g]"
  shows "dedupe_ledger (table_record grp fp) rows (\<lambda>_. True) grp fp"
proof (unfold_locales, goal_cases)
  case (2 st r)
  have "set (rows st (grp r)) = {q \<in> set st. grp q = grp r}" using arg_cong [OF assms, of set_mset] by simp
  thus ?case by (auto simp: table_record_def find_None_iff image_iff)
next
  case (3 st r g)
  show ?case by (simp add: assms table_record_def)
qed simp

interpretation mem_trials: dedupe_ledger mt_recordIfNew mt_query "maps_ok tr_requestFingerprint" tr_familyKey tr_requestFingerprint
  unfolding mt_recordIfNew_def by (rule maps_ledger) (simp add: mt_query_def)

interpretation pg_trials: dedupe_ledger pt_recordIfNew pt_query "\<lambda>_. True" tr_familyKey tr_requestFingerprint
  unfolding pt_recordIfNew_def by (rule table_ledger) (simp add: pt_query_def)

interpretation mem_pool: dedupe_ledger mn_recordIfNew "\<lambda>m g. mn_query m g None" "maps_ok po_requestFingerprint"
    po_comparabilityKey po_requestFingerprint
  unfolding mn_recordIfNew_def by (rule maps_ledger) (simp add: mn_query_def poolOrder_def)

interpretation pg_pool: dedupe_ledger pn_recordIfNew "\<lambda>t g. pn_query t g None" "\<lambda>_. True" po_comparabilityKey po_requestFingerprint
  unfolding pn_recordIfNew_def by (rule table_ledger) (simp add: pn_query_def poolOrder_def truthy_def)

subsection \<open>Properties\<close>

text \<open>Claim C37. Replays never inflate a ledger.  After any sequence of records, each of the two trial ledgers and of the two
  novelty pools answers a group's query with exactly one record for every request fingerprint recorded in that
  group, the first of each; the memory and the Postgres ledger hold the same records, and the number of
  trials is the number of distinct fingerprints.\<close>
theorem ledgers_count_once:
  "mset (mt_query (fold (\<lambda>r. snd \<circ> mt_recordIfNew r) ts []) g) = mset [r \<leftarrow> firsts tr_familyKey tr_requestFingerprint [] ts. tr_familyKey r = g]
    \<and> mset (pt_query (fold (\<lambda>r. snd \<circ> pt_recordIfNew r) ts []) g) = mset (mt_query (fold (\<lambda>r. snd \<circ> mt_recordIfNew r) ts []) g)
    \<and> length (pt_query (fold (\<lambda>r. snd \<circ> pt_recordIfNew r) ts []) g) = card (tr_requestFingerprint ` {r \<in> set ts. tr_familyKey r = g})
    \<and> mset (mn_query (fold (\<lambda>r. snd \<circ> mn_recordIfNew r) ps []) g None) =
        mset [r \<leftarrow> firsts po_comparabilityKey po_requestFingerprint [] ps. po_comparabilityKey r = g]
    \<and> mset (pn_query (fold (\<lambda>r. snd \<circ> pn_recordIfNew r) ps []) g None) = mset (mn_query (fold (\<lambda>r. snd \<circ> mn_recordIfNew r) ps []) g None)"
proof -
  have e: "mset (mt_query [] g) = mset [r \<leftarrow> []. tr_familyKey r = g]" "mset (pt_query [] g) = mset [r \<leftarrow> []. tr_familyKey r = g]"
      "mset (mn_query [] g None) = mset [r \<leftarrow> []. po_comparabilityKey r = g]" "mset (pn_query [] g None) = mset [r \<leftarrow> []. po_comparabilityKey r = g]"
      "maps_ok tr_requestFingerprint []" "maps_ok po_requestFingerprint []" for g
    by (simp_all add: mt_query_def maps_rows_def pt_query_def mn_query_def pn_query_def poolOrder_def maps_ok_def familyOf_def)
  have t: "mset (mt_query (fold (\<lambda>r. snd \<circ> mt_recordIfNew r) ts []) g) = mset [r \<leftarrow> firsts tr_familyKey tr_requestFingerprint [] ts. tr_familyKey r = g]"
      "mset (pt_query (fold (\<lambda>r. snd \<circ> pt_recordIfNew r) ts []) g) = mset [r \<leftarrow> firsts tr_familyKey tr_requestFingerprint [] ts. tr_familyKey r = g]"
    using mem_trials.run_rows [OF e(5,1), of ts g] pg_trials.run_rows [OF TrueI e(2), of ts g] by blast+
  have p: "mset (mn_query (fold (\<lambda>r. snd \<circ> mn_recordIfNew r) ps []) g None) =
        mset [r \<leftarrow> firsts po_comparabilityKey po_requestFingerprint [] ps. po_comparabilityKey r = g]"
      "mset (pn_query (fold (\<lambda>r. snd \<circ> pn_recordIfNew r) ps []) g None) =
        mset [r \<leftarrow> firsts po_comparabilityKey po_requestFingerprint [] ps. po_comparabilityKey r = g]"
    using mem_pool.run_rows [OF e(6,3), of ps g] pg_pool.run_rows [OF TrueI e(4), of ps g] by blast+
  have "length (pt_query (fold (\<lambda>r. snd \<circ> pt_recordIfNew r) ts []) g) = card (tr_requestFingerprint ` {r \<in> set ts. tr_familyKey r = g})"
    using mset_eq_length [OF t(2)] firsts_count [where grp = tr_familyKey and fp = tr_requestFingerprint and rs = ts and g = g] by simp
  thus ?thesis using t p by simp
qed

text \<open>Over the Postgres ledger, a run recorded again is scored against the same family of trials, with no trial added.\<close>

theorem trial_replay:
  assumes "td_record deps = (\<lambda>r st. apfst Inr (pt_recordIfNew r st))" "td_query deps = (\<lambda>st k. Inr (pt_query st k))"
    and "recordTrialAndComputeContext dec8 sha256 deps input st = (res, st')"
  shows "recordTrialAndComputeContext dec8 sha256 (deps\<lparr>td_now := later\<rparr>) input st' = (res, st')"
proof (cases "td_dsrInputs deps (ti_equity input)")
  case None
  thus ?thesis using assms(3) by (simp add: recordTrialAndComputeContext_def)
next
  case (Some inputs)
  show ?thesis
  proof (cases "computeFamilyKey dec8 sha256 (ti_request input)")
    case (Inl e)
    thus ?thesis using Some assms(3) by (simp add: recordTrialAndComputeContext_def)
  next
    case (Inr k)
    let ?t = "trialOf deps input k inputs" and ?t' = "trialOf (deps\<lparr>td_now := later\<rparr>) input k inputs"
    have st': "st' = snd (pt_recordIfNew ?t st)"
      using assms Some Inr by (auto simp: recordTrialAndComputeContext_def Let_def apfst_def map_prod_def split: option.splits prod.splits)
    have "find (\<lambda>q. tr_familyKey q = tr_familyKey ?t' \<and> tr_requestFingerprint q = tr_requestFingerprint ?t') st' \<noteq> None"
      unfolding st' by (auto simp: pt_recordIfNew_def table_record_def trialOf_def find_snoc split: option.split)
    hence "snd (pt_recordIfNew ?t' st') = st'" by (simp add: pt_recordIfNew_def table_record_def)
    thus ?thesis using assms Some Inr st'
      by (auto simp: recordTrialAndComputeContext_def Let_def apfst_def map_prod_def split: option.splits prod.splits)
  qed
qed

end
