(* ===== verification/Seeded_Rng.thy ===== *)
theory Seeded_Rng
  imports Complex_Main "HOL-Library.Word"
begin

text \<open>
  The seeded generator of a run (\<open>apps/backtester/src/determinism/rng.ts\<close>): \<open>mulberry32\<close> on 32-bit words.  The bitwise operators
  and \<open>Math.imul\<close> of JavaScript act on 32-bit integers, so that signed and unsigned readings of the state are one
  word; \<open>| 0\<close> after the addition is the wrap-around of the word.
\<close>

unbundle bit_operations_syntax

subsection \<open>The generator\<close>

text \<open>\<open>seed >>> 0\<close> for an integral seed: reduction modulo \<open>2 ^ 32\<close>.\<close>

definition createSeededRng :: "int \<Rightarrow> 32 word" where
  "createSeededRng seed = word_of_int seed"

definition rng_advance :: "32 word \<Rightarrow> 32 word" where
  "rng_advance a = a + 0x6d2b79f5"

definition rng_output :: "32 word \<Rightarrow> 32 word" where
  "rng_output a =
     (let t = (a XOR drop_bit 15 a) * (1 OR a);
          t' = (t + (t XOR drop_bit 7 t) * (61 OR t)) XOR t
      in t' XOR drop_bit 14 t')"

text \<open>\<open>next()\<close>: the number drawn and the new state.\<close>

definition rng_next :: "32 word \<Rightarrow> rat \<times> 32 word" where
  "rng_next a = (let a' = rng_advance a in (of_nat (unat (rng_output a')) / 4294967296, a'))"

fun rng_draws :: "nat \<Rightarrow> 32 word \<Rightarrow> rat list" where
  "rng_draws 0 a = []"
| "rng_draws (Suc n) a = (let (x, a') = rng_next a in x # rng_draws n a')"

subsection \<open>Facts\<close>

lemma unat_below: "unat (w :: 32 word) < 4294967296"
  using unsigned_less [of w] by simp

lemma quotient_range:
  assumes "m < 4294967296" shows "0 \<le> rat_of_nat m / 4294967296 \<and> rat_of_nat m / 4294967296 < 1"
proof -
  have "rat_of_nat m < rat_of_nat 4294967296" using assms by (simp only: of_nat_less_iff)
  thus ?thesis by simp
qed

lemma advance_iter: "(rng_advance ^^ n) a = a + of_nat n * 0x6d2b79f5"
  by (induction n) (simp_all add: rng_advance_def algebra_simps)

lemma rng_draws_nth:
  "length (rng_draws n a) = n"
  "k < n \<Longrightarrow> rng_draws n a ! k = of_nat (unat (rng_output (a + of_nat (Suc k) * 0x6d2b79f5))) / 4294967296"
proof -
  show "length (rng_draws n a) = n" by (induction n arbitrary: a) (simp_all add: rng_next_def Let_def)
  show "rng_draws n a ! k = of_nat (unat (rng_output (a + of_nat (Suc k) * 0x6d2b79f5))) / 4294967296" if "k < n"
    using that
  proof (induction n arbitrary: a k)
    case (Suc n)
    show ?case
    proof (cases k)
      case 0
      thus ?thesis by (simp add: rng_next_def Let_def rng_advance_def)
    next
      case (Suc j)
      have "rng_draws n (rng_advance a) ! j = of_nat (unat (rng_output (rng_advance a + of_nat (Suc j) * 0x6d2b79f5))) / 4294967296"
        using Suc.IH Suc.prems Suc by simp
      thus ?thesis using Suc by (simp add: rng_next_def Let_def rng_advance_def algebra_simps)
    qed
  qed simp
qed

text \<open>The increment is odd, so the state runs through all words before it repeats.\<close>

lemma odd_multiple_zero:
  assumes "(of_nat n :: 32 word) * 0x6d2b79f5 = 0" shows "n mod 4294967296 = 0"
proof -
  have inverse: "(0x6d2b79f5 :: 32 word) * 0xdc58aa5d = 1" by simp
  have "(of_nat n :: 32 word) = of_nat n * (0x6d2b79f5 * 0xdc58aa5d)" by (simp only: inverse mult_1_right)
  also have "\<dots> = of_nat n * 0x6d2b79f5 * 0xdc58aa5d" by (simp only: mult.assoc)
  also have "\<dots> = 0" by (simp only: assms mult_zero_left)
  finally have "take_bit 32 n = 0" by (simp add: word_of_nat_eq_0_iff take_bit_eq_0_iff)
  thus ?thesis by (simp add: take_bit_eq_mod)
qed

lemma full_turn: "(of_nat 4294967296 :: 32 word) = 0"
  by (simp add: word_of_nat_eq_0_iff)

lemma same_state:
  "(a :: 32 word) + of_nat i * 0x6d2b79f5 = a + of_nat j * 0x6d2b79f5 \<longleftrightarrow> i mod 4294967296 = j mod 4294967296" (is "?L \<longleftrightarrow> ?R")
proof (induction i j rule: linorder_wlog)
  case (le i j)
  have "(of_nat j :: 32 word) = of_nat i + of_nat (j - i)" using le by (simp flip: of_nat_add)
  hence "a + of_nat i * 0x6d2b79f5 = a + of_nat j * 0x6d2b79f5 \<longleftrightarrow> (of_nat (j - i) :: 32 word) * 0x6d2b79f5 = 0"
    by (simp only: distrib_right) (metis add.right_neutral add_left_cancel)
  also have "\<dots> \<longleftrightarrow> (j - i) mod 4294967296 = 0"
  proof
    assume "(j - i) mod 4294967296 = 0"
    then obtain q where "j - i = 4294967296 * q" by auto
    hence "(of_nat (j - i) :: 32 word) = of_nat 4294967296 * of_nat q" by (simp only: of_nat_mult)
    thus "(of_nat (j - i) :: 32 word) * 0x6d2b79f5 = 0" by (simp only: full_turn mult_zero_left)
  qed (rule odd_multiple_zero)
  also have "\<dots> \<longleftrightarrow> i mod 4294967296 = j mod 4294967296"
    using le by (metis mod_eq_dvd_iff_nat mod_eq_0_iff_dvd)
  finally show ?case .
qed (metis (no_types))

text \<open>Claim C40. The draws of a seeded generator are numbers in \<open>[0, 1)\<close>; the \<open>k\<close>-th is a function of the seed and \<open>k\<close> alone,
  so replaying a run with the seed replays its randomness whatever the number of draws; seeds that agree modulo
  \<open>2 ^ 32\<close> draw the same; and two positions have the same state exactly when they differ by a multiple of
  \<open>2 ^ 32\<close>, so the state does not repeat within a full turn.\<close>
theorem seeded_draws:
  "length (rng_draws n (createSeededRng seed)) = n
   \<and> (\<forall>k < n. rng_draws n (createSeededRng seed) ! k
        = of_nat (unat (rng_output ((rng_advance ^^ Suc k) (createSeededRng seed)))) / 4294967296)
   \<and> (\<forall>x \<in> set (rng_draws n (createSeededRng seed)). 0 \<le> x \<and> x < 1)
   \<and> (seed mod 4294967296 = seed' mod 4294967296 \<longrightarrow> rng_draws n (createSeededRng seed) = rng_draws n (createSeededRng seed'))
   \<and> ((rng_advance ^^ i) (createSeededRng seed) = (rng_advance ^^ j) (createSeededRng seed)
        \<longleftrightarrow> i mod 4294967296 = j mod 4294967296)"
proof (intro conjI allI impI ballI, goal_cases)
  case 1 show ?case by (rule rng_draws_nth)
next
  case (2 k) thus ?case by (simp only: rng_draws_nth advance_iter)
next
  case (3 x)
  then obtain k where "x = rng_draws n (createSeededRng seed) ! k" "k < n" by (auto simp: in_set_conv_nth rng_draws_nth(1))
  thus ?case using quotient_range [OF unat_below] by (simp only: rng_draws_nth)
next
  case (4 x)
  then obtain k where "x = rng_draws n (createSeededRng seed) ! k" "k < n" by (auto simp: in_set_conv_nth rng_draws_nth(1))
  thus ?case using quotient_range [OF unat_below] by (simp only: rng_draws_nth)
next
  case 5
  hence "createSeededRng seed = createSeededRng seed'"
    by (simp add: createSeededRng_def word_of_int_eq_iff take_bit_eq_mod)
  thus ?case by simp
next
  case 6 show ?case unfolding advance_iter by (rule same_state)
qed

theorem seeded_draws_witness:
  "rng_draws 2 (createSeededRng (-1)) = rng_draws 2 (createSeededRng 4294967295)"
  using seeded_draws [of 2 "-1" 4294967295 0 0] by simp

end
