(* ===== verification/Tape_Cache.thy ===== *)
theory Tape_Cache
  imports Js_Text
begin

text \<open>
  \<open>apps/backtester/src/data/tape-cache.ts\<close>: the cache of materialised tapes that a worker process keeps across
  runs.  A cached value is the promise of a build, so the state is the ordered map from key to promise, a promise
  being the number of the build that made it; \<open>tc_built\<close> lists the keys of the builds started so far.  A build
  that fails runs the handler that drops its entry.  The statements hold for every interleaving of calls and
  failures.
\<close>

definition tapeCacheKey :: "string \<Rightarrow> string list \<Rightarrow> string \<Rightarrow> string \<Rightarrow> string option \<Rightarrow> string" where
  "tapeCacheKey datasetRef symbols periodFrom periodTo timeframe =
     datasetRef @ ''|'' @ orElse timeframe [] @ ''|'' @ periodFrom @ ''|'' @ periodTo @ ''|'' @ joinWith '','' (sort symbols)"

record tape_cache =
  tc_entries :: "nat js_map"
  tc_hits :: nat
  tc_misses :: nat
  tc_built :: "string list"

definition emptyTapeCache :: tape_cache where
  "emptyTapeCache = \<lparr>tc_entries = [], tc_hits = 0, tc_misses = 0, tc_built = []\<rparr>"

text \<open>The entry at the back of the map is dropped when the map is full.\<close>

definition evictLru :: "int \<Rightarrow> nat js_map \<Rightarrow> nat js_map" where
  "evictLru maxEntries m =
     (if int (length m) \<ge> maxEntries \<and> m \<noteq> [] then js_delete (last (js_keys m)) m else m)"

definition getOrBuild :: "int \<Rightarrow> string \<Rightarrow> tape_cache \<Rightarrow> nat \<times> tape_cache" where
  "getOrBuild maxEntries key c =
     (if maxEntries \<le> 0
      then (length (tc_built c), c\<lparr>tc_misses := tc_misses c + 1, tc_built := tc_built c @ [key]\<rparr>)
      else case js_get (tc_entries c) key of
        Some existing \<Rightarrow> (existing, c\<lparr>tc_hits := tc_hits c + 1,
            tc_entries := (key, existing) # js_delete key (tc_entries c)\<rparr>)
      | None \<Rightarrow>
          let pending = length (tc_built c)
          in (pending, c\<lparr>tc_misses := tc_misses c + 1, tc_built := tc_built c @ [key],
                tc_entries := js_set key pending (evictLru maxEntries (tc_entries c))\<rparr>))"

text \<open>The handler of a failed build.\<close>

definition dropRejected :: "string \<Rightarrow> nat \<Rightarrow> tape_cache \<Rightarrow> tape_cache" where
  "dropRejected key pending c =
     (if js_get (tc_entries c) key = Some pending then c\<lparr>tc_entries := js_delete key (tc_entries c)\<rparr> else c)"

definition clearTapeCache :: "tape_cache \<Rightarrow> tape_cache" where
  "clearTapeCache c = c\<lparr>tc_entries := []\<rparr>"

text \<open>\<open>readMaxEntries\<close> of the value of \<open>TAPE_CACHE_MAX_ENTRIES\<close>; \<open>parseInt\<close> is an argument.\<close>

definition readMaxEntries :: "(string \<Rightarrow> int option) \<Rightarrow> string option \<Rightarrow> int" where
  "readMaxEntries parseInt raw = (case raw of None \<Rightarrow> 16 | Some s \<Rightarrow>
     if s = [] then 16 else case parseInt s of Some n \<Rightarrow> if n \<ge> 0 then n else 16 | None \<Rightarrow> 16)"

subsection \<open>Histories\<close>

text \<open>The state of a history: the cache, the promises handed out by the calls, in order, and the builds that
  have failed.\<close>

inductive tape_run :: "int \<Rightarrow> tape_cache \<Rightarrow> (string \<times> nat) list \<Rightarrow> nat list \<Rightarrow> bool" for maxEntries where
  start: "tape_run maxEntries emptyTapeCache [] []"
| call: "tape_run maxEntries c served failed \<Longrightarrow> getOrBuild maxEntries key c = (p, c') \<Longrightarrow>
    tape_run maxEntries c' (served @ [(key, p)]) failed"
| reject: "tape_run maxEntries c served failed \<Longrightarrow> p < length (tc_built c) \<Longrightarrow>
    tape_run maxEntries (dropRejected (tc_built c ! p) p c) served (failed @ [p])"
| clear: "tape_run maxEntries c served failed \<Longrightarrow> tape_run maxEntries (clearTapeCache c) served failed"

definition tape_ok :: "int \<Rightarrow> tape_cache \<Rightarrow> nat list \<Rightarrow> bool" where
  "tape_ok maxEntries c failed = (map_ok (tc_entries c) \<and> int (length (tc_entries c)) \<le> max 0 maxEntries
     \<and> (\<forall>k p. (k, p) \<in> set (tc_entries c) \<longrightarrow> p < length (tc_built c) \<and> tc_built c ! p = k \<and> p \<notin> set failed))"

lemma in_js_delete: "(k', v) \<in> set (js_delete k m) \<Longrightarrow> (k', v) \<in> set m"
  by (auto simp: js_delete_def AList.delete_eq)

lemma set_js_delete: "set (js_delete k m) \<subseteq> set m" "map_ok m \<Longrightarrow> (k', v) \<in> set (js_delete k m) \<Longrightarrow> k' \<noteq> k"
  by (auto simp: js_delete_def AList.delete_eq)

lemma length_js_delete: "js_get m k \<noteq> None \<Longrightarrow> length (js_delete k m) < length m"
proof -
  assume "js_get m k \<noteq> None"
  then obtain v where "(k, v) \<in> set m" by (auto simp: js_get_def dest: map_of_SomeD)
  thus ?thesis by (auto simp: js_delete_def AList.delete_eq intro!: length_filter_less)
qed

lemma length_js_set_new: "js_get m k = None \<Longrightarrow> length (js_set k v m) = length m + 1"
  unfolding js_get_def js_set_def by (induction m) (auto split: if_splits)

lemma set_js_set_new: "js_get m k = None \<Longrightarrow> set (js_set k v m) = insert (k, v) (set m)"
  unfolding js_get_def js_set_def by (induction m) (auto split: if_splits)

lemma evict_length:
  assumes "0 < n" "int (length m) \<le> n" shows "int (length (evictLru n m)) < n"
proof (cases "int (length m) \<ge> n \<and> m \<noteq> []")
  case True
  hence "last (js_keys m) \<in> set (js_keys m)" using last_in_set [of "js_keys m"] by (simp add: js_keys_def)
  hence "js_get m (last (js_keys m)) \<noteq> None" by (simp add: js_get_keys)
  thus ?thesis using length_js_delete [of m] assms True by (fastforce simp: evictLru_def)
next
  case False
  thus ?thesis using assms by (auto simp: evictLru_def)
qed

lemma evict_sub: "set (evictLru n m) \<subseteq> set m" "map_ok m \<Longrightarrow> map_ok (evictLru n m)"
    "js_get m k = None \<Longrightarrow> js_get (evictLru n m) k = None"
  using set_js_delete by (auto simp: evictLru_def)

lemma call_ok:
  assumes "tape_ok n c failed" "getOrBuild n k c = (p, c')" "\<forall>q \<in> set failed. q < length (tc_built c)"
  shows "tape_ok n c' failed"
proof (cases "n \<le> 0")
  case True
  thus ?thesis using assms(1,2) by (auto simp: getOrBuild_def tape_ok_def)
next
  case pos: False
  show ?thesis
  proof (cases "js_get (tc_entries c) k")
    case (Some q)
    have "length (js_delete k (tc_entries c)) < length (tc_entries c)" using length_js_delete Some by fastforce
    moreover have "(k, q) \<in> set (tc_entries c)" using Some by (auto simp: js_get_def dest: map_of_SomeD)
    moreover have "map_ok ((k, q) # js_delete k (tc_entries c))"
      using assms(1) map_ok_delete [of "tc_entries c" k] set_js_delete(2) [of "tc_entries c"]
      by (fastforce simp: map_ok_def tape_ok_def)
    moreover have "c' = c\<lparr>tc_hits := tc_hits c + 1, tc_entries := (k, q) # js_delete k (tc_entries c)\<rparr>"
      using assms(2) pos Some by (auto simp: getOrBuild_def)
    moreover have "(k', p') \<in> set (tc_entries c)" if "(k', p') \<in> set ((k, q) # js_delete k (tc_entries c))" for k' p'
      using that \<open>(k, q) \<in> set (tc_entries c)\<close> in_js_delete [of k' p' k "tc_entries c"] by auto
    ultimately show ?thesis using assms(1) pos unfolding tape_ok_def by fastforce
  next
    case None
    let ?m = "evictLru n (tc_entries c)"
    have m: "js_get ?m k = None" "map_ok ?m" using evict_sub None assms(1) by (auto simp: tape_ok_def)
    have "int (length ?m) < n" using evict_length assms(1) pos by (simp add: tape_ok_def)
    thus ?thesis using assms(1,2) pos None m evict_sub(1) [of n "tc_entries c"] assms(3)
      by (fastforce simp: getOrBuild_def tape_ok_def Let_def length_js_set_new set_js_set_new nth_append)
  qed
qed

lemma call_log:
  assumes "getOrBuild n k c = (p, c')" "tape_ok n c failed"
  shows "\<exists>more. tc_built c' = tc_built c @ more" "p < length (tc_built c') \<and> tc_built c' ! p = k"
    "tc_hits c' + tc_misses c' = tc_hits c + tc_misses c + 1"
    "tc_misses c' - length (tc_built c') = tc_misses c - length (tc_built c) \<and>
     length (tc_built c') - tc_misses c' = length (tc_built c) - tc_misses c"
proof -
  have "(k, q) \<in> set (tc_entries c)" if "js_get (tc_entries c) k = Some q" for q
    using that by (auto simp: js_get_def dest: map_of_SomeD)
  thus "p < length (tc_built c') \<and> tc_built c' ! p = k"
    using assms by (auto simp: getOrBuild_def Let_def tape_ok_def split: if_splits option.splits)
qed (use assms(1) in \<open>auto simp: getOrBuild_def Let_def split: if_splits option.splits\<close>)

lemma reject_ok:
  assumes "tape_ok n c failed"
  shows "tape_ok n (dropRejected (tc_built c ! p) p c) (failed @ [p])"
proof -
  let ?k = "tc_built c ! p" and ?m = "tc_entries c"
  have get: "js_get ?m k = Some q \<longleftrightarrow> (k, q) \<in> set ?m" for k q using assms by (simp add: js_get_in tape_ok_def)
  show ?thesis
  proof (cases "js_get ?m ?k = Some p")
    case True
    have "length (js_delete ?k ?m) \<le> length ?m" using length_js_delete [of ?m ?k] True by simp
    moreover have "q \<noteq> p" if "(k, q) \<in> set (js_delete ?k ?m)" for k q
      using that set_js_delete assms by (fastforce simp: tape_ok_def)
    ultimately show ?thesis using assms True
      by (fastforce simp: dropRejected_def tape_ok_def dest: in_js_delete)
  next
    case False
    have "q \<noteq> p" if "(k, q) \<in> set ?m" for k q using that False get assms by (auto simp: tape_ok_def)
    thus ?thesis using assms False by (auto simp: dropRejected_def tape_ok_def)
  qed
qed

definition served_ok :: "tape_cache \<Rightarrow> (string \<times> nat) list \<Rightarrow> nat list \<Rightarrow> bool" where
  "served_ok c served failed = ((\<forall>k p. (k, p) \<in> set served \<longrightarrow> p < length (tc_built c) \<and> tc_built c ! p = k)
     \<and> (\<forall>q \<in> set failed. q < length (tc_built c)) \<and> tc_hits c + tc_misses c = length served
     \<and> tc_misses c = length (tc_built c))"

lemma run_ok: "tape_run n c served failed \<Longrightarrow> tape_ok n c failed \<and> served_ok c served failed"
proof (induction rule: tape_run.induct)
  case start
  show ?case by (simp add: tape_ok_def served_ok_def emptyTapeCache_def)
next
  case (call c served failed key p c')
  have ok: "tape_ok n c failed" "served_ok c served failed" using call.IH by simp_all
  obtain more where "tc_built c' = tc_built c @ more" using call_log(1) [OF call.hyps(2) ok(1)] by blast
  thus ?case using ok call_ok [OF ok(1) call.hyps(2)] call_log(2-4) [OF call.hyps(2) ok(1)]
    by (fastforce simp: served_ok_def nth_append)
next
  case (reject c served failed p)
  moreover have "served_ok (dropRejected (tc_built c ! p) p c) served (failed @ [p])"
    using reject by (auto simp: served_ok_def dropRejected_def)
  ultimately show ?case using reject_ok by blast
next
  case (clear c served failed)
  thus ?case by (simp add: tape_ok_def served_ok_def clearTapeCache_def)
qed

text \<open>Claim C39. Under every interleaving of calls, failing builds and clears, the cache holds at most
  \<open>max 0 maxEntries\<close> entries under distinct keys; a call is always answered with a build of its own key, never with
  another key's; no entry is a build that failed, so the next call for its key builds again, and otherwise a call for
  a cached key starts no build and gets the cached one; and every build started is a counted miss.\<close>
theorem tape_cache_sound:
  assumes "tape_run maxEntries c served failed"
  shows "map_ok (tc_entries c) \<and> int (length (tc_entries c)) \<le> max 0 maxEntries
    \<and> (\<forall>(k, p) \<in> set served. tc_built c ! p = k)
    \<and> (\<forall>k p. js_get (tc_entries c) k = Some p \<longrightarrow> p \<notin> set failed \<and> tc_built c ! p = k
         \<and> (0 < maxEntries \<longrightarrow> fst (getOrBuild maxEntries k c) = p
              \<and> tc_built (snd (getOrBuild maxEntries k c)) = tc_built c
              \<and> js_get (tc_entries (snd (getOrBuild maxEntries k c))) k = Some p))
    \<and> (\<forall>k. js_get (tc_entries c) k = None \<longrightarrow> tc_built (snd (getOrBuild maxEntries k c)) = tc_built c @ [k])
    \<and> length (tc_built c) = tc_misses c \<and> tc_hits c + tc_misses c = length served"
proof (intro conjI allI impI, goal_cases)
  case (4 k p)
  hence "(k, p) \<in> set (tc_entries c)" using run_ok [OF assms] by (simp add: js_get_in tape_ok_def)
  thus ?case using run_ok [OF assms] by (auto simp: tape_ok_def)
next
  case (5 k p)
  hence "(k, p) \<in> set (tc_entries c)" using run_ok [OF assms] by (simp add: js_get_in tape_ok_def)
  thus ?case using run_ok [OF assms] by (auto simp: tape_ok_def)
qed (use run_ok [OF assms] in \<open>auto simp: tape_ok_def served_ok_def getOrBuild_def Let_def js_get_def\<close>)

theorem tape_cache_sound_witness:
  "\<exists>c. tape_run 1 c [(''a'', 0), (''a'', 0), (''b'', 1)] [1] \<and> tc_built c ! 0 = ''a'' \<and> tc_entries c = []"
proof -
  let ?c1 = "snd (getOrBuild 1 ''a'' emptyTapeCache)"
  let ?c2 = "snd (getOrBuild 1 ''a'' ?c1)"
  let ?c3 = "snd (getOrBuild 1 ''b'' ?c2)"
  let ?c4 = "dropRejected (tc_built ?c3 ! 1) 1 ?c3"
  note defs = getOrBuild_def emptyTapeCache_def evictLru_def js_get_def js_set_def js_delete_def js_keys_def dropRejected_def
  have "tape_run 1 ?c1 ([] @ [(''a'', 0)]) []" by (rule tape_run.call [OF tape_run.start]) (simp add: defs)
  hence "tape_run 1 ?c2 (([] @ [(''a'', 0)]) @ [(''a'', 0)]) []" by (rule tape_run.call) (simp add: defs)
  hence "tape_run 1 ?c3 ((([] @ [(''a'', 0)]) @ [(''a'', 0)]) @ [(''b'', 1)]) []" by (rule tape_run.call) (simp add: defs)
  hence "tape_run 1 ?c4 ((([] @ [(''a'', 0)]) @ [(''a'', 0)]) @ [(''b'', 1)]) ([] @ [1])"
    by (rule tape_run.reject) (simp add: defs)
  hence r: "tape_run 1 ?c4 [(''a'', 0), (''a'', 0), (''b'', 1)] [1]" by simp
  moreover have "tc_built ?c4 ! 0 = ''a''" using tape_cache_sound [OF r] by simp
  moreover have "tc_entries ?c4 = []" by (simp add: defs)
  ultimately show ?thesis by blast
qed

end
