(* ===== verification/Admission.thy ===== *)
theory Admission
  imports Contracts
begin

text \<open>
  \<open>apps/backtester/src/data/availability-admission.ts\<close> and \<open>runner/errors.ts\<close>: the period of a run is admitted by
  the platform twice, before its data are loaded and again before anything is computed from them, and what the
  second check confirms goes into the evidence.  The platform's \<open>preflight\<close>, the loader and the computation are
  arguments over a state of their own, so that the answer may change between the two checks.
\<close>

subsection \<open>Errors a run can fail with\<close>

datatype admission_refusal_code =
  Preflight_rejected | Empty_effective_window | Window_no_longer_admitted | Identity_changed

datatype runner_terminal = Term_failed | Term_timed_out

text \<open>The exceptions a worker distinguishes: a refused admission, a \<open>RunnerError\<close> with its code, terminal status
  and issues, an unavailable data source, and anything else.\<close>

datatype run_error =
    Admission_refused admission_refusal_code string "string option"
  | Runner_error string runner_terminal "json list option"
  | Real_data_unavailable
  | Other_error

definition runnerError :: "string \<Rightarrow> run_error" where
  "runnerError code = Runner_error code Term_failed None"

subsection \<open>The two checks\<close>

record preflight_ok =
  pf_requestedFromMs :: int
  pf_requestedToMs :: int
  pf_effectiveFromMs :: int
  pf_effectiveToMs :: int
  pf_clamped :: bool
  pf_archiveId :: "string option"
  pf_datasetId :: "string option"
  pf_availabilityId :: string
  pf_asOfMs :: int

text \<open>A rejection carries the platform's code and message.\<close>

datatype preflight_result = Pf_ok preflight_ok | Pf_rejected string string

type_synonym 'st admission_source = "int \<Rightarrow> int \<Rightarrow> 'st \<Rightarrow> (run_error + preflight_result) \<times> 'st"

text \<open>The decision of the first check has the fields of the answer it was made from.\<close>

type_synonym admission_decision = preflight_ok

record admission_confirmation =
  cf_admittedAvailabilityId :: string
  cf_admittedAsOfMs :: int
  cf_archiveId :: "string option"
  cf_datasetId :: "string option"

definition admitWindow :: "'st admission_source \<Rightarrow> int \<Rightarrow> int \<Rightarrow> 'st \<Rightarrow> (run_error + admission_decision) \<times> 'st" where
  "admitWindow preflight requestedFrom requestedTo st =
     (case preflight requestedFrom requestedTo st of
        (Inl e, st') \<Rightarrow> (Inl e, st')
      | (Inr (Pf_rejected code msg), st') \<Rightarrow> (Inl (Admission_refused Preflight_rejected msg (Some code)), st')
      | (Inr (Pf_ok res), st') \<Rightarrow>
          if pf_effectiveFromMs res > pf_effectiveToMs res
          then (Inl (Admission_refused Empty_effective_window ''effective window is empty'' None), st')
          else (Inr \<lparr>pf_requestedFromMs = pf_requestedFromMs res, pf_requestedToMs = pf_requestedToMs res,
                  pf_effectiveFromMs = pf_effectiveFromMs res, pf_effectiveToMs = pf_effectiveToMs res,
                  pf_clamped = pf_clamped res, pf_archiveId = pf_archiveId res, pf_datasetId = pf_datasetId res,
                  pf_availabilityId = pf_availabilityId res, pf_asOfMs = pf_asOfMs res\<rparr>, st'))"

text \<open>What the second check makes of the platform's answer.\<close>

definition confirmAnswer :: "admission_decision \<Rightarrow> preflight_result \<Rightarrow> run_error + admission_confirmation" where
  "confirmAnswer decision answer = (case answer of
      Pf_rejected code msg \<Rightarrow> Inl (Admission_refused Window_no_longer_admitted msg (Some code))
    | Pf_ok res \<Rightarrow>
        if pf_clamped res then Inl (Admission_refused Window_no_longer_admitted ''window clamped'' None)
        else if pf_effectiveFromMs res \<noteq> pf_effectiveFromMs decision \<or> pf_effectiveToMs res \<noteq> pf_effectiveToMs decision
        then Inl (Admission_refused Window_no_longer_admitted ''bounds differ'' None)
        else if pf_archiveId res \<noteq> pf_archiveId decision then Inl (Admission_refused Identity_changed ''archiveId'' None)
        else if pf_datasetId res \<noteq> pf_datasetId decision then Inl (Admission_refused Identity_changed ''datasetId'' None)
        else Inr \<lparr>cf_admittedAvailabilityId = pf_availabilityId res, cf_admittedAsOfMs = pf_asOfMs res,
               cf_archiveId = pf_archiveId res, cf_datasetId = pf_datasetId res\<rparr>)"

definition confirmWindowStillAdmitted ::
    "'st admission_source \<Rightarrow> admission_decision \<Rightarrow> 'st \<Rightarrow> (run_error + admission_confirmation) \<times> 'st" where
  "confirmWindowStillAdmitted preflight decision st =
     (case preflight (pf_effectiveFromMs decision) (pf_effectiveToMs decision) st of
        (Inl e, st') \<Rightarrow> (Inl e, st')
      | (Inr answer, st') \<Rightarrow> (confirmAnswer decision answer, st'))"

definition admissionEvidence :: "admission_decision \<Rightarrow> admission_confirmation \<Rightarrow> run_admission_evidence" where
  "admissionEvidence decision confirmation =
     \<lparr>requestedFromMs = pf_requestedFromMs decision, requestedToMs = pf_requestedToMs decision,
      effectiveFromMs = pf_effectiveFromMs decision, effectiveToMs = pf_effectiveToMs decision,
      clamped = pf_clamped decision, availabilityId = pf_availabilityId decision, asOfMs = pf_asOfMs decision,
      admittedAvailabilityId = cf_admittedAvailabilityId confirmation,
      admittedAsOfMs = cf_admittedAsOfMs confirmation,
      archiveId = cf_archiveId confirmation, datasetId = cf_datasetId confirmation\<rparr>"

subsection \<open>The guarded run\<close>

record 't admitted_run =
  ar_effective :: "int \<times> int"
  ar_decision :: admission_decision
  ar_confirmation :: admission_confirmation
  ar_evidence :: run_admission_evidence
  ar_result :: 't

definition withAdmittedWindow :: "'st admission_source \<Rightarrow> int \<Rightarrow> int \<Rightarrow>
    (int \<times> int \<Rightarrow> 'st \<Rightarrow> (run_error + 'l) \<times> 'st) \<Rightarrow>
    (int \<times> int \<Rightarrow> 'l \<Rightarrow> run_admission_evidence \<Rightarrow> 'st \<Rightarrow> (run_error + 't) \<times> 'st) \<Rightarrow>
    'st \<Rightarrow> (run_error + 't admitted_run) \<times> 'st" where
  "withAdmittedWindow preflight requestedFrom requestedTo load compute st =
     (case admitWindow preflight requestedFrom requestedTo st of
        (Inl e, st1) \<Rightarrow> (Inl e, st1)
      | (Inr decision, st1) \<Rightarrow>
          let effective = (pf_effectiveFromMs decision, pf_effectiveToMs decision)
          in case load effective st1 of
               (Inl e, st2) \<Rightarrow> (Inl e, st2)
             | (Inr loaded, st2) \<Rightarrow>
                 (case confirmWindowStillAdmitted preflight decision st2 of
                    (Inl e, st3) \<Rightarrow> (Inl e, st3)
                  | (Inr confirmation, st3) \<Rightarrow>
                      let evidence = admissionEvidence decision confirmation
                      in case compute effective loaded evidence st3 of
                           (Inl e, st4) \<Rightarrow> (Inl e, st4)
                         | (Inr result, st4) \<Rightarrow>
                             (Inr \<lparr>ar_effective = effective, ar_decision = decision,
                                ar_confirmation = confirmation, ar_evidence = evidence, ar_result = result\<rparr>, st4)))"

subsection \<open>Facts\<close>

lemma admitWindow_ok:
  "admitWindow pre a b st = (Inr d, st') \<longleftrightarrow>
     pre a b st = (Inr (Pf_ok d), st') \<and> pf_effectiveFromMs d \<le> pf_effectiveToMs d"
  by (auto simp: admitWindow_def split: prod.splits sum.splits preflight_result.splits if_splits)

definition still_admitted :: "admission_decision \<Rightarrow> preflight_result \<Rightarrow> bool" where
  "still_admitted d answer = (case answer of Pf_rejected _ _ \<Rightarrow> False
     | Pf_ok q \<Rightarrow> \<not> pf_clamped q \<and> pf_effectiveFromMs q = pf_effectiveFromMs d \<and> pf_effectiveToMs q = pf_effectiveToMs d
         \<and> pf_archiveId q = pf_archiveId d \<and> pf_datasetId q = pf_datasetId d)"

lemma confirmAnswer_ok:
  "(\<exists>c. confirmAnswer d a = Inr c) \<longleftrightarrow> still_admitted d a"
  "confirmAnswer d a = Inr c \<Longrightarrow> cf_archiveId c = pf_archiveId d \<and> cf_datasetId c = pf_datasetId d"
  "confirmAnswer d a = Inl e \<Longrightarrow> \<exists>code msg p. e = Admission_refused code msg p"
  by (cases a; simp add: confirmAnswer_def still_admitted_def)
    (cases a; auto simp: confirmAnswer_def split: if_splits)+

lemma confirm_ok:
  "confirmWindowStillAdmitted pre d st = (Inr c, st') \<longleftrightarrow>
     (\<exists>a. pre (pf_effectiveFromMs d) (pf_effectiveToMs d) st = (Inr a, st') \<and> confirmAnswer d a = Inr c)"
  by (auto simp: confirmWindowStillAdmitted_def split: prod.splits sum.splits)

lemma admitted_result:
  "(\<exists>run. withAdmittedWindow pre a b load compute st = (Inr run, st')
        \<and> ar_evidence run = ev \<and> ar_result run = t) \<longleftrightarrow>
      (\<exists>d st1 l st2 q c st3. pre a b st = (Inr (Pf_ok d), st1) \<and> pf_effectiveFromMs d \<le> pf_effectiveToMs d
        \<and> load (pf_effectiveFromMs d, pf_effectiveToMs d) st1 = (Inr l, st2)
        \<and> pre (pf_effectiveFromMs d) (pf_effectiveToMs d) st2 = (Inr q, st3) \<and> still_admitted d q
        \<and> confirmAnswer d q = Inr c \<and> ev = admissionEvidence d c
        \<and> compute (pf_effectiveFromMs d, pf_effectiveToMs d) l ev st3 = (Inr t, st'))" (is "?L \<longleftrightarrow> ?R")
proof
  assume ?L
  then obtain d st1 l st2 c st3 where "admitWindow pre a b st = (Inr d, st1)"
    "load (pf_effectiveFromMs d, pf_effectiveToMs d) st1 = (Inr l, st2)"
    "confirmWindowStillAdmitted pre d st2 = (Inr c, st3)" "ev = admissionEvidence d c"
    "compute (pf_effectiveFromMs d, pf_effectiveToMs d) l ev st3 = (Inr t, st')"
    by (auto simp: withAdmittedWindow_def Let_def split: prod.splits sum.splits)
  thus ?R using confirmAnswer_ok(1) unfolding admitWindow_ok confirm_ok by blast
next
  assume ?R
  then obtain d st1 l st2 q c st3 where p: "pre a b st = (Inr (Pf_ok d), st1)" "pf_effectiveFromMs d \<le> pf_effectiveToMs d"
    and r: "load (pf_effectiveFromMs d, pf_effectiveToMs d) st1 = (Inr l, st2)"
    and q: "pre (pf_effectiveFromMs d) (pf_effectiveToMs d) st2 = (Inr q, st3)" "confirmAnswer d q = Inr c"
    and e: "ev = admissionEvidence d c" "compute (pf_effectiveFromMs d, pf_effectiveToMs d) l ev st3 = (Inr t, st')"
    by blast
  have "admitWindow pre a b st = (Inr d, st1)" using p unfolding admitWindow_ok by blast
  moreover have "confirmWindowStillAdmitted pre d st2 = (Inr c, st3)" using q unfolding confirm_ok by blast
  ultimately show ?L using r e by (simp add: withAdmittedWindow_def Let_def)
qed

lemma refused_not_computed:
  assumes "pre a b st = (Inr (Pf_ok d), st1)" "pf_effectiveFromMs d \<le> pf_effectiveToMs d"
    "load (pf_effectiveFromMs d, pf_effectiveToMs d) st1 = (Inr l, st2)"
    "pre (pf_effectiveFromMs d) (pf_effectiveToMs d) st2 = (Inr q, st3)" "\<not> still_admitted d q"
  shows "\<exists>code msg p. withAdmittedWindow pre a b load compute st = (Inl (Admission_refused code msg p), st3)"
proof -
  have a: "admitWindow pre a b st = (Inr d, st1)" using assms(1,2) unfolding admitWindow_ok by blast
  obtain e where e: "confirmAnswer d q = Inl e" using assms(5) confirmAnswer_ok(1) by (cases "confirmAnswer d q") blast+
  have "withAdmittedWindow pre a b load compute st = (Inl e, st3)"
    using a assms(3,4) e by (simp add: withAdmittedWindow_def Let_def confirmWindowStillAdmitted_def)
  thus ?thesis using confirmAnswer_ok(3) [OF e] by blast
qed

text \<open>A platform that answers the first check by cutting the request to \<open>[10, 20]\<close> and, once the data are loaded,
  as the second component of its state says.\<close>

definition sampleAnswer :: preflight_ok where
  "sampleAnswer = \<lparr>pf_requestedFromMs = 0, pf_requestedToMs = 30, pf_effectiveFromMs = 10, pf_effectiveToMs = 20,
     pf_clamped = False, pf_archiveId = Some ''a'', pf_datasetId = Some ''d'', pf_availabilityId = ''i'', pf_asOfMs = 5\<rparr>"

definition samplePreflight :: "(nat \<times> preflight_ok) admission_source" where
  "samplePreflight f t s = (Inr (Pf_ok (if fst s = 0 then sampleAnswer\<lparr>pf_clamped := True\<rparr> else snd s)), (fst s + 1, snd s))"

text \<open>Claim C38. A run behind the admission guard yields a result exactly when, in this order, the platform admits the
  requested period with a non-empty window, the data of that window and no other are loaded, the platform still
  admits the same window unclamped and of the same archive and dataset, and the computation on the loaded data
  succeeds; the evidence is made of the two answers and names the identities that both gave.  When the second
  answer is anything else the run is refused and the computation is not started: the state is left as the second
  check left it.\<close>
theorem admitted_run_exact:
  "((\<exists>run. withAdmittedWindow pre a b load compute st = (Inr run, st')
        \<and> ar_evidence run = ev \<and> ar_result run = t) \<longleftrightarrow>
      (\<exists>d st1 l st2 q c st3. pre a b st = (Inr (Pf_ok d), st1) \<and> pf_effectiveFromMs d \<le> pf_effectiveToMs d
        \<and> load (pf_effectiveFromMs d, pf_effectiveToMs d) st1 = (Inr l, st2)
        \<and> pre (pf_effectiveFromMs d) (pf_effectiveToMs d) st2 = (Inr q, st3) \<and> still_admitted d q
        \<and> confirmAnswer d q = Inr c \<and> ev = admissionEvidence d c
        \<and> compute (pf_effectiveFromMs d, pf_effectiveToMs d) l ev st3 = (Inr t, st')))
   \<and> (confirmAnswer d q = Inr c \<longrightarrow> archiveId (admissionEvidence d c) = pf_archiveId d
        \<and> datasetId (admissionEvidence d c) = pf_datasetId d)
   \<and> (pre a b st = (Inr (Pf_ok d), st1) \<and> pf_effectiveFromMs d \<le> pf_effectiveToMs d
        \<and> load (pf_effectiveFromMs d, pf_effectiveToMs d) st1 = (Inr l, st2)
        \<and> pre (pf_effectiveFromMs d) (pf_effectiveToMs d) st2 = (Inr q, st3) \<and> \<not> still_admitted d q
      \<longrightarrow> (\<exists>code msg p. withAdmittedWindow pre a b load compute st = (Inl (Admission_refused code msg p), st3)))"
proof (intro conjI impI, goal_cases)
  case 1 show ?case by (rule admitted_result)
next
  case 2 thus ?case using confirmAnswer_ok(2) by (simp add: admissionEvidence_def)
next
  case 3 thus ?case using confirmAnswer_ok(2) by (simp add: admissionEvidence_def)
next
  case 4 thus ?case by (auto intro: refused_not_computed)
qed

theorem admitted_run_exact_witness:
  "\<exists>code msg p. withAdmittedWindow samplePreflight 0 30 (\<lambda>w s. (Inr w, s)) (\<lambda>w l ev s. (Inr l, (9, snd s)))
       (0, sampleAnswer\<lparr>pf_archiveId := Some ''b''\<rparr>)
     = (Inl (Admission_refused code msg p), (2, sampleAnswer\<lparr>pf_archiveId := Some ''b''\<rparr>))"
  using admitted_run_exact [of samplePreflight 0 30 "\<lambda>w s. (Inr w, s)" "\<lambda>w l ev s. (Inr l, (9, snd s))"
      "(0, sampleAnswer\<lparr>pf_archiveId := Some ''b''\<rparr>)" _ _ _ "sampleAnswer\<lparr>pf_clamped := True\<rparr>"
      "Pf_ok (sampleAnswer\<lparr>pf_archiveId := Some ''b''\<rparr>)" _ "(1, sampleAnswer\<lparr>pf_archiveId := Some ''b''\<rparr>)" "(10, 20)"
      "(1, sampleAnswer\<lparr>pf_archiveId := Some ''b''\<rparr>)" "(2, sampleAnswer\<lparr>pf_archiveId := Some ''b''\<rparr>)"]
  by (simp add: samplePreflight_def sampleAnswer_def still_admitted_def)

end
