(* ===== verification/Worker.thy ===== *)
theory Worker
  imports Wake Restamp Completion Bundle_Store Holdout Admission
begin

text \<open>
  \<open>apps/backtester/src/jobs/worker.ts\<close>: a worker claims a queued job and runs it to its end.  \<open>processNextQueued\<close> is
  an asynchronous function; it is modelled as a machine that moves from one \<open>await\<close> to the next, one definition per
  stretch of code between two awaits that touch shared state, so that other workers, the reaper and the HTTP
  handlers may act between any two of its steps.  The local variables of the function are a record; the shared
  state is the store with the clock, the result cache, the compute locks, the set of leaders the heartbeat renews,
  the number of handles that are open and the list of engine executions.

  The collaborators of the worker (bundle loading, tape materialisation, the engines, finalisation, evidence,
  the promotion gate, the artifact store, walk-forward) are functions among its dependencies; each takes the number of
  the call, so that two calls with the same arguments may answer differently.  Logging and the optional
  observability registry are left out.
\<close>

subsection \<open>Data\<close>

record sandbox_bundle =
  sb_kind :: string
  sb_id :: string
  sb_version :: string
  sb_eventDriven :: bool

record tape_info =
  ti_datasetFingerprint :: string
  ti_columns :: bool

record materialized =
  md_tape :: tape_info
  md_job :: job_row
  md_admission :: "admission_decision option"

record finalized =
  fz_summary :: run_result_summary
  fz_manifest :: artifact_manifest
  fz_resultHash :: content_hash

text \<open>An engine's answer: the issues of a rejected run or the payload of a completed one, and whether the sandbox
  recorded errors.\<close>

record engine_reply =
  eg_outcome :: "json list + json"
  eg_sandboxErrors :: bool

datatype dedup_class = Class_off | Class_evidence_bypass | Class_bypass | Class_miss | Class_hit | Class_stale_recompute

record ('s, 'c, 'l) worker_deps =
  wk_completion :: "'s completion_deps"
  wk_lease :: "lease option"
  wk_dedupEnabled :: bool
  wk_resultCache :: "'c result_cache_ops option"
  wk_coalesceEnabled :: bool
  wk_computeLock :: "'l compute_lock_ops option"
  wk_computeLockTtlMs :: "ms option"
  wk_registersLeaders :: bool
  wk_policyVersion :: string
  wk_hash :: hash_env
  wk_dates :: date_env
  wk_promotionEnabled :: bool
  wk_signingKey :: bool
  wk_barLoopThread :: bool
  wk_eventDrivenEnabled :: bool
  wk_artifactStoreSpec :: bool
  wk_requiresAdmission :: bool
  wk_preflight :: "nat admission_source option"
  wk_sandboxBundleFor :: "nat \<Rightarrow> content_hash \<Rightarrow> run_error + sandbox_bundle"
  wk_buildTape :: "nat \<Rightarrow> dedup_engine \<Rightarrow> job_row \<Rightarrow> run_error + tape_info"
  wk_executorFor :: "nat \<Rightarrow> job_row \<Rightarrow> run_error option"
  wk_routerFor :: "nat \<Rightarrow> job_row \<Rightarrow> run_error option"
  wk_engine :: "nat \<Rightarrow> dedup_engine \<Rightarrow> job_row \<Rightarrow> run_error + engine_reply"
  wk_momentum :: "nat \<Rightarrow> job_row \<Rightarrow> run_error + json"
  wk_evidence :: "nat \<Rightarrow> job_row \<Rightarrow> job_row \<Rightarrow> json \<Rightarrow> artifact_reference option"
  wk_promotionGate :: "nat \<Rightarrow> job_row \<Rightarrow> json \<Rightarrow> (promotion_result option \<times> artifact_reference option) option"
  wk_finalize :: "nat \<Rightarrow> dedup_engine \<Rightarrow> json \<Rightarrow> job_row \<Rightarrow> string \<Rightarrow> artifact_reference option \<Rightarrow>
     promotion_result option \<Rightarrow> run_admission_evidence option \<Rightarrow> run_error + finalized"
  wk_readTemplate :: "nat \<Rightarrow> string \<Rightarrow> dedup_template option"
  wk_writeTemplate :: "nat \<Rightarrow> dedup_template \<Rightarrow> string option"
  wk_walkForward :: "nat \<Rightarrow> job_row \<Rightarrow> walk_forward option"
  wk_cleanupFails :: "nat \<Rightarrow> bool"

record ('s, 'c, 'l) worker_state =
  ws_world :: "'s world"
  ws_cache :: 'c
  ws_locks :: 'l
  ws_leaders :: "string list"
  ws_open :: int
  ws_engineRuns :: "string list"
  ws_calls :: nat

record worker_locals =
  wl_claimed :: job_row
  wl_bundle :: "sandbox_bundle option"
  wl_executor :: bool
  wl_router :: bool
  wl_materialized :: "materialized option"
  wl_admissionEv :: "run_admission_evidence option"
  wl_identity :: "string option"
  wl_engineCharged :: bool
  wl_leaderIdentity :: "string option"
  wl_finalized :: "finalized option"
  wl_dedupedFrom :: "string option"
  wl_dedupClass :: dedup_class
  wl_ownTerminal :: bool

text \<open>Where a run is suspended.\<close>

datatype worker_pc =
    At_bundle | At_materialize | At_confirm | At_lookup | At_template cache_entry
  | At_acquire | At_defer | At_defer_read | At_leave "job_row option"
  | At_executor | At_router | At_charge | At_renew | At_engine
  | At_evidence json | At_promotion json "artifact_reference option"
  | At_finalize json "artifact_reference option" "promotion_result option"
  | At_populate json | At_release | At_walk_forward | At_complete
  | At_fail run_error | At_expire | At_cleanup | At_reread | At_publish job_row

text \<open>A call of \<open>processNextQueued\<close>: not begun, suspended, returned, or rejected by an exception.\<close>

datatype worker = Idle | Busy worker_pc worker_locals | Done "job_row option" | Threw

definition initLocals :: "job_row \<Rightarrow> worker_locals" where
  "initLocals claimed = \<lparr>wl_claimed = claimed, wl_bundle = None, wl_executor = False, wl_router = False,
     wl_materialized = None, wl_admissionEv = None, wl_identity = None, wl_engineCharged = False,
     wl_leaderIdentity = None, wl_finalized = None, wl_dedupedFrom = None, wl_dedupClass = Class_off,
     wl_ownTerminal = False\<rparr>"

subsection \<open>Pure parts\<close>

text \<open>The code, status and issues a run ends with when it throws.\<close>

fun errorCode :: "run_error \<Rightarrow> string" where
  "errorCode (Admission_refused _ _ _) = ''rejected_admission''"
| "errorCode (Runner_error code _ _) = code"
| "errorCode Real_data_unavailable = ''missing_dataset''"
| "errorCode Other_error = ''runner_failure''"

fun errorStatus :: "run_error \<Rightarrow> job_status" where
  "errorStatus (Runner_error _ Term_timed_out _) = Timed_out"
| "errorStatus _ = Failed"

fun errorIssues :: "run_error \<Rightarrow> json list option" where
  "errorIssues (Runner_error _ _ issues) = issues"
| "errorIssues _ = None"

definition engineOf :: "job_row \<Rightarrow> dedup_engine" where
  "engineOf job = (if field (request job) ''engine'' = JStr ''overlay'' then Eng_overlay
     else if field (request job) ''engine'' = JStr ''strategy'' then Eng_strategy else Eng_momentum)"

text \<open>The checks on a strategy run, before any tape is built.\<close>

definition strategyGuard :: "job_row \<Rightarrow> sandbox_bundle option \<Rightarrow> run_error option" where
  "strategyGuard job b =
     (if field (request job) ''engine'' \<noteq> JStr ''strategy'' then None
      else case (bundleHash job, b) of
        (Some _, Some sb) \<Rightarrow>
          if sb_kind sb \<noteq> ''strategy'' then Some (runnerError ''validation_error'')
          else if field (field (request job) ''moduleRef'') ''id'' \<noteq> JStr (sb_id sb)
                \<or> field (field (request job) ''moduleRef'') ''version'' \<noteq> JStr (sb_version sb)
          then Some (runnerError ''validation_error'')
          else None
      | _ \<Rightarrow> Some (runnerError ''validation_error''))"

definition periodMs :: "date_env \<Rightarrow> json \<Rightarrow> run_error + ms \<times> ms" where
  "periodMs env period =
     (case (Option.bind (as_str (field period ''from'')) (de_parse env), Option.bind (as_str (field period ''to'')) (de_parse env)) of
        (Some f, Some t) \<Rightarrow> if f \<ge> t then Inl (runnerError ''validation_error'') else Inr (f, t)
      | _ \<Rightarrow> Inl (runnerError ''validation_error''))"

definition setField :: "string \<Rightarrow> json \<Rightarrow> json \<Rightarrow> json" where
  "setField k v obj = (case obj of JObj m \<Rightarrow> JObj (js_set k v m) | _ \<Rightarrow> JObj [(k, v)])"

definition withEffectivePeriod :: "date_env \<Rightarrow> job_row \<Rightarrow> admission_decision \<Rightarrow> job_row" where
  "withEffectivePeriod env claimed decision = claimed\<lparr>request := setField ''period''
     (JObj [(''from'', JStr (de_iso env (pf_effectiveFromMs decision))), (''to'', JStr (de_iso env (pf_effectiveToMs decision)))])
     (request claimed)\<rparr>"

definition dedupOn :: "('s, 'c, 'l) worker_deps \<Rightarrow> job_row \<Rightarrow> bool" where
  "dedupOn deps job = (wk_dedupEnabled deps \<and> wk_resultCache deps \<noteq> None
     \<and> field (request job) ''curatedBaselineRef'' = JUndef)"

definition bypassCache :: "job_row \<Rightarrow> bool" where
  "bypassCache job = (field (request job) ''bypassCache'' = JBool True)"

definition doLookup :: "('s, 'c, 'l) worker_deps \<Rightarrow> job_row \<Rightarrow> bool" where
  "doLookup deps job = (dedupOn deps job \<and> \<not> bypassCache job)"

text \<open>The same condition decides at the claim that the charge is deferred and later that it is made.\<close>

definition coalesceCapable :: "('s, 'c, 'l) worker_deps \<Rightarrow> bool" where
  "coalesceCapable deps = (wk_coalesceEnabled deps \<and> wk_computeLock deps \<noteq> None \<and> wk_lease deps \<noteq> None)"

definition coalesceOn :: "('s, 'c, 'l) worker_deps \<Rightarrow> job_row \<Rightarrow> bool" where
  "coalesceOn deps job = (coalesceCapable deps \<and> dedupOn deps job \<and> \<not> bypassCache job)"

definition initialDedupClass :: "('s, 'c, 'l) worker_deps \<Rightarrow> job_row \<Rightarrow> dedup_class" where
  "initialDedupClass deps job =
     (if wk_dedupEnabled deps \<and> wk_resultCache deps \<noteq> None \<and> field (request job) ''curatedBaselineRef'' \<noteq> JUndef
      then Class_evidence_bypass
      else if \<not> dedupOn deps job then Class_off
      else if \<not> doLookup deps job then Class_bypass else Class_miss)"

definition isPromotion :: "('s, 'c, 'l) worker_deps \<Rightarrow> job_row \<Rightarrow> bool" where
  "isPromotion deps job = (wk_promotionEnabled deps \<and> field (request job) ''mode'' = JStr ''promotion'')"

definition leaseWorker :: "('s, 'c, 'l) worker_deps \<Rightarrow> string option" where
  "leaseWorker deps = map_option l_workerId (wk_lease deps)"

definition lockTtl :: "('s, 'c, 'l) worker_deps \<Rightarrow> ms" where
  "lockTtl deps = orElse (wk_computeLockTtlMs deps) (case wk_lease deps of Some l \<Rightarrow> l_ttlMs l | None \<Rightarrow> 0)"

text \<open>Where a run continues when the cache does not answer it, and where its engine path starts.\<close>

definition enginePc :: "worker_locals \<Rightarrow> worker_pc" where
  "enginePc l = (case engineOf (wl_claimed l) of
      Eng_momentum \<Rightarrow> At_executor
    | Eng_overlay \<Rightarrow> if bundleHash (wl_claimed l) \<noteq> None then At_router else At_charge
    | Eng_strategy \<Rightarrow> At_charge)"

definition missPc :: "('s, 'c, 'l) worker_deps \<Rightarrow> worker_locals \<Rightarrow> worker_pc" where
  "missPc deps l = (if coalesceOn deps (wl_claimed l) then At_acquire else enginePc l)"

subsection \<open>The steps\<close>

text \<open>A call of a collaborator takes the next call number.\<close>

definition called :: "('s, 'c, 'l) worker_state \<Rightarrow> ('s, 'c, 'l) worker_state" where
  "called sh = sh\<lparr>ws_calls := ws_calls sh + 1\<rparr>"

definition tickClock :: "('s, 'c, 'l) worker_deps \<Rightarrow> ('s, 'c, 'l) worker_state \<Rightarrow> ms \<times> ('s, 'c, 'l) worker_state" where
  "tickClock deps sh = (case clock (wk_completion deps) (ws_world sh) of (now, w) \<Rightarrow> (now, sh\<lparr>ws_world := w\<rparr>))"

definition worker_transition :: "('s, 'c, 'l) worker_deps \<Rightarrow> worker_locals \<Rightarrow> job_status \<Rightarrow> job_row_patch \<Rightarrow>
    ('s, 'c, 'l) worker_state \<Rightarrow> bool \<times> ('s, 'c, 'l) worker_state" where
  "worker_transition deps l to patch sh =
     (case op_transition (d_store (wk_completion deps)) (runId (wl_claimed l)) Running to patch (leaseWorker deps)
             (w_store (ws_world sh)) of
        (ok, st) \<Rightarrow> (ok, sh\<lparr>ws_world := (ws_world sh)\<lparr>w_store := st\<rparr>\<rparr>))"

definition readRow :: "('s, 'c, 'l) worker_deps \<Rightarrow> worker_locals \<Rightarrow> ('s, 'c, 'l) worker_state \<Rightarrow> job_row option" where
  "readRow deps l sh = op_get (d_store (wk_completion deps)) (w_store (ws_world sh)) (runId (wl_claimed l))"

definition stepClaim :: "('s, 'c, 'l) worker_deps \<Rightarrow> ('s, 'c, 'l) worker_state \<Rightarrow> worker \<times> ('s, 'c, 'l) worker_state" where
  "stepClaim deps sh =
     (case tickClock deps sh of (now, sh1) \<Rightarrow>
        (case op_claimNextQueued (d_store (wk_completion deps)) now (wk_lease deps) (coalesceCapable deps)
               (w_store (ws_world sh1)) of
           (res, st) \<Rightarrow>
             (case res of None \<Rightarrow> Done None | Some claimed \<Rightarrow> Busy At_bundle (initLocals claimed),
              sh1\<lparr>ws_world := (ws_world sh1)\<lparr>w_store := st\<rparr>\<rparr>)))"

definition stepBundle :: "('s, 'c, 'l) worker_deps \<Rightarrow> worker_locals \<Rightarrow> ('s, 'c, 'l) worker_state \<Rightarrow> worker \<times> ('s, 'c, 'l) worker_state" where
  "stepBundle deps l sh =
     (case bundleHash (wl_claimed l) of
        None \<Rightarrow> (case strategyGuard (wl_claimed l) None of
            Some e \<Rightarrow> (Busy (At_fail e) l, sh) | None \<Rightarrow> (Busy At_materialize l, sh))
      | Some h \<Rightarrow> (case wk_sandboxBundleFor deps (ws_calls sh) h of
            Inl e \<Rightarrow> (Busy (At_fail e) l, called sh)
          | Inr b \<Rightarrow>
              (let l' = l\<lparr>wl_bundle := Some b\<rparr>; sh' = (called sh)\<lparr>ws_open := ws_open sh + 1\<rparr>
               in case strategyGuard (wl_claimed l) (Some b) of
                    Some e \<Rightarrow> (Busy (At_fail e) l', sh') | None \<Rightarrow> (Busy At_materialize l', sh'))))"

text \<open>\<open>materializeFor\<close>: the admission of the period, the job rewritten to the admitted period, the tape.\<close>

definition admitFor :: "('s, 'c, 'l) worker_deps \<Rightarrow> job_row \<Rightarrow> nat \<Rightarrow> (run_error + admission_decision option) \<times> nat" where
  "admitFor deps claimed n = (case wk_preflight deps of
      None \<Rightarrow> (if wk_requiresAdmission deps then Inl (runnerError ''admission_unavailable'') else Inr None, n)
    | Some pre \<Rightarrow> (case periodMs (wk_dates deps) (field (request claimed) ''period'') of
          Inl e \<Rightarrow> (Inl e, n)
        | Inr (tsFrom, tsTo) \<Rightarrow> apfst (map_sum id Some) (admitWindow pre tsFrom tsTo n)))"

definition materializeFor :: "('s, 'c, 'l) worker_deps \<Rightarrow> job_row \<Rightarrow> nat \<Rightarrow> (run_error + materialized) \<times> nat" where
  "materializeFor deps claimedIn n = (case admitFor deps claimedIn n of
      (Inl e, m) \<Rightarrow> (Inl e, m)
    | (Inr admission, m) \<Rightarrow>
        (let claimed = (case admission of None \<Rightarrow> claimedIn | Some d \<Rightarrow> withEffectivePeriod (wk_dates deps) claimedIn d)
         in case (if engineOf claimed = Eng_momentum
                  then periodMs (wk_dates deps) (field (request claimed) ''period'') else Inr (0, 0)) of
              Inl e \<Rightarrow> (Inl e, m)
            | Inr _ \<Rightarrow> (case wk_buildTape deps m (engineOf claimed) claimed of
                Inl e \<Rightarrow> (Inl e, m + 1)
              | Inr tape \<Rightarrow> (Inr \<lparr>md_tape = tape, md_job = claimed, md_admission = admission\<rparr>, m + 1))))"

definition stepMaterialize :: "('s, 'c, 'l) worker_deps \<Rightarrow> worker_locals \<Rightarrow> ('s, 'c, 'l) worker_state \<Rightarrow> worker \<times> ('s, 'c, 'l) worker_state" where
  "stepMaterialize deps l sh = (case materializeFor deps (wl_claimed l) (ws_calls sh) of
      (Inl e, m) \<Rightarrow> (Busy (At_fail e) l, sh\<lparr>ws_calls := m\<rparr>)
    | (Inr md, m) \<Rightarrow> (Busy At_confirm (l\<lparr>wl_materialized := Some md\<rparr>), sh\<lparr>ws_calls := m\<rparr>))"

definition tapeFp :: "worker_locals \<Rightarrow> string" where
  "tapeFp l = (case wl_materialized l of Some md \<Rightarrow> ti_datasetFingerprint (md_tape md) | None \<Rightarrow> [])"

text \<open>The job the engine runs: the claimed one on the admitted period.\<close>

definition engineJob :: "worker_locals \<Rightarrow> job_row" where
  "engineJob l = (case wl_materialized l of Some md \<Rightarrow> md_job md | None \<Rightarrow> wl_claimed l)"

definition identityFor :: "('s, 'c, 'l) worker_deps \<Rightarrow> worker_locals \<Rightarrow> canon_error + string" where
  "identityFor deps l = computeIdentity_of (he_dec8 (wk_hash deps)) (he_sha256 (wk_hash deps))
     \<lparr>ci_requestFingerprint = requestFingerprint (wl_claimed l), ci_datasetFingerprint = tapeFp l,
      ci_sandboxPolicyVersion = wk_policyVersion deps\<rparr>"

text \<open>The second admission check, and the decision whether the result cache is asked.\<close>

definition dedupGate :: "('s, 'c, 'l) worker_deps \<Rightarrow> worker_locals \<Rightarrow> worker" where
  "dedupGate deps l =
     (let job = wl_claimed l; l1 = l\<lparr>wl_dedupClass := initialDedupClass deps job\<rparr>
      in if \<not> dedupOn deps job then Busy (missPc deps l1) l1
         else case identityFor deps l of
           Inl _ \<Rightarrow> Busy (At_fail Other_error) l
         | Inr identity \<Rightarrow>
             (let l2 = l1\<lparr>wl_identity := Some identity\<rparr>
              in if doLookup deps job then Busy At_lookup l2 else Busy (missPc deps l2) l2))"

definition stepConfirm :: "('s, 'c, 'l) worker_deps \<Rightarrow> worker_locals \<Rightarrow> ('s, 'c, 'l) worker_state \<Rightarrow> worker \<times> ('s, 'c, 'l) worker_state" where
  "stepConfirm deps l sh = (case (Option.bind (wl_materialized l) md_admission, wk_preflight deps) of
      (Some decision, Some pre) \<Rightarrow>
        (case confirmWindowStillAdmitted pre decision (ws_calls sh) of
           (Inl e, m) \<Rightarrow> (Busy (At_fail e) l, sh\<lparr>ws_calls := m\<rparr>)
         | (Inr confirmation, m) \<Rightarrow>
             (dedupGate deps (l\<lparr>wl_admissionEv := Some (admissionEvidence decision confirmation)\<rparr>), sh\<lparr>ws_calls := m\<rparr>))
    | _ \<Rightarrow> (dedupGate deps l, sh))"

definition missAs :: "('s, 'c, 'l) worker_deps \<Rightarrow> dedup_class \<Rightarrow> worker_locals \<Rightarrow> worker" where
  "missAs deps cls l = Busy (missPc deps l) (l\<lparr>wl_dedupClass := cls\<rparr>)"

definition stepLookup :: "('s, 'c, 'l) worker_deps \<Rightarrow> worker_locals \<Rightarrow> ('s, 'c, 'l) worker_state \<Rightarrow> worker \<times> ('s, 'c, 'l) worker_state" where
  "stepLookup deps l sh = (case (wk_resultCache deps, wl_identity l) of
      (Some cache, Some identity) \<Rightarrow>
        (case rc_lookup cache (ws_cache sh) identity of
           Some hit \<Rightarrow> (Busy (At_template hit) l, sh)
         | None \<Rightarrow> (missAs deps Class_miss l, sh))
    | _ \<Rightarrow> (missAs deps Class_miss l, sh))"

text \<open>A hit is served from its template; an unreadable or mismatched template, or a failing finalisation,
  degrades to a miss.\<close>

definition stepTemplate :: "('s, 'c, 'l) worker_deps \<Rightarrow> cache_entry \<Rightarrow> worker_locals \<Rightarrow> ('s, 'c, 'l) worker_state \<Rightarrow> worker \<times> ('s, 'c, 'l) worker_state" where
  "stepTemplate deps hit l sh =
     (let engine = engineOf (wl_claimed l); stale = missAs deps Class_stale_recompute l
      in case wk_readTemplate deps (ws_calls sh) (ca_templateRef hit) of
           None \<Rightarrow> (stale, called sh)
         | Some template \<Rightarrow>
             if dt_engine template = engine \<and> dt_templateVersion template = DEDUP_TEMPLATE_VERSION
             then (case wk_finalize deps (ws_calls sh + 1) engine (restamp template (runId (wl_claimed l))) (wl_claimed l)
                          (tapeFp l) None None (wl_admissionEv l) of
                     Inl _ \<Rightarrow> (stale, called (called sh))
                   | Inr f \<Rightarrow> (Busy At_walk_forward (l\<lparr>wl_finalized := Some f,
                       wl_dedupedFrom := Some (ca_computeIdentity hit), wl_dedupClass := Class_hit\<rparr>), called (called sh)))
             else (stale, called sh))"

definition stepAcquire :: "('s, 'c, 'l) worker_deps \<Rightarrow> worker_locals \<Rightarrow> ('s, 'c, 'l) worker_state \<Rightarrow> worker \<times> ('s, 'c, 'l) worker_state" where
  "stepAcquire deps l sh = (case (wk_computeLock deps, wl_identity l, wk_lease deps) of
      (Some locks, Some identity, Some ls) \<Rightarrow>
        (case tickClock deps sh of (now, sh1) \<Rightarrow>
           (case lk_acquire locks identity (runId (wl_claimed l)) (l_workerId ls) now (lockTtl deps) (ws_locks sh1) of
              (won, lt) \<Rightarrow>
                if won then (Busy (enginePc l) (l\<lparr>wl_leaderIdentity := Some identity\<rparr>),
                  sh1\<lparr>ws_locks := lt, ws_leaders := (if wk_registersLeaders deps then List.insert identity (ws_leaders sh1) else ws_leaders sh1)\<rparr>)
                else (Busy At_defer l, sh1\<lparr>ws_locks := lt\<rparr>)))
    | _ \<Rightarrow> (Busy (enginePc l) l, sh))"

text \<open>A follower parks its run until the leader has finished.\<close>

definition stepDefer :: "('s, 'c, 'l) worker_deps \<Rightarrow> worker_locals \<Rightarrow> ('s, 'c, 'l) worker_state \<Rightarrow> worker \<times> ('s, 'c, 'l) worker_state" where
  "stepDefer deps l sh = (case tickClock deps sh of (now, sh1) \<Rightarrow>
     (Busy At_defer_read l, snd (worker_transition deps l Waiting_for_compute
        ((patch_at now)\<lparr>p_computeIdentity := wl_identity l,
           p_computeWaitAttempts := Some (computeWaitAttempts (wl_claimed l) + 1),
           p_engineAttemptCharged := Some False\<rparr>) sh1)))"

text \<open>The \<open>finally\<close> block: handles are closed, then the leader is unregistered; closing may throw.\<close>

definition openHandles :: "worker_locals \<Rightarrow> int" where
  "openHandles l = of_bool (wl_executor l) + of_bool (wl_router l) + of_bool (wl_bundle l \<noteq> None)"

definition unregister :: "('s, 'c, 'l) worker_deps \<Rightarrow> worker_locals \<Rightarrow> ('s, 'c, 'l) worker_state \<Rightarrow> ('s, 'c, 'l) worker_state" where
  "unregister deps l sh = (case wl_leaderIdentity l of
      Some ci \<Rightarrow> if wk_registersLeaders deps then sh\<lparr>ws_leaders := removeAll ci (ws_leaders sh)\<rparr> else sh
    | None \<Rightarrow> sh)"

definition finally_then :: "('s, 'c, 'l) worker_deps \<Rightarrow> worker \<Rightarrow> worker_locals \<Rightarrow> ('s, 'c, 'l) worker_state \<Rightarrow> worker \<times> ('s, 'c, 'l) worker_state" where
  "finally_then deps k l sh =
     (if wk_cleanupFails deps (ws_calls sh) then (Threw, called sh)
      else (k, unregister deps l ((called sh)\<lparr>ws_open := ws_open sh - openHandles l\<rparr>)))"

definition stepExecutor :: "('s, 'c, 'l) worker_deps \<Rightarrow> worker_locals \<Rightarrow> ('s, 'c, 'l) worker_state \<Rightarrow> worker \<times> ('s, 'c, 'l) worker_state" where
  "stepExecutor deps l sh = (case wk_executorFor deps (ws_calls sh) (wl_claimed l) of
      Some e \<Rightarrow> (Busy (At_fail e) l, called sh)
    | None \<Rightarrow> (Busy At_charge (l\<lparr>wl_executor := True\<rparr>), (called sh)\<lparr>ws_open := ws_open sh + 1\<rparr>))"

text \<open>An overlay run opens its router before the charge, a strategy run after it.\<close>

definition stepRouter :: "('s, 'c, 'l) worker_deps \<Rightarrow> worker_locals \<Rightarrow> ('s, 'c, 'l) worker_state \<Rightarrow> worker \<times> ('s, 'c, 'l) worker_state" where
  "stepRouter deps l sh = (case wk_routerFor deps (ws_calls sh) (wl_claimed l) of
      Some e \<Rightarrow> (Busy (At_fail e) l, called sh)
    | None \<Rightarrow> (Busy (if engineOf (wl_claimed l) = Eng_overlay then At_charge else At_engine) (l\<lparr>wl_router := True\<rparr>),
        (called sh)\<lparr>ws_open := ws_open sh + 1\<rparr>))"

text \<open>The refusals of the threaded strategy path.\<close>

definition threadGuard :: "('s, 'c, 'l) worker_deps \<Rightarrow> worker_locals \<Rightarrow> run_error option" where
  "threadGuard deps l =
     (if \<not> (case wl_materialized l of Some md \<Rightarrow> ti_columns (md_tape md) | None \<Rightarrow> False)
      then Some (runnerError ''validation_error'')
      else if wk_eventDrivenEnabled deps \<and> (case wl_bundle l of Some b \<Rightarrow> sb_eventDriven b | None \<Rightarrow> False)
              \<and> \<not> wk_artifactStoreSpec deps
      then Some (Runner_error ''validation_error'' Term_failed (Some [JObj [(''severity'', JStr ''error''),
             (''code'', JStr ''unsupported_lifecycle''), (''path'', JStr [])]]))
      else None)"

definition afterCharge :: "('s, 'c, 'l) worker_deps \<Rightarrow> worker_locals \<Rightarrow> worker_pc" where
  "afterCharge deps l = (case engineOf (wl_claimed l) of
      Eng_momentum \<Rightarrow> At_renew
    | Eng_overlay \<Rightarrow> At_engine
    | Eng_strategy \<Rightarrow> if wk_barLoopThread deps
        then (case threadGuard deps l of Some e \<Rightarrow> At_fail e | None \<Rightarrow> At_engine) else At_router)"

text \<open>\<open>chargeEngineAttempt\<close>.\<close>

definition stepCharge :: "('s, 'c, 'l) worker_deps \<Rightarrow> worker_locals \<Rightarrow> ('s, 'c, 'l) worker_state \<Rightarrow> worker \<times> ('s, 'c, 'l) worker_state" where
  "stepCharge deps l sh =
     (if \<not> coalesceCapable deps \<or> wl_engineCharged l then (Busy (afterCharge deps l) l, sh)
      else case tickClock deps sh of (now, sh1) \<Rightarrow>
        (Busy (afterCharge deps l) (l\<lparr>wl_engineCharged := True\<rparr>), snd (worker_transition deps l Running
           ((patch_at now)\<lparr>p_attempts := Some (attempts (wl_claimed l) + 1), p_engineAttemptCharged := Some True\<rparr>) sh1)))"

definition stepRenew :: "('s, 'c, 'l) worker_deps \<Rightarrow> worker_locals \<Rightarrow> ('s, 'c, 'l) worker_state \<Rightarrow> worker \<times> ('s, 'c, 'l) worker_state" where
  "stepRenew deps l sh = (case wk_lease deps of
      None \<Rightarrow> (Busy At_engine l, sh)
    | Some ls \<Rightarrow> (case tickClock deps sh of (now, sh1) \<Rightarrow>
        (Busy At_engine l, sh1\<lparr>ws_world := on_store
           (op_renewLease (d_store (wk_completion deps)) (l_workerId ls) (now + l_ttlMs ls)) (ws_world sh1)\<rparr>)))"

text \<open>What becomes of an engine's answer: a rejected run and a sandbox that recorded errors both fail; in the
  threaded path the sandbox is looked at first.\<close>

definition acceptReply :: "bool \<Rightarrow> bool \<Rightarrow> engine_reply \<Rightarrow> run_error + json" where
  "acceptReply sandboxFirst sandboxed reply =
     (let sandbox = sandboxed \<and> eg_sandboxErrors reply; failure = Inl (runnerError ''sandbox_error'')
      in if sandboxFirst \<and> sandbox then failure
         else case eg_outcome reply of
           Inl issues \<Rightarrow> Inl (Runner_error ''validation_error'' Term_failed (Some issues))
         | Inr payload \<Rightarrow> if sandbox then failure else Inr payload)"

definition engineResult :: "('s, 'c, 'l) worker_deps \<Rightarrow> worker_locals \<Rightarrow> nat \<Rightarrow> run_error + json" where
  "engineResult deps l n = (case engineOf (wl_claimed l) of
      Eng_momentum \<Rightarrow> wk_momentum deps n (engineJob l)
    | Eng_overlay \<Rightarrow> (case wk_engine deps n Eng_overlay (engineJob l) of
        Inl e \<Rightarrow> Inl e | Inr reply \<Rightarrow> acceptReply False (wl_router l) reply)
    | Eng_strategy \<Rightarrow> (case wk_engine deps n Eng_strategy (engineJob l) of
        Inl e \<Rightarrow> Inl e
      | Inr reply \<Rightarrow> acceptReply (wk_barLoopThread deps) (wk_barLoopThread deps \<or> wl_router l) reply))"

definition stepEngine :: "('s, 'c, 'l) worker_deps \<Rightarrow> worker_locals \<Rightarrow> ('s, 'c, 'l) worker_state \<Rightarrow> worker \<times> ('s, 'c, 'l) worker_state" where
  "stepEngine deps l sh =
     (let sh' = (called sh)\<lparr>ws_engineRuns := ws_engineRuns sh @ [runId (wl_claimed l)]\<rparr>
      in case engineResult deps l (ws_calls sh) of
           Inl e \<Rightarrow> (Busy (At_fail e) l, sh')
         | Inr payload \<Rightarrow> (Busy (if engineOf (wl_claimed l) = Eng_strategy then At_evidence payload
                                  else At_finalize payload None None) l, sh'))"

text \<open>Signed evidence against the curated baseline: additive, a failure leaves the reference out.\<close>

definition stepEvidence :: "('s, 'c, 'l) worker_deps \<Rightarrow> json \<Rightarrow> worker_locals \<Rightarrow> ('s, 'c, 'l) worker_state \<Rightarrow> worker \<times> ('s, 'c, 'l) worker_state" where
  "stepEvidence deps payload l sh =
     (let job = wl_claimed l; k = (\<lambda>ev. if isPromotion deps job then At_promotion payload ev else At_finalize payload ev None)
      in if field (request job) ''curatedBaselineRef'' \<noteq> JUndef \<and> wk_signingKey deps \<and> \<not> isPromotion deps job
         then (Busy (k (wk_evidence deps (ws_calls sh) (engineJob l) job payload)) l,
           (called sh)\<lparr>ws_engineRuns := ws_engineRuns sh @ [runId job]\<rparr>)
         else (Busy (k None) l, sh))"

definition stepPromotion :: "('s, 'c, 'l) worker_deps \<Rightarrow> json \<Rightarrow> artifact_reference option \<Rightarrow> worker_locals \<Rightarrow> ('s, 'c, 'l) worker_state \<Rightarrow> worker \<times> ('s, 'c, 'l) worker_state" where
  "stepPromotion deps payload ev l sh =
     (let sh' = (if field (request (wl_claimed l)) ''curatedBaselineRef'' \<noteq> JUndef
                 then (called sh)\<lparr>ws_engineRuns := ws_engineRuns sh @ [runId (wl_claimed l)]\<rparr> else called sh)
      in case wk_promotionGate deps (ws_calls sh) (wl_claimed l) payload of
           None \<Rightarrow> (Busy (At_finalize payload ev (Some (Not_qualified Pr_internal_error None None))) l, sh')
         | Some (promotion, ref) \<Rightarrow> (Busy (At_finalize payload (written ref ev) promotion) l, sh'))"

definition stepFinalize :: "('s, 'c, 'l) worker_deps \<Rightarrow> json \<Rightarrow> artifact_reference option \<Rightarrow> promotion_result option \<Rightarrow>
    worker_locals \<Rightarrow> ('s, 'c, 'l) worker_state \<Rightarrow> worker \<times> ('s, 'c, 'l) worker_state" where
  "stepFinalize deps payload ev promotion l sh =
     (case wk_finalize deps (ws_calls sh) (engineOf (wl_claimed l)) payload (wl_claimed l) (tapeFp l) ev promotion (wl_admissionEv l) of
        Inl e \<Rightarrow> (Busy (At_fail e) l, called sh)
      | Inr f \<Rightarrow> (Busy (At_populate payload) (l\<lparr>wl_finalized := Some f\<rparr>), called sh))"

text \<open>The fresh result is offered to the cache; a fault on the way is swallowed.\<close>

definition stepPopulate :: "('s, 'c, 'l) worker_deps \<Rightarrow> json \<Rightarrow> worker_locals \<Rightarrow> ('s, 'c, 'l) worker_state \<Rightarrow> worker \<times> ('s, 'c, 'l) worker_state" where
  "stepPopulate deps payload l sh = (Busy At_release l,
     (case (if dedupOn deps (wl_claimed l) then wk_resultCache deps else None, wl_identity l) of
        (Some cache, Some identity) \<Rightarrow>
          (case normalizeTemplate (engineOf (wl_claimed l)) payload (runId (wl_claimed l)) of
             None \<Rightarrow> sh
           | Some t \<Rightarrow> (case wk_writeTemplate deps (ws_calls sh) t of
               None \<Rightarrow> called sh
             | Some ref \<Rightarrow> (case tickClock deps (called sh) of (now, sh1) \<Rightarrow>
                 sh1\<lparr>ws_cache := rc_put cache \<lparr>ca_computeIdentity = identity,
                   ca_requestFingerprint = requestFingerprint (wl_claimed l), ca_datasetFingerprint = tapeFp l,
                   ca_computeVersion = DEDUP_COMPUTE_VERSION, ca_sandboxPolicyVersion = wk_policyVersion deps,
                   ca_templateRef = ref, ca_createdAtMs = now\<rparr> (ws_cache sh1)\<rparr>)))
      | _ \<Rightarrow> sh))"

definition stepRelease :: "('s, 'c, 'l) worker_deps \<Rightarrow> worker_locals \<Rightarrow> ('s, 'c, 'l) worker_state \<Rightarrow> worker \<times> ('s, 'c, 'l) worker_state" where
  "stepRelease deps l sh = (Busy At_walk_forward l, (case (wl_leaderIdentity l, wk_computeLock deps, wk_lease deps) of
      (Some ci, Some locks, Some ls) \<Rightarrow> sh\<lparr>ws_locks := lk_release locks ci (l_workerId ls) (runId (wl_claimed l)) (ws_locks sh)\<rparr>
    | _ \<Rightarrow> sh))"

definition stepWalkForward :: "('s, 'c, 'l) worker_deps \<Rightarrow> worker_locals \<Rightarrow> ('s, 'c, 'l) worker_state \<Rightarrow> worker \<times> ('s, 'c, 'l) worker_state" where
  "stepWalkForward deps l sh = (Busy At_complete
     (case wk_walkForward deps (ws_calls sh) (wl_claimed l) of
        None \<Rightarrow> l
      | Some walked \<Rightarrow> l\<lparr>wl_finalized := map_option (\<lambda>f. f\<lparr>fz_summary := (fz_summary f)\<lparr>sm_walkForward := Some walked\<rparr>\<rparr>) (wl_finalized l)\<rparr>),
     called sh)"

definition stepComplete :: "('s, 'c, 'l) worker_deps \<Rightarrow> worker_locals \<Rightarrow> ('s, 'c, 'l) worker_state \<Rightarrow> worker \<times> ('s, 'c, 'l) worker_state" where
  "stepComplete deps l sh = (case tickClock deps sh of (now, sh1) \<Rightarrow>
     (case worker_transition deps l Completed ((patch_at now)\<lparr>p_terminalAtMs := Some now, p_lastActivityMs := Some now,
          p_resultSummary := map_option fz_summary (wl_finalized l), p_resultHash := map_option fz_resultHash (wl_finalized l),
          p_artifactManifest := map_option fz_manifest (wl_finalized l), p_datasetFingerprint := Some (tapeFp l),
          p_dedupedFrom := wl_dedupedFrom l\<rparr>) sh1 of
        (own, sh2) \<Rightarrow> (Busy At_cleanup (l\<lparr>wl_ownTerminal := own\<rparr>), sh2)))"

definition stepFail :: "('s, 'c, 'l) worker_deps \<Rightarrow> run_error \<Rightarrow> worker_locals \<Rightarrow> ('s, 'c, 'l) worker_state \<Rightarrow> worker \<times> ('s, 'c, 'l) worker_state" where
  "stepFail deps e l sh = (case tickClock deps sh of (now, sh1) \<Rightarrow>
     (case worker_transition deps l (errorStatus e) ((patch_at now)\<lparr>p_terminalAtMs := Some now,
          p_terminalCode := Some (errorCode e), p_terminalIssues := errorIssues e\<rparr>) sh1 of
        (own, sh2) \<Rightarrow> (Busy (if wl_leaderIdentity l \<noteq> None then At_expire else At_cleanup) (l\<lparr>wl_ownTerminal := own\<rparr>), sh2)))"

definition stepExpire :: "('s, 'c, 'l) worker_deps \<Rightarrow> worker_locals \<Rightarrow> ('s, 'c, 'l) worker_state \<Rightarrow> worker \<times> ('s, 'c, 'l) worker_state" where
  "stepExpire deps l sh = (case tickClock deps sh of (now, sh1) \<Rightarrow>
     (Busy At_cleanup l, (case (wl_leaderIdentity l, wk_computeLock deps, wk_lease deps) of
        (Some ci, Some locks, Some ls) \<Rightarrow> sh1\<lparr>ws_locks := lk_expire locks ci (l_workerId ls) now (ws_locks sh1)\<rparr>
      | _ \<Rightarrow> sh1)))"

text \<open>Only the worker whose own compare-and-set made the row terminal publishes it.\<close>

definition stepReread :: "('s, 'c, 'l) worker_deps \<Rightarrow> worker_locals \<Rightarrow> ('s, 'c, 'l) worker_state \<Rightarrow> worker \<times> ('s, 'c, 'l) worker_state" where
  "stepReread deps l sh = (case readRow deps l sh of
      Some finished \<Rightarrow> if wl_ownTerminal l then (Busy (At_publish finished) l, sh) else (Done (Some finished), sh)
    | None \<Rightarrow> (Done None, sh))"

definition stepPublish :: "('s, 'c, 'l) worker_deps \<Rightarrow> job_row \<Rightarrow> worker_locals \<Rightarrow> ('s, 'c, 'l) worker_state \<Rightarrow> worker \<times> ('s, 'c, 'l) worker_state" where
  "stepPublish deps finished l sh =
     (Done (Some finished), sh\<lparr>ws_world := publishCompletion (wk_completion deps) finished (ws_world sh)\<rparr>)"

fun busyStep :: "('s, 'c, 'l) worker_deps \<Rightarrow> worker_pc \<Rightarrow> worker_locals \<Rightarrow> ('s, 'c, 'l) worker_state \<Rightarrow> worker \<times> ('s, 'c, 'l) worker_state" where
  "busyStep deps At_bundle l sh = stepBundle deps l sh"
| "busyStep deps At_materialize l sh = stepMaterialize deps l sh"
| "busyStep deps At_confirm l sh = stepConfirm deps l sh"
| "busyStep deps At_lookup l sh = stepLookup deps l sh"
| "busyStep deps (At_template hit) l sh = stepTemplate deps hit l sh"
| "busyStep deps At_acquire l sh = stepAcquire deps l sh"
| "busyStep deps At_defer l sh = stepDefer deps l sh"
| "busyStep deps At_defer_read l sh = (Busy (At_leave (readRow deps l sh)) l, sh)"
| "busyStep deps (At_leave row) l sh = finally_then deps (Done row) l sh"
| "busyStep deps At_executor l sh = stepExecutor deps l sh"
| "busyStep deps At_router l sh = stepRouter deps l sh"
| "busyStep deps At_charge l sh = stepCharge deps l sh"
| "busyStep deps At_renew l sh = stepRenew deps l sh"
| "busyStep deps At_engine l sh = stepEngine deps l sh"
| "busyStep deps (At_evidence payload) l sh = stepEvidence deps payload l sh"
| "busyStep deps (At_promotion payload ev) l sh = stepPromotion deps payload ev l sh"
| "busyStep deps (At_finalize payload ev promotion) l sh = stepFinalize deps payload ev promotion l sh"
| "busyStep deps (At_populate payload) l sh = stepPopulate deps payload l sh"
| "busyStep deps At_release l sh = stepRelease deps l sh"
| "busyStep deps At_walk_forward l sh = stepWalkForward deps l sh"
| "busyStep deps At_complete l sh = stepComplete deps l sh"
| "busyStep deps (At_fail e) l sh = stepFail deps e l sh"
| "busyStep deps At_expire l sh = stepExpire deps l sh"
| "busyStep deps At_cleanup l sh = finally_then deps (Busy At_reread l) l sh"
| "busyStep deps At_reread l sh = stepReread deps l sh"
| "busyStep deps (At_publish finished) l sh = stepPublish deps finished l sh"

definition workerStep :: "('s, 'c, 'l) worker_deps \<Rightarrow> worker \<Rightarrow> ('s, 'c, 'l) worker_state \<Rightarrow> worker \<times> ('s, 'c, 'l) worker_state" where
  "workerStep deps wk sh = (case wk of
      Idle \<Rightarrow> stepClaim deps sh
    | Busy pc l \<Rightarrow> busyStep deps pc l sh
    | Done _ \<Rightarrow> (wk, sh)
    | Threw \<Rightarrow> (wk, sh))"

subsection \<open>The whole call\<close>

text \<open>Every step moves forward, so a call that is not interfered with ends.  The router of an overlay run is opened
  before the charge, that of a strategy run after it.\<close>

fun pcRank :: "worker_locals \<Rightarrow> worker_pc \<Rightarrow> nat" where
  "pcRank l At_bundle = 26"
| "pcRank l At_materialize = 25"
| "pcRank l At_confirm = 24"
| "pcRank l At_lookup = 23"
| "pcRank l (At_template _) = 22"
| "pcRank l At_acquire = 21"
| "pcRank l At_defer = 20"
| "pcRank l At_defer_read = 19"
| "pcRank l (At_leave _) = 18"
| "pcRank l At_executor = 20"
| "pcRank l At_router = (if engineOf (wl_claimed l) = Eng_overlay then 19 else 16)"
| "pcRank l At_charge = 18"
| "pcRank l At_renew = 17"
| "pcRank l At_engine = 15"
| "pcRank l (At_evidence _) = 14"
| "pcRank l (At_promotion _ _) = 13"
| "pcRank l (At_finalize _ _ _) = 12"
| "pcRank l (At_populate _) = 11"
| "pcRank l At_release = 10"
| "pcRank l At_walk_forward = 9"
| "pcRank l At_complete = 8"
| "pcRank l (At_fail _) = 7"
| "pcRank l At_expire = 6"
| "pcRank l At_cleanup = 5"
| "pcRank l At_reread = 4"
| "pcRank l (At_publish _) = 3"

fun workerRank :: "worker \<Rightarrow> nat" where
  "workerRank Idle = 30"
| "workerRank (Busy pc l) = pcRank l pc"
| "workerRank (Done _) = 0"
| "workerRank Threw = 0"

lemma pcRank_bounds: "0 < pcRank l pc" "pcRank l pc < 30"
  by (cases pc; simp)+

lemma engineOf_cases: "engineOf j = Eng_momentum \<or> engineOf j = Eng_overlay \<or> engineOf j = Eng_strategy"
  by (cases "engineOf j") simp_all

lemma enginePc_rank: "wl_claimed l' = wl_claimed l \<Longrightarrow> pcRank l' (enginePc l) < 21"
  by (simp add: enginePc_def split: dedup_engine.splits)

lemma missPc_rank: "wl_claimed l' = wl_claimed l \<Longrightarrow> pcRank l' (missPc deps l) < 22"
  using enginePc_rank [of l' l] by (simp add: missPc_def)

lemma dedupGate_rank: "workerRank (dedupGate deps l) < 24"
proof -
  have "pcRank l' (missPc deps l'') < 24" if "wl_claimed l' = wl_claimed l''" for l' l'' :: worker_locals
    using missPc_rank [OF that, of deps] by simp
  thus ?thesis by (simp add: dedupGate_def Let_def split: sum.splits)
qed

lemma missAs_rank: "workerRank (missAs deps c l) < 22"
  using missPc_rank [of "l\<lparr>wl_dedupClass := c\<rparr>" l] by (simp add: missAs_def)

lemma afterCharge_rank: "wl_claimed l' = wl_claimed l \<Longrightarrow> pcRank l' (afterCharge deps l) < 18"
  by (simp add: afterCharge_def split: dedup_engine.splits option.splits)

lemma busyStep_rank: "workerRank (fst (busyStep deps pc l sh)) < pcRank l pc"
proof (cases pc)
  case At_confirm
  thus ?thesis using dedupGate_rank [of deps] by (simp add: stepConfirm_def split: option.splits sum.splits prod.splits)
next
  case At_lookup
  thus ?thesis using less_trans [OF missAs_rank [of deps Class_miss l], of 23] by (simp add: stepLookup_def split: option.splits)
next
  case (At_template hit)
  thus ?thesis using missAs_rank [of deps] by (simp add: stepTemplate_def Let_def split: option.splits sum.splits)
next
  case At_acquire
  thus ?thesis using enginePc_rank by (simp add: stepAcquire_def split: option.splits prod.splits)
next
  case At_charge
  thus ?thesis by (simp add: stepCharge_def afterCharge_rank split: prod.splits)
qed (simp_all add: stepBundle_def stepMaterialize_def stepDefer_def finally_then_def stepExecutor_def stepRouter_def
    stepRenew_def stepEngine_def stepEvidence_def stepPromotion_def stepFinalize_def stepPopulate_def stepRelease_def
    stepWalkForward_def stepComplete_def stepFail_def stepExpire_def stepReread_def stepPublish_def Let_def
    split: option.splits sum.splits prod.splits)

lemma workerStep_rank: "0 < workerRank wk \<Longrightarrow> workerRank (fst (workerStep deps wk sh)) < workerRank wk"
  using busyStep_rank [of deps] pcRank_bounds
  by (cases wk) (simp_all add: workerStep_def stepClaim_def split: prod.splits option.splits)

function runWorker :: "('s, 'c, 'l) worker_deps \<Rightarrow> worker \<Rightarrow> ('s, 'c, 'l) worker_state \<Rightarrow> worker \<times> ('s, 'c, 'l) worker_state" where
  "runWorker deps wk sh = (if workerRank wk = 0 then (wk, sh)
     else case workerStep deps wk sh of (wk', sh') \<Rightarrow> runWorker deps wk' sh')"
  by pat_completeness auto
termination
proof (relation "measure (\<lambda>(deps, wk, sh). workerRank wk)", goal_cases)
  case (2 deps wk sh wk' sh')
  thus ?case using workerStep_rank [of wk deps sh] by (simp flip: 2(2))
qed simp

declare runWorker.simps [simp del]

definition processNextQueued :: "('s, 'c, 'l) worker_deps \<Rightarrow> ('s, 'c, 'l) worker_state \<Rightarrow> worker \<times> ('s, 'c, 'l) worker_state" where
  "processNextQueued deps sh = runWorker deps Idle sh"

end
