(* ===== verification/Worker_System.thy ===== *)
theory Worker_System
  imports Worker Completion_Properties
begin

text \<open>
  Any number of workers beside the other actors of the service.  A state of the system is the shared state, what each
  worker is doing and, as bookkeeping, the terminal rows that someone still owes the publication of.  A worker takes one
  step of its machine; anyone else (reaper, wake pass, HTTP handler) takes a step of the publication relation on the
  store and may do anything to caches and locks.  The steps of a worker are shown to be steps of the publication
  relation, so what is proved of that relation holds of the workers as they are written.
\<close>

fun owes :: "worker \<Rightarrow> string option" where
  "owes (Busy pc l) = (if wl_ownTerminal l then Some (runId (wl_claimed l)) else None)"
| "owes _ = None"

text \<open>The rows owed after a worker's step.\<close>

fun owedAfter :: "('s, 'c, 'l) worker_deps \<Rightarrow> worker \<Rightarrow> worker \<Rightarrow> ('s, 'c, 'l) worker_state \<Rightarrow> job_row list \<Rightarrow> job_row list" where
  "owedAfter deps (Busy (At_publish r) l) wk' sh' pend = remove1 r pend"
| "owedAfter deps (Busy At_complete l) wk' sh' pend = (if owes wk' \<noteq> None then pend @ [the (readRow deps l sh')] else pend)"
| "owedAfter deps (Busy (At_fail e) l) wk' sh' pend = (if owes wk' \<noteq> None then pend @ [the (readRow deps l sh')] else pend)"
| "owedAfter deps wk wk' sh' pend = pend"

inductive sys_step :: "(nat \<Rightarrow> ('s, 'c, 'l) worker_deps) \<Rightarrow> 's completion_deps \<Rightarrow>
    ('s, 'c, 'l) worker_state \<times> (nat \<Rightarrow> worker) \<times> job_row list \<Rightarrow>
    ('s, 'c, 'l) worker_state \<times> (nat \<Rightarrow> worker) \<times> job_row list \<Rightarrow> bool" for W cd where
  work: "wk_completion (W i) = cd \<Longrightarrow> workerStep (W i) (procs i) sh = (wk', sh') \<Longrightarrow>
    sys_step W cd (sh, procs, pend) (sh', procs(i := wk'), owedAfter (W i) (procs i) wk' sh' pend)"
| again: "workerRank (procs i) = 0 \<Longrightarrow> sys_step W cd (sh, procs, pend) (sh, procs(i := Idle), pend)"
| others: "pub_step cd (ws_world sh, pend) (w', pend') \<Longrightarrow>
    (\<And>i r. owes (procs i) = Some (runId r) \<Longrightarrow> r \<in> set pend \<Longrightarrow> r \<in> set pend') \<Longrightarrow>
    sys_step W cd (sh, procs, pend) (sh\<lparr>ws_world := w', ws_cache := c, ws_locks := k, ws_leaders := ls\<rparr>, procs, pend')"

inductive sys_reachable :: "(nat \<Rightarrow> ('s, 'c, 'l) worker_deps) \<Rightarrow> 's completion_deps \<Rightarrow>
    ('s, 'c, 'l) worker_state \<times> (nat \<Rightarrow> worker) \<times> job_row list \<Rightarrow>
    ('s, 'c, 'l) worker_state \<times> (nat \<Rightarrow> worker) \<times> job_row list \<Rightarrow> bool" for W cd s0 where
  start: "sys_reachable W cd s0 s0"
| further: "sys_reachable W cd s0 s \<Longrightarrow> sys_step W cd s s' \<Longrightarrow> sys_reachable W cd s0 s'"

subsection \<open>What a worker's step does to the world\<close>

lemma pub_reachable_trans:
  assumes "pub_reachable deps s0 s" "pub_reachable deps s s'" shows "pub_reachable deps s0 s'"
  using assms(2,1) by (induction rule: pub_reachable.induct) (auto intro: pub_reachable.intros)

lemma pub_reachable_one: "pub_step deps s s' \<Longrightarrow> pub_reachable deps s s'"
  by (rule pub_reachable.further [OF pub_reachable.start])

lemma pub_tick: "pub_reachable cd (w, pend) (w\<lparr>w_clocks := m\<rparr>, pend)"
  using pub_step.tick [of w "w_uids w" cd pend m] by (intro pub_reachable_one) simp

lemma pub_tick_call:
  assumes "quiet_call c" "\<And>j. c \<noteq> Call_insert j"
  shows "pub_reachable cd (w, pend) (w\<lparr>w_clocks := m, w_store := exec_call (d_store cd) c (w_store w)\<rparr>, pend)"
proof -
  have "fresh_call (d_store cd) c (w_store (w\<lparr>w_clocks := m\<rparr>))" using assms(2) by (cases c) auto
  from pub_step.quiet [OF assms(1) this, of pend]
  have "pub_reachable cd (w\<lparr>w_clocks := m\<rparr>, pend) (w\<lparr>w_clocks := m, w_store := exec_call (d_store cd) c (w_store w)\<rparr>, pend)"
    by (intro pub_reachable_one) (simp add: on_store_def)
  with pub_tick show ?thesis by (rule pub_reachable_trans)
qed

lemma tickClock_eq: "tickClock deps sh = (d_clock (wk_completion deps) (w_clocks (ws_world sh)),
    sh\<lparr>ws_world := (ws_world sh)\<lparr>w_clocks := w_clocks (ws_world sh) + 1\<rparr>\<rparr>)"
  by (simp add: tickClock_def clock_def)

lemma called_simps [simp]:
  "ws_world (called sh) = ws_world sh" "ws_cache (called sh) = ws_cache sh" "ws_locks (called sh) = ws_locks sh"
  "ws_leaders (called sh) = ws_leaders sh" "ws_open (called sh) = ws_open sh" "ws_engineRuns (called sh) = ws_engineRuns sh"
  by (simp_all add: called_def)

lemma unregister_simps [simp]:
  "ws_world (unregister deps l sh) = ws_world sh" "ws_cache (unregister deps l sh) = ws_cache sh"
  "ws_locks (unregister deps l sh) = ws_locks sh" "ws_open (unregister deps l sh) = ws_open sh"
  "ws_engineRuns (unregister deps l sh) = ws_engineRuns sh"
  by (simp_all add: unregister_def split: option.splits)

text \<open>The steps that do not touch the world, and those that make one quiet call.\<close>

definition quiet_effect :: "'s completion_deps \<Rightarrow> 's world \<Rightarrow> 's world \<Rightarrow> bool" where
  "quiet_effect cd w w' = (w' = w \<or> (\<exists>m. w' = w\<lparr>w_clocks := m\<rparr>)
     \<or> (\<exists>m c. quiet_call c \<and> (\<forall>j. c \<noteq> Call_insert j) \<and> w' = w\<lparr>w_clocks := m, w_store := exec_call (d_store cd) c (w_store w)\<rparr>))"

lemma quiet_effect_run: "quiet_effect cd w w' \<Longrightarrow> pub_reachable cd (w, pend) (w', pend)"
proof -
  assume "quiet_effect cd w w'"
  then consider "w' = w" | m where "w' = w\<lparr>w_clocks := m\<rparr>"
    | m c where "quiet_call c" "\<And>j. c \<noteq> Call_insert j" "w' = w\<lparr>w_clocks := m, w_store := exec_call (d_store cd) c (w_store w)\<rparr>"
    unfolding quiet_effect_def by blast
  thus ?thesis
  proof cases
    case 3
    show ?thesis unfolding 3(3) by (rule pub_tick_call [OF 3(1,2)])
  qed (simp_all only: pub_tick pub_reachable.start)
qed

lemma quiet_effect_refl [simp]: "quiet_effect cd w w"
  by (simp add: quiet_effect_def)

lemma quiet_effect_clock [simp]: "quiet_effect cd w (w\<lparr>w_clocks := m\<rparr>)"
  by (auto simp: quiet_effect_def)

lemma quiet_effect_call:
  "quiet_call c \<Longrightarrow> (\<And>j. c \<noteq> Call_insert j) \<Longrightarrow> w' = w\<lparr>w_clocks := m, w_store := exec_call (d_store cd) c (w_store w)\<rparr> \<Longrightarrow>
   quiet_effect cd w w'"
  by (auto simp: quiet_effect_def)

definition settling :: "worker_pc \<Rightarrow> bool" where
  "settling pc = (pc = At_complete \<or> (\<exists>e. pc = At_fail e) \<or> (\<exists>r. pc = At_publish r))"

lemma transition_call:
  "worker_transition deps l to p sh = (ok, sh') \<Longrightarrow>
   sh' = sh\<lparr>ws_world := (ws_world sh)\<lparr>w_store := exec_call (d_store (wk_completion deps))
     (Call_transition (runId (wl_claimed l)) Running to p (leaseWorker deps)) (w_store (ws_world sh))\<rparr>\<rparr>"
  by (auto simp: worker_transition_def split: prod.splits)

lemma claim_quiet: "quiet_effect (wk_completion deps) (ws_world sh) (ws_world (snd (stepClaim deps sh)))"
  by (rule quiet_effect_call [where c = "Call_claim (d_clock (wk_completion deps) (w_clocks (ws_world sh))) (wk_lease deps) (coalesceCapable deps)"
        and m = "w_clocks (ws_world sh) + 1"])
     (simp_all add: stepClaim_def tickClock_eq split: prod.splits option.splits)

lemma defer_quiet: "quiet_effect (wk_completion deps) (ws_world sh) (ws_world (snd (stepDefer deps l sh)))"
proof -
  define now where "now = d_clock (wk_completion deps) (w_clocks (ws_world sh))"
  define p where "p = (patch_at now)\<lparr>p_computeIdentity := wl_identity l,
           p_computeWaitAttempts := Some (computeWaitAttempts (wl_claimed l) + 1), p_engineAttemptCharged := Some False\<rparr>"
  show ?thesis
    by (rule quiet_effect_call [where c = "Call_transition (runId (wl_claimed l)) Running Waiting_for_compute p (leaseWorker deps)"
          and m = "w_clocks (ws_world sh) + 1"])
       (simp_all add: stepDefer_def tickClock_eq worker_transition_def p_def now_def split: prod.splits)
qed

lemma charge_quiet: "quiet_effect (wk_completion deps) (ws_world sh) (ws_world (snd (stepCharge deps l sh)))"
proof (cases "\<not> coalesceCapable deps \<or> wl_engineCharged l")
  case True
  thus ?thesis by (auto simp: stepCharge_def)
next
  case False
  define now where "now = d_clock (wk_completion deps) (w_clocks (ws_world sh))"
  define p where "p = (patch_at now)\<lparr>p_attempts := Some (attempts (wl_claimed l) + 1), p_engineAttemptCharged := Some True\<rparr>"
  show ?thesis
    by (rule quiet_effect_call [where c = "Call_transition (runId (wl_claimed l)) Running Running p (leaseWorker deps)"
          and m = "w_clocks (ws_world sh) + 1"])
       (use False in \<open>simp_all add: stepCharge_def tickClock_eq worker_transition_def p_def now_def split: prod.splits\<close>)
qed

lemma renew_quiet: "quiet_effect (wk_completion deps) (ws_world sh) (ws_world (snd (stepRenew deps l sh)))"
proof (cases "wk_lease deps")
  case (Some ls)
  show ?thesis
    by (rule quiet_effect_call [where c = "Call_renew (l_workerId ls) (d_clock (wk_completion deps) (w_clocks (ws_world sh)) + l_ttlMs ls)"
          and m = "w_clocks (ws_world sh) + 1"])
       (use Some in \<open>simp_all add: stepRenew_def tickClock_eq on_store_def\<close>)
qed (simp add: stepRenew_def)

lemma busy_quiet:
  assumes "\<not> settling pc"
  shows "quiet_effect (wk_completion deps) (ws_world sh) (ws_world (snd (busyStep deps pc l sh)))"
proof (cases pc)
  case At_defer thus ?thesis by (simp add: defer_quiet)
next
  case At_charge thus ?thesis by (simp add: charge_quiet)
next
  case At_renew thus ?thesis by (simp add: renew_quiet)
qed (use assms in \<open>simp_all add: settling_def stepBundle_def stepMaterialize_def stepConfirm_def stepLookup_def stepTemplate_def
    stepAcquire_def finally_then_def stepExecutor_def stepRouter_def stepEngine_def stepEvidence_def stepPromotion_def
    stepFinalize_def stepPopulate_def stepRelease_def stepWalkForward_def stepExpire_def stepReread_def tickClock_eq Let_def
    split: option.splits sum.splits prod.splits\<close>)

text \<open>What a worker owes after a step that does not settle its run, and when it is about to publish.\<close>

definition same_debt :: "worker_locals \<Rightarrow> worker \<Rightarrow> bool" where
  "same_debt l wk' = (case wk' of Busy pc l' \<Rightarrow> wl_ownTerminal l' = wl_ownTerminal l \<and> wl_claimed l' = wl_claimed l
       \<and> (\<forall>r. pc \<noteq> At_publish r) | _ \<Rightarrow> True)"

lemma same_debt_simps [simp]:
  "same_debt l (Busy pc l') \<longleftrightarrow> wl_ownTerminal l' = wl_ownTerminal l \<and> wl_claimed l' = wl_claimed l \<and> (\<forall>r. pc \<noteq> At_publish r)"
  "same_debt l (Done x)" "same_debt l Threw" "same_debt l Idle"
  by (simp_all add: same_debt_def)

lemma pc_not_publish [simp]: "enginePc l \<noteq> At_publish r" "missPc deps l \<noteq> At_publish r" "afterCharge deps l \<noteq> At_publish r"
  by (simp_all add: enginePc_def missPc_def afterCharge_def split: dedup_engine.splits option.splits)

lemma same_debt_gate [simp]: "same_debt l (missAs deps c l)" "wl_ownTerminal l' = wl_ownTerminal l \<Longrightarrow> wl_claimed l' = wl_claimed l \<Longrightarrow> same_debt l (dedupGate deps l')"
  by (simp_all add: missAs_def dedupGate_def Let_def split: sum.splits)

lemma busy_debt:
  assumes "\<not> settling pc" "pc \<noteq> At_reread"
  shows "same_debt l (fst (busyStep deps pc l sh))"
proof (cases pc)
  case At_confirm
  thus ?thesis by (simp add: stepConfirm_def split: option.splits sum.splits prod.splits)
next
  case At_lookup
  thus ?thesis by (simp add: stepLookup_def split: option.splits)
next
  case (At_template hit)
  thus ?thesis by (simp add: stepTemplate_def Let_def split: option.splits sum.splits)
qed (use assms in \<open>simp_all add: settling_def stepBundle_def stepMaterialize_def stepDefer_def stepCharge_def stepRenew_def
    stepAcquire_def finally_then_def stepExecutor_def stepRouter_def stepEngine_def stepEvidence_def stepPromotion_def
    stepFinalize_def stepPopulate_def stepRelease_def stepWalkForward_def stepExpire_def tickClock_eq Let_def
    split: option.splits sum.splits prod.splits\<close>)

subsection \<open>The invariant\<close>

context job_store_contract
begin

lemma pub_step_rows:
  assumes "pub_step deps s s'" "pub_ok x deps s" "d_store deps = ops" "inj (d_uid deps)"
  shows "rows_evolve (op_get ops (w_store (fst s))) (op_get ops (w_store (fst s')))"
  using assms(1,2)
proof (induction rule: pub_step.induct)
  case (quiet c w pend)
  thus ?case using exec_evolves [of "w_store w" c] assms(3) by (simp add: pub_ok_def on_store_def)
next
  case (finish rid "from" to p e w ok st pend)
  thus ?case using transition_evolves [of "w_store w" rid "from" to p e] assms(3) by (simp add: pub_ok_def)
next
  case (reap now opts w reaped st pend)
  thus ?case using reap_evolves [of "w_store w" now opts] assms(3) by (simp add: pub_ok_def)
next
  case (poison rid now w res st pend)
  thus ?case using poison_evolves [of "w_store w" rid now] assms(3) by (simp add: pub_ok_def)
next
  case (publish w pend r pend')
  have i: "inv (w_store w)" "uids_ok deps (evs (w_store w)) (w_uids w)" "isTerminal (status r)"
    using publish.prems by (simp_all add: pub_ok_def)
  show ?case using publish_facts [OF assms(3,4) i] by simp
qed (simp_all add: assms(3) append_rows mark_rows on_store_def)

lemma pub_run_rows:
  assumes "pub_reachable deps s s'" "pub_ok x deps s" "d_store deps = ops" "inj (d_uid deps)"
  shows "rows_evolve (op_get ops (w_store (fst s))) (op_get ops (w_store (fst s')))"
  using assms(1)
proof (induction rule: pub_reachable.induct)
  case (further t t')
  have "pub_ok x deps t" by (rule pub_reachable_ok [OF further.hyps(1) assms(2-4)])
  from further.IH pub_step_rows [OF further.hyps(2) this assms(3,4)] show ?case by (rule rows_evolve_trans)
qed simp

text \<open>What is owed is a terminal row of the store, owed by one worker at most, and a worker about to publish holds
  the row of the store.\<close>

definition debts_ok :: "('s, 'c, 'l) worker_state \<Rightarrow> (nat \<Rightarrow> worker) \<Rightarrow> job_row list \<Rightarrow> bool" where
  "debts_ok sh procs pend = ((\<forall>i rid. owes (procs i) = Some rid \<longrightarrow>
       (\<exists>r \<in> set pend. runId r = rid \<and> isTerminal (status r) \<and> op_get ops (w_store (ws_world sh)) rid = Some r))
     \<and> (\<forall>i j rid. owes (procs i) = Some rid \<longrightarrow> owes (procs j) = Some rid \<longrightarrow> i = j)
     \<and> (\<forall>i r l. procs i = Busy (At_publish r) l \<longrightarrow> wl_ownTerminal l
          \<and> op_get ops (w_store (ws_world sh)) (runId (wl_claimed l)) = Some r))"

lemma debts_kept:
  assumes "debts_ok sh procs pend" "rows_evolve (op_get ops (w_store (ws_world sh))) (op_get ops (w_store (ws_world sh')))"
    "\<And>i r. owes (procs i) = Some (runId r) \<Longrightarrow> r \<in> set pend \<Longrightarrow> r \<in> set pend'"
  shows "debts_ok sh' procs pend'"
proof -
  have keep: "op_get ops (w_store (ws_world sh')) k = Some r"
    if "op_get ops (w_store (ws_world sh)) k = Some r" "isTerminal (status r)" for k r
    using rows_evolve_terminal [OF assms(2) that] .
  have owed: "\<exists>r \<in> set pend. runId r = rid \<and> isTerminal (status r) \<and> op_get ops (w_store (ws_world sh)) rid = Some r"
    if "owes (procs i) = Some rid" for i rid using assms(1) that by (simp add: debts_ok_def)
  show ?thesis unfolding debts_ok_def
  proof (intro conjI allI impI, goal_cases)
    case (1 i rid)
    then obtain r where "r \<in> set pend" "runId r = rid" "isTerminal (status r)" "op_get ops (w_store (ws_world sh)) rid = Some r"
      using owed by blast
    thus ?case using assms(3) [of i r] keep 1 by blast
  next
    case (2 i j rid)
    thus ?case using assms(1) unfolding debts_ok_def by blast
  next
    case (3 i r l)
    thus ?case using assms(1) unfolding debts_ok_def by blast
  next
    case (4 i r l)
    hence a: "wl_ownTerminal l" "op_get ops (w_store (ws_world sh)) (runId (wl_claimed l)) = Some r"
      using assms(1) unfolding debts_ok_def by blast+
    hence "owes (procs i) = Some (runId (wl_claimed l))" using 4 by simp
    from owed [OF this] a(2) have "isTerminal (status r)" by auto
    thus ?case using keep a(2) by blast
  qed
qed

lemma debts_update:
  assumes "debts_ok sh procs pend" "owes wk' = None \<or> owes wk' = owes (procs i)" "\<And>r l. wk' \<noteq> Busy (At_publish r) l"
  shows "debts_ok sh (procs(i := wk')) pend"
proof -
  have o: "owes (procs j) = Some rid" if "owes ((procs(i := wk')) j) = Some rid" for j rid
    using assms(2) that by (auto split: if_splits)
  show ?thesis unfolding debts_ok_def
  proof (intro conjI allI impI, goal_cases)
    case (1 j rid) thus ?case using o assms(1) unfolding debts_ok_def by blast
  next
    case (2 j j' rid) thus ?case using o assms(1) unfolding debts_ok_def by blast
  next
    case (3 j r l) thus ?case using assms(1,3) unfolding debts_ok_def by (auto split: if_splits)
  next
    case (4 j r l) thus ?case using assms(1,3) unfolding debts_ok_def by (auto split: if_splits)
  qed
qed

text \<open>The step of one worker.\<close>

lemma step_unsettled:
  assumes ok: "pub_ok x cd (ws_world sh, pend)" and d: "debts_ok sh procs pend" and cd: "d_store cd = ops" "inj (d_uid cd)"
    and run: "pub_reachable cd (ws_world sh, pend) (ws_world sh', pend)"
    and debt: "owes wk' = None \<or> owes wk' = owes (procs i)" "\<And>r l. wk' \<noteq> Busy (At_publish r) l"
  shows "pub_ok x cd (ws_world sh', pend) \<and> debts_ok sh' (procs(i := wk')) pend"
proof
  show "pub_ok x cd (ws_world sh', pend)" by (rule pub_reachable_ok [OF run ok cd])
  have "rows_evolve (op_get ops (w_store (ws_world sh))) (op_get ops (w_store (ws_world sh')))"
    using pub_run_rows [OF run ok cd] by simp
  from debts_kept [OF d this] have "debts_ok sh' procs pend" by blast
  thus "debts_ok sh' (procs(i := wk')) pend" using debt by (rule debts_update)
qed

lemma transition_settles:
  assumes ok: "pub_ok x cd (ws_world sh, pend)" and d: "debts_ok sh procs pend" and cd: "d_store cd = ops" "inj (d_uid cd)"
    "wk_completion deps = cd" and to: "isTerminal to"
    and tr: "worker_transition deps l to p (snd (tickClock deps sh)) = (own, sh')"
    and l': "wl_claimed l' = wl_claimed l" "wl_ownTerminal l' = own" and pc: "\<And>r. pc \<noteq> At_publish r"
  defines "pend' \<equiv> if own then pend @ [the (readRow deps l sh')] else pend"
  shows "pub_reachable cd (ws_world sh, pend) (ws_world sh', pend')"
    "pub_ok x cd (ws_world sh', pend') \<and> debts_ok sh' (procs(i := Busy pc l')) pend'"
proof -
  let ?rid = "runId (wl_claimed l)"
  let ?w = "(ws_world sh)\<lparr>w_clocks := w_clocks (ws_world sh) + 1\<rparr>"
  obtain st where st: "op_transition ops ?rid Running to p (leaseWorker deps) (w_store (ws_world sh)) = (own, st)"
    and sh': "sh' = sh\<lparr>ws_world := ?w\<lparr>w_store := st\<rparr>\<rparr>"
    using tr cd by (auto simp: worker_transition_def tickClock_eq split: prod.splits)
  have "pub_step cd (?w, pend) (?w\<lparr>w_store := st\<rparr>, if own then pend @ [the (op_get (d_store cd) st ?rid)] else pend)"
    by (rule pub_step.finish [where e = "leaseWorker deps"]) (use st to cd in simp_all)
  hence "pub_reachable cd (?w, pend) (ws_world sh', pend')"
    using cd by (intro pub_reachable_one) (simp add: sh' pend'_def readRow_def split: if_splits)
  with pub_tick show run: "pub_reachable cd (ws_world sh, pend) (ws_world sh', pend')" by (rule pub_reachable_trans)
  have ok': "pub_ok x cd (ws_world sh', pend')" by (rule pub_reachable_ok [OF run ok cd(1,2)])
  have ev: "rows_evolve (op_get ops (w_store (ws_world sh))) (op_get ops (w_store (ws_world sh')))"
    using pub_run_rows [OF run ok cd(1,2)] by simp
  have kept: "debts_ok sh' procs pend'" by (rule debts_kept [OF d ev]) (simp add: pend'_def)
  have "debts_ok sh' (procs(i := Busy pc l')) pend'"
  proof (cases own)
    case False
    thus ?thesis using debts_update [OF kept, of "Busy pc l'" i] l' pc by simp
  next
    case True
    have inv: "inv (w_store (ws_world sh))" using ok by (simp add: pub_ok_def)
    have cas: "cas_ok (op_get ops (w_store (ws_world sh)) ?rid) Running to (leaseWorker deps)"
      using transition_flag [OF inv, of ?rid Running to p "leaseWorker deps"] st True by simp
    then obtain r where r: "op_get ops (w_store (ws_world sh)) ?rid = Some r" "status r = Running" using cas_okD by blast
    have g: "op_get ops st ?rid = Some (applyPatch to p r)"
      using transition_rows [OF inv, of ?rid Running to p "leaseWorker deps"] st cas r(1) by simp
    have id: "runId (applyPatch to p r) = ?rid" using row_ok [OF inv r(1)] by simp
    have new: "applyPatch to p r \<in> set pend'" "isTerminal (status (applyPatch to p r))"
      using True g cd to by (simp_all add: pend'_def readRow_def sh')
    have fresh: "owes (procs j) \<noteq> Some ?rid" for j
    proof
      assume "owes (procs j) = Some ?rid"
      then obtain q where "op_get ops (w_store (ws_world sh)) ?rid = Some q" "isTerminal (status q)"
        using d unfolding debts_ok_def by blast
      thus False using r by simp
    qed
    show ?thesis unfolding debts_ok_def
    proof (intro conjI allI impI, goal_cases)
      case (1 j rid)
      thus ?case using new id g sh' l' True kept unfolding debts_ok_def by (cases "j = i") auto
    next
      case (2 j j' rid)
      thus ?case using fresh l' True kept unfolding debts_ok_def by (cases "j = i"; cases "j' = i") auto
    next
      case (3 j r l) thus ?case using kept pc unfolding debts_ok_def by (auto split: if_splits)
    next
      case (4 j r l) thus ?case using kept pc unfolding debts_ok_def by (auto split: if_splits)
    qed
  qed
  with ok' show "pub_ok x cd (ws_world sh', pend') \<and> debts_ok sh' (procs(i := Busy pc l')) pend'" by blast
qed

lemma publish_settles:
  assumes ok: "pub_ok x cd (ws_world sh, pend)" and d: "debts_ok sh procs pend" and cd: "d_store cd = ops" "inj (d_uid cd)"
    "wk_completion deps = cd" and p: "procs i = Busy (At_publish r) l"
    and st: "stepPublish deps r l sh = (wk', sh')"
  shows "pub_reachable cd (ws_world sh, pend) (ws_world sh', remove1 r pend)"
    "pub_ok x cd (ws_world sh', remove1 r pend) \<and> debts_ok sh' (procs(i := wk')) (remove1 r pend)"
proof -
  have o: "owes (procs i) = Some (runId (wl_claimed l))" and g: "op_get ops (w_store (ws_world sh)) (runId (wl_claimed l)) = Some r"
    using d p unfolding debts_ok_def by (metis owes.simps(1), blast)
  hence r: "r \<in> set pend" "runId r = runId (wl_claimed l)" using d unfolding debts_ok_def by fastforce+
  then obtain xs ys where xy: "pend = xs @ r # ys" "r \<notin> set xs" by (meson split_list_first)
  have rm: "remove1 r pend = xs @ ys" using xy by (simp add: remove1_append)
  have sh': "sh' = sh\<lparr>ws_world := publishCompletion cd r (ws_world sh)\<rparr>" "wk' = Done (Some r)"
    using st cd by (auto simp: stepPublish_def)
  show run: "pub_reachable cd (ws_world sh, pend) (ws_world sh', remove1 r pend)"
    unfolding rm using pub_step.publish [of cd "ws_world sh" xs r ys] by (intro pub_reachable_one) (simp add: xy(1) sh')
  have ok': "pub_ok x cd (ws_world sh', remove1 r pend)" by (rule pub_reachable_ok [OF run ok cd(1,2)])
  have ev: "rows_evolve (op_get ops (w_store (ws_world sh))) (op_get ops (w_store (ws_world sh')))"
    using pub_run_rows [OF run ok cd(1,2)] by simp
  have d1: "debts_ok sh (procs(i := wk')) pend" by (rule debts_update [OF d]) (simp_all add: sh')
  have "debts_ok sh' (procs(i := wk')) (remove1 r pend)"
  proof (rule debts_kept [OF d1 ev])
    fix j q assume j: "owes ((procs(i := wk')) j) = Some (runId q)" "q \<in> set pend"
    hence "j \<noteq> i" "owes (procs j) = Some (runId q)" using sh' by (auto split: if_splits)
    hence "q \<noteq> r" using d o r(2) unfolding debts_ok_def by metis
    thus "q \<in> set (remove1 r pend)" using j(2) by simp
  qed
  with ok' show "pub_ok x cd (ws_world sh', remove1 r pend) \<and> debts_ok sh' (procs(i := wk')) (remove1 r pend)" by blast
qed

lemma reread_debt:
  assumes d: "debts_ok sh procs pend" and deps: "d_store (wk_completion deps) = ops" and p: "procs i = Busy At_reread l"
    and st: "stepReread deps l sh = (wk', sh')"
  shows "sh' = sh \<and> debts_ok sh (procs(i := wk')) pend"
proof (cases "wl_ownTerminal l")
  case False
  hence "sh' = sh" "owes wk' = None" "\<And>r l. wk' \<noteq> Busy (At_publish r) l"
    using st by (auto simp: stepReread_def split: option.splits)
  thus ?thesis using debts_update [OF d] by blast
next
  case True
  hence o: "owes (procs i) = Some (runId (wl_claimed l))" using p by simp
  then obtain r where r: "r \<in> set pend" "runId r = runId (wl_claimed l)" "isTerminal (status r)"
    "op_get ops (w_store (ws_world sh)) (runId (wl_claimed l)) = Some r" using d unfolding debts_ok_def by blast
  hence wk: "wk' = Busy (At_publish r) l" "sh' = sh" using st True deps by (auto simp: stepReread_def readRow_def)
  have o': "owes ((procs(i := wk')) j) = owes (procs j)" for j using o wk True by simp
  have "debts_ok sh (procs(i := wk')) pend" unfolding debts_ok_def o'
    using d r(4) True wk unfolding debts_ok_def by (auto split: if_splits)
  thus ?thesis using wk by simp
qed

lemma work_ok:
  assumes ok: "pub_ok x cd (ws_world sh, pend)" and d: "debts_ok sh procs pend" and cd: "d_store cd = ops" "inj (d_uid cd)"
    and deps: "wk_completion deps = cd" and st: "workerStep deps (procs i) sh = (wk', sh')"
  defines "pend' \<equiv> owedAfter deps (procs i) wk' sh' pend"
  shows "pub_reachable cd (ws_world sh, pend) (ws_world sh', pend') \<and> pub_ok x cd (ws_world sh', pend') \<and> debts_ok sh' (procs(i := wk')) pend'"
proof -
  have unsettled: ?thesis if "pend' = pend" "quiet_effect cd (ws_world sh) (ws_world sh')"
    "owes wk' = None \<or> owes wk' = owes (procs i)" "\<And>r l. wk' \<noteq> Busy (At_publish r) l"
    using step_unsettled [OF ok d cd quiet_effect_run [OF that(2)] that(3,4)] quiet_effect_run [OF that(2)] that(1) by simp
  show ?thesis
  proof (cases "procs i")
    case Idle
    hence e: "stepClaim deps sh = (wk', sh')" using st by (simp add: workerStep_def)
    have "owes wk' = None" "\<And>r l. wk' \<noteq> Busy (At_publish r) l"
      using e by (auto simp: stepClaim_def initLocals_def split: prod.splits option.splits)
    thus ?thesis using unsettled claim_quiet [of deps sh] e deps Idle by (simp add: pend'_def)
  next
    case (Busy pc l)
    hence e: "busyStep deps pc l sh = (wk', sh')" using st by (simp add: workerStep_def)
    consider (publish) r where "pc = At_publish r" | (complete) "pc = At_complete" | (fail) err where "pc = At_fail err"
      | (reread) "pc = At_reread" | (plain) "\<not> settling pc" "pc \<noteq> At_reread" unfolding settling_def by blast
    thus ?thesis
    proof cases
      case publish
      have s: "stepPublish deps r l sh = (wk', sh')" using e publish by simp
      show ?thesis using publish_settles [OF ok d cd deps _ s] Busy publish by (simp add: pend'_def)
    next
      case complete
      define now where "now = fst (tickClock deps sh)"
      obtain own where "worker_transition deps l Completed ((patch_at now)\<lparr>p_terminalAtMs := Some now, p_lastActivityMs := Some now,
          p_resultSummary := map_option fz_summary (wl_finalized l), p_resultHash := map_option fz_resultHash (wl_finalized l),
          p_artifactManifest := map_option fz_manifest (wl_finalized l), p_datasetFingerprint := Some (tapeFp l),
          p_dedupedFrom := wl_dedupedFrom l\<rparr>) (snd (tickClock deps sh)) = (own, sh')"
        "wk' = Busy At_cleanup (l\<lparr>wl_ownTerminal := own\<rparr>)"
        using e complete by (auto simp: stepComplete_def now_def split: prod.splits)
      note t = transition_settles(1) [OF ok d cd deps _ this(1), where l' = "l\<lparr>wl_ownTerminal := own\<rparr>" and pc = At_cleanup]
        transition_settles(2) [OF ok d cd deps _ this(1), where l' = "l\<lparr>wl_ownTerminal := own\<rparr>" and pc = At_cleanup and i = i]
      note wk = \<open>wk' = _\<close>
      show ?thesis using t wk Busy complete by (cases own) (simp_all add: pend'_def)
    next
      case fail
      define now where "now = fst (tickClock deps sh)"
      obtain own where "worker_transition deps l (errorStatus err) ((patch_at now)\<lparr>p_terminalAtMs := Some now,
          p_terminalCode := Some (errorCode err), p_terminalIssues := errorIssues err\<rparr>) (snd (tickClock deps sh)) = (own, sh')"
        "wk' = Busy (if wl_leaderIdentity l \<noteq> None then At_expire else At_cleanup) (l\<lparr>wl_ownTerminal := own\<rparr>)"
        using e fail by (auto simp: stepFail_def now_def split: prod.splits)
      note t = transition_settles(1) [OF ok d cd deps _ this(1), where l' = "l\<lparr>wl_ownTerminal := own\<rparr>"
          and pc = "if wl_leaderIdentity l \<noteq> None then At_expire else At_cleanup"]
        transition_settles(2) [OF ok d cd deps _ this(1), where l' = "l\<lparr>wl_ownTerminal := own\<rparr>"
          and pc = "if wl_leaderIdentity l \<noteq> None then At_expire else At_cleanup" and i = i]
      note wk = \<open>wk' = _\<close>
      have "isTerminal (errorStatus err)" by (cases err rule: errorStatus.cases) simp_all
      thus ?thesis using t wk Busy fail by (cases own) (simp_all add: pend'_def)
    next
      case reread
      have "stepReread deps l sh = (wk', sh')" using e reread by simp
      from reread_debt [OF d _ _ this] show ?thesis using Busy reread deps cd ok
        by (simp add: pend'_def pub_reachable.start)
    next
      case plain
      have "same_debt l wk'" using busy_debt [OF plain, of l deps sh] e by simp
      hence "owes wk' = None \<or> owes wk' = owes (procs i)" "\<And>r l. wk' \<noteq> Busy (At_publish r) l"
        using Busy by (cases wk'; simp)+
      moreover have "pend' = pend" using plain Busy by (cases pc) (simp_all add: pend'_def settling_def)
      ultimately show ?thesis using unsettled busy_quiet [OF plain(1), of deps sh l] e deps by simp
    qed
  next
    case (Done x)
    hence "wk' = Done x" "sh' = sh" using st by (auto simp: workerStep_def)
    moreover have "pend' = pend" unfolding pend'_def Done by simp
    moreover have "procs(i := Done x) = procs" using Done by (rule fun_upd_idem)
    ultimately show ?thesis using ok d by (simp add: pub_reachable.start)
  next
    case Threw
    hence "wk' = Threw" "sh' = sh" using st by (auto simp: workerStep_def)
    moreover have "pend' = pend" unfolding pend'_def Threw by simp
    moreover have "procs(i := Threw) = procs" using Threw by (rule fun_upd_idem)
    ultimately show ?thesis using ok d by (simp add: pub_reachable.start)
  qed
qed

definition sys_ok :: "(string \<Rightarrow> nat) \<Rightarrow> 's completion_deps \<Rightarrow> ('s, 'c, 'l) worker_state \<times> (nat \<Rightarrow> worker) \<times> job_row list \<Rightarrow> bool" where
  "sys_ok x cd s = (case s of (sh, procs, pend) \<Rightarrow> pub_ok x cd (ws_world sh, pend) \<and> debts_ok sh procs pend)"

lemma sys_step_ok:
  assumes "sys_step W cd s s'" "sys_ok x cd s" "d_store cd = ops" "inj (d_uid cd)"
  shows "sys_ok x cd s' \<and> pub_reachable cd (ws_world (fst s), snd (snd s)) (ws_world (fst s'), snd (snd s'))"
  using assms(1,2)
proof (cases rule: sys_step.cases)
  case (work i procs sh wk' sh' pend)
  thus ?thesis using work_ok [where x = x and procs = procs and i = i and pend = pend, OF _ _ assms(3,4) work(3,4)] assms(2) by (simp add: sys_ok_def)
next
  case (again procs i sh pend)
  thus ?thesis using assms(2) debts_update [of sh procs pend Idle i] by (simp add: sys_ok_def pub_reachable.start)
next
  case (others sh pend w' pend' procs ls k c)
  have ok: "pub_ok x cd (ws_world sh, pend)" "debts_ok sh procs pend" using assms(2) others(1) by (simp_all add: sys_ok_def)
  have "pub_ok x cd (w', pend')" by (rule pub_ok_step [OF others(3) ok(1) assms(3,4)])
  moreover have "debts_ok (sh\<lparr>ws_world := w', ws_cache := c, ws_locks := k, ws_leaders := ls\<rparr>) procs pend'"
  proof (rule debts_kept [OF ok(2)])
    show "rows_evolve (op_get ops (w_store (ws_world sh)))
        (op_get ops (w_store (ws_world (sh\<lparr>ws_world := w', ws_cache := c, ws_locks := k, ws_leaders := ls\<rparr>))))"
      using pub_step_rows [OF others(3) ok(1) assms(3,4)] by simp
  qed (rule others(4))
  ultimately show ?thesis using others(1-3) by (simp add: sys_ok_def pub_reachable_one)
qed

lemma sys_reachable_ok:
  assumes "sys_reachable W cd s0 s" "sys_ok x cd s0" "d_store cd = ops" "inj (d_uid cd)"
  shows "sys_ok x cd s \<and> pub_reachable cd (ws_world (fst s0), snd (snd s0)) (ws_world (fst s), snd (snd s))"
  using assms(1)
proof (induction rule: sys_reachable.induct)
  case start
  thus ?case using assms(2) by (simp add: pub_reachable.start)
next
  case (further s s')
  thus ?case using sys_step_ok [OF further.hyps(2) _ assms(3,4)] pub_reachable_trans by blast
qed

end

end
