(* ===== verification/Worker_Run.thy ===== *)
theory Worker_Run
  imports Worker_System
begin

text \<open>
  One call of \<open>processNextQueued\<close> that nobody interferes with.  Two invariants are carried from step to step: what the
  call holds (open handles, a place among the leaders, engine executions, the charge for them) and the row of its run.
\<close>

subsection \<open>What a call holds\<close>

text \<open>Places before the charge, places before the engine, places at which the engine path is committed, places a
  cached answer never visits, and places that have a finalised result.\<close>

fun uncharged :: "worker_locals \<Rightarrow> worker_pc \<Rightarrow> bool" where
  "uncharged l At_router = (engineOf (wl_claimed l) = Eng_overlay)"
| "uncharged l At_bundle = True"
| "uncharged l At_materialize = True"
| "uncharged l At_confirm = True"
| "uncharged l At_lookup = True"
| "uncharged l (At_template _) = True"
| "uncharged l At_acquire = True"
| "uncharged l At_defer = True"
| "uncharged l At_defer_read = True"
| "uncharged l (At_leave _) = True"
| "uncharged l At_executor = True"
| "uncharged l At_charge = True"
| "uncharged _ _ = False"

fun pre_engine :: "worker_pc \<Rightarrow> bool" where
  "pre_engine (At_evidence _) = False"
| "pre_engine (At_promotion _ _) = False"
| "pre_engine (At_finalize _ _ _) = False"
| "pre_engine (At_populate _) = False"
| "pre_engine At_release = False"
| "pre_engine At_walk_forward = False"
| "pre_engine At_complete = False"
| "pre_engine (At_fail _) = False"
| "pre_engine At_expire = False"
| "pre_engine At_cleanup = False"
| "pre_engine At_reread = False"
| "pre_engine (At_publish _) = False"
| "pre_engine _ = True"

fun committed :: "worker_locals \<Rightarrow> worker_pc \<Rightarrow> bool" where
  "committed l At_router = (engineOf (wl_claimed l) \<noteq> Eng_overlay)"
| "committed l At_renew = True"
| "committed l At_engine = True"
| "committed l (At_evidence _) = True"
| "committed l (At_promotion _ _) = True"
| "committed l (At_finalize _ _ _) = True"
| "committed _ _ = False"

fun unlocked :: "worker_pc \<Rightarrow> bool" where
  "unlocked At_bundle = True"
| "unlocked At_materialize = True"
| "unlocked At_confirm = True"
| "unlocked At_lookup = True"
| "unlocked (At_template _) = True"
| "unlocked At_acquire = True"
| "unlocked At_defer = True"
| "unlocked At_defer_read = True"
| "unlocked (At_leave _) = True"
| "unlocked _ = False"

fun closed_up :: "worker_pc \<Rightarrow> bool" where
  "closed_up At_reread = True"
| "closed_up (At_publish _) = True"
| "closed_up _ = False"

fun has_result :: "worker_pc \<Rightarrow> bool" where
  "has_result (At_populate _) = True"
| "has_result At_release = True"
| "has_result At_walk_forward = True"
| "has_result At_complete = True"
| "has_result _ = False"

fun fresh_path :: "worker_pc \<Rightarrow> bool" where
  "fresh_path At_walk_forward = False"
| "fresh_path At_complete = False"
| "fresh_path (At_fail _) = False"
| "fresh_path At_expire = False"
| "fresh_path At_cleanup = False"
| "fresh_path At_reread = False"
| "fresh_path (At_publish _) = False"
| "fresh_path _ = True"

fun after_engine :: "worker_pc \<Rightarrow> bool" where
  "after_engine (At_evidence _) = True"
| "after_engine (At_promotion _ _) = True"
| "after_engine (At_finalize _ _ _) = True"
| "after_engine (At_populate _) = True"
| "after_engine At_release = True"
| "after_engine _ = False"

fun no_router :: "worker_locals \<Rightarrow> worker_pc \<Rightarrow> bool" where
  "no_router l At_router = True"
| "no_router l At_executor = True"
| "no_router l At_charge = (engineOf (wl_claimed l) = Eng_strategy)"
| "no_router l pc = unlocked pc"

definition held :: "('s, 'c, 'l) worker_deps \<Rightarrow> job_row \<Rightarrow> int \<Rightarrow> string list \<Rightarrow> string list \<Rightarrow>
    worker_pc \<Rightarrow> worker_locals \<Rightarrow> ('s, 'c, 'l) worker_state \<Rightarrow> bool" where
  "held deps job o0 leaders0 runs0 pc l sh = (wl_claimed l = job
     \<and> ws_open sh = o0 + (if closed_up pc then 0 else openHandles l)
     \<and> set (ws_leaders sh) \<subseteq> set leaders0 \<union> (if closed_up pc \<or> \<not> wk_registersLeaders deps then {} else set_option (wl_leaderIdentity l))
     \<and> (unlocked pc \<longrightarrow> wl_leaderIdentity l = None)
     \<and> (\<exists>xs. ws_engineRuns sh = runs0 @ xs \<and> set xs \<subseteq> {runId job} \<and> (pre_engine pc \<longrightarrow> xs = [])
          \<and> (wl_dedupedFrom l \<noteq> None \<longrightarrow> xs = []) \<and> (xs \<noteq> [] \<longrightarrow> coalesceCapable deps \<longrightarrow> wl_engineCharged l)
          \<and> (after_engine pc \<longrightarrow> xs \<noteq> []) \<and> (pc = At_walk_forward \<or> pc = At_complete \<longrightarrow> xs \<noteq> [] \<or> wl_dedupedFrom l \<noteq> None))
     \<and> (wl_engineCharged l \<longrightarrow> coalesceCapable deps)
     \<and> (uncharged l pc \<longrightarrow> \<not> wl_engineCharged l)
     \<and> (committed l pc \<longrightarrow> coalesceCapable deps \<longrightarrow> wl_engineCharged l)
     \<and> (fresh_path pc \<longrightarrow> wl_dedupedFrom l = None)
     \<and> (has_result pc \<longrightarrow> wl_finalized l \<noteq> None)
     \<and> (pc = At_bundle \<longrightarrow> wl_bundle l = None) \<and> (unlocked pc \<or> pc = At_executor \<longrightarrow> \<not> wl_executor l)
     \<and> (no_router l pc \<longrightarrow> \<not> wl_router l))"

definition released :: "int \<Rightarrow> string list \<Rightarrow> string list \<Rightarrow> ('s, 'c, 'l) worker_state \<Rightarrow> bool" where
  "released o0 leaders0 runs0 sh = (ws_open sh = o0 \<and> set (ws_leaders sh) \<subseteq> set leaders0)"

lemma enginePc_places [simp]:
  "\<not> closed_up (enginePc l)" "\<not> unlocked (enginePc l)" "\<not> has_result (enginePc l)" "pre_engine (enginePc l)" "fresh_path (enginePc l)"
  "wl_claimed l' = wl_claimed l \<Longrightarrow> uncharged l' (enginePc l)" "wl_claimed l' = wl_claimed l \<Longrightarrow> \<not> committed l' (enginePc l)"
  "enginePc l \<noteq> At_bundle" "\<not> after_engine (enginePc l)" "enginePc l \<noteq> At_walk_forward" "enginePc l \<noteq> At_complete"
  by (simp_all add: enginePc_def split: dedup_engine.splits)

lemma missPc_places [simp]:
  "\<not> closed_up (missPc deps l)" "\<not> has_result (missPc deps l)" "pre_engine (missPc deps l)" "fresh_path (missPc deps l)"
  "wl_claimed l' = wl_claimed l \<Longrightarrow> uncharged l' (missPc deps l)" "wl_claimed l' = wl_claimed l \<Longrightarrow> \<not> committed l' (missPc deps l)"
  "missPc deps l \<noteq> At_bundle" "\<not> after_engine (missPc deps l)" "missPc deps l \<noteq> At_walk_forward" "missPc deps l \<noteq> At_complete"
  by (simp_all add: missPc_def)

lemma afterCharge_places [simp]:
  "\<not> closed_up (afterCharge deps l)" "\<not> unlocked (afterCharge deps l)" "\<not> has_result (afterCharge deps l)"
  "wl_claimed l' = wl_claimed l \<Longrightarrow> \<not> uncharged l' (afterCharge deps l)" "afterCharge deps l \<noteq> At_bundle" "\<not> after_engine (afterCharge deps l)"
  "afterCharge deps l \<noteq> At_walk_forward" "afterCharge deps l \<noteq> At_complete" "afterCharge deps l \<noteq> At_executor"
  by (simp_all add: afterCharge_def split: dedup_engine.splits option.splits)

lemma afterCharge_no_router [simp]: "engineOf (wl_claimed l) \<noteq> Eng_strategy \<Longrightarrow> \<not> no_router l' (afterCharge deps l)"
  by (simp add: afterCharge_def split: dedup_engine.splits)

text \<open>What a call holds after a step.\<close>

definition still_held where
  "still_held deps job o0 ls0 rs0 sh res = (case res of (wk', sh') \<Rightarrow> (case wk' of
      Busy pc l \<Rightarrow> held deps job o0 ls0 rs0 pc l sh'
    | Done _ \<Rightarrow> released o0 ls0 rs0 sh' \<and> ws_engineRuns sh' = ws_engineRuns sh
    | _ \<Rightarrow> True))"

lemma still_held_simps [simp]:
  "still_held deps job o0 ls0 rs0 sh (Busy pc l, sh') \<longleftrightarrow> held deps job o0 ls0 rs0 pc l sh'"
  "still_held deps job o0 ls0 rs0 sh (Done x, sh') \<longleftrightarrow> released o0 ls0 rs0 sh' \<and> ws_engineRuns sh' = ws_engineRuns sh"
  "still_held deps job o0 ls0 rs0 sh (Threw, sh')"
  by (simp_all add: still_held_def)

lemma held_miss:
  assumes "held deps job o0 ls0 rs0 pc l sh" "unlocked pc" "uncharged l pc" "pre_engine pc" "fresh_path pc" "\<not> closed_up pc" "no_router l pc"
    "wl_claimed l' = wl_claimed l" "openHandles l' = openHandles l" "wl_leaderIdentity l' = wl_leaderIdentity l"
    "wl_dedupedFrom l' = wl_dedupedFrom l" "wl_engineCharged l' = wl_engineCharged l"
    "wl_executor l' = wl_executor l" "wl_router l' = wl_router l"
    "ws_open sh' = ws_open sh" "ws_leaders sh' = ws_leaders sh" "ws_engineRuns sh' = ws_engineRuns sh" "wl_claimed l'' = wl_claimed l"
  shows "held deps job o0 ls0 rs0 (missPc deps l'') l' sh'"
  using assms by (auto simp: held_def split: if_splits)

lemma openHandles_simps [simp]:
  "openHandles (l\<lparr>wl_materialized := m\<rparr>) = openHandles l" "openHandles (l\<lparr>wl_admissionEv := v\<rparr>) = openHandles l"
  "openHandles (l\<lparr>wl_identity := ci\<rparr>) = openHandles l" "openHandles (l\<lparr>wl_engineCharged := b\<rparr>) = openHandles l"
  "openHandles (l\<lparr>wl_leaderIdentity := ci\<rparr>) = openHandles l" "openHandles (l\<lparr>wl_finalized := f\<rparr>) = openHandles l"
  "openHandles (l\<lparr>wl_dedupedFrom := d\<rparr>) = openHandles l" "openHandles (l\<lparr>wl_dedupClass := c\<rparr>) = openHandles l"
  "openHandles (l\<lparr>wl_ownTerminal := b\<rparr>) = openHandles l"
  "\<not> wl_executor l \<Longrightarrow> openHandles (l\<lparr>wl_executor := True\<rparr>) = openHandles l + 1"
  "\<not> wl_router l \<Longrightarrow> openHandles (l\<lparr>wl_router := True\<rparr>) = openHandles l + 1"
  "wl_bundle l = None \<Longrightarrow> openHandles (l\<lparr>wl_bundle := Some x\<rparr>) = openHandles l + 1"
  by (simp_all add: openHandles_def)

lemmas step_defs = stepBundle_def stepMaterialize_def stepConfirm_def stepLookup_def stepTemplate_def stepAcquire_def stepDefer_def
  finally_then_def stepExecutor_def stepRouter_def stepCharge_def stepRenew_def stepEngine_def stepEvidence_def stepPromotion_def
  stepFinalize_def stepPopulate_def stepRelease_def stepWalkForward_def stepComplete_def stepFail_def stepExpire_def
  stepReread_def stepPublish_def tickClock_eq

lemma worker_transition_frame:
  "worker_transition deps l to p sh = (ok, sh') \<Longrightarrow> ws_open sh' = ws_open sh \<and> ws_leaders sh' = ws_leaders sh
     \<and> ws_engineRuns sh' = ws_engineRuns sh \<and> ws_calls sh' = ws_calls sh"
  by (auto simp: worker_transition_def split: prod.splits)

lemma worker_transition_snd [simp]:
  "ws_open (snd (worker_transition deps l to p sh)) = ws_open sh" "ws_leaders (snd (worker_transition deps l to p sh)) = ws_leaders sh"
  "ws_engineRuns (snd (worker_transition deps l to p sh)) = ws_engineRuns sh"
  using worker_transition_frame [of deps l to p sh] by (cases "worker_transition deps l to p sh"; simp)+

lemma complete_shape:
  "\<exists>own sh'. stepComplete deps l sh = (Busy At_cleanup (l\<lparr>wl_ownTerminal := own\<rparr>), sh')
     \<and> ws_open sh' = ws_open sh \<and> ws_leaders sh' = ws_leaders sh \<and> ws_engineRuns sh' = ws_engineRuns sh"
  by (fastforce simp: stepComplete_def tickClock_eq split: prod.splits dest: worker_transition_frame)

lemma fail_shape:
  "\<exists>own sh'. stepFail deps e l sh = (Busy (if wl_leaderIdentity l \<noteq> None then At_expire else At_cleanup) (l\<lparr>wl_ownTerminal := own\<rparr>), sh')
     \<and> ws_open sh' = ws_open sh \<and> ws_leaders sh' = ws_leaders sh \<and> ws_engineRuns sh' = ws_engineRuns sh"
  by (fastforce simp: stepFail_def tickClock_eq split: prod.splits dest: worker_transition_frame)

lemma held_gate:
  assumes "held deps job o0 ls0 rs0 At_confirm l sh" "wl_claimed l' = wl_claimed l" "openHandles l' = openHandles l"
    "wl_leaderIdentity l' = wl_leaderIdentity l" "wl_dedupedFrom l' = wl_dedupedFrom l" "wl_engineCharged l' = wl_engineCharged l"
    "wl_executor l' = wl_executor l" "wl_router l' = wl_router l"
    "ws_open sh' = ws_open sh" "ws_leaders sh' = ws_leaders sh" "ws_engineRuns sh' = ws_engineRuns sh"
  shows "still_held deps job o0 ls0 rs0 sh (dedupGate deps l', sh')"
proof -
  have "held deps job o0 ls0 rs0 (missPc deps l2) l2 sh'" if "wl_claimed l2 = wl_claimed l'" "openHandles l2 = openHandles l'"
    "wl_leaderIdentity l2 = wl_leaderIdentity l'" "wl_dedupedFrom l2 = wl_dedupedFrom l'" "wl_engineCharged l2 = wl_engineCharged l'"
    "wl_executor l2 = wl_executor l'" "wl_router l2 = wl_router l'" for l2
    by (rule held_miss [OF assms(1)]) (use assms that in simp_all)
  moreover have "held deps job o0 ls0 rs0 pc l2 sh'" if "pc = At_lookup \<or> pc = At_fail Other_error" "wl_claimed l2 = wl_claimed l'"
    "openHandles l2 = openHandles l'" "wl_leaderIdentity l2 = wl_leaderIdentity l'" "wl_dedupedFrom l2 = wl_dedupedFrom l'"
    "wl_engineCharged l2 = wl_engineCharged l'" "wl_executor l2 = wl_executor l'" "wl_router l2 = wl_router l'" for l2 pc
    using that assms by (auto simp: held_def split: if_splits)
  ultimately show ?thesis by (simp add: dedupGate_def Let_def split: sum.splits)
qed

lemma held_step:
  assumes "held deps job o0 ls0 rs0 pc l sh"
  shows "still_held deps job o0 ls0 rs0 sh (busyStep deps pc l sh)"
proof (cases pc)
  case At_confirm
  have h: "held deps job o0 ls0 rs0 At_confirm l sh" using assms At_confirm by simp
  have "held deps job o0 ls0 rs0 (At_fail e) l (sh\<lparr>ws_calls := m\<rparr>)" for e m using h by (auto simp: held_def split: if_splits)
  moreover have "still_held deps job o0 ls0 rs0 sh (dedupGate deps (l\<lparr>wl_admissionEv := v\<rparr>), sh\<lparr>ws_calls := m\<rparr>)" for v m
    by (rule held_gate [OF h]) simp_all
  moreover have "still_held deps job o0 ls0 rs0 sh (dedupGate deps l, sh)" by (rule held_gate [OF h]) simp_all
  ultimately show ?thesis using At_confirm by (simp add: stepConfirm_def split: option.splits sum.splits prod.splits)
next
  case At_lookup
  have "held deps job o0 ls0 rs0 (missPc deps l) (l\<lparr>wl_dedupClass := c\<rparr>) sh" for c
    by (rule held_miss [OF assms]) (simp_all add: At_lookup)
  moreover have "held deps job o0 ls0 rs0 (At_template h) l sh" for h using assms At_lookup by (auto simp: held_def split: if_splits)
  ultimately show ?thesis using At_lookup by (simp add: stepLookup_def missAs_def split: option.splits)
next
  case (At_template hit)
  have "held deps job o0 ls0 rs0 (missPc deps l) (l\<lparr>wl_dedupClass := c\<rparr>) sh'"
    if "ws_open sh' = ws_open sh" "ws_leaders sh' = ws_leaders sh" "ws_engineRuns sh' = ws_engineRuns sh" for c sh'
    by (rule held_miss [OF assms]) (simp_all add: At_template that)
  thus ?thesis using At_template assms
    by (auto simp: stepTemplate_def missAs_def Let_def held_def [of deps job o0 ls0 rs0 At_walk_forward] held_def [of deps job o0 ls0 rs0 "At_template _"]
        split: option.splits sum.splits if_splits)
next
  case At_bundle
  thus ?thesis using assms
    by (auto simp: step_defs held_def released_def unregister_def Let_def split: option.splits sum.splits prod.splits if_splits
        dest!: worker_transition_frame)
next
  case At_materialize
  thus ?thesis using assms
    by (auto simp: step_defs held_def released_def unregister_def Let_def split: option.splits sum.splits prod.splits if_splits
        dest!: worker_transition_frame)
next
  case At_acquire
  thus ?thesis using assms
    by (auto simp: step_defs held_def released_def unregister_def Let_def split: option.splits sum.splits prod.splits if_splits
        dest!: worker_transition_frame)
next
  case At_defer
  thus ?thesis using assms
    by (auto simp: step_defs held_def released_def unregister_def Let_def split: option.splits sum.splits prod.splits if_splits
        dest!: worker_transition_frame)
next
  case At_defer_read
  thus ?thesis using assms
    by (auto simp: step_defs held_def released_def unregister_def Let_def split: option.splits sum.splits prod.splits if_splits
        dest!: worker_transition_frame)
next
  case (At_leave r)
  thus ?thesis using assms
    by (auto simp: step_defs held_def released_def unregister_def Let_def split: option.splits sum.splits prod.splits if_splits
        dest!: worker_transition_frame)
next
  case At_executor
  thus ?thesis using assms
    by (auto simp: step_defs held_def released_def unregister_def Let_def split: option.splits sum.splits prod.splits if_splits
        dest!: worker_transition_frame)
next
  case At_router
  show ?thesis
  proof (cases "wk_routerFor deps (ws_calls sh) (wl_claimed l)")
    case (Some e)
    thus ?thesis using assms At_router by (auto simp: stepRouter_def held_def)
  next
    case None
    show ?thesis
    proof (cases "engineOf (wl_claimed l) = Eng_overlay")
      case True
      thus ?thesis using assms At_router None by (simp add: stepRouter_def held_def split: if_splits)
    next
      case False
      thus ?thesis using assms At_router None by (simp add: stepRouter_def held_def split: if_splits)
    qed
  qed
next
  case At_charge
  thus ?thesis using assms
    by (auto simp: step_defs held_def released_def unregister_def Let_def split: option.splits sum.splits prod.splits if_splits
        dest!: worker_transition_frame)
next
  case At_renew
  thus ?thesis using assms
    by (auto simp: step_defs held_def released_def unregister_def Let_def split: option.splits sum.splits prod.splits if_splits
        dest!: worker_transition_frame)
next
  case At_engine
  thus ?thesis using assms
    by (auto simp: step_defs held_def released_def unregister_def Let_def split: option.splits sum.splits prod.splits if_splits
        dest!: worker_transition_frame)
next
  case (At_evidence p)
  thus ?thesis using assms
    by (auto simp: step_defs held_def released_def unregister_def Let_def split: option.splits sum.splits prod.splits if_splits
        dest!: worker_transition_frame)
next
  case (At_promotion p ev)
  thus ?thesis using assms
    by (auto simp: step_defs held_def released_def unregister_def Let_def split: option.splits sum.splits prod.splits if_splits
        dest!: worker_transition_frame)
next
  case (At_finalize p ev pr)
  thus ?thesis using assms
    by (auto simp: step_defs held_def released_def unregister_def Let_def split: option.splits sum.splits prod.splits if_splits
        dest!: worker_transition_frame)
next
  case (At_populate p)
  thus ?thesis using assms
    by (auto simp: step_defs held_def released_def unregister_def Let_def split: option.splits sum.splits prod.splits if_splits
        dest!: worker_transition_frame)
next
  case At_release
  thus ?thesis using assms
    by (auto simp: step_defs held_def released_def unregister_def Let_def split: option.splits sum.splits prod.splits if_splits
        dest!: worker_transition_frame)
next
  case At_walk_forward
  thus ?thesis using assms
    by (auto simp: step_defs held_def released_def unregister_def Let_def split: option.splits sum.splits prod.splits if_splits
        dest!: worker_transition_frame)
next
  case At_complete
  then obtain own sh' where "busyStep deps pc l sh = (Busy At_cleanup (l\<lparr>wl_ownTerminal := own\<rparr>), sh')"
    "ws_open sh' = ws_open sh" "ws_leaders sh' = ws_leaders sh" "ws_engineRuns sh' = ws_engineRuns sh"
    using complete_shape [of deps l sh] by auto
  thus ?thesis using assms At_complete by (auto simp: held_def split: if_splits)
next
  case (At_fail e)
  then obtain own sh' where "busyStep deps pc l sh = (Busy (if wl_leaderIdentity l \<noteq> None then At_expire else At_cleanup) (l\<lparr>wl_ownTerminal := own\<rparr>), sh')"
    "ws_open sh' = ws_open sh" "ws_leaders sh' = ws_leaders sh" "ws_engineRuns sh' = ws_engineRuns sh"
    using fail_shape [of deps e l sh] by auto
  thus ?thesis using assms At_fail by (auto simp: held_def split: if_splits)
next
  case At_expire
  thus ?thesis using assms
    by (auto simp: step_defs held_def released_def unregister_def Let_def split: option.splits sum.splits prod.splits if_splits
        dest!: worker_transition_frame)
next
  case At_cleanup
  thus ?thesis using assms
    by (auto simp: step_defs held_def released_def unregister_def Let_def split: option.splits sum.splits prod.splits if_splits
        dest!: worker_transition_frame)
next
  case At_reread
  thus ?thesis using assms
    by (auto simp: step_defs held_def released_def unregister_def Let_def split: option.splits sum.splits prod.splits if_splits
        dest!: worker_transition_frame)
next
  case (At_publish r)
  thus ?thesis using assms
    by (auto simp: step_defs held_def released_def unregister_def Let_def split: option.splits sum.splits prod.splits if_splits
        dest!: worker_transition_frame)
qed

subsection \<open>The row of the run\<close>

fun settled :: "worker_pc \<Rightarrow> bool" where
  "settled At_expire = True"
| "settled At_cleanup = True"
| "settled At_reread = True"
| "settled (At_publish _) = True"
| "settled _ = False"

fun deferred :: "worker_pc \<Rightarrow> bool" where
  "deferred At_defer_read = True"
| "deferred (At_leave _) = True"
| "deferred _ = False"

text \<open>The row while the run is in progress, parked and finished.\<close>

definition running_row :: "('s, 'c, 'l) worker_deps \<Rightarrow> job_row \<Rightarrow> worker_locals \<Rightarrow> job_row \<Rightarrow> bool" where
  "running_row deps job l r = (status r = Running \<and> (leaseWorker deps = None \<or> leasedBy r = leaseWorker deps)
     \<and> attempts r = attempts job + of_bool (wl_engineCharged l) \<and> dedupedFrom r = dedupedFrom job)"

definition parked_row :: "job_row \<Rightarrow> job_row \<Rightarrow> bool" where
  "parked_row job r = (status r = Waiting_for_compute \<and> attempts r = attempts job)"

definition finished_row :: "job_row \<Rightarrow> bool \<Rightarrow> bool \<Rightarrow> job_row \<Rightarrow> bool" where
  "finished_row job charged executed r = (attempts r = attempts job + of_bool charged
     \<and> (status r = Completed \<and> resultSummary r \<noteq> None \<and> resultHash r \<noteq> None
          \<and> (if executed then dedupedFrom r = dedupedFrom job else dedupedFrom r \<noteq> None)
        \<or> (status r = Failed \<or> status r = Timed_out) \<and> terminalCode r \<noteq> None))"

lemma finished_terminal: "finished_row job c executed r \<Longrightarrow> isTerminal (status r)"
  by (auto simp: finished_row_def)

definition place_row :: "('s, 'c, 'l) worker_deps \<Rightarrow> job_row \<Rightarrow> worker_pc \<Rightarrow> worker_locals \<Rightarrow> bool \<Rightarrow> job_row \<Rightarrow> bool" where
  "place_row deps job pc l executed r =
     (if settled pc then wl_ownTerminal l \<and> finished_row job (wl_engineCharged l) executed r \<and> (\<forall>q. pc = At_publish q \<longrightarrow> q = r)
      else if deferred pc then parked_row job r \<and> (\<forall>q. pc = At_leave q \<longrightarrow> q = Some r)
      else running_row deps job l r)"

text \<open>The steps that leave the store alone.\<close>

fun touches_store :: "worker_pc \<Rightarrow> bool" where
  "touches_store At_defer = True"
| "touches_store At_charge = True"
| "touches_store At_renew = True"
| "touches_store At_complete = True"
| "touches_store (At_fail _) = True"
| "touches_store (At_publish _) = True"
| "touches_store _ = False"

lemma store_untouched:
  "\<not> touches_store pc \<Longrightarrow> w_store (ws_world (snd (busyStep deps pc l sh))) = w_store (ws_world sh)
     \<and> w_uids (ws_world (snd (busyStep deps pc l sh))) = w_uids (ws_world sh)"
  by (cases pc) (simp_all add: stepBundle_def stepMaterialize_def stepConfirm_def stepLookup_def stepTemplate_def
    stepAcquire_def finally_then_def stepExecutor_def stepRouter_def stepEngine_def stepEvidence_def stepPromotion_def
    stepFinalize_def stepPopulate_def stepRelease_def stepWalkForward_def stepExpire_def stepReread_def tickClock_eq Let_def
    split: option.splits sum.splits prod.splits)

lemma pc_rows [simp]:
  "\<not> settled (enginePc l)" "\<not> deferred (enginePc l)" "\<not> settled (missPc deps l)" "\<not> deferred (missPc deps l)"
  "\<not> settled (afterCharge deps l)" "\<not> deferred (afterCharge deps l)"
  by (simp_all add: enginePc_def missPc_def afterCharge_def split: dedup_engine.splits option.splits)

text \<open>Where such a step leads, and that it changes neither the charge nor the ownership.\<close>

definition same_row_place :: "worker_pc \<Rightarrow> worker_locals \<Rightarrow> worker \<Rightarrow> bool" where
  "same_row_place pc l wk' = (case wk' of Busy pc' l' \<Rightarrow> settled pc' = settled pc \<and> deferred pc' = deferred pc
       \<and> (\<forall>q. pc' \<noteq> At_publish q) \<and> (\<forall>q. pc' \<noteq> At_leave q)
       \<and> wl_engineCharged l' = wl_engineCharged l \<and> wl_ownTerminal l' = wl_ownTerminal l | _ \<Rightarrow> True)"

lemma same_row_place_Busy [simp]:
  "same_row_place pc l (Busy pc' l') \<longleftrightarrow> settled pc' = settled pc \<and> deferred pc' = deferred pc
       \<and> (\<forall>q. pc' \<noteq> At_publish q) \<and> (\<forall>q. pc' \<noteq> At_leave q)
       \<and> wl_engineCharged l' = wl_engineCharged l \<and> wl_ownTerminal l' = wl_ownTerminal l"
  "same_row_place pc l (Done x)" "same_row_place pc l Threw"
  by (simp_all add: same_row_place_def)

lemma pc_not_leave [simp]: "enginePc l \<noteq> At_leave q" "missPc deps l \<noteq> At_leave q" "afterCharge deps l \<noteq> At_leave q"
  by (simp_all add: enginePc_def missPc_def afterCharge_def split: dedup_engine.splits option.splits)

lemma untouched_place:
  "\<not> touches_store pc \<Longrightarrow> pc \<noteq> At_reread \<Longrightarrow> pc \<noteq> At_defer_read \<Longrightarrow> same_row_place pc l (fst (busyStep deps pc l sh))"
  by (cases pc) (simp_all add: stepBundle_def stepMaterialize_def stepConfirm_def stepLookup_def stepTemplate_def dedupGate_def missAs_def
    stepAcquire_def finally_then_def stepExecutor_def stepRouter_def stepEngine_def stepEvidence_def stepPromotion_def
    stepFinalize_def stepPopulate_def stepRelease_def stepWalkForward_def stepExpire_def tickClock_eq Let_def
    split: option.splits sum.splits prod.splits)

lemma plain_busy:
  "\<not> touches_store pc \<Longrightarrow> pc \<noteq> At_reread \<Longrightarrow> pc \<noteq> At_defer_read \<Longrightarrow> \<forall>q. pc \<noteq> At_leave q \<Longrightarrow>
   fst (busyStep deps pc l sh) \<noteq> Idle \<and> (\<forall>x. fst (busyStep deps pc l sh) \<noteq> Done x)"
  by (cases pc) (simp_all add: stepBundle_def stepMaterialize_def stepConfirm_def stepLookup_def stepTemplate_def dedupGate_def missAs_def
    stepAcquire_def finally_then_def stepExecutor_def stepRouter_def stepEngine_def stepEvidence_def stepPromotion_def
    stepFinalize_def stepPopulate_def stepRelease_def stepWalkForward_def stepExpire_def tickClock_eq Let_def
    split: option.splits sum.splits prod.splits)

lemma worker_transition_ex: "\<exists>own sh'. worker_transition deps l to p sh = (own, sh')"
  by (cases "worker_transition deps l to p sh") blast

lemma busyStep_no_throw: "\<forall>n. \<not> wk_cleanupFails deps n \<Longrightarrow> fst (busyStep deps pc l sh) \<noteq> Threw"
  by (cases pc) (simp_all add: step_defs dedupGate_def missAs_def Let_def split: option.splits sum.splits prod.splits)

lemma runWorker_no_throw:
  assumes "\<forall>n. \<not> wk_cleanupFails deps n" "wk \<noteq> Threw"
  shows "fst (runWorker deps wk sh) \<noteq> Threw"
  using assms(2)
proof (induction "workerRank wk" arbitrary: wk sh rule: less_induct)
  case less
  show ?case
  proof (cases "workerRank wk = 0")
    case True
    thus ?thesis using less.prems by (simp add: runWorker.simps)
  next
    case False
    obtain wk1 sh1 where e: "workerStep deps wk sh = (wk1, sh1)" by (cases "workerStep deps wk sh")
    have "wk1 \<noteq> Threw" using e False busyStep_no_throw [OF assms(1)]
      by (cases wk) (auto simp: workerStep_def stepClaim_def split: prod.splits option.splits, metis fst_conv)
    moreover have "workerRank wk1 < workerRank wk" using workerStep_rank [of wk deps sh] e False by simp
    ultimately show ?thesis using less.hyps e False by (simp add: runWorker.simps [of deps wk])
  qed
qed

context job_store_contract
begin

definition row_inv :: "('s, 'c, 'l) worker_deps \<Rightarrow> job_row \<Rightarrow> (string \<times> job_event_type) list \<Rightarrow> string list \<Rightarrow>
    worker_pc \<Rightarrow> worker_locals \<Rightarrow> ('s, 'c, 'l) worker_state \<Rightarrow> bool" where
  "row_inv deps job tags0 runs0 pc l sh = (inv (w_store (ws_world sh))
     \<and> uids_ok (wk_completion deps) (evs (w_store (ws_world sh))) (w_uids (ws_world sh))
     \<and> map ev_tag (evs (w_store (ws_world sh))) = tags0
     \<and> (\<exists>r. op_get ops (w_store (ws_world sh)) (runId job) = Some r \<and> place_row deps job pc l (ws_engineRuns sh \<noteq> runs0) r))"

definition outcome :: "('s, 'c, 'l) worker_deps \<Rightarrow> job_row \<Rightarrow> (string \<times> job_event_type) list \<Rightarrow> string list \<Rightarrow>
    job_row option \<Rightarrow> ('s, 'c, 'l) worker_state \<Rightarrow> bool" where
  "outcome deps job tags0 runs0 x sh = (\<exists>r. x = Some r \<and> op_get ops (w_store (ws_world sh)) (runId job) = Some r
     \<and> (parked_row job r \<and> ws_engineRuns sh = runs0 \<and> map ev_tag (evs (w_store (ws_world sh))) = tags0
        \<or> (\<exists>charged. finished_row job charged (ws_engineRuns sh \<noteq> runs0) r \<and> (charged \<longrightarrow> coalesceCapable deps)
             \<and> (coalesceCapable deps \<and> ws_engineRuns sh \<noteq> runs0 \<longrightarrow> charged)
             \<and> map ev_tag (evs (w_store (ws_world sh))) = tags0 @ [row_tag r])))"

definition row_after where
  "row_after deps job tags0 runs0 res = (case res of (wk', sh') \<Rightarrow> (case wk' of
      Busy pc l \<Rightarrow> row_inv deps job tags0 runs0 pc l sh'
    | Done x \<Rightarrow> outcome deps job tags0 runs0 x sh'
    | Threw \<Rightarrow> True | Idle \<Rightarrow> False))"

lemma row_after_simps [simp]:
  "row_after deps job tags0 runs0 (Busy pc l, sh') \<longleftrightarrow> row_inv deps job tags0 runs0 pc l sh'"
  "row_after deps job tags0 runs0 (Done x, sh') \<longleftrightarrow> outcome deps job tags0 runs0 x sh'"
  "row_after deps job tags0 runs0 (Threw, sh')"
  by (simp_all add: row_after_def)

text \<open>A compare-and-set of the worker on its own running row succeeds.\<close>

lemma own_transition:
  assumes i: "inv (w_store (ws_world sh))" and u: "uids_ok (wk_completion deps) (evs (w_store (ws_world sh))) (w_uids (ws_world sh))"
    and r: "op_get ops (w_store (ws_world sh)) (runId job) = Some r" "running_row deps job l r"
    and d: "d_store (wk_completion deps) = ops" "wl_claimed l = job" and to: "canTransition Running to"
    and t: "worker_transition deps l to p (snd (tickClock deps sh)) = (own, sh')"
  shows "own" "inv (w_store (ws_world sh'))" "uids_ok (wk_completion deps) (evs (w_store (ws_world sh'))) (w_uids (ws_world sh'))"
    "map ev_tag (evs (w_store (ws_world sh'))) = map ev_tag (evs (w_store (ws_world sh)))"
    "op_get ops (w_store (ws_world sh')) (runId job) = Some (applyPatch to p r)" "ws_engineRuns sh' = ws_engineRuns sh"
proof -
  obtain st where st: "op_transition ops (runId job) Running to p (leaseWorker deps) (w_store (ws_world sh)) = (own, st)"
    and sh': "w_store (ws_world sh') = st" "w_uids (ws_world sh') = w_uids (ws_world sh)" "ws_engineRuns sh' = ws_engineRuns sh"
    using t d by (auto simp: worker_transition_def tickClock_eq split: prod.splits)
  have cas: "cas_ok (op_get ops (w_store (ws_world sh)) (runId job)) Running to (leaseWorker deps)"
    using r to by (auto simp: running_row_def)
  show own using transition_flag [OF i, of "runId job" Running to p "leaseWorker deps"] st cas by simp
  show "inv (w_store (ws_world sh'))" using transition_inv [OF i, of "runId job" Running to p "leaseWorker deps"] st sh' by simp
  have e: "evs st = evs (w_store (ws_world sh))" using transition_evs [OF i, of "runId job" Running to p "leaseWorker deps"] st by simp
  show "uids_ok (wk_completion deps) (evs (w_store (ws_world sh'))) (w_uids (ws_world sh'))"
    "map ev_tag (evs (w_store (ws_world sh'))) = map ev_tag (evs (w_store (ws_world sh)))"
    using e u sh' by simp_all
  show "op_get ops (w_store (ws_world sh')) (runId job) = Some (applyPatch to p r)"
    using transition_rows [OF i, of "runId job" Running to p "leaseWorker deps"] st cas r(1) sh' by simp
  show "ws_engineRuns sh' = ws_engineRuns sh" by (rule sh')
qed

lemma row_untouched:
  assumes "row_inv deps job tags0 runs0 pc l sh" "held deps job o0 ls0 runs0 pc l sh" "d_store (wk_completion deps) = ops"
    "\<not> touches_store pc"
  shows "row_after deps job tags0 runs0 (busyStep deps pc l sh)"
proof -
  obtain wk' sh' where e: "busyStep deps pc l sh = (wk', sh')" by (cases "busyStep deps pc l sh")
  have st: "w_store (ws_world sh') = w_store (ws_world sh)" "w_uids (ws_world sh') = w_uids (ws_world sh)"
    using store_untouched [OF assms(4), of deps l sh] e by simp_all
  obtain r where r: "op_get ops (w_store (ws_world sh)) (runId job) = Some r" "place_row deps job pc l (ws_engineRuns sh \<noteq> runs0) r"
    and c: "inv (w_store (ws_world sh))" "uids_ok (wk_completion deps) (evs (w_store (ws_world sh))) (w_uids (ws_world sh))"
      "map ev_tag (evs (w_store (ws_world sh))) = tags0"
    using assms(1) unfolding row_inv_def by blast
  have job: "wl_claimed l = job" using assms(2) by (simp add: held_def)
  have read: "readRow deps l sh = Some r" using r(1) assms(3) job by (simp add: readRow_def)
  consider (reread) "pc = At_reread" | (dread) "pc = At_defer_read" | (leave) q where "pc = At_leave q"
    | (plain) "pc \<noteq> At_reread" "pc \<noteq> At_defer_read" "\<forall>q. pc \<noteq> At_leave q" by blast
  thus ?thesis
  proof cases
    case reread
    hence "wl_ownTerminal l" "busyStep deps pc l sh = (Busy (At_publish r) l, sh)"
      using r(2) read by (simp_all add: place_row_def stepReread_def)
    thus ?thesis using r c reread by (simp add: row_inv_def place_row_def)
  next
    case dread
    thus ?thesis using r c read by (simp add: row_inv_def place_row_def)
  next
    case leave
    have "ws_engineRuns sh = runs0" using assms(2) leave by (auto simp: held_def)
    thus ?thesis using r c leave by (simp add: finally_then_def outcome_def place_row_def)
  next
    case plain
    have p: "same_row_place pc l wk'" using untouched_place [OF assms(4) plain(1,2), of l deps sh] e by simp
    show ?thesis
    proof (cases wk')
      case (Busy pc' l')
      have "settled pc \<longrightarrow> ws_engineRuns sh' = ws_engineRuns sh"
        using e plain assms(4) by (cases pc) (auto simp: finally_then_def stepExpire_def tickClock_eq split: option.splits if_splits)
      thus ?thesis using r c p st e Busy plain by (auto simp: row_inv_def place_row_def running_row_def)
    qed (use plain_busy [OF assms(4) plain, where deps = deps and l = l and sh = sh] e in simp_all)
  qed
qed

lemma row_touched:
  assumes ri: "row_inv deps job tags0 runs0 pc l sh" and h: "held deps job o0 ls0 runs0 pc l sh"
    and d: "d_store (wk_completion deps) = ops" "inj (d_uid (wk_completion deps))" and t: "touches_store pc"
  shows "row_after deps job tags0 runs0 (busyStep deps pc l sh)"
proof -
  obtain r where r: "op_get ops (w_store (ws_world sh)) (runId job) = Some r" "place_row deps job pc l (ws_engineRuns sh \<noteq> runs0) r"
    and c: "inv (w_store (ws_world sh))" "uids_ok (wk_completion deps) (evs (w_store (ws_world sh))) (w_uids (ws_world sh))"
      "map ev_tag (evs (w_store (ws_world sh))) = tags0"
    using ri unfolding row_inv_def by blast
  have job: "wl_claimed l = job" using h by (simp add: held_def)
  define now where "now = fst (tickClock deps sh)"
  show ?thesis
  proof (cases pc)
    case At_defer
    have rr: "running_row deps job l r" using r(2) At_defer by (simp add: place_row_def)
    have "\<not> wl_engineCharged l" using h At_defer by (simp add: held_def)
    define p where "p = (patch_at now)\<lparr>p_computeIdentity := wl_identity l,
      p_computeWaitAttempts := Some (computeWaitAttempts (wl_claimed l) + 1), p_engineAttemptCharged := Some False\<rparr>"
    obtain own sh' where tr: "worker_transition deps l Waiting_for_compute p (snd (tickClock deps sh)) = (own, sh')"
      using worker_transition_ex by blast
    have e: "busyStep deps pc l sh = (Busy At_defer_read l, sh')"
      using At_defer tr by (simp add: stepDefer_def p_def now_def tickClock_eq)
    have "parked_row job (applyPatch Waiting_for_compute p r)"
      using rr \<open>\<not> wl_engineCharged l\<close> by (simp add: parked_row_def running_row_def applyPatch_def p_def patch_at_def)
    thus ?thesis using own_transition [OF c(1,2) r(1) rr d(1) job _ tr] c(3) by (simp add: e row_inv_def place_row_def)
  next
    case At_charge
    have rr: "running_row deps job l r" using r(2) At_charge by (simp add: place_row_def)
    have nc: "\<not> wl_engineCharged l" using h At_charge by (simp add: held_def)
    show ?thesis
    proof (cases "coalesceCapable deps")
      case False
      thus ?thesis using At_charge r c rr by (simp add: stepCharge_def row_inv_def place_row_def)
    next
      case True
      define p where "p = (patch_at now)\<lparr>p_attempts := Some (attempts (wl_claimed l) + 1), p_engineAttemptCharged := Some True\<rparr>"
      obtain own sh' where tr: "worker_transition deps l Running p (snd (tickClock deps sh)) = (own, sh')"
        using worker_transition_ex by blast
      have e: "busyStep deps pc l sh = (Busy (afterCharge deps l) (l\<lparr>wl_engineCharged := True\<rparr>), sh')"
        using At_charge tr True nc by (simp add: stepCharge_def p_def now_def tickClock_eq)
      have "running_row deps job (l\<lparr>wl_engineCharged := True\<rparr>) (applyPatch Running p r)"
        using rr nc job by (simp add: running_row_def applyPatch_def p_def patch_at_def)
      thus ?thesis using own_transition [OF c(1,2) r(1) rr d(1) job _ tr] c(3) by (simp add: e row_inv_def place_row_def)
    qed
  next
    case At_renew
    have rr: "running_row deps job l r" using r(2) At_renew by (simp add: place_row_def)
    show ?thesis
    proof (cases "wk_lease deps")
      case None
      thus ?thesis using At_renew r c rr by (simp add: stepRenew_def row_inv_def place_row_def)
    next
      case (Some ls)
      have "running_row deps job l (renewedRow w t r)" for w t using rr by (auto simp: running_row_def renewedRow_def)
      thus ?thesis using At_renew r c d Some
        by (simp add: stepRenew_def tickClock_eq on_store_def row_inv_def place_row_def renew_rows renew_inv renew_evs)
    qed
  next
    case At_complete
    have rr: "running_row deps job l r" using r(2) At_complete by (simp add: place_row_def)
    obtain f where f: "wl_finalized l = Some f" using h At_complete by (auto simp: held_def)
    define p where "p = (patch_at now)\<lparr>p_terminalAtMs := Some now, p_lastActivityMs := Some now,
          p_resultSummary := map_option fz_summary (wl_finalized l), p_resultHash := map_option fz_resultHash (wl_finalized l),
          p_artifactManifest := map_option fz_manifest (wl_finalized l), p_datasetFingerprint := Some (tapeFp l),
          p_dedupedFrom := wl_dedupedFrom l\<rparr>"
    obtain own sh' where tr: "worker_transition deps l Completed p (snd (tickClock deps sh)) = (own, sh')"
      using worker_transition_ex by blast
    have e: "busyStep deps pc l sh = (Busy At_cleanup (l\<lparr>wl_ownTerminal := own\<rparr>), sh')"
      using At_complete tr by (simp add: stepComplete_def p_def now_def tickClock_eq)
    have "ws_engineRuns sh \<noteq> runs0 \<longrightarrow> wl_dedupedFrom l = None" "ws_engineRuns sh \<noteq> runs0 \<or> wl_dedupedFrom l \<noteq> None"
      using h At_complete by (auto simp: held_def)
    hence "finished_row job (wl_engineCharged l) (ws_engineRuns sh \<noteq> runs0) (applyPatch Completed p r)"
      using rr f by (auto simp: finished_row_def running_row_def applyPatch_def p_def patch_at_def)
    thus ?thesis using own_transition [OF c(1,2) r(1) rr d(1) job _ tr] c(3) by (simp add: e row_inv_def place_row_def)
  next
    case (At_fail err)
    have rr: "running_row deps job l r" using r(2) At_fail by (simp add: place_row_def)
    define p where "p = (patch_at now)\<lparr>p_terminalAtMs := Some now, p_terminalCode := Some (errorCode err), p_terminalIssues := errorIssues err\<rparr>"
    obtain own sh' where tr: "worker_transition deps l (errorStatus err) p (snd (tickClock deps sh)) = (own, sh')"
      using worker_transition_ex by blast
    have e: "busyStep deps pc l sh = (Busy (if wl_leaderIdentity l \<noteq> None then At_expire else At_cleanup) (l\<lparr>wl_ownTerminal := own\<rparr>), sh')"
      using At_fail tr by (simp add: stepFail_def p_def now_def tickClock_eq)
    have es: "errorStatus err = Failed \<or> errorStatus err = Timed_out" by (cases err rule: errorStatus.cases) simp_all
    hence ct: "canTransition Running (errorStatus err)" by (auto simp: canTransition_def)
    have "finished_row job (wl_engineCharged l) (ws_engineRuns sh \<noteq> runs0) (applyPatch (errorStatus err) p r)"
      using rr es by (auto simp: finished_row_def running_row_def applyPatch_def p_def patch_at_def)
    thus ?thesis using own_transition [OF c(1,2) r(1) rr d(1) job ct tr] c(3) by (simp add: e row_inv_def place_row_def)
  next
    case (At_publish q)
    have q: "q = r" "finished_row job (wl_engineCharged l) (ws_engineRuns sh \<noteq> runs0) r"
      using r(2) At_publish by (simp_all add: place_row_def)
    note f = publish_facts [OF d c(1,2) finished_terminal [OF q(2)]]
    have "wl_engineCharged l \<longrightarrow> coalesceCapable deps" "coalesceCapable deps \<and> ws_engineRuns sh \<noteq> runs0 \<longrightarrow> wl_engineCharged l"
      using h At_publish by (auto simp: held_def)
    thus ?thesis using At_publish q f r(1) c(3) by (auto simp: stepPublish_def outcome_def)
  qed (use t in simp_all)
qed

lemma run_from:
  assumes "row_inv deps job tags0 runs0 pc l sh" "held deps job o0 ls0 runs0 pc l sh"
    "d_store (wk_completion deps) = ops" "inj (d_uid (wk_completion deps))" "runWorker deps (Busy pc l) sh = (wk', sh')"
  shows "wk' = Threw \<or> (\<exists>x. wk' = Done x \<and> outcome deps job tags0 runs0 x sh' \<and> released o0 ls0 runs0 sh')"
  using assms(1,2,5)
proof (induction "pcRank l pc" arbitrary: pc l sh rule: less_induct)
  case less
  obtain wk1 sh1 where e: "busyStep deps pc l sh = (wk1, sh1)" by (cases "busyStep deps pc l sh")
  have run: "runWorker deps wk1 sh1 = (wk', sh')"
    using less.prems(3) e pcRank_bounds(1) [of l pc] by (simp add: runWorker.simps [of deps "Busy pc l"] workerStep_def)
  have row: "row_after deps job tags0 runs0 (wk1, sh1)"
    using row_untouched [OF less.prems(1,2) assms(3)] row_touched [OF less.prems(1,2) assms(3,4)] e by (cases "touches_store pc") simp_all
  have hold: "still_held deps job o0 ls0 runs0 sh (wk1, sh1)" using held_step [OF less.prems(2)] e by simp
  show ?case
  proof (cases wk1)
    case (Busy pc1 l1)
    have "pcRank l1 pc1 < pcRank l pc" using busyStep_rank [of deps pc l sh] e Busy by simp
    thus ?thesis using less.hyps row hold run Busy by simp
  next
    case (Done x)
    thus ?thesis using row hold run by (auto simp: runWorker.simps)
  next
    case Threw
    thus ?thesis using run by (simp add: runWorker.simps)
  next
    case Idle
    thus ?thesis using row by (simp add: row_after_def)
  qed
qed

lemma process_settles:
  assumes c: "inv (w_store (ws_world sh))" "uids_ok (wk_completion deps) (evs (w_store (ws_world sh))) (w_uids (ws_world sh))"
    and d: "d_store (wk_completion deps) = ops" "inj (d_uid (wk_completion deps))" and n: "\<forall>n. \<not> wk_cleanupFails deps n"
    and cl: "fst (op_claimNextQueued ops (d_clock (wk_completion deps) (w_clocks (ws_world sh))) (wk_lease deps) (coalesceCapable deps)
      (w_store (ws_world sh))) = Some job"
  shows "\<exists>x sh'. processNextQueued deps sh = (Done x, sh') \<and> released (ws_open sh) (ws_leaders sh) (ws_engineRuns sh) sh'
    \<and> outcome deps job (map ev_tag (evs (w_store (ws_world sh)))) (ws_engineRuns sh) x sh'"
proof -
  define now where "now = d_clock (wk_completion deps) (w_clocks (ws_world sh))"
  define st where "st = snd (op_claimNextQueued ops now (wk_lease deps) (coalesceCapable deps) (w_store (ws_world sh)))"
  define sh1 where "sh1 = sh\<lparr>ws_world := (ws_world sh)\<lparr>w_clocks := w_clocks (ws_world sh) + 1, w_store := st\<rparr>\<rparr>"
  have cl': "fst (op_claimNextQueued ops now (wk_lease deps) (coalesceCapable deps) (w_store (ws_world sh))) = Some job"
    using cl by (simp add: now_def)
  have e: "stepClaim deps sh = (Busy At_bundle (initLocals job), sh1)"
    using cl' d(1) by (simp add: stepClaim_def tickClock_eq sh1_def st_def now_def case_prod_beta)
  obtain r where r: "row_evolves r job" "status job = Running" "wk_lease deps \<noteq> None \<longrightarrow> job = claimedRow now (wk_lease deps) (coalesceCapable deps) r"
    and g: "op_get ops st = (op_get ops (w_store (ws_world sh)))(runId r \<mapsto> job)"
    using claim_some [OF c(1) cl'] unfolding st_def by blast
  have st: "inv st" "evs st = evs (w_store (ws_world sh))" using claim_inv [OF c(1)] claim_evs [OF c(1)] by (simp_all add: st_def)
  have "runId job = runId r" using row_ok [OF st(1), of "runId r" job] g by simp
  hence get: "op_get ops st (runId job) = Some job" using g by simp
  have "leaseWorker deps = None \<or> leasedBy job = leaseWorker deps"
    using r(3) by (cases "wk_lease deps") (simp_all add: leaseWorker_def claimedRow_fields)
  hence row: "row_inv deps job (map ev_tag (evs (w_store (ws_world sh)))) (ws_engineRuns sh) At_bundle (initLocals job) sh1"
    using st c(2) get r(2) by (simp add: row_inv_def place_row_def running_row_def sh1_def initLocals_def)
  have held: "held deps job (ws_open sh) (ws_leaders sh) (ws_engineRuns sh) At_bundle (initLocals job) sh1"
    by (simp add: held_def initLocals_def openHandles_def sh1_def)
  obtain wk' sh' where run: "runWorker deps (Busy At_bundle (initLocals job)) sh1 = (wk', sh')"
    by (cases "runWorker deps (Busy At_bundle (initLocals job)) sh1")
  have "wk' \<noteq> Threw" using runWorker_no_throw [OF n, of "Busy At_bundle (initLocals job)" sh1] run by simp
  moreover have "processNextQueued deps sh = (wk', sh')"
    using e run by (simp add: processNextQueued_def runWorker.simps [of deps Idle] workerStep_def)
  ultimately show ?thesis using run_from [OF row held d run] by auto
qed

lemma process_empty:
  assumes "inv (w_store (ws_world sh))" "d_store (wk_completion deps) = ops"
    "fst (op_claimNextQueued ops (d_clock (wk_completion deps) (w_clocks (ws_world sh))) (wk_lease deps) (coalesceCapable deps)
      (w_store (ws_world sh))) = None"
  shows "processNextQueued deps sh = (Done None, sh\<lparr>ws_world := (ws_world sh)\<lparr>w_clocks := w_clocks (ws_world sh) + 1\<rparr>\<rparr>)"
proof -
  have "snd (op_claimNextQueued ops (d_clock (wk_completion deps) (w_clocks (ws_world sh))) (wk_lease deps) (coalesceCapable deps)
      (w_store (ws_world sh))) = w_store (ws_world sh)" using claim_none [OF assms(1,3)] by simp
  hence "stepClaim deps sh = (Done None, sh\<lparr>ws_world := (ws_world sh)\<lparr>w_clocks := w_clocks (ws_world sh) + 1\<rparr>\<rparr>)"
    using assms(2,3) by (cases "ws_world sh") (simp add: stepClaim_def tickClock_eq case_prod_beta)
  thus ?thesis by (simp add: processNextQueued_def runWorker.simps workerStep_def)
qed

end

end
