(* ===== verification/Worker_Properties.thy ===== *)
theory Worker_Properties
  imports Worker_Run
begin

text \<open>
  Properties of the workers on the Postgres store: what one call does, and what any number of them do to the outbox
  beside the other actors.
\<close>

subsection \<open>A concrete worker\<close>

definition sampleWorker :: "(pg_store, mem_cache, mem_locks) worker_deps" where
  "sampleWorker = \<lparr>wk_completion = sampleDeps (pgOps id), wk_lease = Some \<lparr>l_workerId = ''w'', l_ttlMs = 30\<rparr>,
     wk_dedupEnabled = True, wk_resultCache = Some inMemoryResultCache, wk_coalesceEnabled = True,
     wk_computeLock = Some inMemoryLocks, wk_computeLockTtlMs = None, wk_registersLeaders = True, wk_policyVersion = ''p@1'',
     wk_hash = \<lparr>he_dec8 = (\<lambda>q. ''0''), he_sha256 = id, he_jsonParse = (\<lambda>s. None)\<rparr>, wk_dates = sampleDates,
     wk_promotionEnabled = False, wk_signingKey = False, wk_barLoopThread = False, wk_eventDrivenEnabled = False,
     wk_artifactStoreSpec = False, wk_requiresAdmission = False, wk_preflight = None,
     wk_sandboxBundleFor = (\<lambda>n h. Inl Other_error),
     wk_buildTape = (\<lambda>n e j. Inr \<lparr>ti_datasetFingerprint = ''d'', ti_columns = False\<rparr>),
     wk_executorFor = (\<lambda>n j. None), wk_routerFor = (\<lambda>n j. None),
     wk_engine = (\<lambda>n e j. Inr \<lparr>eg_outcome = Inr JNull, eg_sandboxErrors = False\<rparr>),
     wk_momentum = (\<lambda>n j. Inr (JObj [(''runId'', JStr (runId j))])),
     wk_evidence = (\<lambda>n j j' p. None), wk_promotionGate = (\<lambda>n j p. None),
     wk_finalize = (\<lambda>n e p j f ev pr adm. Inr \<lparr>fz_summary = synthesizeSummary ''1'' j,
        fz_manifest = \<lparr>am_runId = runId j, am_contractVersion = ''1'', am_artifactContractVersion = ''1'', am_descriptors = []\<rparr>,
        fz_resultHash = ''h''\<rparr>),
     wk_readTemplate = (\<lambda>n r. None), wk_writeTemplate = (\<lambda>n t. Some ''t''), wk_walkForward = (\<lambda>n j. None),
     wk_cleanupFails = (\<lambda>n. False)\<rparr>"

definition workerStart :: "'s world \<Rightarrow> 'c \<Rightarrow> 'l \<Rightarrow> ('s, 'c, 'l) worker_state" where
  "workerStart w c k = \<lparr>ws_world = w, ws_cache = c, ws_locks = k, ws_leaders = [], ws_open = 0, ws_engineRuns = [], ws_calls = 0\<rparr>"

text \<open>A run is submitted and queued.\<close>

definition submitCalls :: "store_call list" where
  "submitCalls = [Call_insert ((sampleJob ''r1'' None 1)\<lparr>nj_request :=
       JObj [(''period'', JObj [(''from'', JStr ''i''), (''to'', JStr ''iii'')])]\<rparr>),
     Call_transition ''r1'' Accepted Queued ((patch_at 2)\<lparr>p_queuedAtMs := Some 2\<rparr>) None]"

definition queuedWorld :: "pg_store world" where
  "queuedWorld = fold (\<lambda>c. on_store (exec_call (pgOps id) c)) submitCalls (startWorld emptyPg)"

lemma sampleWorker_simps [simp]: "wk_completion sampleWorker = sampleDeps (pgOps id)" "wk_cleanupFails sampleWorker n = False"
  by (simp_all add: sampleWorker_def)

lemma queued_reachable: "pub_reachable (sampleDeps (pgOps id)) (startWorld emptyPg, []) (queuedWorld, [])"
proof -
  have q: "list_all quiet_call submitCalls" by (simp add: submitCalls_def)
  moreover have "fresh_calls (pgOps id) submitCalls emptyPg" by code_simp
  ultimately show ?thesis
    using quiet_fold [OF q _ pub_reachable.start, of "sampleDeps (pgOps id)" "startWorld emptyPg" "[]"]
    by (simp add: queuedWorld_def startWorld_def)
qed

lemma pg_start_ok: "pg.pub_ok jsonb (\<lambda>_. 0) deps (startWorld emptyPg, [])"
  unfolding startWorld_def by (rule pg.pub_ok_start) (simp, simp_all add: pg_events_def emptyPg_def pg_get_def)

lemma queued_ok: "pg.pub_ok id (\<lambda>_. 0) (sampleDeps (pgOps id)) (queuedWorld, [])"
  by (rule pg.pub_reachable_ok [OF queued_reachable pg_start_ok]) (simp_all add: inj_sampleUid)

subsection \<open>One call\<close>

text \<open>Claim C18. A call of \<open>processNextQueued\<close> that nobody interferes with, and whose handles close, always returns.  The claimed
  run has then ended: completed with a result summary and hash, or failed or timed out with a terminal code, and exactly
  one completion event, of its final status, has been added to the outbox; or another leader computes the same result,
  and the run is parked without any event, engine execution or charge.  A completed run either executed the engine or
  is marked with the identity it was deduplicated from, never both; under coalescing the attempt is charged when the
  engine ran and never twice, and without coalescing the call does not charge.  Every handle is closed and no leader is left registered.\<close>
theorem run_settles:
  assumes "pg_ok (w_store (ws_world sh))" "d_store (wk_completion deps) = pgOps jsonb" "inj (d_uid (wk_completion deps))"
    "uids_ok (wk_completion deps) (pg_events (w_store (ws_world sh))) (w_uids (ws_world sh))" "\<forall>n. \<not> wk_cleanupFails deps n"
    "fst (pg_claimNextQueued (d_clock (wk_completion deps) (w_clocks (ws_world sh))) (wk_lease deps) (coalesceCapable deps)
       (w_store (ws_world sh))) = Some job"
  shows "\<exists>r sh'. processNextQueued deps sh = (Done (Some r), sh') \<and> pg_get (w_store (ws_world sh')) (runId job) = Some r
    \<and> ws_open sh' = ws_open sh \<and> set (ws_leaders sh') \<subseteq> set (ws_leaders sh)
    \<and> (status r = Waiting_for_compute \<and> attempts r = attempts job \<and> ws_engineRuns sh' = ws_engineRuns sh
         \<and> map ev_tag (pg_events (w_store (ws_world sh'))) = map ev_tag (pg_events (w_store (ws_world sh)))
       \<or> (status r = Completed \<and> resultSummary r \<noteq> None \<and> resultHash r \<noteq> None
            \<and> (if ws_engineRuns sh' = ws_engineRuns sh then dedupedFrom r \<noteq> None else dedupedFrom r = dedupedFrom job)
          \<or> (status r = Failed \<or> status r = Timed_out) \<and> terminalCode r \<noteq> None)
         \<and> attempts r \<le> attempts job + of_bool (coalesceCapable deps)
         \<and> (coalesceCapable deps \<and> ws_engineRuns sh' \<noteq> ws_engineRuns sh \<longrightarrow> attempts r = attempts job + 1)
         \<and> attempts job \<le> attempts r
         \<and> map ev_tag (pg_events (w_store (ws_world sh'))) = map ev_tag (pg_events (w_store (ws_world sh))) @ [(runId r, STATUS_TO_EVENT (status r))])"
proof -
  have "fst (op_claimNextQueued (pgOps jsonb) (d_clock (wk_completion deps) (w_clocks (ws_world sh))) (wk_lease deps) (coalesceCapable deps)
      (w_store (ws_world sh))) = Some job" using assms(6) by (simp add: pgOps_def)
  from pg.process_settles [OF assms(1,4,2,3,5) this] obtain r sh' where p: "processNextQueued deps sh = (Done (Some r), sh')"
    and rel: "ws_open sh' = ws_open sh" "set (ws_leaders sh') \<subseteq> set (ws_leaders sh)"
    and get: "op_get (pgOps jsonb) (w_store (ws_world sh')) (runId job) = Some r"
    and o: "parked_row job r \<and> ws_engineRuns sh' = ws_engineRuns sh
        \<and> map ev_tag (pg_events (w_store (ws_world sh'))) = map ev_tag (pg_events (w_store (ws_world sh)))
      \<or> (\<exists>charged. finished_row job charged (ws_engineRuns sh' \<noteq> ws_engineRuns sh) r \<and> (charged \<longrightarrow> coalesceCapable deps)
          \<and> (coalesceCapable deps \<and> ws_engineRuns sh' \<noteq> ws_engineRuns sh \<longrightarrow> charged)
          \<and> map ev_tag (pg_events (w_store (ws_world sh'))) = map ev_tag (pg_events (w_store (ws_world sh))) @ [row_tag r])"
    unfolding pg.outcome_def released_def by blast
  have g: "pg_get (w_store (ws_world sh')) (runId job) = Some r" using get by (simp add: pgOps_def)
  from o show ?thesis
  proof (elim disjE exE conjE, goal_cases)
    case 1
    thus ?thesis using p rel g unfolding parked_row_def by blast
  next
    case (2 charged)
    have b: "attempts r \<le> attempts job + of_bool (coalesceCapable deps)" "attempts job \<le> attempts r"
      "coalesceCapable deps \<and> ws_engineRuns sh' \<noteq> ws_engineRuns sh \<longrightarrow> attempts r = attempts job + 1"
      using 2(1-3) by (auto simp: finished_row_def)
    have s: "status r = Completed \<and> resultSummary r \<noteq> None \<and> resultHash r \<noteq> None
        \<and> (if ws_engineRuns sh' = ws_engineRuns sh then dedupedFrom r \<noteq> None else dedupedFrom r = dedupedFrom job)
      \<or> (status r = Failed \<or> status r = Timed_out) \<and> terminalCode r \<noteq> None"
      using 2(1) by (simp add: finished_row_def split: if_splits)
    show ?thesis using p rel g b s 2(4) unfolding row_tag_def by blast
  qed
qed

theorem run_settles_witness:
  "\<exists>r sh'. processNextQueued sampleWorker (workerStart queuedWorld [] []) = (Done (Some r), sh')
     \<and> pg_get (w_store (ws_world sh')) ''r1'' = Some r \<and> ws_open sh' = 0"
proof -
  let ?sh = "workerStart queuedWorld [] [] :: (pg_store, mem_cache, mem_locks) worker_state"
  obtain job where j: "fst (pg_claimNextQueued (d_clock (wk_completion sampleWorker) (w_clocks (ws_world ?sh))) (wk_lease sampleWorker)
      (coalesceCapable sampleWorker) (w_store (ws_world ?sh))) = Some job" "runId job = ''r1''"
  proof -
    have "map_option runId (fst (pg_claimNextQueued (d_clock (wk_completion sampleWorker) (w_clocks (ws_world ?sh))) (wk_lease sampleWorker)
      (coalesceCapable sampleWorker) (w_store (ws_world ?sh)))) = Some ''r1''" by code_simp
    thus thesis using that by auto
  qed
  have ok: "pg_ok (w_store (ws_world ?sh))" "uids_ok (wk_completion sampleWorker) (pg_events (w_store (ws_world ?sh))) (w_uids (ws_world ?sh))"
    using queued_ok by (simp_all add: pg.pub_ok_def workerStart_def)
  have "\<forall>n. \<not> wk_cleanupFails sampleWorker n" by simp
  from run_settles [OF ok(1) _ _ ok(2) this j(1), of id] show ?thesis
    using j(2) by (auto simp: inj_sampleUid workerStart_def)
qed

subsection \<open>Many workers\<close>

lemma others_reachable:
  assumes "pub_reachable cd (ws_world sh, pend) s" "\<And>i. owes (procs i) = None"
  shows "sys_reachable W cd (sh, procs, pend) (sh\<lparr>ws_world := fst s\<rparr>, procs, snd s)"
  using assms(1)
proof (induction rule: pub_reachable.induct)
  case start
  thus ?case using sys_reachable.start [of W cd "(sh, procs, pend)"] by simp
next
  case (further s s')
  have "sys_step W cd (sh\<lparr>ws_world := fst s\<rparr>, procs, snd s) (sh\<lparr>ws_world := fst s\<rparr>\<lparr>ws_world := fst s', ws_cache := ws_cache sh,
      ws_locks := ws_locks sh, ws_leaders := ws_leaders sh\<rparr>, procs, snd s')"
    by (rule sys_step.others) (use further.hyps(2) assms(2) in simp_all)
  thus ?case using sys_reachable.further [OF further.IH] by simp
qed

lemma run_reachable:
  assumes "sys_reachable W cd s0 (sh, procs, pend)" "wk_completion (W i) = cd" "runWorker (W i) (procs i) sh = (wk', sh')"
  shows "\<exists>pend'. sys_reachable W cd s0 (sh', procs(i := wk'), pend')"
  using assms(1,3)
proof (induction "workerRank (procs i)" arbitrary: procs sh pend rule: less_induct)
  case less
  show ?case
  proof (cases "workerRank (procs i) = 0")
    case True
    hence "wk' = procs i" "sh' = sh" using less.prems(2) by (auto simp: runWorker.simps)
    thus ?thesis using less.prems(1) by auto
  next
    case False
    obtain wk1 sh1 where e: "workerStep (W i) (procs i) sh = (wk1, sh1)" by (cases "workerStep (W i) (procs i) sh")
    have "sys_reachable W cd s0 (sh1, procs(i := wk1), owedAfter (W i) (procs i) wk1 sh1 pend)"
      by (rule sys_reachable.further [OF less.prems(1)]) (rule sys_step.work [where i = i and procs = procs and W = W, OF assms(2) e])
    moreover have "workerRank wk1 < workerRank (procs i)" using workerStep_rank [of "procs i" "W i" sh] e False by simp
    moreover have "runWorker (W i) wk1 sh1 = (wk', sh')" using less.prems(2) e False by (simp add: runWorker.simps [of "W i" "procs i"])
    ultimately show ?thesis using less.hyps [of "procs(i := wk1)" sh1] by simp
  qed
qed

text \<open>Claim C17. Any number of workers, stepping in any order between the steps of reapers, wake passes and HTTP handlers, and
  however their calls end, publish each completion exactly once: from an empty Postgres store every state they can
  reach is one the publication protocol can reach, every terminal run has exactly one completion event, of its final
  status, or is owed by one actor, a run that is not terminal has none, and a worker whose compare-and-set made its
  run terminal is the only worker that owes its event.\<close>
theorem workers_publish_once:
  assumes "sys_reachable W cd (workerStart (startWorld emptyPg) c0 k0, \<lambda>i. Idle, []) (sh, procs, pend)"
    "d_store cd = pgOps jsonb" "inj (d_uid cd)"
  shows "pub_reachable cd (startWorld emptyPg, []) (ws_world sh, pend)
    \<and> exactly_once (pg_get (w_store (ws_world sh))) (pg_events (w_store (ws_world sh))) pend
    \<and> (\<forall>i rid. owes (procs i) = Some rid \<longrightarrow> rid \<in> runId ` set pend \<and> (\<forall>j. owes (procs j) = Some rid \<longrightarrow> j = i))"
proof -
  let ?s0 = "(workerStart (startWorld emptyPg) c0 k0, \<lambda>i. Idle :: worker, [])"
  have "pg.sys_ok jsonb (\<lambda>_. 0) cd ?s0" using pg_start_ok by (simp add: pg.sys_ok_def pg.debts_ok_def workerStart_def)
  from pg.sys_reachable_ok [OF assms(1) this assms(2,3)]
  have ok: "pg.pub_ok jsonb (\<lambda>_. 0) cd (ws_world sh, pend)" "pg.debts_ok jsonb sh procs pend"
    and run: "pub_reachable cd (startWorld emptyPg, []) (ws_world sh, pend)"
    by (simp_all add: pg.sys_ok_def workerStart_def)
  have "exactly_once (pg_get (w_store (ws_world sh))) (pg_events (w_store (ws_world sh))) pend"
    using pg.pub_exactly_once [OF ok(1)] by (simp add: exactly_once_def)
  thus ?thesis using run ok(2) unfolding pg.debts_ok_def by blast
qed

theorem workers_publish_once_witness:
  "\<exists>pend. exactly_once (pg_get (w_store (ws_world (snd (processNextQueued sampleWorker (workerStart queuedWorld [] [])))))
     ) (pg_events (w_store (ws_world (snd (processNextQueued sampleWorker (workerStart queuedWorld [] [])))))) pend"
proof -
  let ?W = "\<lambda>i :: nat. sampleWorker" and ?cd = "sampleDeps (pgOps id)"
  let ?start = "workerStart (startWorld emptyPg) [] [] :: (pg_store, mem_cache, mem_locks) worker_state"
  let ?sh = "workerStart queuedWorld [] [] :: (pg_store, mem_cache, mem_locks) worker_state"
  obtain wk' sh' where p: "processNextQueued sampleWorker ?sh = (wk', sh')" by (cases "processNextQueued sampleWorker ?sh")
  have "sys_reachable ?W ?cd (?start, \<lambda>i. Idle, []) (?start\<lparr>ws_world := queuedWorld\<rparr>, \<lambda>i. Idle, [])"
    using others_reachable [of ?cd ?start "[]" "(queuedWorld, [])" "\<lambda>i. Idle" ?W] queued_reachable by (simp add: workerStart_def)
  hence "sys_reachable ?W ?cd (?start, \<lambda>i. Idle, []) (?sh, \<lambda>i. Idle, [])" by (simp add: workerStart_def)
  from run_reachable [OF this, where i = 0 and wk' = wk' and sh' = sh'] p obtain pend where
    "sys_reachable ?W ?cd (?start, \<lambda>i. Idle, []) (sh', (\<lambda>i. Idle)(0 := wk'), pend)" by (auto simp: processNextQueued_def)
  from workers_publish_once [OF this, of id] show ?thesis using p by (auto simp: inj_sampleUid)
qed

subsection \<open>A failing cleanup\<close>

text \<open>Note. When closing the handles of a finished run throws, the call ends before it publishes and before it unregisters
  the leader: the run is completed without a completion event, no later pass publishes it, and the heartbeat keeps
  renewing the lock identity.\<close>

definition failingCleanup :: "(pg_store, mem_cache, mem_locks) worker_deps" where
  "failingCleanup = sampleWorker\<lparr>wk_cleanupFails := (\<lambda>n. True)\<rparr>"

lemma cleanup_failure_loses_completion:
  "fst (processNextQueued failingCleanup (workerStart queuedWorld [] [])) = Threw
   \<and> map_option status (pg_get (w_store (ws_world (snd (processNextQueued failingCleanup (workerStart queuedWorld [] []))))) ''r1'') = Some Completed
   \<and> pg_events (w_store (ws_world (snd (processNextQueued failingCleanup (workerStart queuedWorld [] []))))) = []
   \<and> length (ws_leaders (snd (processNextQueued failingCleanup (workerStart queuedWorld [] [])))) = 1"
  by code_simp

end
