(* ===== verification/Service_Publication.thy ===== *)
theory Service_Publication
  imports Worker_Properties
begin

text \<open>
  Publication by the service as it is written: any number of workers stepping through \<open>processNextQueued\<close>, the reaper
  with its publications (\<open>reapAndPublish\<close>), the status and result endpoints that reap, the cancel handler with another
  actor's steps between its read and its compare-and-set, the maintenance pass that poisons and publishes, and the
  outbox pass.  The one place where a row is published by someone who did not make it terminal is a cancel that loses
  its race: it is counted in \<open>lost\<close>.
\<close>

text \<open>The cancel handler read a live row, its compare-and-set fails, and the row it reads again is terminal.\<close>

definition lostRace :: "'s completion_deps \<Rightarrow> string \<Rightarrow> job_row \<Rightarrow> 's world \<Rightarrow> bool" where
  "lostRace cd rid job w \<longleftrightarrow> \<not> isTerminal (status job)
     \<and> \<not> fst (op_transition (d_store cd) rid (status job) Canceled
           (terminalPatch (fst (clock cd w)) ''canceled'') None (w_store w))
     \<and> (\<exists>r. op_get (d_store cd) (w_store w) rid = Some r \<and> isTerminal (status r))"

record ('s, 'c, 'l) service =
  sv_sh :: "('s, 'c, 'l) worker_state"
  sv_procs :: "nat \<Rightarrow> worker"
  sv_pend :: "job_row list"
  sv_reads :: "nat \<Rightarrow> (string \<times> job_row) option"
  sv_lost :: "string \<Rightarrow> nat"

definition onWorld :: "('s world \<Rightarrow> 's world) \<Rightarrow> ('s, 'c, 'l) service \<Rightarrow> ('s, 'c, 'l) service" where
  "onWorld f s = s\<lparr>sv_sh := (sv_sh s)\<lparr>ws_world := f (ws_world (sv_sh s))\<rparr>\<rparr>"

text \<open>What the maintenance pass of a worker does: the coalescing step, then the publication of what it poisoned.\<close>

definition maintain :: "'s completion_deps \<Rightarrow> ('s, 'c, 'l) wake_deps \<Rightarrow> ms \<Rightarrow> maintenance_options \<Rightarrow> ms \<Rightarrow> ms \<Rightarrow> ms option \<Rightarrow>
    ('s, 'c, 'l) worker_state \<Rightarrow> ('s, 'c, 'l) worker_state" where
  "maintain cd wd ttl opts now now' lastSweep sh =
     (let (poisoned, lastSweep', co) = coalesceMaintenance wd ttl opts now now'
            (lastSweep, \<lparr>co_store = w_store (ws_world sh), co_cache = ws_cache sh, co_locks = ws_locks sh\<rparr>)
      in sh\<lparr>ws_world := fold (publishCompletion cd) poisoned ((ws_world sh)\<lparr>w_store := co_store co\<rparr>),
           ws_cache := co_cache co, ws_locks := co_locks co\<rparr>)"

inductive svc_step :: "(nat \<Rightarrow> ('s, 'c, 'l) worker_deps) \<Rightarrow> 's completion_deps \<Rightarrow>
    ('s, 'c, 'l) service \<Rightarrow> ('s, 'c, 'l) service \<Rightarrow> bool" for W cd where
  worker: "wk_completion (W i) = cd \<Longrightarrow> workerStep (W i) (sv_procs s i) (sv_sh s) = (wk', sh') \<Longrightarrow>
    svc_step W cd s (s\<lparr>sv_sh := sh', sv_procs := (sv_procs s)(i := wk'),
      sv_pend := owedAfter (W i) (sv_procs s i) wk' sh' (sv_pend s)\<rparr>)"
| again: "workerRank (sv_procs s i) = 0 \<Longrightarrow> svc_step W cd s (s\<lparr>sv_procs := (sv_procs s)(i := Idle)\<rparr>)"
| reaper: "svc_step W cd s (onWorld (\<lambda>w. snd (reapAndPublish cd opts w)) s)"
| run_status: "sd_completion sd = cd \<Longrightarrow> svc_step W cd s (onWorld (\<lambda>w. snd (runStatus sd rid w)) s)"
| run_result: "sd_completion sd = cd \<Longrightarrow> svc_step W cd s (onWorld (\<lambda>w. snd (runResult sd rid w)) s)"
| cancel: "sd_completion sd = cd \<Longrightarrow> svc_step W cd s (onWorld (\<lambda>w. snd (cancelRun sd rid w)) s)"
| cancel_read: "op_get (d_store cd) (w_store (ws_world (sv_sh s))) rid = Some job \<Longrightarrow>
    svc_step W cd s (s\<lparr>sv_reads := (sv_reads s)(i := Some (rid, job))\<rparr>)"
| cancel_rest: "sd_completion sd = cd \<Longrightarrow> sv_reads s i = Some (rid, job) \<Longrightarrow>
    svc_step W cd s ((onWorld (\<lambda>w. snd (cancelAfterRead sd rid job w)) s)\<lparr>sv_reads := (sv_reads s)(i := None),
      sv_lost := (if lostRace cd rid job (ws_world (sv_sh s)) then (sv_lost s)(rid := Suc (sv_lost s rid)) else sv_lost s)\<rparr>)"
| maintenance: "wd_store wd = d_store cd \<Longrightarrow>
    svc_step W cd s (s\<lparr>sv_sh := maintain cd wd ttl opts now now' lastSweep (sv_sh s)\<rparr>)"
| outbox: "svc_step W cd s (onWorld (\<lambda>w. snd (deliverOutbox cd limit w)) s)"
| finer: "pub_step cd (ws_world (sv_sh s), sv_pend s) (w', pend') \<Longrightarrow>
    (\<And>i r. owes (sv_procs s i) = Some (runId r) \<Longrightarrow> r \<in> set (sv_pend s) \<Longrightarrow> r \<in> set pend') \<Longrightarrow>
    svc_step W cd s (s\<lparr>sv_sh := (sv_sh s)\<lparr>ws_world := w', ws_cache := c, ws_locks := k, ws_leaders := ls\<rparr>, sv_pend := pend'\<rparr>)"

inductive svc_reachable :: "(nat \<Rightarrow> ('s, 'c, 'l) worker_deps) \<Rightarrow> 's completion_deps \<Rightarrow>
    ('s, 'c, 'l) service \<Rightarrow> ('s, 'c, 'l) service \<Rightarrow> bool" for W cd s0 where
  start: "svc_reachable W cd s0 s0"
| further: "svc_reachable W cd s0 s \<Longrightarrow> svc_step W cd s s' \<Longrightarrow> svc_reachable W cd s0 s'"

subsection \<open>The functions as steps of the protocol\<close>

lemma publish_run: "pub_reachable cd (w, pend @ rs) (fold (publishCompletion cd) rs w, pend)"
proof (induction rs arbitrary: w)
  case (Cons r rs)
  have "pub_step cd (w, pend @ r # rs) (publishCompletion cd r w, pend @ rs)" by (rule pub_step.publish)
  from pub_reachable_trans [OF pub_reachable_one [OF this] Cons.IH] show ?case by simp
qed (simp add: pub_reachable.start)

lemma reap_run: "pub_reachable cd (w, pend) (snd (reapAndPublish cd opts w), pend)"
proof -
  obtain reaped st where r: "op_reapDeadlines (d_store cd) (d_clock cd (w_clocks w)) opts (w_store w) = (reaped, st)" by fastforce
  let ?w = "w\<lparr>w_clocks := w_clocks w + 1\<rparr>"
  have "pub_step cd (?w, pend) (?w\<lparr>w_store := st\<rparr>, pend @ reaped)" by (rule pub_step.reap [where now = "d_clock cd (w_clocks w)" and opts = opts]) (simp add: r)
  from pub_reachable_trans [OF pub_tick pub_reachable_one [OF this]]
  have "pub_reachable cd (w, pend) (?w\<lparr>w_store := st\<rparr>, pend @ reaped)" .
  from pub_reachable_trans [OF this publish_run] show ?thesis
    by (simp add: reapAndPublish_def clock_def r)
qed

lemma poison_run:
  "pub_reachable cd (w, pend @ rows) (w\<lparr>w_store := snd (poisonLoop wd now grp (rows, w_store w))\<rparr>,
     pend @ fst (poisonLoop wd now grp (rows, w_store w)))"
  if "wd_store wd = d_store cd"
proof (induction grp arbitrary: w rows)
  case (Cons q grp)
  show ?case
  proof (cases "wd_computeWaitMaxAttempts wd \<le> computeWaitAttempts q")
    case True
    obtain res st where p: "op_poisonComputeWaiter (d_store cd) (runId q) now (w_store w) = (res, st)" by fastforce
    have step: "pub_step cd (w, pend @ rows) (w\<lparr>w_store := st\<rparr>, case res of None \<Rightarrow> pend @ rows | Some r \<Rightarrow> (pend @ rows) @ [r])"
      by (rule pub_step.poison [OF p])
    show ?thesis
    proof (cases res)
      case None
      have "pub_reachable cd (w, pend @ rows) (w\<lparr>w_store := st\<rparr>, pend @ rows)"
        using pub_reachable_one [OF step] None by simp
      from pub_reachable_trans [OF this Cons.IH [of "w\<lparr>w_store := st\<rparr>" rows]] show ?thesis
        using True p None that by simp
    next
      case (Some r)
      have "pub_reachable cd (w, pend @ rows) (w\<lparr>w_store := st\<rparr>, pend @ rows @ [r])"
        using pub_reachable_one [OF step] Some by simp
      from pub_reachable_trans [OF this Cons.IH [of "w\<lparr>w_store := st\<rparr>" "rows @ [r]"]] show ?thesis
        using True p Some that by simp
    qed
  next
    case False
    thus ?thesis using Cons.IH [of w rows] by simp
  qed
qed (simp add: pub_reachable.start)

lemma quiet_run:
  assumes "quiet_call c" "\<And>j. c \<noteq> Call_insert j" "st = exec_call (d_store cd) c (w_store w)"
  shows "pub_reachable cd (w, pend) (w\<lparr>w_store := st\<rparr>, pend)"
proof -
  have "fresh_call (d_store cd) c (w_store w)" using assms(2) by (cases c) auto
  from pub_step.quiet [OF assms(1) this, of pend] show ?thesis
    using assms(3) by (intro pub_reachable_one) (simp add: on_store_def)
qed

lemma group_run:
  assumes "wd_store wd = d_store cd" "wakeGroup wd now cache locks entry (res, w_store w) = (res', st')"
  shows "pub_reachable cd (w, pend @ wr_poisonedJobs res) (w\<lparr>w_store := st'\<rparr>, pend @ wr_poisonedJobs res')"
proof -
  obtain ci grp where e: "entry = (ci, grp)" by (cases entry)
  obtain rows st1 where p: "poisonLoop wd now grp ([], w_store w) = (rows, st1)" by fastforce
  let ?w1 = "w\<lparr>w_store := st1\<rparr>"
  have r: "pub_reachable cd (w, (pend @ wr_poisonedJobs res) @ []) (?w1, (pend @ wr_poisonedJobs res) @ rows)"
    using poison_run [OF assms(1), of w "pend @ wr_poisonedJobs res" "[]" now grp] by (simp only: p fst_conv snd_conv)
  have rel: "pub_reachable cd (?w1, q) (?w1\<lparr>w_store := snd (op_releaseAllComputeWaiters (d_store cd) ci why now st1)\<rparr>, q)" for q why
    by (rule quiet_run [of "Call_release ci why now"]) simp_all
  have el: "pub_reachable cd (?w1, q) (?w1\<lparr>w_store := snd (op_electOneComputeWaiter (d_store cd) ci why now st1)\<rparr>, q)" for q why
    by (rule quiet_run [of "Call_elect ci why now"]) simp_all
  define live where "live = [q \<leftarrow> grp. computeWaitAttempts q < wd_computeWaitMaxAttempts wd]"
  define res1 where "res1 = res\<lparr>wr_poisoned := wr_poisoned res + length rows, wr_poisonedJobs := wr_poisonedJobs res @ rows\<rparr>"
  define lock where "lock = lk_get (wd_computeLock wd) locks ci"
  obtain n st2 where rl: "op_releaseAllComputeWaiters (d_store cd) ci Cache_ready now st1 = (n, st2)" by fastforce
  obtain q st3 where ec: "op_electOneComputeWaiter (d_store cd) ci (wakeReason wd lock st1) now st1 = (q, st3)" by fastforce
  have u: "(res', st') = (if live = [] then (res1, st1)
      else if rc_lookup (wd_resultCache wd) cache ci \<noteq> None then (res1\<lparr>wr_released := wr_released res1 + n\<rparr>, st2)
      else if lockAlive now lock then (res1, st1)
      else (case q of Some _ \<Rightarrow> (res1\<lparr>wr_released := wr_released res1 + 1\<rparr>, st3) | None \<Rightarrow> (res1, st3)))"
    by (cases q) (simp_all add: assms(2) [symmetric] wakeGroup_def e p assms(1) rl ec [unfolded lock_def] live_def res1_def lock_def)
  have "st2 = snd (op_releaseAllComputeWaiters (d_store cd) ci Cache_ready now st1)"
    "st3 = snd (op_electOneComputeWaiter (d_store cd) ci (wakeReason wd lock st1) now st1)" by (simp_all add: rl ec)
  hence j: "wr_poisonedJobs res' = wr_poisonedJobs res @ rows" and
    s: "st' = st1 \<or> (\<exists>why. st' = snd (op_releaseAllComputeWaiters (d_store cd) ci why now st1))
      \<or> (\<exists>why. st' = snd (op_electOneComputeWaiter (d_store cd) ci why now st1))"
    using u by (cases q; auto simp: res1_def split: if_splits)+
  from s show ?thesis
  proof (elim disjE exE)
    assume "st' = st1"
    thus ?thesis using r j by simp
  next
    fix why assume "st' = snd (op_releaseAllComputeWaiters (d_store cd) ci why now st1)"
    thus ?thesis using pub_reachable_trans [OF r rel] j by simp
  next
    fix why assume "st' = snd (op_electOneComputeWaiter (d_store cd) ci why now st1)"
    thus ?thesis using pub_reachable_trans [OF r el] j by simp
  qed
qed

lemma groups_run:
  assumes "wd_store wd = d_store cd" "fold (wakeGroup wd now cache locks) es (res, w_store w) = (res', st')"
  shows "pub_reachable cd (w, pend @ wr_poisonedJobs res) (w\<lparr>w_store := st'\<rparr>, pend @ wr_poisonedJobs res')"
  using assms(2)
proof (induction es arbitrary: res w)
  case (Cons e es)
  obtain res1 st1 where g: "wakeGroup wd now cache locks e (res, w_store w) = (res1, st1)" by fastforce
  have "fold (wakeGroup wd now cache locks) es (res1, w_store (w\<lparr>w_store := st1\<rparr>)) = (res', st')"
    using Cons.prems g by simp
  from pub_reachable_trans [OF group_run [OF assms(1) g] Cons.IH [OF this]] show ?case by simp
next
  case Nil
  hence "res' = res" "w\<lparr>w_store := st'\<rparr> = w" by auto
  thus ?case by (simp add: pub_reachable.start)
qed

lemma maintain_run:
  assumes "wd_store wd = d_store cd"
  shows "pub_reachable cd (ws_world sh, pend) (ws_world (maintain cd wd ttl opts now now' lastSweep sh), pend)"
proof -
  let ?co = "\<lparr>co_store = w_store (ws_world sh), co_cache = ws_cache sh, co_locks = ws_locks sh\<rparr>"
  obtain res st where f: "fold (wakeGroup wd now (ws_cache sh) (ws_locks sh)) (groupByIdentity (op_listComputeWaiters (wd_store wd) (w_store (ws_world sh))))
      (\<lparr>wr_released = 0, wr_poisoned = 0, wr_poisonedJobs = []\<rparr>, w_store (ws_world sh)) = (res, st)" by fastforce
  from groups_run [OF assms f, of pend]
  have r: "pub_reachable cd (ws_world sh, pend) ((ws_world sh)\<lparr>w_store := st\<rparr>, pend @ wr_poisonedJobs res)" by simp
  have "ws_world (maintain cd wd ttl opts now now' lastSweep sh) = fold (publishCompletion cd) (wr_poisonedJobs res) ((ws_world sh)\<lparr>w_store := st\<rparr>)"
    using f by (simp add: maintain_def coalesceMaintenance_def wakeComputeWaiters_def Let_def split: prod.split)
  thus ?thesis using pub_reachable_trans [OF r publish_run] by simp
qed

subsection \<open>What every step keeps\<close>

context job_store_contract
begin

definition svc_ok :: "'s completion_deps \<Rightarrow> ('s, 'c, 'l) service \<Rightarrow> bool" where
  "svc_ok cd s \<longleftrightarrow> pub_ok (sv_lost s) cd (ws_world (sv_sh s), sv_pend s) \<and> debts_ok (sv_sh s) (sv_procs s) (sv_pend s)"

text \<open>A step that only changes the world, and by what the protocol allows.\<close>

lemma svc_ok_world:
  assumes "svc_ok cd s" "pub_ok x cd (ws_world sh', sv_pend s)"
    "rows_evolve (op_get ops (w_store (ws_world (sv_sh s)))) (op_get ops (w_store (ws_world sh')))"
    "sv_sh s' = sh'" "sv_procs s' = sv_procs s" "sv_pend s' = sv_pend s" "sv_lost s' = x"
  shows "svc_ok cd s'"
proof -
  have "debts_ok sh' (sv_procs s) (sv_pend s)"
    using assms(1) by (intro debts_kept [OF _ assms(3)]) (auto simp: svc_ok_def)
  thus ?thesis using assms by (simp add: svc_ok_def)
qed

lemma svc_ok_run:
  assumes "svc_ok cd s" "pub_reachable cd (ws_world (sv_sh s), sv_pend s) (ws_world sh', sv_pend s)"
    "d_store cd = ops" "inj (d_uid cd)"
    "sv_sh s' = sh'" "sv_procs s' = sv_procs s" "sv_pend s' = sv_pend s" "sv_lost s' = sv_lost s"
  shows "svc_ok cd s'"
proof (rule svc_ok_world [OF assms(1) _ _ assms(5-8)])
  have ok: "pub_ok (sv_lost s) cd (ws_world (sv_sh s), sv_pend s)" using assms(1) by (simp add: svc_ok_def)
  show "pub_ok (sv_lost s) cd (ws_world sh', sv_pend s)" by (rule pub_reachable_ok [OF assms(2) ok assms(3,4)])
  show "rows_evolve (op_get ops (w_store (ws_world (sv_sh s)))) (op_get ops (w_store (ws_world sh')))"
    using pub_run_rows [OF assms(2) ok assms(3,4)] by simp
qed

text \<open>An outbox pass only marks and posts.\<close>

lemma deliverLoop_pub_ok:
  assumes "d_store cd = ops"
  shows "pub_ok x cd (w, pend) \<Longrightarrow> pub_ok x cd (snd (deliverLoop cd es (n, w)), pend)
    \<and> op_get ops (w_store (snd (deliverLoop cd es (n, w)))) = op_get ops (w_store w)"
proof (induction es arbitrary: n w)
  case (Cons e es)
  have mark: "pub_ok x cd (on_store (op_markDelivered ops u ok) v, pend)
      \<and> op_get ops (w_store (on_store (op_markDelivered ops u ok) v)) = op_get ops (w_store v)"
    if "pub_ok x cd (v, pend)" for v u ok
  proof -
    have i: "inv (w_store v)" "uids_ok cd (evs (w_store v)) (w_uids v)" using that by (simp_all add: pub_ok_def)
    have "evs (op_markDelivered ops u ok (w_store v)) =
        map (\<lambda>e. if ev_eventUid e = u then markEvent ok e else e) (evs (w_store v))"
      using i(2) by (simp add: mark_evs uids_ok_def)
    hence m: "map ev_tag (evs (op_markDelivered ops u ok (w_store v))) = map ev_tag (evs (w_store v))"
      "uids_ok cd (evs (op_markDelivered ops u ok (w_store v))) (w_uids v)"
      using i(2) by (simp_all only: map_mark_fields uids_ok_mark)
    show ?thesis using that m by (simp add: pub_ok_def on_store_def mark_inv mark_rows)
  qed
  have "pub_ok x cd (w\<lparr>w_posts := w_posts w @ [(url, ev)]\<rparr>, pend)" for url ev
    using Cons.prems by (simp add: pub_ok_def)
  from mark [OF this] have del: "pub_ok x cd (deliver cd u url ev w, pend)
      \<and> op_get ops (w_store (deliver cd u url ev w)) = op_get ops (w_store w)" for u url ev
    by (simp add: deliver_def Let_def assms)
  show ?case
  proof (cases "op_get ops (w_store w) (ev_runId e)")
    case None
    thus ?thesis using Cons.IH mark [OF Cons.prems] by (simp add: assms)
  next
    case (Some job)
    thus ?thesis using Cons.IH mark [OF Cons.prems] del by (simp add: assms)
  qed
qed simp

text \<open>A publication by someone who does not owe it adds one event of the run's final status.\<close>

lemma publish_again:
  assumes "pub_ok x cd (w, pend)" "d_store cd = ops" "inj (d_uid cd)" "op_get ops (w_store w) rid = Some r" "isTerminal (status r)"
  shows "pub_ok (x(rid := Suc (x rid))) cd (publishCompletion cd r w, pend)"
proof -
  have i: "inv (w_store w)" "uids_ok cd (evs (w_store w)) (w_uids w)" using assms(1) by (simp_all add: pub_ok_def)
  have id: "runId r = rid" using row_ok [OF i(1) assms(4)] by simp
  note f = publish_facts [OF assms(2,3) i assms(5)]
  have old: "run_tags k (map ev_tag (evs (w_store w))) @ run_tags k (map row_tag pend) = owed_tags (x k) (op_get ops (w_store w) k)" for k
    using assms(1) by (simp add: pub_ok_def)
  have more: "run_tags k (map ev_tag (evs (w_store w)) @ [row_tag r]) @ run_tags k (map row_tag pend) =
      owed_tags ((x(rid := Suc (x rid))) k) (op_get ops (w_store w) k)" for k
  proof (cases "k = rid")
    case False
    have "run_tags k [row_tag r] = []" using False id by (simp add: run_tags_row)
    thus ?thesis using old [of k] False by simp
  next
    case True
    let ?E = "run_tags rid (map ev_tag (evs (w_store w)))" and ?P = "run_tags rid (map row_tag pend)"
    have e: "?E @ ?P = replicate (Suc (x rid)) (row_tag r)"
      using old [of rid] assms(4,5) by (simp only: owed_tags_def option.case if_True)
    hence "set (?E @ ?P) \<subseteq> {row_tag r}" by (auto simp: set_replicate_conv_if)
    hence E: "?E = replicate (length ?E) (row_tag r)" and P: "?P = replicate (length ?P) (row_tag r)"
      by (auto intro!: replicate_eqI)
    have n: "length ?E + length ?P = Suc (x rid)" using arg_cong [OF e, of length] by simp
    have "(?E @ [row_tag r]) @ ?P = replicate (length ?E + 1 + length ?P) (row_tag r)"
      by (subst E, subst P) (simp add: replicate_add replicate_append_same)
    also have "\<dots> = replicate (Suc (Suc (x rid))) (row_tag r)" using n by simp
    finally show ?thesis using True assms(4,5) id by (simp add: run_tags_row owed_tags_def)
  qed
  have due: "\<exists>q. op_get ops (w_store w) k = Some q \<and> isTerminal (status q)" if "0 < (x(rid := Suc (x rid))) k" for k
  proof (cases "k = rid")
    case True
    thus ?thesis using assms(4,5) by blast
  next
    case False
    hence "0 < x k" using that by simp
    thus ?thesis using assms(1) by (simp add: pub_ok_def)
  qed
  have sum: "run_tags k (map ev_tag (evs (w_store (publishCompletion cd r w))) @ map row_tag pend) =
      owed_tags ((x(rid := Suc (x rid))) k) (op_get ops (w_store (publishCompletion cd r w)) k)" for k
    unfolding f(1) f(3) run_tags_append [of k _ "map row_tag pend"] by (rule more)
  show ?thesis unfolding pub_ok_def fst_conv snd_conv
    using assms(1) f(2,4) sum due unfolding f(1) by (simp add: pub_ok_def)
qed

lemma cancel_rest_ok:
  assumes "pub_ok x cd (w, pend)" "d_store cd = ops" "inj (d_uid cd)" "sd_completion sd = cd"
  shows "pub_ok (if lostRace cd rid job w then x(rid := Suc (x rid)) else x) cd (snd (cancelAfterRead sd rid job w), pend)
    \<and> rows_evolve (op_get ops (w_store w)) (op_get ops (w_store (snd (cancelAfterRead sd rid job w))))"
proof (cases "isTerminal (status job)")
  case True
  thus ?thesis using assms(1) by (simp add: cancelAfterRead_def lostRace_def Let_def)
next
  case live: False
  let ?p = "terminalPatch (d_clock cd (w_clocks w)) ''canceled''" and ?w1 = "w\<lparr>w_clocks := w_clocks w + 1\<rparr>"
  obtain ok st where t: "op_transition ops rid (status job) Canceled ?p None (w_store w) = (ok, st)" by fastforce
  have i: "inv (w_store w)" using assms(1) by (simp add: pub_ok_def)
  have fl: "ok = cas_ok (op_get ops (w_store w) rid) (status job) Canceled None"
    using transition_flag [OF i, of rid "status job" Canceled ?p None] t by simp
  have ro: "op_get ops st = (if ok then (op_get ops (w_store w))(rid \<mapsto> applyPatch Canceled ?p (the (op_get ops (w_store w) rid)))
      else op_get ops (w_store w))"
    using transition_rows [OF i, of rid "status job" Canceled ?p None] t fl by simp
  let ?w2 = "?w1\<lparr>w_store := st\<rparr>"
  have c: "snd (cancelAfterRead sd rid job w) =
      (case op_get ops st rid of None \<Rightarrow> ?w2 | Some r \<Rightarrow> publishCompletion cd r ?w2)"
    using live t assms(2,4) by (cases "op_get ops st rid") (simp_all add: cancelAfterRead_def clock_def Let_def)
  have lr: "lostRace cd rid job w \<longleftrightarrow> \<not> ok \<and> (\<exists>r. op_get ops (w_store w) rid = Some r \<and> isTerminal (status r))"
    using live t assms(2) by (simp add: lostRace_def clock_def)
  have step: "pub_step cd (?w1, pend) (?w2, if ok then pend @ [the (op_get (d_store cd) st rid)] else pend)"
    by (rule pub_step.finish [where rid = rid and to = Canceled and p = ?p and e = None])
      (use t assms(2) in simp, simp)
  show ?thesis
  proof (cases ok)
    case True
    have r: "op_get ops st rid = Some (applyPatch Canceled ?p (the (op_get ops (w_store w) rid)))" using ro True by simp
    have "pub_reachable cd (w, pend) (?w2, pend @ [the (op_get ops st rid)])"
      using pub_reachable_trans [OF pub_tick pub_reachable_one [OF step]] True assms(2) by simp
    from pub_reachable_trans [OF this publish_run]
    have run: "pub_reachable cd (w, pend) (snd (cancelAfterRead sd rid job w), pend)" using r by (simp add: c)
    show ?thesis
      using pub_reachable_ok [OF run assms(1-3)] pub_run_rows [OF run assms(1-3)] True lr by simp
  next
    case False
    have run: "pub_reachable cd (w, pend) (?w2, pend)"
      using pub_reachable_trans [OF pub_tick pub_reachable_one [OF step]] False by simp
    have ok2: "pub_ok x cd (?w2, pend)" by (rule pub_reachable_ok [OF run assms(1-3)])
    have same: "op_get ops st = op_get ops (w_store w)" using ro False by simp
    show ?thesis
    proof (cases "op_get ops st rid")
      case None
      thus ?thesis using ok2 lr same by (simp add: c)
    next
      case (Some r)
      show ?thesis
      proof (cases "isTerminal (status r)")
        case True
        have g: "op_get ops (w_store ?w2) rid = Some r" using Some by simp
        have i2: "inv (w_store ?w2)" "uids_ok cd (evs (w_store ?w2)) (w_uids ?w2)" using ok2 by (simp_all add: pub_ok_def)
        have l: "lostRace cd rid job w" using lr False Some same True by simp
        have "op_get ops (w_store (publishCompletion cd r ?w2)) = op_get ops (w_store w)"
          using publish_facts(1) [OF assms(2,3) i2 True] same by simp
        thus ?thesis using publish_again [OF ok2 assms(2,3) g True] l Some by (simp add: c)
      next
        case nt: False
        hence "\<not> lostRace cd rid job w" using lr Some same by auto
        thus ?thesis using ok2 Some nt same by (simp add: c publish_idle)
      qed
    qed
  qed
qed

lemma cancel_uninterrupted_race:
  assumes "inv (w_store w)" "d_store cd = ops" "op_get ops (w_store w) rid = Some job"
  shows "\<not> lostRace cd rid job w"
  using assms by (auto simp: lostRace_def)

lemma svc_step_ok:
  assumes "svc_step W cd s s'" "svc_ok cd s" "d_store cd = ops" "inj (d_uid cd)"
  shows "svc_ok cd s'"
  using assms(1)
proof (cases rule: svc_step.cases)
  case (worker i wk' sh')
  have "pub_ok (sv_lost s) cd (ws_world (sv_sh s), sv_pend s)" "debts_ok (sv_sh s) (sv_procs s) (sv_pend s)"
    using assms(2) by (simp_all add: svc_ok_def)
  from work_ok [where procs = "sv_procs s" and i = i and pend = "sv_pend s", OF this assms(3,4) worker(2,3)]
  show ?thesis by (simp add: svc_ok_def worker(1))
next
  case (again i)
  thus ?thesis using assms(2) debts_update [of "sv_sh s" "sv_procs s" "sv_pend s" Idle i] by (simp add: svc_ok_def)
next
  case (reaper opts)
  show ?thesis by (rule svc_ok_run [OF assms(2) _ assms(3,4)]) (simp_all add: reaper onWorld_def reap_run)
next
  case (run_status sd rid)
  show ?thesis by (rule svc_ok_run [OF assms(2) _ assms(3,4)])
    (simp_all add: run_status onWorld_def reap_run runStatus_def Let_def)
next
  case (run_result sd rid)
  show ?thesis by (rule svc_ok_run [OF assms(2) _ assms(3,4)])
    (simp_all add: run_result onWorld_def reap_run runResult_def Let_def)
next
  case (cancel sd rid)
  let ?w = "ws_world (sv_sh s)"
  have ok: "pub_ok (sv_lost s) cd (?w, sv_pend s)" using assms(2) by (simp add: svc_ok_def)
  hence i: "inv (w_store ?w)" by (simp add: pub_ok_def)
  have "pub_ok (sv_lost s) cd (snd (cancelRun sd rid ?w), sv_pend s)
      \<and> rows_evolve (op_get ops (w_store ?w)) (op_get ops (w_store (snd (cancelRun sd rid ?w))))"
  proof (cases "op_get ops (w_store ?w) rid")
    case None
    thus ?thesis using ok cancel(2) assms(3) by (simp add: cancelRun_def)
  next
    case (Some job)
    thus ?thesis using cancel_rest_ok [OF ok assms(3,4) cancel(2), of rid job] cancel_uninterrupted_race [OF i assms(3) Some] cancel(2) assms(3)
      by (simp add: cancelRun_def)
  qed
  thus ?thesis by (intro svc_ok_world [OF assms(2), where x = "sv_lost s"]) (simp_all add: cancel(1) onWorld_def)
next
  case (cancel_read rid job i)
  thus ?thesis using assms(2) by (simp add: svc_ok_def)
next
  case (cancel_rest sd i rid job)
  have ok: "pub_ok (sv_lost s) cd (ws_world (sv_sh s), sv_pend s)" using assms(2) by (simp add: svc_ok_def)
  note c = cancel_rest_ok [OF ok assms(3,4) cancel_rest(2), of rid job]
  show ?thesis
    by (rule svc_ok_world [OF assms(2), where x = "if lostRace cd rid job (ws_world (sv_sh s)) then (sv_lost s)(rid := Suc (sv_lost s rid)) else sv_lost s"])
      (use c in \<open>simp_all add: cancel_rest(1) onWorld_def\<close>)
next
  case (maintenance wd ttl opts now now' lastSweep)
  show ?thesis by (rule svc_ok_run [OF assms(2) _ assms(3,4)]) (simp_all add: maintenance(1) maintain_run [OF maintenance(2)])
next
  case (outbox limit)
  have ok: "pub_ok (sv_lost s) cd (ws_world (sv_sh s), sv_pend s)" using assms(2) by (simp add: svc_ok_def)
  note d = deliverLoop_pub_ok [OF assms(3) ok]
  show ?thesis by (rule svc_ok_world [OF assms(2), where x = "sv_lost s"])
    (use d in \<open>simp_all add: outbox onWorld_def deliverOutbox_def\<close>)
next
  case (finer w' pend' ls k c)
  have ok: "pub_ok (sv_lost s) cd (ws_world (sv_sh s), sv_pend s)" "debts_ok (sv_sh s) (sv_procs s) (sv_pend s)"
    using assms(2) by (simp_all add: svc_ok_def)
  have "pub_ok (sv_lost s) cd (w', pend')" by (rule pub_ok_step [OF finer(2) ok(1) assms(3,4)])
  moreover have "debts_ok ((sv_sh s)\<lparr>ws_world := w', ws_cache := c, ws_locks := k, ws_leaders := ls\<rparr>) (sv_procs s) pend'"
    by (rule debts_kept [OF ok(2)]) (use pub_step_rows [OF finer(2) ok(1) assms(3,4)] finer(3) in simp_all)
  ultimately show ?thesis by (simp add: svc_ok_def finer(1))
qed

lemma svc_reachable_ok:
  assumes "svc_reachable W cd s0 s" "svc_ok cd s0" "d_store cd = ops" "inj (d_uid cd)"
  shows "svc_ok cd s"
  using assms(1) by (induction rule: svc_reachable.induct) (auto intro: assms(2) svc_step_ok [OF _ _ assms(3,4)])

end

subsection \<open>The service publishes its completions\<close>

text \<open>Every completion event of a run has the type of its final status, and there is one of them, written or owed, and one
  more for every cancel that lost its race; a run that is not terminal has none.\<close>

definition published :: "(string \<Rightarrow> job_row option) \<Rightarrow> job_event_row list \<Rightarrow> job_row list \<Rightarrow> (string \<Rightarrow> nat) \<Rightarrow> bool" where
  "published g es pend lost \<longleftrightarrow> (\<forall>rid. case g rid of
      Some r \<Rightarrow> if isTerminal (status r)
        then \<exists>n. run_tags rid (map ev_tag es) = replicate n (row_tag r) \<and> n + length [q \<leftarrow> pend. runId q = rid] = Suc (lost rid)
        else run_tags rid (map ev_tag es) = [] \<and> rid \<notin> runId ` set pend
    | None \<Rightarrow> run_tags rid (map ev_tag es) = [] \<and> rid \<notin> runId ` set pend)"

definition freshService :: "'s \<Rightarrow> 'c \<Rightarrow> 'l \<Rightarrow> ('s, 'c, 'l) service" where
  "freshService st c0 k0 = \<lparr>sv_sh = workerStart (startWorld st) c0 k0, sv_procs = (\<lambda>_. Idle), sv_pend = [],
     sv_reads = (\<lambda>_. None), sv_lost = (\<lambda>_. 0)\<rparr>"

lemma freshService_world [simp]: "ws_world (sv_sh (freshService st c0 k0)) = startWorld st"
  "sv_pend (freshService st c0 k0) = []" "sv_lost (freshService st c0 k0) = (\<lambda>_. 0)" "sv_procs (freshService st c0 k0) = (\<lambda>_. Idle)"
  by (simp_all add: freshService_def workerStart_def)

lemma freshService_ok: "pg.svc_ok jsonb cd (freshService emptyPg c0 k0)"
proof -
  have "pg.pub_ok jsonb (\<lambda>_. 0) cd (startWorld emptyPg, [])"
    unfolding startWorld_def by (rule pg.pub_ok_start) (simp, simp_all add: pg_events_def emptyPg_def pg_get_def)
  thus ?thesis by (simp add: pg.svc_ok_def pg.debts_ok_def)
qed


lemma finer_reachable:
  assumes "pub_reachable cd (ws_world (sv_sh s), []) (w, [])" "sv_pend s = []" "sv_procs s = (\<lambda>_. Idle)" "svc_reachable W cd s0 s"
  shows "svc_reachable W cd s0 (s\<lparr>sv_sh := (sv_sh s)\<lparr>ws_world := w\<rparr>\<rparr>)"
proof -
  have "svc_reachable W cd s0 (s\<lparr>sv_sh := (sv_sh s)\<lparr>ws_world := fst t\<rparr>, sv_pend := snd t\<rparr>)"
    if "pub_reachable cd (ws_world (sv_sh s), []) t" for t
    using that
  proof (induction rule: pub_reachable.induct)
    case start
    have "s\<lparr>sv_sh := (sv_sh s)\<lparr>ws_world := ws_world (sv_sh s)\<rparr>, sv_pend := []\<rparr> = s" using assms(2) by (cases s) simp
    thus ?case using assms(4) by simp
  next
    case (further t t')
    let ?u = "s\<lparr>sv_sh := (sv_sh s)\<lparr>ws_world := fst t\<rparr>, sv_pend := snd t\<rparr>"
    have "svc_step W cd ?u (?u\<lparr>sv_sh := (sv_sh ?u)\<lparr>ws_world := fst t', ws_cache := ws_cache (sv_sh s), ws_locks := ws_locks (sv_sh s),
        ws_leaders := ws_leaders (sv_sh s)\<rparr>, sv_pend := snd t'\<rparr>)"
      by (rule svc_step.finer) (use further.hyps(2) assms(3) in simp_all)
    from svc_reachable.further [OF further.IH this] show ?case by simp
  qed
  from this [OF assms(1)] show ?thesis using assms(2) by (cases s) simp
qed

text \<open>A run is submitted and claimed; then its cancel handler runs; and the same with the run completed and published by
  its worker between the handler's read and its compare-and-set.\<close>

definition raced :: "(pg_store, mem_cache, mem_locks) service" where
  "raced = (freshService emptyPg [] [])\<lparr>sv_sh := (sv_sh (freshService emptyPg [] []))\<lparr>ws_world := quietCalls (pgOps id) emptyPg\<rparr>\<rparr>"


end
