(* ===== verification/Engine_Types.thy ===== *)
theory Engine_Types
  imports Canonical_Json
begin

text \<open>
  The data of the simulation engine: \<open>engine/artifacts.ts\<close> (the run artifacts) and the accumulators of
  \<open>engine/runner.ts\<close>.  A price, size or fee is a JavaScript number that the engine carries without
  computing on it (the arithmetic belongs to the execution core).  A decision is the JSON object the strategy
  returned; a field the engine only copies (\<open>side\<close>, \<open>target\<close>) is the JSON value it read.  A trade and a
  risk verdict are produced by the execution core: the one field the engine reads is kept apart.

  An exception is a left value; \<open>then_do\<close> is the sequencing of statements that may throw.
\<close>

type_synonym decision = json

datatype engine_error =
    No_notional string
  | Bar_out_of_range nat
  | Bad_timeframe string
  | Core_threw string
  | Hook_threw string
  | Type_error string

definition then_do :: "'e + 'a \<Rightarrow> ('a \<Rightarrow> 'e + 'b) \<Rightarrow> 'e + 'b" where
  "then_do m f = (case m of Inl e \<Rightarrow> Inl e | Inr a \<Rightarrow> f a)"

lemma then_do_simps [simp]: "then_do (Inl e) f = Inl e" "then_do (Inr a) f = f a"
  by (simp_all add: then_do_def)

lemma then_do_Inr [simp]: "then_do m Inr = m"
  by (cases m) simp_all

lemma then_do_assoc: "then_do (then_do m f) g = then_do m (\<lambda>a. then_do (f a) g)"
  by (cases m) simp_all

lemma then_do_eq_Inr: "then_do m f = Inr b \<longleftrightarrow> (\<exists>a. m = Inr a \<and> f a = Inr b)"
  by (cases m) auto

lemma then_do_cong [fundef_cong]:
  "m = m' \<Longrightarrow> (\<And>a. m' = Inr a \<Longrightarrow> f a = g a) \<Longrightarrow> then_do m f = then_do m' g"
  by (cases m') auto

text \<open>A loop whose body may throw: the first exception ends it.\<close>

fun fold_do :: "('a \<Rightarrow> 's \<Rightarrow> 'e + 's) \<Rightarrow> 'a list \<Rightarrow> 's \<Rightarrow> 'e + 's" where
  "fold_do f [] s = Inr s"
| "fold_do f (x # xs) s = then_do (f x s) (fold_do f xs)"

lemma fold_do_append: "fold_do f (xs @ ys) s = then_do (fold_do f xs s) (fold_do f ys)"
  by (induction xs arbitrary: s) (auto simp: then_do_assoc intro!: then_do_cong)

lemma fold_do_cong [fundef_cong]:
  "xs = ys \<Longrightarrow> s = t \<Longrightarrow> (\<And>x u. x \<in> set ys \<Longrightarrow> f x u = g x u) \<Longrightarrow> fold_do f xs s = fold_do g ys t"
proof (induction ys arbitrary: xs s t)
  case (Cons y ys)
  thus ?case by (auto intro!: then_do_cong)
qed simp

subsection \<open>Bars, orders, fills\<close>

record bar =
  b_ts :: ms
  b_open :: jsnum
  b_high :: jsnum
  b_low :: jsnum
  b_close :: jsnum
  b_volume :: jsnum

datatype intent = I_open | I_close | I_add
datatype order_status = O_pending | O_filled | O_expired
datatype add_mode = Dca | Scale_in
datatype fill_kind = F_open | F_add | F_close | F_protection

record order =
  o_id :: string
  o_decisionBarIndex :: nat
  o_side :: json
  o_intent :: intent
  o_status :: order_status
  o_mode :: "add_mode option"
  o_closeFraction :: "jsnum option"
  o_protection :: bool

record fill =
  f_orderId :: string
  f_fillBarIndex :: nat
  f_fillTs :: ms
  f_fillPrice :: jsnum
  f_baseOpen :: jsnum
  f_slippageBps :: jsnum
  f_feePaid :: jsnum
  f_size :: jsnum
  f_kind :: "fill_kind option"

record trade =
  t_exitTs :: ms
  t_body :: json

record risk_decision =
  rd_barIndex :: nat
  rd_body :: json

record equity_entry =
  e_barIndex :: nat
  e_barTs :: ms
  e_equity :: jsnum

record funding_entry =
  fe_barIndex :: nat
  fe_ts :: ms
  fe_rate :: jsnum
  fe_covered :: bool
  fe_cost :: jsnum

subsection \<open>Decisions and their records\<close>

record mref =
  ref_id :: string
  ref_version :: string

datatype effect_kind = E_pass | E_annotate | E_patch | E_veto

record overlay_effect =
  oe_ref :: mref
  oe_effect :: effect_kind
  oe_detail :: json

datatype hook = On_bar_close | On_position_bar | On_pending_intent_bar | H_init | H_apply | H_dispose

record decision_record =
  dr_barIndex :: nat
  dr_barTs :: ms
  dr_symbol :: string
  dr_hook :: hook
  dr_base :: decision
  dr_effects :: "overlay_effect list"
  dr_final :: "decision option"
  dr_risk :: "risk_decision option"

record run_issue =
  ri_code :: string
  ri_path :: string

definition kind_of :: "decision \<Rightarrow> json" where
  "kind_of d = field d ''kind''"

definition IDLE_DECISION :: decision where
  "IDLE_DECISION = JObj [(''kind'', JStr ''idle'')]"

definition firstDecision :: "decision list \<Rightarrow> decision" where
  "firstDecision ds = (case ds of [] \<Rightarrow> IDLE_DECISION | d # _ \<Rightarrow> d)"

lemma kind_of_IDLE [simp]: "kind_of IDLE_DECISION = JStr ''idle''"
  by (simp add: kind_of_def IDLE_DECISION_def)

lemma firstDecision_simps [simp]: "firstDecision [] = IDLE_DECISION" "firstDecision (d # ds) = d"
  by (simp_all add: firstDecision_def)

subsection \<open>Accumulators\<close>

text \<open>
  \<open>orderIndex\<close> maps an id to the array slot of the order (in the source, to the same object that the array
  holds).
\<close>

record run_accumulators =
  decisionRecords :: "decision_record list"
  orders :: "order list"
  orderIndex :: "nat js_map"
  fills :: "fill list"
  riskDecisions :: "risk_decision list"
  trades :: "trade list"
  equityCurve :: "equity_entry list"
  fundingLedger :: "funding_entry list"
  validationIssues :: "run_issue list"

definition emptyAcc :: run_accumulators where
  "emptyAcc = \<lparr>decisionRecords = [], orders = [], orderIndex = [], fills = [], riskDecisions = [], trades = [],
     equityCurve = [], fundingLedger = [], validationIssues = []\<rparr>"

definition recordOrder :: "order \<Rightarrow> run_accumulators \<Rightarrow> run_accumulators" where
  "recordOrder o1 acc = acc\<lparr>orders := orders acc @ [o1], orderIndex := js_set (o_id o1) (length (orders acc)) (orderIndex acc)\<rparr>"

definition findOrder :: "run_accumulators \<Rightarrow> string \<Rightarrow> nat option" where
  "findOrder acc i = js_get (orderIndex acc) i"

definition setOrderStatus :: "order_status \<Rightarrow> nat option \<Rightarrow> run_accumulators \<Rightarrow> run_accumulators" where
  "setOrderStatus st slot acc = (case slot of None \<Rightarrow> acc
     | Some k \<Rightarrow> acc\<lparr>orders := (orders acc)[k := (orders acc ! k)\<lparr>o_status := st\<rparr>]\<rparr>)"

definition indexOrders :: "order list \<Rightarrow> run_accumulators \<Rightarrow> run_accumulators" where
  "indexOrders os acc = acc\<lparr>orderIndex :=
     fold (\<lambda>(k, o1) m. js_set (o_id o1) k m) (zip [length (orders acc) - length os..<length (orders acc)] os) (orderIndex acc)\<rparr>"

definition intent_name :: "intent \<Rightarrow> string" where
  "intent_name it = (case it of I_open \<Rightarrow> ''open'' | I_close \<Rightarrow> ''close'' | I_add \<Rightarrow> ''add'')"

definition orderId :: "string \<Rightarrow> nat \<Rightarrow> intent \<Rightarrow> string" where
  "orderId symbol t it = ''ord-'' @ symbol @ ''-'' @ showNat t @ ''-'' @ intent_name it"

definition protectionOrderId :: "string \<Rightarrow> nat \<Rightarrow> string" where
  "protectionOrderId symbol t = ''ord-'' @ symbol @ ''-'' @ showNat t @ ''-protection''"

end
