(* ===== verification/Overlay_Compose.thy ===== *)
theory Overlay_Compose
  imports Engine_Types
begin

text \<open>
  \<open>engine/overlay.ts\<close>: overlays applied to a base decision in their order.  The compiled JSON schemas are the
  parameter \<open>validateRef\<close>: the list of errors of a value against a branch, or the exception for a reference
  that does not exist.  A table is a JavaScript object literal, so that reading it at a name of
  \<open>Object.prototype\<close> finds the inherited member (\<open>table_get\<close>).  Overlays run in a session that is threaded as
  a state.
\<close>

type_synonym validator = "string \<Rightarrow> json \<Rightarrow> string + string list"

definition native :: "string \<Rightarrow> string" where
  "native f = ''function '' @ f @ ''() { [native code] }''"

definition objectPrototype :: "string js_map" where
  "objectPrototype = (''constructor'', native ''Object'') # (''__proto__'', ''[object Object]'')
     # map (\<lambda>f. (f, native f)) [''toString'', ''toLocaleString'', ''valueOf'', ''hasOwnProperty'', ''isPrototypeOf'',
         ''propertyIsEnumerable'', ''__defineGetter__'', ''__defineSetter__'', ''__lookupGetter__'', ''__lookupSetter__'']"

definition table_get :: "string js_map \<Rightarrow> string \<Rightarrow> string option" where
  "table_get tab k = (case js_get tab k of Some v \<Rightarrow> Some v | None \<Rightarrow> js_get objectPrototype k)"

definition STRATEGY_DECISION_DEFS :: "string js_map" where
  "STRATEGY_DECISION_DEFS = [(''enter'', ''EnterDecision''), (''exit'', ''ExitDecision''),
     (''add_to_position'', ''AddToPositionDecision''), (''update_protection'', ''UpdateProtectionDecision''),
     (''annotate'', ''AnnotateDecision''), (''idle'', ''IdleDecision'')]"

definition branchRef :: "string \<Rightarrow> string \<Rightarrow> string" where
  "branchRef schemaId branch = schemaId @ ''#/definitions/'' @ branch"

record resolved_overlay =
  ov_id :: string
  ov_version :: string
  ov_interceptionPoint :: json

record composition =
  cp_final :: "decision option"
  cp_effects :: "overlay_effect list"
  cp_error :: "string option"

definition withoutOverlays :: "decision \<Rightarrow> composition" where
  "withoutOverlays base = \<lparr>cp_final = Some base, cp_effects = [], cp_error = None\<rparr>"

text \<open>\<open>{ ...a, ...b }\<close> for two objects; a value that is no object contributes nothing.\<close>

definition members :: "json \<Rightarrow> (string \<times> json) list" where
  "members j = orElse (as_obj j) []"

definition spread :: "json \<Rightarrow> json \<Rightarrow> json" where
  "spread a b = JObj (fold (\<lambda>(k, v) m. js_set k v m) (members b) (fold (\<lambda>(k, v) m. js_set k v m) (members a) []))"

datatype patch_result = Patched decision | Unknown_kind | Schema_errors "string list"

definition applyOverlayPatch :: "validator \<Rightarrow> string \<Rightarrow> decision \<Rightarrow> json \<Rightarrow> engine_error + patch_result" where
  "applyOverlayPatch validateRef schemaId accumulated patch = (
     let patched = spread accumulated patch;
         branch = (case kind_of patched of JStr k \<Rightarrow> table_get STRATEGY_DECISION_DEFS k | _ \<Rightarrow> None)
     in case branch of None \<Rightarrow> Inr Unknown_kind
        | Some br \<Rightarrow> (case validateRef (branchRef schemaId br) patched of
            Inl e \<Rightarrow> Inl (Hook_threw e)
          | Inr [] \<Rightarrow> Inr (Patched patched)
          | Inr errs \<Rightarrow> Inr (Schema_errors errs)))"

definition effect :: "resolved_overlay \<Rightarrow> effect_kind \<Rightarrow> json \<Rightarrow> overlay_effect" where
  "effect ov k d = \<lparr>oe_ref = \<lparr>ref_id = ov_id ov, ref_version = ov_version ov\<rparr>, oe_effect = k, oe_detail = d\<rparr>"

fun compose_loop :: "validator \<Rightarrow> string \<Rightarrow> (resolved_overlay \<Rightarrow> 's \<Rightarrow> engine_error + json option \<times> 's) \<Rightarrow>
    resolved_overlay list \<Rightarrow> decision \<Rightarrow> overlay_effect list \<Rightarrow> 's \<Rightarrow> engine_error + composition \<times> 's" where
  "compose_loop V sid getDecision [] accumulated effs s =
     Inr (\<lparr>cp_final = Some accumulated, cp_effects = effs, cp_error = None\<rparr>, s)"
| "compose_loop V sid getDecision (ov # ovs) accumulated effs s =
     then_do (getDecision ov s) (\<lambda>(dec, s').
       case dec of None \<Rightarrow> compose_loop V sid getDecision ovs accumulated effs s'
       | Some d \<Rightarrow>
         if kind_of d = JStr ''pass'' then
           compose_loop V sid getDecision ovs accumulated (effs @ [effect ov E_pass (JObj [])]) s'
         else if kind_of d = JStr ''annotate'' then
           compose_loop V sid getDecision ovs accumulated
             (effs @ [effect ov E_annotate (JObj [(''tags'', field d ''tags''), (''notes'', field d ''notes'')])]) s'
         else if kind_of d = JStr ''patch'' then
           (let effs' = effs @ [effect ov E_patch (field d ''patch'')] in
            then_do (applyOverlayPatch V sid accumulated (field d ''patch'')) (\<lambda>r. case r of
              Unknown_kind \<Rightarrow> Inr (\<lparr>cp_final = None, cp_effects = effs', cp_error = Some ''decision_schema_invalid''\<rparr>, s')
            | Schema_errors _ \<Rightarrow> Inr (\<lparr>cp_final = None, cp_effects = effs', cp_error = Some ''overlay_composition_invalid''\<rparr>, s')
            | Patched d' \<Rightarrow> compose_loop V sid getDecision ovs d' effs' s'))
         else if kind_of d = JStr ''veto'' then
           Inr (\<lparr>cp_final = None,
                 cp_effects = effs @ [effect ov E_veto (JObj [(''reasonCode'', field d ''reasonCode'')])],
                 cp_error = None\<rparr>, s')
         else compose_loop V sid getDecision ovs accumulated effs s')"

definition compose :: "validator \<Rightarrow> string \<Rightarrow> decision \<Rightarrow> resolved_overlay list \<Rightarrow>
    (resolved_overlay \<Rightarrow> 's \<Rightarrow> engine_error + json option \<times> 's) \<Rightarrow> 's \<Rightarrow> engine_error + composition \<times> 's" where
  "compose V sid base ovs getDecision s = compose_loop V sid getDecision ovs base [] s"

lemma compose_Nil: "compose V sid base [] getDecision s = Inr (withoutOverlays base, s)"
  by (simp add: compose_def withoutOverlays_def)

end
