(* ===== verification/Bar_Engine.thy ===== *)
theory Bar_Engine
  imports Overlay_Compose
begin

text \<open>
  \<open>engine/runner.ts\<close>, the simulation of one symbol: what happens on each bar and at the end of the data.  The
  execution core (\<open>@trdlabs/engine\<close>: \<open>Portfolio\<close>, \<open>ExecutionSimulator\<close>, \<open>RiskEngine\<close>, \<open>detectProtection\<close>,
  \<open>computeBarFunding\<close>) is the parameter \<open>core\<close> over an abstract portfolio state \<open>'p\<close>; the executor of the
  strategy and of the overlays is the parameter \<open>executor\<close> over the state \<open>'m\<close> of the symbol's module (with its
  generator) and the state \<open>'o\<close> the overlays share.  The context of a bar carries the bar, the candles strictly
  before it and the portfolio snapshot.
\<close>

subsection \<open>The execution core\<close>

record open_position =
  op_side :: json
  op_size :: jsnum
  op_entryPrice :: jsnum
  op_stop :: "jsnum option"
  op_take :: "jsnum option"
  op_addCount :: "jsnum option"

record pending_order =
  pn_id :: string
  pn_symbol :: string
  pn_side :: json
  pn_intent :: intent
  pn_decisionBarIndex :: nat
  pn_notional :: "jsnum option"
  pn_stop :: "jsnum option"
  pn_take :: "jsnum option"
  pn_closeReason :: json
  pn_closeFraction :: "jsnum option"
  pn_mode :: "add_mode option"

record close_fill =
  cf_fillPrice :: jsnum
  cf_fee :: jsnum
  cf_barIndex :: nat
  cf_ts :: ms

record open_fill = close_fill +
  cf_size :: jsnum

record fill_calc =
  fc_fillPrice :: jsnum
  fc_fee :: jsnum
  fc_size :: jsnum
  fc_baseOpen :: jsnum
  fc_slippageBps :: jsnum

record risk_context =
  rc_equity :: jsnum
  rc_openPositions :: jsnum
  rc_position :: "(jsnum \<times> jsnum \<times> jsnum) option"

record risk_outcome =
  ro_reject :: bool
  ro_record :: risk_decision
  ro_notional :: "jsnum option"
  ro_stop :: "jsnum option"
  ro_take :: "jsnum option"
  ro_closeFraction :: "jsnum option"
  ro_mode :: "add_mode option"

record 'p core =
  c_new :: "'p"
  c_position :: "'p \<Rightarrow> open_position option"
  c_pending :: "'p \<Rightarrow> pending_order option"
  c_isFlat :: "'p \<Rightarrow> bool"
  c_openPositions :: "'p \<Rightarrow> jsnum"
  c_equityAt :: "'p \<Rightarrow> jsnum \<Rightarrow> jsnum"
  c_closedSizeAt :: "'p \<Rightarrow> jsnum \<Rightarrow> jsnum"
  c_placePending :: "'p \<Rightarrow> pending_order \<Rightarrow> engine_error + 'p"
  c_settleOpen :: "'p \<Rightarrow> open_fill \<Rightarrow> engine_error + 'p"
  c_settleAdd :: "'p \<Rightarrow> open_fill \<Rightarrow> engine_error + 'p"
  c_settleClose :: "'p \<Rightarrow> close_fill \<Rightarrow> json \<Rightarrow> jsnum option \<Rightarrow> engine_error + trade \<times> 'p"
  c_closePosition :: "'p \<Rightarrow> close_fill \<Rightarrow> json \<Rightarrow> engine_error + trade \<times> 'p"
  c_updateProtection :: "'p \<Rightarrow> jsnum option \<Rightarrow> jsnum option \<Rightarrow> engine_error + 'p"
  c_settleFunding :: "'p \<Rightarrow> jsnum \<Rightarrow> engine_error + 'p"
  c_expirePending :: "'p \<Rightarrow> pending_order option \<times> 'p"
  c_forcedMtmClose :: "'p \<Rightarrow> nat \<Rightarrow> ms \<Rightarrow> jsnum \<Rightarrow> trade option \<times> 'p"
  x_openFill :: "json \<Rightarrow> jsnum \<Rightarrow> jsnum \<Rightarrow> fill_calc"
  x_closeFill :: "json \<Rightarrow> jsnum \<Rightarrow> jsnum \<Rightarrow> fill_calc"
  x_protectionFill :: "json \<Rightarrow> jsnum \<Rightarrow> jsnum \<Rightarrow> fill_calc"
  x_settlesSameBar :: bool
  x_fundingEnabled :: bool
  x_fundingIntervalHours :: jsnum
  r_evaluate :: "decision \<Rightarrow> nat \<Rightarrow> risk_context \<Rightarrow> risk_outcome"
  d_protection :: "json \<Rightarrow> jsnum \<Rightarrow> jsnum option \<Rightarrow> jsnum option \<Rightarrow> bar \<Rightarrow> (json \<times> jsnum) option"
  f_barFunding :: "json \<Rightarrow> jsnum \<Rightarrow> jsnum \<Rightarrow> jsnum \<Rightarrow> bool \<Rightarrow> jsnum \<Rightarrow> jsnum \<Rightarrow> jsnum"

subsection \<open>Contexts and executors\<close>

record position_snapshot =
  ps_side :: json
  ps_size :: jsnum
  ps_entryPrice :: jsnum
  ps_stop :: "jsnum option"
  ps_take :: "jsnum option"

record per_bar_state =
  sn_position :: "position_snapshot option"
  sn_equity :: jsnum
  sn_openPositions :: jsnum

record bar_context =
  x_symbol :: string
  x_bar :: bar
  x_closed :: "bar list"
  x_state :: per_bar_state

record ('m, 'o) executor =
  h_hook :: "hook \<Rightarrow> bar_context \<Rightarrow> 'm \<Rightarrow> engine_error + decision list \<times> 'm"
  h_batch :: "(bar_context list \<Rightarrow> 'm \<Rightarrow> engine_error + (nat \<times> decision list) \<times> 'm) option"
  h_preferredBatchBars :: "'m \<Rightarrow> jsnum option"
  h_overlay :: "resolved_overlay \<Rightarrow> bar_context \<Rightarrow> 'm \<times> 'o \<Rightarrow> engine_error + json list \<times> 'm \<times> 'o"
  h_init :: "bar_context \<Rightarrow> 'm \<Rightarrow> engine_error + 'm"
  h_dispose :: "bar_context \<Rightarrow> 'm \<Rightarrow> engine_error + 'm"
  h_hasPositionHook :: bool

record funding_column =
  fu_at :: "ms \<Rightarrow> (ms \<times> jsnum) option"
  fu_covered :: "ms \<Rightarrow> bool"

record bar_env =
  en_symbol :: string
  en_candles :: "bar list"
  en_entry :: "resolved_overlay list"
  en_post :: "resolved_overlay list"
  en_funding :: "funding_column option"
  en_cadenceMinutes :: rat
  en_maxBars :: "int option"

text \<open>What the passes over the bars of a symbol change.\<close>

record ('p, 'm) sym_state =
  s_portfolio :: "'p"
  s_acc :: run_accumulators
  s_module :: "'m"

type_synonym ('p, 'm, 'o) sim = "('p, 'm) sym_state \<times> 'o"

definition riskCtxAt :: "'p core \<Rightarrow> 'p \<Rightarrow> jsnum \<Rightarrow> risk_context" where
  "riskCtxAt C p mark = \<lparr>rc_equity = c_equityAt C p mark, rc_openPositions = c_openPositions C p, rc_position = None\<rparr>"

definition stateAt :: "'p core \<Rightarrow> 'p \<Rightarrow> jsnum \<Rightarrow> per_bar_state" where
  "stateAt C p mark = \<lparr>sn_position = map_option (\<lambda>pos. \<lparr>ps_side = op_side pos, ps_size = op_size pos,
        ps_entryPrice = op_entryPrice pos, ps_stop = op_stop pos, ps_take = op_take pos\<rparr>) (c_position C p),
     sn_equity = c_equityAt C p mark, sn_openPositions = c_openPositions C p\<rparr>"

definition buildContext :: "bar_env \<Rightarrow> nat \<Rightarrow> per_bar_state \<Rightarrow> engine_error + bar_context" where
  "buildContext env t st = (if t < length (en_candles env)
     then Inr \<lparr>x_symbol = en_symbol env, x_bar = en_candles env ! t, x_closed = take t (en_candles env), x_state = st\<rparr>
     else Inl (Bar_out_of_range t))"

definition splitOverlays :: "resolved_overlay list \<Rightarrow> resolved_overlay list \<times> resolved_overlay list" where
  "splitOverlays ovs = ([ov \<leftarrow> ovs. ov_interceptionPoint ov \<noteq> JStr ''post_entry_management''],
     [ov \<leftarrow> ovs. ov_interceptionPoint ov = JStr ''post_entry_management''])"

subsection \<open>Settling and protecting\<close>

definition fillOf :: "string \<Rightarrow> nat \<Rightarrow> bar \<Rightarrow> fill_calc \<Rightarrow> jsnum \<Rightarrow> fill_kind option \<Rightarrow> fill" where
  "fillOf i t b calc sz k = \<lparr>f_orderId = i, f_fillBarIndex = t, f_fillTs = b_ts b, f_fillPrice = fc_fillPrice calc,
     f_baseOpen = fc_baseOpen calc, f_slippageBps = fc_slippageBps calc, f_feePaid = fc_fee calc, f_size = sz, f_kind = k\<rparr>"

definition pushFill :: "fill \<Rightarrow> run_accumulators \<Rightarrow> run_accumulators" where
  "pushFill f acc = acc\<lparr>fills := fills acc @ [f]\<rparr>"

definition pushTrade :: "trade \<Rightarrow> run_accumulators \<Rightarrow> run_accumulators" where
  "pushTrade tr acc = acc\<lparr>trades := trades acc @ [tr]\<rparr>"

definition pushRisk :: "risk_decision \<Rightarrow> run_accumulators \<Rightarrow> run_accumulators" where
  "pushRisk r acc = acc\<lparr>riskDecisions := riskDecisions acc @ [r]\<rparr>"

definition requireNotional :: "pending_order \<Rightarrow> engine_error + jsnum" where
  "requireNotional pn = (case pn_notional pn of None \<Rightarrow> Inl (No_notional (pn_id pn)) | Some x \<Rightarrow> Inr x)"

definition openFillAt :: "fill_calc \<Rightarrow> nat \<Rightarrow> bar \<Rightarrow> open_fill" where
  "openFillAt calc t b = \<lparr>cf_fillPrice = fc_fillPrice calc, cf_fee = fc_fee calc, cf_barIndex = t, cf_ts = b_ts b, cf_size = fc_size calc\<rparr>"

definition closeFillAt :: "fill_calc \<Rightarrow> nat \<Rightarrow> bar \<Rightarrow> close_fill" where
  "closeFillAt calc t b = \<lparr>cf_fillPrice = fc_fillPrice calc, cf_fee = fc_fee calc, cf_barIndex = t, cf_ts = b_ts b\<rparr>"

definition closeReasonOf :: "pending_order \<Rightarrow> json" where
  "closeReasonOf pn = (if pn_closeReason pn \<in> {JUndef, JNull} then JStr ''strategy_exit'' else pn_closeReason pn)"

definition settlePending :: "'p core \<Rightarrow> bar \<Rightarrow> nat \<Rightarrow> jsnum \<Rightarrow> 'p \<times> run_accumulators \<Rightarrow> engine_error + 'p \<times> run_accumulators" where
  "settlePending C b t fillBase = (\<lambda>(p, acc). (case c_pending C p of None \<Rightarrow> Inr (p, acc)
     | Some pn \<Rightarrow>
       let order = findOrder acc (pn_id pn) in
       then_do (case pn_intent pn of
           I_open \<Rightarrow> then_do (requireNotional pn) (\<lambda>notional.
             let calc = x_openFill C (pn_side pn) fillBase notional in
             then_do (c_settleOpen C p (openFillAt calc t b)) (\<lambda>p'.
               Inr (p', pushFill (fillOf (pn_id pn) t b calc (fc_size calc) None) acc)))
         | I_add \<Rightarrow> then_do (requireNotional pn) (\<lambda>notional.
             let calc = x_openFill C (pn_side pn) fillBase notional in
             then_do (c_settleAdd C p (openFillAt calc t b)) (\<lambda>p'.
               Inr (p', pushFill (fillOf (pn_id pn) t b calc (fc_size calc) (Some F_add)) acc)))
         | I_close \<Rightarrow>
             let fraction = pn_closeFraction pn;
                 closedSize = (if c_position C p = None then JFin 0 else c_closedSizeAt C p (orElse fraction (JFin 1)));
                 calc = x_closeFill C (pn_side pn) fillBase closedSize
             in then_do (c_settleClose C p (closeFillAt calc t b) (closeReasonOf pn) fraction) (\<lambda>(tr, p').
               Inr (p', pushTrade tr (pushFill (fillOf (pn_id pn) t b calc closedSize
                  (if fraction = None then None else Some F_close)) acc))))
         (\<lambda>(p', acc'). Inr (p', setOrderStatus O_filled order acc'))))"

definition runProtectionCheck :: "'p core \<Rightarrow> bar \<Rightarrow> nat \<Rightarrow> string \<Rightarrow> 'p \<times> run_accumulators \<Rightarrow> engine_error + 'p \<times> run_accumulators" where
  "runProtectionCheck C b t symbol = (\<lambda>(p, acc). (case c_position C p of None \<Rightarrow> Inr (p, acc)
     | Some pos \<Rightarrow>
       if op_stop pos = None \<and> op_take pos = None then Inr (p, acc)
       else case d_protection C (op_side pos) (op_entryPrice pos) (op_stop pos) (op_take pos) b of
         None \<Rightarrow> Inr (p, acc)
       | Some (hitKind, fillBase) \<Rightarrow>
         let calc = x_protectionFill C (op_side pos) fillBase (op_size pos);
             i = protectionOrderId symbol t;
             acc1 = recordOrder \<lparr>o_id = i, o_decisionBarIndex = t, o_side = op_side pos, o_intent = I_close,
               o_status = O_filled, o_mode = None, o_closeFraction = None, o_protection = True\<rparr> acc
         in then_do (c_closePosition C p (closeFillAt calc t b) hitKind) (\<lambda>(tr, p').
              Inr (p', pushTrade tr (pushFill (fillOf i t b calc (op_size pos) (Some F_protection)) acc1)))))"

definition onPortfolio :: "('p \<times> run_accumulators \<Rightarrow> engine_error + 'p \<times> run_accumulators) \<Rightarrow>
    ('p, 'm) sym_state \<Rightarrow> engine_error + ('p, 'm) sym_state" where
  "onPortfolio f s = then_do (f (s_portfolio s, s_acc s)) (\<lambda>(p, acc). Inr (s\<lparr>s_portfolio := p, s_acc := acc\<rparr>))"

definition preBarStages :: "'p core \<Rightarrow> bar_env \<Rightarrow> nat \<Rightarrow> ('p, 'm) sym_state \<Rightarrow> engine_error + ('p, 'm) sym_state" where
  "preBarStages C env t s = (
     let b = en_candles env ! t in
     then_do (case c_pending C (s_portfolio s) of
         Some pn \<Rightarrow> if Suc (pn_decisionBarIndex pn) = t then onPortfolio (settlePending C b t (b_open b)) s else Inr s
       | None \<Rightarrow> Inr s)
     (onPortfolio (runProtectionCheck C b t (en_symbol env))))"

subsection \<open>Composition, entries and the management of a position\<close>

definition overlayDecision :: "('m, 'o) executor \<Rightarrow> bar_context \<Rightarrow> resolved_overlay \<Rightarrow> 'm \<times> 'o \<Rightarrow>
    engine_error + json option \<times> 'm \<times> 'o" where
  "overlayDecision X ctx ov s = then_do (h_overlay X ov ctx s) (\<lambda>(ds, s').
     Inr (case ds of [] \<Rightarrow> None | d # _ \<Rightarrow> Some d, s'))"

definition composeAt :: "validator \<Rightarrow> string \<Rightarrow> ('m, 'o) executor \<Rightarrow> resolved_overlay list \<Rightarrow> decision \<Rightarrow> bar_context \<Rightarrow>
    'm \<times> 'o \<Rightarrow> engine_error + composition \<times> 'm \<times> 'o" where
  "composeAt V sid X ovs base ctx s = (if ovs = [] then Inr (withoutOverlays base, s)
     else compose V sid base ovs (overlayDecision X ctx) s)"

definition issueOf :: "string \<Rightarrow> nat \<Rightarrow> string \<Rightarrow> composition \<Rightarrow> run_accumulators \<Rightarrow> run_accumulators" where
  "issueOf symbol t hk cps acc = (case cp_error cps of None \<Rightarrow> acc
     | Some code \<Rightarrow> acc\<lparr>validationIssues := validationIssues acc @
         [\<lparr>ri_code = code, ri_path = ''/overlayComposition/'' @ symbol @ ''/'' @ showNat t @ ''/'' @ hk\<rparr>]\<rparr>)"

definition noOrder :: "string \<Rightarrow> string \<Rightarrow> json \<Rightarrow> intent \<Rightarrow> nat \<Rightarrow> pending_order" where
  "noOrder i symbol sd it t = \<lparr>pn_id = i, pn_symbol = symbol, pn_side = sd, pn_intent = it, pn_decisionBarIndex = t,
     pn_notional = None, pn_stop = None, pn_take = None, pn_closeReason = JUndef, pn_closeFraction = None, pn_mode = None\<rparr>"

definition newOrder :: "string \<Rightarrow> nat \<Rightarrow> json \<Rightarrow> intent \<Rightarrow> order" where
  "newOrder i t sd it = \<lparr>o_id = i, o_decisionBarIndex = t, o_side = sd, o_intent = it, o_status = O_pending,
     o_mode = None, o_closeFraction = None, o_protection = False\<rparr>"

definition applyEntry :: "'p core \<Rightarrow> bar_env \<Rightarrow> nat \<Rightarrow> decision option \<Rightarrow> 'p \<times> run_accumulators \<Rightarrow>
    engine_error + (risk_decision option \<times> 'p \<times> run_accumulators)" where
  "applyEntry C env t final = (\<lambda>(p, acc). (case final of None \<Rightarrow> Inr (None, p, acc)
     | Some d \<Rightarrow>
       if \<not> (c_isFlat C p \<and> c_pending C p = None) then Inr (None, p, acc)
       else let b = en_candles env ! t; outcome = r_evaluate C d t (riskCtxAt C p (b_close b));
                rec = ro_record outcome; acc1 = pushRisk rec acc in
         if kind_of d = JStr ''enter'' then
           (if ro_reject outcome then Inr (Some rec, p, acc1)
            else let i = orderId (en_symbol env) t I_open in
              then_do (c_placePending C p ((noOrder i (en_symbol env) (field d ''side'') I_open t)
                 \<lparr>pn_notional := ro_notional outcome, pn_stop := ro_stop outcome, pn_take := ro_take outcome\<rparr>)) (\<lambda>p'.
                Inr (Some rec, p', recordOrder (newOrder i t (field d ''side'') I_open) acc1)))
         else if kind_of d = JStr ''add_to_position'' \<or> kind_of d = JStr ''update_protection''
           then Inr (Some rec, p, acc1)
         else Inr (None, p, acc)))"

definition applyPositionDecision :: "'p core \<Rightarrow> bar_env \<Rightarrow> nat \<Rightarrow> decision option \<Rightarrow> 'p \<times> run_accumulators \<Rightarrow>
    engine_error + (risk_decision option \<times> 'p \<times> run_accumulators)" where
  "applyPositionDecision C env t final = (\<lambda>(p, acc). (case (final, c_position C p) of
       (Some d, Some pos) \<Rightarrow>
         if c_pending C p \<noteq> None then Inr (None, p, acc)
         else let b = en_candles env ! t; rctx = riskCtxAt C p (b_close b) in
           if kind_of d = JStr ''exit'' then
             (let outcome = r_evaluate C d t rctx; rec = ro_record outcome; acc1 = pushRisk rec acc in
              if ro_reject outcome then Inr (Some rec, p, acc1)
              else let i = orderId (en_symbol env) t I_close in
                then_do (c_placePending C p ((noOrder i (en_symbol env) (op_side pos) I_close t)
                   \<lparr>pn_closeReason := field d ''target'', pn_closeFraction := ro_closeFraction outcome\<rparr>)) (\<lambda>p'.
                  Inr (Some rec, p', recordOrder ((newOrder i t (op_side pos) I_close)
                     \<lparr>o_closeFraction := ro_closeFraction outcome\<rparr>) acc1)))
           else if kind_of d = JStr ''add_to_position'' then
             (let outcome = r_evaluate C d t (rctx\<lparr>rc_position :=
                    Some (op_size pos, op_entryPrice pos, orElse (op_addCount pos) (JFin 0))\<rparr>);
                  rec = ro_record outcome; acc1 = pushRisk rec acc in
              if ro_reject outcome then Inr (Some rec, p, acc1)
              else let i = orderId (en_symbol env) t I_add in
                then_do (c_placePending C p ((noOrder i (en_symbol env) (op_side pos) I_add t)
                   \<lparr>pn_notional := ro_notional outcome, pn_mode := ro_mode outcome\<rparr>)) (\<lambda>p'.
                  Inr (Some rec, p', recordOrder ((newOrder i t (op_side pos) I_add)\<lparr>o_mode := ro_mode outcome\<rparr>) acc1)))
           else if kind_of d = JStr ''update_protection'' then
             (let outcome = r_evaluate C d t rctx; rec = ro_record outcome; acc1 = pushRisk rec acc in
              if ro_reject outcome then Inr (Some rec, p, acc1)
              else then_do (c_updateProtection C p (ro_stop outcome) (ro_take outcome)) (\<lambda>p'. Inr (Some rec, p', acc1)))
           else Inr (None, p, acc)
     | _ \<Rightarrow> Inr (None, p, acc)))"

definition pushDecision :: "bar_env \<Rightarrow> nat \<Rightarrow> hook \<Rightarrow> decision \<Rightarrow> composition \<Rightarrow> risk_decision option \<Rightarrow> run_accumulators \<Rightarrow> run_accumulators" where
  "pushDecision env t hk base cps rd acc = acc\<lparr>decisionRecords := decisionRecords acc @
     [\<lparr>dr_barIndex = t, dr_barTs = b_ts (en_candles env ! t), dr_symbol = en_symbol env, dr_hook = hk, dr_base = base,
       dr_effects = cp_effects cps, dr_final = cp_final cps, dr_risk = rd\<rparr>]\<rparr>"


subsection \<open>Funding\<close>

text \<open>
  \<open>market-tape.ts\<close>: the funding rate that holds at a bar.  One bar of grace after the edge of the coverage,
  if the edge is not older than the cadence.
\<close>

datatype funding_state = Fs_present | Fs_stale | Fs_missing

definition FUNDING_STALE_GRACE_BARS :: nat where
  "FUNDING_STALE_GRACE_BARS = 1"

fun staleGrace :: "funding_column \<Rightarrow> ms list \<Rightarrow> ms \<Rightarrow> nat \<Rightarrow> rat option \<Rightarrow> nat list \<Rightarrow> funding_state" where
  "staleGrace col gridTs minuteTs idx cadenceMs [] = Fs_missing"
| "staleGrace col gridTs minuteTs idx cadenceMs (k # ks) = (
     if k > idx \<or> length gridTs \<le> idx - k \<or> \<not> fu_covered col (gridTs ! (idx - k))
     then staleGrace col gridTs minuteTs idx cadenceMs ks
     else case cadenceMs of
       None \<Rightarrow> Fs_stale
     | Some c \<Rightarrow> if of_int (minuteTs - gridTs ! (idx - k)) \<le> c * of_nat FUNDING_STALE_GRACE_BARS
         then Fs_stale else Fs_missing)"

definition fundingReadingAt :: "funding_column option \<Rightarrow> ms list \<Rightarrow> ms \<Rightarrow> nat \<Rightarrow> rat option \<Rightarrow> funding_state \<times> jsnum option" where
  "fundingReadingAt fundingCol gridTs minuteTs minuteIdx cadenceMs = (case fundingCol of
     None \<Rightarrow> (Fs_missing, None)
   | Some col \<Rightarrow> (case fu_at col minuteTs of
       None \<Rightarrow> (Fs_missing, None)
     | Some (_, rate) \<Rightarrow>
       if fu_covered col minuteTs then (Fs_present, Some rate)
       else case staleGrace col gridTs minuteTs minuteIdx cadenceMs [1..<Suc FUNDING_STALE_GRACE_BARS] of
         Fs_stale \<Rightarrow> (Fs_stale, Some rate)
       | _ \<Rightarrow> (Fs_missing, None)))"

definition chargeFunding :: "'p core \<Rightarrow> bar_env \<Rightarrow> nat \<Rightarrow> 'p \<times> run_accumulators \<Rightarrow> engine_error + 'p \<times> run_accumulators" where
  "chargeFunding C env t = (\<lambda>(p, acc). (case c_position C p of
       Some pos \<Rightarrow>
         if \<not> x_fundingEnabled C then Inr (p, acc)
         else let b = en_candles env ! t;
                  reading = fundingReadingAt (en_funding env) (map b_ts (en_candles env)) (b_ts b) t
                    (Some (en_cadenceMinutes env * 60000));
                  covered = (fst reading \<noteq> Fs_missing);
                  rate = (if covered then orElse (snd reading) (JFin 0) else JFin 0);
                  cost = f_barFunding C (op_side pos) (op_size pos) (b_close b) rate covered
                    (JFin (en_cadenceMinutes env)) (x_fundingIntervalHours C)
              in then_do (c_settleFunding C p cost) (\<lambda>p'. Inr (p', acc\<lparr>fundingLedger := fundingLedger acc @
                   [\<lparr>fe_barIndex = t, fe_ts = b_ts b, fe_rate = rate, fe_covered = covered, fe_cost = cost\<rparr>]\<rparr>))
     | None \<Rightarrow> Inr (p, acc)))"

subsection \<open>One bar\<close>

definition composed :: "(('p \<times> run_accumulators) \<Rightarrow> engine_error + (risk_decision option \<times> 'p \<times> run_accumulators)) \<Rightarrow>
    bar_env \<Rightarrow> nat \<Rightarrow> hook \<Rightarrow> string \<Rightarrow> decision \<Rightarrow> composition \<Rightarrow> ('p, 'm) sym_state \<Rightarrow> engine_error + ('p, 'm) sym_state" where
  "composed apply1 env t hk hkName base cps s =
     then_do (apply1 (s_portfolio s, issueOf (en_symbol env) t hkName cps (s_acc s))) (\<lambda>(rd, p, acc).
       Inr (s\<lparr>s_portfolio := p, s_acc := pushDecision env t hk base cps rd acc\<rparr>))"

definition entryStage :: "'p core \<Rightarrow> validator \<Rightarrow> string \<Rightarrow> ('m, 'o) executor \<Rightarrow> bar_env \<Rightarrow> nat \<Rightarrow> decision option \<Rightarrow> bar_context \<Rightarrow>
    ('p, 'm, 'o) sim \<Rightarrow> engine_error + ('p, 'm, 'o) sim" where
  "entryStage C V sid X env t base ctx = (\<lambda>(s, ov).
     then_do (composeAt V sid X (en_entry env) (orElse base IDLE_DECISION) ctx (s_module s, ov)) (\<lambda>(cps, m, ov').
     then_do (composed (applyEntry C env t (cp_final cps)) env t On_bar_close ''onBarClose''
        (orElse base IDLE_DECISION) cps (s\<lparr>s_module := m\<rparr>)) (\<lambda>s'. Inr (s', ov'))))"

definition positionStage :: "'p core \<Rightarrow> validator \<Rightarrow> string \<Rightarrow> ('m, 'o) executor \<Rightarrow> bar_env \<Rightarrow> nat \<Rightarrow>
    ('p, 'm, 'o) sim \<Rightarrow> engine_error + ('p, 'm, 'o) sim" where
  "positionStage C V sid X env t = (\<lambda>(s, ov).
     if c_position C (s_portfolio s) \<noteq> None \<and> (h_hasPositionHook X \<or> en_post env \<noteq> []) then
       then_do (buildContext env t (stateAt C (s_portfolio s) (b_close (en_candles env ! t)))) (\<lambda>ctxPos.
       then_do (if h_hasPositionHook X
           then then_do (h_hook X On_position_bar ctxPos (s_module s)) (\<lambda>(ds, m). Inr (firstDecision ds, m))
           else Inr (IDLE_DECISION, s_module s)) (\<lambda>(posBase, m).
       then_do (composeAt V sid X (en_post env) posBase ctxPos (m, ov)) (\<lambda>(cps, m', ov').
       then_do (composed (applyPositionDecision C env t (cp_final cps)) env t On_position_bar ''onPositionBar''
          posBase cps (s\<lparr>s_module := m'\<rparr>)) (\<lambda>s'. Inr (s', ov')))))
     else Inr (s, ov))"

definition sameBarStage :: "'p core \<Rightarrow> bar_env \<Rightarrow> nat \<Rightarrow> 'p \<times> run_accumulators \<Rightarrow> engine_error + 'p \<times> run_accumulators" where
  "sameBarStage C env t s = (case c_pending C (fst s) of
     Some pn \<Rightarrow> if x_settlesSameBar C \<and> pn_decisionBarIndex pn = t
       then settlePending C (en_candles env ! t) t (b_close (en_candles env ! t)) s else Inr s
   | None \<Rightarrow> Inr s)"

definition equityStage :: "'p core \<Rightarrow> bar_env \<Rightarrow> nat \<Rightarrow> ('p, 'm) sym_state \<Rightarrow> ('p, 'm) sym_state" where
  "equityStage C env t s = s\<lparr>s_acc := (s_acc s)\<lparr>equityCurve := equityCurve (s_acc s) @
     [\<lparr>e_barIndex = t, e_barTs = b_ts (en_candles env ! t),
       e_equity = c_equityAt C (s_portfolio s) (b_close (en_candles env ! t))\<rparr>]\<rparr>\<rparr>"

definition processBar :: "'p core \<Rightarrow> validator \<Rightarrow> string \<Rightarrow> ('m, 'o) executor \<Rightarrow> bar_env \<Rightarrow> nat \<Rightarrow> decision option \<Rightarrow> bar_context \<Rightarrow>
    ('p, 'm, 'o) sim \<Rightarrow> engine_error + ('p, 'm, 'o) sim" where
  "processBar C V sid X env t base ctx s =
     then_do (entryStage C V sid X env t base ctx s) (\<lambda>s1.
     then_do (positionStage C V sid X env t s1) (\<lambda>(s2, ov).
     then_do (onPortfolio (sameBarStage C env t) s2) (\<lambda>s3.
     then_do (onPortfolio (chargeFunding C env t) s3) (\<lambda>s4.
     Inr (equityStage C env t s4, ov)))))"

definition contextAt :: "'p core \<Rightarrow> bar_env \<Rightarrow> nat \<Rightarrow> 'p \<Rightarrow> engine_error + bar_context" where
  "contextAt C env t p = buildContext env t (stateAt C p (b_close (en_candles env ! t)))"

definition lockstepBar :: "'p core \<Rightarrow> validator \<Rightarrow> string \<Rightarrow> ('m, 'o) executor \<Rightarrow> bar_env \<Rightarrow> nat \<Rightarrow>
    ('p, 'm, 'o) sim \<Rightarrow> engine_error + ('p, 'm, 'o) sim" where
  "lockstepBar C V sid X env t = (\<lambda>(s, ov).
     then_do (contextAt C env t (s_portfolio s)) (\<lambda>ctx.
     then_do (h_hook X On_bar_close ctx (s_module s)) (\<lambda>(ds, m).
     processBar C V sid X env t (Some (firstDecision ds)) ctx (s\<lparr>s_module := m\<rparr>, ov))))"

definition preBar :: "'p core \<Rightarrow> bar_env \<Rightarrow> nat \<Rightarrow> ('p, 'm, 'o) sim \<Rightarrow> engine_error + ('p, 'm, 'o) sim" where
  "preBar C env t = (\<lambda>(s, ov). then_do (preBarStages C env t s) (\<lambda>s'. Inr (s', ov)))"

subsection \<open>The pass over a symbol\<close>

definition batchable :: "'p core \<Rightarrow> ('m, 'o) executor \<Rightarrow> bar_env \<Rightarrow> nat \<Rightarrow> ('p, 'm) sym_state \<Rightarrow> bool" where
  "batchable C X env t s = (
     (case en_maxBars env of None \<Rightarrow> False | Some k \<Rightarrow> k \<ge> 2) \<and> h_batch X \<noteq> None \<and>
     c_position C (s_portfolio s) = None \<and> c_pending C (s_portfolio s) = None \<and>
     en_entry env = [] \<and> en_post env = [] \<and> t + 1 < length (en_candles env))"

definition batchCap :: "('m, 'o) executor \<Rightarrow> bar_env \<Rightarrow> 'm \<Rightarrow> nat" where
  "batchCap X env m = (
     let mx = nat (orElse (en_maxBars env) 0) in
     case h_preferredBatchBars X m of
       Some (JFin r) \<Rightarrow> if isInteger (JFin r) \<and> r \<ge> 2 then min mx (nat \<lfloor>r\<rfloor>) else mx
     | _ \<Rightarrow> mx)"

text \<open>The contexts of the bars \<open>t..<upTo\<close> against the current portfolio.\<close>

fun buildContexts :: "'p core \<Rightarrow> bar_env \<Rightarrow> nat list \<Rightarrow> 'p \<Rightarrow> engine_error + bar_context list" where
  "buildContexts C env [] p = Inr []"
| "buildContexts C env (j # js) p = then_do (contextAt C env j p) (\<lambda>ctx.
     then_do (buildContexts C env js p) (\<lambda>ctxs. Inr (ctx # ctxs)))"

definition prefixBar :: "'p core \<Rightarrow> validator \<Rightarrow> string \<Rightarrow> ('m, 'o) executor \<Rightarrow> bar_env \<Rightarrow> nat \<Rightarrow> bar_context list \<Rightarrow> nat \<Rightarrow> nat \<Rightarrow>
    ('p, 'm, 'o) sim \<Rightarrow> engine_error + ('p, 'm, 'o) sim" where
  "prefixBar C V sid X env t ctxs stoppedAt j s =
     then_do (processBar C V sid X env (t + j) None (ctxs ! j) s) (\<lambda>s'.
       if j < stoppedAt - 1 then preBar C env (t + j + 1) s' else Inr s')"

text \<open>One round of the batch path; the result carries \<open>stoppedAt\<close>.\<close>

definition batchRound :: "'p core \<Rightarrow> validator \<Rightarrow> string \<Rightarrow> ('m, 'o) executor \<Rightarrow> bar_env \<Rightarrow> nat \<Rightarrow>
    ('p, 'm, 'o) sim \<Rightarrow> engine_error + nat \<times> ('p, 'm, 'o) sim" where
  "batchRound C V sid X env t = (\<lambda>(s, ov).
     let upTo = min (length (en_candles env)) (t + batchCap X env (s_module s)) in
     then_do (buildContexts C env [t..<upTo] (s_portfolio s)) (\<lambda>ctxs.
     then_do (the (h_batch X) ctxs (s_module s)) (\<lambda>((stoppedAt, ds), m).
     if length (en_candles env) \<le> t + stoppedAt then Inl (Type_error ''bar.ts'')
     else
       then_do (fold_do (prefixBar C V sid X env t ctxs stoppedAt) [0..<stoppedAt] (s\<lparr>s_module := m\<rparr>, ov)) (\<lambda>s1.
       then_do (if stoppedAt > 0 then preBar C env (t + stoppedAt) s1 else Inr s1) (\<lambda>s2.
       then_do (processBar C V sid X env (t + stoppedAt) (Some (firstDecision ds)) (ctxs ! stoppedAt) s2) (\<lambda>s3.
       Inr (stoppedAt, s3)))))))"

function symbolLoop :: "'p core \<Rightarrow> validator \<Rightarrow> string \<Rightarrow> ('m, 'o) executor \<Rightarrow> bar_env \<Rightarrow> nat \<Rightarrow>
    ('p, 'm, 'o) sim \<Rightarrow> engine_error + ('p, 'm, 'o) sim" where
  "symbolLoop C V sid X env t s = (
     if t < length (en_candles env) then
       then_do (preBar C env t s) (\<lambda>s1.
         if batchable C X env t (fst s1) then
           (case batchRound C V sid X env t s1 of
              Inl e \<Rightarrow> Inl e
            | Inr (stoppedAt, s2) \<Rightarrow> symbolLoop C V sid X env (t + stoppedAt + 1) s2)
         else then_do (lockstepBar C V sid X env t s1) (symbolLoop C V sid X env (t + 1)))
     else Inr s)"
  by pat_completeness auto
termination
  by (relation "measure (\<lambda>(C, V, sid, X, env, t, s). length (en_candles env) - t)") auto

declare symbolLoop.simps [simp del]

definition finalizeSymbol :: "'p core \<Rightarrow> ('m, 'o) executor \<Rightarrow> bar_env \<Rightarrow> ('p, 'm) sym_state \<Rightarrow> engine_error + ('p, 'm) sym_state" where
  "finalizeSymbol C X env s = (
     let n = length (en_candles env);
         (expired, p1) = c_expirePending C (s_portfolio s);
         acc1 = (case expired of None \<Rightarrow> s_acc s | Some pn \<Rightarrow> setOrderStatus O_expired (findOrder (s_acc s) (pn_id pn)) (s_acc s));
         b = en_candles env ! (n - 1);
         (forced, p2) = c_forcedMtmClose C p1 (n - 1) (b_ts b) (b_close b);
         acc2 = (case forced of None \<Rightarrow> acc1 | Some tr \<Rightarrow> pushTrade tr acc1)
     in then_do (buildContext env (n - 1) (stateAt C p2 (b_close b))) (\<lambda>ctx.
        then_do (h_dispose X ctx (s_module s)) (\<lambda>m. Inr (s\<lparr>s_portfolio := p2, s_acc := acc2, s_module := m\<rparr>))))"

definition initSymbol :: "'p core \<Rightarrow> ('m, 'o) executor \<Rightarrow> bar_env \<Rightarrow> ('p, 'm) sym_state \<Rightarrow> engine_error + ('p, 'm) sym_state" where
  "initSymbol C X env s =
     then_do (contextAt C env 0 (s_portfolio s)) (\<lambda>ctx.
     then_do (h_init X ctx (s_module s)) (\<lambda>m. Inr (s\<lparr>s_module := m\<rparr>)))"

definition runSymbol :: "'p core \<Rightarrow> validator \<Rightarrow> string \<Rightarrow> ('m, 'o) executor \<Rightarrow> bar_env \<Rightarrow>
    ('p, 'm, 'o) sim \<Rightarrow> engine_error + ('p, 'm, 'o) sim" where
  "runSymbol C V sid X env = (\<lambda>(s, ov).
     if en_candles env = [] then Inr (s, ov)
     else then_do (initSymbol C X env s) (\<lambda>s1.
          then_do (symbolLoop C V sid X env 0 (s1, ov)) (\<lambda>(s2, ov').
          then_do (finalizeSymbol C X env s2) (\<lambda>s3. Inr (s3, ov')))))"

end
