(* ===== verification/Bar_Batching.thy ===== *)
theory Bar_Batching
  imports Bar_Engine
begin

text \<open>
  The batch path of \<open>runSymbol\<close> against the lockstep path.  The contract of \<open>executeStrategyHookBatch\<close>
  (\<open>module-executor.ts\<close>) is the locale \<open>batch_executor\<close>: the answer of a batch is what the calls of the hook, one bar
  after the other, would have answered up to the bar it stopped at, all bars before it being idle.  Under it, batching
  is invisible.
\<close>

subsection \<open>Calling the hook bar by bar\<close>

fun hookRun :: "(bar_context \<Rightarrow> 'm \<Rightarrow> engine_error + decision list \<times> 'm) \<Rightarrow> bar_context list \<Rightarrow> 'm \<Rightarrow> engine_error + decision list \<times> 'm" where
  "hookRun hk [] m = Inr ([], m)"
| "hookRun hk (c # cs) m = then_do (hk c m) (\<lambda>(ds, m1).
     then_do (hookRun hk cs m1) (\<lambda>(firsts, m2). Inr (firstDecision ds # firsts, m2)))"

locale batch_executor =
  fixes X :: "('m, 'o) executor" and fb :: "bar_context list \<Rightarrow> 'm \<Rightarrow> engine_error + (nat \<times> decision list) \<times> 'm"
  assumes batch_is: "h_batch X = Some fb"
    and batch_answers: "cs \<noteq> [] \<Longrightarrow> fb cs m = Inr ((k, ds), m') \<Longrightarrow>
      k < length cs \<and> hookRun (h_hook X On_bar_close) (take (Suc k) cs) m = Inr (replicate k IDLE_DECISION @ [firstDecision ds], m')"
    and batch_throws: "cs \<noteq> [] \<Longrightarrow> fb cs m = Inl e \<Longrightarrow>
      \<exists>k m1. k < length cs \<and> hookRun (h_hook X On_bar_close) (take k cs) m = Inr (replicate k IDLE_DECISION, m1) \<and>
        h_hook X On_bar_close (cs ! k) m1 = Inl e"

subsection \<open>Idle bars of a flat portfolio\<close>

definition flat :: "'p core \<Rightarrow> ('p, 'm) sym_state \<Rightarrow> bool" where
  "flat C s = (c_position C (s_portfolio s) = None \<and> c_pending C (s_portfolio s) = None)"

definition idleBar :: "'p core \<Rightarrow> bar_env \<Rightarrow> nat \<Rightarrow> ('p, 'm) sym_state \<Rightarrow> ('p, 'm) sym_state" where
  "idleBar C env t s = equityStage C env t (s\<lparr>s_acc :=
     pushDecision env t On_bar_close IDLE_DECISION (withoutOverlays IDLE_DECISION) None (s_acc s)\<rparr>)"

lemma idleBar_keeps [simp]:
  "s_portfolio (idleBar C env t s) = s_portfolio s" "s_module (idleBar C env t s) = s_module s"
  "flat C (idleBar C env t s) = flat C s"
  by (simp_all add: idleBar_def equityStage_def flat_def)

lemma idleBar_module: "idleBar C env t (s\<lparr>s_module := m\<rparr>) = (idleBar C env t s)\<lparr>s_module := m\<rparr>"
  by (simp add: idleBar_def equityStage_def pushDecision_def)

lemma module_id [simp]: "s\<lparr>s_module := s_module s\<rparr> = s"
  by (cases s) simp

lemma flat_module [simp]: "flat C (s\<lparr>s_module := m\<rparr>) = flat C s"
  by (simp add: flat_def)

lemma processBar_idle:
  assumes "flat C s" and "en_entry env = []"
  shows "processBar C V sid X env t (Some IDLE_DECISION) ctx (s, ov) = Inr (idleBar C env t s, ov)"
    and "processBar C V sid X env t None ctx (s, ov) = Inr (idleBar C env t s, ov)"
  using assms
  by (auto simp: processBar_def entryStage_def composeAt_def composed_def withoutOverlays_def issueOf_def applyEntry_def
        positionStage_def onPortfolio_def sameBarStage_def chargeFunding_def idleBar_def flat_def)

lemma preBar_flat: "flat C (fst s) \<Longrightarrow> preBar C env t s = Inr s"
  by (cases s) (auto simp: preBar_def preBarStages_def onPortfolio_def runProtectionCheck_def flat_def Let_def)

text \<open>A stretch of idle bars.\<close>

definition idleBars :: "'p core \<Rightarrow> bar_env \<Rightarrow> nat \<Rightarrow> nat \<Rightarrow> ('p, 'm) sym_state \<Rightarrow> ('p, 'm) sym_state" where
  "idleBars C env t k s = fold (\<lambda>j. idleBar C env (t + j)) [0..<k] s"

lemma idleBars_keeps [simp]:
  "s_portfolio (idleBars C env t k s) = s_portfolio s" "flat C (idleBars C env t k s) = flat C s"
  by (induction k) (simp_all add: idleBars_def)

lemma idleBars_module: "idleBars C env t k (s\<lparr>s_module := m\<rparr>) = (idleBars C env t k s)\<lparr>s_module := m\<rparr>"
  by (induction k) (simp_all add: idleBars_def idleBar_module)

lemma idleBars_Suc: "idleBars C env t (Suc k) s = idleBars C env (Suc t) k (idleBar C env t s)"
  by (induction k) (simp_all add: idleBars_def)

lemma prefix_is_idle:
  assumes "flat C s" and "en_entry env = []"
  shows "fold_do (prefixBar C V sid X env t ctxs n) [0..<k] (s, ov) = Inr (idleBars C env t k s, ov)"
proof (induction k)
  case (Suc k)
  have "prefixBar C V sid X env t ctxs n k (idleBars C env t k s, ov) = Inr (idleBar C env (t + k) (idleBars C env t k s), ov)"
    using assms by (auto simp: prefixBar_def processBar_idle preBar_flat)
  thus ?case using Suc by (simp add: fold_do_append idleBars_def)
qed (simp add: idleBars_def)

subsection \<open>Contexts\<close>

lemma contextAt_ok: "t < length (en_candles env) \<Longrightarrow> \<exists>ctx. contextAt C env t p = Inr ctx"
  by (simp add: contextAt_def buildContext_def)

definition ctxAt :: "'p core \<Rightarrow> bar_env \<Rightarrow> 'p \<Rightarrow> nat \<Rightarrow> bar_context" where
  "ctxAt C env p t = projr (contextAt C env t p)"

lemma contextAt_ctxAt: "t < length (en_candles env) \<Longrightarrow> contextAt C env t p = Inr (ctxAt C env p t)"
  using contextAt_ok [of t env C p] by (auto simp: ctxAt_def)

lemma buildContexts_map:
  "\<forall>j \<in> set js. j < length (en_candles env) \<Longrightarrow> buildContexts C env js p = Inr (map (ctxAt C env p) js)"
  by (induction js) (simp_all add: contextAt_ctxAt)

subsection \<open>Lockstep over an idle stretch\<close>

abbreviation lockstep :: "bar_env \<Rightarrow> bar_env" where
  "lockstep env \<equiv> env\<lparr>en_maxBars := None\<rparr>"

lemma lockstep_fields:
  "en_symbol (lockstep env) = en_symbol env" "en_candles (lockstep env) = en_candles env"
  "en_entry (lockstep env) = en_entry env" "en_post (lockstep env) = en_post env"
  "en_funding (lockstep env) = en_funding env" "en_cadenceMinutes (lockstep env) = en_cadenceMinutes env"
  by simp_all

lemma lockstep_stages [simp]:
  "buildContext (lockstep env) t = buildContext env t"
  "pushDecision (lockstep env) t = pushDecision env t"
  "applyEntry C (lockstep env) t = applyEntry C env t"
  "applyPositionDecision C (lockstep env) t = applyPositionDecision C env t"
  "sameBarStage C (lockstep env) t = sameBarStage C env t"
  "chargeFunding C (lockstep env) t = chargeFunding C env t"
  "equityStage C (lockstep env) t = equityStage C env t"
  "preBarStages C (lockstep env) t = preBarStages C env t"
  by (intro ext; unfold buildContext_def pushDecision_def applyEntry_def applyPositionDecision_def
        sameBarStage_def chargeFunding_def equityStage_def preBarStages_def lockstep_fields; rule refl)+

lemma lockstep_same [simp]:
  "preBar C (lockstep env) t = preBar C env t" "lockstepBar C V sid X (lockstep env) t = lockstepBar C V sid X env t"
  unfolding preBar_def lockstepBar_def processBar_def entryStage_def positionStage_def composed_def contextAt_def
    lockstep_stages lockstep_fields by (rule refl)+

lemma lockstep_not_batchable [simp]: "\<not> batchable C X (lockstep env) t s"
  by (simp add: batchable_def)

lemma lockstep_loop: "symbolLoop C V sid X (lockstep env) t s = (
    if t < length (en_candles env)
    then then_do (preBar C env t s) (\<lambda>s1. then_do (lockstepBar C V sid X env t s1) (symbolLoop C V sid X (lockstep env) (Suc t)))
    else Inr s)"
  by (subst symbolLoop.simps) simp

text \<open>While the hook answers idle, lockstep makes idle bars.\<close>

lemma lockstep_idle:
  assumes "flat C s" and "en_entry env = []" and "t + k < length (en_candles env)"
    and "hookRun (h_hook X On_bar_close) (map (ctxAt C env (s_portfolio s)) [t..<t + k]) (s_module s) = Inr (replicate k IDLE_DECISION, m)"
  shows "symbolLoop C V sid X (lockstep env) t (s, ov) =
     symbolLoop C V sid X (lockstep env) (t + k) ((idleBars C env t k s)\<lparr>s_module := m\<rparr>, ov)"
  using assms
proof (induction k arbitrary: t s)
  case 0
  hence "s\<lparr>s_module := m\<rparr> = s" by auto
  thus ?case by (simp add: idleBars_def)
next
  case (Suc k)
  let ?c = "ctxAt C env (s_portfolio s) t"
  have up: "[t..<t + Suc k] = t # [Suc t..<Suc t + k]" by (simp add: upt_conv_Cons del: upt_Suc)
  obtain ds m1 firsts where h: "h_hook X On_bar_close ?c (s_module s) = Inr (ds, m1)"
    and rest: "hookRun (h_hook X On_bar_close) (map (ctxAt C env (s_portfolio s)) [Suc t..<Suc t + k]) m1 = Inr (firsts, m)"
    and f: "firstDecision ds # firsts = replicate (Suc k) IDLE_DECISION"
    using Suc.prems(4) unfolding up by (auto simp: then_do_eq_Inr simp del: upt_Suc)
  hence d: "firstDecision ds = IDLE_DECISION" and fr: "firsts = replicate k IDLE_DECISION" by auto
  let ?s1 = "idleBar C env t (s\<lparr>s_module := m1\<rparr>)"
  have "lockstepBar C V sid X env t (s, ov) = Inr (?s1, ov)"
    using Suc.prems h d by (simp add: lockstepBar_def contextAt_ctxAt processBar_idle)
  hence "symbolLoop C V sid X (lockstep env) t (s, ov) = symbolLoop C V sid X (lockstep env) (Suc t) (?s1, ov)"
    using Suc.prems by (subst lockstep_loop) (simp add: preBar_flat)
  also have "\<dots> = symbolLoop C V sid X (lockstep env) (Suc t + k) ((idleBars C env (Suc t) k ?s1)\<lparr>s_module := m\<rparr>, ov)"
    using Suc.prems rest fr by (intro Suc.IH) simp_all
  finally show ?case by (simp add: idleBars_Suc idleBar_module idleBars_module)
qed

lemma lockstep_throws:
  assumes "flat C s" and "t < length (en_candles env)"
    and "h_hook X On_bar_close (ctxAt C env (s_portfolio s) t) (s_module s) = Inl e"
  shows "symbolLoop C V sid X (lockstep env) t (s, ov) = Inl e"
  using assms by (subst lockstep_loop) (simp add: preBar_flat lockstepBar_def contextAt_ctxAt)

lemma lockstep_answers:
  assumes "flat C s" and "t < length (en_candles env)"
    and "h_hook X On_bar_close (ctxAt C env (s_portfolio s) t) (s_module s) = Inr (ds, m)"
  shows "symbolLoop C V sid X (lockstep env) t (s, ov) =
    then_do (processBar C V sid X env t (Some (firstDecision ds)) (ctxAt C env (s_portfolio s) t) (s\<lparr>s_module := m\<rparr>, ov))
      (symbolLoop C V sid X (lockstep env) (Suc t))"
  using assms by (subst lockstep_loop) (simp add: preBar_flat lockstepBar_def contextAt_ctxAt)

lemma hookRun_append: "hookRun hk (cs @ cs') m = then_do (hookRun hk cs m) (\<lambda>(f1, m1).
    then_do (hookRun hk cs' m1) (\<lambda>(f2, m2). Inr (f1 @ f2, m2)))"
proof (induction cs arbitrary: m)
  case (Cons c cs)
  thus ?case by (auto simp: then_do_def case_prod_unfold split: sum.splits)
qed (auto simp: then_do_def split: sum.splits)

subsection \<open>Batching is invisible\<close>

context batch_executor
begin

lemma batch_round:
  assumes "batchable C X env t s"
  shows "(case batchRound C V sid X env t (s, ov) of Inl e \<Rightarrow> Inl e
       | Inr (k, s2) \<Rightarrow> symbolLoop C V sid X (lockstep env) (t + k + 1) s2) =
     symbolLoop C V sid X (lockstep env) t (s, ov)"
proof -
  let ?n = "length (en_candles env)" and ?p = "s_portfolio s" and ?hk = "h_hook X On_bar_close"
  define upTo where "upTo = min ?n (t + batchCap X env (s_module s))"
  define cs where "cs = map (ctxAt C env ?p) [t..<upTo]"
  have fl: "flat C s" and en: "en_entry env = []" and t: "t + 1 < ?n"
    using assms by (simp_all add: batchable_def flat_def)
  have "batchCap X env (s_module s) \<ge> 2"
    using assms by (auto simp: batchable_def batchCap_def Let_def le_floor_iff le_nat_iff split: option.splits jsnum.splits)
  hence up: "t < upTo" "upTo \<le> ?n" using t by (auto simp: upTo_def)
  have bc: "buildContexts C env [t..<upTo] ?p = Inr cs"
    unfolding cs_def by (rule buildContexts_map) (use up in auto)
  have cs: "cs \<noteq> []" "length cs = upTo - t" "\<And>j. j < upTo - t \<Longrightarrow> cs ! j = ctxAt C env ?p (t + j)"
    "\<And>k. k \<le> upTo - t \<Longrightarrow> take k cs = map (ctxAt C env ?p) [t..<t + k]"
    using up by (simp_all add: cs_def take_map)
  show ?thesis
  proof (cases "fb cs (s_module s)")
    case (Inl e)
    then obtain k m1 where k: "k < upTo - t" "hookRun ?hk (take k cs) (s_module s) = Inr (replicate k IDLE_DECISION, m1)"
        "?hk (cs ! k) m1 = Inl e"
      using batch_throws [OF cs(1)] cs(2) by metis
    have "symbolLoop C V sid X (lockstep env) t (s, ov) =
        symbolLoop C V sid X (lockstep env) (t + k) ((idleBars C env t k s)\<lparr>s_module := m1\<rparr>, ov)"
      by (rule lockstep_idle) (use k cs(4) fl en up in auto)
    also have "\<dots> = Inl e" by (rule lockstep_throws) (use k cs(3) fl up in auto)
    finally show ?thesis using Inl bc batch_is by (simp add: batchRound_def upTo_def [symmetric] Let_def)
  next
    case (Inr r)
    obtain k ds m where r: "r = ((k, ds), m)" by (cases r) auto
    hence k: "k < upTo - t" and run: "hookRun ?hk (take (Suc k) cs) (s_module s) = Inr (replicate k IDLE_DECISION @ [firstDecision ds], m)"
      using batch_answers [OF cs(1), of "s_module s" k ds m] Inr cs(2) by auto
    have "take (Suc k) cs = take k cs @ [cs ! k]" using k cs(2) by (simp add: take_Suc_conv_app_nth)
    then obtain m1 ds1 where run1: "hookRun ?hk (take k cs) (s_module s) = Inr (replicate k IDLE_DECISION, m1)"
      and last1: "?hk (cs ! k) m1 = Inr (ds1, m)" and ds1: "firstDecision ds1 = firstDecision ds"
      using run by (auto simp: hookRun_append then_do_eq_Inr)
    let ?s1 = "(idleBars C env t k s)\<lparr>s_module := m1\<rparr>"
    have "symbolLoop C V sid X (lockstep env) t (s, ov) = symbolLoop C V sid X (lockstep env) (t + k) (?s1, ov)"
      by (rule lockstep_idle) (use run1 k cs(4) fl en up in auto)
    also have "\<dots> = then_do (processBar C V sid X env (t + k) (Some (firstDecision ds1)) (cs ! k) (?s1\<lparr>s_module := m\<rparr>, ov))
        (symbolLoop C V sid X (lockstep env) (Suc (t + k)))"
      using lockstep_answers [of C ?s1 "t + k" env X ds1 m V sid ov] last1 k cs(3) fl up by auto
    finally have lk: "symbolLoop C V sid X (lockstep env) t (s, ov) =
        then_do (processBar C V sid X env (t + k) (Some (firstDecision ds)) (cs ! k) ((idleBars C env t k s)\<lparr>s_module := m\<rparr>, ov))
          (symbolLoop C V sid X (lockstep env) (Suc (t + k)))" using ds1 by simp
    have "\<not> ?n \<le> t + k" using k up by simp
    hence "batchRound C V sid X env t (s, ov) =
        then_do (processBar C V sid X env (t + k) (Some (firstDecision ds)) (cs ! k) ((idleBars C env t k s)\<lparr>s_module := m\<rparr>, ov))
          (\<lambda>s3. Inr (k, s3))"
      using Inr r bc batch_is k up fl en
      by (simp add: batchRound_def upTo_def [symmetric] Let_def prefix_is_idle preBar_flat idleBars_module)
    thus ?thesis unfolding lk by (simp add: then_do_def split: sum.splits)
  qed
qed

lemma batching_invisible: "symbolLoop C V sid X env t s = symbolLoop C V sid X (lockstep env) t s"
proof (induction "length (en_candles env) - t" arbitrary: t s rule: less_induct)
  case less
  show ?case
  proof (cases "t < length (en_candles env)")
    case True
    have IH: "symbolLoop C V sid X env t' s' = symbolLoop C V sid X (lockstep env) t' s'" if "t < t'" for t' s'
    proof (cases "t' < length (en_candles env)")
      case False thus ?thesis by (simp add: symbolLoop.simps)
    qed (use that True less in auto)
    show ?thesis
    proof (cases "preBar C env t s")
      case (Inr s1)
      show ?thesis
      proof (cases "batchable C X env t (fst s1)")
        case b: True
        have "flat C (fst s1)" using b by (simp add: batchable_def flat_def)
        hence "symbolLoop C V sid X (lockstep env) t s1 = symbolLoop C V sid X (lockstep env) t s"
          using Inr True by (subst (1 2) lockstep_loop) (simp add: preBar_flat)
        moreover have "symbolLoop C V sid X env t s = (case batchRound C V sid X env t s1 of Inl e \<Rightarrow> Inl e
            | Inr (k, s2) \<Rightarrow> symbolLoop C V sid X (lockstep env) (t + k + 1) s2)"
          using True Inr b IH by (subst symbolLoop.simps) (auto split: sum.splits)
        ultimately show ?thesis using batch_round [OF b, of V sid "snd s1"] by simp
      next
        case False
        hence "symbolLoop C V sid X env t s = then_do (lockstepBar C V sid X env t s1) (symbolLoop C V sid X env (t + 1))"
          using True Inr by (subst symbolLoop.simps) simp
        also have "\<dots> = then_do (lockstepBar C V sid X env t s1) (symbolLoop C V sid X (lockstep env) (Suc t))"
          using IH by (auto intro!: then_do_cong)
        finally show ?thesis using True Inr lockstep_loop [of C V sid X env t s] by simp
      qed
    qed (use True in \<open>subst (1 2) symbolLoop.simps, simp\<close>)
  qed (simp add: symbolLoop.simps)
qed

end

end
