(* ===== verification/Sandbox_Session.thy ===== *)
theory Sandbox_Session
  imports Bar_Batching
begin

text \<open>
  The sandboxed executor of a strategy, on both sides of its channel: the harness that runs in the container
  (\<open>sandbox-harness-overlay/\<close>) and the session and executor of the host (\<open>engine/sandbox/sandbox-session.ts\<close>,
  \<open>sandbox-executor.ts\<close>, \<open>decision-revalidator.ts\<close>), with one container per symbol.  The strategy's code in the
  container is the parameter \<open>harness\<close>: how its bundle loads, which hooks it has, and what a hook returns (a JSON value,
  or the code of the exception it threw) in the state \<open>'i\<close> of its instance and generator.  The channel is taken to
  deliver one answer per request: a container that dies, hangs or sends too much is not modelled.
\<close>

subsection \<open>The harness\<close>

record session_error =
  se_code :: string
  se_hook :: "hook option"
  se_barIndex :: "nat option"

record 'i harness =
  hn_load :: "session_error + 'i"
  hn_pick :: "hook \<Rightarrow> 'i \<Rightarrow> bool"
  hn_call :: "hook \<Rightarrow> bar_context \<Rightarrow> 'i \<Rightarrow> (string + json) \<times> 'i"

record snapshot =
  sp_symbol :: string
  sp_barIndex :: nat
  sp_bar :: bar
  sp_state :: per_bar_state

record hook_entry =
  he_snapshot :: snapshot
  he_newBar :: "bar option"

record 'i slot =
  sl_buffer :: "bar list"
  sl_instance :: 'i

definition normalizeOut :: "json \<Rightarrow> json list" where
  "normalizeOut out = (case out of JNull \<Rightarrow> [] | JUndef \<Rightarrow> [] | JArr ds \<Rightarrow> ds | _ \<Rightarrow> [out])"

definition rehydrateContext :: "snapshot \<Rightarrow> bar list \<Rightarrow> bar_context" where
  "rehydrateContext sp buffer = \<lparr>x_symbol = sp_symbol sp, x_bar = sp_bar sp, x_closed = take (length buffer - 1) buffer,
     x_state = sp_state sp\<rparr>"

text \<open>One entry: its candle is pushed before the hook is called.\<close>

definition harnessBar :: "'i harness \<Rightarrow> hook \<Rightarrow> hook_entry \<Rightarrow> 'i slot \<Rightarrow> (string + json list) \<times> 'i slot" where
  "harnessBar H hk e slot = (
     let slot1 = (case he_newBar e of None \<Rightarrow> slot | Some b \<Rightarrow> slot\<lparr>sl_buffer := sl_buffer slot @ [b]\<rparr>);
         ctx = rehydrateContext (he_snapshot e) (sl_buffer slot1)
     in if \<not> hn_pick H hk (sl_instance slot1) then (Inr [], slot1)
        else case hn_call H hk ctx (sl_instance slot1) of
            (Inl code, i) \<Rightarrow> (Inl code, slot1\<lparr>sl_instance := i\<rparr>)
          | (Inr out, i) \<Rightarrow> (Inr (normalizeOut out), slot1\<lparr>sl_instance := i\<rparr>))"

datatype response =
    R_ok "json list"
  | R_okBatch int "json list"
  | R_err string hook "int option"

definition handleHook :: "'i harness \<Rightarrow> hook \<Rightarrow> hook_entry \<Rightarrow> 'i slot \<Rightarrow> response \<times> 'i slot" where
  "handleHook H hk e slot = (case harnessBar H hk e slot of
     (Inl code, slot') \<Rightarrow> (R_err code hk None, slot')
   | (Inr out, slot') \<Rightarrow> (R_ok (if hk \<in> {H_init, H_dispose} then [] else out), slot'))"

datatype batch_result = B_ok int "json list" | B_err int string

fun runHookBatch :: "'i harness \<Rightarrow> hook \<Rightarrow> int \<Rightarrow> hook_entry list \<Rightarrow> 'i slot \<Rightarrow> batch_result \<times> 'i slot" where
  "runHookBatch H hk j [] slot = (B_ok (j - 1) [], slot)"
| "runHookBatch H hk j (e # es) slot = (case harnessBar H hk e slot of
     (Inl code, slot') \<Rightarrow> (B_err j code, slot')
   | (Inr out, slot') \<Rightarrow> if out \<noteq> [] then (B_ok j out, slot') else runHookBatch H hk (j + 1) es slot')"

definition handleHookBatch :: "'i harness \<Rightarrow> hook \<Rightarrow> hook_entry list \<Rightarrow> 'i slot \<Rightarrow> response \<times> 'i slot" where
  "handleHookBatch H hk es slot = (case runHookBatch H hk 0 es slot of
     (B_ok j ds, slot') \<Rightarrow> (R_okBatch j ds, slot')
   | (B_err j code, slot') \<Rightarrow> (R_err code hk (Some j), slot'))"

subsection \<open>The session of the host\<close>

text \<open>\<open>barIndex\<close> and \<open>lastBarTs\<close>, which are -1 and undefined together.\<close>

type_synonym bookkeeping = "(nat \<times> ms) option"

datatype 'i session = Closed | Live bookkeeping "'i slot" | Dead session_error

definition serializeContext :: "bar_context \<Rightarrow> nat \<Rightarrow> snapshot" where
  "serializeContext ctx i = \<lparr>sp_symbol = x_symbol ctx, sp_barIndex = i, sp_bar = x_bar ctx, sp_state = x_state ctx\<rparr>"

definition buildHookPayload :: "bar_context \<Rightarrow> bookkeeping \<Rightarrow> hook_entry \<times> bookkeeping" where
  "buildHookPayload ctx bk = (
     let ts = b_ts (x_bar ctx);
         (i, newBar) = (case bk of
             None \<Rightarrow> (0, Some (x_bar ctx))
           | Some (i, lastTs) \<Rightarrow> if ts \<noteq> lastTs then (Suc i, Some (x_bar ctx)) else (i, None))
     in (\<lparr>he_snapshot = serializeContext ctx i, he_newBar = newBar\<rparr>, Some (i, ts)))"

definition mapFailure :: "response \<Rightarrow> hook \<Rightarrow> bookkeeping \<Rightarrow> session_error" where
  "mapFailure outcome hk bk = (case outcome of
     R_err code hk' _ \<Rightarrow> \<lparr>se_code = code, se_hook = Some hk', se_barIndex = map_option fst bk\<rparr>
   | _ \<Rightarrow> \<lparr>se_code = ''sandbox_crashed'', se_hook = Some hk, se_barIndex = map_option fst bk\<rparr>)"

text \<open>\<open>open\<close> does not look at \<open>failed\<close>: on a dead session it starts a container again, and the session stays dead.\<close>

definition openSession :: "'i harness \<Rightarrow> 'i session \<Rightarrow> (session_error + json list) \<times> 'i session" where
  "openSession H s = (case s of
     Live bk slot \<Rightarrow> (Inr [], s)
   | Closed \<Rightarrow> (case hn_load H of Inl e \<Rightarrow> (Inl e, Dead e)
       | Inr i \<Rightarrow> (Inr [], Live None \<lparr>sl_buffer = [], sl_instance = i\<rparr>))
   | Dead e0 \<Rightarrow> (case hn_load H of Inl e \<Rightarrow> (Inl e, Dead e) | Inr i \<Rightarrow> (Inr [], Dead e0)))"

definition callHook :: "'i harness \<Rightarrow> hook \<Rightarrow> bar_context \<Rightarrow> 'i session \<Rightarrow> (session_error + json list) \<times> 'i session" where
  "callHook H hk ctx s = (case s of Dead e \<Rightarrow> (Inl e, s)
   | _ \<Rightarrow> (case openSession H s of
       (Inr _, Live bk slot) \<Rightarrow>
         (let (entry, bk1) = buildHookPayload ctx bk;
              (outcome, slot1) = handleHook H hk entry slot
          in case outcome of R_ok ds \<Rightarrow> (Inr ds, Live bk1 slot1)
             | _ \<Rightarrow> (let e = mapFailure outcome hk bk1 in (Inl e, Dead e)))
     | (Inl e, s1) \<Rightarrow> (Inl e, s1)
     | (Inr _, Dead e) \<Rightarrow> (Inl e, Dead e)
     | (Inr ds, Closed) \<Rightarrow> (Inr ds, Closed)))"

fun payloads :: "bar_context list \<Rightarrow> bookkeeping \<Rightarrow> (hook_entry \<times> bookkeeping) list" where
  "payloads [] bk = []"
| "payloads (ctx # ctxs) bk = (let (entry, bk1) = buildHookPayload ctx bk in (entry, bk1) # payloads ctxs bk1)"

definition callHookBatch :: "'i harness \<Rightarrow> bar_context list \<Rightarrow> 'i session \<Rightarrow> (int \<times> (session_error + json list)) \<times> 'i session" where
  "callHookBatch H ctxs s = (case s of Dead e \<Rightarrow> ((-1, Inl e), s)
   | _ \<Rightarrow> (case openSession H s of
       (Inr _, Live bk slot) \<Rightarrow>
         (let sent = payloads ctxs bk;
              bars = map fst sent;
              bookkeepingAfter = map snd sent;
              bkEnd = (if sent = [] then bk else List.last bookkeepingAfter);
              (outcome, slot1) = handleHookBatch H On_bar_close bars slot;
              generic = (let e = mapFailure outcome On_bar_close bkEnd in ((-1, Inl e), Dead e))
          in case outcome of
            R_okBatch stoppedAt ds \<Rightarrow>
              if stoppedAt < 0 \<or> int (length bars) \<le> stoppedAt
              then (let e = \<lparr>se_code = ''sandbox_output_malformed'', se_hook = Some On_bar_close, se_barIndex = map_option fst bkEnd\<rparr>
                    in ((-1, Inl e), Dead e))
              else ((stoppedAt, Inr ds), Live (bookkeepingAfter ! nat stoppedAt) slot1)
          | R_err code hk (Some barOffset) \<Rightarrow>
              if 0 \<le> barOffset \<and> barOffset < int (length bars)
              then (let e = (mapFailure outcome On_bar_close bkEnd)\<lparr>se_barIndex := map_option fst (bookkeepingAfter ! nat barOffset)\<rparr>
                    in ((barOffset - 1, Inl e), Dead e))
              else generic
          | _ \<Rightarrow> generic)
     | (Inl e, s1) \<Rightarrow> ((-1, Inl e), s1)
     | (Inr _, Dead e) \<Rightarrow> ((-1, Inl e), Dead e)
     | (Inr ds, Closed) \<Rightarrow> ((-1, Inr ds), Closed)))"

subsection \<open>The executor\<close>

text \<open>What the executor keeps of an error: the error with the symbol (the redacted text is left out).\<close>

record 'i sandboxed =
  sm_session :: "'i session"
  sm_errors :: "(session_error \<times> string) list"

definition recordError :: "session_error \<Rightarrow> bar_context \<Rightarrow> 'i sandboxed \<Rightarrow> 'i sandboxed" where
  "recordError e ctx m = m\<lparr>sm_errors := sm_errors m @ [(e, x_symbol ctx)]\<rparr>"

fun revalidate :: "validator \<Rightarrow> string \<Rightarrow> string js_map \<Rightarrow> json list \<Rightarrow> engine_error + bool" where
  "revalidate V sid defs [] = Inr True"
| "revalidate V sid defs (d # ds) = (
     case (case kind_of d of JStr k \<Rightarrow> table_get defs k | _ \<Rightarrow> None) of None \<Rightarrow> Inr False
     | Some branch \<Rightarrow> (case V (branchRef sid branch) d of
         Inl e \<Rightarrow> Inl (Hook_threw e)
       | Inr [] \<Rightarrow> revalidate V sid defs ds
       | Inr _ \<Rightarrow> Inr False))"

definition schemaInvalid :: "hook \<Rightarrow> session_error" where
  "schemaInvalid hk = \<lparr>se_code = ''decision_schema_invalid'', se_hook = Some hk, se_barIndex = None\<rparr>"

definition executeStrategyHook :: "validator \<Rightarrow> string \<Rightarrow> 'i harness \<Rightarrow> hook \<Rightarrow> bar_context \<Rightarrow> 'i sandboxed \<Rightarrow>
    engine_error + json list \<times> 'i sandboxed" where
  "executeStrategyHook V sid H hk ctx m = (
     let (r, s) = callHook H hk ctx (sm_session m); m1 = m\<lparr>sm_session := s\<rparr>
     in case r of Inl e \<Rightarrow> Inr ([], recordError e ctx m1)
        | Inr ds \<Rightarrow> then_do (revalidate V sid STRATEGY_DECISION_DEFS ds) (\<lambda>ok.
            if ok then Inr (ds, m1) else Inr ([], recordError (schemaInvalid hk) ctx m1)))"

definition executeStrategyHookBatch :: "validator \<Rightarrow> string \<Rightarrow> 'i harness \<Rightarrow> bar_context list \<Rightarrow> 'i sandboxed \<Rightarrow>
    engine_error + (nat \<times> json list) \<times> 'i sandboxed" where
  "executeStrategyHookBatch V sid H ctxs m = (
     let ((stoppedAt, r), s) = callHookBatch H ctxs (sm_session m); m1 = m\<lparr>sm_session := s\<rparr>
     in case r of
          Inl e \<Rightarrow>
            let failedAt = nat (max 0 (stoppedAt + 1))
            in Inr ((nat (max 0 (min (stoppedAt + 1) (int (length ctxs) - 1))), []),
                 recordError e (if failedAt < length ctxs then ctxs ! failedAt else ctxs ! 0) m1)
        | Inr ds \<Rightarrow> then_do (revalidate V sid STRATEGY_DECISION_DEFS ds) (\<lambda>ok.
            if ok then Inr ((nat stoppedAt, ds), m1)
            else Inr ((nat stoppedAt, []), recordError (schemaInvalid On_bar_close) (ctxs ! nat stoppedAt) m1)))"

definition initStrategy :: "'i harness \<Rightarrow> hook list \<Rightarrow> bar_context \<Rightarrow> 'i sandboxed \<Rightarrow> 'i sandboxed" where
  "initStrategy H hooks ctx m = (
     let (opened, s) = openSession H (sm_session m); m1 = m\<lparr>sm_session := s\<rparr>
     in case opened of Inl e \<Rightarrow> recordError e ctx m1
        | Inr _ \<Rightarrow> if H_init \<in> set hooks
            then (let (r, s2) = callHook H H_init ctx s; m2 = m1\<lparr>sm_session := s2\<rparr>
                  in case r of Inl e \<Rightarrow> recordError e ctx m2 | Inr _ \<Rightarrow> m2)
            else m1)"

definition disposeStrategy :: "'i harness \<Rightarrow> hook list \<Rightarrow> bar_context \<Rightarrow> 'i sandboxed \<Rightarrow> 'i sandboxed" where
  "disposeStrategy H hooks ctx m = (
     if sm_session m \<noteq> Closed \<and> H_dispose \<in> set hooks
     then (let (r, s) = callHook H H_dispose ctx (sm_session m); m1 = m\<lparr>sm_session := s\<rparr>
           in case r of Inl e \<Rightarrow> recordError e ctx m1 | Inr _ \<Rightarrow> m1)
     else m)"

definition sandboxExecutor :: "validator \<Rightarrow> string \<Rightarrow> 'i harness \<Rightarrow> hook list \<Rightarrow> bool \<Rightarrow>
    (resolved_overlay \<Rightarrow> bar_context \<Rightarrow> 'i sandboxed \<times> 'o \<Rightarrow> engine_error + json list \<times> 'i sandboxed \<times> 'o) \<Rightarrow>
    ('i sandboxed, 'o) executor" where
  "sandboxExecutor V sid H hooks hasPosition overlay = \<lparr>
     h_hook = executeStrategyHook V sid H,
     h_batch = Some (executeStrategyHookBatch V sid H),
     h_preferredBatchBars = (\<lambda>_. None),
     h_overlay = overlay,
     h_init = (\<lambda>ctx m. Inr (initStrategy H hooks ctx m)),
     h_dispose = (\<lambda>ctx m. Inr (disposeStrategy H hooks ctx m)),
     h_hasPositionHook = hasPosition\<rparr>"

end
