(* ===== verification/Sandbox_Batching.thy ===== *)
theory Sandbox_Batching
  imports Sandbox_Session
begin

text \<open>
  The sandboxed executor meets the contract of a batch: what it answers, the session it leaves behind (bookkeeping
  rewound to the bar the harness stopped at) and the errors it records are those of one call per bar.
\<close>

definition sboxed :: "'i session \<Rightarrow> (session_error \<times> string) list \<Rightarrow> 'i sandboxed" where
  "sboxed s es = \<lparr>sm_session = s, sm_errors = es\<rparr>"

lemma payload_Some: "\<exists>i. snd (buildHookPayload ctx bk) = Some i"
  by (simp add: buildHookPayload_def Let_def split: prod.splits)

lemma payloads_length [simp]: "length (payloads cs bk) = length cs"
  by (induction cs arbitrary: bk) (auto simp: Let_def split: prod.splits)

text \<open>One bar of a live session.\<close>

lemma callHook_live:
  assumes "hk \<notin> {H_init, H_dispose}" and "buildHookPayload ctx bk = (entry, bk1)" and "harnessBar H hk entry slot = (r, slot1)"
  shows "callHook H hk ctx (Live bk slot) = (case r of
      Inl code \<Rightarrow> (let e = \<lparr>se_code = code, se_hook = Some hk, se_barIndex = map_option fst bk1\<rparr> in (Inl e, Dead e))
    | Inr ds \<Rightarrow> (Inr ds, Live bk1 slot1))"
  using assms by (auto simp: callHook_def openSession_def handleHook_def mapFailure_def Let_def split: sum.splits)

lemma hook_idle:
  assumes "callHook H On_bar_close ctx s = (Inr [], s')"
  shows "executeStrategyHook V sid H On_bar_close ctx (sboxed s es) = Inr ([], sboxed s' es)"
  using assms by (simp add: executeStrategyHook_def sboxed_def)

text \<open>The iteration in the harness against one call per bar.\<close>

lemma batch_in_harness:
  assumes "cs \<noteq> []"
  shows "\<exists>k b s. k < length cs \<and>
    hookRun (executeStrategyHook V sid H On_bar_close) (take k cs) (sboxed (Live bk slot) es) = Inr (replicate k IDLE_DECISION, sboxed (Live b s) es) \<and>
    (case runHookBatch H On_bar_close j (map fst (payloads cs bk)) slot of
      (B_ok stop ds, slot') \<Rightarrow> stop = j + int k \<and> callHook H On_bar_close (cs ! k) (Live b s) = (Inr ds, Live (snd (payloads cs bk ! k)) slot')
    | (B_err stop code, slot') \<Rightarrow> stop = j + int k \<and> (let e = \<lparr>se_code = code, se_hook = Some On_bar_close,
          se_barIndex = map_option fst (snd (payloads cs bk ! k))\<rparr> in callHook H On_bar_close (cs ! k) (Live b s) = (Inl e, Dead e)))"
  using assms
proof (induction cs arbitrary: bk slot j)
  case (Cons ctx cs)
  obtain entry bk1 where p: "buildHookPayload ctx bk = (entry, bk1)" by (cases "buildHookPayload ctx bk")
  obtain r slot1 where h: "harnessBar H On_bar_close entry slot = (r, slot1)" by (cases "harnessBar H On_bar_close entry slot")
  note call = callHook_live [OF _ p h, simplified]
  show ?case
  proof (cases "r = Inr [] \<and> cs \<noteq> []")
    case True
    hence r: "r = Inr []" and "cs \<noteq> []" by simp_all
    from Cons.IH [OF this(2), of bk1 slot1 "j + 1"] obtain k b s where k: "k < length cs"
      "hookRun (executeStrategyHook V sid H On_bar_close) (take k cs) (sboxed (Live bk1 slot1) es) = Inr (replicate k IDLE_DECISION, sboxed (Live b s) es)"
      "case runHookBatch H On_bar_close (j + 1) (map fst (payloads cs bk1)) slot1 of
        (B_ok stop ds, slot') \<Rightarrow> stop = j + 1 + int k \<and> callHook H On_bar_close (cs ! k) (Live b s) = (Inr ds, Live (snd (payloads cs bk1 ! k)) slot')
      | (B_err stop code, slot') \<Rightarrow> stop = j + 1 + int k \<and> (let e = \<lparr>se_code = code, se_hook = Some On_bar_close,
          se_barIndex = map_option fst (snd (payloads cs bk1 ! k))\<rparr> in callHook H On_bar_close (cs ! k) (Live b s) = (Inl e, Dead e))"
      by (elim exE conjE) (rule that)
    have "callHook H On_bar_close ctx (Live bk slot) = (Inr [], Live bk1 slot1)" using call r by simp
    note idle = hook_idle [OF this]
    show ?thesis
      by (rule exI [of _ "Suc k"], rule exI [of _ b], rule exI [of _ s])
         (use k p h r idle in \<open>auto simp: Let_def split: batch_result.splits prod.splits\<close>)
  next
    case False
    show ?thesis
      by (rule exI [of _ 0], rule exI [of _ bk], rule exI [of _ slot])
         (use False p h call in \<open>auto simp: Let_def split: sum.splits\<close>)
  qed
qed simp

lemma batch_answer_live:
  assumes "cs \<noteq> []" and "sm_session m = Live bk slot"
  shows "\<exists>k m1. k < length cs \<and>
    hookRun (executeStrategyHook V sid H On_bar_close) (take k cs) m = Inr (replicate k IDLE_DECISION, m1) \<and>
    executeStrategyHookBatch V sid H cs m = then_do (executeStrategyHook V sid H On_bar_close (cs ! k) m1) (\<lambda>(ds, m'). Inr ((k, ds), m'))"
proof -
  let ?run = "runHookBatch H On_bar_close 0 (map fst (payloads cs bk)) slot"
  obtain es where m: "m = sboxed (Live bk slot) es" using assms(2) by (cases m) (simp add: sboxed_def)
  hence se: "sm_session m = Live bk slot" by (simp add: sboxed_def)
  have ne: "payloads cs bk \<noteq> []" using assms(1) payloads_length [of cs bk] by (metis length_0_conv)
  obtain k b s where k: "k < length cs"
    and pre: "hookRun (executeStrategyHook V sid H On_bar_close) (take k cs) (sboxed (Live bk slot) es) = Inr (replicate k IDLE_DECISION, sboxed (Live b s) es)"
    and out: "case ?run of
        (B_ok stop ds, slot') \<Rightarrow> stop = 0 + int k \<and> callHook H On_bar_close (cs ! k) (Live b s) = (Inr ds, Live (snd (payloads cs bk ! k)) slot')
      | (B_err stop code, slot') \<Rightarrow> stop = 0 + int k \<and> (let e = \<lparr>se_code = code, se_hook = Some On_bar_close,
          se_barIndex = map_option fst (snd (payloads cs bk ! k))\<rparr> in callHook H On_bar_close (cs ! k) (Live b s) = (Inl e, Dead e))"
    using batch_in_harness [OF assms(1), of V sid H bk slot es 0] by (elim exE conjE) (rule that)
  obtain res slot' where run: "?run = (res, slot')" by (cases ?run)
  have "executeStrategyHookBatch V sid H cs m =
      then_do (executeStrategyHook V sid H On_bar_close (cs ! k) (sboxed (Live b s) es)) (\<lambda>(ds, m'). Inr ((k, ds), m'))"
  proof (cases res)
    case (B_ok stop ds)
    hence stop: "stop = int k" and call: "callHook H On_bar_close (cs ! k) (Live b s) = (Inr ds, Live (snd (payloads cs bk ! k)) slot')"
      using out run by simp_all
    have "callHookBatch H cs (sm_session m) = ((int k, Inr ds), Live (snd (payloads cs bk ! k)) slot')"
      using se run B_ok stop k by (simp add: callHookBatch_def openSession_def handleHookBatch_def Let_def)
    thus ?thesis using call k
      by (auto simp: executeStrategyHookBatch_def executeStrategyHook_def sboxed_def Let_def m then_do_assoc recordError_def
            intro!: then_do_cong)
  next
    case (B_err stop code)
    hence stop: "stop = int k" and call: "callHook H On_bar_close (cs ! k) (Live b s) = (Inl \<lparr>se_code = code, se_hook = Some On_bar_close,
          se_barIndex = map_option fst (snd (payloads cs bk ! k))\<rparr>, Dead \<lparr>se_code = code, se_hook = Some On_bar_close,
          se_barIndex = map_option fst (snd (payloads cs bk ! k))\<rparr>)"
      using out run by (simp_all add: Let_def)
    have "callHookBatch H cs (sm_session m) = ((int k - 1, Inl \<lparr>se_code = code, se_hook = Some On_bar_close,
          se_barIndex = map_option fst (snd (payloads cs bk ! k))\<rparr>), Dead \<lparr>se_code = code, se_hook = Some On_bar_close,
          se_barIndex = map_option fst (snd (payloads cs bk ! k))\<rparr>)"
      using se run B_err stop k by (simp add: callHookBatch_def openSession_def handleHookBatch_def mapFailure_def Let_def)
    thus ?thesis using call k
      by (simp add: executeStrategyHookBatch_def executeStrategyHook_def sboxed_def Let_def m recordError_def)
  qed
  thus ?thesis using k pre m by blast
qed

text \<open>A session that opens behaves, from its first call on, like one that was open; a dead one answers at once.\<close>

lemma opened_same:
  assumes "hn_load H = Inr i"
  shows "executeStrategyHook V sid H On_bar_close ctx (sboxed Closed es) =
      executeStrategyHook V sid H On_bar_close ctx (sboxed (Live None \<lparr>sl_buffer = [], sl_instance = i\<rparr>) es)"
    and "executeStrategyHookBatch V sid H cs (sboxed Closed es) =
      executeStrategyHookBatch V sid H cs (sboxed (Live None \<lparr>sl_buffer = [], sl_instance = i\<rparr>) es)"
  using assms
  by (simp_all add: executeStrategyHook_def executeStrategyHookBatch_def callHook_def callHookBatch_def openSession_def sboxed_def)

lemma unopened_answer:
  assumes "cs \<noteq> []" and "s = Dead e \<or> s = Closed \<and> hn_load H = Inl e"
  shows "executeStrategyHookBatch V sid H cs (sboxed s es) =
    then_do (executeStrategyHook V sid H On_bar_close (cs ! 0) (sboxed s es)) (\<lambda>(ds, m'). Inr ((0, ds), m'))"
  using assms
  by (auto simp: executeStrategyHook_def executeStrategyHookBatch_def callHook_def callHookBatch_def openSession_def sboxed_def
        recordError_def Let_def min_def max_def)

lemma batch_answer:
  assumes "cs \<noteq> []"
  shows "\<exists>k m1. k < length cs \<and>
    hookRun (executeStrategyHook V sid H On_bar_close) (take k cs) m = Inr (replicate k IDLE_DECISION, m1) \<and>
    executeStrategyHookBatch V sid H cs m = then_do (executeStrategyHook V sid H On_bar_close (cs ! k) m1) (\<lambda>(ds, m'). Inr ((k, ds), m'))"
proof -
  obtain s es where m: "m = sboxed s es" by (cases m) (auto simp: sboxed_def)
  have dead: ?thesis if "s = Dead e \<or> s = Closed \<and> hn_load H = Inl e" for e
    by (rule exI [of _ 0], rule exI [of _ m]) (use unopened_answer [OF assms that] assms m in simp)
  show ?thesis
  proof (cases s)
    case (Dead e)
    thus ?thesis using dead by blast
  next
    case (Live bk slot)
    hence "sm_session m = Live bk slot" using m by (simp add: sboxed_def)
    thus ?thesis by (rule batch_answer_live [OF assms])
  next
    case Closed
    show ?thesis
    proof (cases "hn_load H")
      case (Inl e)
      thus ?thesis using dead Closed by blast
    next
      case (Inr i)
      let ?m0 = "sboxed (Live None \<lparr>sl_buffer = [], sl_instance = i\<rparr>) es"
      have "sm_session ?m0 = Live None \<lparr>sl_buffer = [], sl_instance = i\<rparr>" by (simp add: sboxed_def)
      from batch_answer_live [OF assms this, of V sid H] obtain k m1 where k: "k < length cs"
        "hookRun (executeStrategyHook V sid H On_bar_close) (take k cs) ?m0 = Inr (replicate k IDLE_DECISION, m1)"
        "executeStrategyHookBatch V sid H cs ?m0 = then_do (executeStrategyHook V sid H On_bar_close (cs ! k) m1) (\<lambda>(ds, m'). Inr ((k, ds), m'))"
        by blast
      have batch: "executeStrategyHookBatch V sid H cs m = executeStrategyHookBatch V sid H cs ?m0"
        using m Closed opened_same(2) [OF Inr] by simp
      show ?thesis
      proof (cases "k = 0")
        case True
        hence "m1 = ?m0" using k(2) by simp
        thus ?thesis using True k m Closed batch opened_same(1) [OF Inr] by (intro exI [of _ 0] exI [of _ m]) simp
      next
        case False
        then obtain c cs' where c: "take k cs = c # cs'" using assms by (cases "take k cs") auto
        have "hookRun (executeStrategyHook V sid H On_bar_close) (take k cs) m = hookRun (executeStrategyHook V sid H On_bar_close) (take k cs) ?m0"
          unfolding c using m Closed opened_same(1) [OF Inr] by simp
        thus ?thesis using k batch by (intro exI [of _ k] exI [of _ m1]) simp
      qed
    qed
  qed
qed

interpretation sandbox: batch_executor "sandboxExecutor V sid H hooks hasPosition overlay" "executeStrategyHookBatch V sid H"
proof unfold_locales
  show "h_batch (sandboxExecutor V sid H hooks hasPosition overlay) = Some (executeStrategyHookBatch V sid H)"
    by (simp add: sandboxExecutor_def)
next
  fix cs m k ds m'
  assume ne: "cs \<noteq> []" and b: "executeStrategyHookBatch V sid H cs m = Inr ((k, ds), m')"
  obtain k' m1 where k': "k' < length cs" "hookRun (executeStrategyHook V sid H On_bar_close) (take k' cs) m = Inr (replicate k' IDLE_DECISION, m1)"
    and "executeStrategyHookBatch V sid H cs m = then_do (executeStrategyHook V sid H On_bar_close (cs ! k') m1) (\<lambda>(ds, m'). Inr ((k', ds), m'))"
    using batch_answer [OF ne] by blast
  hence "then_do (executeStrategyHook V sid H On_bar_close (cs ! k') m1) (\<lambda>(ds, m'). Inr ((k', ds), m')) = Inr ((k, ds), m')"
    using b by simp
  hence "k' = k" and call: "executeStrategyHook V sid H On_bar_close (cs ! k) m1 = Inr (ds, m')"
    by (auto simp: then_do_eq_Inr)
  note k = k' [unfolded \<open>k' = k\<close>]
  have "hookRun (executeStrategyHook V sid H On_bar_close) (take (Suc k) cs) m = Inr (replicate k IDLE_DECISION @ [firstDecision ds], m')"
    using k call by (simp add: take_Suc_conv_app_nth hookRun_append)
  thus "k < length cs \<and> hookRun (h_hook (sandboxExecutor V sid H hooks hasPosition overlay) On_bar_close) (take (Suc k) cs) m =
      Inr (replicate k IDLE_DECISION @ [firstDecision ds], m')"
    using k(1) by (simp add: sandboxExecutor_def)
next
  fix cs m e
  assume ne: "cs \<noteq> []" and b: "executeStrategyHookBatch V sid H cs m = Inl e"
  show "\<exists>k m1. k < length cs \<and> hookRun (h_hook (sandboxExecutor V sid H hooks hasPosition overlay) On_bar_close) (take k cs) m =
      Inr (replicate k IDLE_DECISION, m1) \<and> h_hook (sandboxExecutor V sid H hooks hasPosition overlay) On_bar_close (cs ! k) m1 = Inl e"
  proof -
    obtain k m1 where k: "k < length cs" "hookRun (executeStrategyHook V sid H On_bar_close) (take k cs) m = Inr (replicate k IDLE_DECISION, m1)"
      and "executeStrategyHookBatch V sid H cs m = then_do (executeStrategyHook V sid H On_bar_close (cs ! k) m1) (\<lambda>(ds, m'). Inr ((k, ds), m'))"
      using batch_answer [OF ne] by blast
    hence "executeStrategyHook V sid H On_bar_close (cs ! k) m1 = Inl e"
      using b by (cases "executeStrategyHook V sid H On_bar_close (cs ! k) m1") auto
    thus ?thesis using k by (auto simp: sandboxExecutor_def)
  qed
qed

text \<open>Claim C5. Batching is invisible.  The pass over a symbol's bars with the sandboxed strategy is the same with
  batches of hook calls as with one call per bar: the same records, orders, fills, equity, portfolio, session and
  recorded errors, or the same exception.\<close>

theorem batching_equivalent:
  "runSymbol C V sid (sandboxExecutor V sid H hooks hasPosition overlay) env s =
   runSymbol C V sid (sandboxExecutor V sid H hooks hasPosition overlay) (env\<lparr>en_maxBars := None\<rparr>) s"
proof -
  let ?X = "sandboxExecutor V sid H hooks hasPosition overlay"
  have "initSymbol C ?X (env\<lparr>en_maxBars := None\<rparr>) = initSymbol C ?X env" and "finalizeSymbol C ?X (env\<lparr>en_maxBars := None\<rparr>) = finalizeSymbol C ?X env"
    by (auto simp: initSymbol_def finalizeSymbol_def contextAt_def buildContext_def fun_eq_iff)
  thus ?thesis by (simp add: runSymbol_def sandbox.batching_invisible [symmetric] case_prod_unfold)
qed

end
