(* ===== verification/Bar_Merge.thy ===== *)
theory Bar_Merge
  imports Engine_Types "HOL-Library.Multiset"
begin

text \<open>
  \<open>engine/bar-major-aggregate.ts\<close>: the accumulators of the per-symbol simulations are merged into one.  The
  lists with a numeric key are merged by an n-way merge when each of them is already in key order, and by a
  full sort otherwise; the equity curves are summed over the union of their timestamps.  Adding two equities is
  the parameter \<open>add\<close> (a JavaScript number is rounded, so no law of addition is used).
\<close>

definition INITIAL_EQUITY :: jsnum where
  "INITIAL_EQUITY = JFin 10000"

subsection \<open>The merge\<close>

definition listPresorted :: "('a \<Rightarrow> int) \<Rightarrow> 'a list \<Rightarrow> bool" where
  "listPresorted keyOf xs = list_all (\<lambda>i. \<not> keyOf (xs ! i) < keyOf (xs ! (i - 1))) [1..<length xs]"

definition pickStep :: "('a \<Rightarrow> int) \<Rightarrow> 'a list list \<Rightarrow> nat list \<Rightarrow> nat \<Rightarrow> (nat \<times> int) option \<Rightarrow> (nat \<times> int) option" where
  "pickStep keyOf xss ptr s pick = (
     let xs = xss ! s; i = ptr ! s in
     if i \<ge> length xs then pick
     else let key = keyOf (xs ! i) in
       case pick of None \<Rightarrow> Some (s, key)
       | Some (_, pickKey) \<Rightarrow> if key < pickKey then Some (s, key) else pick)"

definition pickNext :: "('a \<Rightarrow> int) \<Rightarrow> 'a list list \<Rightarrow> nat list \<Rightarrow> (nat \<times> int) option" where
  "pickNext keyOf xss ptr = fold (pickStep keyOf xss ptr) [0..<length xss] None"

fun mergeLoop :: "('a \<Rightarrow> int) \<Rightarrow> 'a list list \<Rightarrow> nat \<Rightarrow> nat list \<Rightarrow> engine_error + 'a list" where
  "mergeLoop keyOf xss 0 ptr = Inr []"
| "mergeLoop keyOf xss (Suc n) ptr = (case pickNext keyOf xss ptr of
     None \<Rightarrow> Inl (Type_error ''lists[-1]'')
   | Some (pick, _) \<Rightarrow> then_do (mergeLoop keyOf xss n (ptr[pick := Suc (ptr ! pick)]))
       (\<lambda>out. Inr (xss ! pick ! (ptr ! pick) # out)))"

definition tagRow :: "nat \<Rightarrow> 'a list \<Rightarrow> ('a \<times> nat \<times> nat) list" where
  "tagRow symbolIndex xs = map (\<lambda>(origIndex, x). (x, symbolIndex, origIndex)) (zip [0..<length xs] xs)"

fun tagFrom :: "nat \<Rightarrow> 'a list list \<Rightarrow> ('a \<times> nat \<times> nat) list" where
  "tagFrom s [] = []"
| "tagFrom s (xs # xss) = tagRow s xs @ tagFrom (Suc s) xss"

definition tagItems :: "'a list list \<Rightarrow> ('a \<times> nat \<times> nat) list" where
  "tagItems xss = tagFrom 0 xss"

definition mergeByKey :: "('a \<Rightarrow> int) \<Rightarrow> 'a list list \<Rightarrow> engine_error + 'a list" where
  "mergeByKey keyOf xss = (
     if \<not> list_all (listPresorted keyOf) xss
     then Inr (map fst (sort_key (\<lambda>(x, s, i). (keyOf x, s, i)) (tagItems xss)))
     else mergeLoop keyOf xss (sum_list (map length xss)) (replicate (length xss) 0))"

definition concatBySymbol :: "'a list list \<Rightarrow> 'a list" where
  "concatBySymbol xss = concat xss"

subsection \<open>The equity curve of the basket\<close>

text \<open>The inner \<open>while\<close> of one symbol: its remaining points and its last equity.\<close>

fun advance :: "ms \<Rightarrow> equity_entry list \<times> jsnum \<Rightarrow> equity_entry list \<times> jsnum" where
  "advance ts (p # ps, l) = (if e_barTs p \<le> ts then advance ts (ps, e_equity p) else (p # ps, l))"
| "advance ts ([], l) = ([], l)"

fun equityLoop :: "(jsnum \<Rightarrow> jsnum \<Rightarrow> jsnum) \<Rightarrow> nat \<Rightarrow> ms list \<Rightarrow> (equity_entry list \<times> jsnum) list \<Rightarrow> equity_entry list" where
  "equityLoop add u [] st = []"
| "equityLoop add u (ts # tss) st = (
     let st' = map (advance ts) st in
     \<lparr>e_barIndex = u, e_barTs = ts, e_equity = foldl add (JFin 0) (map snd st')\<rparr> # equityLoop add (Suc u) tss st')"

definition unionTs :: "equity_entry list list \<Rightarrow> ms list" where
  "unionTs curves = sort (remdups (map e_barTs (concat curves)))"

definition aggregateEquityCurve :: "(jsnum \<Rightarrow> jsnum \<Rightarrow> jsnum) \<Rightarrow> equity_entry list list \<Rightarrow> equity_entry list" where
  "aggregateEquityCurve add curves = equityLoop add 0 (unionTs curves) (map (\<lambda>c. (c, INITIAL_EQUITY)) curves)"

text \<open>The merged accumulators have no order index.\<close>

definition mergeAccumulators :: "(jsnum \<Rightarrow> jsnum \<Rightarrow> jsnum) \<Rightarrow> run_accumulators list \<Rightarrow> engine_error + run_accumulators" where
  "mergeAccumulators add per = (
     then_do (mergeByKey t_exitTs (map trades per)) (\<lambda>ts.
     then_do (mergeByKey dr_barTs (map decisionRecords per)) (\<lambda>drs.
     then_do (mergeByKey f_fillTs (map fills per)) (\<lambda>fs.
     then_do (mergeByKey fe_ts (map fundingLedger per)) (\<lambda>fl.
     then_do (mergeByKey (\<lambda>o1. int (o_decisionBarIndex o1)) (map orders per)) (\<lambda>os.
     then_do (mergeByKey (\<lambda>r. int (rd_barIndex r)) (map riskDecisions per)) (\<lambda>rs.
     Inr \<lparr>decisionRecords = drs, orders = os, orderIndex = [], fills = fs, riskDecisions = rs, trades = ts,
       equityCurve = aggregateEquityCurve add (map equityCurve per), fundingLedger = fl,
       validationIssues = concatBySymbol (map validationIssues per)\<rparr>)))))))"

subsection \<open>The merge is the stable sort by key\<close>

lemma listPresorted_sorted: "listPresorted keyOf xs \<longleftrightarrow> sorted (map keyOf xs)"
proof -
  have "listPresorted keyOf xs \<longleftrightarrow> (\<forall>i. Suc i < length xs \<longrightarrow> keyOf (xs ! i) \<le> keyOf (xs ! Suc i))"
  proof
    assume l: "listPresorted keyOf xs"
    show "\<forall>i. Suc i < length xs \<longrightarrow> keyOf (xs ! i) \<le> keyOf (xs ! Suc i)"
    proof (intro allI impI)
      fix i assume "Suc i < length xs"
      hence "Suc i \<in> set [1..<length xs]" by simp
      thus "keyOf (xs ! i) \<le> keyOf (xs ! Suc i)" using l by (force simp: listPresorted_def list_all_iff not_less)
    qed
  next
    assume r: "\<forall>i. Suc i < length xs \<longrightarrow> keyOf (xs ! i) \<le> keyOf (xs ! Suc i)"
    have "keyOf (xs ! (i - 1)) \<le> keyOf (xs ! i)" if "i \<in> set [1..<length xs]" for i
      using that r [rule_format, of "i - 1"] by simp
    thus "listPresorted keyOf xs" by (auto simp: listPresorted_def list_all_iff not_less)
  qed
  thus ?thesis by (simp add: sorted_iff_nth_Suc)
qed

text \<open>The lists still to be merged, and the invariant of the scan for the smallest head.\<close>

definition rests :: "'a list list \<Rightarrow> nat list \<Rightarrow> 'a list list" where
  "rests xss ptr = map (\<lambda>s. drop (ptr ! s) (xss ! s)) [0..<length xss]"

definition is_pick :: "('a \<Rightarrow> int) \<Rightarrow> 'a list list \<Rightarrow> nat \<Rightarrow> (nat \<times> int) option \<Rightarrow> bool" where
  "is_pick keyOf rs n pick = (case pick of
     None \<Rightarrow> \<forall>s < n. rs ! s = []
   | Some (p, k) \<Rightarrow> p < n \<and> rs ! p \<noteq> [] \<and> keyOf (hd (rs ! p)) = k \<and>
       (\<forall>s < n. rs ! s \<noteq> [] \<longrightarrow> k \<le> keyOf (hd (rs ! s))) \<and> (\<forall>s < p. rs ! s \<noteq> [] \<longrightarrow> k < keyOf (hd (rs ! s))))"

lemma is_pick_step:
  assumes "is_pick keyOf (rests xss ptr) n pick" and "n < length xss"
  shows "is_pick keyOf (rests xss ptr) (Suc n) (pickStep keyOf xss ptr n pick)"
proof -
  have r: "rests xss ptr ! n = drop (ptr ! n) (xss ! n)" using assms(2) by (simp add: rests_def)
  show ?thesis using assms r
    by (auto simp: is_pick_def pickStep_def Let_def less_Suc_eq hd_drop_conv_nth not_le
          split: option.splits if_splits)
qed

lemma pickNext_is_pick: "is_pick keyOf (rests xss ptr) (length xss) (pickNext keyOf xss ptr)"
proof -
  have "n \<le> length xss \<Longrightarrow>
      is_pick keyOf (rests xss ptr) n (fold (pickStep keyOf xss ptr) [0..<n] None)" for n
  proof (induction n)
    case 0 show ?case by (simp add: is_pick_def)
  next
    case (Suc n) thus ?case by (simp add: is_pick_step)
  qed
  thus ?thesis by (simp add: pickNext_def)
qed

lemma concat_pick:
  assumes "p < length rs" and "rs ! p = x # xs"
  shows "concat rs = concat (take p rs) @ x # xs @ concat (drop (Suc p) rs)"
    and "concat (rs[p := xs]) = concat (take p rs) @ xs @ concat (drop (Suc p) rs)"
proof -
  have "rs = take p rs @ (x # xs) # drop (Suc p) rs" using id_take_nth_drop [OF assms(1)] assms(2) by simp
  thus "concat rs = concat (take p rs) @ x # xs @ concat (drop (Suc p) rs)"
    by (metis append_Cons concat.simps(2) concat_append)
  show "concat (rs[p := xs]) = concat (take p rs) @ xs @ concat (drop (Suc p) rs)"
    using assms(1) by (simp add: upd_conv_take_nth_drop)
qed

lemma filter_key_sort: "filter (\<lambda>y. c = f y) (sort_key f xs) = filter (\<lambda>y. c = f y) xs"
  using sort_key_stable [of f c xs] by (simp add: eq_commute)

text \<open>The smallest element, earliest among its equals, is the head of the stable sort.\<close>

lemma sort_key_extract:
  assumes "\<And>a. a \<in> set as \<Longrightarrow> f x < f a" and "\<And>b. b \<in> set bs \<Longrightarrow> f x \<le> f b"
  shows "sort_key f (as @ x # bs) = x # sort_key f (as @ bs)"
proof (rule properties_for_sort_key)
  show "mset (x # sort_key f (as @ bs)) = mset (as @ x # bs)" by simp
  show "sorted (map f (x # sort_key f (as @ bs)))"
    using assms by (auto simp: less_imp_le)
  have "filter (\<lambda>a. f x = f a) as = []" using assms(1) by (force simp: filter_empty_conv)
  thus "filter (\<lambda>y. f k = f y) (x # sort_key f (as @ bs)) = filter (\<lambda>y. f k = f y) (as @ x # bs)" for k
    by (auto simp: filter_key_sort)
qed

lemma rests_update:
  assumes "length ptr = length xss" and "p < length xss"
  shows "rests xss (ptr[p := Suc (ptr ! p)]) = (rests xss ptr)[p := tl (rests xss ptr ! p)]"
  by (rule nth_equalityI) (use assms in \<open>auto simp: rests_def nth_list_update drop_Suc tl_drop\<close>)

lemma sorted_head_le:
  assumes "sorted (map f xs)" and "a \<in> set xs" shows "f (hd xs) \<le> f a"
  using assms by (cases xs) auto

lemma mergeLoop_sort:
  assumes "\<And>xs. xs \<in> set xss \<Longrightarrow> sorted (map keyOf xs)" and "length ptr = length xss"
    and "n = length (concat (rests xss ptr))"
  shows "mergeLoop keyOf xss n ptr = Inr (sort_key keyOf (concat (rests xss ptr)))"
  using assms(2,3)
proof (induction n arbitrary: ptr)
  case (Suc n)
  let ?rs = "rests xss ptr"
  have len: "length ?rs = length xss" by (simp add: rests_def)
  have srt: "sorted (map keyOf (?rs ! s))" if "s < length xss" for s
    using that assms(1) [of "xss ! s"] by (simp add: rests_def drop_map [symmetric] sorted_wrt_drop)
  have "pickNext keyOf xss ptr \<noteq> None"
  proof
    assume "pickNext keyOf xss ptr = None"
    hence "\<forall>s < length ?rs. ?rs ! s = []" using pickNext_is_pick [of keyOf xss ptr] len by (simp add: is_pick_def)
    hence "concat ?rs = []" by (auto simp: in_set_conv_nth)
    thus False using Suc.prems(2) by (metis list.size(3) nat.distinct(1))
  qed
  then obtain p k where pk: "pickNext keyOf xss ptr = Some (p, k)" by auto
  hence p: "p < length xss" "?rs ! p \<noteq> []" "keyOf (hd (?rs ! p)) = k"
    and le: "\<And>s. s < length xss \<Longrightarrow> ?rs ! s \<noteq> [] \<Longrightarrow> k \<le> keyOf (hd (?rs ! s))"
    and less: "\<And>s. s < p \<Longrightarrow> ?rs ! s \<noteq> [] \<Longrightarrow> k < keyOf (hd (?rs ! s))"
    using pickNext_is_pick [of keyOf xss ptr] by (auto simp: is_pick_def)
  obtain x xs where x: "?rs ! p = x # xs" using p(2) by (cases "?rs ! p") auto
  have hx: "x = xss ! p ! (ptr ! p)"
    using x p(1) hd_drop_conv_nth [of "ptr ! p" "xss ! p"] by (simp add: rests_def) (metis drop_eq_Nil list.distinct(1) list.sel(1) not_le)
  have upd: "rests xss (ptr[p := Suc (ptr ! p)]) = ?rs[p := xs]"
    using rests_update [OF Suc.prems(1) p(1)] x by simp
  note split = concat_pick [of p ?rs x xs]
  have low: "keyOf x < keyOf a" if "a \<in> set (concat (take p ?rs))" for a
  proof -
    from that obtain ys where ys: "ys \<in> set (take p ?rs)" "a \<in> set ys" by auto
    then obtain s where s: "s < p" "a \<in> set (?rs ! s)" by (auto simp: in_set_conv_nth [of ys])
    hence "k < keyOf (hd (?rs ! s))" using less by force
    also have "\<dots> \<le> keyOf a" using srt [of s] s p(1) sorted_head_le by (metis less_trans)
    finally show ?thesis using p(3) x by simp
  qed
  have high: "keyOf x \<le> keyOf b" if "b \<in> set (xs @ concat (drop (Suc p) ?rs))" for b
  proof -
    from that consider "b \<in> set xs" | s where "s < length xss" "b \<in> set (?rs ! s)"
    proof -
      assume "b \<in> set xs \<Longrightarrow> thesis" and *: "\<And>s. s < length xss \<Longrightarrow> b \<in> set (?rs ! s) \<Longrightarrow> thesis"
      moreover have thesis if "ys \<in> set (drop (Suc p) ?rs)" "b \<in> set ys" for ys
        using that * len by (metis in_set_dropD in_set_conv_nth)
      ultimately show thesis using \<open>b \<in> _\<close> by auto
    qed
    thus ?thesis
    proof cases
      case 1 thus ?thesis using srt [OF p(1)] x by simp
    next
      case 2
      hence "k \<le> keyOf (hd (?rs ! s))" using le by force
      also have "\<dots> \<le> keyOf b" using srt 2 sorted_head_le by metis
      finally show ?thesis using p(3) x by simp
    qed
  qed
  have "sort_key keyOf (concat ?rs) = x # sort_key keyOf (concat (?rs[p := xs]))"
    using sort_key_extract [of "concat (take p ?rs)" keyOf x "xs @ concat (drop (Suc p) ?rs)"] low high split p(1) x len
    by simp
  moreover have "n = length (concat (?rs[p := xs]))" using Suc.prems(2) split p(1) x len by simp
  ultimately show ?case using Suc.IH [of "ptr[p := Suc (ptr ! p)]"] Suc.prems(1) pk upd hx by simp
next
  case 0
  hence "concat (rests xss ptr) = []" by (metis length_0_conv)
  thus ?case by (metis mergeLoop.simps(1) sort_key_simps(1))
qed

text \<open>The tags number the items, and the full sort by key, symbol and position is the stable sort by key.\<close>

lemma map_fst_tagRow: "map fst (tagRow s xs) = xs"
  by (simp add: tagRow_def comp_def case_prod_beta)

lemma map_snd_tagRow: "map snd (tagRow s xs) = map (Pair s) [0..<length xs]"
proof -
  have "map snd (tagRow s xs) = map (Pair s) (map fst (zip [0..<length xs] xs))"
    by (simp add: tagRow_def comp_def case_prod_beta del: map_fst_zip)
  thus ?thesis by simp
qed

lemma map_fst_tagItems: "map fst (tagItems xss) = concat xss"
proof -
  have "map fst (tagFrom s xss) = concat xss" for s
    by (induction xss arbitrary: s) (simp_all add: map_fst_tagRow)
  thus ?thesis by (simp add: tagItems_def)
qed

lemma tagFrom_ge: "q \<in> set (map snd (tagFrom s xss)) \<Longrightarrow> s \<le> fst q"
proof (induction xss arbitrary: s)
  case (Cons xs xss)
  hence "q \<in> set (map snd (tagRow s xs)) \<or> q \<in> set (map snd (tagFrom (Suc s) xss))" by auto
  thus ?case
  proof
    assume "q \<in> set (map snd (tagRow s xs))"
    thus ?thesis unfolding map_snd_tagRow by auto
  next
    assume "q \<in> set (map snd (tagFrom (Suc s) xss))"
    thus ?thesis using Cons.IH Suc_leD by blast
  qed
qed simp

lemma sorted_tags: "sorted (map snd (tagItems xss))"
proof -
  have "sorted (map snd (tagFrom s xss))" for s
  proof (induction xss arbitrary: s)
    case (Cons xs xss)
    have "sorted (map (Pair s) [0..<length xs])" by (simp add: sorted_map less_eq_prod_def)
    moreover have "a \<le> b" if "a \<in> set (map (Pair s) [0..<length xs])" "b \<in> set (map snd (tagFrom (Suc s) xss))" for a b
      using that(1) tagFrom_ge [OF that(2)] by (auto simp: less_eq_prod_def)
    ultimately show ?case using Cons by (simp only: tagFrom.simps map_append map_snd_tagRow sorted_append) blast
  qed simp
  thus ?thesis by (simp add: tagItems_def)
qed

lemma sort_key_sorted: "sorted (map f xs) \<Longrightarrow> sort_key f xs = xs"
  by (rule properties_for_sort_key) simp_all

lemma sorted_map_fst: "sorted ps \<Longrightarrow> sorted (map fst ps)" for ps :: "('a::linorder \<times> 'b::linorder) list"
  unfolding sorted_map by (erule sorted_wrt_mono_rel [rotated]) (auto simp: less_eq_prod_def)

lemma sorted_map_Pair: "sorted (map (Pair c) qs) = sorted qs" for c :: "'a::linorder" and qs :: "'b::linorder list"
  by (simp add: sorted_map less_eq_prod_def)

lemma sort_tagged:
  "map fst (sort_key (\<lambda>(x, s, i). (keyOf x, s, i)) (tagItems xss)) = sort_key keyOf (concat xss)"
    (is "map fst (sort_key ?F ?T) = _")
proof (rule properties_for_sort_key [symmetric])
  show "mset (map fst (sort_key ?F ?T)) = mset (concat xss)"
  proof -
    have "mset (map fst (sort_key ?F ?T)) = mset (map fst ?T)" by simp
    thus ?thesis by (simp only: map_fst_tagItems)
  qed
  have "sorted (map ?F (sort_key ?F ?T))" by simp
  hence "sorted (map fst (map ?F (sort_key ?F ?T)))"
    by (rule sorted_map_fst)
  thus "sorted (map keyOf (map fst (sort_key ?F ?T)))" by (simp add: comp_def case_prod_beta)
  fix k
  let ?P = "\<lambda>q. keyOf k = keyOf (fst q)"
  have "sorted (map snd (filter ?P ?T))" using sorted_tags sorted_filter by blast
  moreover have "map ?F (filter ?P ?T) = map (Pair (keyOf k)) (map snd (filter ?P ?T))"
    by (auto simp: case_prod_beta)
  ultimately have "sorted (map ?F (filter ?P ?T))"
    by (simp only: sorted_map_Pair)
  hence "filter ?P (sort_key ?F ?T) = filter ?P ?T" by (simp add: filter_sort sort_key_sorted)
  thus "filter (\<lambda>x. keyOf k = keyOf x) (map fst (sort_key ?F ?T)) = filter (\<lambda>x. keyOf k = keyOf x) (concat xss)"
    by (simp add: filter_map comp_def flip: map_fst_tagItems)
qed

lemma mergeByKey_sort: "mergeByKey keyOf xss = Inr (sort_key keyOf (concat xss))"
proof (cases "list_all (listPresorted keyOf) xss")
  case True
  have "rests xss (replicate (length xss) 0) = xss" by (auto simp: rests_def intro!: nth_equalityI)
  thus ?thesis using True mergeLoop_sort [of xss keyOf "replicate (length xss) 0"]
    by (simp add: mergeByKey_def list_all_iff listPresorted_sorted length_concat)
next
  case False
  thus ?thesis using sort_tagged [of keyOf xss] by (simp add: mergeByKey_def)
qed

subsection \<open>The aggregate equity\<close>

text \<open>The equity of a symbol as of a time: that of its last point not after it.\<close>

definition lastEquity :: "equity_entry list \<Rightarrow> jsnum" where
  "lastEquity ps = (if ps = [] then INITIAL_EQUITY else e_equity (List.last ps))"

definition equityAsOf :: "ms \<Rightarrow> equity_entry list \<Rightarrow> jsnum" where
  "equityAsOf ts c = lastEquity [p \<leftarrow> c. e_barTs p \<le> ts]"

lemma advance_split:
  "advance ts (rest, lastEquity pre) =
     (dropWhile (\<lambda>p. e_barTs p \<le> ts) rest, lastEquity (pre @ takeWhile (\<lambda>p. e_barTs p \<le> ts) rest))"
proof (induction rest arbitrary: pre)
  case (Cons p ps)
  show ?case using Cons [of "pre @ [p]"] by (simp add: lastEquity_def)
qed simp

definition split_curve :: "ms list \<Rightarrow> equity_entry list \<Rightarrow> equity_entry list \<times> jsnum \<Rightarrow> bool" where
  "split_curve tss c st = (\<exists>pre rest. c = pre @ rest \<and> st = (rest, lastEquity pre) \<and>
     (\<forall>p \<in> set pre. \<forall>ts \<in> set tss. e_barTs p \<le> ts))"

lemma split_curve_advance:
  assumes "split_curve (ts # tss) c st" and "sorted (map e_barTs c)" and "sorted (ts # tss)"
  shows "split_curve tss c (advance ts st)" and "snd (advance ts st) = equityAsOf ts c"
proof -
  obtain pre rest where c: "c = pre @ rest" and st: "st = (rest, lastEquity pre)"
    and pre: "\<forall>p \<in> set pre. \<forall>t \<in> set (ts # tss). e_barTs p \<le> t"
    using assms(1) by (auto simp: split_curve_def)
  let ?P = "\<lambda>p. e_barTs p \<le> ts"
  have adv: "advance ts st = (dropWhile ?P rest, lastEquity (pre @ takeWhile ?P rest))"
    by (simp add: st advance_split)
  have tw: "takeWhile ?P rest = filter ?P rest"
  proof -
    have "sorted (map e_barTs rest)" using assms(2) c by (simp add: sorted_append)
    thus ?thesis
    proof (induction rest)
      case (Cons a rest)
      show ?case
      proof (cases "?P a")
        case True thus ?thesis using Cons by simp
      next
        case False
        hence "filter ?P rest = []" using Cons.prems by (fastforce simp: filter_empty_conv)
        thus ?thesis using False by simp
      qed
    qed simp
  qed
  show "split_curve tss c (advance ts st)"
    unfolding split_curve_def adv
    by (rule exI [of _ "pre @ takeWhile ?P rest"], rule exI [of _ "dropWhile ?P rest"])
       (use c pre assms(3) in \<open>force dest: set_takeWhileD\<close>)
  have "filter ?P pre = pre" using pre by (simp add: filter_id_conv)
  thus "snd (advance ts st) = equityAsOf ts c" by (simp add: adv tw c equityAsOf_def)
qed

lemma equityLoop_spec:
  assumes "list_all2 (split_curve tss) curves sts" and "\<And>c. c \<in> set curves \<Longrightarrow> sorted (map e_barTs c)" and "sorted tss"
  shows "equityLoop add u tss sts = map (\<lambda>(v, ts). \<lparr>e_barIndex = v, e_barTs = ts,
     e_equity = foldl add (JFin 0) (map (equityAsOf ts) curves)\<rparr>) (zip [u..<u + length tss] tss)"
  using assms(1,3)
proof (induction tss arbitrary: u sts)
  case (Cons ts tss)
  have sc: "split_curve (ts # tss) (curves ! i) (sts ! i)" if "i < length curves" for i
    using Cons.prems(1) that by (simp add: list_all2_conv_all_nth)
  have len: "length sts = length curves" using Cons.prems(1) by (simp add: list_all2_lengthD)
  note adv = split_curve_advance [OF sc _ Cons.prems(2)]
  have "list_all2 (split_curve tss) curves (map (advance ts) sts)"
    using adv(1) assms(2) len by (simp add: list_all2_conv_all_nth)
  hence IH: "equityLoop add (Suc u) tss (map (advance ts) sts) = map (\<lambda>(v, ts). \<lparr>e_barIndex = v, e_barTs = ts,
     e_equity = foldl add (JFin 0) (map (equityAsOf ts) curves)\<rparr>) (zip [Suc u..<Suc u + length tss] tss)"
    using Cons.IH Cons.prems(2) by simp
  have "map snd (map (advance ts) sts) = map (equityAsOf ts) curves"
    by (rule nth_equalityI) (use adv(2) assms(2) len in simp_all)
  moreover have "[u..<u + length (ts # tss)] = u # [Suc u..<Suc u + length tss]"
    using upt_conv_Cons [of u "u + length (ts # tss)"] by (simp del: upt_Suc)
  ultimately show ?case using IH by (simp only: equityLoop.simps Let_def zip_Cons_Cons list.map prod.case)
qed simp

lemma aggregateEquityCurve_spec:
  assumes "\<And>c. c \<in> set curves \<Longrightarrow> sorted (map e_barTs c)"
  shows "aggregateEquityCurve add curves = map (\<lambda>(v, ts). \<lparr>e_barIndex = v, e_barTs = ts,
     e_equity = foldl add (JFin 0) (map (equityAsOf ts) curves)\<rparr>) (zip [0..<length (unionTs curves)] (unionTs curves))"
proof -
  have "list_all2 (split_curve (unionTs curves)) curves (map (\<lambda>c. (c, INITIAL_EQUITY)) curves)"
    by (auto simp: list_all2_conv_all_nth split_curve_def lastEquity_def)
  thus ?thesis using equityLoop_spec [OF _ assms, of "unionTs curves" curves "map (\<lambda>c. (c, INITIAL_EQUITY)) curves" add 0]
    by (simp add: aggregateEquityCurve_def unionTs_def)
qed

text \<open>Claim C6. Merging the accumulators of N symbols always succeeds, and the fast n-way merge gives exactly
  what the full stable sort gives: every list is the stable sort by its key of the concatenation in symbol
  order (so equal keys keep the order of the symbols and, within a symbol, their own), and the validation issues
  are the concatenation.  Where each curve is in time order, the aggregate equity has one point per distinct
  timestamp, in increasing order, and each is the sum, in symbol order, of every symbol's equity at its last
  bar not after it, or of its initial equity before its first bar.\<close>

theorem accumulators_merge:
  assumes "\<forall>a \<in> set per. sorted (map e_barTs (equityCurve a))"
  shows "\<exists>m. mergeAccumulators add per = Inr m \<and>
    trades m = sort_key t_exitTs (concat (map trades per)) \<and>
    decisionRecords m = sort_key dr_barTs (concat (map decisionRecords per)) \<and>
    fills m = sort_key f_fillTs (concat (map fills per)) \<and>
    fundingLedger m = sort_key fe_ts (concat (map fundingLedger per)) \<and>
    orders m = sort_key (\<lambda>x. int (o_decisionBarIndex x)) (concat (map orders per)) \<and>
    riskDecisions m = sort_key (\<lambda>r. int (rd_barIndex r)) (concat (map riskDecisions per)) \<and>
    validationIssues m = concat (map validationIssues per) \<and>
    sorted_wrt (<) (map e_barTs (equityCurve m)) \<and>
    set (map e_barTs (equityCurve m)) = (\<Union>a \<in> set per. set (map e_barTs (equityCurve a))) \<and>
    (\<forall>i < length (equityCurve m). e_barIndex (equityCurve m ! i) = i \<and>
       e_equity (equityCurve m ! i) =
         foldl add (JFin 0) (map (\<lambda>a. equityAsOf (e_barTs (equityCurve m ! i)) (equityCurve a)) per))"
proof -
  let ?cs = "map equityCurve per" and ?E = "aggregateEquityCurve add (map equityCurve per)"
  have E: "?E = map (\<lambda>(v, ts). \<lparr>e_barIndex = v, e_barTs = ts,
     e_equity = foldl add (JFin 0) (map (equityAsOf ts) ?cs)\<rparr>) (zip [0..<length (unionTs ?cs)] (unionTs ?cs))"
    using aggregateEquityCurve_spec [of ?cs add] assms by auto
  have times: "map e_barTs ?E = unionTs ?cs" by (simp add: E comp_def case_prod_beta)
  have points: "e_barIndex (?E ! i) = i \<and>
      e_equity (?E ! i) = foldl add (JFin 0) (map (\<lambda>a. equityAsOf (e_barTs (?E ! i)) (equityCurve a)) per)"
    if "i < length ?E" for i
    using that by (simp add: E comp_def)
  have "sorted_wrt (<) (unionTs ?cs)" by (simp add: unionTs_def strict_sorted_iff)
  moreover have "set (unionTs ?cs) = (\<Union>a \<in> set per. set (map e_barTs (equityCurve a)))" by (auto simp: unionTs_def)
  moreover obtain m where "mergeAccumulators add per = Inr m" and "equityCurve m = ?E"
    and "trades m = sort_key t_exitTs (concat (map trades per))"
    and "decisionRecords m = sort_key dr_barTs (concat (map decisionRecords per))"
    and "fills m = sort_key f_fillTs (concat (map fills per))"
    and "fundingLedger m = sort_key fe_ts (concat (map fundingLedger per))"
    and "orders m = sort_key (\<lambda>x. int (o_decisionBarIndex x)) (concat (map orders per))"
    and "riskDecisions m = sort_key (\<lambda>r. int (rd_barIndex r)) (concat (map riskDecisions per))"
    and "validationIssues m = concat (map validationIssues per)"
    by (auto simp: mergeAccumulators_def mergeByKey_sort concatBySymbol_def)
  ultimately show ?thesis using times points by (intro exI [of _ m]) (simp only: simp_thms, blast)
qed

end
