(* ===== verification/Bar_Causality.thy ===== *)
theory Bar_Causality
  imports Bar_Batching
begin

text \<open>
  No look-ahead: what the simulation of a symbol decides, fills and records up to a bar depends on the candles up to
  that bar only.  Two facts carry it: a bar reads no candle after itself, and a bar appends to the accumulators only
  records of its own index.
\<close>

subsection \<open>The pass as a fold over the bars\<close>

definition barStep :: "'p core \<Rightarrow> validator \<Rightarrow> string \<Rightarrow> ('m, 'o) executor \<Rightarrow> bar_env \<Rightarrow> nat \<Rightarrow>
    ('p, 'm, 'o) sim \<Rightarrow> engine_error + ('p, 'm, 'o) sim" where
  "barStep C V sid X env t s = then_do (preBar C env t s) (lockstepBar C V sid X env t)"

lemma not_batchable_None [simp]: "en_maxBars env = None \<Longrightarrow> \<not> batchable C X env t s"
  by (simp add: batchable_def)

lemma symbolLoop_fold:
  assumes "en_maxBars env = None"
  shows "symbolLoop C V sid X env t s = fold_do (barStep C V sid X env) [t..<length (en_candles env)] s"
proof (induction "length (en_candles env) - t" arbitrary: t s)
  case 0
  thus ?case by (simp add: symbolLoop.simps)
next
  case (Suc d)
  have "t < length (en_candles env)" using Suc.hyps(2) by simp
  hence "symbolLoop C V sid X env t s = then_do (barStep C V sid X env t s) (symbolLoop C V sid X env (Suc t))"
    using assms by (subst symbolLoop.simps) (simp add: barStep_def then_do_assoc)
  moreover have "symbolLoop C V sid X env (Suc t) s' = fold_do (barStep C V sid X env) [Suc t..<length (en_candles env)] s'" for s'
    using Suc.hyps by simp
  moreover have "[t..<length (en_candles env)] = t # [Suc t..<length (en_candles env)]"
    using Suc.hyps(2) by (simp add: upt_conv_Cons)
  ultimately show ?case by (simp add: fun_eq_iff [symmetric] cong: then_do_cong)
qed

subsection \<open>A bar reads no later candle\<close>

definition same_until :: "nat \<Rightarrow> bar_env \<Rightarrow> bar_env \<Rightarrow> bool" where
  "same_until k env env' = (take k (en_candles env) = take k (en_candles env') \<and>
     k \<le> length (en_candles env) \<and> k \<le> length (en_candles env') \<and>
     en_symbol env = en_symbol env' \<and> en_entry env = en_entry env' \<and> en_post env = en_post env' \<and>
     en_funding env = en_funding env' \<and> en_cadenceMinutes env = en_cadenceMinutes env')"

lemma same_until_nth:
  assumes "same_until k env env'" and "t < k"
  shows "en_candles env' ! t = en_candles env ! t"
proof -
  have "take k (en_candles env') ! t = take k (en_candles env) ! t" using assms(1) by (simp add: same_until_def)
  thus ?thesis using assms(2) by simp
qed

lemma same_until_take:
  assumes "same_until k env env'" and "t < k"
  shows "take t (en_candles env') = take t (en_candles env)"
proof -
  have "take t (take k (en_candles env')) = take t (take k (en_candles env))"
    using assms by (simp add: same_until_def)
  thus ?thesis using assms(2) by (simp add: min_def)
qed

lemma same_until_fields:
  assumes "same_until k env env'"
  shows "en_symbol env' = en_symbol env" "en_entry env' = en_entry env" "en_post env' = en_post env"
    "en_funding env' = en_funding env" "en_cadenceMinutes env' = en_cadenceMinutes env"
    "t < k \<Longrightarrow> t < length (en_candles env) = True" "t < k \<Longrightarrow> t < length (en_candles env') = True"
  using assms by (auto simp: same_until_def)

lemma staleGrace_same:
  assumes "same_until k env env'" and "t < k"
  shows "staleGrace col (map b_ts (en_candles env')) m t c ks = staleGrace col (map b_ts (en_candles env)) m t c ks"
proof (induction ks)
  case (Cons i ks)
  have "t - i < k" "t - i < length (en_candles env)" "t - i < length (en_candles env')"
    using assms by (auto simp: same_until_def)
  thus ?case using Cons same_until_nth [OF assms(1), of "t - i"] by (simp add: not_le split: option.splits)
qed simp

lemma same_stages:
  assumes "same_until k env env'" and "t < k"
  shows "buildContext env' t = buildContext env t"
    and "pushDecision env' t = pushDecision env t"
    and "applyEntry C env' t = applyEntry C env t"
    and "applyPositionDecision C env' t = applyPositionDecision C env t"
    and "sameBarStage C env' t = sameBarStage C env t"
    and "chargeFunding C env' t = chargeFunding C env t"
    and "equityStage C env' t = equityStage C env t"
    and "preBarStages C env' t = preBarStages C env t"
  by (intro ext; unfold buildContext_def pushDecision_def applyEntry_def applyPositionDecision_def fundingReadingAt_def
        sameBarStage_def chargeFunding_def equityStage_def preBarStages_def same_until_fields [OF assms(1)]
        same_until_fields(6,7) [OF assms] same_until_nth [OF assms] same_until_take [OF assms] staleGrace_same [OF assms];
        rule refl)+

lemma barStep_same:
  assumes "same_until k env env'" and "t < k"
  shows "barStep C V sid X env' t = barStep C V sid X env t"
  unfolding barStep_def [abs_def] preBar_def lockstepBar_def processBar_def entryStage_def positionStage_def composed_def
    contextAt_def same_stages [OF assms] same_until_fields [OF assms(1)] same_until_nth [OF assms]
  by (rule refl)

subsection \<open>A bar appends records of its own index\<close>

definition grows :: "nat \<Rightarrow> run_accumulators \<Rightarrow> run_accumulators \<Rightarrow> bool" where
  "grows t a b = (
     (\<exists>xs. decisionRecords b = decisionRecords a @ xs \<and> (\<forall>x \<in> set xs. dr_barIndex x = t)) \<and>
     (\<exists>xs. fills b = fills a @ xs \<and> (\<forall>x \<in> set xs. f_fillBarIndex x = t)) \<and>
     (\<exists>xs. equityCurve b = equityCurve a @ xs \<and> (\<forall>x \<in> set xs. e_barIndex x = t)))"

lemma grows_refl [simp]: "grows t a a"
  by (simp add: grows_def)

lemma grows_trans: "grows t a b \<Longrightarrow> grows t b c \<Longrightarrow> grows t a c"
  unfolding grows_def by (auto; metis append_assoc Un_iff set_append)

lemma grows_push [simp]:
  "grows t a (recordOrder x b) = grows t a b" "grows t a (setOrderStatus st k b) = grows t a b"
  "grows t a (pushTrade tr b) = grows t a b" "grows t a (pushRisk r b) = grows t a b"
  "grows t a (issueOf sy i hk cps b) = grows t a b" "grows t a (b\<lparr>fundingLedger := fl\<rparr>) = grows t a b"
  by (auto simp: grows_def recordOrder_def setOrderStatus_def pushTrade_def pushRisk_def issueOf_def split: option.splits)

lemma grows_records [simp]:
  "grows t a acc \<Longrightarrow> grows t a (pushFill (fillOf i t b calc sz kd) acc)"
  "grows t a acc \<Longrightarrow> grows t a (pushDecision env t hk base cps rd acc)"
  by (auto simp: grows_def pushFill_def fillOf_def pushDecision_def)

definition keeps_growing :: "nat \<Rightarrow> ('p \<times> run_accumulators \<Rightarrow> engine_error + 'p \<times> run_accumulators) \<Rightarrow> bool" where
  "keeps_growing t f = (\<forall>p acc p' acc'. f (p, acc) = Inr (p', acc') \<longrightarrow> grows t acc acc')"

lemma stages_grow:
  "keeps_growing t (settlePending C b t x)"
  "keeps_growing t (runProtectionCheck C b t sy)"
  "keeps_growing t (sameBarStage C env t)"
  "keeps_growing t (chargeFunding C env t)"
proof -
  show *: "keeps_growing t (settlePending C b t x)" for b x
    by (auto simp: keeps_growing_def settlePending_def then_do_eq_Inr Let_def split: option.splits intent.splits)
  show "keeps_growing t (runProtectionCheck C b t sy)"
    by (auto simp: keeps_growing_def runProtectionCheck_def then_do_eq_Inr Let_def split: option.splits if_splits)
  show "keeps_growing t (sameBarStage C env t)"
    using * by (auto simp: keeps_growing_def sameBarStage_def split: option.splits if_splits)
  show "keeps_growing t (chargeFunding C env t)"
    by (auto simp: keeps_growing_def chargeFunding_def then_do_eq_Inr Let_def split: option.splits if_splits)
qed

lemma onPortfolio_grows:
  assumes "keeps_growing t f" and "onPortfolio f s = Inr s'" shows "grows t (s_acc s) (s_acc s')"
  using assms by (auto simp: onPortfolio_def keeps_growing_def then_do_eq_Inr)

lemma apply_grows:
  "applyEntry C env t final (p, acc) = Inr (rd, p', acc') \<Longrightarrow> grows t acc acc'"
  "applyPositionDecision C env t final (p, acc) = Inr (rd, p', acc') \<Longrightarrow> grows t acc acc'"
  by (auto simp: applyEntry_def applyPositionDecision_def then_do_eq_Inr Let_def split: option.splits if_splits)

lemma composed_grows:
  assumes "\<And>p acc rd p' acc'. f (p, acc) = Inr (rd, p', acc') \<Longrightarrow> grows t acc acc'" and "composed f env t hk nm base cps s = Inr s'"
  shows "grows t (s_acc s) (s_acc s')"
proof -
  obtain rd p acc where f: "f (s_portfolio s, issueOf (en_symbol env) t nm cps (s_acc s)) = Inr (rd, p, acc)"
    and s': "s' = s\<lparr>s_portfolio := p, s_acc := pushDecision env t hk base cps rd acc\<rparr>"
    using assms(2) by (auto simp: composed_def then_do_eq_Inr)
  have "grows t (issueOf (en_symbol env) t nm cps (s_acc s)) acc" using assms(1) f by blast
  hence "grows t (s_acc s) acc" by (metis grows_push(5) grows_refl grows_trans)
  thus ?thesis using s' by auto
qed

lemma barStep_grows:
  assumes "barStep C V sid X env t (s, ov) = Inr (s', ov')"
  shows "grows t (s_acc s) (s_acc s')"
proof -
  note st = onPortfolio_grows [OF stages_grow(1)] onPortfolio_grows [OF stages_grow(2)]
    onPortfolio_grows [OF stages_grow(3)] onPortfolio_grows [OF stages_grow(4)]
  obtain s1 where pre: "preBarStages C env t s = Inr s1" and lk: "lockstepBar C V sid X env t (s1, ov) = Inr (s', ov')"
    using assms by (auto simp: barStep_def preBar_def then_do_eq_Inr)
  obtain s0 where s0: "(case c_pending C (s_portfolio s) of
         Some pn \<Rightarrow> if Suc (pn_decisionBarIndex pn) = t
           then onPortfolio (settlePending C (en_candles env ! t) t (b_open (en_candles env ! t))) s else Inr s
       | None \<Rightarrow> Inr s) = Inr s0"
    and pc: "onPortfolio (runProtectionCheck C (en_candles env ! t) t (en_symbol env)) s0 = Inr s1"
    using pre unfolding preBarStages_def Let_def then_do_eq_Inr by blast
  have "grows t (s_acc s) (s_acc s0)" using s0 by (auto split: option.splits if_splits dest: st(1))
  hence 1: "grows t (s_acc s) (s_acc s1)" using st(2) [OF pc] grows_trans by blast
  obtain m ctx base s2 ov2 s3 ov3 s4 s5
    where e: "entryStage C V sid X env t base ctx (s1\<lparr>s_module := m\<rparr>, ov) = Inr (s2, ov2)"
      and p: "positionStage C V sid X env t (s2, ov2) = Inr (s3, ov3)"
      and sb: "onPortfolio (sameBarStage C env t) s3 = Inr s4"
      and fu: "onPortfolio (chargeFunding C env t) s4 = Inr s5"
      and s': "s' = equityStage C env t s5"
    using lk by (auto simp: lockstepBar_def processBar_def then_do_eq_Inr)
  have 2: "grows t (s_acc s1) (s_acc s2)"
    using e composed_grows [OF apply_grows(1)] by (fastforce simp: entryStage_def then_do_eq_Inr)
  have 3: "grows t (s_acc s2) (s_acc s3)"
    using p composed_grows [OF apply_grows(2)] by (fastforce simp: positionStage_def then_do_eq_Inr split: if_splits)
  have "grows t (s_acc s5) (s_acc s')" by (simp add: s' equityStage_def grows_def)
  thus ?thesis using 1 2 3 st(3) [OF sb] st(4) [OF fu] grows_trans by metis
qed

subsection \<open>The records before a bar\<close>

text \<open>What the accumulators hold of the bars before \<open>k\<close>.\<close>

definition before :: "nat \<Rightarrow> run_accumulators \<Rightarrow> decision_record list \<times> fill list \<times> equity_entry list" where
  "before k acc = ([d \<leftarrow> decisionRecords acc. dr_barIndex d < k], [f \<leftarrow> fills acc. f_fillBarIndex f < k],
     [e \<leftarrow> equityCurve acc. e_barIndex e < k])"

lemma before_grows: "grows t a b \<Longrightarrow> k \<le> t \<Longrightarrow> before k b = before k a"
  by (auto simp: grows_def before_def filter_empty_conv)

lemma before_later:
  assumes "fold_do (barStep C V sid X env) [k..<n] (s, ov) = Inr (s', ov')"
  shows "before k (s_acc s') = before k (s_acc s)"
proof -
  have "fold_do (barStep C V sid X env) ts (s, ov) = Inr (s', ov') \<Longrightarrow> \<forall>t \<in> set ts. k \<le> t \<Longrightarrow>
      before k (s_acc s') = before k (s_acc s)" for ts
  proof (induction ts arbitrary: s ov)
    case (Cons t ts)
    then obtain s1 ov1 where "barStep C V sid X env t (s, ov) = Inr (s1, ov1)"
      and "fold_do (barStep C V sid X env) ts (s1, ov1) = Inr (s', ov')"
      by (auto simp: then_do_eq_Inr)
    thus ?case using Cons barStep_grows before_grows by fastforce
  qed simp
  thus ?thesis using assms by simp
qed

lemma finalize_before:
  "finalizeSymbol C X env s = Inr s' \<Longrightarrow> before k (s_acc s') = before k (s_acc s)"
  by (auto simp: finalizeSymbol_def then_do_eq_Inr before_def pushTrade_def setOrderStatus_def Let_def case_prod_unfold
        split: option.splits)

lemma runSymbol_until:
  assumes "runSymbol C V sid X env (s, ov) = Inr (r, ov')" and "en_maxBars env = None"
    and "k \<le> length (en_candles env)" and "en_candles env \<noteq> []"
  shows "\<exists>s0 s1 ov1. initSymbol C X env s = Inr s0 \<and>
    fold_do (barStep C V sid X env) [0..<k] (s0, ov) = Inr (s1, ov1) \<and> before k (s_acc r) = before k (s_acc s1)"
proof -
  obtain s0 s2 ov2 where i: "initSymbol C X env s = Inr s0" and l: "symbolLoop C V sid X env 0 (s0, ov) = Inr (s2, ov2)"
    and f: "finalizeSymbol C X env s2 = Inr r"
    using assms(1,4) by (auto simp: runSymbol_def then_do_eq_Inr)
  have "[0..<length (en_candles env)] = [0..<k] @ [k..<length (en_candles env)]"
    using assms(3) by (metis le0 le_add_diff_inverse upt_add_eq_append)
  then obtain s1 ov1 where "fold_do (barStep C V sid X env) [0..<k] (s0, ov) = Inr (s1, ov1)"
    and "fold_do (barStep C V sid X env) [k..<length (en_candles env)] (s1, ov1) = Inr (s2, ov2)"
    using l symbolLoop_fold [OF assms(2), of C V sid X 0 "(s0, ov)"] by (auto simp: fold_do_append then_do_eq_Inr)
  thus ?thesis using i before_later finalize_before [OF f] by metis
qed


end
