(* ===== verification/Order_Book.thy ===== *)
theory Order_Book
  imports Bar_Causality
begin

text \<open>
  The book of a simulated symbol: every order the engine records is executed exactly once or expires, and when.  The
  portfolio of the execution core is a parameter; \<open>portfolio_contract\<close> is what the engine relies on: one pending order,
  set by \<open>placePending\<close>, cleared by the settlement of it and by \<open>expirePending\<close>, and left alone by everything else.
\<close>

definition portfolio_contract :: "'p core \<Rightarrow> bool" where
  "portfolio_contract C = (
     (\<forall>p. c_isFlat C p = (c_position C p = None)) \<and>
     (\<forall>p pn p'. c_placePending C p pn = Inr p' \<longrightarrow> c_pending C p' = Some pn \<and> c_position C p' = c_position C p) \<and>
     (\<forall>p f p'. c_settleOpen C p f = Inr p' \<longrightarrow> c_pending C p' = None) \<and>
     (\<forall>p f p'. c_settleAdd C p f = Inr p' \<longrightarrow> c_pending C p' = None) \<and>
     (\<forall>p f r x tr p'. c_settleClose C p f r x = Inr (tr, p') \<longrightarrow> c_pending C p' = None) \<and>
     (\<forall>p f r tr p'. c_closePosition C p f r = Inr (tr, p') \<longrightarrow> c_pending C p' = c_pending C p) \<and>
     (\<forall>p st tk p'. c_updateProtection C p st tk = Inr p' \<longrightarrow> c_pending C p' = c_pending C p) \<and>
     (\<forall>p x p'. c_settleFunding C p x = Inr p' \<longrightarrow> c_pending C p' = c_pending C p) \<and>
     (\<forall>p. fst (c_expirePending C p) = c_pending C p))"

subsection \<open>Order ids are fresh\<close>

lemma showNat_digits: "c \<in> set (showNat n) \<Longrightarrow> c \<in> set ''0123456789''"
proof (induction n rule: showNat.induct)
  case (1 n)
  have "\<forall>k \<in> set [0..<10]. digit k \<in> set ''0123456789''" by code_simp
  hence d: "digit k \<in> set ''0123456789''" if "k < 10" for k using that by simp
  show ?case
  proof (cases "n < 10")
    case True
    thus ?thesis using 1 d [of n] by (simp add: showNat.simps [of n])
  next
    case False
    hence "c \<in> set (showNat (n div 10)) \<or> c = digit (n mod 10)" using 1 by (auto simp: showNat.simps [of n])
    thus ?thesis using 1 d [of "n mod 10"] False by auto
  qed
qed

lemma showNat_value: "foldl (\<lambda>m c. m * 10 + (of_char c - 48)) 0 (showNat n) = (n :: nat)"
proof (induction n rule: showNat.induct)
  case (1 n)
  have "\<forall>k \<in> set [0..<10]. of_char (digit k) = (48 + k :: nat)" by code_simp
  hence d: "of_char (digit k) = (48 + k :: nat)" if "k < 10" for k using that by simp
  show ?case using 1 d [of n] d [of "n mod 10"] by (cases "n < 10") (simp_all add: showNat.simps [of n])
qed

lemma showNat_inj: "showNat a = showNat b \<longleftrightarrow> a = b"
  by (metis showNat_value)

lemma showNat_tail: "showNat a @ ''-'' @ x = showNat b @ ''-'' @ y \<longleftrightarrow> a = b \<and> x = y"
proof
  assume e: "showNat a @ ''-'' @ x = showNat b @ ''-'' @ y"
  have n: "c \<noteq> CHR ''-''" if "c \<in> set (showNat k)" for c k using showNat_digits [OF that] by auto
  have "takeWhile (\<lambda>c. c \<noteq> CHR ''-'') (showNat k @ ''-'' @ z) = showNat k" for k z
    using n by (simp add: takeWhile_append2)
  hence "showNat a = showNat b" by (metis e)
  thus "a = b \<and> x = y" using e by (simp add: showNat_inj)
qed simp

definition ordId :: "string \<Rightarrow> order \<Rightarrow> string" where
  "ordId sy x = (if o_protection x then protectionOrderId sy (o_decisionBarIndex x)
     else orderId sy (o_decisionBarIndex x) (o_intent x))"

lemma orderId_inj: "orderId sy t it = orderId sy t' it' \<longleftrightarrow> t = t' \<and> it = it'"
proof -
  have "orderId sy t it = orderId sy t' it' \<longleftrightarrow> showNat t @ ''-'' @ intent_name it = showNat t' @ ''-'' @ intent_name it'"
    by (simp add: orderId_def)
  also have "\<dots> \<longleftrightarrow> t = t' \<and> it = it'" unfolding showNat_tail by (auto simp: intent_name_def split: intent.splits)
  finally show ?thesis .
qed

lemma protectionOrderId_inj: "protectionOrderId sy t = protectionOrderId sy t' \<longleftrightarrow> t = t'"
  using showNat_tail [of t "''protection''" t' "''protection''"] by (simp add: protectionOrderId_def)

lemma orderId_protection: "orderId sy t it \<noteq> protectionOrderId sy t'"
proof -
  have "orderId sy t it = protectionOrderId sy t' \<longleftrightarrow> showNat t @ ''-'' @ intent_name it = showNat t' @ ''-'' @ ''protection''"
    by (simp add: orderId_def protectionOrderId_def)
  thus ?thesis unfolding showNat_tail by (auto simp: intent_name_def split: intent.splits)
qed

lemmas protection_orderId = orderId_protection [symmetric]

subsection \<open>The book\<close>

text \<open>An order and the fill that executed it: at the next open, or on its own bar (protection, same-bar execution).\<close>

definition executed :: "bool \<Rightarrow> order \<Rightarrow> fill \<Rightarrow> bool" where
  "executed same x f = (o_status x = O_filled \<and> f_orderId f = o_id x \<and>
     f_fillBarIndex f = o_decisionBarIndex x + (if o_protection x \<or> same then 0 else 1))"

definition indexed :: "string \<Rightarrow> run_accumulators \<Rightarrow> bool" where
  "indexed sy acc = (distinct (map o_id (orders acc)) \<and> (\<forall>x \<in> set (orders acc). o_id x = ordId sy x) \<and>
     (\<forall>k < length (orders acc). findOrder acc (o_id (orders acc ! k)) = Some k))"

definition quiet :: "bool \<Rightarrow> run_accumulators \<Rightarrow> bool" where
  "quiet same acc = list_all2 (executed same) (orders acc) (fills acc)"

definition awaiting :: "bool \<Rightarrow> pending_order \<Rightarrow> run_accumulators \<Rightarrow> bool" where
  "awaiting same pn acc = (\<exists>os x. orders acc = os @ [x] \<and> list_all2 (executed same) os (fills acc) \<and>
     o_status x = O_pending \<and> o_id x = pn_id pn \<and> o_decisionBarIndex x = pn_decisionBarIndex pn \<and> \<not> o_protection x)"

definition decided_before :: "nat \<Rightarrow> bool \<Rightarrow> run_accumulators \<Rightarrow> bool" where
  "decided_before t prot acc = (\<forall>x \<in> set (orders acc).
     o_decisionBarIndex x < t \<or> prot \<and> o_decisionBarIndex x = t \<and> o_protection x)"

lemma indexed_orders:
  "orders a = orders b \<Longrightarrow> orderIndex a = orderIndex b \<Longrightarrow> indexed sy a = indexed sy b"
  by (simp add: indexed_def findOrder_def)

lemma indexed_record:
  assumes "indexed sy acc" and "o_id x = ordId sy x" and "decided_before t (\<not> o_protection x) acc"
    and "o_decisionBarIndex x = t"
  shows "indexed sy (recordOrder x acc)"
proof -
  have "o_id x \<noteq> o_id y" if "y \<in> set (orders acc)" for y
  proof -
    have "o_id y = ordId sy y" using assms(1) that by (simp add: indexed_def)
    moreover have "o_decisionBarIndex y < t \<or> \<not> o_protection x \<and> o_decisionBarIndex y = t \<and> o_protection y"
      using assms(3) that by (simp add: decided_before_def)
    ultimately show ?thesis using assms(2,4)
      by (cases "o_protection x"; cases "o_protection y")
         (auto simp: ordId_def orderId_inj protectionOrderId_inj orderId_protection protection_orderId)
  qed
  note fresh = this
  have "findOrder (recordOrder x acc) (o_id ((orders acc @ [x]) ! k)) = Some k" if "k < Suc (length (orders acc))" for k
  proof (cases "k = length (orders acc)")
    case False
    hence k: "k < length (orders acc)" using that by simp
    hence "findOrder acc (o_id (orders acc ! k)) = Some k" using assms(1) unfolding indexed_def by blast
    moreover have "o_id (orders acc ! k) \<noteq> o_id x" using fresh [of "orders acc ! k"] k by simp
    ultimately show ?thesis using k by (simp add: findOrder_def recordOrder_def nth_append)
  qed (simp add: findOrder_def recordOrder_def)
  moreover have "distinct (map o_id (orders acc @ [x]))" using assms(1) fresh by (auto simp: indexed_def)
  ultimately show ?thesis using assms(1,2) by (auto simp: indexed_def recordOrder_def)
qed

lemma indexed_status:
  assumes "indexed sy acc" and "k < length (orders acc)"
  shows "indexed sy (setOrderStatus st (Some k) acc)"
proof -
  let ?os = "(orders acc)[k := (orders acc ! k)\<lparr>o_status := st\<rparr>]"
  have ids: "map o_id ?os = map o_id (orders acc)"
    using assms(2) by (simp add: map_update) (metis list_update_id map_update nth_map)
  have "o_id x = ordId sy x" if "x \<in> set ?os" for x
  proof -
    have "x = (orders acc ! k)\<lparr>o_status := st\<rparr> \<or> x \<in> set (orders acc)"
      using that set_update_subset_insert by fastforce
    thus ?thesis using assms by (auto simp: indexed_def ordId_def)
  qed
  moreover have "o_id (?os ! j) = o_id (orders acc ! j)" if "j < length (orders acc)" for j
    using that by (cases "j = k") simp_all
  ultimately show ?thesis using assms(1) ids by (auto simp: indexed_def setOrderStatus_def findOrder_def)
qed

subsection \<open>The stages keep the book\<close>

definition book :: "'p core \<Rightarrow> string \<Rightarrow> nat \<Rightarrow> bool \<Rightarrow> 'p \<Rightarrow> run_accumulators \<Rightarrow> bool" where
  "book C sy t prot p acc = (indexed sy acc \<and> decided_before t prot acc \<and>
     c_pending C p = None \<and> quiet (x_settlesSameBar C) acc)"

definition open_book :: "'p core \<Rightarrow> string \<Rightarrow> nat \<Rightarrow> 'p \<Rightarrow> run_accumulators \<Rightarrow> bool" where
  "open_book C sy t p acc = (indexed sy acc \<and> decided_before (Suc t) False acc \<and>
     (\<exists>pn. c_pending C p = Some pn \<and> pn_decisionBarIndex pn = t \<and> awaiting (x_settlesSameBar C) pn acc))"

lemma decided_weaken: "decided_before t prot acc \<Longrightarrow> decided_before (Suc t) False acc"
  by (auto simp: decided_before_def)

lemma book_weaken: "book C sy t prot p acc \<Longrightarrow> book C sy (Suc t) False p acc"
  using decided_weaken by (auto simp: book_def)

text \<open>What pushes elsewhere leaves of the book.\<close>

lemma book_frame:
  "orders a = orders b \<Longrightarrow> orderIndex a = orderIndex b \<Longrightarrow> fills a = fills b \<Longrightarrow> c_pending C p = c_pending C q \<Longrightarrow>
   book C sy t prot p a = book C sy t prot q b \<and> open_book C sy t p a = open_book C sy t q b"
  by (auto simp: book_def open_book_def indexed_orders [of a b] decided_before_def quiet_def awaiting_def)

lemma settle_order:
  assumes "indexed sy acc" and "awaiting same pn acc" and "f_orderId f = pn_id pn"
    and "f_fillBarIndex f = pn_decisionBarIndex pn + (if same then 0 else 1)"
    and "orders acc' = orders acc" "orderIndex acc' = orderIndex acc" "fills acc' = fills acc @ [f]"
  shows "indexed sy (setOrderStatus O_filled (findOrder acc (pn_id pn)) acc')"
    and "quiet same (setOrderStatus O_filled (findOrder acc (pn_id pn)) acc')"
    and "decided_before t prot (setOrderStatus O_filled (findOrder acc (pn_id pn)) acc') = decided_before t prot acc"
proof -
  obtain os x where x: "orders acc = os @ [x]" "list_all2 (executed same) os (fills acc)" "o_id x = pn_id pn"
      "o_decisionBarIndex x = pn_decisionBarIndex pn" "\<not> o_protection x"
    using assms(2) by (auto simp: awaiting_def)
  have "findOrder acc (o_id (orders acc ! length os)) = Some (length os)"
    using assms(1) x(1) unfolding indexed_def by (metis length_append_singleton lessI)
  hence slot: "findOrder acc (pn_id pn) = Some (length os)" using x(1,3) by simp
  show "indexed sy (setOrderStatus O_filled (findOrder acc (pn_id pn)) acc')"
    using indexed_status [of sy acc' "length os" O_filled] assms(1,5,6) x(1) slot by (simp add: indexed_orders [of acc' acc])
  show "quiet same (setOrderStatus O_filled (findOrder acc (pn_id pn)) acc')"
    using x assms slot
    by (auto simp: quiet_def setOrderStatus_def executed_def intro!: list_all2_appendI)
  show "decided_before t prot (setOrderStatus O_filled (findOrder acc (pn_id pn)) acc') = decided_before t prot acc"
    using x assms slot by (auto simp: decided_before_def setOrderStatus_def)
qed

lemma settle_book:
  assumes "portfolio_contract C" and "settlePending C b t x (p, acc) = Inr (p', acc')"
    and "c_pending C p = Some pn" and "indexed sy acc" and "decided_before u False acc"
    and "awaiting (x_settlesSameBar C) pn acc" and "t = pn_decisionBarIndex pn + (if x_settlesSameBar C then 0 else 1)"
  shows "book C sy u False p' acc'"
proof -
  obtain acc1 f where a: "acc' = setOrderStatus O_filled (findOrder acc (pn_id pn)) acc1" "c_pending C p' = None"
    "orders acc1 = orders acc" "orderIndex acc1 = orderIndex acc" "fills acc1 = fills acc @ [f]"
    "f_orderId f = pn_id pn" "f_fillBarIndex f = t"
    using assms(1-3) unfolding portfolio_contract_def
    by (auto simp: settlePending_def then_do_eq_Inr Let_def pushFill_def pushTrade_def fillOf_def split: intent.splits)
  thus ?thesis using settle_order [OF assms(4,6) a(6) _ a(3-5)] assms(5,7) by (simp add: book_def)
qed

lemma pre_book:
  assumes "portfolio_contract C" and "preBarStages C env t s = Inr s'"
    and "book C sy t False (s_portfolio s) (s_acc s) \<or> \<not> x_settlesSameBar C \<and> 0 < t \<and> open_book C sy (t - 1) (s_portfolio s) (s_acc s)"
    and "sy = en_symbol env"
  shows "book C sy t True (s_portfolio s') (s_acc s')"
proof -
  let ?b = "en_candles env ! t"
  obtain s0 where s0: "(case c_pending C (s_portfolio s) of
         Some pn \<Rightarrow> if Suc (pn_decisionBarIndex pn) = t
           then onPortfolio (settlePending C ?b t (b_open ?b)) s else Inr s
       | None \<Rightarrow> Inr s) = Inr s0"
    and pc: "onPortfolio (runProtectionCheck C ?b t (en_symbol env)) s0 = Inr s'"
    using assms(2) unfolding preBarStages_def Let_def then_do_eq_Inr by blast
  have b0: "book C sy t False (s_portfolio s0) (s_acc s0)"
    using assms(3)
  proof
    assume "book C sy t False (s_portfolio s) (s_acc s)"
    thus ?thesis using s0 by (auto simp: book_def)
  next
    assume o: "\<not> x_settlesSameBar C \<and> 0 < t \<and> open_book C sy (t - 1) (s_portfolio s) (s_acc s)"
    then obtain pn where "c_pending C (s_portfolio s) = Some pn" "Suc (pn_decisionBarIndex pn) = t"
      "awaiting (x_settlesSameBar C) pn (s_acc s)" "indexed sy (s_acc s)" "decided_before t False (s_acc s)"
      by (auto simp: open_book_def)
    thus ?thesis using s0 o settle_book [OF assms(1)] by (auto simp: onPortfolio_def then_do_eq_Inr)
  qed
  obtain p acc where pa: "runProtectionCheck C ?b t (en_symbol env) (s_portfolio s0, s_acc s0) = Inr (p, acc)"
    and s': "s_portfolio s' = p" "s_acc s' = acc"
    using pc by (auto simp: onPortfolio_def then_do_eq_Inr)
  have w: "book C sy t True (s_portfolio s0) (s_acc s0)" using b0 by (auto simp: book_def decided_before_def)
  show ?thesis
  proof (cases "(p, acc) = (s_portfolio s0, s_acc s0)")
    case True thus ?thesis using w s' by simp
  next
    case False
    then obtain x f tr where acc: "acc = pushTrade tr (pushFill f (recordOrder x (s_acc s0)))"
      and x: "o_id x = protectionOrderId sy t" "o_decisionBarIndex x = t" "o_status x = O_filled" "o_protection x"
      and f: "f_orderId f = o_id x" "f_fillBarIndex f = t" and pend: "c_pending C p = c_pending C (s_portfolio s0)"
      using pa assms(1,4) unfolding portfolio_contract_def
      by (auto simp: runProtectionCheck_def then_do_eq_Inr Let_def fillOf_def split: option.splits if_splits)
    have "indexed sy (recordOrder x (s_acc s0))"
      using indexed_record [of sy "s_acc s0" x t] b0 x by (simp add: book_def ordId_def)
    hence "indexed sy acc" using acc indexed_orders [of acc "recordOrder x (s_acc s0)"] by (simp add: pushTrade_def pushFill_def)
    moreover have "quiet (x_settlesSameBar C) acc"
      using b0 acc x f by (auto simp: book_def quiet_def pushTrade_def pushFill_def recordOrder_def executed_def intro!: list_all2_appendI)
    moreover have "decided_before t True acc"
      using w acc x by (auto simp: book_def decided_before_def pushTrade_def pushFill_def recordOrder_def)
    ultimately show ?thesis using pend b0 s' by (simp add: book_def)
  qed
qed

lemma record_open:
  assumes "book C sy t True p acc" and "c_pending C p' = Some pn" and "pn_id pn = o_id x" "pn_decisionBarIndex pn = t"
    and "o_id x = ordId sy x" "o_decisionBarIndex x = t" "o_status x = O_pending" "\<not> o_protection x"
    and "orders a = orders acc" "orderIndex a = orderIndex acc" "fills a = fills acc"
  shows "open_book C sy t p' (recordOrder x a)"
proof -
  have i: "indexed sy a" and d: "decided_before t True a"
    using assms(1,9,10) indexed_orders [of a acc] by (auto simp: book_def decided_before_def)
  have "indexed sy (recordOrder x a)" using indexed_record [OF i assms(5)] d assms(6,8) by simp
  moreover have "decided_before (Suc t) False (recordOrder x a)"
    using d assms(6) by (auto simp: decided_before_def recordOrder_def)
  ultimately show ?thesis using assms by (auto simp: open_book_def awaiting_def recordOrder_def book_def quiet_def)
qed

lemma pushes_simps [simp]:
  "orders (pushRisk r a) = orders a" "orderIndex (pushRisk r a) = orderIndex a" "fills (pushRisk r a) = fills a"
  "orders (issueOf sy t hk cps a) = orders a" "orderIndex (issueOf sy t hk cps a) = orderIndex a"
  "fills (issueOf sy t hk cps a) = fills a"
  "orders (pushDecision env t hk' base cps rd a) = orders a"
  "orderIndex (pushDecision env t hk' base cps rd a) = orderIndex a"
  "fills (pushDecision env t hk' base cps rd a) = fills a"
  by (simp_all add: pushRisk_def issueOf_def pushDecision_def split: option.splits)

lemma entry_book:
  assumes "portfolio_contract C" and "applyEntry C env t final (p, acc) = Inr (rd, p', acc')"
    and "book C (en_symbol env) t True p acc"
  shows "(book C (en_symbol env) t True p' acc' \<or> open_book C (en_symbol env) t p' acc') \<and> c_position C p' = c_position C p \<and>
    (c_pending C p' \<noteq> None \<longrightarrow> c_position C p' = None)"
proof (cases "c_pending C p' = None")
  case True
  hence "orders acc' = orders acc \<and> orderIndex acc' = orderIndex acc \<and> fills acc' = fills acc \<and> p' = p"
    using assms(1,2) unfolding portfolio_contract_def
    by (fastforce simp: applyEntry_def then_do_eq_Inr Let_def split: option.splits if_splits)
  thus ?thesis using assms(3) True book_frame [of acc' acc C p' p] by auto
next
  case False
  have n: "c_pending C p = None" using assms(3) by (simp add: book_def)
  have "\<exists>pn x r. c_isFlat C p \<and> c_placePending C p pn = Inr p' \<and> acc' = recordOrder x (pushRisk r acc) \<and> pn_id pn = o_id x \<and>
      pn_decisionBarIndex pn = t \<and> o_id x = ordId (en_symbol env) x \<and> o_decisionBarIndex x = t \<and> o_status x = O_pending \<and> \<not> o_protection x"
    using False n assms(1,2) unfolding portfolio_contract_def
    by (auto simp: applyEntry_def then_do_eq_Inr Let_def newOrder_def noOrder_def ordId_def
          split: option.splits if_splits intro!: exI)
  then obtain pn x r where flat: "c_isFlat C p" and pl: "c_placePending C p pn = Inr p'"
    and acc': "acc' = recordOrder x (pushRisk r acc)"
    and x: "pn_id pn = o_id x" "pn_decisionBarIndex pn = t" "o_id x = ordId (en_symbol env) x" "o_decisionBarIndex x = t"
      "o_status x = O_pending" "\<not> o_protection x" by blast
  have "c_pending C p' = Some pn \<and> c_position C p' = c_position C p \<and> c_position C p = None"
    using assms(1) pl flat by (auto simp: portfolio_contract_def)
  thus ?thesis unfolding acc' using record_open [OF assms(3)] x by simp
qed

lemma position_book:
  assumes "portfolio_contract C" and "applyPositionDecision C env t final (p, acc) = Inr (rd, p', acc')"
    and "book C (en_symbol env) t True p acc"
  shows "book C (en_symbol env) t True p' acc' \<or> open_book C (en_symbol env) t p' acc'"
proof (cases "c_pending C p' = None")
  case True
  hence "orders acc' = orders acc \<and> orderIndex acc' = orderIndex acc \<and> fills acc' = fills acc"
    using assms(1,2) unfolding portfolio_contract_def
    by (fastforce simp: applyPositionDecision_def then_do_eq_Inr Let_def split: option.splits if_splits)
  thus ?thesis using assms(3) True book_frame [of acc' acc C p' p] by (auto simp: book_def)
next
  case False
  have n: "c_pending C p = None" using assms(3) by (simp add: book_def)
  have "\<exists>pn x r. c_placePending C p pn = Inr p' \<and> acc' = recordOrder x (pushRisk r acc) \<and> pn_id pn = o_id x \<and>
      pn_decisionBarIndex pn = t \<and> o_id x = ordId (en_symbol env) x \<and> o_decisionBarIndex x = t \<and> o_status x = O_pending \<and> \<not> o_protection x"
    using False n assms(1,2) unfolding portfolio_contract_def
    by (auto simp: applyPositionDecision_def then_do_eq_Inr Let_def newOrder_def noOrder_def ordId_def
          split: option.splits if_splits intro!: exI)
  then obtain pn x r where pl: "c_placePending C p pn = Inr p'" and acc': "acc' = recordOrder x (pushRisk r acc)"
    and x: "pn_id pn = o_id x" "pn_decisionBarIndex pn = t" "o_id x = ordId (en_symbol env) x" "o_decisionBarIndex x = t"
      "o_status x = O_pending" "\<not> o_protection x" by blast
  have "c_pending C p' = Some pn" using assms(1) pl by (auto simp: portfolio_contract_def)
  thus ?thesis unfolding acc' using record_open [OF assms(3)] x by simp
qed

subsection \<open>A bar keeps the book\<close>

definition ready :: "'p core \<Rightarrow> string \<Rightarrow> nat \<Rightarrow> ('p, 'm) sym_state \<Rightarrow> bool" where
  "ready C sy t s = (book C sy t False (s_portfolio s) (s_acc s) \<or>
     \<not> x_settlesSameBar C \<and> 0 < t \<and> open_book C sy (t - 1) (s_portfolio s) (s_acc s))"

abbreviation in_bar :: "'p core \<Rightarrow> bar_env \<Rightarrow> nat \<Rightarrow> ('p, 'm) sym_state \<Rightarrow> bool" where
  "in_bar C env t s \<equiv> book C (en_symbol env) t True (s_portfolio s) (s_acc s) \<or> open_book C (en_symbol env) t (s_portfolio s) (s_acc s)"

lemma book_pushes [simp]:
  "book C sy t prot p (pushDecision env u hk base cps rd acc) = book C sy t prot p acc"
  "open_book C sy t p (pushDecision env u hk base cps rd acc) = open_book C sy t p acc"
  "book C sy t prot p (issueOf sy' u nm cps acc) = book C sy t prot p acc"
  using book_frame [of "pushDecision env u hk base cps rd acc" acc C p p] book_frame [of "issueOf sy' u nm cps acc" acc C p p]
  by simp_all

lemma entryStage_book:
  assumes "portfolio_contract C" and "entryStage C V sid X env t base ctx (s, ov) = Inr (s', ov')"
    and "book C (en_symbol env) t True (s_portfolio s) (s_acc s)"
  shows "in_bar C env t s' \<and> (c_pending C (s_portfolio s') \<noteq> None \<longrightarrow> c_position C (s_portfolio s') = None)"
proof -
  obtain cps rd p acc where e: "applyEntry C env t (cp_final cps) (s_portfolio s, issueOf (en_symbol env) t ''onBarClose'' cps (s_acc s)) = Inr (rd, p, acc)"
    and s': "s_portfolio s' = p" "s_acc s' = pushDecision env t On_bar_close (orElse base IDLE_DECISION) cps rd acc"
    using assms(2) by (auto simp: entryStage_def composed_def then_do_eq_Inr)
  have b: "book C (en_symbol env) t True (s_portfolio s) (issueOf (en_symbol env) t ''onBarClose'' cps (s_acc s))"
    using assms(3) by simp
  show ?thesis using entry_book [OF assms(1) e b] s' by auto
qed

lemma positionStage_book:
  assumes "portfolio_contract C" and "positionStage C V sid X env t (s, ov) = Inr (s', ov')"
    and "in_bar C env t s" and "c_pending C (s_portfolio s) \<noteq> None \<longrightarrow> c_position C (s_portfolio s) = None"
  shows "in_bar C env t s'"
proof (cases "c_position C (s_portfolio s) \<noteq> None \<and> (h_hasPositionHook X \<or> en_post env \<noteq> [])")
  case False
  thus ?thesis using assms(2,3) by (auto simp: positionStage_def)
next
  case True
  then obtain cps rd p acc m base where e: "applyPositionDecision C env t (cp_final cps)
        (s_portfolio s, issueOf (en_symbol env) t ''onPositionBar'' cps (s_acc s)) = Inr (rd, p, acc)"
    and s': "s_portfolio s' = p" "s_acc s' = pushDecision env t On_position_bar base cps rd acc"
    using assms(2) by (auto simp: positionStage_def composed_def then_do_eq_Inr)
  have "c_pending C (s_portfolio s) = None" using assms(4) True by auto
  hence "book C (en_symbol env) t True (s_portfolio s) (s_acc s)" using assms(3) by (auto simp: open_book_def)
  hence b: "book C (en_symbol env) t True (s_portfolio s) (issueOf (en_symbol env) t ''onPositionBar'' cps (s_acc s))"
    by simp
  show ?thesis using position_book [OF assms(1) e b] s' by simp
qed

lemma sameBar_book:
  assumes "portfolio_contract C" and "onPortfolio (sameBarStage C env t) s = Inr s'" and "in_bar C env t s"
  shows "ready C (en_symbol env) (Suc t) s'"
proof (cases "c_pending C (s_portfolio s)")
  case None
  hence "book C (en_symbol env) (Suc t) False (s_portfolio s) (s_acc s)"
    using assms(3) book_weaken by (fastforce simp: open_book_def)
  thus ?thesis using None assms(2) by (auto simp: onPortfolio_def sameBarStage_def ready_def then_do_eq_Inr)
next
  case (Some pn)
  hence o: "open_book C (en_symbol env) t (s_portfolio s) (s_acc s)" using assms(3) by (auto simp: book_def)
  hence t: "pn_decisionBarIndex pn = t" "awaiting (x_settlesSameBar C) pn (s_acc s)" "indexed (en_symbol env) (s_acc s)"
      "decided_before (Suc t) False (s_acc s)"
    using Some by (auto simp: open_book_def)
  show ?thesis
  proof (cases "x_settlesSameBar C")
    case True
    then obtain p acc where "settlePending C (en_candles env ! t) t (b_close (en_candles env ! t)) (s_portfolio s, s_acc s) = Inr (p, acc)"
      and "s_portfolio s' = p" "s_acc s' = acc"
      using Some t(1) assms(2) by (auto simp: onPortfolio_def sameBarStage_def then_do_eq_Inr)
    thus ?thesis using settle_book [OF assms(1) _ Some t(3,4,2)] t(1) True by (simp add: ready_def)
  next
    case False
    thus ?thesis using Some o assms(2) by (auto simp: onPortfolio_def sameBarStage_def ready_def then_do_eq_Inr)
  qed
qed

lemma barStep_book:
  assumes "portfolio_contract C" and "barStep C V sid X env t (s, ov) = Inr (s', ov')" and "ready C (en_symbol env) t s"
  shows "ready C (en_symbol env) (Suc t) s'"
proof -
  obtain s1 where pre: "preBarStages C env t s = Inr s1" and lk: "lockstepBar C V sid X env t (s1, ov) = Inr (s', ov')"
    using assms(2) by (auto simp: barStep_def preBar_def then_do_eq_Inr)
  obtain m ctx base s2 ov2 s3 ov3 s4 s5
    where e: "entryStage C V sid X env t base ctx (s1\<lparr>s_module := m\<rparr>, ov) = Inr (s2, ov2)"
      and p: "positionStage C V sid X env t (s2, ov2) = Inr (s3, ov3)"
      and sb: "onPortfolio (sameBarStage C env t) s3 = Inr s4"
      and fu: "onPortfolio (chargeFunding C env t) s4 = Inr s5"
      and s': "s' = equityStage C env t s5"
    using lk by (auto simp: lockstepBar_def processBar_def then_do_eq_Inr)
  have "book C (en_symbol env) t True (s_portfolio s1) (s_acc s1)"
    using pre_book [OF assms(1) pre] assms(3) by (simp add: ready_def)
  hence "ready C (en_symbol env) (Suc t) s4"
    using sameBar_book [OF assms(1) sb] positionStage_book [OF assms(1) p] entryStage_book [OF assms(1) e] by simp
  moreover have "orders (s_acc s') = orders (s_acc s4) \<and> orderIndex (s_acc s') = orderIndex (s_acc s4) \<and>
      fills (s_acc s') = fills (s_acc s4) \<and> c_pending C (s_portfolio s') = c_pending C (s_portfolio s4)"
    using fu assms(1) unfolding s' portfolio_contract_def
    by (auto simp: onPortfolio_def chargeFunding_def equityStage_def then_do_eq_Inr Let_def split: option.splits if_splits)
  ultimately show ?thesis
    using book_frame [of "s_acc s'" "s_acc s4" C "s_portfolio s'" "s_portfolio s4"] by (simp add: ready_def)
qed

lemma bars_book:
  assumes "portfolio_contract C" and "fold_do (barStep C V sid X env) [t..<n] (s, ov) = Inr (s', ov')" and "t \<le> n"
    and "ready C (en_symbol env) t s"
  shows "ready C (en_symbol env) n s'"
  using assms(2-4)
proof (induction "n - t" arbitrary: t s ov)
  case (Suc d)
  hence "[t..<n] = t # [Suc t..<n]" by (simp add: upt_conv_Cons)
  then obtain s1 ov1 where "barStep C V sid X env t (s, ov) = Inr (s1, ov1)"
    and "fold_do (barStep C V sid X env) [Suc t..<n] (s1, ov1) = Inr (s', ov')"
    using Suc.prems(1) by (auto simp: then_do_eq_Inr)
  thus ?case using Suc barStep_book [OF assms(1)] by (metis Suc_diff_Suc Suc_leI Suc_inject zero_less_Suc zero_less_diff)
qed simp

text \<open>Claim C1. Every order of a simulated symbol is executed exactly once or expires.  When the pass over a symbol
  ends, its order ids are distinct, and the orders are, in order, the executed ones, each with exactly one fill,
  which comes at the next bar after the decision (on the deciding bar for a protection order and under same-bar
  execution), followed by at most one expired order, and that one was decided on the last bar, under next-bar
  execution only.  No order is left pending, none is filled early or twice.\<close>

theorem orders_accounted:
  assumes "portfolio_contract C" and "runSymbol C V sid X env (s, ov) = Inr (r, ov')" and "en_maxBars env = None"
    and "c_pending C (s_portfolio s) = None" and "s_acc s = emptyAcc"
  shows "distinct (map o_id (orders (s_acc r))) \<and>
    (\<exists>os late. orders (s_acc r) = os @ late \<and>
       list_all2 (\<lambda>x f. o_status x = O_filled \<and> f_orderId f = o_id x \<and>
          f_fillBarIndex f = o_decisionBarIndex x + (if o_protection x \<or> x_settlesSameBar C then 0 else 1)) os (fills (s_acc r)) \<and>
       (late = [] \<or> (\<exists>x. late = [x] \<and> o_status x = O_expired \<and> Suc (o_decisionBarIndex x) = length (en_candles env) \<and>
          \<not> x_settlesSameBar C)))"
proof (cases "en_candles env = []")
  case True
  thus ?thesis using assms by (auto simp: runSymbol_def emptyAcc_def)
next
  case False
  let ?sy = "en_symbol env" and ?n = "length (en_candles env)" and ?same = "x_settlesSameBar C"
  obtain s0 s2 ov2 where i: "initSymbol C X env s = Inr s0" and l: "symbolLoop C V sid X env 0 (s0, ov) = Inr (s2, ov2)"
    and f: "finalizeSymbol C X env s2 = Inr r"
    using assms(2) False by (auto simp: runSymbol_def then_do_eq_Inr)
  have "ready C ?sy 0 s0"
    using i assms(4,5) by (auto simp: initSymbol_def then_do_eq_Inr ready_def book_def indexed_def decided_before_def quiet_def emptyAcc_def)
  hence rd: "ready C ?sy ?n s2"
    using bars_book [OF assms(1)] l symbolLoop_fold [OF assms(3)] by (metis le0)
  have ex: "fst (c_expirePending C (s_portfolio s2)) = c_pending C (s_portfolio s2)"
    using assms(1) by (simp add: portfolio_contract_def)
  have exec: "(\<lambda>x f. o_status x = O_filled \<and> f_orderId f = o_id x \<and>
          f_fillBarIndex f = o_decisionBarIndex x + (if o_protection x \<or> ?same then 0 else 1)) = executed ?same"
    by (simp add: executed_def fun_eq_iff)
  show ?thesis unfolding exec
  proof (cases "c_pending C (s_portfolio s2)")
    case None
    hence "orders (s_acc r) = orders (s_acc s2)" "fills (s_acc r) = fills (s_acc s2)"
      using f ex by (auto simp: finalizeSymbol_def then_do_eq_Inr Let_def case_prod_unfold pushTrade_def split: option.splits)
    moreover have "indexed ?sy (s_acc s2)" "quiet ?same (s_acc s2)" using rd None by (auto simp: ready_def book_def open_book_def)
    ultimately show "distinct (map o_id (orders (s_acc r))) \<and> (\<exists>os late. orders (s_acc r) = os @ late \<and>
       list_all2 (executed ?same) os (fills (s_acc r)) \<and>
       (late = [] \<or> (\<exists>x. late = [x] \<and> o_status x = O_expired \<and> Suc (o_decisionBarIndex x) = ?n \<and> \<not> ?same)))"
      by (auto simp: indexed_def quiet_def)
  next
    case (Some pn)
    hence o: "open_book C ?sy (?n - 1) (s_portfolio s2) (s_acc s2)" "\<not> ?same" using rd by (auto simp: ready_def book_def)
    hence ix: "indexed ?sy (s_acc s2)" and w: "awaiting ?same pn (s_acc s2)" and dec: "Suc (pn_decisionBarIndex pn) = ?n"
      using Some False by (auto simp: open_book_def)
    obtain os x where x: "orders (s_acc s2) = os @ [x]" "list_all2 (executed ?same) os (fills (s_acc s2))" "o_id x = pn_id pn"
        "o_decisionBarIndex x = pn_decisionBarIndex pn"
      using w by (auto simp: awaiting_def)
    have "findOrder (s_acc s2) (o_id (orders (s_acc s2) ! length os)) = Some (length os)"
      using ix x(1) unfolding indexed_def by (metis length_append_singleton lessI)
    hence "findOrder (s_acc s2) (pn_id pn) = Some (length os)" using x(1,3) by simp
    hence "orders (s_acc r) = os @ [x\<lparr>o_status := O_expired\<rparr>]" "fills (s_acc r) = fills (s_acc s2)"
      using f ex Some x(1)
      by (auto simp: finalizeSymbol_def then_do_eq_Inr Let_def case_prod_unfold pushTrade_def setOrderStatus_def split: option.splits)
    moreover have "distinct (map o_id (orders (s_acc s2)))" using ix unfolding indexed_def by blast
    hence "distinct (map o_id (os @ [x]))" using x(1) by simp
    ultimately show "distinct (map o_id (orders (s_acc r))) \<and> (\<exists>os late. orders (s_acc r) = os @ late \<and>
       list_all2 (executed ?same) os (fills (s_acc r)) \<and>
       (late = [] \<or> (\<exists>x. late = [x] \<and> o_status x = O_expired \<and> Suc (o_decisionBarIndex x) = ?n \<and> \<not> ?same)))"
      using x dec o(2) by (intro conjI exI [of _ os] exI [of _ "[x\<lparr>o_status := O_expired\<rparr>]"]) auto
  qed
qed

end
