(* ===== verification/Bar_Major.thy ===== *)
theory Bar_Major
  imports Bar_Merge Order_Book
begin

text \<open>
  \<open>engine/runner.ts\<close>, the simulation of a target over its symbols: one symbol after the other on one account, or
  (bar-major) every symbol on an account of its own, interleaved by the union of their timestamps and merged.  The
  candles and the funding columns are those of the dataset; \<open>fresh\<close> is the module a symbol starts with (its factory
  applied to the parameters, with a new generator), \<open>parseTf\<close> the core's timeframe parser, \<open>add\<close> the addition of
  two equities.
\<close>

record market_tape =
  mt_timeframe :: string
  mt_funding :: "string \<Rightarrow> funding_column option"

text \<open>The first half of \<open>buildBarEnv\<close>; its second half is \<open>initSymbol\<close>.\<close>

definition symbolEnv :: "'p core \<Rightarrow> (string \<Rightarrow> int option) \<Rightarrow> string \<Rightarrow> bar list \<Rightarrow> resolved_overlay list \<times> resolved_overlay list \<Rightarrow>
    market_tape option \<Rightarrow> int option \<Rightarrow> engine_error + bar_env" where
  "symbolEnv C parseTf symbol candles ovs tape maxBars = (
     let fundingCol = (if x_fundingEnabled C then (case tape of None \<Rightarrow> None | Some t \<Rightarrow> mt_funding t symbol) else None);
         mk = (\<lambda>cadence. \<lparr>en_symbol = symbol, en_candles = candles, en_entry = fst ovs, en_post = snd ovs,
           en_funding = fundingCol, en_cadenceMinutes = cadence, en_maxBars = maxBars\<rparr>)
     in case tape of
          Some t \<Rightarrow> if x_fundingEnabled C
            then (case parseTf (mt_timeframe t) of None \<Rightarrow> Inl (Bad_timeframe (mt_timeframe t)) | Some ms \<Rightarrow> Inr (mk (of_int ms / 60000)))
            else Inr (mk 1)
        | None \<Rightarrow> Inr (mk 1))"

definition freshState :: "'p core \<Rightarrow> 'm \<Rightarrow> ('p, 'm) sym_state" where
  "freshState C m = \<lparr>s_portfolio = c_new C, s_acc = emptyAcc, s_module = m\<rparr>"

subsection \<open>The bar-major driver\<close>

definition addAt :: "nat \<Rightarrow> ms \<Rightarrow> (ms \<times> nat list) list \<Rightarrow> (ms \<times> nat list) list" where
  "addAt s ts m = (case map_of m ts of
     None \<Rightarrow> AList.update ts [s] m
   | Some here \<Rightarrow> if List.last here \<noteq> s then AList.update ts (here @ [s]) m else m)"

fun indexSymbols :: "nat \<Rightarrow> bar_env list \<Rightarrow> (ms \<times> nat list) list \<Rightarrow> (ms \<times> nat list) list" where
  "indexSymbols s [] m = m"
| "indexSymbols s (env # envs) m = indexSymbols (Suc s) envs (fold (\<lambda>c. addAt s (b_ts c)) (en_candles env) m)"

definition symbolsAtTs :: "bar_env list \<Rightarrow> (ms \<times> nat list) list" where
  "symbolsAtTs envs = indexSymbols 0 envs []"

text \<open>The cursors and states of the symbols, with the state the overlays share.\<close>

type_synonym ('p, 'm, 'o) basket = "(nat \<times> ('p, 'm) sym_state) list \<times> 'o"

definition atBar :: "bar_env \<Rightarrow> nat \<Rightarrow> ms \<Rightarrow> bool" where
  "atBar env t ts = (t < length (en_candles env) \<and> b_ts (en_candles env ! t) = ts)"

text \<open>Slice A: a symbol's whole bar, one symbol after the other.\<close>

definition visitBar :: "'p core \<Rightarrow> validator \<Rightarrow> string \<Rightarrow> ('m, 'o) executor \<Rightarrow> bar_env list \<Rightarrow> ms \<Rightarrow> nat \<Rightarrow>
    ('p, 'm, 'o) basket \<Rightarrow> engine_error + ('p, 'm, 'o) basket" where
  "visitBar C V sid X envs ts s = (\<lambda>(xs, ov). (let (t, st) = xs ! s in
     if \<not> atBar (envs ! s) t ts then Inr (xs, ov)
     else then_do (barStep C V sid X (envs ! s) t (st, ov)) (\<lambda>(st', ov'). Inr (xs[s := (Suc t, st')], ov'))))"

text \<open>Slice B: the stages before the hook for every present symbol, one call for all the hooks, then the rest.\<close>

type_synonym active = "nat \<times> nat \<times> bar_context"

definition collectBar :: "'p core \<Rightarrow> bar_env list \<Rightarrow> ms \<Rightarrow> nat \<Rightarrow>
    active list \<times> ('p, 'm, 'o) basket \<Rightarrow> engine_error + active list \<times> ('p, 'm, 'o) basket" where
  "collectBar C envs ts s = (\<lambda>(act, xs, ov). (let (t, st) = xs ! s in
     if \<not> atBar (envs ! s) t ts then Inr (act, xs, ov)
     else then_do (preBar C (envs ! s) t (st, ov)) (\<lambda>(st', ov').
          then_do (contextAt C (envs ! s) t (s_portfolio st')) (\<lambda>ctx.
          Inr (act @ [(s, t, ctx)], xs[s := (Suc t, st')], ov')))))"

text \<open>\<open>executeStrategyHookBarMajor\<close> of the in-process executor (and of the per-symbol sandbox): a loop.\<close>

fun executeStrategyHookBarMajor :: "('m, 'o) executor \<Rightarrow> (bar_context \<times> 'm) list \<Rightarrow> engine_error + (decision \<times> 'm) list" where
  "executeStrategyHookBarMajor X [] = Inr []"
| "executeStrategyHookBarMajor X ((ctx, m) # items) =
     then_do (h_hook X On_bar_close ctx m) (\<lambda>(ds, m').
     then_do (executeStrategyHookBarMajor X items) (\<lambda>out. Inr ((firstDecision ds, m') # out)))"

definition processActive :: "'p core \<Rightarrow> validator \<Rightarrow> string \<Rightarrow> ('m, 'o) executor \<Rightarrow> bar_env list \<Rightarrow> active \<times> decision \<times> 'm \<Rightarrow>
    ('p, 'm, 'o) basket \<Rightarrow> engine_error + ('p, 'm, 'o) basket" where
  "processActive C V sid X envs = (\<lambda>((s, t, ctx), base, m) (xs, ov). (let (t1, st) = xs ! s in
     then_do (processBar C V sid X (envs ! s) t (Some base) ctx (st\<lparr>s_module := m\<rparr>, ov)) (\<lambda>(st', ov').
       Inr (xs[s := (t1, st')], ov'))))"

definition batchTs :: "'p core \<Rightarrow> validator \<Rightarrow> string \<Rightarrow> ('m, 'o) executor \<Rightarrow> bar_env list \<Rightarrow> ms \<Rightarrow> nat list \<Rightarrow>
    ('p, 'm, 'o) basket \<Rightarrow> engine_error + ('p, 'm, 'o) basket" where
  "batchTs C V sid X envs ts present b =
     then_do (fold_do (collectBar C envs ts) present ([], b)) (\<lambda>(act, xs, ov).
     if act = [] then Inr (xs, ov)
     else then_do (executeStrategyHookBarMajor X (map (\<lambda>(s, t, ctx). (ctx, s_module (snd (xs ! s)))) act)) (\<lambda>bases.
          fold_do (processActive C V sid X envs) (zip act bases) (xs, ov)))"

definition barMajorTs :: "'p core \<Rightarrow> validator \<Rightarrow> string \<Rightarrow> ('m, 'o) executor \<Rightarrow> bool \<Rightarrow> bar_env list \<Rightarrow> ms \<times> nat list \<Rightarrow>
    ('p, 'm, 'o) basket \<Rightarrow> engine_error + ('p, 'm, 'o) basket" where
  "barMajorTs C V sid X batch envs = (\<lambda>(ts, present) b.
     if batch then batchTs C V sid X envs ts present b else fold_do (visitBar C V sid X envs ts) present b)"

text \<open>Phase 1: an environment and an initialised state for every symbol that has data.\<close>

fun setupSymbols :: "'p core \<Rightarrow> ('m, 'o) executor \<Rightarrow> (string \<Rightarrow> int option) \<Rightarrow> (string \<Rightarrow> bar list) \<Rightarrow> (string \<Rightarrow> 'm) \<Rightarrow>
    resolved_overlay list \<times> resolved_overlay list \<Rightarrow> market_tape option \<Rightarrow> string list \<Rightarrow>
    engine_error + (bar_env \<times> ('p, 'm) sym_state) list" where
  "setupSymbols C X parseTf data fresh ovs tape [] = Inr []"
| "setupSymbols C X parseTf data fresh ovs tape (symbol # symbols) = (
     if data symbol = [] then setupSymbols C X parseTf data fresh ovs tape symbols
     else then_do (symbolEnv C parseTf symbol (data symbol) ovs tape None) (\<lambda>env.
          then_do (initSymbol C X env (freshState C (fresh symbol))) (\<lambda>st.
          then_do (setupSymbols C X parseTf data fresh ovs tape symbols) (\<lambda>rest. Inr ((env, st) # rest)))))"

fun finalizeAll :: "'p core \<Rightarrow> ('m, 'o) executor \<Rightarrow> (bar_env \<times> ('p, 'm) sym_state) list \<Rightarrow> engine_error + ('p, 'm) sym_state list" where
  "finalizeAll C X [] = Inr []"
| "finalizeAll C X ((env, st) # rest) = then_do (finalizeSymbol C X env st) (\<lambda>st'.
     then_do (finalizeAll C X rest) (\<lambda>sts. Inr (st' # sts)))"

definition timeline :: "bar_env list \<Rightarrow> (ms \<times> nat list) list" where
  "timeline envs = map (\<lambda>ts. (ts, the (map_of (symbolsAtTs envs) ts))) (sort (map fst (symbolsAtTs envs)))"

definition runBarMajor :: "'p core \<Rightarrow> validator \<Rightarrow> string \<Rightarrow> ('m, 'o) executor \<Rightarrow> (jsnum \<Rightarrow> jsnum \<Rightarrow> jsnum) \<Rightarrow> (string \<Rightarrow> int option) \<Rightarrow>
    (string \<Rightarrow> bar list) \<Rightarrow> (string \<Rightarrow> 'm) \<Rightarrow> resolved_overlay list \<times> resolved_overlay list \<Rightarrow> market_tape option \<Rightarrow> bool \<Rightarrow>
    string list \<Rightarrow> 'o \<Rightarrow> engine_error + (run_accumulators \<times> nat) \<times> 'o" where
  "runBarMajor C V sid X add parseTf data fresh ovs tape batch symbols ov =
     then_do (setupSymbols C X parseTf data fresh ovs tape symbols) (\<lambda>qs.
     let envs = map fst qs in
     then_do (fold_do (barMajorTs C V sid X batch envs) (timeline envs) (map (\<lambda>(env, st). (0, st)) qs, ov)) (\<lambda>(xs, ov').
     then_do (finalizeAll C X (zip envs (map snd xs))) (\<lambda>sts.
     then_do (mergeAccumulators add (map s_acc sts)) (\<lambda>merged.
     Inr ((indexOrders (orders merged) merged, sum_list (map (\<lambda>env. length (en_candles env)) envs)), ov')))))"

subsection \<open>One account after the other\<close>

fun symbolMajor :: "'p core \<Rightarrow> validator \<Rightarrow> string \<Rightarrow> ('m, 'o) executor \<Rightarrow> (string \<Rightarrow> int option) \<Rightarrow> (string \<Rightarrow> bar list) \<Rightarrow>
    (string \<Rightarrow> 'm) \<Rightarrow> resolved_overlay list \<times> resolved_overlay list \<Rightarrow> market_tape option \<Rightarrow> int option \<Rightarrow> string list \<Rightarrow>
    ('p \<times> run_accumulators) \<times> 'o \<Rightarrow> engine_error + ('p \<times> run_accumulators) \<times> 'o" where
  "symbolMajor C V sid X parseTf data fresh ovs tape maxBars [] s = Inr s"
| "symbolMajor C V sid X parseTf data fresh ovs tape maxBars (symbol # symbols) ((p, acc), ov) = (
     if data symbol = [] then symbolMajor C V sid X parseTf data fresh ovs tape maxBars symbols ((p, acc), ov)
     else then_do (symbolEnv C parseTf symbol (data symbol) ovs tape maxBars) (\<lambda>env.
          then_do (runSymbol C V sid X env (\<lparr>s_portfolio = p, s_acc = acc, s_module = fresh symbol\<rparr>, ov)) (\<lambda>(r, ov').
          symbolMajor C V sid X parseTf data fresh ovs tape maxBars symbols ((s_portfolio r, s_acc r), ov'))))"

text \<open>\<open>simulateTarget\<close> up to the assembly of the result: the accumulators and the number of bars.\<close>

definition simulateTarget :: "'p core \<Rightarrow> validator \<Rightarrow> string \<Rightarrow> ('m, 'o) executor \<Rightarrow> (jsnum \<Rightarrow> jsnum \<Rightarrow> jsnum) \<Rightarrow> (string \<Rightarrow> int option) \<Rightarrow>
    (string \<Rightarrow> bar list) \<Rightarrow> (string \<Rightarrow> 'm) \<Rightarrow> resolved_overlay list \<Rightarrow> market_tape option \<Rightarrow> int option \<Rightarrow> bool \<Rightarrow> bool \<Rightarrow>
    string list \<Rightarrow> 'o \<Rightarrow> engine_error + (run_accumulators \<times> nat) \<times> 'o" where
  "simulateTarget C V sid X add parseTf data fresh overlays tape maxBars barMajor barMajorBatch symbols ov = (
     let ovs = splitOverlays overlays in
     if barMajor \<and> length symbols > 1
     then runBarMajor C V sid X add parseTf data fresh ovs tape barMajorBatch symbols ov
     else then_do (symbolMajor C V sid X parseTf data fresh ovs tape maxBars symbols ((c_new C, emptyAcc), ov)) (\<lambda>((p, acc), ov').
          Inr ((acc, sum_list (map (\<lambda>symbol. length (data symbol)) symbols)), ov')))"

end
