(* ===== verification/Bar_Major_Facts.thy ===== *)
theory Bar_Major_Facts
  imports Bar_Major
begin

text \<open>
  Bar-major against one simulation per symbol.  A fold over events that each touch one component succeeds exactly when
  every component's own fold does (\<open>fold_components\<close>); on strictly increasing timestamps the events of a symbol are its
  bars in order; and collecting the hooks of a timestamp into one call does not change what succeeds.
\<close>

subsection \<open>Folds over components\<close>

lemma fold_components:
  assumes "\<And>e. e \<in> set es \<Longrightarrow> site e < length xs"
  shows "fold_do (\<lambda>e xs. then_do (g e (xs ! site e)) (\<lambda>x. Inr (xs[site e := x]))) es xs = Inr ys \<longleftrightarrow>
    length ys = length xs \<and> (\<forall>i < length xs. fold_do g [e \<leftarrow> es. site e = i] (xs ! i) = Inr (ys ! i))"
  using assms
proof (induction es arbitrary: xs)
  case Nil
  thus ?case by (auto intro: nth_equalityI)
next
  case (Cons e es)
  show ?case
  proof (cases "g e (xs ! site e)")
    case (Inl err)
    thus ?thesis using Cons.prems [of e] by force
  next
    case (Inr x)
    have "fold_do g [e' \<leftarrow> es. site e' = i] (xs[site e := x] ! i) = fold_do g [e' \<leftarrow> e # es. site e' = i] (xs ! i)"
      if "i < length xs" for i
      using that Inr by (cases "site e = i") simp_all
    thus ?thesis using Inr Cons.IH [of "xs[site e := x]"] Cons.prems by simp
  qed
qed

lemma fold_do_iff:
  assumes "\<And>x s r. x \<in> set xs \<Longrightarrow> P s \<Longrightarrow> f x s = Inr r \<longleftrightarrow> g x s = Inr r"
    and "\<And>x s r. x \<in> set xs \<Longrightarrow> P s \<Longrightarrow> g x s = Inr r \<Longrightarrow> P r" and "P s"
  shows "fold_do f xs s = Inr r \<longleftrightarrow> fold_do g xs s = Inr r"
  using assms
proof (induction xs arbitrary: s)
  case (Cons x xs)
  have "fold_do f xs s' = Inr r \<longleftrightarrow> fold_do g xs s' = Inr r" if "g x s = Inr s'" for s'
    by (rule Cons.IH) (meson Cons.prems list.set_intros that)+
  thus ?case using Cons.prems(1) [of x s] Cons.prems(3) by (auto simp: then_do_eq_Inr)
qed simp

subsection \<open>Without overlays the shared state plays no part\<close>

definition oblivious :: "('s \<times> 'o \<Rightarrow> 'e + 's \<times> 'o) \<Rightarrow> bool" where
  "oblivious f = (\<exists>g. \<forall>s ov. f (s, ov) = then_do (g s) (\<lambda>s'. Inr (s', ov)))"

definition comp1 :: "('s \<times> 'o \<Rightarrow> 'e + 's \<times> 'o) \<Rightarrow> 's \<Rightarrow> 'e + 's" where
  "comp1 f s = then_do (f (s, undefined)) (\<lambda>r. Inr (fst r))"

lemma oblivious_comp1: "oblivious f \<Longrightarrow> f (s, ov) = then_do (comp1 f s) (\<lambda>s'. Inr (s', ov))"
  unfolding oblivious_def comp1_def by (auto simp: then_do_assoc)

lemma oblivious_then:
  assumes "oblivious f" and "oblivious h" shows "oblivious (\<lambda>s. then_do (f s) h)"
proof -
  obtain g k where "\<forall>s ov. f (s, ov) = then_do (g s) (\<lambda>s'. Inr (s', ov))" "\<forall>s ov. h (s, ov) = then_do (k s) (\<lambda>s'. Inr (s', ov))"
    using assms unfolding oblivious_def by blast
  hence "\<forall>s ov. then_do (f (s, ov)) h = then_do (then_do (g s) k) (\<lambda>s'. Inr (s', ov))" by (simp add: then_do_assoc)
  thus ?thesis unfolding oblivious_def by (intro exI [of _ "\<lambda>s. then_do (g s) k"]) simp
qed

lemma obliviousI: "(\<And>s ov. f (s, ov) = then_do (g s) (\<lambda>s'. Inr (s', ov))) \<Longrightarrow> oblivious f"
  unfolding oblivious_def by blast

definition noOverlays :: "bar_env \<Rightarrow> bool" where
  "noOverlays env = (en_entry env = [] \<and> en_post env = [])"

lemma oblivious_entry: "noOverlays env \<Longrightarrow> oblivious (entryStage C V sid X env t base ctx)"
  by (rule obliviousI [where g = "\<lambda>s. composed (applyEntry C env t (cp_final (withoutOverlays (orElse base IDLE_DECISION)))) env t
        On_bar_close ''onBarClose'' (orElse base IDLE_DECISION) (withoutOverlays (orElse base IDLE_DECISION)) s"])
     (simp add: entryStage_def composeAt_def noOverlays_def)

lemma oblivious_position:
  assumes "noOverlays env" shows "oblivious (positionStage C V sid X env t)"
proof (rule obliviousI)
  show "positionStage C V sid X env t (s, ov) = then_do (if c_position C (s_portfolio s) \<noteq> None \<and> h_hasPositionHook X
      then then_do (buildContext env t (stateAt C (s_portfolio s) (b_close (en_candles env ! t)))) (\<lambda>ctx.
        then_do (h_hook X On_position_bar ctx (s_module s)) (\<lambda>(ds, m).
        composed (applyPositionDecision C env t (cp_final (withoutOverlays (firstDecision ds)))) env t On_position_bar
          ''onPositionBar'' (firstDecision ds) (withoutOverlays (firstDecision ds)) (s\<lparr>s_module := m\<rparr>)))
      else Inr s) (\<lambda>s'. Inr (s', ov))" for s ov
    using assms by (auto simp: positionStage_def composeAt_def noOverlays_def then_do_assoc case_prod_unfold intro!: then_do_cong)
qed

lemma oblivious_rest:
  "oblivious (\<lambda>(s, ov). then_do (f s) (\<lambda>s'. Inr (s', ov)))"
  unfolding oblivious_def by auto

lemma oblivious_processBar:
  assumes "noOverlays env" shows "oblivious (processBar C V sid X env t base ctx)"
proof -
  let ?tail = "\<lambda>(s2, ov). then_do (then_do (onPortfolio (sameBarStage C env t) s2) (\<lambda>s3.
     then_do (onPortfolio (chargeFunding C env t) s3) (\<lambda>s4. Inr (equityStage C env t s4)))) (\<lambda>s'. Inr (s', ov))"
  have "processBar C V sid X env t base ctx = (\<lambda>s. then_do (then_do (entryStage C V sid X env t base ctx s) (positionStage C V sid X env t)) ?tail)"
    by (auto simp: processBar_def fun_eq_iff then_do_assoc case_prod_unfold intro!: then_do_cong)
  thus ?thesis using oblivious_then [OF oblivious_then [OF oblivious_entry [OF assms] oblivious_position [OF assms]] oblivious_rest] by simp
qed

lemma processBar_ov: "noOverlays env \<Longrightarrow> processBar C V sid X env t base ctx (s, ov) =
    then_do (comp1 (processBar C V sid X env t base ctx) s) (\<lambda>s'. Inr (s', ov))"
  by (rule oblivious_comp1) (rule oblivious_processBar)

lemma oblivious_barStep:
  assumes "noOverlays env" shows "oblivious (barStep C V sid X env t)"
proof (rule obliviousI)
  show "barStep C V sid X env t (s, ov) = then_do (then_do (preBarStages C env t s) (\<lambda>s1.
     then_do (contextAt C env t (s_portfolio s1)) (\<lambda>ctx. then_do (h_hook X On_bar_close ctx (s_module s1)) (\<lambda>(ds, m).
       comp1 (processBar C V sid X env t (Some (firstDecision ds)) ctx) (s1\<lparr>s_module := m\<rparr>))))) (\<lambda>s'. Inr (s', ov))" for s ov
    by (simp add: barStep_def preBar_def lockstepBar_def then_do_assoc processBar_ov [OF assms] case_prod_unfold)
qed

abbreviation bar1 :: "'p core \<Rightarrow> validator \<Rightarrow> string \<Rightarrow> ('m, 'o) executor \<Rightarrow> bar_env \<Rightarrow> nat \<Rightarrow> ('p, 'm) sym_state \<Rightarrow> engine_error + ('p, 'm) sym_state" where
  "bar1 C V sid X env t \<equiv> comp1 (barStep C V sid X env t)"

lemma fold_barStep_ov:
  assumes "noOverlays env"
  shows "fold_do (barStep C V sid X env) ts (s, ov) = then_do (fold_do (bar1 C V sid X env) ts s) (\<lambda>s'. Inr (s', ov))"
  by (induction ts arbitrary: s) (simp_all add: oblivious_comp1 [OF oblivious_barStep [OF assms]] then_do_assoc)

lemma runSymbol_ov:
  assumes "noOverlays env" and "en_maxBars env = None" and "en_candles env \<noteq> []"
  shows "runSymbol C V sid X env (s, ov) = then_do (initSymbol C X env s) (\<lambda>s1.
     then_do (fold_do (bar1 C V sid X env) [0..<length (en_candles env)] s1) (\<lambda>s2.
     then_do (finalizeSymbol C X env s2) (\<lambda>s3. Inr (s3, ov))))"
  using assms by (simp add: runSymbol_def symbolLoop_fold fold_barStep_ov then_do_assoc)

subsection \<open>The timeline\<close>

definition look :: "(ms \<times> nat list) list \<Rightarrow> ms \<Rightarrow> nat list" where
  "look m ts = (case map_of m ts of None \<Rightarrow> [] | Some l \<Rightarrow> l)"

definition index_ok :: "(ms \<times> nat list) list \<Rightarrow> bool" where
  "index_ok m = (distinct (map fst m) \<and> (\<forall>ts \<in> set (map fst m). look m ts \<noteq> []))"

lemma index_ok_keys: "index_ok m \<Longrightarrow> ts \<in> set (map fst m) \<longleftrightarrow> look m ts \<noteq> []"
proof
  show "index_ok m \<Longrightarrow> ts \<in> set (map fst m) \<Longrightarrow> look m ts \<noteq> []" unfolding index_ok_def by blast
  assume "look m ts \<noteq> []"
  hence "map_of m ts \<noteq> None" by (auto simp: look_def split: option.splits)
  thus "ts \<in> set (map fst m)" by (simp add: map_of_eq_None_iff)
qed

lemma look_map_of:
  assumes "index_ok m" shows "map_of m ts = (if look m ts = [] then None else Some (look m ts))"
proof (cases "map_of m ts")
  case (Some l)
  hence "ts \<in> set (map fst m)" by (metis map_of_eq_None_iff option.distinct(1) set_map)
  hence "look m ts \<noteq> []" using index_ok_keys [OF assms] by blast
  thus ?thesis using Some by (simp add: look_def)
qed (simp add: look_def)

lemma addAt_look:
  assumes "index_ok m" and "s \<in> set (look m ts) \<Longrightarrow> List.last (look m ts) = s"
  shows "look (addAt s ts m) ts' = (if ts' = ts \<and> s \<notin> set (look m ts) then look m ts @ [s] else look m ts')"
    and "index_ok (addAt s ts m)"
proof -
  have ne: "map_of m ts = Some l \<Longrightarrow> l \<noteq> []" for l
    using assms(1) index_ok_keys [of m ts] by (force simp: look_def dest: map_of_SomeD)
  have last_in: "map_of m ts = Some l \<Longrightarrow> List.last l = s \<longleftrightarrow> s \<in> set l" for l
    using ne [of l] assms(2) by (auto simp: look_def)
  show *: "look (addAt s ts m) ts' = (if ts' = ts \<and> s \<notin> set (look m ts) then look m ts @ [s] else look m ts')" for ts'
    using last_in by (auto simp: addAt_def look_def update_conv' split: option.splits)
  have "distinct (map fst (addAt s ts m))"
    using assms(1) by (auto simp: addAt_def index_ok_def distinct_update split: option.splits)
  moreover have "look (addAt s ts m) ts' \<noteq> []" if "ts' \<in> set (map fst (addAt s ts m))" for ts'
  proof -
    have "ts' = ts \<or> ts' \<in> set (map fst m)"
      using that by (auto simp: addAt_def update_conv' split: option.splits if_splits simp flip: dom_map_of_conv_image_fst)
    thus ?thesis using * [of ts'] assms index_ok_keys [OF assms(1), of ts'] by auto
  qed
  ultimately show "index_ok (addAt s ts m)" by (simp add: index_ok_def)
qed

lemma fold_addAt:
  assumes "index_ok m" and "\<And>ts. s \<in> set (look m ts) \<Longrightarrow> List.last (look m ts) = s"
  shows "index_ok (fold (\<lambda>c. addAt s (b_ts c)) cs m) \<and> (\<forall>ts. look (fold (\<lambda>c. addAt s (b_ts c)) cs m) ts =
     (if ts \<in> b_ts ` set cs \<and> s \<notin> set (look m ts) then look m ts @ [s] else look m ts))"
  using assms
proof (induction cs arbitrary: m)
  case (Cons c cs)
  note a = addAt_look [OF Cons.prems(1), of s "b_ts c"]
  have l: "s \<in> set (look (addAt s (b_ts c) m) ts) \<Longrightarrow> List.last (look (addAt s (b_ts c) m) ts) = s" for ts
    using a(1) [of ts] Cons.prems(2) by (auto split: if_splits)
  show ?case using Cons.IH [OF a(2) l] a(1) Cons.prems(2) by auto
qed simp

definition times_of :: "bar_env \<Rightarrow> ms set" where
  "times_of env = b_ts ` set (en_candles env)"

lemma indexSymbols_look:
  assumes "index_ok m" and "\<And>ts i. i \<in> set (look m ts) \<Longrightarrow> i < s"
  shows "index_ok (indexSymbols s envs m) \<and>
    (\<forall>ts. look (indexSymbols s envs m) ts = look m ts @ [i \<leftarrow> [s..<s + length envs]. ts \<in> times_of (envs ! (i - s))])"
  using assms
proof (induction envs arbitrary: s m)
  case (Cons env envs)
  let ?m = "fold (\<lambda>c. addAt s (b_ts c)) (en_candles env) m"
  have n: "s \<notin> set (look m ts)" for ts using Cons.prems(2) by blast
  hence f: "index_ok ?m" "\<And>ts. look ?m ts = (if ts \<in> times_of env then look m ts @ [s] else look m ts)"
    using fold_addAt [OF Cons.prems(1), of s "en_candles env"] by (auto simp: times_of_def)
  have "i < Suc s" if "i \<in> set (look ?m ts)" for ts i
    using that f(2) Cons.prems(2) [of i ts] by (auto split: if_splits)
  note IH = Cons.IH [OF f(1) this]
  have up: "[s..<s + length (env # envs)] = s # [Suc s..<Suc s + length envs]" by (simp add: upt_conv_Cons del: upt_Suc)
  have sh: "[i \<leftarrow> [Suc s..<Suc s + length envs]. ts \<in> times_of ((env # envs) ! (i - s))] =
      [i \<leftarrow> [Suc s..<Suc s + length envs]. ts \<in> times_of (envs ! (i - Suc s))]" for ts
    by (rule filter_cong) (auto simp: nth_Cons' Suc_diff_Suc)
  show ?case using IH f(2) unfolding up by (auto simp: sh [unfolded add_Suc] simp del: upt_Suc)
qed simp

lemma timeline_at:
  "map_of (symbolsAtTs envs) ts = (if [i \<leftarrow> [0..<length envs]. ts \<in> times_of (envs ! i)] = [] then None
     else Some [i \<leftarrow> [0..<length envs]. ts \<in> times_of (envs ! i)])"
  "distinct (map fst (symbolsAtTs envs))"
  "set (map fst (symbolsAtTs envs)) = (\<Union>env \<in> set envs. times_of env)"
proof -
  have *: "index_ok (symbolsAtTs envs)" "look (symbolsAtTs envs) ts = [i \<leftarrow> [0..<length envs]. ts \<in> times_of (envs ! i)]" for ts
  proof -
    have "index_ok []" "\<And>ts i. i \<in> set (look [] ts) \<Longrightarrow> i < (0 :: nat)" by (simp_all add: index_ok_def look_def)
    note l = indexSymbols_look [where envs = envs, OF this]
    show "index_ok (symbolsAtTs envs)" using l by (simp add: symbolsAtTs_def)
    have "look [] ts = []" by (simp add: look_def)
    thus "look (symbolsAtTs envs) ts = [i \<leftarrow> [0..<length envs]. ts \<in> times_of (envs ! i)]" for ts
      using l by (simp add: symbolsAtTs_def look_def)
  qed
  have keys: "ts \<in> set (map fst (symbolsAtTs envs)) \<longleftrightarrow> look (symbolsAtTs envs) ts \<noteq> []" for ts
    by (rule index_ok_keys [OF *(1)])
  show "map_of (symbolsAtTs envs) ts = (if [i \<leftarrow> [0..<length envs]. ts \<in> times_of (envs ! i)] = [] then None
     else Some [i \<leftarrow> [0..<length envs]. ts \<in> times_of (envs ! i)])"
    using look_map_of [OF *(1), of ts] *(2) by simp
  show "distinct (map fst (symbolsAtTs envs))" using *(1) by (simp add: index_ok_def)
  show "set (map fst (symbolsAtTs envs)) = (\<Union>env \<in> set envs. times_of env)"
  proof (rule set_eqI)
    fix t
    have "t \<in> set (map fst (symbolsAtTs envs)) \<longleftrightarrow> (\<exists>i < length envs. t \<in> times_of (envs ! i))"
      unfolding keys *(2) by (auto simp: filter_empty_conv)
    thus "t \<in> set (map fst (symbolsAtTs envs)) \<longleftrightarrow> t \<in> (\<Union>env \<in> set envs. times_of env)"
      by (metis UN_iff in_set_conv_nth)
  qed
qed

subsection \<open>One call for all the hooks\<close>

lemma visitBar_at:
  assumes "atBar (envs ! s) (fst (xs ! s)) ts" and "noOverlays (envs ! s)"
  shows "visitBar C V sid X envs ts s (xs, ov) = Inr r \<longleftrightarrow> (\<exists>st1 ctx ds m st2.
     preBarStages C (envs ! s) (fst (xs ! s)) (snd (xs ! s)) = Inr st1 \<and>
     contextAt C (envs ! s) (fst (xs ! s)) (s_portfolio st1) = Inr ctx \<and>
     h_hook X On_bar_close ctx (s_module st1) = Inr (ds, m) \<and>
     comp1 (processBar C V sid X (envs ! s) (fst (xs ! s)) (Some (firstDecision ds)) ctx) (st1\<lparr>s_module := m\<rparr>) = Inr st2 \<and>
     r = (xs[s := (Suc (fst (xs ! s)), st2)], ov))"
  using assms by (auto simp: visitBar_def Let_def case_prod_unfold barStep_def preBar_def lockstepBar_def then_do_eq_Inr processBar_ov)

lemma collect_frame:
  assumes "s \<notin> set L"
  shows "fold_do (collectBar C envs ts) L (a0 @ act, xs[s := z], ov) =
     then_do (fold_do (collectBar C envs ts) L (act, xs, ov)) (\<lambda>(act', xs', ov'). Inr (a0 @ act', xs'[s := z], ov'))"
  using assms
proof (induction L arbitrary: act xs ov)
  case (Cons u L)
  have u: "s \<noteq> u" "xs[s := z] ! u = xs ! u" using Cons.prems by auto
  have "collectBar C envs ts u (a0 @ act, xs[s := z], ov) =
     then_do (collectBar C envs ts u (act, xs, ov)) (\<lambda>(act', xs', ov'). Inr (a0 @ act', xs'[s := z], ov'))"
    using u by (auto simp: collectBar_def Let_def case_prod_unfold then_do_assoc list_update_swap)
  thus ?case using Cons by (simp add: then_do_assoc case_prod_unfold)
qed simp

lemma collect_sites:
  assumes "fold_do (collectBar C envs ts) L (act, xs, ov) = Inr (act', xs', ov')" and "\<And>u. u \<in> set L \<Longrightarrow> u < length xs"
  shows "fst ` set act' \<subseteq> fst ` set act \<union> set L \<and> length xs' = length xs \<and> (\<forall>i. i \<notin> set L \<longrightarrow> xs' ! i = xs ! i) \<and> ov' = ov"
  using assms
proof (induction L arbitrary: act xs ov)
  case (Cons u L)
  then obtain act1 xs1 ov1 where c: "collectBar C envs ts u (act, xs, ov) = Inr (act1, xs1, ov1)"
    and f: "fold_do (collectBar C envs ts) L (act1, xs1, ov1) = Inr (act', xs', ov')"
    by (auto simp: then_do_eq_Inr)
  have 1: "fst ` set act1 \<subseteq> insert u (fst ` set act)" "length xs1 = length xs" "\<And>i. i \<noteq> u \<Longrightarrow> xs1 ! i = xs ! i" "ov1 = ov"
    using c by (auto simp: collectBar_def Let_def case_prod_unfold then_do_eq_Inr preBar_def split: if_splits)
  have "fst ` set act' \<subseteq> fst ` set act1 \<union> set L \<and> length xs' = length xs1 \<and> (\<forall>i. i \<notin> set L \<longrightarrow> xs' ! i = xs1 ! i) \<and> ov' = ov1"
    using Cons.IH [OF f] Cons.prems(2) 1(2) by auto
  note r = this
  have "fst ` set act' \<subseteq> fst ` set act1 \<union> set L" using r by blast
  also have "\<dots> \<subseteq> insert u (fst ` set act) \<union> set L" using 1(1) by (rule Un_mono) simp
  finally show ?case using r 1(2-4) by auto
qed auto

lemma batchTs_eq: "batchTs C V sid X envs ts L b =
    then_do (fold_do (collectBar C envs ts) L ([], b)) (\<lambda>(act, xs, ov).
    then_do (executeStrategyHookBarMajor X (map (\<lambda>(s, t, ctx). (ctx, s_module (snd (xs ! s)))) act)) (\<lambda>bases.
    fold_do (processActive C V sid X envs) (zip act bases) (xs, ov)))"
  unfolding batchTs_def by (rule then_do_cong) (auto split: if_splits)

lemma batchTs_Cons:
  assumes "s \<notin> set L" and "s < length xs" and "\<And>u. u \<in> set L \<Longrightarrow> u < length xs" and "noOverlays (envs ! s)"
  shows "batchTs C V sid X envs ts (s # L) (xs, ov) = Inr r \<longleftrightarrow>
    (\<exists>b. visitBar C V sid X envs ts s (xs, ov) = Inr b \<and> batchTs C V sid X envs ts L b = Inr r)"
proof (cases "atBar (envs ! s) (fst (xs ! s)) ts")
  case False
  thus ?thesis by (auto simp: batchTs_eq collectBar_def visitBar_def Let_def case_prod_unfold)
next
  case True
  let ?t = "fst (xs ! s)"
  show ?thesis
  proof (cases "\<exists>st1 ctx. preBarStages C (envs ! s) ?t (snd (xs ! s)) = Inr st1 \<and> contextAt C (envs ! s) ?t (s_portfolio st1) = Inr ctx")
    case False
    hence "\<nexists>a. collectBar C envs ts s ([], xs, ov) = Inr a"
      using True by (auto simp: collectBar_def Let_def case_prod_unfold then_do_eq_Inr preBar_def)
    hence "\<nexists>r. batchTs C V sid X envs ts (s # L) (xs, ov) = Inr r" by (auto simp: batchTs_eq then_do_eq_Inr)
    thus ?thesis using visitBar_at [of envs s xs ts C V sid X ov, OF True assms(4)] False by blast
  next
    case pre: True
    then obtain st1 ctx where st1: "preBarStages C (envs ! s) ?t (snd (xs ! s)) = Inr st1"
      and ctx: "contextAt C (envs ! s) ?t (s_portfolio st1) = Inr ctx" by blast
    let ?xa = "xs[s := (Suc ?t, st1)]"
    have col: "collectBar C envs ts s ([], xs, ov) = Inr ([(s, ?t, ctx)], ?xa, ov)"
      using True st1 ctx by (simp add: collectBar_def Let_def case_prod_unfold preBar_def)
    have fr: "fold_do (collectBar C envs ts) L ([(s, ?t, ctx)], ?xa, ov) =
        then_do (fold_do (collectBar C envs ts) L ([], ?xa, ov)) (\<lambda>(act', xs', ov'). Inr ((s, ?t, ctx) # act', xs'[s := (Suc ?t, st1)], ov'))"
      using collect_frame [OF assms(1), of C envs ts "[(s, ?t, ctx)]" "[]" ?xa "(Suc ?t, st1)" ov] by simp
    have fr2: "fold_do (collectBar C envs ts) L ([], xs[s := z], ov) =
        then_do (fold_do (collectBar C envs ts) L ([], ?xa, ov)) (\<lambda>(act', xs', ov'). Inr (act', xs'[s := z], ov'))" for z
      using collect_frame [OF assms(1), of C envs ts "[]" "[]" ?xa z ov] by simp
    show ?thesis
    proof (cases "fold_do (collectBar C envs ts) L ([], ?xa, ov)")
      case (Inl e)
      hence "\<nexists>r. batchTs C V sid X envs ts (s # L) (xs, ov) = Inr r" using col fr by (auto simp: batchTs_eq)
      moreover have "\<nexists>r. batchTs C V sid X envs ts L (xs[s := z], ov) = Inr r" for z unfolding batchTs_eq fr2 [of z] Inl by simp
      moreover have "\<exists>z. b = (xs[s := z], ov)" if "visitBar C V sid X envs ts s (xs, ov) = Inr b" for b
        using visitBar_at [OF True assms(4), THEN iffD1, OF that] by blast
      ultimately show ?thesis by blast
    next
      case (Inr q)
      obtain act' xb ovb where q: "q = (act', xb, ovb)" by (cases q) auto
      have sites: "fst ` set act' \<subseteq> set L" "length xb = length xs" "ovb = ov"
        using collect_sites [OF Inr [unfolded q]] assms(3) by auto
      hence ns: "s \<notin> fst ` set act'" using assms(1) by auto
      have items: "map (\<lambda>(s', t, c). (c, s_module (snd (xb[s := z] ! s')))) act' = map (\<lambda>(s', t, c). (c, s_module (snd (xb ! s')))) act'" for z
      proof (rule map_cong [OF refl])
        fix e assume "e \<in> set act'"
        hence "fst e \<noteq> s" using ns by blast
        thus "(case e of (s', t, c) \<Rightarrow> (c, s_module (snd (xb[s := z] ! s')))) = (case e of (s', t, c) \<Rightarrow> (c, s_module (snd (xb ! s'))))"
          by (cases e) simp
      qed
      have e1: "fold_do (collectBar C envs ts) (s # L) ([], xs, ov) = Inr ((s, ?t, ctx) # act', xb[s := (Suc ?t, st1)], ov)"
        using col fr Inr q sites by simp
      have e2: "executeStrategyHookBarMajor X (map (\<lambda>(s', t, c). (c, s_module (snd (xb[s := (Suc ?t, st1)] ! s')))) ((s, ?t, ctx) # act')) =
          then_do (h_hook X On_bar_close ctx (s_module st1)) (\<lambda>(ds, m).
          then_do (executeStrategyHookBarMajor X (map (\<lambda>(s', t, c). (c, s_module (snd (xb ! s')))) act')) (\<lambda>out.
          Inr ((firstDecision ds, m) # out)))"
        unfolding list.map items [of "(Suc ?t, st1)"] using sites(2) assms(2) by simp
      have e3: "fold_do (processActive C V sid X envs) (zip ((s, ?t, ctx) # act') ((base, m) # bases)) (xb[s := (Suc ?t, st1)], ov) =
          then_do (comp1 (processBar C V sid X (envs ! s) ?t (Some base) ctx) (st1\<lparr>s_module := m\<rparr>)) (\<lambda>st2.
          fold_do (processActive C V sid X envs) (zip act' bases) (xb[s := (Suc ?t, st2)], ov))" for base m bases
        using sites(2) assms(2) by (simp add: processActive_def Let_def processBar_ov [OF assms(4)] then_do_assoc)
      have "batchTs C V sid X envs ts (s # L) (xs, ov) = Inr r \<longleftrightarrow> (\<exists>ds m bases st2.
          h_hook X On_bar_close ctx (s_module st1) = Inr (ds, m) \<and>
          executeStrategyHookBarMajor X (map (\<lambda>(s', t, c). (c, s_module (snd (xb ! s')))) act') = Inr bases \<and>
          comp1 (processBar C V sid X (envs ! s) ?t (Some (firstDecision ds)) ctx) (st1\<lparr>s_module := m\<rparr>) = Inr st2 \<and>
          fold_do (processActive C V sid X envs) (zip act' bases) (xb[s := (Suc ?t, st2)], ov) = Inr r)"
      proof -
        have "batchTs C V sid X envs ts (s # L) (xs, ov) = then_do (h_hook X On_bar_close ctx (s_module st1)) (\<lambda>q.
          then_do (executeStrategyHookBarMajor X (map (\<lambda>(s', t, c). (c, s_module (snd (xb ! s')))) act')) (\<lambda>bases.
          then_do (comp1 (processBar C V sid X (envs ! s) ?t (Some (firstDecision (fst q))) ctx) (st1\<lparr>s_module := snd q\<rparr>)) (\<lambda>st2.
          fold_do (processActive C V sid X envs) (zip act' bases) (xb[s := (Suc ?t, st2)], ov))))"
          unfolding batchTs_eq e1 then_do_simps prod.case e2 then_do_assoc
          by (rule then_do_cong [OF refl]) (simp only: case_prod_unfold then_do_assoc then_do_simps e3 [unfolded case_prod_unfold])
        thus ?thesis by (auto simp: then_do_eq_Inr)
      qed
      also have "\<dots> \<longleftrightarrow> (\<exists>b. visitBar C V sid X envs ts s (xs, ov) = Inr b \<and> batchTs C V sid X envs ts L b = Inr r)"
      proof -
        have v: "visitBar C V sid X envs ts s (xs, ov) = Inr b \<longleftrightarrow> (\<exists>ds m st2. h_hook X On_bar_close ctx (s_module st1) = Inr (ds, m) \<and>
            comp1 (processBar C V sid X (envs ! s) ?t (Some (firstDecision ds)) ctx) (st1\<lparr>s_module := m\<rparr>) = Inr st2 \<and>
            b = (xs[s := (Suc ?t, st2)], ov))" for b
          unfolding visitBar_at [OF True assms(4)] using st1 ctx by simp
        have w: "batchTs C V sid X envs ts L (xs[s := z], ov) = Inr r \<longleftrightarrow> (\<exists>bases.
            executeStrategyHookBarMajor X (map (\<lambda>(s', t, c). (c, s_module (snd (xb ! s')))) act') = Inr bases \<and>
            fold_do (processActive C V sid X envs) (zip act' bases) (xb[s := z], ov) = Inr r)" for z
          unfolding batchTs_eq fr2 [of z] Inr q using sites(3) by (simp add: items then_do_eq_Inr)
        show ?thesis unfolding v using w by blast
      qed
      finally show ?thesis .
    qed
  qed
qed

lemma batchTs_visit:
  assumes "distinct L" and "\<And>u. u \<in> set L \<Longrightarrow> u < length (fst b) \<and> noOverlays (envs ! u)"
  shows "batchTs C V sid X envs ts L b = Inr r \<longleftrightarrow> fold_do (visitBar C V sid X envs ts) L b = Inr r"
  using assms
proof (induction L arbitrary: b)
  case Nil
  thus ?case by (cases b) (auto simp: batchTs_eq)
next
  case (Cons s L)
  obtain xs ov where b: "b = (xs, ov)" by (cases b)
  have len: "length (fst b1) = length xs" if "visitBar C V sid X envs ts s (xs, ov) = Inr b1" for b1
    using that by (auto simp: visitBar_def Let_def case_prod_unfold then_do_eq_Inr split: if_splits)
  have "batchTs C V sid X envs ts (s # L) (xs, ov) = Inr r \<longleftrightarrow>
      (\<exists>b1. visitBar C V sid X envs ts s (xs, ov) = Inr b1 \<and> batchTs C V sid X envs ts L b1 = Inr r)"
    using Cons.prems b by (intro batchTs_Cons) auto
  also have "\<dots> \<longleftrightarrow> (\<exists>b1. visitBar C V sid X envs ts s (xs, ov) = Inr b1 \<and> fold_do (visitBar C V sid X envs ts) L b1 = Inr r)"
    using Cons.IH Cons.prems len b by (metis distinct.simps(2) fst_conv list.set_intros(2))
  finally show ?case using b by (simp add: then_do_eq_Inr)
qed

subsection \<open>The bars of one symbol\<close>

definition visit1 :: "'p core \<Rightarrow> validator \<Rightarrow> string \<Rightarrow> ('m, 'o) executor \<Rightarrow> bar_env list \<Rightarrow> ms \<times> nat \<Rightarrow>
    nat \<times> ('p, 'm) sym_state \<Rightarrow> engine_error + nat \<times> ('p, 'm) sym_state" where
  "visit1 C V sid X envs = (\<lambda>(ts, s) (t, st). if \<not> atBar (envs ! s) t ts then Inr (t, st)
     else then_do (bar1 C V sid X (envs ! s) t st) (\<lambda>st'. Inr (Suc t, st')))"

lemma visitBar_visit1:
  assumes "noOverlays (envs ! s)"
  shows "visitBar C V sid X envs ts s (xs, ov) =
    then_do (visit1 C V sid X envs (ts, s) (xs ! s)) (\<lambda>y. Inr (xs[s := y], ov))"
proof (cases "xs ! s")
  case (Pair t st)
  hence "xs[s := (t, st)] = xs" by (metis list_update_id)
  thus ?thesis using Pair
    by (simp add: visitBar_def visit1_def oblivious_comp1 [OF oblivious_barStep [OF assms]] then_do_assoc)
qed

lemma visits_events:
  assumes "\<And>ts u. (ts, u) \<in> set es \<Longrightarrow> noOverlays (envs ! u)"
  shows "fold_do (\<lambda>(ts, s). visitBar C V sid X envs ts s) es (xs, ov) =
    then_do (fold_do (\<lambda>e xs. then_do (visit1 C V sid X envs e (xs ! snd e)) (\<lambda>y. Inr (xs[snd e := y]))) es xs) (\<lambda>xs'. Inr (xs', ov))"
  using assms
proof (induction es arbitrary: xs)
  case (Cons e es)
  obtain ts u where e: "e = (ts, u)" by (cases e)
  have "noOverlays (envs ! u)" using Cons.prems [of ts u] e by simp
  note v = visitBar_visit1 [OF this]
  have IH: "fold_do (\<lambda>(ts, s). visitBar C V sid X envs ts s) es (xs', ov) =
      then_do (fold_do (\<lambda>e xs. then_do (visit1 C V sid X envs e (xs ! snd e)) (\<lambda>y. Inr (xs[snd e := y]))) es xs') (\<lambda>xs'. Inr (xs', ov))" for xs'
    by (rule Cons.IH) (meson Cons.prems list.set_intros(2))
  show ?case unfolding fold_do.simps e prod.case v snd_conv then_do_assoc by (simp add: IH)
qed simp

lemma symbol_visits:
  assumes "env = envs ! i" and "k \<le> length (en_candles env)"
  shows "fold_do (visit1 C V sid X envs) (map (\<lambda>ts. (ts, i)) (map b_ts (drop k (en_candles env)))) (k, st) =
    then_do (fold_do (bar1 C V sid X env) [k..<length (en_candles env)] st) (\<lambda>st'. Inr (length (en_candles env), st'))"
  using assms(2)
proof (induction "length (en_candles env) - k" arbitrary: k st)
  case (Suc d)
  have k: "k < length (en_candles env)" using Suc.hyps(2) by simp
  hence dr: "drop k (en_candles env) = en_candles env ! k # drop (Suc k) (en_candles env)" by (simp add: Cons_nth_drop_Suc)
  have up: "[k..<length (en_candles env)] = k # [Suc k..<length (en_candles env)]" using k by (simp add: upt_conv_Cons)
  have "fold_do (visit1 C V sid X envs) (map (\<lambda>ts. (ts, i)) (map b_ts (drop (Suc k) (en_candles env)))) (Suc k, st') =
      then_do (fold_do (bar1 C V sid X env) [Suc k..<length (en_candles env)] st') (\<lambda>st'. Inr (length (en_candles env), st'))" for st'
    using Suc k by simp
  thus ?case unfolding dr up using k assms(1) by (simp add: visit1_def atBar_def then_do_assoc)
qed simp

definition events :: "bar_env list \<Rightarrow> (ms \<times> nat) list" where
  "events envs = concat (map (\<lambda>(ts, present). map (Pair ts) present) (timeline envs))"

lemma timeline_entries:
  assumes "(ts, present) \<in> set (timeline envs)"
  shows "present = [i \<leftarrow> [0..<length envs]. ts \<in> times_of (envs ! i)]"
proof -
  have "ts \<in> set (map fst (symbolsAtTs envs))" and p: "present = the (map_of (symbolsAtTs envs) ts)"
    using assms by (auto simp: timeline_def)
  hence "map_of (symbolsAtTs envs) ts \<noteq> None" by (simp add: map_of_eq_None_iff)
  thus ?thesis using p timeline_at(1) [of envs ts] by (auto split: if_splits)
qed

lemma symbol_events:
  assumes "i < length envs" and "sorted_wrt (<) (map b_ts (en_candles (envs ! i)))"
  shows "[e \<leftarrow> events envs. snd e = i] = map (\<lambda>ts. (ts, i)) (map b_ts (en_candles (envs ! i)))"
proof -
  let ?cs = "map b_ts (en_candles (envs ! i))"
  have "[e \<leftarrow> concat (map (\<lambda>(ts, present). map (Pair ts) present) tl). snd e = i] =
      map (\<lambda>ts. (ts, i)) [ts \<leftarrow> map fst tl. ts \<in> times_of (envs ! i)]"
    if "set tl \<subseteq> set (timeline envs)" for tl
    using that
  proof (induction tl)
    case (Cons q tl)
    obtain ts present where q: "q = (ts, present)" by (cases q)
    have p: "present = [i \<leftarrow> [0..<length envs]. ts \<in> times_of (envs ! i)]"
      using Cons.prems q by (intro timeline_entries) simp
    have "[j \<leftarrow> present. j = i] = (if ts \<in> times_of (envs ! i) then [i] else [])"
    proof -
      have "[j \<leftarrow> [0..<length envs]. j = i] = [i]"
      proof -
        have "[0..<length envs] = [0..<i] @ i # [Suc i..<length envs]" using assms(1) upt_add_eq_append [of 0 i "length envs - i"]
          by (simp add: upt_conv_Cons)
        thus ?thesis by (auto simp: filter_empty_conv)
      qed
      moreover have "[j \<leftarrow> present. j = i] = (if ts \<in> times_of (envs ! i) then [j \<leftarrow> [0..<length envs]. j = i] else [])"
        unfolding p by (auto simp: filter_empty_conv intro: filter_cong)
      ultimately show ?thesis by simp
    qed
    hence "[e \<leftarrow> map (Pair ts) present. snd e = i] = (if ts \<in> times_of (envs ! i) then [(ts, i)] else [])"
      by (simp add: filter_map comp_def)
    thus ?case using Cons q by simp
  qed simp
  hence ev: "[e \<leftarrow> events envs. snd e = i] = map (\<lambda>ts. (ts, i)) [ts \<leftarrow> map fst (timeline envs). ts \<in> times_of (envs ! i)]"
    by (simp add: events_def)
  have "[ts \<leftarrow> map fst (timeline envs). ts \<in> times_of (envs ! i)] = ?cs"
  proof (rule sorted_distinct_set_unique)
    have T: "map fst (timeline envs) = sort (map fst (symbolsAtTs envs))" by (simp add: timeline_def comp_def)
    show "sorted [ts \<leftarrow> map fst (timeline envs). ts \<in> times_of (envs ! i)]"
      unfolding T by (simp add: sorted_filter [of "\<lambda>x. x", simplified])
    show "distinct [ts \<leftarrow> map fst (timeline envs). ts \<in> times_of (envs ! i)]"
      unfolding T using timeline_at(2) by simp
    show "sorted ?cs" "distinct ?cs" using assms(2) by (auto simp: strict_sorted_iff)
    have "times_of (envs ! i) \<subseteq> set (map fst (symbolsAtTs envs))"
      unfolding timeline_at(3) using nth_mem [OF assms(1)] by blast
    thus "set [ts \<leftarrow> map fst (timeline envs). ts \<in> times_of (envs ! i)] = set ?cs"
      unfolding T by (auto simp: times_of_def)
  qed
  thus ?thesis using ev by simp
qed

end
