(* ===== verification/Sandbox_Parity.thy ===== *)
theory Sandbox_Parity
  imports Sandbox_Batching Bar_Major_Facts
begin

text \<open>
  The sandboxed executor against the in-process one (\<open>engine/module-executor.ts\<close>), which calls the same module
  directly.  The harness sees no candles but the ones it was sent: the invariant is that its buffer and the
  bookkeeping of the host are the candles of the symbol up to the last bar that was called (\<open>seen\<close>), from which the
  context it rebuilds is the context of the host.
\<close>

definition trustedExecutor :: "'i harness \<Rightarrow> bool \<Rightarrow>
    (resolved_overlay \<Rightarrow> bar_context \<Rightarrow> 'i \<times> 'o \<Rightarrow> engine_error + json list \<times> 'i \<times> 'o) \<Rightarrow> ('i, 'o) executor" where
  "trustedExecutor H hasPosition overlay = (
     let call = (\<lambda>hk ctx i. (if \<not> hn_pick H hk i then Inr ([], i)
           else case hn_call H hk ctx i of (Inl e, i') \<Rightarrow> Inl (Hook_threw e) | (Inr out, i') \<Rightarrow> Inr (normalizeOut out, i')))
     in \<lparr>h_hook = (\<lambda>hk ctx i. if hk \<in> {On_bar_close, On_position_bar, On_pending_intent_bar} then call hk ctx i else Inr ([], i)),
        h_batch = None,
        h_preferredBatchBars = (\<lambda>_. None),
        h_overlay = overlay,
        h_init = (\<lambda>ctx i. then_do (call H_init ctx i) (\<lambda>r. Inr (snd r))),
        h_dispose = (\<lambda>ctx i. then_do (call H_dispose ctx i) (\<lambda>r. Inr (snd r))),
        h_hasPositionHook = hasPosition\<rparr>)"

definition seen :: "bar_env \<Rightarrow> nat \<Rightarrow> 'i \<Rightarrow> 'i sandboxed" where
  "seen env n i = sboxed (Live (if n = 0 then None else Some (n - 1, b_ts (en_candles env ! (n - 1))))
     \<lparr>sl_buffer = take n (en_candles env), sl_instance = i\<rparr>) []"

definition boxed :: "bar_env \<Rightarrow> nat \<Rightarrow> ('p, 'i) sym_state \<Rightarrow> ('p, 'i sandboxed) sym_state" where
  "boxed env n s = \<lparr>s_portfolio = s_portfolio s, s_acc = s_acc s, s_module = seen env n (s_module s)\<rparr>"

lemma boxed_fields [simp]:
  "s_portfolio (boxed env n s) = s_portfolio s" "s_acc (boxed env n s) = s_acc s" "s_module (boxed env n s) = seen env n (s_module s)"
  "(boxed env n s)\<lparr>s_module := seen env k i\<rparr> = boxed env k (s\<lparr>s_module := i\<rparr>)"
  "(boxed env n s)\<lparr>s_portfolio := p, s_acc := a\<rparr> = boxed env n (s\<lparr>s_portfolio := p, s_acc := a\<rparr>)"
  "(boxed env n s)\<lparr>s_acc := a\<rparr> = boxed env n (s\<lparr>s_acc := a\<rparr>)"
  by (simp_all add: boxed_def)

subsection \<open>A call of a hook\<close>

definition ticking :: "bar_env \<Rightarrow> bool" where
  "ticking env = (\<forall>t. Suc t < length (en_candles env) \<longrightarrow> b_ts (en_candles env ! Suc t) \<noteq> b_ts (en_candles env ! t))"

lemma callHook_seen:
  assumes "ticking env" and "t < length (en_candles env)" and "n = t \<or> n = Suc t" and "buildContext env t st = Inr ctx"
  shows "callHook H hk ctx (sm_session (seen env n i)) = (
     if hn_pick H hk i then (case hn_call H hk ctx i of
         (Inl code, i') \<Rightarrow> (let e = \<lparr>se_code = code, se_hook = Some hk, se_barIndex = Some t\<rparr> in (Inl e, Dead e))
       | (Inr out, i') \<Rightarrow> (Inr (if hk \<in> {H_init, H_dispose} then [] else normalizeOut out), sm_session (seen env (Suc t) i')))
     else (Inr [], sm_session (seen env (Suc t) i)))"
proof -
  have ctx: "ctx = \<lparr>x_symbol = en_symbol env, x_bar = en_candles env ! t, x_closed = take t (en_candles env), x_state = st\<rparr>"
    using assms(4) by (auto simp: buildContext_def split: if_splits)
  let ?entry = "\<lparr>he_snapshot = serializeContext ctx t, he_newBar = (if n = t then Some (en_candles env ! t) else None)\<rparr>"
  let ?bk = "if n = 0 then None else Some (n - 1, b_ts (en_candles env ! (n - 1)))"
  have tick: "b_ts (en_candles env ! t) \<noteq> b_ts (en_candles env ! (t - 1))" if "0 < t"
  proof -
    from that obtain u where u: "t = Suc u" by (cases t) auto
    show ?thesis using assms(1) [unfolded ticking_def, rule_format, of u] assms(2) by (simp add: u)
  qed
  have pay: "buildHookPayload ctx ?bk = (?entry, Some (t, b_ts (en_candles env ! t)))"
  proof (cases "n = t")
    case True
    thus ?thesis using tick by (cases "t = 0") (simp_all add: buildHookPayload_def ctx Let_def)
  next
    case False
    thus ?thesis using assms(3) by (simp add: buildHookPayload_def ctx Let_def)
  qed
  have len: "length (take (Suc t) (en_candles env)) - 1 = t" "take t (take (Suc t) (en_candles env)) = take t (en_candles env)"
    using assms(2) by (auto simp: min_def)
  have re: "rehydrateContext (serializeContext ctx t) (take (Suc t) (en_candles env)) = ctx"
    unfolding rehydrateContext_def len by (simp add: serializeContext_def ctx len)
  have push: "take t (en_candles env) @ [en_candles env ! t] = take (Suc t) (en_candles env)"
    using assms(2) by (simp add: take_Suc_conv_app_nth)
  have bar: "harnessBar H hk ?entry \<lparr>sl_buffer = take n (en_candles env), sl_instance = i\<rparr> =
      (if hn_pick H hk i then (case hn_call H hk ctx i of
           (Inl code, i') \<Rightarrow> (Inl code, \<lparr>sl_buffer = take (Suc t) (en_candles env), sl_instance = i'\<rparr>)
         | (Inr out, i') \<Rightarrow> (Inr (normalizeOut out), \<lparr>sl_buffer = take (Suc t) (en_candles env), sl_instance = i'\<rparr>))
       else (Inr [], \<lparr>sl_buffer = take (Suc t) (en_candles env), sl_instance = i\<rparr>))"
  proof -
    obtain r i' where "hn_call H hk ctx i = (r, i')" by (cases "hn_call H hk ctx i")
    thus ?thesis using assms(3) by (cases r) (auto simp: harnessBar_def push re Let_def)
  qed
  obtain r i' where "hn_call H hk ctx i = (r, i')" by (cases "hn_call H hk ctx i")
  thus ?thesis
    by (cases r; cases "hn_pick H hk i")
       (simp_all add: callHook_def seen_def sboxed_def openSession_def pay handleHook_def bar mapFailure_def Let_def)
qed

definition sound :: "validator \<Rightarrow> string \<Rightarrow> 'i harness \<Rightarrow> bool" where
  "sound V sid H = (\<forall>hk ctx i out i'. hn_call H hk ctx i = (Inr out, i') \<longrightarrow>
     revalidate V sid STRATEGY_DECISION_DEFS (normalizeOut out) = Inr True)"

lemma hook_parity:
  assumes "ticking env" and "t < length (en_candles env)" and "n = t \<or> n = Suc t" and "buildContext env t st = Inr ctx"
    and "sound V sid H" and "hk = On_bar_close \<or> hk = On_position_bar"
    and "h_hook (trustedExecutor H hasPosition overlay) hk ctx i = Inr (ds, i')"
  shows "executeStrategyHook V sid H hk ctx (seen env n i) = Inr (ds, seen env (Suc t) i')"
proof -
  note call = callHook_seen [OF assms(1-4)]
  have m: "(seen env n i)\<lparr>sm_session := sm_session (seen env k j)\<rparr> = seen env k j" for k j
    by (simp add: seen_def sboxed_def)
  show ?thesis
  proof (cases "hn_pick H hk i")
    case False
    thus ?thesis using assms(6,7) by (auto simp: executeStrategyHook_def call trustedExecutor_def m)
  next
    case True
    then obtain out where out: "hn_call H hk ctx i = (Inr out, i')" "ds = normalizeOut out"
      using assms(6,7) by (auto simp: trustedExecutor_def split: prod.splits sum.splits)
    have "revalidate V sid STRATEGY_DECISION_DEFS ds = Inr True" using assms(5) out unfolding sound_def by blast
    thus ?thesis using True assms(6) out by (auto simp: executeStrategyHook_def call m)
  qed
qed

subsection \<open>A bar\<close>

lemma onPortfolio_boxed: "onPortfolio f (boxed env n s) = then_do (onPortfolio f s) (\<lambda>s'. Inr (boxed env n s'))"
  by (simp add: onPortfolio_def then_do_assoc case_prod_unfold)

lemma preBarStages_boxed: "preBarStages C env t (boxed env n s) = then_do (preBarStages C env t s) (\<lambda>s'. Inr (boxed env n s'))"
  by (auto simp: preBarStages_def Let_def onPortfolio_boxed then_do_assoc split: option.splits)

lemma composed_boxed: "composed f env t hk nm base cps (boxed env n s) =
    then_do (composed f env t hk nm base cps s) (\<lambda>s'. Inr (boxed env n s'))"
  by (simp add: composed_def then_do_assoc case_prod_unfold)

lemma equityStage_boxed: "equityStage C env t (boxed env n s) = boxed env n (equityStage C env t s)"
  by (simp add: equityStage_def boxed_def)

lemma entryStage_parity:
  assumes "noOverlays env" and "entryStage C V sid X env t base ctx (s, ov) = Inr (s', ov')"
  shows "entryStage C V sid Y env t base ctx (boxed env n s, ov) = Inr (boxed env n s', ov')"
  using assms by (auto simp: entryStage_def composeAt_def noOverlays_def then_do_eq_Inr composed_boxed)

lemma positionStage_parity:
  assumes "noOverlays env" and "ticking env" and "sound V sid H" and "t < length (en_candles env)"
    and "positionStage C V sid (trustedExecutor H hasPosition overlay) env t (s, ov) = Inr (s', ov')"
  shows "positionStage C V sid (sandboxExecutor V sid H hooks hasPosition overlay') env t (boxed env (Suc t) s, ov) =
    Inr (boxed env (Suc t) s', ov')"
proof (cases "c_position C (s_portfolio s) \<noteq> None \<and> hasPosition")
  case False
  thus ?thesis using assms(1,5)
    by (auto simp: positionStage_def noOverlays_def trustedExecutor_def sandboxExecutor_def)
next
  case True
  then obtain ctx ds i where ctx: "buildContext env t (stateAt C (s_portfolio s) (b_close (en_candles env ! t))) = Inr ctx"
    and hook: "h_hook (trustedExecutor H hasPosition overlay) On_position_bar ctx (s_module s) = Inr (ds, i)"
    and comp: "composed (applyPositionDecision C env t (cp_final (withoutOverlays (firstDecision ds)))) env t On_position_bar
          ''onPositionBar'' (firstDecision ds) (withoutOverlays (firstDecision ds)) (s\<lparr>s_module := i\<rparr>) = Inr s'" "ov' = ov"
    using assms(1,5) by (auto simp: positionStage_def noOverlays_def composeAt_def then_do_eq_Inr trustedExecutor_def)
  have "executeStrategyHook V sid H On_position_bar ctx (seen env (Suc t) (s_module s)) = Inr (ds, seen env (Suc t) i)"
    by (rule hook_parity [OF assms(2,4) _ ctx assms(3) _ hook]) simp_all
  thus ?thesis using True assms(1) ctx comp
    by (simp add: positionStage_def noOverlays_def composeAt_def sandboxExecutor_def composed_boxed)
qed

lemma barStep_parity:
  assumes "noOverlays env" and "ticking env" and "sound V sid H" and "t < length (en_candles env)" and "n = t \<or> n = Suc t"
    and "barStep C V sid (trustedExecutor H hasPosition overlay) env t (s, ov) = Inr (s', ov')"
  shows "barStep C V sid (sandboxExecutor V sid H hooks hasPosition overlay') env t (boxed env n s, ov) = Inr (boxed env (Suc t) s', ov')"
proof -
  let ?T = "trustedExecutor H hasPosition overlay" and ?S = "sandboxExecutor V sid H hooks hasPosition overlay'"
  obtain s1 ctx ds i s2 ov2 s3 ov3 s4 s5 where pre: "preBarStages C env t s = Inr s1"
    and ctx: "contextAt C env t (s_portfolio s1) = Inr ctx"
    and hook: "h_hook ?T On_bar_close ctx (s_module s1) = Inr (ds, i)"
    and e: "entryStage C V sid ?T env t (Some (firstDecision ds)) ctx (s1\<lparr>s_module := i\<rparr>, ov) = Inr (s2, ov2)"
    and p: "positionStage C V sid ?T env t (s2, ov2) = Inr (s3, ov3)"
    and sb: "onPortfolio (sameBarStage C env t) s3 = Inr s4" and fu: "onPortfolio (chargeFunding C env t) s4 = Inr s5"
    and s': "s' = equityStage C env t s5" "ov' = ov3"
    using assms(6) by (auto simp: barStep_def preBar_def lockstepBar_def processBar_def then_do_eq_Inr)
  have "executeStrategyHook V sid H On_bar_close ctx (seen env n (s_module s1)) = Inr (ds, seen env (Suc t) i)"
    by (rule hook_parity [OF assms(2,4,5) ctx [unfolded contextAt_def] assms(3) _ hook]) simp
  hence "h_hook ?S On_bar_close ctx (seen env n (s_module s1)) = Inr (ds, seen env (Suc t) i)" by (simp add: sandboxExecutor_def)
  thus ?thesis
    using entryStage_parity [OF assms(1) e, of ?S "Suc t"] positionStage_parity [OF assms(1-4) p, of hooks overlay'] s'
    by (simp add: barStep_def preBar_def lockstepBar_def processBar_def preBarStages_boxed pre ctx onPortfolio_boxed sb fu
          equityStage_boxed)
qed

subsection \<open>A symbol\<close>

lemma bars_parity:
  assumes "noOverlays env" and "ticking env" and "sound V sid H" and "n = t \<or> n = Suc t" and "t < length (en_candles env)"
    and "fold_do (barStep C V sid (trustedExecutor H hasPosition overlay) env) [t..<length (en_candles env)] (s, ov) = Inr (s', ov')"
  shows "fold_do (barStep C V sid (sandboxExecutor V sid H hooks hasPosition overlay') env) [t..<length (en_candles env)] (boxed env n s, ov) =
    Inr (boxed env (length (en_candles env)) s', ov')"
  using assms(4-6)
proof (induction "length (en_candles env) - t" arbitrary: t n s ov)
  case (Suc d)
  have up: "[t..<length (en_candles env)] = t # [Suc t..<length (en_candles env)]" using Suc.prems(2) by (simp add: upt_conv_Cons)
  obtain s1 ov1 where b: "barStep C V sid (trustedExecutor H hasPosition overlay) env t (s, ov) = Inr (s1, ov1)"
    and r: "fold_do (barStep C V sid (trustedExecutor H hasPosition overlay) env) [Suc t..<length (en_candles env)] (s1, ov1) = Inr (s', ov')"
    using Suc.prems(3) unfolding up by (auto simp: then_do_eq_Inr)
  note step = barStep_parity [OF assms(1-3) Suc.prems(2,1) b, of hooks overlay']
  show ?case
  proof (cases "Suc t < length (en_candles env)")
    case True
    have "d = length (en_candles env) - Suc t" using Suc.hyps(2) by simp
    from Suc.hyps(1) [OF this _ True r, of "Suc t"] step show ?thesis unfolding up by simp
  next
    case False
    hence "Suc t = length (en_candles env)" using Suc.prems(2) by simp
    thus ?thesis using step r unfolding up by simp
  qed
qed simp

lemma initSymbol_parity:
  assumes "ticking env" and "en_candles env \<noteq> []" and "hn_load H = Inr (s_module s)"
    and "\<And>i. hn_pick H H_init i \<longleftrightarrow> H_init \<in> set hooks"
    and "initSymbol C (trustedExecutor H hasPosition overlay) env s = Inr s'"
  shows "\<exists>n. (n = 0 \<or> n = 1) \<and> initSymbol C (sandboxExecutor V sid H hooks hasPosition overlay') env
    \<lparr>s_portfolio = s_portfolio s, s_acc = s_acc s, s_module = sboxed Closed []\<rparr> = Inr (boxed env n s')"
proof -
  obtain ctx where ctx: "contextAt C env 0 (s_portfolio s) = Inr ctx"
    using assms(2) by (auto simp: contextAt_def buildContext_def)
  have call: "callHook H H_init ctx (sm_session (seen env 0 i)) = (
     if hn_pick H H_init i then (case hn_call H H_init ctx i of
         (Inl code, i') \<Rightarrow> (let e = \<lparr>se_code = code, se_hook = Some H_init, se_barIndex = Some 0\<rparr> in (Inl e, Dead e))
       | (Inr out, i') \<Rightarrow> (Inr (if H_init \<in> {H_init, H_dispose} then [] else normalizeOut out), sm_session (seen env (Suc 0) i')))
     else (Inr [], sm_session (seen env (Suc 0) i)))" for i
    by (rule callHook_seen [OF assms(1) _ _ ctx [unfolded contextAt_def]]) (use assms(2) in simp_all)
  have opened: "openSession H Closed = (Inr [], sm_session (seen env 0 (s_module s)))"
    using assms(3) by (simp add: openSession_def seen_def sboxed_def)
  have m: "sboxed Closed []\<lparr>sm_session := sm_session (seen env k j)\<rparr> = seen env k j" for k j
    by (simp add: seen_def sboxed_def)
  show ?thesis
  proof (cases "H_init \<in> set hooks")
    case True
    then obtain out i where out: "hn_call H H_init ctx (s_module s) = (Inr out, i)" and s': "s' = s\<lparr>s_module := i\<rparr>"
      using assms(4,5) ctx by (auto simp: initSymbol_def trustedExecutor_def then_do_eq_Inr split: prod.splits sum.splits)
    have "initStrategy H hooks ctx (sboxed Closed []) = seen env 1 i"
      using True out assms(4) call [of "s_module s"] opened
      by (simp add: initStrategy_def sboxed_def seen_def Let_def)
    thus ?thesis using ctx s' by (intro exI [of _ 1]) (simp add: initSymbol_def sandboxExecutor_def boxed_def)
  next
    case False
    hence "s' = s" using assms(4,5) ctx by (auto simp: initSymbol_def trustedExecutor_def then_do_eq_Inr)
    moreover have "initStrategy H hooks ctx (sboxed Closed []) = seen env 0 (s_module s)"
      using False opened by (simp add: initStrategy_def sboxed_def seen_def)
    ultimately show ?thesis using ctx by (intro exI [of _ 0]) (simp add: initSymbol_def sandboxExecutor_def boxed_def)
  qed
qed

lemma finalizeSymbol_parity:
  assumes "ticking env" and "en_candles env \<noteq> []" and "\<And>i. hn_pick H H_dispose i \<longleftrightarrow> H_dispose \<in> set hooks"
    and "finalizeSymbol C (trustedExecutor H hasPosition overlay) env s = Inr s'"
  shows "finalizeSymbol C (sandboxExecutor V sid H hooks hasPosition overlay') env (boxed env (length (en_candles env)) s) =
    Inr (boxed env (length (en_candles env)) s')"
proof -
  let ?n = "length (en_candles env)"
  have n: "Suc (?n - 1) = ?n" using assms(2) by simp
  have dispose: "disposeStrategy H hooks ctx (seen env ?n i) = seen env ?n i'"
    if ctx: "buildContext env (?n - 1) st = Inr ctx" and t: "h_dispose (trustedExecutor H hasPosition overlay) ctx i = Inr i'" for st ctx i i'
  proof -
    have call: "callHook H H_dispose ctx (sm_session (seen env ?n i)) = (
       if hn_pick H H_dispose i then (case hn_call H H_dispose ctx i of
           (Inl code, i') \<Rightarrow> (let e = \<lparr>se_code = code, se_hook = Some H_dispose, se_barIndex = Some (?n - 1)\<rparr> in (Inl e, Dead e))
         | (Inr out, i') \<Rightarrow> (Inr (if H_dispose \<in> {H_init, H_dispose} then [] else normalizeOut out), sm_session (seen env (Suc (?n - 1)) i')))
       else (Inr [], sm_session (seen env (Suc (?n - 1)) i)))"
      by (rule callHook_seen [OF assms(1) _ _ ctx]) (use assms(2) in simp_all)
    have live: "sm_session (seen env ?n i) \<noteq> Closed" by (simp add: seen_def sboxed_def)
    show ?thesis
    proof (cases "H_dispose \<in> set hooks")
      case True
      then obtain out where "hn_call H H_dispose ctx i = (Inr out, i')"
        using assms(3) t by (auto simp: trustedExecutor_def then_do_eq_Inr split: prod.splits sum.splits)
      thus ?thesis using True live call assms(3) unfolding n by (simp add: disposeStrategy_def Let_def) (simp add: seen_def sboxed_def)
    next
      case False
      hence "i' = i" using assms(3) t by (auto simp: trustedExecutor_def)
      thus ?thesis using False by (simp add: disposeStrategy_def)
    qed
  qed
  show ?thesis
    using assms(4) dispose
    by (auto simp: finalizeSymbol_def Let_def case_prod_unfold then_do_eq_Inr sandboxExecutor_def boxed_def split: option.splits)
qed


text \<open>Note. A session that has run a symbol to its end and is then used for the same symbol again (the baseline and
  the variant of a run share the executor of a bundle) hands the strategy, on the first bar, every candle of the
  symbol as a closed one: the harness still has the buffer of the first pass.\<close>

lemma reused_session_looks_ahead:
  assumes "en_candles env \<noteq> []" and "b_ts (en_candles env ! 0) \<noteq> b_ts (en_candles env ! (length (en_candles env) - 1))"
    and "buildContext env 0 st = Inr ctx" and "hn_pick H On_bar_close i"
    and "hn_call H On_bar_close (ctx\<lparr>x_closed := en_candles env\<rparr>) i = (Inr out, i')"
  shows "fst (callHook H On_bar_close ctx (sm_session (seen env (length (en_candles env)) i))) = Inr (normalizeOut out)"
proof -
  have ctx: "ctx = \<lparr>x_symbol = en_symbol env, x_bar = en_candles env ! 0, x_closed = [], x_state = st\<rparr>"
    using assms(1,3) by (simp add: buildContext_def)
  have re: "rehydrateContext (serializeContext ctx k) (en_candles env @ [en_candles env ! 0]) = ctx\<lparr>x_closed := en_candles env\<rparr>" for k
    by (simp add: rehydrateContext_def serializeContext_def ctx)
  have bar: "harnessBar H On_bar_close \<lparr>he_snapshot = serializeContext ctx k, he_newBar = Some (en_candles env ! 0)\<rparr>
      \<lparr>sl_buffer = en_candles env, sl_instance = i\<rparr> =
      (Inr (normalizeOut out), \<lparr>sl_buffer = en_candles env @ [en_candles env ! 0], sl_instance = i'\<rparr>)" for k
    using assms(4,5) by (simp add: harnessBar_def re Let_def)
  have pay: "buildHookPayload ctx (Some (length (en_candles env) - 1, b_ts (en_candles env ! (length (en_candles env) - 1)))) =
      (\<lparr>he_snapshot = serializeContext ctx (Suc (length (en_candles env) - 1)), he_newBar = Some (en_candles env ! 0)\<rparr>,
       Some (Suc (length (en_candles env) - 1), b_ts (en_candles env ! 0)))"
    using assms(2) by (simp add: buildHookPayload_def ctx Let_def)
  show ?thesis using assms(1) pay
    by (simp add: callHook_def seen_def sboxed_def openSession_def handleHook_def bar Let_def)
qed

end
