(* ===== verification/Basket_Runs.thy ===== *)
theory Basket_Runs
  imports Bar_Major_Facts
begin

text \<open>
  The bar-major driver as a whole.  Its fold over the timeline is one fold per symbol (\<open>timeline_runs\<close>), its
  set-up and its finalisation are per symbol by definition, so it succeeds exactly when every symbol, simulated
  alone on an account of its own, does, and its result is the merge of theirs.
\<close>

subsection \<open>The timeline is one pass per symbol\<close>

definition increasing :: "bar_env \<Rightarrow> bool" where
  "increasing env = sorted_wrt (<) (map b_ts (en_candles env))"

lemma fold_do_map: "fold_do f (map h xs) s = fold_do (\<lambda>x. f (h x)) xs s"
  by (induction xs arbitrary: s) (simp_all cong: then_do_cong)

lemma fold_do_concat:
  "fold_do (\<lambda>(ts, l). fold_do (f ts) l) tls s = fold_do (\<lambda>(ts, u). f ts u) (concat (map (\<lambda>(ts, l). map (Pair ts) l) tls)) s"
  by (induction tls arbitrary: s) (simp_all add: fold_do_append fold_do_map case_prod_unfold cong: then_do_cong)

lemma visitBar_length:
  "visitBar C V sid X envs ts s b = Inr b' \<Longrightarrow> length (fst b') = length (fst b)"
  by (cases b) (auto simp: visitBar_def Let_def case_prod_unfold then_do_eq_Inr split: if_splits)

lemma visits_length:
  "fold_do (visitBar C V sid X envs ts) L b = Inr b' \<Longrightarrow> length (fst b') = length (fst b)"
proof (induction L arbitrary: b)
  case (Cons s L)
  then obtain b1 where "visitBar C V sid X envs ts s b = Inr b1" "fold_do (visitBar C V sid X envs ts) L b1 = Inr b'"
    by (auto simp only: fold_do.simps then_do_eq_Inr)
  thus ?case using Cons.IH visitBar_length by metis
qed simp

lemma timeline_present:
  assumes "(ts, present) \<in> set (timeline envs)"
  shows "distinct present" and "u \<in> set present \<Longrightarrow> u < length envs"
  using timeline_entries [OF assms] by auto

lemma barMajorTs_visits:
  assumes "\<And>env. env \<in> set envs \<Longrightarrow> noOverlays env" and "q \<in> set (timeline envs)" and "length (fst b) = length envs"
  shows "barMajorTs C V sid X batch envs q b = Inr r \<longleftrightarrow>
    (\<lambda>(ts, present). fold_do (visitBar C V sid X envs ts) present) q b = Inr r"
proof -
  obtain ts present where e: "q = (ts, present)" by (cases q)
  have d: "distinct present" using timeline_present(1) assms(2) e by auto
  have "u < length (fst b) \<and> noOverlays (envs ! u)" if "u \<in> set present" for u
    using timeline_present(2) [of ts present envs u] assms e that by auto
  thus ?thesis using batchTs_visit [OF d, of b envs] by (simp add: e barMajorTs_def)
qed

lemma timeline_visits:
  assumes "\<And>env. env \<in> set envs \<Longrightarrow> noOverlays env" and "length xs = length envs"
  shows "fold_do (barMajorTs C V sid X batch envs) (timeline envs) (xs, ov) = Inr r \<longleftrightarrow>
    fold_do (\<lambda>(ts, u). visitBar C V sid X envs ts u) (events envs) (xs, ov) = Inr r"
proof -
  have "fold_do (barMajorTs C V sid X batch envs) (timeline envs) (xs, ov) = Inr r \<longleftrightarrow>
      fold_do (\<lambda>(ts, present). fold_do (visitBar C V sid X envs ts) present) (timeline envs) (xs, ov) = Inr r"
  proof (rule fold_do_iff [where P = "\<lambda>b. length (fst b) = length envs"])
    show "length (fst r') = length envs"
      if "length (fst b) = length envs" "(case q of (ts, present) \<Rightarrow> fold_do (visitBar C V sid X envs ts) present) b = Inr r'" for q b r'
      using that visits_length [of C V sid X envs "fst q" "snd q" b r'] by (simp add: case_prod_unfold)
  qed (auto simp: assms barMajorTs_visits)
  thus ?thesis unfolding fold_do_concat events_def .
qed

lemma events_sites:
  assumes "(ts, u) \<in> set (events envs)" shows "u < length envs"
  using assms timeline_present(2) by (auto simp: events_def)

lemma timeline_runs:
  assumes "\<And>env. env \<in> set envs \<Longrightarrow> noOverlays env \<and> increasing env" and "length sts = length envs"
  shows "fold_do (barMajorTs C V sid X batch envs) (timeline envs) (map (Pair 0) sts, ov) = Inr (ys, ov') \<longleftrightarrow>
    ov' = ov \<and> length ys = length envs \<and> (\<forall>i < length envs. fold_do (bar1 C V sid X (envs ! i))
       [0..<length (en_candles (envs ! i))] (sts ! i) = Inr (snd (ys ! i)) \<and> fst (ys ! i) = length (en_candles (envs ! i)))"
proof -
  let ?xs = "map (Pair (0 :: nat)) sts"
  have no: "noOverlays (envs ! u)" "increasing (envs ! u)" if "u < length envs" for u using assms(1) that by auto
  have "fold_do (barMajorTs C V sid X batch envs) (timeline envs) (?xs, ov) = Inr (ys, ov') \<longleftrightarrow>
      fold_do (\<lambda>(ts, u). visitBar C V sid X envs ts u) (events envs) (?xs, ov) = Inr (ys, ov')"
    by (rule timeline_visits) (auto simp: assms)
  also have "\<dots> \<longleftrightarrow> ov' = ov \<and> fold_do (\<lambda>e xs. then_do (visit1 C V sid X envs e (xs ! snd e)) (\<lambda>y. Inr (xs[snd e := y]))) (events envs) ?xs = Inr ys"
    by (subst visits_events) (auto simp: then_do_eq_Inr dest: events_sites no)
  also have "\<dots> \<longleftrightarrow> ov' = ov \<and> length ys = length ?xs \<and>
      (\<forall>i < length ?xs. fold_do (visit1 C V sid X envs) [e \<leftarrow> events envs. snd e = i] (?xs ! i) = Inr (ys ! i))"
    by (subst fold_components) (auto simp: assms(2) dest: events_sites)
  also have "\<dots> \<longleftrightarrow> ov' = ov \<and> length ys = length envs \<and> (\<forall>i < length envs. fold_do (bar1 C V sid X (envs ! i))
       [0..<length (en_candles (envs ! i))] (sts ! i) = Inr (snd (ys ! i)) \<and> fst (ys ! i) = length (en_candles (envs ! i)))"
  proof -
    have "fold_do (visit1 C V sid X envs) [e \<leftarrow> events envs. snd e = i] (?xs ! i) = Inr (ys ! i) \<longleftrightarrow>
       fold_do (bar1 C V sid X (envs ! i)) [0..<length (en_candles (envs ! i))] (sts ! i) = Inr (snd (ys ! i)) \<and>
       fst (ys ! i) = length (en_candles (envs ! i))" if i: "i < length envs" for i
    proof -
      have e: "[e \<leftarrow> events envs. snd e = i] = map (\<lambda>ts. (ts, i)) (map b_ts (drop 0 (en_candles (envs ! i))))"
        using symbol_events [OF i] no(2) [OF i] by (simp add: increasing_def)
      have x: "?xs ! i = (0, sts ! i)" using i assms(2) by simp
      show ?thesis unfolding e x by (subst symbol_visits [OF refl]) (auto simp: then_do_eq_Inr prod_eq_iff)
    qed
    thus ?thesis using assms(2) by auto
  qed
  finally show ?thesis .
qed

subsection \<open>Setting up and finalising\<close>

lemma setupSymbols_iff:
  "setupSymbols C X parseTf data fresh ovs tape symbols = Inr qs \<longleftrightarrow>
    list_all2 (\<lambda>symbol q. symbolEnv C parseTf symbol (data symbol) ovs tape None = Inr (fst q) \<and>
      initSymbol C X (fst q) (freshState C (fresh symbol)) = Inr (snd q)) [symbol \<leftarrow> symbols. data symbol \<noteq> []] qs"
  by (induction symbols arbitrary: qs) (auto simp: then_do_eq_Inr list_all2_Cons1)

lemma finalizeAll_iff:
  "finalizeAll C X qs = Inr sts \<longleftrightarrow> list_all2 (\<lambda>q st. finalizeSymbol C X (fst q) (snd q) = Inr st) qs sts"
  by (induction qs arbitrary: sts) (auto simp: then_do_eq_Inr list_all2_Cons1)

lemma symbolEnv_fields:
  assumes "symbolEnv C parseTf symbol candles ovs tape k = Inr env"
  shows "en_candles env = candles" "en_entry env = fst ovs" "en_post env = snd ovs" "en_maxBars env = k"
  using assms by (auto simp: symbolEnv_def Let_def split: option.splits if_splits)

lemma runSymbol_parts:
  assumes "symbolEnv C parseTf symbol candles ([], []) tape None = Inr env" and "candles \<noteq> []"
  shows "runSymbol C V sid X env (s, ov) = Inr (r, ov) \<longleftrightarrow> (\<exists>s1 s2. initSymbol C X env s = Inr s1 \<and>
     fold_do (bar1 C V sid X env) [0..<length (en_candles env)] s1 = Inr s2 \<and> finalizeSymbol C X env s2 = Inr r)"
  using runSymbol_ov [of env C V sid X s ov] symbolEnv_fields [OF assms(1)] assms(2)
  by (auto simp: noOverlays_def then_do_eq_Inr)

lemma basket_states:
  assumes "\<forall>symbol \<in> set symbols. sorted_wrt (<) (map b_ts (data symbol))"
    and "setupSymbols C X parseTf data fresh ([], []) tape symbols = Inr qs"
  shows "(\<exists>ys ov1. fold_do (barMajorTs C V sid X batch (map fst qs)) (timeline (map fst qs)) (map (\<lambda>(env, st). (0, st)) qs, ov) =
       Inr (ys, ov1) \<and> ov' = ov1 \<and> finalizeAll C X (zip (map fst qs) (map snd ys)) = Inr rs) \<longleftrightarrow>
    ov' = ov \<and> list_all2 (\<lambda>q r. \<exists>s2. fold_do (bar1 C V sid X (fst q)) [0..<length (en_candles (fst q))] (snd q) = Inr s2 \<and>
       finalizeSymbol C X (fst q) s2 = Inr r) qs rs"
    (is "?L \<longleftrightarrow> ?R")
proof -
  let ?envs = "map fst qs"
  have set: "list_all2 (\<lambda>symbol q. symbolEnv C parseTf symbol (data symbol) ([], []) tape None = Inr (fst q) \<and>
      initSymbol C X (fst q) (freshState C (fresh symbol)) = Inr (snd q)) [symbol \<leftarrow> symbols. data symbol \<noteq> []] qs"
    using assms(2) by (simp add: setupSymbols_iff)
  have ok: "noOverlays env \<and> increasing env" if "env \<in> set ?envs" for env
  proof -
    have "env \<in> fst ` set qs" using that by simp
    then obtain q where q: "q \<in> set qs" "env = fst q" by blast
    then obtain i where i: "i < length qs" "env = fst (qs ! i)" unfolding in_set_conv_nth by blast
    let ?sy = "[symbol \<leftarrow> symbols. data symbol \<noteq> []] ! i"
    have "length [symbol \<leftarrow> symbols. data symbol \<noteq> []] = length qs" using set by (rule list_all2_lengthD)
    hence "?sy \<in> set symbols" using i(1) nth_mem [of i "[symbol \<leftarrow> symbols. data symbol \<noteq> []]"] by auto
    moreover have "symbolEnv C parseTf ?sy (data ?sy) ([], []) tape None = Inr env" using list_all2_nthD2 [OF set i(1)] i(2) by simp
    note symbolEnv_fields [OF this]
    ultimately show ?thesis using assms(1) by (simp add: noOverlays_def increasing_def)
  qed
  have st: "map (\<lambda>(env, st). (0 :: nat, st)) qs = map (Pair 0) (map snd qs)" by (simp add: case_prod_unfold)
  have runs: "fold_do (barMajorTs C V sid X batch ?envs) (timeline ?envs) (map (\<lambda>(env, st). (0, st)) qs, ov) = Inr (ys, ov1) \<longleftrightarrow>
      ov1 = ov \<and> length ys = length qs \<and> (\<forall>i < length qs. fold_do (bar1 C V sid X (fst (qs ! i)))
       [0..<length (en_candles (fst (qs ! i)))] (snd (qs ! i)) = Inr (snd (ys ! i)) \<and> fst (ys ! i) = length (en_candles (fst (qs ! i))))"
    for ys ov1
    unfolding st by (subst timeline_runs) (auto simp: ok)
  show ?thesis
  proof
    assume ?L
    then obtain ys where ys: "ov' = ov" "length ys = length qs"
      "\<forall>i < length qs. fold_do (bar1 C V sid X (fst (qs ! i)))
       [0..<length (en_candles (fst (qs ! i)))] (snd (qs ! i)) = Inr (snd (ys ! i)) \<and> fst (ys ! i) = length (en_candles (fst (qs ! i)))"
      and fin: "list_all2 (\<lambda>q st. finalizeSymbol C X (fst q) (snd q) = Inr st) (zip ?envs (map snd ys)) rs"
      unfolding runs finalizeAll_iff by blast
    have "length rs = length qs" using list_all2_lengthD [OF fin] ys(2) by simp
    moreover have "finalizeSymbol C X (fst (qs ! i)) (snd (ys ! i)) = Inr (rs ! i)" if "i < length qs" for i
      using list_all2_nthD [OF fin, of i] that ys(2) by simp
    ultimately show ?R using ys by (auto simp: list_all2_conv_all_nth)
  next
    assume R: ?R
    hence len: "length rs = length qs" by (auto dest: list_all2_lengthD)
    have "\<forall>i. i < length qs \<longrightarrow> (\<exists>s2. fold_do (bar1 C V sid X (fst (qs ! i)))
        [0..<length (en_candles (fst (qs ! i)))] (snd (qs ! i)) = Inr s2 \<and> finalizeSymbol C X (fst (qs ! i)) s2 = Inr (rs ! i))"
      using R by (auto simp: list_all2_conv_all_nth)
    then obtain f where f: "\<And>i. i < length qs \<Longrightarrow> fold_do (bar1 C V sid X (fst (qs ! i)))
        [0..<length (en_candles (fst (qs ! i)))] (snd (qs ! i)) = Inr (f i) \<and> finalizeSymbol C X (fst (qs ! i)) (f i) = Inr (rs ! i)"
      by metis
    let ?ys = "map (\<lambda>i. (length (en_candles (fst (qs ! i))), f i)) [0..<length qs]"
    have "fold_do (barMajorTs C V sid X batch ?envs) (timeline ?envs) (map (\<lambda>(env, st). (0, st)) qs, ov) = Inr (?ys, ov)"
      unfolding runs using f by simp
    moreover have "finalizeAll C X (zip ?envs (map snd ?ys)) = Inr rs"
      unfolding finalizeAll_iff using f len by (simp add: list_all2_conv_all_nth)
    ultimately show ?L using R by blast
  qed
qed

text \<open>Claim C4. Bar-major is one simulation per symbol.  Over candles with strictly increasing timestamps and without
  overlays, the bar-major driver (in either mode: a call per hook or one call per timestamp) succeeds exactly when
  every symbol that has data, simulated alone from start to end on a fresh account, succeeds and their
  accumulators merge; its result is that merge, indexed, with the number of bars of those symbols.  No account
  affects another, whatever the interleaving.\<close>

theorem bar_major_is_basket:
  assumes "\<forall>symbol \<in> set symbols. sorted_wrt (<) (map b_ts (data symbol))"
  shows "runBarMajor C V sid X add parseTf data fresh ([], []) tape batch symbols ov = Inr ((acc, n), ov') \<longleftrightarrow>
    ov' = ov \<and> n = sum_list (map (\<lambda>symbol. length (data symbol)) symbols) \<and>
    (\<exists>rs merged. list_all2 (\<lambda>symbol r. \<exists>env. symbolEnv C parseTf symbol (data symbol) ([], []) tape None = Inr env \<and>
         runSymbol C V sid X env (freshState C (fresh symbol), ov) = Inr (r, ov)) [symbol \<leftarrow> symbols. data symbol \<noteq> []] rs \<and>
       mergeAccumulators add (map s_acc rs) = Inr merged \<and> acc = indexOrders (orders merged) merged)"
proof -
  let ?sy = "[symbol \<leftarrow> symbols. data symbol \<noteq> []]"
  let ?set = "\<lambda>symbol q. symbolEnv C parseTf symbol (data symbol) ([], []) tape None = Inr (fst q) \<and>
      initSymbol C X (fst q) (freshState C (fresh symbol)) = Inr (snd q)"
  let ?run = "\<lambda>q r. \<exists>s2. fold_do (bar1 C V sid X (fst q)) [0..<length (en_candles (fst q))] (snd q) = Inr s2 \<and>
       finalizeSymbol C X (fst q) s2 = Inr r"
  have bars: "sum_list (map (\<lambda>env. length (en_candles env)) (map fst qs)) = sum_list (map (\<lambda>symbol. length (data symbol)) symbols)"
    if "list_all2 ?set ?sy qs" for qs
  proof -
    have "map (\<lambda>env. length (en_candles env)) (map fst qs) = map (\<lambda>symbol. length (data symbol)) ?sy"
      using that by (auto simp: list_all2_conv_all_nth symbolEnv_fields(1) intro!: nth_equalityI)
    moreover have "sum_list (map (\<lambda>symbol. length (data symbol)) [symbol \<leftarrow> symbols. data symbol \<noteq> []]) = sum_list (map (\<lambda>symbol. length (data symbol)) symbols)"
      by (induction symbols) auto
    ultimately show ?thesis by metis
  qed
  have "runBarMajor C V sid X add parseTf data fresh ([], []) tape batch symbols ov = Inr ((acc, n), ov') \<longleftrightarrow>
      (\<exists>qs rs merged. setupSymbols C X parseTf data fresh ([], []) tape symbols = Inr qs \<and>
        (\<exists>ys ov1. fold_do (barMajorTs C V sid X batch (map fst qs)) (timeline (map fst qs)) (map (\<lambda>(env, st). (0, st)) qs, ov) =
          Inr (ys, ov1) \<and> ov' = ov1 \<and> finalizeAll C X (zip (map fst qs) (map snd ys)) = Inr rs) \<and>
        mergeAccumulators add (map s_acc rs) = Inr merged \<and> acc = indexOrders (orders merged) merged \<and>
        n = sum_list (map (\<lambda>env. length (en_candles env)) (map fst qs)))"
    by (auto simp: runBarMajor_def then_do_eq_Inr Let_def case_prod_unfold)
  also have "\<dots> \<longleftrightarrow> (\<exists>qs rs merged. list_all2 ?set ?sy qs \<and> ov' = ov \<and> list_all2 ?run qs rs \<and>
        mergeAccumulators add (map s_acc rs) = Inr merged \<and> acc = indexOrders (orders merged) merged \<and>
        n = sum_list (map (\<lambda>symbol. length (data symbol)) symbols))"
  proof (intro ex_cong1)
    fix qs rs merged
    show "(setupSymbols C X parseTf data fresh ([], []) tape symbols = Inr qs \<and>
        (\<exists>ys ov1. fold_do (barMajorTs C V sid X batch (map fst qs)) (timeline (map fst qs)) (map (\<lambda>(env, st). (0, st)) qs, ov) =
          Inr (ys, ov1) \<and> ov' = ov1 \<and> finalizeAll C X (zip (map fst qs) (map snd ys)) = Inr rs) \<and>
        mergeAccumulators add (map s_acc rs) = Inr merged \<and> acc = indexOrders (orders merged) merged \<and>
        n = sum_list (map (\<lambda>env. length (en_candles env)) (map fst qs))) \<longleftrightarrow>
      (list_all2 ?set ?sy qs \<and> ov' = ov \<and> list_all2 ?run qs rs \<and>
        mergeAccumulators add (map s_acc rs) = Inr merged \<and> acc = indexOrders (orders merged) merged \<and>
        n = sum_list (map (\<lambda>symbol. length (data symbol)) symbols))"
    proof (cases "setupSymbols C X parseTf data fresh ([], []) tape symbols = Inr qs")
      case True
      hence l: "list_all2 ?set ?sy qs" by (simp add: setupSymbols_iff)
      show ?thesis using basket_states [OF assms True, where V = V and sid = sid and batch = batch and ov = ov and ov' = ov' and rs = rs] bars [OF l] True l by argo
    next
      case False
      thus ?thesis by (simp add: setupSymbols_iff)
    qed
  qed
  also have "\<dots> \<longleftrightarrow> ov' = ov \<and> n = sum_list (map (\<lambda>symbol. length (data symbol)) symbols) \<and>
      (\<exists>rs merged. list_all2 (\<lambda>symbol r. \<exists>q. ?set symbol q \<and> ?run q r) ?sy rs \<and>
        mergeAccumulators add (map s_acc rs) = Inr merged \<and> acc = indexOrders (orders merged) merged)"
  proof -
    have "list_all2 (\<lambda>symbol r. \<exists>q. ?set symbol q \<and> ?run q r) ?sy rs \<longleftrightarrow> (\<exists>qs. list_all2 ?set ?sy qs \<and> list_all2 ?run qs rs)" for rs
      using list.rel_compp [of ?set ?run] by (simp add: fun_eq_iff OO_def)
    thus ?thesis by blast
  qed
  finally have *: "runBarMajor C V sid X add parseTf data fresh ([], []) tape batch symbols ov = Inr ((acc, n), ov') \<longleftrightarrow>
      ov' = ov \<and> n = sum_list (map (\<lambda>symbol. length (data symbol)) symbols) \<and>
      (\<exists>rs merged. list_all2 (\<lambda>symbol r. \<exists>q. ?set symbol q \<and> ?run q r) ?sy rs \<and>
        mergeAccumulators add (map s_acc rs) = Inr merged \<and> acc = indexOrders (orders merged) merged)" .
  have alone: "list_all2 (\<lambda>symbol r. \<exists>q. ?set symbol q \<and> ?run q r) ?sy rs \<longleftrightarrow>
      list_all2 (\<lambda>symbol r. \<exists>env. symbolEnv C parseTf symbol (data symbol) ([], []) tape None = Inr env \<and>
         runSymbol C V sid X env (freshState C (fresh symbol), ov) = Inr (r, ov)) ?sy rs" for rs
  proof (rule list.rel_cong [OF refl refl])
    fix symbol r assume "symbol \<in> set ?sy"
    hence "data symbol \<noteq> []" by simp
    note parts = runSymbol_parts [OF _ this]
    show "(\<exists>q. ?set symbol q \<and> ?run q r) = (\<exists>env. symbolEnv C parseTf symbol (data symbol) ([], []) tape None = Inr env \<and>
         runSymbol C V sid X env (freshState C (fresh symbol), ov) = Inr (r, ov))"
      using parts by fastforce
  qed
  show ?thesis unfolding * alone by (rule refl)
qed

end
