(* ===== verification/Engine_Demo.thy ===== *)
theory Engine_Demo
  imports Sandbox_Parity Basket_Runs Bar_Causality
begin

text \<open>
  A small simulation, for the witnesses of the properties with hypotheses: an execution core that fills whatever is
  pending at the price of the bar, and a strategy that enters on its first and its fourth bar and leaves a position
  as soon as it has one.
\<close>

type_synonym demo_portfolio = "open_position option \<times> pending_order option"

definition demo_trade :: "close_fill \<Rightarrow> trade" where
  "demo_trade f = \<lparr>t_exitTs = cf_ts f, t_body = JObj []\<rparr>"

definition demo_fill :: "jsnum \<Rightarrow> fill_calc" where
  "demo_fill x = \<lparr>fc_fillPrice = x, fc_fee = JFin 0, fc_size = JFin 1, fc_baseOpen = x, fc_slippageBps = JFin 0\<rparr>"

definition demo_core :: "demo_portfolio core" where
  "demo_core = \<lparr>c_new = (None, None), c_position = fst, c_pending = snd, c_isFlat = (\<lambda>p. fst p = None),
     c_openPositions = (\<lambda>p. if fst p = None then JFin 0 else JFin 1), c_equityAt = (\<lambda>p mark. INITIAL_EQUITY),
     c_closedSizeAt = (\<lambda>p x. JFin 1), c_placePending = (\<lambda>p pn. Inr (fst p, Some pn)),
     c_settleOpen = (\<lambda>p f. Inr (Some \<lparr>op_side = JStr ''long'', op_size = cf_size f, op_entryPrice = cf_fillPrice f,
        op_stop = None, op_take = None, op_addCount = None\<rparr>, None)),
     c_settleAdd = (\<lambda>p f. Inr (fst p, None)),
     c_settleClose = (\<lambda>p f r x. Inr (demo_trade f, (None, None))),
     c_closePosition = (\<lambda>p f r. Inr (demo_trade f, (None, snd p))),
     c_updateProtection = (\<lambda>p st tk. Inr p), c_settleFunding = (\<lambda>p x. Inr p),
     c_expirePending = (\<lambda>p. (snd p, (fst p, None))), c_forcedMtmClose = (\<lambda>p i ts mark. (None, p)),
     x_openFill = (\<lambda>sd x n. demo_fill x), x_closeFill = (\<lambda>sd x n. demo_fill x), x_protectionFill = (\<lambda>sd x n. demo_fill x),
     x_settlesSameBar = False, x_fundingEnabled = False, x_fundingIntervalHours = JFin 0,
     r_evaluate = (\<lambda>d t rc. \<lparr>ro_reject = False, ro_record = \<lparr>rd_barIndex = t, rd_body = JObj []\<rparr>, ro_notional = Some (JFin 1),
        ro_stop = None, ro_take = None, ro_closeFraction = None, ro_mode = None\<rparr>),
     d_protection = (\<lambda>sd x st tk b. None), f_barFunding = (\<lambda>sd a b c d e f. JFin 0)\<rparr>"

lemma demo_contract: "portfolio_contract demo_core"
  by (simp add: portfolio_contract_def demo_core_def)

definition demo_harness :: "nat harness" where
  "demo_harness = \<lparr>hn_load = Inr 0, hn_pick = (\<lambda>hk i. hk \<in> {On_bar_close, On_position_bar}),
     hn_call = (\<lambda>hk ctx i. if hk = On_position_bar then (Inr (JObj [(''kind'', JStr ''exit'')]), i)
       else (Inr (if i = 0 \<or> i = 3 then JObj [(''kind'', JStr ''enter''), (''side'', JStr ''long'')] else JNull), Suc i))\<rparr>"

definition demo_validator :: validator where
  "demo_validator = (\<lambda>r d. Inr [])"

lemma demo_sound: "sound demo_validator sid demo_harness"
  by (auto simp: sound_def demo_harness_def demo_validator_def normalizeOut_def kind_of_def table_get_def js_get_def
        STRATEGY_DECISION_DEFS_def split: if_splits)

definition demo_bars :: "ms list \<Rightarrow> bar list" where
  "demo_bars = map (\<lambda>ts. \<lparr>b_ts = ts, b_open = JFin 1, b_high = JFin 1, b_low = JFin 1, b_close = JFin 1, b_volume = JFin 1\<rparr>)"

definition demo_env :: "ms list \<Rightarrow> bar_env" where
  "demo_env tss = \<lparr>en_symbol = ''BTC'', en_candles = demo_bars tss, en_entry = [], en_post = [], en_funding = None,
     en_cadenceMinutes = 1, en_maxBars = None\<rparr>"

abbreviation demo_trusted :: "(nat, unit) executor" where
  "demo_trusted \<equiv> trustedExecutor demo_harness True (\<lambda>ov ctx s. Inr ([], s))"

abbreviation demo_run :: "ms list \<Rightarrow> engine_error + (demo_portfolio, nat, unit) sim" where
  "demo_run tss \<equiv> runSymbol demo_core demo_validator ''s'' demo_trusted (demo_env tss) (freshState demo_core 0, ())"

definition demo_outcome :: "engine_error + (demo_portfolio, nat, unit) sim \<Rightarrow> (string \<times> order_status) list \<times> (string \<times> nat) list" where
  "demo_outcome q = (case q of Inl e \<Rightarrow> ([], []) | Inr (r, ov) \<Rightarrow>
     (map (\<lambda>x. (o_id x, o_status x)) (orders (s_acc r)), map (\<lambda>f. (f_orderId f, f_fillBarIndex f)) (fills (s_acc r))))"

lemma demo_runs:
  "demo_outcome (demo_run [0, 1, 2, 3]) = ([(''ord-BTC-0-open'', O_filled), (''ord-BTC-1-close'', O_filled), (''ord-BTC-3-open'', O_expired)],
     [(''ord-BTC-0-open'', 1), (''ord-BTC-1-close'', 2)])"
  by code_simp

subsection \<open>Witnesses\<close>

lemma orders_accounted_witness:
  "\<exists>r ov'. demo_run [0, 1, 2, 3] = Inr (r, ov') \<and> length (fills (s_acc r)) = 2 \<and>
    (\<exists>os late. orders (s_acc r) = os @ late \<and>
       list_all2 (\<lambda>x f. o_status x = O_filled \<and> f_orderId f = o_id x \<and>
          f_fillBarIndex f = o_decisionBarIndex x + (if o_protection x \<or> x_settlesSameBar demo_core then 0 else 1)) os (fills (s_acc r)) \<and>
       (late = [] \<or> (\<exists>x. late = [x] \<and> o_status x = O_expired \<and> Suc (o_decisionBarIndex x) = 4 \<and> \<not> x_settlesSameBar demo_core)))"
proof -
  obtain r ov' where r: "demo_run [0, 1, 2, 3] = Inr (r, ov')" and f: "length (fills (s_acc r)) = 2"
    using demo_runs by (auto simp: demo_outcome_def split: sum.splits prod.splits)
  have "length (en_candles (demo_env [0, 1, 2, 3])) = 4" by (simp add: demo_env_def demo_bars_def)
  thus ?thesis
    using orders_accounted [OF demo_contract r] r f by (simp add: demo_env_def freshState_def demo_core_def)
qed



definition demo_acc :: "nat list \<Rightarrow> run_accumulators" where
  "demo_acc tss = emptyAcc\<lparr>equityCurve := map (\<lambda>t. \<lparr>e_barIndex = t, e_barTs = int t, e_equity = JFin 1\<rparr>) tss\<rparr>"

lemma accumulators_merge_witness:
  "\<exists>m. mergeAccumulators (\<lambda>a b. b) [demo_acc [0, 2], demo_acc [1, 2]] = Inr m \<and> sorted_wrt (<) (map e_barTs (equityCurve m)) \<and>
    set (map e_barTs (equityCurve m)) = {0, 1, 2}"
proof -
  have "\<forall>a \<in> set [demo_acc [0, 2], demo_acc [1, 2]]. sorted (map e_barTs (equityCurve a))"
    by (simp add: demo_acc_def)
  from accumulators_merge [OF this, where add = "\<lambda>a b. b"] show ?thesis
    by (auto simp: demo_acc_def)
qed

definition demo_data :: "string \<Rightarrow> bar list" where
  "demo_data symbol = (if symbol = ''ETH'' then demo_bars [1, 3, 4] else if symbol = ''BTC'' then demo_bars [0, 1, 2, 3] else [])"

lemma bar_major_is_basket_witness:
  "\<exists>acc n rs merged. runBarMajor demo_core demo_validator ''s'' demo_trusted (\<lambda>a b. b) (\<lambda>_. None) demo_data (\<lambda>_. 0) ([], []) None True
      [''BTC'', ''XRP'', ''ETH''] () = Inr ((acc, n), ()) \<and> n = 7 \<and>
    list_all2 (\<lambda>symbol r. \<exists>env. symbolEnv demo_core (\<lambda>_. None) symbol (demo_data symbol) ([], []) None None = Inr env \<and>
       runSymbol demo_core demo_validator ''s'' demo_trusted env (freshState demo_core 0, ()) = Inr (r, ())) [''BTC'', ''ETH''] rs \<and>
    mergeAccumulators (\<lambda>a b. b) (map s_acc rs) = Inr merged \<and> acc = indexOrders (orders merged) merged"
proof -
  let ?run = "runBarMajor demo_core demo_validator ''s'' demo_trusted (\<lambda>a b. b) (\<lambda>_. None) demo_data (\<lambda>_. 0 :: nat) ([], []) None True
      [''BTC'', ''XRP'', ''ETH''] ()"
  have "\<not> isl ?run" by code_simp
  then obtain acc n where r: "?run = Inr ((acc, n), ())" by (cases ?run) auto
  have sorted: "\<forall>symbol \<in> set [''BTC'', ''XRP'', ''ETH'']. sorted_wrt (<) (map b_ts (demo_data symbol))"
    by (simp add: demo_data_def demo_bars_def)
  from bar_major_is_basket [OF this, THEN iffD1, OF r] r show ?thesis
    by (auto simp: demo_data_def demo_bars_def)
qed

end
