(* ===== verification/Backtest_Run.thy ===== *)
theory Backtest_Run
  imports Bar_Major
begin

text \<open>
  \<open>runBacktest\<close> of \<open>engine/runner.ts\<close>, with the first admission check of \<open>engine/actor/admission.ts\<close>: the checks of a
  request in their order, the router that is closed whatever happens, the baseline and the variant.  The contract
  validator, the registry, the constructors of the execution core, the executors a router hands out and the actor
  runtime are parameters.  A result is its accumulators and its number of bars.  The module a symbol of a
  target starts with is a parameter too: a strategy with a factory starts every target with fresh modules, one without
  starts the variant with what the baseline has left behind.
\<close>

subsection \<open>Requests, registries and dependencies\<close>

datatype validation_input = V_run_request json | V_module json

record resolved_strategy =
  rs_manifest :: json
  rs_hasFactory :: bool
  rs_bundleProvenance :: bool
  rs_hasBundle :: bool

record backtest_registry =
  rg_strategy :: "mref \<Rightarrow> resolved_strategy option"
  rg_overlay :: "mref \<Rightarrow> json option"
  rg_riskProfile :: "mref \<Rightarrow> json option"
  rg_executionProfile :: "mref \<Rightarrow> json option"

record coverage_entry =
  ce_symbol :: string
  ce_kind :: string
  ce_coveredMinutes :: int

record backtest_request =
  bq_json :: json
  bq_moduleRef :: mref
  bq_symbols :: "string list"
  bq_riskProfileRef :: "mref option"
  bq_executionProfileRef :: "mref option"
  bq_overlayRefs :: "mref list"
  bq_datasetRef :: string

record tape_source =
  ts_tape :: market_tape
  ts_candles :: "string \<Rightarrow> bar list"
  ts_coverage :: "coverage_entry list"

type_synonym run_result = "run_accumulators \<times> nat"

datatype backtest_outcome = Rejected "run_issue list" | Completed run_result "run_result option"

datatype target_kind = Baseline_target | Variant_target

datatype router_event = Router_built | Router_closed

record ('p, 'm, 'o) run_deps =
  bd_validate :: "validation_input \<Rightarrow> string list \<Rightarrow> run_issue list option"
  bd_registry :: backtest_registry
  bd_marketKinds :: "string list"
  bd_dataset :: "(string \<Rightarrow> bar list) option"
  bd_marketTape :: "tape_source option"
  bd_loadDataset :: "string \<Rightarrow> engine_error + (string \<Rightarrow> bar list)"
  bd_universe :: "(bool \<times> nat) option"
  bd_eventDrivenEnabled :: bool
  bd_barBatching :: "int option"
  bd_barMajor :: bool
  bd_barMajorBatch :: bool
  bd_core :: "json \<Rightarrow> json \<Rightarrow> engine_error + 'p core"
  bd_executor :: "resolved_strategy \<Rightarrow> ('m, 'o) executor"
  bd_modules :: "target_kind \<Rightarrow> string \<Rightarrow> 'm"
  bd_actor :: "backtest_request \<Rightarrow> engine_error + backtest_outcome"
  bd_add :: "jsnum \<Rightarrow> jsnum \<Rightarrow> jsnum"
  bd_parseTimeframe :: "string \<Rightarrow> int option"

subsection \<open>The checks before anything runs\<close>

definition rejected :: "string \<Rightarrow> string \<Rightarrow> run_issue list + 'a" where
  "rejected code path = Inl [\<lparr>ri_code = code, ri_path = path\<rparr>]"

definition text_field :: "json \<Rightarrow> string \<Rightarrow> string" where
  "text_field j k = orElse (as_str (field j k)) []"

definition SUPPORTED_INTERCEPTION_POINTS :: "string list" where
  "SUPPORTED_INTERCEPTION_POINTS = [''entry'', ''signal'', ''post_entry_management'']"

definition SUPPORTED_FILL_MODEL_KINDS :: "string list" where
  "SUPPORTED_FILL_MODEL_KINDS = [''next_bar_open'', ''same_bar_close'']"

definition require :: "'a option \<Rightarrow> string \<Rightarrow> string \<Rightarrow> run_issue list + 'a" where
  "require x code path = (case x of None \<Rightarrow> rejected code path | Some a \<Rightarrow> Inr a)"

definition accepted :: "run_issue list option \<Rightarrow> run_issue list + unit" where
  "accepted v = (case v of Some issues \<Rightarrow> Inl issues | None \<Rightarrow> Inr ())"

definition guard :: "bool \<Rightarrow> string \<Rightarrow> string \<Rightarrow> run_issue list + unit" where
  "guard ok code path = (if ok then Inr () else rejected code path)"

definition needsFactory :: "backtest_request \<Rightarrow> resolved_strategy \<Rightarrow> bool" where
  "needsFactory q s = (length (bq_symbols q) > 1 \<and> \<not> rs_hasFactory s \<and> \<not> (rs_bundleProvenance s \<and> rs_hasBundle s))"

definition supportedText :: "json \<Rightarrow> string list \<Rightarrow> bool" where
  "supportedText j allowed = (case j of JStr s \<Rightarrow> s \<in> set allowed | _ \<Rightarrow> False)"

definition overlayOf :: "json \<Rightarrow> resolved_overlay" where
  "overlayOf manifest = \<lparr>ov_id = text_field manifest ''id'', ov_version = text_field manifest ''version'',
     ov_interceptionPoint = field manifest ''interceptionPoint''\<rparr>"

fun resolveOverlays :: "('p, 'm, 'o) run_deps \<Rightarrow> string \<Rightarrow> nat \<Rightarrow> mref list \<Rightarrow> run_issue list + json list" where
  "resolveOverlays D strategyId i [] = Inr []"
| "resolveOverlays D strategyId i (ref # refs) =
     then_do (require (rg_overlay (bd_registry D) ref) ''invalid_module_ref'' (''/overlayRefs/'' @ showNat i)) (\<lambda>manifest.
     then_do (accepted (bd_validate D (V_module manifest) [strategyId])) (\<lambda>_.
     then_do (guard (supportedText (field manifest ''interceptionPoint'') SUPPORTED_INTERCEPTION_POINTS)
        ''overlay_composition_invalid'' (''/overlayRefs/'' @ showNat i)) (\<lambda>_.
     then_do (resolveOverlays D strategyId (Suc i) refs) (\<lambda>rest. Inr (manifest # rest)))))"

record checked =
  ck_strategy :: resolved_strategy
  ck_risk :: json
  ck_execution :: json
  ck_overlays :: "json list"

definition checkRequest :: "('p, 'm, 'o) run_deps \<Rightarrow> backtest_request \<Rightarrow> run_issue list + checked" where
  "checkRequest D q =
     then_do (accepted (bd_validate D (V_run_request (bq_json q)) [])) (\<lambda>_.
     then_do (require (rg_strategy (bd_registry D) (bq_moduleRef q)) ''invalid_module_ref'' ''/moduleRef'') (\<lambda>s.
     then_do (guard (\<not> needsFactory q s) ''invalid_module_ref'' ''/symbols'') (\<lambda>_.
     then_do (require (bq_riskProfileRef q) ''missing_risk_profile'' ''/riskProfileRef'') (\<lambda>riskRef.
     then_do (require (rg_riskProfile (bd_registry D) riskRef) ''missing_risk_profile'' ''/riskProfileRef'') (\<lambda>risk.
     then_do (require (bq_executionProfileRef q) ''invalid_module_ref'' ''/executionProfileRef'') (\<lambda>execRef.
     then_do (require (rg_executionProfile (bd_registry D) execRef) ''invalid_module_ref'' ''/executionProfileRef'') (\<lambda>execution.
     then_do (guard (supportedText (field (field execution ''fillModel'') ''kind'') SUPPORTED_FILL_MODEL_KINDS)
        ''unsupported_fill_model_kind'' ''/executionProfile/fillModel/kind'') (\<lambda>_.
     then_do (accepted (bd_validate D (V_module (rs_manifest s)) [text_field (rs_manifest s) ''id''])) (\<lambda>_.
     then_do (resolveOverlays D (text_field (rs_manifest s) ''id'') 0 (bq_overlayRefs q)) (\<lambda>ovs.
     Inr \<lparr>ck_strategy = s, ck_risk = risk, ck_execution = execution, ck_overlays = ovs\<rparr>))))))))))"

text \<open>The declared kinds are a set in the order in which they are first met.\<close>

definition declaredMarketKinds :: "string list \<Rightarrow> json \<Rightarrow> json list \<Rightarrow> string list" where
  "declaredMarketKinds supported strategyManifest overlayManifests = rev (remdups (rev (concat
     (map (\<lambda>manifest. [k \<leftarrow> supported. field (field manifest ''dataNeeds'') k = JBool True]) (strategyManifest # overlayManifests)))))"

definition isKindFullyUncovered :: "coverage_entry list option \<Rightarrow> string list \<Rightarrow> string \<Rightarrow> bool" where
  "isKindFullyUncovered coverage symbols kind = (case coverage of None \<Rightarrow> True
     | Some entries \<Rightarrow> list_all (\<lambda>symbol. case List.find (\<lambda>e. ce_symbol e = symbol \<and> ce_kind e = kind) entries of
           None \<Rightarrow> True | Some e \<Rightarrow> \<not> ce_coveredMinutes e > 0) symbols)"

definition marketGate :: "('p, 'm, 'o) run_deps \<Rightarrow> backtest_request \<Rightarrow> checked \<Rightarrow> run_issue list + unit" where
  "marketGate D q ck = (case List.find (isKindFullyUncovered (map_option ts_coverage (bd_marketTape D)) (bq_symbols q))
       (declaredMarketKinds (bd_marketKinds D) (rs_manifest (ck_strategy ck)) (ck_overlays ck)) of
     Some kind \<Rightarrow> rejected ''missing_required_market_data'' (''/dataNeeds/'' @ kind)
   | None \<Rightarrow> Inr ())"

definition universeCap :: "('p, 'm, 'o) run_deps \<Rightarrow> backtest_request \<Rightarrow> run_issue list + unit" where
  "universeCap D q = guard (\<not> (case bd_universe D of Some (True, maxN) \<Rightarrow> length (bq_symbols q) > maxN | _ \<Rightarrow> False))
     ''incomplete_run_request'' ''/symbols''"

definition isEventDriven :: "resolved_strategy \<Rightarrow> bool" where
  "isEventDriven s = (field (rs_manifest s) ''lifecycle'' = JStr ''event_driven'')"

definition admitActorRun :: "('p, 'm, 'o) run_deps \<Rightarrow> resolved_strategy \<Rightarrow> run_issue list + unit" where
  "admitActorRun D s = (
     if \<not> isEventDriven s then Inr ()
     else if \<not> bd_eventDrivenEnabled D then rejected ''unsupported_lifecycle'' ''''
     else if bd_barBatching D \<noteq> None then rejected ''unsupported_lifecycle'' ''''
     else if bd_barMajorBatch D then rejected ''unsupported_lifecycle'' ''''
     else Inr ())"

definition datasetOf :: "('p, 'm, 'o) run_deps \<Rightarrow> backtest_request \<Rightarrow> engine_error + (string \<Rightarrow> bar list)" where
  "datasetOf D q = (case bd_dataset D of Some d \<Rightarrow> Inr d | None \<Rightarrow>
     (case bd_marketTape D of Some t \<Rightarrow> Inr (ts_candles t) | None \<Rightarrow> bd_loadDataset D (bq_datasetRef q)))"

subsection \<open>The run\<close>

definition simulate :: "validator \<Rightarrow> string \<Rightarrow> ('p, 'm, 'o) run_deps \<Rightarrow> backtest_request \<Rightarrow> checked \<Rightarrow> 'p core \<Rightarrow>
    (string \<Rightarrow> bar list) \<Rightarrow> target_kind \<Rightarrow> resolved_overlay list \<Rightarrow> 'o \<Rightarrow> engine_error + run_result \<times> 'o" where
  "simulate V sid D q ck C dataset kind overlays ov =
     simulateTarget C V sid (bd_executor D (ck_strategy ck)) (bd_add D) (bd_parseTimeframe D) dataset (bd_modules D kind) overlays
       (map_option ts_tape (bd_marketTape D)) (bd_barBatching D) (bd_barMajor D) (bd_barMajorBatch D) (bq_symbols q) ov"

text \<open>What happens while the router is open.\<close>

definition runTargets :: "validator \<Rightarrow> string \<Rightarrow> ('p, 'm, 'o) run_deps \<Rightarrow> backtest_request \<Rightarrow> checked \<Rightarrow>
    (string \<Rightarrow> bar list) \<Rightarrow> 'o \<Rightarrow> engine_error + backtest_outcome \<times> 'o" where
  "runTargets V sid D q ck dataset ov = (
     if isEventDriven (ck_strategy ck) then then_do (bd_actor D q) (\<lambda>outcome. Inr (outcome, ov))
     else then_do (bd_core D (ck_risk ck) (ck_execution ck)) (\<lambda>C.
       then_do (simulate V sid D q ck C dataset Baseline_target [] ov) (\<lambda>(baseline, ov1).
       if ck_overlays ck = [] then Inr (Completed baseline None, ov1)
       else then_do (simulate V sid D q ck C dataset Variant_target (map overlayOf (ck_overlays ck)) ov1) (\<lambda>(variant, ov2).
            Inr (Completed baseline (Some variant), ov2)))))"

definition runBacktest :: "validator \<Rightarrow> string \<Rightarrow> ('p, 'm, 'o) run_deps \<Rightarrow> backtest_request \<Rightarrow> 'o \<Rightarrow>
    router_event list \<times> (engine_error + backtest_outcome \<times> 'o)" where
  "runBacktest V sid D q ov = (case checkRequest D q of
     Inl issues \<Rightarrow> ([], Inr (Rejected issues, ov))
   | Inr ck \<Rightarrow> (case datasetOf D q of
       Inl e \<Rightarrow> ([], Inl e)
     | Inr dataset \<Rightarrow>
       (case then_do (marketGate D q ck) (\<lambda>_. then_do (universeCap D q) (\<lambda>_. admitActorRun D (ck_strategy ck))) of
          Inl issues \<Rightarrow> ([], Inr (Rejected issues, ov))
        | Inr _ \<Rightarrow> ([Router_built, Router_closed], runTargets V sid D q ck dataset ov))))"

subsection \<open>What a completed run has passed\<close>

lemma check_simps [simp]:
  "require x code path = Inr a \<longleftrightarrow> x = Some a" "accepted v = Inr u \<longleftrightarrow> v = None" "guard ok code path = Inr u \<longleftrightarrow> ok"
  "rejected code path \<noteq> Inr a"
  by (auto simp: require_def accepted_def guard_def rejected_def split: option.splits)

lemma resolveOverlays_iff:
  "resolveOverlays D strategyId i refs = Inr manifests \<longleftrightarrow> list_all2 (\<lambda>ref manifest. rg_overlay (bd_registry D) ref = Some manifest \<and>
     bd_validate D (V_module manifest) [strategyId] = None \<and>
     supportedText (field manifest ''interceptionPoint'') SUPPORTED_INTERCEPTION_POINTS) refs manifests"
  by (induction refs arbitrary: i manifests) (auto simp: then_do_eq_Inr list_all2_Cons1)

lemma declaredMarketKinds_set:
  "set (declaredMarketKinds supported m ms) = {k \<in> set supported. \<exists>manifest \<in> insert m (set ms). field (field manifest ''dataNeeds'') k = JBool True}"
  by (auto simp: declaredMarketKinds_def)

lemma covered_iff:
  "\<not> isKindFullyUncovered coverage symbols kind \<longleftrightarrow> (\<exists>entries symbol e. coverage = Some entries \<and> symbol \<in> set symbols \<and>
     List.find (\<lambda>e. ce_symbol e = symbol \<and> ce_kind e = kind) entries = Some e \<and> 0 < ce_coveredMinutes e)"
  by (auto simp: isKindFullyUncovered_def list_all_iff split: option.splits)

lemma marketGate_iff:
  "marketGate D q ck = Inr u \<longleftrightarrow> (\<forall>k \<in> set (declaredMarketKinds (bd_marketKinds D) (rs_manifest (ck_strategy ck)) (ck_overlays ck)).
     \<not> isKindFullyUncovered (map_option ts_coverage (bd_marketTape D)) (bq_symbols q) k)"
proof (cases "List.find (isKindFullyUncovered (map_option ts_coverage (bd_marketTape D)) (bq_symbols q))
    (declaredMarketKinds (bd_marketKinds D) (rs_manifest (ck_strategy ck)) (ck_overlays ck))")
  case None
  moreover from this have "\<forall>k \<in> set (declaredMarketKinds (bd_marketKinds D) (rs_manifest (ck_strategy ck)) (ck_overlays ck)).
      \<not> isKindFullyUncovered (map_option ts_coverage (bd_marketTape D)) (bq_symbols q) k" by (simp add: find_None_iff)
  ultimately show ?thesis by (simp add: marketGate_def)
next
  case (Some k)
  hence "\<exists>k \<in> set (declaredMarketKinds (bd_marketKinds D) (rs_manifest (ck_strategy ck)) (ck_overlays ck)).
      isKindFullyUncovered (map_option ts_coverage (bd_marketTape D)) (bq_symbols q) k"
    unfolding find_Some_iff using nth_mem by blast
  thus ?thesis using Some by (simp add: marketGate_def)
qed

lemma universeCap_iff: "universeCap D q = Inr u \<longleftrightarrow> (\<forall>n. bd_universe D = Some (True, n) \<longrightarrow> length (bq_symbols q) \<le> n)"
  by (auto simp: universeCap_def split: option.splits bool.splits)

lemma runTargets_legacy:
  assumes "\<not> isEventDriven (ck_strategy ck)"
  shows "runTargets V sid D q ck dataset ov = Inr (outcome, ov') \<longleftrightarrow> (\<exists>C baseline ov1.
     bd_core D (ck_risk ck) (ck_execution ck) = Inr C \<and> simulate V sid D q ck C dataset Baseline_target [] ov = Inr (baseline, ov1) \<and>
     (if ck_overlays ck = [] then outcome = Completed baseline None \<and> ov' = ov1
      else \<exists>variant. outcome = Completed baseline (Some variant) \<and>
        simulate V sid D q ck C dataset Variant_target (map overlayOf (ck_overlays ck)) ov1 = Inr (variant, ov')))"
  using assms by (auto simp: runTargets_def then_do_eq_Inr split: if_splits)

lemma runBacktest_completed:
  "(\<exists>log. runBacktest V sid D q ov = (log, Inr (Completed b v, ov'))) \<longleftrightarrow> (\<exists>ck dataset. checkRequest D q = Inr ck \<and>
     datasetOf D q = Inr dataset \<and> marketGate D q ck = Inr () \<and> universeCap D q = Inr () \<and>
     admitActorRun D (ck_strategy ck) = Inr () \<and> runTargets V sid D q ck dataset ov = Inr (Completed b v, ov'))"
  by (auto simp: runBacktest_def then_do_eq_Inr split: sum.splits)

lemma checkRequest_iff:
  assumes "rg_strategy (bd_registry D) (bq_moduleRef q) = Some s"
  shows "checkRequest D q = Inr ck \<longleftrightarrow> bd_validate D (V_run_request (bq_json q)) [] = None \<and>
     bd_validate D (V_module (rs_manifest s)) [text_field (rs_manifest s) ''id''] = None \<and> \<not> needsFactory q s \<and> ck_strategy ck = s \<and>
     (\<exists>riskRef execRef. bq_riskProfileRef q = Some riskRef \<and> rg_riskProfile (bd_registry D) riskRef = Some (ck_risk ck) \<and>
        bq_executionProfileRef q = Some execRef \<and> rg_executionProfile (bd_registry D) execRef = Some (ck_execution ck)) \<and>
     supportedText (field (field (ck_execution ck) ''fillModel'') ''kind'') SUPPORTED_FILL_MODEL_KINDS \<and>
     list_all2 (\<lambda>ref manifest. rg_overlay (bd_registry D) ref = Some manifest \<and>
        bd_validate D (V_module manifest) [text_field (rs_manifest s) ''id''] = None \<and>
        supportedText (field manifest ''interceptionPoint'') SUPPORTED_INTERCEPTION_POINTS) (bq_overlayRefs q) (ck_overlays ck)"
  using assms by (cases ck) (auto simp: checkRequest_def then_do_eq_Inr resolveOverlays_iff)

lemma runBacktest_log:
  "fst (runBacktest V sid D q ov) = [] \<or> fst (runBacktest V sid D q ov) = [Router_built, Router_closed]"
  by (auto simp: runBacktest_def split: sum.splits)

lemma runBacktest_rejected:
  assumes "snd (runBacktest V sid D q ov) = Inr (Rejected issues, ov')"
    and "\<And>s. rg_strategy (bd_registry D) (bq_moduleRef q) = Some s \<Longrightarrow> \<not> isEventDriven s"
  shows "fst (runBacktest V sid D q ov) = [] \<and> ov' = ov"
proof -
  have "\<not> isEventDriven (ck_strategy ck)" if "checkRequest D q = Inr ck" for ck
    using that assms(2) by (auto simp: checkRequest_def then_do_eq_Inr)
  hence "runTargets V sid D q ck dataset ov \<noteq> Inr (Rejected issues, ov')" if "checkRequest D q = Inr ck" for ck dataset
    using that by (auto simp: runTargets_legacy split: if_splits)
  thus ?thesis using assms(1) by (auto simp: runBacktest_def split: sum.splits)
qed

text \<open>Claim C7. A run is computed only after every check.  Of a strategy that is not event-driven, a run completes exactly
  when the request and every manifest are valid, every reference resolves, several symbols come with a factory or a
  sandboxed bundle, the fill model and every interception point are supported, every declared market kind has a
  covered minute for some symbol, and the universe cap holds; its baseline is then the simulation without overlays and
  its variant, if overlays are asked for, the simulation with them in the requested order.  A refused request builds
  no router and runs no hook, and a router that was built is closed, also when the simulation throws.\<close>

theorem backtest_gate:
  assumes "rg_strategy (bd_registry D) (bq_moduleRef q) = Some s" and "\<not> isEventDriven s"
  shows "((\<exists>log. runBacktest V sid D q ov = (log, Inr (Completed baseline variant, ov'))) \<longleftrightarrow>
     bd_validate D (V_run_request (bq_json q)) [] = None \<and> bd_validate D (V_module (rs_manifest s)) [text_field (rs_manifest s) ''id''] = None \<and>
     (length (bq_symbols q) > 1 \<longrightarrow> rs_hasFactory s \<or> rs_bundleProvenance s \<and> rs_hasBundle s) \<and>
     (\<forall>n. bd_universe D = Some (True, n) \<longrightarrow> length (bq_symbols q) \<le> n) \<and>
     (\<exists>riskRef execRef risk execution manifests dataset C ov1.
        bq_riskProfileRef q = Some riskRef \<and> rg_riskProfile (bd_registry D) riskRef = Some risk \<and>
        bq_executionProfileRef q = Some execRef \<and> rg_executionProfile (bd_registry D) execRef = Some execution \<and>
        supportedText (field (field execution ''fillModel'') ''kind'') SUPPORTED_FILL_MODEL_KINDS \<and>
        list_all2 (\<lambda>ref manifest. rg_overlay (bd_registry D) ref = Some manifest \<and>
           bd_validate D (V_module manifest) [text_field (rs_manifest s) ''id''] = None \<and>
           supportedText (field manifest ''interceptionPoint'') SUPPORTED_INTERCEPTION_POINTS) (bq_overlayRefs q) manifests \<and>
        datasetOf D q = Inr dataset \<and>
        (\<forall>k \<in> set (bd_marketKinds D). (\<exists>manifest \<in> insert (rs_manifest s) (set manifests). field (field manifest ''dataNeeds'') k = JBool True) \<longrightarrow>
           (\<exists>tape symbol e. bd_marketTape D = Some tape \<and> symbol \<in> set (bq_symbols q) \<and>
             List.find (\<lambda>e. ce_symbol e = symbol \<and> ce_kind e = k) (ts_coverage tape) = Some e \<and> 0 < ce_coveredMinutes e)) \<and>
        bd_core D risk execution = Inr C \<and>
        simulateTarget C V sid (bd_executor D s) (bd_add D) (bd_parseTimeframe D) dataset (bd_modules D Baseline_target) [] (map_option ts_tape (bd_marketTape D))
          (bd_barBatching D) (bd_barMajor D) (bd_barMajorBatch D) (bq_symbols q) ov = Inr (baseline, ov1) \<and>
        (if manifests = [] then variant = None \<and> ov' = ov1
         else \<exists>v. variant = Some v \<and> simulateTarget C V sid (bd_executor D s) (bd_add D) (bd_parseTimeframe D) dataset (bd_modules D Variant_target)
           (map overlayOf manifests) (map_option ts_tape (bd_marketTape D)) (bd_barBatching D) (bd_barMajor D) (bd_barMajorBatch D)
           (bq_symbols q) ov1 = Inr (v, ov')))) \<and>
     (fst (runBacktest V sid D q ov) = [] \<or> fst (runBacktest V sid D q ov) = [Router_built, Router_closed]) \<and>
     (\<forall>issues ov2. snd (runBacktest V sid D q ov) = Inr (Rejected issues, ov2) \<longrightarrow> fst (runBacktest V sid D q ov) = [] \<and> ov2 = ov)"
    (is "(?L \<longleftrightarrow> ?R) \<and> _ \<and> _")
proof (intro conjI)
  show "\<forall>issues ov2. snd (runBacktest V sid D q ov) = Inr (Rejected issues, ov2) \<longrightarrow> fst (runBacktest V sid D q ov) = [] \<and> ov2 = ov"
    using runBacktest_rejected assms by (metis option.inject)
  have admit: "admitActorRun D s = Inr ()" using assms(2) by (simp add: admitActorRun_def)
  note step = checkRequest_iff [OF assms(1)] runBacktest_completed marketGate_iff universeCap_iff declaredMarketKinds_set
  show "?L \<longleftrightarrow> ?R"
  proof
    assume ?L
    then obtain ck dataset where ck: "checkRequest D q = Inr ck" and d: "datasetOf D q = Inr dataset" "marketGate D q ck = Inr ()"
        "universeCap D q = Inr ()" and r: "runTargets V sid D q ck dataset ov = Inr (Completed baseline variant, ov')"
      unfolding runBacktest_completed by blast
    note c = ck [unfolded checkRequest_iff [OF assms(1)]]
    have s: "ck_strategy ck = s" "\<not> isEventDriven (ck_strategy ck)" using c assms(2) by auto
    have mk: "\<forall>k \<in> set (bd_marketKinds D). (\<exists>manifest \<in> insert (rs_manifest s) (set (ck_overlays ck)). field (field manifest ''dataNeeds'') k = JBool True) \<longrightarrow>
           (\<exists>tape symbol e. bd_marketTape D = Some tape \<and> symbol \<in> set (bq_symbols q) \<and>
             List.find (\<lambda>e. ce_symbol e = symbol \<and> ce_kind e = k) (ts_coverage tape) = Some e \<and> 0 < ce_coveredMinutes e)"
      using d(2) unfolding marketGate_iff declaredMarketKinds_set covered_iff s(1) map_option_eq_Some by blast
    obtain riskRef execRef where refs: "bq_riskProfileRef q = Some riskRef" "rg_riskProfile (bd_registry D) riskRef = Some (ck_risk ck)"
        "bq_executionProfileRef q = Some execRef" "rg_executionProfile (bd_registry D) execRef = Some (ck_execution ck)"
      using c by blast
    obtain C ov1 where sim: "bd_core D (ck_risk ck) (ck_execution ck) = Inr C"
        "simulate V sid D q ck C dataset Baseline_target [] ov = Inr (baseline, ov1)"
        "if ck_overlays ck = [] then variant = None \<and> ov' = ov1
         else \<exists>v. variant = Some v \<and> simulate V sid D q ck C dataset Variant_target (map overlayOf (ck_overlays ck)) ov1 = Inr (v, ov')"
      using r unfolding runTargets_legacy [OF s(2)] by (elim exE conjE) (rule that, simp_all split: if_splits)
    show ?R
      using c d(3) unfolding universeCap_iff
      by (intro conjI exI [of _ riskRef] exI [of _ execRef] exI [of _ "ck_risk ck"] exI [of _ "ck_execution ck"] exI [of _ "ck_overlays ck"]
            exI [of _ dataset] exI [of _ C] exI [of _ ov1])
         (use refs d(1) mk sim s in \<open>auto simp: simulate_def needsFactory_def\<close>)
  next
    assume ?R
    then obtain riskRef execRef risk execution manifests dataset C ov1 where
      v: "bd_validate D (V_run_request (bq_json q)) [] = None" "bd_validate D (V_module (rs_manifest s)) [text_field (rs_manifest s) ''id''] = None"
        "length (bq_symbols q) > 1 \<longrightarrow> rs_hasFactory s \<or> rs_bundleProvenance s \<and> rs_hasBundle s"
        "\<forall>n. bd_universe D = Some (True, n) \<longrightarrow> length (bq_symbols q) \<le> n"
      and refs: "bq_riskProfileRef q = Some riskRef" "rg_riskProfile (bd_registry D) riskRef = Some risk"
        "bq_executionProfileRef q = Some execRef" "rg_executionProfile (bd_registry D) execRef = Some execution"
        "supportedText (field (field execution ''fillModel'') ''kind'') SUPPORTED_FILL_MODEL_KINDS"
      and ovs: "list_all2 (\<lambda>ref manifest. rg_overlay (bd_registry D) ref = Some manifest \<and>
           bd_validate D (V_module manifest) [text_field (rs_manifest s) ''id''] = None \<and>
           supportedText (field manifest ''interceptionPoint'') SUPPORTED_INTERCEPTION_POINTS) (bq_overlayRefs q) manifests"
      and d: "datasetOf D q = Inr dataset"
      and mk: "\<forall>k \<in> set (bd_marketKinds D). (\<exists>manifest \<in> insert (rs_manifest s) (set manifests). field (field manifest ''dataNeeds'') k = JBool True) \<longrightarrow>
           (\<exists>tape symbol e. bd_marketTape D = Some tape \<and> symbol \<in> set (bq_symbols q) \<and>
             List.find (\<lambda>e. ce_symbol e = symbol \<and> ce_kind e = k) (ts_coverage tape) = Some e \<and> 0 < ce_coveredMinutes e)"
      and sim: "bd_core D risk execution = Inr C"
        "simulateTarget C V sid (bd_executor D s) (bd_add D) (bd_parseTimeframe D) dataset (bd_modules D Baseline_target) [] (map_option ts_tape (bd_marketTape D))
          (bd_barBatching D) (bd_barMajor D) (bd_barMajorBatch D) (bq_symbols q) ov = Inr (baseline, ov1)"
        "if manifests = [] then variant = None \<and> ov' = ov1
         else \<exists>v. variant = Some v \<and> simulateTarget C V sid (bd_executor D s) (bd_add D) (bd_parseTimeframe D) dataset (bd_modules D Variant_target)
           (map overlayOf manifests) (map_option ts_tape (bd_marketTape D)) (bd_barBatching D) (bd_barMajor D) (bd_barMajorBatch D)
           (bq_symbols q) ov1 = Inr (v, ov')"
      by (elim conjE exE) (rule that)
    let ?ck = "\<lparr>ck_strategy = s, ck_risk = risk, ck_execution = execution, ck_overlays = manifests\<rparr>"
    have "checkRequest D q = Inr ?ck"
      unfolding checkRequest_iff [OF assms(1)] using v refs ovs by (simp add: needsFactory_def)
    moreover have "marketGate D q ?ck = Inr ()"
      unfolding marketGate_iff declaredMarketKinds_set covered_iff map_option_eq_Some using mk by simp blast
    moreover have "universeCap D q = Inr ()" unfolding universeCap_iff by (rule v(4))
    moreover have "runTargets V sid D q ?ck dataset ov = Inr (Completed baseline variant, ov')"
      using sim assms(2) by (subst runTargets_legacy) (auto simp: simulate_def split: if_splits)
    ultimately show ?L unfolding runBacktest_completed using d admit by (intro exI [of _ ?ck] exI [of _ dataset]) simp
  qed
qed (rule runBacktest_log)

end
