(* ===== verification/Backtest_Demo.thy ===== *)
theory Backtest_Demo
  imports Backtest_Run Engine_Demo
begin

text \<open>A concrete request, for the witness of the checks of a run.\<close>

definition demo_strategy :: resolved_strategy where
  "demo_strategy = \<lparr>rs_manifest = JObj [(''id'', JStr ''demo''), (''dataNeeds'', JObj [(''funding'', JBool True)])],
     rs_hasFactory = True, rs_bundleProvenance = False, rs_hasBundle = False\<rparr>"

definition demo_ref :: mref where
  "demo_ref = \<lparr>ref_id = ''demo'', ref_version = ''1''\<rparr>"

definition demo_overlay :: json where
  "demo_overlay = JObj [(''id'', JStr ''guard''), (''version'', JStr ''1''), (''interceptionPoint'', JStr ''entry'')]"

definition demo_request :: backtest_request where
  "demo_request = \<lparr>bq_json = JObj [], bq_moduleRef = demo_ref, bq_symbols = [''BTC'', ''ETH''], bq_riskProfileRef = Some demo_ref,
     bq_executionProfileRef = Some demo_ref, bq_overlayRefs = [demo_ref], bq_datasetRef = ''d''\<rparr>"

definition demo_tape :: tape_source where
  "demo_tape = \<lparr>ts_tape = \<lparr>mt_timeframe = ''1m'', mt_funding = (\<lambda>_. None)\<rparr>, ts_candles = demo_data,
     ts_coverage = [\<lparr>ce_symbol = ''ETH'', ce_kind = ''funding'', ce_coveredMinutes = 2\<rparr>]\<rparr>"

definition demo_deps :: "(demo_portfolio, nat, unit) run_deps" where
  "demo_deps = \<lparr>bd_validate = (\<lambda>_ _. None),
     bd_registry = \<lparr>rg_strategy = (\<lambda>_. Some demo_strategy), rg_overlay = (\<lambda>_. Some demo_overlay), rg_riskProfile = (\<lambda>_. Some (JObj [])),
        rg_executionProfile = (\<lambda>_. Some (JObj [(''fillModel'', JObj [(''kind'', JStr ''next_bar_open'')])]))\<rparr>,
     bd_marketKinds = [''funding''], bd_dataset = None, bd_marketTape = Some demo_tape, bd_loadDataset = (\<lambda>_. Inr (\<lambda>_. [])),
     bd_universe = None, bd_eventDrivenEnabled = False, bd_barBatching = None, bd_barMajor = True, bd_barMajorBatch = False,
     bd_core = (\<lambda>_ _. Inr demo_core), bd_executor = (\<lambda>_. demo_trusted), bd_modules = (\<lambda>_ _. 0), bd_actor = (\<lambda>_. Inr (Rejected [])),
     bd_add = (\<lambda>a b. b), bd_parseTimeframe = (\<lambda>_. None)\<rparr>"

lemma backtest_gate_witness:
  "\<exists>log baseline variant ov1. runBacktest demo_validator ''s'' demo_deps demo_request () = (log, Inr (Completed baseline (Some variant), ())) \<and>
     log = [Router_built, Router_closed] \<and>
     simulateTarget demo_core demo_validator ''s'' demo_trusted (\<lambda>a b. b) (\<lambda>_. None) demo_data (\<lambda>_. 0) [] (Some (ts_tape demo_tape)) None True False
       [''BTC'', ''ETH''] () = Inr (baseline, ov1)"
proof -
  let ?run = "runBacktest demo_validator ''s'' demo_deps demo_request ()"
  have "case snd ?run of Inr (Completed b (Some v), u) \<Rightarrow> fst ?run = [Router_built, Router_closed] | _ \<Rightarrow> False" by code_simp
  then obtain log baseline variant where r: "?run = (log, Inr (Completed baseline (Some variant), ()))" and log: "log = [Router_built, Router_closed]"
    by (cases ?run) (auto split: sum.splits backtest_outcome.splits option.splits)
  have s: "rg_strategy (bd_registry demo_deps) (bq_moduleRef demo_request) = Some demo_strategy" "\<not> isEventDriven demo_strategy"
    by (simp_all add: demo_deps_def demo_strategy_def isEventDriven_def)
  obtain C :: "demo_portfolio core" and risk execution ov1 dataset
    where "datasetOf demo_deps demo_request = Inr dataset" "bd_core demo_deps risk execution = Inr C"
    "simulateTarget C demo_validator ''s'' (bd_executor demo_deps demo_strategy) (bd_add demo_deps) (bd_parseTimeframe demo_deps) dataset
       (bd_modules demo_deps Baseline_target) [] (map_option ts_tape (bd_marketTape demo_deps)) (bd_barBatching demo_deps) (bd_barMajor demo_deps)
       (bd_barMajorBatch demo_deps) (bq_symbols demo_request) () = Inr (baseline, ov1)"
    using backtest_gate [OF s, THEN conjunct1, THEN iffD1, OF exI, OF r] by (elim conjE exE) (rule that)
  thus ?thesis using r log
    by (auto simp: demo_deps_def demo_request_def datasetOf_def demo_tape_def)
qed

end
