(* ===== verification/Utf8.thy ===== *)
theory Utf8
  imports Json "HOL-Library.Word"
begin

unbundle bit_operations_syntax

text \<open>
  Bytes on a pipe and text in JavaScript.  A text is the list of its code points.  \<open>toBytes\<close> is the encoding that
  \<open>stdin.write\<close> and \<open>Buffer.byteLength\<close> use, \<open>toText\<close> is \<open>buffer.toString('utf8')\<close>: the decoder of the encoding standard,
  which never fails and puts a replacement character in the place of every maximal ill-formed part.
\<close>

type_synonym byte = "8 word"
type_synonym utf_text = "nat list"

definition REPLACEMENT :: nat where
  "REPLACEMENT = 0xFFFD"

definition isScalar :: "nat \<Rightarrow> bool" where
  "isScalar c = (c < 0xD800 \<or> 0xE000 \<le> c \<and> c < 0x110000)"

definition isText :: "utf_text \<Rightarrow> bool" where
  "isText t = list_all isScalar t"

definition byteOf :: "nat \<Rightarrow> byte" where
  "byteOf n = of_nat n"

definition charBytes :: "nat \<Rightarrow> byte list" where
  "charBytes c = (
     if c < 0x80 then [byteOf c]
     else if c < 0x800 then [byteOf (0xC0 + c div 64), byteOf (0x80 + c mod 64)]
     else if c < 0x10000 then [byteOf (0xE0 + c div 4096), byteOf (0x80 + c div 64 mod 64), byteOf (0x80 + c mod 64)]
     else [byteOf (0xF0 + c div 262144), byteOf (0x80 + c div 4096 mod 64), byteOf (0x80 + c div 64 mod 64), byteOf (0x80 + c mod 64)])"

definition toBytes :: "utf_text \<Rightarrow> byte list" where
  "toBytes t = concat (map charBytes t)"

definition byteLength :: "utf_text \<Rightarrow> nat" where
  "byteLength t = length (toBytes t)"

text \<open>The decoder: how many continuation bytes are missing, the code point so far, and the range of the next byte.\<close>

record decoder =
  de_needed :: nat
  de_point :: nat
  de_lower :: nat
  de_upper :: nat

definition decoder0 :: decoder where
  "decoder0 = \<lparr>de_needed = 0, de_point = 0, de_lower = 0x80, de_upper = 0xBF\<rparr>"

definition firstByte :: "nat \<Rightarrow> utf_text \<times> decoder" where
  "firstByte b = (
     if b < 0x80 then ([b], decoder0)
     else if 0xC2 \<le> b \<and> b \<le> 0xDF then ([], decoder0\<lparr>de_needed := 1, de_point := b - 0xC0\<rparr>)
     else if 0xE0 \<le> b \<and> b \<le> 0xEF then ([], \<lparr>de_needed = 2, de_point = b - 0xE0,
        de_lower = (if b = 0xE0 then 0xA0 else 0x80), de_upper = (if b = 0xED then 0x9F else 0xBF)\<rparr>)
     else if 0xF0 \<le> b \<and> b \<le> 0xF4 then ([], \<lparr>de_needed = 3, de_point = b - 0xF0,
        de_lower = (if b = 0xF0 then 0x90 else 0x80), de_upper = (if b = 0xF4 then 0x8F else 0xBF)\<rparr>)
     else ([REPLACEMENT], decoder0))"

definition decodeByte :: "decoder \<Rightarrow> byte \<Rightarrow> utf_text \<times> decoder" where
  "decodeByte d w = (
     let b = unat w in
     if de_needed d = 0 then firstByte b
     else if b < de_lower d \<or> de_upper d < b then (let (out, d') = firstByte b in (REPLACEMENT # out, d'))
     else let c = de_point d * 64 + (b - 0x80) in
       if de_needed d = 1 then ([c], decoder0) else ([], decoder0\<lparr>de_needed := de_needed d - 1, de_point := c\<rparr>))"

fun decodeFrom :: "decoder \<Rightarrow> byte list \<Rightarrow> utf_text" where
  "decodeFrom d [] = (if de_needed d = 0 then [] else [REPLACEMENT])"
| "decodeFrom d (b # bs) = (let (out, d') = decodeByte d b in out @ decodeFrom d' bs)"

definition toText :: "byte list \<Rightarrow> utf_text" where
  "toText = decodeFrom decoder0"

subsection \<open>Round trip\<close>

lemma toBytes_simps [simp]: "toBytes [] = []" "toBytes (c # t) = charBytes c @ toBytes t" "toBytes (s @ t) = toBytes s @ toBytes t"
  by (simp_all add: toBytes_def)

lemma isText_simps [simp]: "isText []" "isText (c # t) \<longleftrightarrow> isScalar c \<and> isText t" "isText (s @ t) \<longleftrightarrow> isText s \<and> isText t"
  by (simp_all add: isText_def)

lemma byteLength_simps [simp]: "byteLength [] = 0" "byteLength (c # t) = length (charBytes c) + byteLength t"
    "byteLength (s @ t) = byteLength s + byteLength t"
  by (simp_all add: byteLength_def)

lemma toText_Nil [simp]: "toText [] = []"
  by (simp add: toText_def decoder0_def)

lemma unat_byte: "n < 256 \<Longrightarrow> unat (byteOf n) = n"
  by (simp add: byteOf_def unat_of_nat)

lemma charBytes_pos: "0 < length (charBytes c)" "length (charBytes c) \<le> 4"
  by (simp_all add: charBytes_def)

text \<open>The bytes of a scalar value, by the length of its encoding.\<close>

lemma scalar_cases:
  assumes "isScalar c"
  obtains "c < 0x80" | "0x80 \<le> c" "c < 0x800" | "0x800 \<le> c" "c < 0x10000" "c < 0xD800 \<or> 0xE000 \<le> c" | "0x10000 \<le> c" "c < 0x110000"
  using assms that unfolding isScalar_def by linarith

lemma decoder0_fields [simp]: "de_needed decoder0 = 0" "de_point decoder0 = 0" "de_lower decoder0 = 0x80" "de_upper decoder0 = 0xBF"
  by (simp_all add: decoder0_def)

lemma decodeByte_lead: "b < 256 \<Longrightarrow> decodeByte decoder0 (byteOf b) = firstByte b"
  by (simp add: decodeByte_def unat_byte)

lemma decodeByte_next:
  assumes "b < 64" and "de_needed d \<noteq> 0" and "de_lower d \<le> 0x80 + b" and "0x80 + b \<le> de_upper d"
  shows "decodeByte d (byteOf (0x80 + b)) = (let c = de_point d * 64 + b in
       if de_needed d = 1 then ([c], decoder0) else ([], decoder0\<lparr>de_needed := de_needed d - 1, de_point := c\<rparr>))"
  using assms by (simp add: decodeByte_def unat_byte Let_def)

lemma decode_two:
  assumes "2 \<le> a" "a < 32" "b < 64"
  shows "decodeFrom decoder0 (byteOf (0xC0 + a) # byteOf (0x80 + b) # bs) = (a * 64 + b) # decodeFrom decoder0 bs"
proof -
  have f: "firstByte (0xC0 + a) = ([], decoder0\<lparr>de_needed := 1, de_point := a\<rparr>)" using assms by (simp add: firstByte_def)
  show ?thesis using assms by (simp add: decodeByte_lead f decodeByte_next)
qed

lemma decode_three:
  assumes "a < 16" "b < 64" "r < 64" "a = 0 \<Longrightarrow> 32 \<le> b" "a = 13 \<Longrightarrow> b < 32"
  shows "decodeFrom decoder0 (byteOf (0xE0 + a) # byteOf (0x80 + b) # byteOf (0x80 + r) # bs) =
    ((a * 64 + b) * 64 + r) # decodeFrom decoder0 bs"
proof -
  let ?d = "\<lparr>de_needed = 2, de_point = a, de_lower = (if a = 0 then 0xA0 else 0x80), de_upper = (if a = 13 then 0x9F else 0xBF)\<rparr>"
  have f: "firstByte (0xE0 + a) = ([], ?d)" using assms(1) by (simp add: firstByte_def)
  have n: "decodeByte ?d (byteOf (0x80 + b)) = ([], decoder0\<lparr>de_needed := 1, de_point := a * 64 + b\<rparr>)"
    using assms by (subst decodeByte_next) auto
  show ?thesis using assms(1,3) by (simp add: decodeByte_lead f n decodeByte_next)
qed

lemma decode_four:
  assumes "a < 5" "b < 64" "r < 64" "u < 64" "a = 0 \<Longrightarrow> 16 \<le> b" "a = 4 \<Longrightarrow> b < 16"
  shows "decodeFrom decoder0 (byteOf (0xF0 + a) # byteOf (0x80 + b) # byteOf (0x80 + r) # byteOf (0x80 + u) # bs) =
    (((a * 64 + b) * 64 + r) * 64 + u) # decodeFrom decoder0 bs"
proof -
  let ?d = "\<lparr>de_needed = 3, de_point = a, de_lower = (if a = 0 then 0x90 else 0x80), de_upper = (if a = 4 then 0x8F else 0xBF)\<rparr>"
  have f: "firstByte (0xF0 + a) = ([], ?d)" using assms(1) by (simp add: firstByte_def)
  have n: "decodeByte ?d (byteOf (0x80 + b)) = ([], decoder0\<lparr>de_needed := 2, de_point := a * 64 + b\<rparr>)"
    using assms by (subst decodeByte_next) auto
  show ?thesis using assms(1,3,4) by (simp add: decodeByte_lead f n decodeByte_next)
qed

lemma digits:
  fixes c :: nat
  shows "c = 4096 * (c div 4096) + 64 * (c div 64 mod 64) + c mod 64"
    and "c = 262144 * (c div 262144) + 4096 * (c div 4096 mod 64) + 64 * (c div 64 mod 64) + c mod 64"
proof -
  have m: "x = 64 * (x div 64) + x mod 64" for x :: nat by simp
  have "c div 64 div 64 = c div 4096" "c div 4096 div 64 = c div 262144" by (simp_all add: div_mult2_eq [symmetric])
  thus "c = 4096 * (c div 4096) + 64 * (c div 64 mod 64) + c mod 64"
    and "c = 262144 * (c div 262144) + 4096 * (c div 4096 mod 64) + 64 * (c div 64 mod 64) + c mod 64"
    using m [of c] m [of "c div 64"] m [of "c div 4096"] by linarith+
qed

lemma decode_char:
  assumes "isScalar c"
  shows "decodeFrom decoder0 (charBytes c @ bs) = c # decodeFrom decoder0 bs"
  using assms
proof (cases rule: scalar_cases)
  case 1
  thus ?thesis by (simp add: charBytes_def decodeByte_lead firstByte_def)
next
  case 2
  thus ?thesis using decode_two [of "c div 64" "c mod 64" bs] by (simp add: charBytes_def)
next
  case 3
  note q = digits(1) [of c]
  have d: "c div 4096 < 16" "c div 64 mod 64 < 64" "c mod 64 < 64" using 3 by auto
  have e: "32 \<le> c div 64 mod 64" if "c div 4096 = 0" using q 3 d that by linarith
  have g: "c div 64 mod 64 < 32" if "c div 4096 = 13" using q 3 d that by linarith
  have s: "((c div 4096) * 64 + c div 64 mod 64) * 64 + c mod 64 = c" using q by (simp add: algebra_simps)
  show ?thesis using decode_three [OF d e g, unfolded s, of bs] 3 by (simp add: charBytes_def)
next
  case 4
  note q = digits(2) [of c]
  have d: "c div 262144 < 5" "c div 4096 mod 64 < 64" "c div 64 mod 64 < 64" "c mod 64 < 64" using 4 by auto
  have e: "16 \<le> c div 4096 mod 64" if "c div 262144 = 0" using q 4 d that by linarith
  have g: "c div 4096 mod 64 < 16" if "c div 262144 = 4" using q 4 d that by linarith
  have s: "(((c div 262144) * 64 + c div 4096 mod 64) * 64 + c div 64 mod 64) * 64 + c mod 64 = c" using q by (simp add: algebra_simps)
  show ?thesis using decode_four [OF d e g, unfolded s, of bs] 4 by (simp add: charBytes_def)
qed

lemma toText_toBytes [simp]: "isText t \<Longrightarrow> toText (toBytes t) = t"
  by (induction t) (simp_all add: toText_def decode_char)

text \<open>The other way round a cut inside a code point destroys it: the second part begins with a replacement character.\<close>

lemma cut_char:
  assumes "isScalar c" and "0 < k" and "k < length (charBytes c)"
  shows "\<exists>t. toText (drop k (charBytes c) @ bs) = REPLACEMENT # t"
proof -
  have "\<exists>n ys. drop k (charBytes c) = byteOf (0x80 + n) # ys \<and> n < 64"
    using assms(2,3) by (auto simp: charBytes_def drop_Cons split: if_splits nat.splits)
  then obtain n ys where y: "drop k (charBytes c) = byteOf (0x80 + n) # ys" and n: "n < 64" by blast
  show ?thesis using n unfolding y by (simp add: toText_def decodeByte_lead firstByte_def)
qed

end
