(* ===== verification/Ipc_Channel.thy ===== *)
theory Ipc_Channel
  imports Utf8
begin

text \<open>
  \<open>engine/sandbox/async-ipc-channel.ts\<close>: the lines that a sandbox writes to its host, one JSON value each, and the
  harness that writes them (\<open>sandbox-harness-overlay/entry.mjs\<close>).  The state of a channel is what it has read and not yet
  consumed.  What arrives is a list of timed events; \<open>receive\<close> consumes the events it has to wait for, and events may
  also arrive between two calls.  \<open>JSON.parse\<close> and \<open>JSON.stringify\<close> are parameters.
\<close>

record limits =
  lm_maxDecisionBytes :: nat
  lm_maxStdoutBytes :: nat
  lm_maxStderrBytes :: nat

record channel =
  ch_stdoutAcc :: utf_text
  ch_stderrChunks :: "byte list list"
  ch_stderrBytes :: nat
  ch_stderrTruncated :: bool
  ch_eof :: bool
  ch_errored :: bool
  ch_overflow :: bool

definition newChannel :: channel where
  "newChannel = \<lparr>ch_stdoutAcc = [], ch_stderrChunks = [], ch_stderrBytes = 0, ch_stderrTruncated = False,
     ch_eof = False, ch_errored = False, ch_overflow = False\<rparr>"

datatype entry_result = E_ok "json list" | E_err string string

datatype receive_outcome =
    RO_ok "jsnum option" "json list"
  | RO_okBatch "jsnum option" jsnum "json list"
  | RO_okBarMajor "jsnum option" "entry_result list"
  | RO_err "jsnum option" "string option" string string "jsnum option"
  | RO_timeout
  | RO_eof
  | RO_malformed string
  | RO_overflow

subsection \<open>What the streams do to a channel\<close>

datatype stream_event = Stdout_data "byte list" | Stdout_end | Stdout_error | Stderr_data "byte list"

definition NEWLINE :: nat where
  "NEWLINE = 10"

definition bufferCap :: "limits \<Rightarrow> nat" where
  "bufferCap L = max (lm_maxStdoutBytes L) (lm_maxDecisionBytes L * 2)"

definition onStdout :: "limits \<Rightarrow> byte list \<Rightarrow> channel \<Rightarrow> channel" where
  "onStdout L chunk ch = (
     if ch_overflow ch then ch
     else let acc = ch_stdoutAcc ch @ toText chunk
       in ch\<lparr>ch_stdoutAcc := acc, ch_overflow := byteLength acc > bufferCap L \<and> NEWLINE \<notin> set acc\<rparr>)"

definition onStderr :: "limits \<Rightarrow> byte list \<Rightarrow> channel \<Rightarrow> channel" where
  "onStderr L chunk ch = (
     if ch_stderrTruncated ch then ch
     else if lm_maxStderrBytes L \<le> ch_stderrBytes ch then ch\<lparr>ch_stderrTruncated := True\<rparr>
     else let room = lm_maxStderrBytes L - ch_stderrBytes ch;
              taken = (if length chunk \<le> room then chunk else take room chunk)
       in ch\<lparr>ch_stderrChunks := ch_stderrChunks ch @ [taken], ch_stderrBytes := ch_stderrBytes ch + length taken,
             ch_stderrTruncated := length taken < length chunk\<rparr>)"

fun onEvent :: "limits \<Rightarrow> stream_event \<Rightarrow> channel \<Rightarrow> channel" where
  "onEvent L (Stdout_data chunk) ch = onStdout L chunk ch"
| "onEvent L Stdout_end ch = ch\<lparr>ch_eof := True\<rparr>"
| "onEvent L Stdout_error ch = ch\<lparr>ch_errored := True\<rparr>"
| "onEvent L (Stderr_data chunk) ch = onStderr L chunk ch"

subsection \<open>The diagnostic head of stderr\<close>

fun trailing :: "byte list \<Rightarrow> nat" where
  "trailing [] = 0"
| "trailing (b # rev_rest) = (if b AND 0xC0 = 0x80 then Suc (trailing rev_rest) else 0)"

definition expectedLength :: "byte \<Rightarrow> nat option" where
  "expectedLength lead = (
     if lead AND 0x80 = 0 then Some 1
     else if lead AND 0xE0 = 0xC0 then Some 2
     else if lead AND 0xF0 = 0xE0 then Some 3
     else if lead AND 0xF8 = 0xF0 then Some 4
     else None)"

text \<open>\<open>i\<close> is one less than the number of bytes before the trailing continuation bytes.\<close>

definition completeUtf8Prefix :: "byte list \<Rightarrow> byte list" where
  "completeUtf8Prefix buf = (
     let cont = trailing (rev buf); i = length buf - cont
     in if i = 0 then buf
        else case expectedLength (buf ! (i - 1)) of
            None \<Rightarrow> buf
          | Some expected \<Rightarrow> if cont + 1 \<ge> expected then buf else take (i - 1) buf)"

definition TRUNCATED :: utf_text where
  "TRUNCATED = 0x2026 # map of_char ''[truncated]''"

definition stderrText :: "channel \<Rightarrow> utf_text" where
  "stderrText ch = (let t = toText (completeUtf8Prefix (concat (ch_stderrChunks ch)))
     in if ch_stderrTruncated ch then t @ TRUNCATED else t)"

subsection \<open>Parsing a line\<close>

definition decisionsOf :: "json \<Rightarrow> json list" where
  "decisionsOf rec = orElse (as_arr (field rec ''decisions'')) []"

definition isObject :: "json \<Rightarrow> bool" where
  "isObject j = (case j of JArr _ \<Rightarrow> True | JObj _ \<Rightarrow> True | _ \<Rightarrow> False)"

definition parseEntry :: "json \<Rightarrow> string + entry_result" where
  "parseEntry e = (
     if \<not> isObject e then Inl ''okBarMajor result entry is not an object''
     else case (field e ''ok'', field e ''decisions'', field (field e ''error'') ''code'', field (field e ''error'') ''detail'') of
         (JBool True, JArr ds, _, _) \<Rightarrow> Inr (E_ok ds)
       | (JBool False, _, JStr code, JStr detail) \<Rightarrow> Inr (E_err code detail)
       | _ \<Rightarrow> Inl ''okBarMajor result entry is not a valid tagged ok/err variant'')"

fun parseEntries :: "json list \<Rightarrow> string + entry_result list" where
  "parseEntries [] = Inr []"
| "parseEntries (e # es) = (case parseEntry e of
     Inl detail \<Rightarrow> Inl detail
   | Inr r \<Rightarrow> (case parseEntries es of Inl detail \<Rightarrow> Inl detail | Inr rs \<Rightarrow> Inr (r # rs)))"

definition parseResponseLine :: "(utf_text \<Rightarrow> json option) \<Rightarrow> utf_text \<Rightarrow> receive_outcome" where
  "parseResponseLine parse line = (case parse line of
     None \<Rightarrow> RO_malformed ''response is not valid JSON''
   | Some obj \<Rightarrow>
       if \<not> isObject obj then RO_malformed ''response is not an object''
       else let seq = as_num (field obj ''seq''); t = field obj ''t'' in
       if t = JStr ''ok'' then RO_ok seq (decisionsOf obj)
       else if t = JStr ''okBatch'' then (case field obj ''stoppedAt'' of
           JNum stoppedAt \<Rightarrow> RO_okBatch seq stoppedAt (decisionsOf obj)
         | _ \<Rightarrow> RO_malformed ''okBatch response missing numeric stoppedAt'')
       else if t = JStr ''okBarMajor'' then (case field obj ''results'' of
           JArr raws \<Rightarrow> (case parseEntries raws of Inl detail \<Rightarrow> RO_malformed detail | Inr results \<Rightarrow> RO_okBarMajor seq results)
         | _ \<Rightarrow> RO_malformed ''okBarMajor response missing results array'')
       else if t = JStr ''err'' then RO_err seq (as_str (field obj ''hook'')) (orElse (as_str (field obj ''code'')) ''sandbox_crashed'')
           (orElse (as_str (field obj ''detail'')) []) (as_num (field obj ''barOffset''))
       else RO_malformed ''unknown response envelope'')"

subsection \<open>Receiving\<close>

text \<open>One round of the loop of \<open>receive\<close>: an outcome, or nothing yet.\<close>

definition pollFrame :: "limits \<Rightarrow> (utf_text \<Rightarrow> json option) \<Rightarrow> channel \<Rightarrow> (receive_outcome \<times> channel) option" where
  "pollFrame L parse ch = (let acc = ch_stdoutAcc ch in
     if NEWLINE \<in> set acc then
       let line = takeWhile (\<lambda>c. c \<noteq> NEWLINE) acc; ch' = ch\<lparr>ch_stdoutAcc := drop (length line + 1) acc\<rparr>
       in Some (if byteLength line > lm_maxDecisionBytes L then RO_malformed ''response line exceeds maxDecisionBytes''
                else parseResponseLine parse line, ch')
     else if ch_overflow ch \<or> byteLength acc > bufferCap L then Some (RO_overflow, ch)
     else if ch_eof ch \<or> ch_errored ch then Some (RO_eof, ch)
     else None)"

text \<open>The waiting part.  The timer fires when the deadline is reached, also when nothing arrives any more.  An event that
  does not wake the reader changes nothing that the reader polls.\<close>

fun receive :: "limits \<Rightarrow> (utf_text \<Rightarrow> json option) \<Rightarrow> ms \<Rightarrow> ms \<Rightarrow> (ms \<times> stream_event) list \<Rightarrow> channel \<Rightarrow>
    receive_outcome \<times> (ms \<times> stream_event) list \<times> channel" where
  "receive L parse deadline now [] ch = (case pollFrame L parse ch of
     Some (out, ch') \<Rightarrow> (out, [], ch')
   | None \<Rightarrow> (RO_timeout, [], ch))"
| "receive L parse deadline now ((t, e) # evs) ch = (case pollFrame L parse ch of
     Some (out, ch') \<Rightarrow> (out, (t, e) # evs, ch')
   | None \<Rightarrow>
       if deadline - now \<le> 0 \<or> deadline \<le> t then (RO_timeout, (t, e) # evs, ch)
       else receive L parse deadline t evs (onEvent L e ch))"

text \<open>A session: before every call some events arrive that nobody waits for.\<close>

record call =
  cl_before :: nat
  cl_now :: ms
  cl_deadline :: ms

fun receives :: "limits \<Rightarrow> (utf_text \<Rightarrow> json option) \<Rightarrow> call list \<Rightarrow> (ms \<times> stream_event) list \<Rightarrow> channel \<Rightarrow> receive_outcome list \<times> channel" where
  "receives L parse [] evs ch = ([], ch)"
| "receives L parse (c # cs) evs ch = (
     let ch1 = fold (onEvent L) (map snd (take (cl_before c) evs)) ch;
         (out, evs', ch2) = receive L parse (cl_deadline c) (cl_now c) (drop (cl_before c) evs) ch1;
         (outs, ch3) = receives L parse cs evs' ch2
     in (out # outs, ch3))"

subsection \<open>The lines of the harness\<close>

text \<open>A field that is \<open>undefined\<close> is not written.\<close>

datatype harness_reply =
    Y_ok jsnum "json list"
  | Y_okBatch jsnum jsnum "json list"
  | Y_okBarMajor jsnum "entry_result list"
  | Y_err "jsnum option" "string option" string string "jsnum option"

definition present :: "string \<Rightarrow> json option \<Rightarrow> (string \<times> json) list" where
  "present k v = (case v of None \<Rightarrow> [] | Some x \<Rightarrow> [(k, x)])"

fun entryJson :: "entry_result \<Rightarrow> json" where
  "entryJson (E_ok ds) = JObj [(''ok'', JBool True), (''decisions'', JArr ds)]"
| "entryJson (E_err code detail) = JObj [(''ok'', JBool False), (''error'', JObj [(''code'', JStr code), (''detail'', JStr detail)])]"

fun replyJson :: "harness_reply \<Rightarrow> json" where
  "replyJson (Y_ok seq ds) = JObj [(''t'', JStr ''ok''), (''seq'', JNum seq), (''decisions'', JArr ds)]"
| "replyJson (Y_okBatch seq stoppedAt ds) = JObj [(''t'', JStr ''okBatch''), (''seq'', JNum seq), (''stoppedAt'', JNum stoppedAt), (''decisions'', JArr ds)]"
| "replyJson (Y_okBarMajor seq results) = JObj [(''t'', JStr ''okBarMajor''), (''seq'', JNum seq), (''results'', JArr (map entryJson results))]"
| "replyJson (Y_err seq hook code detail barOffset) = JObj ([(''t'', JStr ''err'')] @ present ''seq'' (map_option JNum seq) @
     present ''hook'' (map_option JStr hook) @ [(''code'', JStr code), (''detail'', JStr (take 4096 detail))] @
     present ''barOffset'' (map_option JNum barOffset))"

definition writeLine :: "(json \<Rightarrow> utf_text) \<Rightarrow> harness_reply \<Rightarrow> utf_text" where
  "writeLine stringify r = stringify (replyJson r) @ [NEWLINE]"

text \<open>What the host should make of a reply.\<close>

fun meant :: "harness_reply \<Rightarrow> receive_outcome" where
  "meant (Y_ok seq ds) = RO_ok (Some seq) ds"
| "meant (Y_okBatch seq stoppedAt ds) = RO_okBatch (Some seq) stoppedAt ds"
| "meant (Y_okBarMajor seq results) = RO_okBarMajor (Some seq) results"
| "meant (Y_err seq hook code detail barOffset) = RO_err seq hook code (take 4096 detail) barOffset"

end
