(* ===== verification/Ipc_Facts.thy ===== *)
theory Ipc_Facts
  imports Ipc_Channel
begin

text \<open>Facts on the channel: the bit tests on bytes, the head of stderr, and the frames of a stream.\<close>

subsection \<open>Bytes\<close>

lemma continuation_table:
  "list_all (\<lambda>b. (byteOf b AND 0xC0 = 0x80) = (128 \<le> b \<and> b < 192)) [0..<256]"
  by (simp add: upt_rec byteOf_def)

lemma lead_table:
  "list_all (\<lambda>b. expectedLength (byteOf b) = (if b < 128 then Some 1 else if b < 192 then None else if b < 224 then Some 2
     else if b < 240 then Some 3 else if b < 248 then Some 4 else None)) [0..<256]"
  by (simp add: upt_rec byteOf_def expectedLength_def)

lemma table_entry: "list_all P [0..<n] \<Longrightarrow> b < n \<Longrightarrow> P b"
  by (simp add: list_all_iff)

lemma continuation_byte: "b < 256 \<Longrightarrow> (byteOf b AND 0xC0 = 0x80) = (128 \<le> b \<and> b < 192)"
  using table_entry [OF continuation_table] by simp

lemma lead_byte:
  "b < 128 \<Longrightarrow> expectedLength (byteOf b) = Some 1"
  "192 \<le> b \<Longrightarrow> b < 224 \<Longrightarrow> expectedLength (byteOf b) = Some 2"
  "224 \<le> b \<Longrightarrow> b < 240 \<Longrightarrow> expectedLength (byteOf b) = Some 3"
  "240 \<le> b \<Longrightarrow> b < 248 \<Longrightarrow> expectedLength (byteOf b) = Some 4"
  using table_entry [OF lead_table, of b] by simp_all

text \<open>A code point is a lead byte that announces the length and continuation bytes.\<close>

lemma charBytes_shape:
  assumes "isScalar c"
  obtains b bs where "charBytes c = b # bs" and "expectedLength b = Some (Suc (length bs))" and "b AND 0xC0 \<noteq> 0x80"
    and "\<forall>x \<in> set bs. x AND 0xC0 = 0x80"
proof -
  have "\<exists>b bs. charBytes c = b # bs \<and> expectedLength b = Some (Suc (length bs)) \<and> b AND 0xC0 \<noteq> 0x80 \<and> (\<forall>x \<in> set bs. x AND 0xC0 = 0x80)"
    using assms
  proof (cases rule: scalar_cases)
    case 1
    thus ?thesis by (simp add: charBytes_def lead_byte continuation_byte)
  next
    case 2
    hence "c div 64 < 32" by auto
    thus ?thesis using 2 by (simp add: charBytes_def lead_byte continuation_byte)
  next
    case 3
    hence "c div 4096 < 16" by auto
    thus ?thesis using 3 by (simp add: charBytes_def lead_byte continuation_byte)
  next
    case 4
    hence "c div 262144 < 5" by auto
    thus ?thesis using 4 by (simp add: charBytes_def lead_byte continuation_byte)
  qed
  thus ?thesis using that by blast
qed

subsection \<open>The head of stderr\<close>

lemma trailing_block:
  assumes "\<forall>x \<in> set bs. x AND 0xC0 = 0x80" and "b AND 0xC0 \<noteq> 0x80"
  shows "trailing (rev bs @ b # xs) = length bs"
proof -
  have "\<forall>x \<in> set ys. x AND 0xC0 = 0x80 \<Longrightarrow> trailing (ys @ b # xs) = length ys" for ys
    using assms(2) by (induction ys) auto
  from this [of "rev bs"] show ?thesis using assms(1) by simp
qed

lemma complete_block:
  assumes "\<forall>x \<in> set bs. x AND 0xC0 = 0x80" and "b AND 0xC0 \<noteq> 0x80" and "expectedLength b = Some n"
  shows "completeUtf8Prefix (pre @ b # bs) = (if n \<le> Suc (length bs) then pre @ b # bs else pre)"
  using trailing_block [OF assms(1,2), of "rev pre"] assms(3) by (simp add: completeUtf8Prefix_def Let_def nth_append)

lemma complete_text:
  assumes "isText p"
  shows "completeUtf8Prefix (toBytes p) = toBytes p"
proof (cases p rule: rev_cases)
  case Nil
  thus ?thesis by (simp add: completeUtf8Prefix_def)
next
  case (snoc p' c)
  with assms obtain b bs where "charBytes c = b # bs" "expectedLength b = Some (Suc (length bs))" "b AND 0xC0 \<noteq> 0x80"
      "\<forall>x \<in> set bs. x AND 0xC0 = 0x80" by (auto elim: charBytes_shape)
  thus ?thesis using snoc complete_block [of bs b "Suc (length bs)" "toBytes p'"] by simp
qed

lemma complete_cut:
  assumes "isText p" and "isScalar c" and "k < length (charBytes c)"
  shows "completeUtf8Prefix (toBytes p @ take k (charBytes c)) = toBytes p"
proof (cases k)
  case 0
  thus ?thesis using complete_text [OF assms(1)] by simp
next
  case (Suc j)
  obtain b bs where c: "charBytes c = b # bs" "expectedLength b = Some (Suc (length bs))" "b AND 0xC0 \<noteq> 0x80"
      "\<forall>x \<in> set bs. x AND 0xC0 = 0x80" using charBytes_shape [OF assms(2)] .
  have "\<forall>x \<in> set (take j bs). x AND 0xC0 = 0x80" using c(4) by (auto dest: in_set_takeD)
  thus ?thesis using complete_block [of "take j bs" b "Suc (length bs)" "toBytes p"] c Suc assms(3) by simp
qed

text \<open>The longest prefix of a text that fits into a number of bytes.\<close>

lemma take_text:
  assumes "isText s"
  obtains p q where "s = p @ q" and "byteLength p \<le> m" and "q \<noteq> [] \<Longrightarrow> m < byteLength p + length (charBytes (hd q))"
    and "take m (toBytes s) = (if q = [] then toBytes p else toBytes p @ take (m - byteLength p) (charBytes (hd q)))"
proof -
  have "\<exists>p q. s = p @ q \<and> byteLength p \<le> m \<and> (q \<noteq> [] \<longrightarrow> m < byteLength p + length (charBytes (hd q))) \<and>
      take m (toBytes s) = (if q = [] then toBytes p else toBytes p @ take (m - byteLength p) (charBytes (hd q)))" for s m
  proof (induction s arbitrary: m)
    case Nil
    show ?case by simp
  next
    case (Cons c s)
    show ?case
    proof (cases "m < length (charBytes c)")
      case True
      thus ?thesis by (intro exI [of _ "[]"] exI [of _ "c # s"]) simp
    next
      case False
      obtain p q where "s = p @ q" "byteLength p \<le> m - length (charBytes c)"
          "q \<noteq> [] \<longrightarrow> m - length (charBytes c) < byteLength p + length (charBytes (hd q))"
          "take (m - length (charBytes c)) (toBytes s) = (if q = [] then toBytes p
             else toBytes p @ take (m - length (charBytes c) - byteLength p) (charBytes (hd q)))"
        using Cons.IH by blast
      thus ?thesis using False by (intro exI [of _ "c # p"] exI [of _ q]) (auto simp: diff_diff_left split: if_splits)
    qed
  qed
  thus ?thesis using that by blast
qed

text \<open>What the chunks leave in the channel depends on their bytes only.\<close>

lemma onStderr_step:
  assumes "concat (ch_stderrChunks ch) = take (lm_maxStderrBytes L) bs" and "ch_stderrBytes ch = length (take (lm_maxStderrBytes L) bs)"
    and "ch_stderrTruncated ch \<longleftrightarrow> lm_maxStderrBytes L < length bs" and "chunk \<noteq> []"
    and "ch' = onStderr L chunk ch"
  shows "concat (ch_stderrChunks ch') = take (lm_maxStderrBytes L) (bs @ chunk) \<and>
    ch_stderrBytes ch' = length (take (lm_maxStderrBytes L) (bs @ chunk)) \<and>
    (ch_stderrTruncated ch' \<longleftrightarrow> lm_maxStderrBytes L < length (bs @ chunk))"
  using assms by (auto simp: onStderr_def Let_def min_def)

lemma fold_onStderr:
  assumes "[] \<notin> set chunks"
    and "ch' = fold (onStderr L) chunks newChannel"
  shows "concat (ch_stderrChunks ch') = take (lm_maxStderrBytes L) (concat chunks) \<and>
    ch_stderrBytes ch' = length (take (lm_maxStderrBytes L) (concat chunks)) \<and>
    (ch_stderrTruncated ch' \<longleftrightarrow> lm_maxStderrBytes L < length (concat chunks))"
  using assms(1) unfolding assms(2)
proof (induction chunks rule: rev_induct)
  case Nil
  show ?case by (simp add: newChannel_def)
next
  case (snoc chunk chunks)
  thus ?case using onStderr_step [of "fold (onStderr L) chunks newChannel" L "concat chunks" chunk, OF _ _ _ _ refl] by auto
qed

lemma stderrText_chunks:
  assumes "isText s" and "concat chunks = toBytes s" and "[] \<notin> set chunks"
  shows "\<exists>p q. s = p @ q \<and> byteLength p \<le> lm_maxStderrBytes L \<and>
    (q \<noteq> [] \<longrightarrow> lm_maxStderrBytes L < byteLength p + length (charBytes (hd q))) \<and>
    stderrText (fold (onStderr L) chunks newChannel) = (if byteLength s \<le> lm_maxStderrBytes L then p else p @ TRUNCATED)"
proof -
  obtain p q where s: "s = p @ q" "byteLength p \<le> lm_maxStderrBytes L"
      "q \<noteq> [] \<Longrightarrow> lm_maxStderrBytes L < byteLength p + length (charBytes (hd q))"
      and t: "take (lm_maxStderrBytes L) (toBytes s) = (if q = [] then toBytes p
        else toBytes p @ take (lm_maxStderrBytes L - byteLength p) (charBytes (hd q)))"
    using take_text [OF assms(1)] by metis
  have "completeUtf8Prefix (take (lm_maxStderrBytes L) (toBytes s)) = toBytes p"
  proof (cases q)
    case Nil
    thus ?thesis using assms(1) s(1) t by (simp add: complete_text)
  next
    case (Cons c q')
    have "lm_maxStderrBytes L - byteLength p < length (charBytes c)" using s(2,3) Cons charBytes_pos(1) [of c] by auto
    thus ?thesis using assms(1) s(1) t Cons by (simp add: complete_cut)
  qed
  hence "stderrText (fold (onStderr L) chunks newChannel) = (if byteLength s \<le> lm_maxStderrBytes L then p else p @ TRUNCATED)"
    using fold_onStderr [OF assms(3) refl, of L] assms(1,2) s(1) by (auto simp: stderrText_def byteLength_def)
  thus ?thesis using s by (intro exI [of _ p] exI [of _ q]) simp
qed

end
