(* ===== verification/Ipc_Frames.thy ===== *)
theory Ipc_Frames
  imports Ipc_Facts
begin

text \<open>
  What arrives on the channel is what the harness has written, line by line, however the events and the calls of
  \<open>receive\<close> are interleaved, as long as no chunk ends inside a code point; and what a cut inside one does.
\<close>

subsection \<open>One line\<close>

lemma parseEntries_map: "parseEntries (map entryJson rs) = Inr rs"
proof (induction rs)
  case (Cons r rs)
  thus ?case by (cases r) (simp_all add: parseEntry_def isObject_def)
qed simp

lemma parse_reply:
  assumes "parse (stringify (replyJson r)) = Some (replyJson r)"
  shows "parseResponseLine parse (stringify (replyJson r)) = meant r"
proof (cases r)
  case (Y_err seq hook code detail barOffset)
  thus ?thesis using assms
    by (cases seq; cases hook; cases barOffset) (simp_all add: parseResponseLine_def isObject_def present_def Let_def)
qed (use assms in \<open>simp_all add: parseResponseLine_def isObject_def decisionsOf_def parseEntries_map Let_def\<close>)

subsection \<open>The stream\<close>

definition stdoutChunks :: "(ms \<times> stream_event) list \<Rightarrow> byte list list" where
  "stdoutChunks evs = concat (map (\<lambda>(_, e). case e of Stdout_data c \<Rightarrow> [c] | _ \<Rightarrow> []) evs)"

definition incoming :: "(ms \<times> stream_event) list \<Rightarrow> utf_text" where
  "incoming evs = concat (map toText (stdoutChunks evs))"

text \<open>Nothing is read from a stream that has ended.\<close>

fun endsLast :: "(ms \<times> stream_event) list \<Rightarrow> bool" where
  "endsLast [] = True"
| "endsLast ((t, e) # evs) = ((e \<in> {Stdout_end, Stdout_error} \<longrightarrow> stdoutChunks evs = []) \<and> endsLast evs)"

lemma incoming_simps [simp]: "incoming [] = []" "incoming ((t, Stdout_data c) # evs) = toText c @ incoming evs"
    "incoming ((t, Stdout_end) # evs) = incoming evs" "incoming ((t, Stdout_error) # evs) = incoming evs"
    "incoming ((t, Stderr_data c) # evs) = incoming evs"
  by (simp_all add: incoming_def stdoutChunks_def)

lemma incoming_ended: "stdoutChunks evs = [] \<Longrightarrow> incoming evs = []"
  by (simp add: incoming_def)

definition framed :: "limits \<Rightarrow> utf_text list \<Rightarrow> channel \<Rightarrow> (ms \<times> stream_event) list \<Rightarrow> bool" where
  "framed L fs ch evs \<longleftrightarrow> ch_stdoutAcc ch @ incoming evs = concat (map (\<lambda>f. f @ [NEWLINE]) fs) \<and>
     (\<forall>f \<in> set fs. NEWLINE \<notin> set f \<and> byteLength f \<le> lm_maxDecisionBytes L) \<and> \<not> ch_overflow ch \<and> endsLast evs \<and>
     (ch_eof ch \<or> ch_errored ch \<longrightarrow> incoming evs = [])"

lemma line_prefix:
  assumes "xs @ ys = f @ n # zs" and "n \<notin> set xs"
  obtains us where "f = xs @ us"
  using assms that by (auto simp: append_eq_append_conv2 append_eq_Cons_conv)

text \<open>Without a newline the buffer is a part of one line, hence small.\<close>

lemma framed_small:
  assumes "xs @ ys = concat (map (\<lambda>f. f @ [NEWLINE]) fs)" and "\<forall>f \<in> set fs. byteLength f \<le> lm_maxDecisionBytes L" and "NEWLINE \<notin> set xs"
  shows "byteLength xs \<le> bufferCap L"
proof (cases fs)
  case Nil
  thus ?thesis using assms(1) by simp
next
  case (Cons f fs')
  with assms(1) have "xs @ ys = f @ NEWLINE # concat (map (\<lambda>f. f @ [NEWLINE]) fs')" by simp
  then obtain us where "f = xs @ us" using assms(3) by (rule line_prefix)
  thus ?thesis using assms(2) Cons by (auto simp: bufferCap_def)
qed

lemma framed_event:
  assumes "framed L fs ch ((t, e) # evs)"
  shows "framed L fs (onEvent L e ch) evs"
proof (cases e)
  case (Stdout_data c)
  have eq: "(ch_stdoutAcc ch @ toText c) @ incoming evs = concat (map (\<lambda>f. f @ [NEWLINE]) fs)"
    using assms Stdout_data by (simp add: framed_def)
  have "byteLength (ch_stdoutAcc ch @ toText c) \<le> bufferCap L" if "NEWLINE \<notin> set (ch_stdoutAcc ch @ toText c)"
    using framed_small [OF eq _ that] assms by (auto simp: framed_def)
  hence "\<not> (bufferCap L < byteLength (ch_stdoutAcc ch @ toText c) \<and> NEWLINE \<notin> set (ch_stdoutAcc ch @ toText c))" by force
  thus ?thesis using assms Stdout_data eq by (auto simp: framed_def onStdout_def Let_def)
next
  case (Stderr_data c)
  thus ?thesis using assms by (auto simp: framed_def onStderr_def Let_def)
qed (use assms in \<open>auto simp: framed_def incoming_ended\<close>)

lemma framed_events: "framed L fs ch (evs @ evs') \<Longrightarrow> framed L fs (fold (onEvent L) (map snd evs) ch) evs'"
proof (induction evs arbitrary: ch)
  case (Cons e evs)
  thus ?case using framed_event [of L fs ch "fst e" "snd e" "evs @ evs'"] by simp
qed simp

lemma framed_poll:
  assumes "framed L (f # fs) ch evs"
  shows "if NEWLINE \<in> set (ch_stdoutAcc ch)
    then \<exists>ch'. pollFrame L parse ch = Some (parseResponseLine parse f, ch') \<and> framed L fs ch' evs
    else pollFrame L parse ch = None \<and> evs \<noteq> []"
proof -
  have eq: "ch_stdoutAcc ch @ incoming evs = f @ NEWLINE # concat (map (\<lambda>f. f @ [NEWLINE]) fs)" and f: "NEWLINE \<notin> set f" "byteLength f \<le> lm_maxDecisionBytes L"
    using assms by (auto simp: framed_def)
  show ?thesis
  proof (cases "NEWLINE \<in> set (ch_stdoutAcc ch)")
    case True
    then obtain xs ys where acc: "ch_stdoutAcc ch = xs @ NEWLINE # ys" "NEWLINE \<notin> set xs" by (meson split_list_first)
    have tw: "takeWhile (\<lambda>c. c \<noteq> NEWLINE) (xs @ z) = xs @ takeWhile (\<lambda>c. c \<noteq> NEWLINE) z" if "NEWLINE \<notin> set xs" for xs z
      using that by (intro takeWhile_append2) auto
    have "takeWhile (\<lambda>c. c \<noteq> NEWLINE) (xs @ NEWLINE # ys @ incoming evs) = takeWhile (\<lambda>c. c \<noteq> NEWLINE) (f @ NEWLINE # concat (map (\<lambda>f. f @ [NEWLINE]) fs))"
      using eq acc by simp
    hence "xs = f" using tw acc(2) f(1) by simp
    thus ?thesis using True acc eq f assms tw by (auto simp: pollFrame_def Let_def framed_def)
  next
    case False
    hence "incoming evs \<noteq> []" using eq by (metis append.right_neutral in_set_conv_decomp)
    moreover from this have "\<not> ch_eof ch" "\<not> ch_errored ch" using assms by (auto simp: framed_def)
    moreover have "byteLength (ch_stdoutAcc ch) \<le> bufferCap L"
      using framed_small [OF _ _ False] assms unfolding framed_def by blast
    ultimately show ?thesis using False assms by (auto simp: pollFrame_def Let_def framed_def)
  qed
qed

lemma framed_receive:
  assumes "framed L (f # fs) ch evs" and "\<forall>(t, e) \<in> set evs. t < deadline" and "now < deadline"
  shows "\<exists>evs' ch'. receive L parse deadline now evs ch = (parseResponseLine parse f, evs', ch') \<and> framed L fs ch' evs' \<and> set evs' \<subseteq> set evs"
  using assms
proof (induction L parse deadline now evs ch rule: receive.induct)
  case (1 L parse deadline now ch)
  thus ?case using framed_poll [OF 1(1), of parse] by (auto split: if_splits)
next
  case (2 L parse deadline now t e evs ch)
  note poll = framed_poll [OF 2(2), of parse]
  show ?case
  proof (cases "NEWLINE \<in> set (ch_stdoutAcc ch)")
    case True
    thus ?thesis using poll by auto
  next
    case False
    hence none: "pollFrame L parse ch = None" using poll by simp
    have "\<exists>evs' ch'. receive L parse deadline t evs (onEvent L e ch) = (parseResponseLine parse f, evs', ch') \<and> framed L fs ch' evs' \<and> set evs' \<subseteq> set evs"
      using 2(3,4) by (intro 2(1) [OF none _ framed_event [OF 2(2)]]) auto
    thus ?thesis using none 2(3,4) by auto
  qed
qed

lemma framed_receives:
  assumes "framed L fs ch evs" and "length calls = length fs" and "\<forall>c \<in> set calls. cl_now c < cl_deadline c \<and> (\<forall>(t, e) \<in> set evs. t < cl_deadline c)"
  shows "fst (receives L parse calls evs ch) = map (parseResponseLine parse) fs"
  using assms
proof (induction calls arbitrary: fs ch evs)
  case (Cons c calls)
  then obtain f fs' where fs: "fs = f # fs'" by (cases fs) auto
  let ?ch = "fold (onEvent L) (map snd (take (cl_before c) evs)) ch"
  have "framed L (f # fs') ?ch (drop (cl_before c) evs)"
    using framed_events [of L fs ch "take (cl_before c) evs" "drop (cl_before c) evs"] Cons.prems(1) fs by simp
  moreover have "\<forall>(t, e) \<in> set (drop (cl_before c) evs). t < cl_deadline c" "cl_now c < cl_deadline c"
    using Cons.prems(3) by (auto dest: in_set_dropD)
  ultimately obtain evs' ch' where r: "receive L parse (cl_deadline c) (cl_now c) (drop (cl_before c) evs) ?ch = (parseResponseLine parse f, evs', ch')"
      and fr: "framed L fs' ch' evs'" and sub: "set evs' \<subseteq> set (drop (cl_before c) evs)"
    using framed_receive [of L f fs' ?ch "drop (cl_before c) evs" "cl_deadline c" "cl_now c" parse] by blast
  have "fst (receives L parse calls evs' ch') = map (parseResponseLine parse) fs'"
    using Cons.prems(2,3) sub set_drop_subset [of "cl_before c" evs] fs by (intro Cons.IH [OF fr]) fastforce+
  thus ?case using r fs by (cases "receives L parse calls evs' ch'") (simp add: Let_def)
qed simp

text \<open>Claim C8. Every reply of the harness reaches the host as what it means, once and in order: the lines are cut out of
  the stream again wherever the chunks end between two code points, whatever arrives between two calls or while one
  waits, and although stderr and the end of the stream are interleaved with them, provided that no line exceeds the
  limit and no deadline passes.  No reply, of any kind, is lost, merged or refused.\<close>

theorem replies_delivered:
  assumes "\<forall>r \<in> set rs. parse (stringify (replyJson r)) = Some (replyJson r) \<and> isText (stringify (replyJson r)) \<and>
      NEWLINE \<notin> set (stringify (replyJson r)) \<and> byteLength (stringify (replyJson r)) \<le> lm_maxDecisionBytes L"
    and "stdoutChunks evs = map toBytes parts" and "concat parts = concat (map (writeLine stringify) rs)" and "endsLast evs"
    and "length calls = length rs"
    and "\<forall>c \<in> set calls. cl_now c < cl_deadline c \<and> (\<forall>(t, e) \<in> set evs. t < cl_deadline c)"
  shows "fst (receives L parse calls evs newChannel) = map meant rs"
proof -
  have "isText (concat parts)" using assms(1) unfolding assms(3) by (induction rs) (auto simp: writeLine_def NEWLINE_def isScalar_def)
  hence "incoming evs = concat parts" unfolding incoming_def assms(2) by (induction parts) auto
  moreover have "writeLine stringify = (\<lambda>r. stringify (replyJson r) @ [NEWLINE])" by (simp add: writeLine_def fun_eq_iff)
  ultimately have "framed L (map (\<lambda>r. stringify (replyJson r)) rs) newChannel evs"
    using assms(1,4) by (simp add: framed_def newChannel_def assms(3) comp_def)
  from framed_receives [OF this, of calls parse] assms(5,6)
  have "fst (receives L parse calls evs newChannel) = map (\<lambda>r. parseResponseLine parse (stringify (replyJson r))) rs" by (simp add: comp_def)
  thus ?thesis using assms(1) parse_reply by (metis (no_types, lifting) map_eq_conv)
qed

text \<open>Claim C9. The diagnostic head of stderr depends on the bytes alone, not on where the chunks end: it is the longest
  prefix of the text that fits into the byte limit, never half a code point, and it says so when something is missing.\<close>

theorem stderr_head:
  assumes "isText s" and "concat chunks = toBytes s" and "[] \<notin> set chunks"
  shows "\<exists>p q. s = p @ q \<and> byteLength p \<le> lm_maxStderrBytes L \<and>
    (q \<noteq> [] \<longrightarrow> lm_maxStderrBytes L < byteLength p + length (charBytes (hd q))) \<and>
    stderrText (fold (onStderr L) chunks newChannel) = (if byteLength s \<le> lm_maxStderrBytes L then p else p @ TRUNCATED)"
  by (rule stderrText_chunks [OF assms])

text \<open>Note. The lines on stdout have no such protection: every chunk is decoded on its own, so a chunk that ends inside a
  code point puts replacement characters into a line that has none.\<close>

lemma cut_line_corrupted:
  assumes "isScalar c" and "0 < k" and "k < length (charBytes c)" and "REPLACEMENT \<notin> set (p @ c # q)"
    and "\<not> ch_overflow (onStdout L (toBytes p @ take k (charBytes c)) ch)"
  shows "ch_stdoutAcc (onStdout L (drop k (charBytes c) @ toBytes q) (onStdout L (toBytes p @ take k (charBytes c)) ch)) \<noteq>
    ch_stdoutAcc ch @ p @ c # q"
proof -
  obtain t where t: "toText (drop k (charBytes c) @ toBytes q) = REPLACEMENT # t" using cut_char [OF assms(1-3)] by blast
  have "ch_stdoutAcc (onStdout L (drop k (charBytes c) @ toBytes q) (onStdout L (toBytes p @ take k (charBytes c)) ch)) =
      ch_stdoutAcc ch @ toText (toBytes p @ take k (charBytes c)) @ REPLACEMENT # t"
    using assms(5) t by (simp add: onStdout_def Let_def split: if_splits)
  thus ?thesis using assms(4) by (metis in_set_conv_decomp same_append_eq)
qed

end
