(* ===== verification/Ipc_Demo.thy ===== *)
theory Ipc_Demo
  imports Ipc_Frames
begin

text \<open>Two replies in three chunks, for the witnesses.  The second line is one code point of two bytes.\<close>

definition demo_replies :: "harness_reply list" where
  "demo_replies = [Y_ok (JFin 1) [JStr ''hold''], Y_err None (Some ''onBarClose'') ''sandbox_crashed'' ''x'' None]"

definition demo_stringify :: "json \<Rightarrow> utf_text" where
  "demo_stringify j = (if field j ''t'' = JStr ''ok'' then [111, 107] else [0xE9])"

definition demo_parse :: "utf_text \<Rightarrow> json option" where
  "demo_parse line = (if line = [111, 107] then Some (replyJson (demo_replies ! 0)) else if line = [0xE9] then Some (replyJson (demo_replies ! 1)) else None)"

definition demo_parts :: "utf_text list" where
  "demo_parts = [[111], [107, 10, 0xE9], [10]]"

definition demo_stream :: "(ms \<times> stream_event) list" where
  "demo_stream = [(1, Stdout_data (toBytes (demo_parts ! 0))), (2, Stderr_data [byteOf 33]), (3, Stdout_data (toBytes (demo_parts ! 1))),
     (4, Stdout_data (toBytes (demo_parts ! 2))), (5, Stdout_end)]"

definition demo_limits :: limits where
  "demo_limits = \<lparr>lm_maxDecisionBytes = 4, lm_maxStdoutBytes = 4, lm_maxStderrBytes = 3\<rparr>"

definition demo_calls :: "call list" where
  "demo_calls = [\<lparr>cl_before = 0, cl_now = 0, cl_deadline = 10\<rparr>, \<lparr>cl_before = 1, cl_now = 4, cl_deadline = 10\<rparr>]"

lemmas demo_channel = demo_replies_def demo_stringify_def demo_parse_def demo_parts_def demo_stream_def demo_limits_def demo_calls_def

lemma replies_delivered_witness:
  "fst (receives demo_limits demo_parse demo_calls demo_stream newChannel) = map meant demo_replies"
  by (rule replies_delivered [where stringify = demo_stringify and parts = demo_parts])
    (simp_all add: demo_channel present_def isScalar_def NEWLINE_def stdoutChunks_def writeLine_def charBytes_def)

lemma stderr_head_witness:
  "\<exists>p q. [0x20AC, 0x20AC] = p @ q \<and> byteLength p \<le> 4 \<and> (q \<noteq> [] \<longrightarrow> 4 < byteLength p + length (charBytes (hd q))) \<and>
    stderrText (fold (onStderr \<lparr>lm_maxDecisionBytes = 4, lm_maxStdoutBytes = 4, lm_maxStderrBytes = 4\<rparr>)
      [take 2 (toBytes [0x20AC, 0x20AC]), drop 2 (toBytes [0x20AC, 0x20AC])] newChannel) = p @ TRUNCATED"
  using stderr_head [of "[0x20AC, 0x20AC]" "[take 2 (toBytes [0x20AC, 0x20AC]), drop 2 (toBytes [0x20AC, 0x20AC])]"
      "\<lparr>lm_maxDecisionBytes = 4, lm_maxStdoutBytes = 4, lm_maxStderrBytes = 4\<rparr>"]
  by (simp add: isScalar_def charBytes_def)

end
