(* ===== verification/Spec2Isabelle.thy ===== *)
theory Spec2Isabelle
  imports Job_Store_Properties Completion_Properties Bundle Wake_Properties Submit_Properties Promotion_Properties Dedupe_Ledger Seeded_Rng Tape_Cache Service_Publication Engine_Demo Backtest_Demo Ipc_Demo
begin

text \<open>
  A verification development of the backtester service (\<open>apps/backtester\<close>) and of the contract code it shares with
  its SDK (\<open>packages/sdk\<close>).  Paths below are relative to \<open>apps/backtester/src\<close> unless they start with \<open>packages\<close>.

  \<^bold>\<open>The program.\<close>  A client submits a run over HTTP.  \<open>jobs/submit.ts\<close> validates it, computes its fingerprint, stores a
  submitted bundle and inserts a job row that is accepted and then queued.  Workers (\<open>jobs/worker.ts\<close>) claim queued rows under
  a lease, have the period admitted, materialise the market tape, and then either answer the run from the result cache
  (\<open>jobs/dedup\<close>), park it behind the worker that already computes the same identity (\<open>jobs/coalesce\<close>), or execute an engine.
  Rows move by compare-and-set along the table of \<open>jobs/lifecycle.ts\<close>; deadlines and lost leases are reaped; whoever makes a
  row terminal publishes its completion event (\<open>jobs/completion.ts\<close>) into an outbox that is delivered to a webhook.  A
  promotion run is also judged on held-out data (\<open>jobs/promotion\<close>, \<open>evidence\<close>), and trials and behaviours are recorded in
  ledgers (\<open>jobs/ledger\<close>).  Each store exists in memory and in Postgres.

  \<^bold>\<open>Theories and sources.\<close>
  \<^item> \<open>Prelude\<close>, \<open>Json\<close>, \<open>Js_Text\<close>, \<open>Keyed_Table\<close>: the JavaScript values, maps, strings and keyed tables that the sources use.
  \<^item> \<open>Lifecycle\<close>, \<open>Contracts\<close>: \<open>jobs/lifecycle.ts\<close> and the contract types of \<open>packages/sdk/src/contracts\<close>.
  \<^item> \<open>Job_Store\<close>, \<open>Pg_Job_Store\<close>: every operation of \<open>jobs/job-store.ts\<close> and \<open>jobs/pg-job-store.ts\<close>.  \<open>Job_Row_Steps\<close> is the life of one
    row; \<open>Job_Store_Facts\<close> and \<open>Pg_Job_Store_Facts\<close> are the closed forms of the operations; \<open>Job_Store_Interface\<close> is the
    TypeScript interface as a record of operations with its contract as a locale, interpreted by both stores;
    \<open>Store_Runs\<close> has histories of calls, and \<open>Job_Store_Properties\<close> the properties.
  \<^item> \<open>Completion\<close>, \<open>Completion_Facts\<close>, \<open>Publication\<close>, \<open>Api\<close>, \<open>Completion_Properties\<close>: \<open>jobs/completion.ts\<close>, the run endpoints of
    \<open>api/server.ts\<close>, and the protocol by which concurrent actors publish.
  \<^item> \<open>Canonical_Json\<close>, \<open>Canonical_Json_Facts\<close>, \<open>Fingerprint\<close>: the canonical serialisation of the SDK, content hashes and
    \<open>jobs/fingerprint.ts\<close>.
  \<^item> \<open>Bundle\<close>, \<open>Bundle_Store\<close>: the two bundle validators (\<open>sandbox/bundle.ts\<close>, \<open>packages/sdk/src/builder/preflight.ts\<close>) and the three
    bundle stores (\<open>sandbox/bundle-store.ts\<close>, \<open>sandbox/s3-bundle-store.ts\<close>).
  \<^item> \<open>Submit\<close>, \<open>Submit_Facts\<close>, \<open>Callback_Host\<close>, \<open>Submit_Properties\<close>: \<open>jobs/submit.ts\<close>.
  \<^item> \<open>Result_Cache\<close>, \<open>Restamp\<close>: \<open>jobs/dedup\<close>.  \<open>Compute_Lock\<close>, \<open>Wake\<close>, \<open>Wake_Facts\<close>, \<open>Wake_Properties\<close>: \<open>jobs/coalesce\<close>.
  \<^item> \<open>Admission\<close>: \<open>data/availability-admission.ts\<close>, \<open>runner/errors.ts\<close>.  \<open>Tape_Cache\<close>: \<open>data/tape-cache.ts\<close>.
    \<open>Seeded_Rng\<close>: \<open>determinism/rng.ts\<close>.
  \<^item> \<open>Worker\<close>, \<open>Worker_System\<close>, \<open>Worker_Run\<close>, \<open>Worker_Properties\<close>: \<open>processNextQueued\<close> of \<open>jobs/worker.ts\<close>, one definition per stretch
    of code between two awaits that touch shared state.
  \<^item> \<open>Holdout\<close>: \<open>engine/holdout.ts\<close>, \<open>engine/walk-forward.ts\<close>.  \<open>Promotion_Gate\<close>, \<open>Attempt_Ledger\<close>, \<open>Promotion\<close>, \<open>Promotion_Properties\<close>:
    \<open>evidence/promotion-gate.ts\<close>, \<open>evidence/verdict.ts\<close>, \<open>engine/window-eval.ts\<close>, \<open>engine/equivalence.ts\<close>, \<open>jobs/promotion\<close>.
  \<^item> \<open>Dedupe_Ledger\<close>: \<open>jobs/ledger\<close>.
  \<^item> \<open>Engine_Types\<close>, \<open>Overlay_Compose\<close>, \<open>Bar_Engine\<close>: the simulation of a symbol, \<open>engine/runner.ts\<close> with \<open>engine/overlay.ts\<close>,
    \<open>engine/artifacts.ts\<close>, the contexts and the funding reading.  One definition per stage of a bar; \<open>runSymbol\<close> is the
    loop, \<open>core\<close> the execution core (\<open>@trdlabs/engine\<close>) and \<open>executor\<close> the executor of hooks, both parameters.
    \<open>Bar_Batching\<close> has the contract of a batch of hook calls as the locale \<open>batch_executor\<close>; \<open>Bar_Causality\<close> and
    \<open>Order_Book\<close> hold what a bar reads and what becomes of an order.
  \<^item> \<open>Bar_Merge\<close>, \<open>Bar_Major\<close>, \<open>Bar_Major_Facts\<close>, \<open>Basket_Runs\<close>: \<open>engine/bar-major-aggregate.ts\<close>, the bar-major driver and
    \<open>simulateTarget\<close>.  \<open>Backtest_Run\<close>: \<open>runBacktest\<close>, its request checks, the life of its router, baseline and variant;
    \<open>Backtest_Demo\<close> is a request for its witness.
  \<^item> \<open>Sandbox_Session\<close>, \<open>Sandbox_Batching\<close>, \<open>Sandbox_Parity\<close>: the session of a sandboxed strategy on both sides of its channel
    (\<open>engine/sandbox\<close>, \<open>sandbox-harness-overlay\<close>); it interprets \<open>batch_executor\<close>.  \<open>Engine_Demo\<close> is a small concrete
    simulation for the witnesses.
  \<^item> \<open>Utf8\<close>, \<open>Ipc_Channel\<close>, \<open>Ipc_Facts\<close>, \<open>Ipc_Frames\<close>, \<open>Ipc_Demo\<close>: the bytes between the two,
    \<open>engine/sandbox/async-ipc-channel.ts\<close> and the lines the harness writes.

  \<^bold>\<open>How state and effects are modelled.\<close>  An object with fields is a record, a union a datatype, a \<open>Map\<close> an association list in
  insertion order, a Postgres table the list of its rows, and a statement one atomic step.  A function that throws
  returns a left value.  A function that awaits shared state is split at its awaits where another actor could act in
  between: the cancel handler, the attempt transaction, and the worker.  Times are integers (milliseconds).

  \<^bold>\<open>What the lemmas show.\<close>
  \<^item> Job rows: a terminal row never changes, over every history of calls, in both stores; the Postgres store refines the
    in-memory store; claims are first-in-first-out and exclusive; a crash loop ends; the public view never shows the
    internal state.
  \<^item> Publication: every terminal run has exactly one completion event, or one actor that owes it, under every
    interleaving; any number of workers, as they are written, refine that protocol; one undisturbed call of a worker
    returns with its run settled and charged once, and with nothing left open.
  \<^item> Coalescing and caches: locks exclude, a wake pass has an exact effect, sweeps remove the oldest expired rows, the tape
    cache is bounded and never serves a failed build, re-stamping a template renames the run and nothing else.
  \<^item> Submission: fingerprints identify requests, a resume token makes submits idempotent, the webhook guard refuses
    exactly the internal IPv4 addresses, the two bundle validators agree, an accepted path stays inside its bundle.
  \<^item> Evaluation: windows and folds tile their periods, the completeness check is exact, a promotion that passes has been
    earned and recorded, concurrent attempts are numbered without gap or repetition, ledgers count a replay once.
  \<^item> Simulation: every order is executed exactly once, at the right bar, or expires at the end; what happens at a bar
    does not depend on later candles; a strategy in the sandbox, called in batches, gives the simulation it gives in
    process; the bar-major driver is one simulation per symbol, merged by a stable sort;
    a run completes exactly when every check of its request passes, and a refused one builds no router.
  \<^item> Channel: every reply of a sandbox is delivered once, in order and as it was meant, if no chunk ends inside a code
    point; the head of stderr does not depend on the chunks.
  \<^item> Admission: nothing is computed that the platform has not confirmed after loading.  Randomness is a function of the seed.

  \<^bold>\<open>Parameters and hypotheses.\<close>  Code that is not part of the repository, or that is left out, is an argument: SHA-256 (the
  statements that need it assume that the compared texts do not collide), the decimal printing of numbers that are not safe
  integers, \<open>Date.parse\<close> and \<open>toISOString\<close> (parsing inverts printing), the rounding of a double (monotone, exact on integers that
  a double holds), the value a \<open>JSONB\<close> column gives back, the URL parser, \<open>JSON.parse\<close> and \<open>JSON.stringify\<close> on the
  channel (parsing inverts printing, on one line), the metric kernel, the timeframe parser, the
  platform's preflight, and for the worker its bundle loader, tape builder, engines, finalisation, evidence
  and artifact store.  The collaborators of the worker take the number of the call, so that they may answer differently
  each time.  A generator of event ids is assumed to be injective.

  \<^bold>\<open>Termination.\<close>  There is no fuel.  The walk over the bar grid is a partial function into \<open>option\<close> and is shown to return for a
  positive interval; a call of a worker is a function whose termination is proved with the rank of its program
  counter.  The boundaries of walk-forward folds are exact while the product of the span and the number of segments is at
  most \<open>2 ^ 53\<close>.

  \<^bold>\<open>Not modelled.\<close>  The execution core is a package outside the repository; what \<open>orders_accounted\<close> needs of it is the
  hypothesis \<open>portfolio_contract\<close>.  Prices and sizes are JavaScript numbers that the engine carries without computing on
  them, except for the sum of the aggregate equity, whose addition is a parameter, and the cadence, which is an exact
  quotient.  Of a context, the bar, the candles before it and the portfolio are modelled; indicators, market data and the
  generator belong to the strategy.  Left out of the engine are the assembly of a result,
  metrics and the comparison, strategies without a factory that share a module between symbols, the release of
  modules after an exception, the texts of issues, universe sessions, the death of a container and its deadlines, the
  isolate backend and the actor runtime, which is a parameter of \<open>runBacktest\<close>.  Also not modelled: the polling loop of the worker with its
  heartbeat timer, the finalisation of a result, configuration, database and HTTP plumbing, data ports,
  observability, evidence signing, the SDK's client and builder, and scripts.
\<close>

end
